(* ===== verification/Prelude.thy ===== *)
theory Prelude
  imports Main "HOL-Library.AList"
begin

text \<open>
  Shared vocabulary of the development: results of computations that may raise, Python
  dictionaries as association lists in insertion order, bounded deques, and the ASCII string
  functions the sources use.  Every raise of the program is a value of type \<open>py_exc\<close>.
\<close>

named_theorems exec_simps "equations that unfold one step of a modelled operation"
named_theorems frame_simps "fields an operation leaves alone"
named_theorems guard_intros "introduction rules of the components' invariants"

subsection \<open>Raising computations\<close>

datatype py_exc =
    TypeError
  | ValueError
  | AttributeError
  | IndexError
  | KeyError string
  | RecursionError
  | AssertionError
  | RuntimeError string
  | RuleCompileError string
  | TracePatternError string
  | DecisionDenied string "string list" "string option"
  | HumanApprovalPending string string
  | ExternalError string

type_synonym 'a result = "py_exc + 'a"

definition ebind :: "'a result \<Rightarrow> ('a \<Rightarrow> 'b result) \<Rightarrow> 'b result" where
  "ebind m f = (case m of Inl e \<Rightarrow> Inl e | Inr v \<Rightarrow> f v)"

lemma ebind_simps [simp]:
  "ebind (Inl e) f = Inl e"
  "ebind (Inr v) f = f v"
  by (simp_all add: ebind_def)

lemma ebind_cong [fundef_cong]:
  assumes "m = m'" and "\<And>v. m' = Inr v \<Longrightarrow> f v = g v"
  shows "ebind m f = ebind m' g"
  using assms by (cases m') simp_all

lemma ebind_Inr_iff: "ebind m f = Inr w \<longleftrightarrow> (\<exists>v. m = Inr v \<and> f v = Inr w)"
  by (cases m) auto

lemma ebind_Inl_iff: "ebind m f = Inl e \<longleftrightarrow> m = Inl e \<or> (\<exists>v. m = Inr v \<and> f v = Inl e)"
  by (cases m) auto

text \<open>\<open>try: return m; except Exception: return d\<close>.\<close>

definition etry :: "'a result \<Rightarrow> 'a \<Rightarrow> 'a" where
  "etry m d = (case m of Inl _ \<Rightarrow> d | Inr v \<Rightarrow> v)"

lemma etry_simps [simp]: "etry (Inl e) d = d" "etry (Inr v) d = v"
  by (simp_all add: etry_def)

fun emap :: "('a \<Rightarrow> 'b result) \<Rightarrow> 'a list \<Rightarrow> 'b list result" where
  "emap f [] = Inr []"
| "emap f (x # xs) = ebind (f x) (\<lambda>y. ebind (emap f xs) (\<lambda>ys. Inr (y # ys)))"

lemma emap_cong [fundef_cong]:
  assumes "xs = ys" and "\<And>x. x \<in> set ys \<Longrightarrow> f x = g x"
  shows "emap f xs = emap g ys"
  using assms by (induction ys arbitrary: xs) auto

text \<open>\<open>any\<close> and \<open>all\<close> over tests that may raise: evaluation stops at the first decision.\<close>

fun eany :: "('a \<Rightarrow> bool result) \<Rightarrow> 'a list \<Rightarrow> bool result" where
  "eany f [] = Inr False"
| "eany f (x # xs) = ebind (f x) (\<lambda>b. if b then Inr True else eany f xs)"

fun eall :: "('a \<Rightarrow> bool result) \<Rightarrow> 'a list \<Rightarrow> bool result" where
  "eall f [] = Inr True"
| "eall f (x # xs) = ebind (f x) (\<lambda>b. if b then eall f xs else Inr False)"

subsection \<open>Dictionaries in insertion order\<close>

type_synonym ('k, 'v) dict = "('k \<times> 'v) list"

abbreviation dict_get :: "('k, 'v) dict \<Rightarrow> 'k \<Rightarrow> 'v option" where
  "dict_get d k \<equiv> map_of d k"

abbreviation dict_set :: "'k \<Rightarrow> 'v \<Rightarrow> ('k, 'v) dict \<Rightarrow> ('k, 'v) dict" where
  "dict_set \<equiv> AList.update"

abbreviation dict_pop :: "'k \<Rightarrow> ('k, 'v) dict \<Rightarrow> ('k, 'v) dict" where
  "dict_pop \<equiv> AList.delete"

definition dict_keys :: "('k, 'v) dict \<Rightarrow> 'k list" where
  "dict_keys d = map fst d"

definition dict_values :: "('k, 'v) dict \<Rightarrow> 'v list" where
  "dict_values d = map snd d"

definition dict_getd :: "('k, 'v) dict \<Rightarrow> 'k \<Rightarrow> 'v \<Rightarrow> 'v" where
  "dict_getd d k v = (case map_of d k of None \<Rightarrow> v | Some w \<Rightarrow> w)"

text \<open>\<open>{**a, **b}\<close> and \<open>a.update(b)\<close>.\<close>

definition dict_merge :: "('k, 'v) dict \<Rightarrow> ('k, 'v) dict \<Rightarrow> ('k, 'v) dict" where
  "dict_merge a b = foldl (\<lambda>d p. dict_set (fst p) (snd p) d) a b"

text \<open>The loop \<open>for x in xs: d[key(x)] = x\<close>.\<close>

definition dict_index :: "('a \<Rightarrow> 'k) \<Rightarrow> ('k, 'a) dict \<Rightarrow> 'a list \<Rightarrow> ('k, 'a) dict" where
  "dict_index key d xs = foldl (\<lambda>d x. dict_set (key x) x d) d xs"

lemma dict_index_simps [simp]:
  "dict_index key d [] = d"
  "dict_index key d (x # xs) = dict_index key (dict_set (key x) x d) xs"
  by (simp_all add: dict_index_def)

lemma dict_index_append: "dict_index key d (xs @ ys) = dict_index key (dict_index key d xs) ys"
  by (simp add: dict_index_def)

lemma map_of_dict_set [simp]: "map_of (dict_set k v d) = (map_of d)(k \<mapsto> v)"
  by (rule update_conv')

lemma map_of_dict_pop [simp]: "map_of (dict_pop k d) = (map_of d)(k := None)"
  by (rule delete_conv')

lemma distinct_dict_index:
  "distinct (map fst d) \<Longrightarrow> distinct (map fst (dict_index key d xs))"
  by (induction xs arbitrary: d) (auto intro: distinct_update)

lemma map_of_dict_index:
  "map_of (dict_index key d xs) k =
     (case find (\<lambda>x. key x = k) (rev xs) of Some x \<Rightarrow> Some x | None \<Rightarrow> map_of d k)"
proof (induction xs rule: rev_induct)
  case Nil
  then show ?case by simp
next
  case (snoc x xs)
  then show ?case by (simp add: dict_index_append)
qed

lemma set_dict_set_subset: "set (dict_set k v d) \<subseteq> insert (k, v) (set d)"
  by (induction d) auto

lemma update_new: "k \<notin> fst ` set d \<Longrightarrow> dict_set k v d = d @ [(k, v)]"
  by (induction d) auto

subsection \<open>Bounded deques\<close>

text \<open>\<open>deque(maxlen=cap).append\<close> drops from the left, \<open>appendleft\<close> from the right.\<close>

definition push_right :: "nat \<Rightarrow> 'a list \<Rightarrow> 'a \<Rightarrow> 'a list" where
  "push_right cap xs x = drop (Suc (length xs) - cap) (xs @ [x])"

definition push_left :: "nat \<Rightarrow> 'a \<Rightarrow> 'a list \<Rightarrow> 'a list" where
  "push_left cap x xs = take cap (x # xs)"

text \<open>\<open>deque(xs, maxlen=cap)\<close> keeps the last \<open>cap\<close> elements.\<close>

definition last_n :: "nat \<Rightarrow> 'a list \<Rightarrow> 'a list" where
  "last_n n xs = drop (length xs - n) xs"

lemma length_push_right: "length (push_right cap xs x) = min cap (Suc (length xs))"
  by (simp add: push_right_def)

lemma length_push_left: "length (push_left cap x xs) = min cap (Suc (length xs))"
  by (simp add: push_left_def)

lemma length_last_n [simp]: "length (last_n n xs) = min n (length xs)"
  by (simp add: last_n_def)

lemma last_n_id [simp]: "length xs \<le> n \<Longrightarrow> last_n n xs = xs"
  by (simp add: last_n_def)

lemma push_right_last_n: "push_right cap (last_n cap xs) x = last_n cap (xs @ [x])"
proof -
  have "Suc (min cap (length xs)) - cap + (length xs - cap) = Suc (length xs) - cap"
    by (cases "cap \<le> length xs") auto
  then show ?thesis
    by (cases "cap \<le> length xs") (auto simp: push_right_def last_n_def Suc_diff_le)
qed

lemma push_left_take: "push_left cap x (take cap xs) = take cap (x # xs)"
  by (cases cap) (simp_all add: push_left_def take_Cons')

lemma last_push_right: "0 < cap \<Longrightarrow> last (push_right cap xs x) = x"
  by (simp add: push_right_def)

lemma push_right_not_Nil: "0 < cap \<Longrightarrow> push_right cap xs x \<noteq> []"
  by (auto simp: push_right_def)

lemma push_right_room: "length xs < cap \<Longrightarrow> push_right cap xs x = xs @ [x]"
  by (simp add: push_right_def)

subsection \<open>ASCII strings\<close>

definition ord :: "char \<Rightarrow> nat" where
  "ord c = of_char c"

definition is_space :: "char \<Rightarrow> bool" where
  "is_space c \<longleftrightarrow> ord c \<in> {9, 10, 11, 12, 13, 28, 29, 30, 31, 32}"

definition is_digit :: "char \<Rightarrow> bool" where
  "is_digit c \<longleftrightarrow> 48 \<le> ord c \<and> ord c \<le> 57"

definition is_alpha :: "char \<Rightarrow> bool" where
  "is_alpha c \<longleftrightarrow> 65 \<le> ord c \<and> ord c \<le> 90 \<or> 97 \<le> ord c \<and> ord c \<le> 122"

definition is_alnum :: "char \<Rightarrow> bool" where
  "is_alnum c \<longleftrightarrow> is_alpha c \<or> is_digit c"

definition lower_char :: "char \<Rightarrow> char" where
  "lower_char c = (if 65 \<le> ord c \<and> ord c \<le> 90 then char_of (ord c + 32) else c)"

definition upper_char :: "char \<Rightarrow> char" where
  "upper_char c = (if 97 \<le> ord c \<and> ord c \<le> 122 then char_of (ord c - 32) else c)"

definition str_lower :: "string \<Rightarrow> string" where
  "str_lower s = map lower_char s"

definition str_upper :: "string \<Rightarrow> string" where
  "str_upper s = map upper_char s"

text \<open>\<open>s.isupper()\<close>: at least one letter, and no lower-case one.\<close>

definition str_isupper :: "string \<Rightarrow> bool" where
  "str_isupper s \<longleftrightarrow> list_ex is_alpha s \<and> list_all (\<lambda>c. lower_char c \<noteq> c \<or> \<not> is_alpha c) s"

definition str_lstrip :: "string \<Rightarrow> string" where
  "str_lstrip s = dropWhile is_space s"

definition str_strip :: "string \<Rightarrow> string" where
  "str_strip s = rev (dropWhile is_space (rev (dropWhile is_space s)))"

definition starts_with :: "string \<Rightarrow> string \<Rightarrow> bool" where
  "starts_with s p \<longleftrightarrow> take (length p) s = p"

definition ends_with :: "string \<Rightarrow> string \<Rightarrow> bool" where
  "ends_with s p \<longleftrightarrow> starts_with (rev s) (rev p)"

fun str_contains :: "string \<Rightarrow> string \<Rightarrow> bool" where
  "str_contains [] p = (p = [])"
| "str_contains (c # s) p = (starts_with (c # s) p \<or> str_contains s p)"

fun str_join :: "string \<Rightarrow> string list \<Rightarrow> string" where
  "str_join sep [] = []"
| "str_join sep [x] = x"
| "str_join sep (x # y # ys) = x @ sep @ str_join sep (y # ys)"

lemma starts_with_iff: "starts_with s p \<longleftrightarrow> (\<exists>t. s = p @ t)"
  unfolding starts_with_def by (metis append_eq_conv_conj append_take_drop_id)

lemma ends_with_iff: "ends_with s p \<longleftrightarrow> (\<exists>t. s = t @ p)"
  unfolding ends_with_def starts_with_iff by (metis rev_append rev_rev_ident)

lemma str_contains_iff: "str_contains s p \<longleftrightarrow> (\<exists>u v. s = u @ p @ v)"
proof (induction s)
  case Nil
  then show ?case by auto
next
  case (Cons c s)
  have "(\<exists>u v. c # s = u @ p @ v) \<longleftrightarrow> (\<exists>v. c # s = p @ v) \<or> (\<exists>u v. s = u @ p @ v)"
    by (metis append_Cons append_self_conv2 list.inject neq_Nil_conv)
  with Cons show ?case by (simp add: starts_with_iff)
qed

lemma starts_with_self_append [simp]: "starts_with (p @ s) p"
  by (simp add: starts_with_iff)

text \<open>Decimal rendering, \<open>str(n)\<close>.\<close>

fun digits_of :: "nat \<Rightarrow> string" where
  "digits_of n = (if n < 10 then [char_of (48 + n)]
                  else digits_of (n div 10) @ [char_of (48 + n mod 10)])"

declare digits_of.simps [simp del]

definition str_of_nat :: "nat \<Rightarrow> string" where
  "str_of_nat n = digits_of n"

definition str_of_int :: "int \<Rightarrow> string" where
  "str_of_int i = (if i < 0 then ''-'' @ digits_of (nat (- i)) else digits_of (nat i))"

text \<open>Reading decimal digits back: the value of \<open>int(s)\<close> on a string of digits.\<close>

definition digit_val :: "char \<Rightarrow> nat" where
  "digit_val c = ord c - 48"

definition nat_of_digits :: "string \<Rightarrow> nat" where
  "nat_of_digits s = foldl (\<lambda>n c. 10 * n + digit_val c) 0 s"

lemma nat_of_digits_of: "nat_of_digits (digits_of n) = n"
proof (induction n rule: digits_of.induct)
  case (1 n)
  show ?case
  proof (cases "n < 10")
    case True
    then show ?thesis
      by (simp add: digits_of.simps [of n] nat_of_digits_def digit_val_def ord_def)
  next
    case False
    then show ?thesis
      using "1.IH"
      by (simp add: digits_of.simps [of n] nat_of_digits_def digit_val_def ord_def)
  qed
qed

end
