(* ===== verification/Values.thy ===== *)
theory Values
  imports Prelude Complex_Main
begin

text \<open>
  Python values as the policy engine sees them, with the operators the sources apply to them:
  equality, ordering, membership, truth, \<open>str\<close>/\<open>repr\<close>, hashing and attribute access.
  Strings are ASCII; floats are rationals (no NaN, infinity or rounding); dictionaries have
  string keys, in insertion order; sets are lists read up to order and repetition.
  Pydantic objects are \<open>VObj\<close> values with their declared fields; a bound method or another
  object the engine never looks into is \<open>VOpaque\<close>.
\<close>

datatype pyval =
    VNone
  | VBool bool
  | VInt int
  | VFloat rat
  | VStr string
  | VList "pyval list"
  | VTuple "pyval list"
  | VSet "pyval list"
  | VDict "(string \<times> pyval) list"
  | VObj string "(string \<times> pyval) list"
  | VOpaque string

type_synonym pydict = "(string \<times> pyval) list"

text \<open>
  What the sources use of code outside the repository: the regular-expression engine
  (\<open>None\<close> for a pattern that does not compile), URL parsing (hostname), the printing of floats
  and of framework objects, and reflective attributes (dunder names, methods of framework
  objects).  Every definition that needs one of them takes the record as an argument.
\<close>

record externals =
  re_search :: "string \<Rightarrow> string \<Rightarrow> bool option"
  url_hostname :: "string \<Rightarrow> string option result"
  float_repr :: "rat \<Rightarrow> string"
  obj_repr :: "pyval \<Rightarrow> string"
  reflect_attr :: "pyval \<Rightarrow> string \<Rightarrow> pyval option"

subsection \<open>Equality\<close>

fun num_of :: "pyval \<Rightarrow> rat option" where
  "num_of (VBool b) = Some (if b then 1 else 0)"
| "num_of (VInt i) = Some (of_int i)"
| "num_of (VFloat r) = Some r"
| "num_of _ = None"

fun py_eq :: "pyval \<Rightarrow> pyval \<Rightarrow> bool"
and py_eq_list :: "pyval list \<Rightarrow> pyval list \<Rightarrow> bool"
and py_mem :: "pyval \<Rightarrow> pyval list \<Rightarrow> bool"
and py_subset :: "pyval list \<Rightarrow> pyval list \<Rightarrow> bool"
and py_subdict :: "(string \<times> pyval) list \<Rightarrow> (string \<times> pyval) list \<Rightarrow> bool" where
  "py_eq VNone b = (b = VNone)"
| "py_eq (VBool p) b = (num_of b = Some (if p then 1 else 0))"
| "py_eq (VInt i) b = (num_of b = Some (of_int i))"
| "py_eq (VFloat r) b = (num_of b = Some r)"
| "py_eq (VStr s) b = (b = VStr s)"
| "py_eq (VList xs) b = (case b of VList ys \<Rightarrow> py_eq_list xs ys | _ \<Rightarrow> False)"
| "py_eq (VTuple xs) b = (case b of VTuple ys \<Rightarrow> py_eq_list xs ys | _ \<Rightarrow> False)"
| "py_eq (VSet xs) b = (case b of VSet ys \<Rightarrow> length xs = length ys \<and> py_subset xs ys | _ \<Rightarrow> False)"
| "py_eq (VDict d) b = (case b of VDict e \<Rightarrow> length d = length e \<and> py_subdict d e | _ \<Rightarrow> False)"
| "py_eq (VObj c d) b =
     (case b of VObj c' e \<Rightarrow> c = c' \<and> length d = length e \<and> py_subdict d e | _ \<Rightarrow> False)"
| "py_eq (VOpaque t) b = (b = VOpaque t)"
| "py_eq_list [] ys = (ys = [])"
| "py_eq_list (x # xs) ys = (case ys of [] \<Rightarrow> False | y # ys' \<Rightarrow> py_eq x y \<and> py_eq_list xs ys')"
| "py_mem x [] = False"
| "py_mem x (y # ys) = (py_eq x y \<or> py_mem x ys)"
| "py_subset [] ys = True"
| "py_subset (x # xs) ys = (py_mem x ys \<and> py_subset xs ys)"
| "py_subdict [] e = True"
| "py_subdict (p # d) e =
     ((case map_of e (fst p) of None \<Rightarrow> False | Some w \<Rightarrow> py_eq (snd p) w) \<and> py_subdict d e)"

text \<open>Values without containers, on which equality is reflexive and symmetric outright.\<close>

fun is_scalar :: "pyval \<Rightarrow> bool" where
  "is_scalar (VList _) = False"
| "is_scalar (VTuple _) = False"
| "is_scalar (VSet _) = False"
| "is_scalar (VDict _) = False"
| "is_scalar (VObj _ _) = False"
| "is_scalar _ = True"

lemma py_eq_scalar_refl [simp]: "is_scalar v \<Longrightarrow> py_eq v v"
  by (cases v) auto

lemma py_eq_VStr_left [simp]: "py_eq (VStr s) v \<longleftrightarrow> v = VStr s"
  by simp

lemma py_eq_VStr_right [simp]: "py_eq v (VStr s) \<longleftrightarrow> v = VStr s"
  by (cases v) auto

lemma py_eq_VNone_right [simp]: "py_eq v VNone \<longleftrightarrow> v = VNone"
  by (cases v) auto

lemma py_mem_VStr [simp]: "py_mem (VStr s) (map VStr ss) \<longleftrightarrow> s \<in> set ss"
  by (induction ss) auto

lemma py_mem_VStr_iff: "py_mem (VStr s) vs \<longleftrightarrow> VStr s \<in> set vs"
  by (induction vs) auto

lemma py_mem_iff: "py_mem x ys \<longleftrightarrow> (\<exists>y \<in> set ys. py_eq x y)"
  by (induction ys) auto

subsection \<open>Truth, hashing, ordering\<close>

fun py_bool :: "pyval \<Rightarrow> bool" where
  "py_bool VNone = False"
| "py_bool (VBool b) = b"
| "py_bool (VInt i) = (i \<noteq> 0)"
| "py_bool (VFloat r) = (r \<noteq> 0)"
| "py_bool (VStr s) = (s \<noteq> [])"
| "py_bool (VList xs) = (xs \<noteq> [])"
| "py_bool (VTuple xs) = (xs \<noteq> [])"
| "py_bool (VSet xs) = (xs \<noteq> [])"
| "py_bool (VDict d) = (d \<noteq> [])"
| "py_bool (VObj _ _) = True"
| "py_bool (VOpaque _) = True"

text \<open>\<open>a or b\<close>.\<close>

definition py_or :: "pyval \<Rightarrow> pyval \<Rightarrow> pyval" where
  "py_or a b = (if py_bool a then a else b)"

fun py_hashable :: "pyval \<Rightarrow> bool" where
  "py_hashable (VList _) = False"
| "py_hashable (VSet _) = False"
| "py_hashable (VDict _) = False"
| "py_hashable (VObj _ _) = False"
| "py_hashable (VTuple xs) = list_all py_hashable xs"
| "py_hashable _ = True"

fun str_less :: "string \<Rightarrow> string \<Rightarrow> bool" where
  "str_less s [] = False"
| "str_less [] (d # t) = True"
| "str_less (c # s) (d # t) = (if c = d then str_less s t else ord c < ord d)"

text \<open>\<open>a < b\<close>; \<open>None\<close> where Python raises \<open>TypeError\<close>.\<close>

fun py_lt :: "pyval \<Rightarrow> pyval \<Rightarrow> bool option"
and py_lt_list :: "pyval list \<Rightarrow> pyval list \<Rightarrow> bool option" where
  "py_lt (VStr s) b = (case b of VStr t \<Rightarrow> Some (str_less s t) | _ \<Rightarrow> None)"
| "py_lt (VList xs) b = (case b of VList ys \<Rightarrow> py_lt_list xs ys | _ \<Rightarrow> None)"
| "py_lt (VTuple xs) b = (case b of VTuple ys \<Rightarrow> py_lt_list xs ys | _ \<Rightarrow> None)"
| "py_lt (VSet xs) b =
     (case b of VSet ys \<Rightarrow> Some (py_subset xs ys \<and> \<not> py_subset ys xs) | _ \<Rightarrow> None)"
| "py_lt VNone b = None"
| "py_lt (VDict _) b = None"
| "py_lt (VObj _ _) b = None"
| "py_lt (VOpaque _) b = None"
| "py_lt (VBool p) b = map_option (\<lambda>y. (if p then 1 else 0) < y) (num_of b)"
| "py_lt (VInt i) b = map_option (\<lambda>y. of_int i < y) (num_of b)"
| "py_lt (VFloat r) b = map_option (\<lambda>y. r < y) (num_of b)"
| "py_lt_list [] ys = Some (ys \<noteq> [])"
| "py_lt_list (x # xs) ys =
     (case ys of [] \<Rightarrow> Some False
      | y # ys' \<Rightarrow> if py_eq x y then py_lt_list xs ys' else py_lt x y)"

lemma str_less_irrefl [simp]: "\<not> str_less s s"
  by (induction s) auto

lemma ord_inj: "ord c = ord d \<Longrightarrow> c = d"
  by (simp add: ord_def)

lemma str_less_trans: "str_less a b \<Longrightarrow> str_less b c \<Longrightarrow> str_less a c"
proof (induction a b arbitrary: c rule: str_less.induct)
  case (1 s)
  then show ?case by simp
next
  case (2 d t)
  then show ?case by (cases c) auto
next
  case (3 x s y t)
  then show ?case by (cases c) (auto split: if_splits)
qed

lemma str_less_linear: "str_less a b \<or> a = b \<or> str_less b a"
proof (induction a b rule: str_less.induct)
  case (1 s)
  then show ?case by (cases s) auto
next
  case (2 d t)
  then show ?case by simp
next
  case (3 c s d t)
  then show ?case using ord_inj [of c d] by (auto simp: not_less_iff_gr_or_eq)
qed

subsection \<open>Membership\<close>

text \<open>
  \<open>needle in haystack\<close> for the containers.  A set or dictionary hashes the needle first, so an
  unhashable needle raises; a set needle in a set is compared as a frozenset.
\<close>

definition py_in :: "pyval \<Rightarrow> pyval \<Rightarrow> bool result" where
  "py_in needle haystack =
     (case haystack of
        VList ys \<Rightarrow> Inr (py_mem needle ys)
      | VTuple ys \<Rightarrow> Inr (py_mem needle ys)
      | VSet ys \<Rightarrow>
          (if py_hashable needle \<or> (case needle of VSet _ \<Rightarrow> True | _ \<Rightarrow> False) then Inr (py_mem needle ys)
           else Inl TypeError)
      | VDict d \<Rightarrow>
          (if py_hashable needle
           then Inr (case needle of VStr s \<Rightarrow> s \<in> set (map fst d) | _ \<Rightarrow> False)
           else Inl TypeError)
      | _ \<Rightarrow> Inl TypeError)"

lemma py_in_VSet_VStr [simp]: "py_in (VStr s) (VSet (map VStr ss)) = Inr (s \<in> set ss)"
  by (simp add: py_in_def)

lemma py_in_VSet_unhashable:
  "\<not> py_hashable v \<Longrightarrow> (\<And>xs. v \<noteq> VSet xs) \<Longrightarrow> py_in v (VSet ys) = Inl TypeError"
  by (cases v) (auto simp: py_in_def)

text \<open>\<open>set(xs)\<close>: raises on an unhashable element.\<close>

fun py_dedup :: "pyval list \<Rightarrow> pyval list" where
  "py_dedup [] = []"
| "py_dedup (x # xs) = (if py_mem x xs then py_dedup xs else x # py_dedup xs)"

definition py_set_of :: "pyval list \<Rightarrow> pyval result" where
  "py_set_of xs = (if list_all py_hashable xs then Inr (VSet (py_dedup xs)) else Inl TypeError)"

text \<open>Elements of an iterable value: \<open>for x in v\<close>, \<open>list(v)\<close>.\<close>

fun py_iter :: "pyval \<Rightarrow> pyval list result" where
  "py_iter (VList xs) = Inr xs"
| "py_iter (VTuple xs) = Inr xs"
| "py_iter (VSet xs) = Inr xs"
| "py_iter (VDict d) = Inr (map (VStr \<circ> fst) d)"
| "py_iter (VStr s) = Inr (map (\<lambda>c. VStr [c]) s)"
| "py_iter _ = Inl TypeError"

subsection \<open>Printing\<close>

definition hex_digit :: "nat \<Rightarrow> char" where
  "hex_digit n = (if n < 10 then char_of (48 + n) else char_of (87 + n))"

definition repr_char :: "char \<Rightarrow> char \<Rightarrow> string" where
  "repr_char q c =
     (if c = q \<or> ord c = 92 then [char_of (92::nat), c]
      else if ord c = 10 then [char_of (92::nat), CHR ''n'']
      else if ord c = 13 then [char_of (92::nat), CHR ''r'']
      else if ord c = 9 then [char_of (92::nat), CHR ''t'']
      else if ord c < 32 \<or> ord c = 127
        then [char_of (92::nat), CHR ''x'', hex_digit (ord c div 16), hex_digit (ord c mod 16)]
      else [c])"

text \<open>\<open>repr\<close> of a string: single quotes unless it holds a single quote and no double one.\<close>

definition repr_str :: "string \<Rightarrow> string" where
  "repr_str s =
     (let q = (if CHR 0x27 \<in> set s \<and> CHR 0x22 \<notin> set s then CHR 0x22 else CHR 0x27)
      in [q] @ concat (map (repr_char q) s) @ [q])"

fun py_repr :: "externals \<Rightarrow> pyval \<Rightarrow> string" where
  "py_repr E VNone = ''None''"
| "py_repr E (VBool b) = (if b then ''True'' else ''False'')"
| "py_repr E (VInt i) = str_of_int i"
| "py_repr E (VFloat r) = float_repr E r"
| "py_repr E (VStr s) = repr_str s"
| "py_repr E (VList xs) = ''['' @ str_join '', '' (map (py_repr E) xs) @ '']''"
| "py_repr E (VTuple xs) =
     (case xs of [x] \<Rightarrow> ''('' @ py_repr E x @ '',)''
      | _ \<Rightarrow> ''('' @ str_join '', '' (map (py_repr E) xs) @ '')'')"
| "py_repr E (VSet xs) =
     (if xs = [] then ''set()'' else ''{'' @ str_join '', '' (map (py_repr E) xs) @ ''}'')"
| "py_repr E (VDict d) =
     ''{'' @ str_join '', '' (map (\<lambda>p. repr_str (fst p) @ '': '' @ py_repr E (snd p)) d) @ ''}''"
| "py_repr E (VObj c d) = obj_repr E (VObj c d)"
| "py_repr E (VOpaque t) = obj_repr E (VOpaque t)"

definition py_str :: "externals \<Rightarrow> pyval \<Rightarrow> string" where
  "py_str E v = (case v of VStr s \<Rightarrow> s | _ \<Rightarrow> py_repr E v)"

lemma py_str_VStr [simp]: "py_str E (VStr s) = s"
  by (simp add: py_str_def)

subsection \<open>Attributes\<close>

definition str_methods :: "string list" where
  "str_methods =
    [''capitalize'', ''casefold'', ''center'', ''count'', ''encode'', ''endswith'', ''expandtabs'',
     ''find'', ''format'', ''format_map'', ''index'', ''isalnum'', ''isalpha'', ''isascii'',
     ''isdecimal'', ''isdigit'', ''isidentifier'', ''islower'', ''isnumeric'', ''isprintable'',
     ''isspace'', ''istitle'', ''isupper'', ''join'', ''ljust'', ''lower'', ''lstrip'',
     ''maketrans'', ''partition'', ''removeprefix'', ''removesuffix'', ''replace'', ''rfind'',
     ''rindex'', ''rjust'', ''rpartition'', ''rsplit'', ''rstrip'', ''split'', ''splitlines'',
     ''startswith'', ''strip'', ''swapcase'', ''title'', ''translate'', ''upper'', ''zfill'']"

definition list_methods :: "string list" where
  "list_methods =
    [''append'', ''clear'', ''copy'', ''count'', ''extend'', ''index'', ''insert'', ''pop'',
     ''remove'', ''reverse'', ''sort'']"

definition set_methods :: "string list" where
  "set_methods =
    [''add'', ''clear'', ''copy'', ''difference'', ''difference_update'', ''discard'',
     ''intersection'', ''intersection_update'', ''isdisjoint'', ''issubset'', ''issuperset'',
     ''pop'', ''remove'', ''symmetric_difference'', ''symmetric_difference_update'', ''union'',
     ''update'']"

definition dict_methods :: "string list" where
  "dict_methods =
    [''clear'', ''copy'', ''fromkeys'', ''get'', ''items'', ''keys'', ''pop'', ''popitem'',
     ''setdefault'', ''update'', ''values'']"

definition int_methods :: "string list" where
  "int_methods = [''as_integer_ratio'', ''bit_count'', ''bit_length'', ''conjugate'',
     ''from_bytes'', ''to_bytes'']"

definition float_methods :: "string list" where
  "float_methods = [''as_integer_ratio'', ''conjugate'', ''fromhex'', ''hex'', ''is_integer'']"

definition int_attr :: "int \<Rightarrow> string \<Rightarrow> pyval option" where
  "int_attr i key =
     (if key = ''real'' \<or> key = ''numerator'' then Some (VInt i)
      else if key = ''imag'' then Some (VInt 0)
      else if key = ''denominator'' then Some (VInt 1)
      else if key \<in> set int_methods then Some (VOpaque key) else None)"

text \<open>Public attributes of the built-in types and declared fields of framework objects.\<close>

definition builtin_attr :: "pyval \<Rightarrow> string \<Rightarrow> pyval option" where
  "builtin_attr v key =
     (case v of
        VBool b \<Rightarrow> int_attr (if b then 1 else 0) key
      | VInt i \<Rightarrow> int_attr i key
      | VFloat r \<Rightarrow>
          (if key = ''real'' then Some v else if key = ''imag'' then Some (VFloat 0)
           else if key \<in> set float_methods then Some (VOpaque key) else None)
      | VStr _ \<Rightarrow> (if key \<in> set str_methods then Some (VOpaque key) else None)
      | VList _ \<Rightarrow> (if key \<in> set list_methods then Some (VOpaque key) else None)
      | VTuple _ \<Rightarrow> (if key \<in> {''count'', ''index''} then Some (VOpaque key) else None)
      | VSet _ \<Rightarrow> (if key \<in> set set_methods then Some (VOpaque key) else None)
      | VDict _ \<Rightarrow> (if key \<in> set dict_methods then Some (VOpaque key) else None)
      | VObj _ fs \<Rightarrow> map_of fs key
      | _ \<Rightarrow> None)"

text \<open>\<open>getattr(v, key)\<close> where \<open>hasattr(v, key)\<close>.\<close>

definition py_attr :: "externals \<Rightarrow> pyval \<Rightarrow> string \<Rightarrow> pyval option" where
  "py_attr E v key =
     (case builtin_attr v key of Some w \<Rightarrow> Some w | None \<Rightarrow> reflect_attr E v key)"

text \<open>\<open>d.get(k)\<close> on a value: dictionaries only.\<close>

definition py_get :: "pyval \<Rightarrow> string \<Rightarrow> pyval result" where
  "py_get v key =
     (case v of VDict d \<Rightarrow> Inr (dict_getd d key VNone) | _ \<Rightarrow> Inl AttributeError)"

definition of_option :: "('a \<Rightarrow> pyval) \<Rightarrow> 'a option \<Rightarrow> pyval" where
  "of_option f x = (case x of None \<Rightarrow> VNone | Some a \<Rightarrow> f a)"

end
