(* ===== verification/Events.thy ===== *)
theory Events
  imports Values
begin

text \<open>
  The shared schemas: runtime events, tool calls and principals (\<open>models/events.py\<close>),
  decisions, obligations and the two action vocabularies (\<open>models/decisions.py\<close>), sessions
  (\<open>models/sessions.py\<close>) and structured errors (\<open>models/errors.py\<close>).  An enumeration member is
  also a string in the sources; \<open>_value\<close> functions give that string.
\<close>

subsection \<open>Event taxonomy\<close>

datatype event_type =
    SESSION_STARTED | SESSION_ENDED | AGENT_REGISTERED | TOOL_REGISTERED | POLICY_LOADED
  | AGENT_STEP_STARTED | AGENT_STEP_COMPLETED | PLAN_PRODUCED | THOUGHT_PRODUCED | ACTION_PROPOSED
  | TOOL_CALL_REQUESTED | TOOL_CALL_APPROVED | TOOL_CALL_DENIED
  | TOOL_CALL_HUMAN_CHECK_REQUESTED | TOOL_CALL_DEGRADED | TOOL_CALL_STARTED
  | TOOL_CALL_COMPLETED | TOOL_CALL_FAILED
  | TOOL_CALL_ATTEMPT | TOOL_CALL_RESULT
  | SENSITIVE_RESOURCE_OBSERVED | SCOPE_EXPANDED | GOAL_DRIFT_DETECTED | EXTERNAL_SINK_DETECTED
  | POLICY_VIOLATION_DETECTED | HUMAN_REVIEW_RESOLVED | DYNAMIC_RULE_GENERATED
  | SUBAGENT_SPAWN | MEMORY_WRITE

primrec event_type_value :: "event_type \<Rightarrow> string" where
  "event_type_value SESSION_STARTED = ''session_started''"
| "event_type_value SESSION_ENDED = ''session_ended''"
| "event_type_value AGENT_REGISTERED = ''agent_registered''"
| "event_type_value TOOL_REGISTERED = ''tool_registered''"
| "event_type_value POLICY_LOADED = ''policy_loaded''"
| "event_type_value AGENT_STEP_STARTED = ''agent_step_started''"
| "event_type_value AGENT_STEP_COMPLETED = ''agent_step_completed''"
| "event_type_value PLAN_PRODUCED = ''plan_produced''"
| "event_type_value THOUGHT_PRODUCED = ''thought_produced''"
| "event_type_value ACTION_PROPOSED = ''action_proposed''"
| "event_type_value TOOL_CALL_REQUESTED = ''tool_call_requested''"
| "event_type_value TOOL_CALL_APPROVED = ''tool_call_approved''"
| "event_type_value TOOL_CALL_DENIED = ''tool_call_denied''"
| "event_type_value TOOL_CALL_HUMAN_CHECK_REQUESTED = ''tool_call_human_check_requested''"
| "event_type_value TOOL_CALL_DEGRADED = ''tool_call_degraded''"
| "event_type_value TOOL_CALL_STARTED = ''tool_call_started''"
| "event_type_value TOOL_CALL_COMPLETED = ''tool_call_completed''"
| "event_type_value TOOL_CALL_FAILED = ''tool_call_failed''"
| "event_type_value TOOL_CALL_ATTEMPT = ''tool_call_attempt''"
| "event_type_value TOOL_CALL_RESULT = ''tool_call_result''"
| "event_type_value SENSITIVE_RESOURCE_OBSERVED = ''sensitive_resource_observed''"
| "event_type_value SCOPE_EXPANDED = ''scope_expanded''"
| "event_type_value GOAL_DRIFT_DETECTED = ''goal_drift_detected''"
| "event_type_value EXTERNAL_SINK_DETECTED = ''external_sink_detected''"
| "event_type_value POLICY_VIOLATION_DETECTED = ''policy_violation_detected''"
| "event_type_value HUMAN_REVIEW_RESOLVED = ''human_review_resolved''"
| "event_type_value DYNAMIC_RULE_GENERATED = ''dynamic_rule_generated''"
| "event_type_value SUBAGENT_SPAWN = ''subagent_spawn''"
| "event_type_value MEMORY_WRITE = ''memory_write''"

datatype sink_type = SinkNone | SinkEmail | SinkHttp | SinkShell | SinkFsWrite | SinkDbWrite | SinkLlmOut

primrec sink_type_value :: "sink_type \<Rightarrow> string" where
  "sink_type_value SinkNone = ''none''"
| "sink_type_value SinkEmail = ''email''"
| "sink_type_value SinkHttp = ''http''"
| "sink_type_value SinkShell = ''shell''"
| "sink_type_value SinkFsWrite = ''fs_write''"
| "sink_type_value SinkDbWrite = ''db_write''"
| "sink_type_value SinkLlmOut = ''llm_out''"

datatype boundary = BInternal | BExternal | BPrivileged
datatype sensitivity = SLow | SModerate | SHigh
datatype integrity = ITrusted | IUnfiltered

primrec boundary_value :: "boundary \<Rightarrow> string" where
  "boundary_value BInternal = ''internal''"
| "boundary_value BExternal = ''external''"
| "boundary_value BPrivileged = ''privileged''"

primrec sensitivity_value :: "sensitivity \<Rightarrow> string" where
  "sensitivity_value SLow = ''low''"
| "sensitivity_value SModerate = ''moderate''"
| "sensitivity_value SHigh = ''high''"

primrec integrity_value :: "integrity \<Rightarrow> string" where
  "integrity_value ITrusted = ''trusted''"
| "integrity_value IUnfiltered = ''unfiltered''"

subsection \<open>Tool calls, principals, events\<close>

record tool_static_label =
  lb_boundary :: boundary
  lb_sensitivity :: sensitivity
  lb_integrity :: integrity
  lb_tags :: "string list"

definition default_label :: tool_static_label where
  "default_label = \<lparr>lb_boundary = BInternal, lb_sensitivity = SLow, lb_integrity = ITrusted,
     lb_tags = []\<rparr>"

record principal =
  p_agent_id :: string
  p_session_id :: string
  p_user_id :: "string option"
  p_task_id :: "string option"
  p_subagent_id :: "string option"
  p_parent_agent_id :: "string option"
  p_role :: string
  p_trust_level :: int

record tool_call =
  tc_tool_name :: string
  tc_args :: pydict
  tc_target :: pydict
  tc_sink_type :: sink_type
  tc_label :: tool_static_label
  tc_syntax :: "string list"
  tc_result :: pyval
  tc_authority :: pydict
  tc_ts_ms :: "int option"

record provenance_ref =
  pr_node_id :: string
  pr_label :: string
  pr_confidence :: rat
  pr_parent_tool_call_id :: "string option"

record runtime_event =
  ev_event_id :: string
  ev_ts_ms :: int
  ev_event_type :: event_type
  ev_principal :: principal
  ev_tool_call :: "tool_call option"
  ev_goal :: "string option"
  ev_scope :: "string list"
  ev_provenance_refs :: "provenance_ref list"
  ev_result :: pyval
  ev_trace_id :: "string option"
  ev_extra :: pydict

definition with_tool_call :: "runtime_event \<Rightarrow> tool_call \<Rightarrow> runtime_event" where
  "with_tool_call ev tc = ev\<lparr>ev_tool_call := Some tc\<rparr>"

text \<open>A tool call with every optional field at its default.\<close>

definition mk_tool_call :: "string \<Rightarrow> pydict \<Rightarrow> tool_call" where
  "mk_tool_call name args = \<lparr>tc_tool_name = name, tc_args = args, tc_target = [],
     tc_sink_type = SinkNone, tc_label = default_label, tc_syntax = [], tc_result = VNone,
     tc_authority = [], tc_ts_ms = None\<rparr>"

definition mk_principal :: "string \<Rightarrow> string \<Rightarrow> principal" where
  "mk_principal agent session = \<lparr>p_agent_id = agent, p_session_id = session, p_user_id = None,
     p_task_id = None, p_subagent_id = None, p_parent_agent_id = None, p_role = ''default'',
     p_trust_level = 0\<rparr>"

definition mk_event :: "string \<Rightarrow> int \<Rightarrow> event_type \<Rightarrow> principal \<Rightarrow> tool_call option \<Rightarrow> runtime_event" where
  "mk_event eid ts ty p tc = \<lparr>ev_event_id = eid, ev_ts_ms = ts, ev_event_type = ty,
     ev_principal = p, ev_tool_call = tc, ev_goal = None, ev_scope = [], ev_provenance_refs = [],
     ev_result = VNone, ev_trace_id = None, ev_extra = []\<rparr>"

subsection \<open>Events as Python objects\<close>

definition label_obj :: "tool_static_label \<Rightarrow> pyval" where
  "label_obj lb = VObj ''ToolStaticLabel''
     [(''boundary'', VStr (boundary_value (lb_boundary lb))),
      (''sensitivity'', VStr (sensitivity_value (lb_sensitivity lb))),
      (''integrity'', VStr (integrity_value (lb_integrity lb))),
      (''tags'', VList (map VStr (lb_tags lb)))]"

definition principal_obj :: "principal \<Rightarrow> pyval" where
  "principal_obj p = VObj ''Principal''
     [(''agent_id'', VStr (p_agent_id p)),
      (''session_id'', VStr (p_session_id p)),
      (''user_id'', of_option VStr (p_user_id p)),
      (''task_id'', of_option VStr (p_task_id p)),
      (''subagent_id'', of_option VStr (p_subagent_id p)),
      (''parent_agent_id'', of_option VStr (p_parent_agent_id p)),
      (''role'', VStr (p_role p)),
      (''trust_level'', VInt (p_trust_level p))]"

definition tool_call_obj :: "tool_call \<Rightarrow> pyval" where
  "tool_call_obj tc = VObj ''ToolCall''
     [(''tool_name'', VStr (tc_tool_name tc)),
      (''args'', VDict (tc_args tc)),
      (''target'', VDict (tc_target tc)),
      (''sink_type'', VStr (sink_type_value (tc_sink_type tc))),
      (''label'', label_obj (tc_label tc)),
      (''syntax'', VList (map VStr (tc_syntax tc))),
      (''result'', tc_result tc),
      (''authority'', VDict (tc_authority tc)),
      (''ts_ms'', of_option VInt (tc_ts_ms tc))]"

definition provenance_obj :: "provenance_ref \<Rightarrow> pyval" where
  "provenance_obj r = VObj ''ProvenanceRef''
     [(''node_id'', VStr (pr_node_id r)),
      (''label'', VStr (pr_label r)),
      (''confidence'', VFloat (pr_confidence r)),
      (''parent_tool_call_id'', of_option VStr (pr_parent_tool_call_id r))]"

definition event_fields :: "runtime_event \<Rightarrow> pydict" where
  "event_fields ev =
     [(''event_id'', VStr (ev_event_id ev)),
      (''ts_ms'', VInt (ev_ts_ms ev)),
      (''event_type'', VStr (event_type_value (ev_event_type ev))),
      (''principal'', principal_obj (ev_principal ev)),
      (''tool_call'', of_option tool_call_obj (ev_tool_call ev)),
      (''goal'', of_option VStr (ev_goal ev)),
      (''scope'', VList (map VStr (ev_scope ev))),
      (''provenance_refs'', VList (map provenance_obj (ev_provenance_refs ev))),
      (''result'', ev_result ev),
      (''trace_id'', of_option VStr (ev_trace_id ev)),
      (''extra'', VDict (ev_extra ev))]"

text \<open>\<open>getattr(ev, name, None)\<close> and \<open>getattr(ev.tool_call, name, None)\<close> for declared names.\<close>

definition event_attr :: "runtime_event \<Rightarrow> string \<Rightarrow> pyval" where
  "event_attr ev name = dict_getd (event_fields ev) name VNone"

definition tool_call_attr :: "tool_call \<Rightarrow> string \<Rightarrow> pyval" where
  "tool_call_attr tc name =
     (case builtin_attr (tool_call_obj tc) name of Some v \<Rightarrow> v | None \<Rightarrow> VNone)"

subsection \<open>Decisions\<close>

datatype action = ALLOW | DENY | LLM_CHECK | DEGRADE | HUMAN_CHECK

datatype client_action = CLIENT_ALLOW | CLIENT_DENY | CLIENT_HUMAN_CHECK

primrec action_value :: "action \<Rightarrow> string" where
  "action_value ALLOW = ''allow''"
| "action_value DENY = ''deny''"
| "action_value LLM_CHECK = ''llm_check''"
| "action_value DEGRADE = ''degrade''"
| "action_value HUMAN_CHECK = ''human_check''"

primrec client_action_value :: "client_action \<Rightarrow> string" where
  "client_action_value CLIENT_ALLOW = ''allow''"
| "client_action_value CLIENT_DENY = ''deny''"
| "client_action_value CLIENT_HUMAN_CHECK = ''human_check''"

text \<open>Lower numbers take precedence when decisions are merged.\<close>

primrec action_priority :: "action \<Rightarrow> nat" where
  "action_priority DENY = 0"
| "action_priority LLM_CHECK = 1"
| "action_priority HUMAN_CHECK = 2"
| "action_priority DEGRADE = 3"
| "action_priority ALLOW = 4"

lemma action_priority_inj: "action_priority a = action_priority b \<Longrightarrow> a = b"
  by (cases a; cases b) simp_all

record obligation =
  ob_kind :: string
  ob_params :: pydict

record decision =
  d_action :: action
  d_risk_score :: rat
  d_matched_rules :: "string list"
  d_obligations :: "obligation list"
  d_rule_version :: string
  d_ttl_ms :: int
  d_reason :: string
  d_degrade_profile :: "string option"
  d_llm_system_prompt :: "string option"
  d_client_action :: "client_action option"

definition decision_allow :: "string \<Rightarrow> string \<Rightarrow> decision" where
  "decision_allow reason version = \<lparr>d_action = ALLOW, d_risk_score = 0, d_matched_rules = [],
     d_obligations = [], d_rule_version = version, d_ttl_ms = 0, d_reason = reason,
     d_degrade_profile = None, d_llm_system_prompt = None, d_client_action = None\<rparr>"

primrec client_action_map :: "action \<Rightarrow> client_action" where
  "client_action_map ALLOW = CLIENT_ALLOW"
| "client_action_map DENY = CLIENT_DENY"
| "client_action_map HUMAN_CHECK = CLIENT_HUMAN_CHECK"
| "client_action_map LLM_CHECK = CLIENT_HUMAN_CHECK"
| "client_action_map DEGRADE = CLIENT_ALLOW"

definition to_client_action :: "decision \<Rightarrow> client_action" where
  "to_client_action d =
     (case d_client_action d of Some c \<Rightarrow> c | None \<Rightarrow> client_action_map (d_action d))"

subsection \<open>Sessions and structured errors\<close>

record guard_session =
  gs_session_id :: string
  gs_principal :: principal
  gs_goal :: "string option"
  gs_scope :: "string list"
  gs_registered_tools :: "string list"
  gs_risk_level :: rat
  gs_phase :: string

definition new_guard_session ::
  "string \<Rightarrow> principal \<Rightarrow> string option \<Rightarrow> string list \<Rightarrow> guard_session" where
  "new_guard_session sid p goal scope = \<lparr>gs_session_id = sid, gs_principal = p, gs_goal = goal,
     gs_scope = scope, gs_registered_tools = [], gs_risk_level = 0, gs_phase = ''idle''\<rparr>"

definition denied_to_structured ::
  "string \<Rightarrow> string list \<Rightarrow> string option \<Rightarrow> string option \<Rightarrow> pydict" where
  "denied_to_structured reason matched request_id suggestion =
     [(''agentguard_denied'', VBool True),
      (''reason'', VStr reason),
      (''matched_rules'', VList (map VStr matched)),
      (''suggestion'', VStr (case suggestion of None \<Rightarrow> [] | Some s \<Rightarrow> s)),
      (''request_id'', of_option VStr request_id)]"

definition pending_to_structured :: "string \<Rightarrow> string \<Rightarrow> pydict" where
  "pending_to_structured ticket reason =
     [(''agentguard_pending'', VBool True),
      (''reason'', VStr reason),
      (''ticket_id'', VStr ticket)]"

end
