(* ===== verification/Dsl_Ast.thy ===== *)
theory Dsl_Ast
  imports Values
begin

text \<open>
  Abstract syntax of the rule language (\<open>policy/dsl/ast.py\<close>).  A value position holds a literal,
  a set literal, a path or a function call; a condition is a Boolean combination of
  comparisons, standalone function calls and path queries over the execution graph.
\<close>

datatype dsl_value =
    AStr string
  | AInt int
  | AFloat rat
  | ABool bool
  | ASet "string list"
  | APath "string list"
  | AFunc dsl_func
and dsl_func = FuncCall (fc_name: string) (fc_args: "dsl_value list")
    (fc_kwargs: "(string \<times> dsl_value) list") (fc_namespace: string)

datatype dsl_expr =
    TrueExpr
  | BoolOp string dsl_expr dsl_expr
  | NotOp dsl_expr
  | Compare dsl_value string dsl_value
  | BareFunc dsl_func
  | ExistsPath "string list" int string string

record obligation_ast =
  oa_kind :: string
  oa_args :: "(string \<times> dsl_value) list"

record action_ast =
  aa_kind :: string
  aa_profile :: "string option"
  aa_obligations :: "obligation_ast list"

text \<open>A TRACE step: placeholder name and the separator leading into it.\<close>

type_synonym trace_step = "string \<times> string"
type_synonym trace_clause = "trace_step list"

record rule_ast =
  ra_rule_id :: string
  ra_tool_pattern :: string
  ra_expr :: dsl_expr
  ra_action :: action_ast
  ra_event_subtype :: string
  ra_source :: string
  ra_source_block :: string
  ra_meta :: "(string \<times> dsl_value) list"
  ra_trace_clause :: "trace_clause option"

text \<open>\<open>str(Path)\<close>: the parts joined with dots.\<close>

definition path_str :: "string list \<Rightarrow> string" where
  "path_str parts = str_join ''.'' parts"

text \<open>\<open>str\<close> of a value position, as the predicate functions apply it to their arguments.\<close>

fun ast_repr :: "externals \<Rightarrow> dsl_value \<Rightarrow> string"
and func_repr :: "externals \<Rightarrow> dsl_func \<Rightarrow> string" where
  "ast_repr E (AStr s) = repr_str s"
| "ast_repr E (AInt i) = str_of_int i"
| "ast_repr E (AFloat r) = float_repr E r"
| "ast_repr E (ABool b) = (if b then ''True'' else ''False'')"
| "ast_repr E (ASet items) = ''SetLit(items=['' @ str_join '', '' (map repr_str items) @ ''])''"
| "ast_repr E (APath parts) = ''Path(parts=['' @ str_join '', '' (map repr_str parts) @ ''])''"
| "ast_repr E (AFunc f) = func_repr E f"
| "func_repr E (FuncCall name args kwargs ns) =
     ''FuncCall(name='' @ repr_str name @ '', args=['' @ str_join '', '' (map (ast_repr E) args) @
     ''], kwargs={'' @
     str_join '', '' (map (\<lambda>p. repr_str (fst p) @ '': '' @ ast_repr E (snd p)) kwargs) @
     ''}, namespace='' @ repr_str ns @ '')''"

definition ast_str :: "externals \<Rightarrow> dsl_value \<Rightarrow> string" where
  "ast_str E a = (case a of AStr s \<Rightarrow> s | APath parts \<Rightarrow> path_str parts | _ \<Rightarrow> ast_repr E a)"

lemma ast_str_AStr [simp]: "ast_str E (AStr s) = s"
  by (simp add: ast_str_def)

text \<open>A literal value position as a Python value; the other nodes are objects.\<close>

definition ast_literal :: "externals \<Rightarrow> dsl_value \<Rightarrow> pyval" where
  "ast_literal E a =
     (case a of
        AStr s \<Rightarrow> VStr s | AInt i \<Rightarrow> VInt i | AFloat r \<Rightarrow> VFloat r | ABool b \<Rightarrow> VBool b
      | ASet items \<Rightarrow> VObj ''SetLit'' [(''items'', VList (map VStr items))]
      | APath parts \<Rightarrow> VObj ''Path'' [(''parts'', VList (map VStr parts))]
      | AFunc f \<Rightarrow> VOpaque (ast_repr E a))"

end
