(* ===== verification/Dsl_Paths.thy ===== *)
theory Dsl_Paths
  imports Events Dsl_Ast
begin

text \<open>
  Path resolution of the rule language (\<open>policy/dsl/compiler.py\<close>, aliases to
  \<open>_get_attr_or_key\<close>): TRACE placeholders, alias rewriting, event and tool-call fields, the
  \<open>tool.<param>\<close> shorthand and references into the feature dictionary.  \<open>_resolve_path\<close> and
  \<open>_lookup_ref\<close> call each other on an unknown path until the interpreter's stack is used up; the
  model counts frames.  The lemmas give the result in closed form, whatever the stack size.
\<close>

subsection \<open>Aliases\<close>

definition event_top_fields :: "string list" where
  "event_top_fields = [''principal'', ''tool_call'', ''scope'', ''goal'', ''event_type'', ''ts_ms'',
     ''event_id'', ''extra'', ''provenance_refs'', ''result'', ''trace_id'']"

definition toolcall_shortcuts :: "string list" where
  "toolcall_shortcuts = [''target'', ''args'', ''tool_name'', ''sink_type'', ''label'', ''syntax'',
     ''result'', ''authority'', ''ts_ms'']"

definition path_alias_rewrites :: "(string list \<times> string list) list" where
  "path_alias_rewrites =
     [([''caller''], [''principal'']),
      ([''tool'', ''name''], [''tool_call'', ''tool_name'']),
      ([''tool'', ''boundary''], [''tool_call'', ''label'', ''boundary'']),
      ([''tool'', ''sensitivity''], [''tool_call'', ''label'', ''sensitivity'']),
      ([''tool'', ''integrity''], [''tool_call'', ''label'', ''integrity'']),
      ([''tool'', ''tags''], [''tool_call'', ''label'', ''tags'']),
      ([''tool'', ''result''], [''tool_call'', ''result'']),
      ([''tool'', ''syntax''], [''tool_call'', ''syntax'']),
      ([''tool'', ''authority''], [''tool_call'', ''authority'']),
      ([''tool'', ''ts_ms''], [''tool_call'', ''ts_ms'']),
      ([''tool'', ''sink_type''], [''tool_call'', ''sink_type'']),
      ([''tool''], [''tool_call'']),
      ([''event'', ''type''], [''event_type'']),
      ([''event'', ''id''], [''event_id'']),
      ([''event'', ''timestamp''], [''ts_ms'']),
      ([''event'', ''session_id''], [''principal'', ''session_id''])]"

fun rewrite_prefix :: "nat list \<Rightarrow> string list \<Rightarrow> string list" where
  "rewrite_prefix [] parts = parts"
| "rewrite_prefix (n # ns) parts =
     (if n \<le> length parts
      then (case map_of path_alias_rewrites (take n parts) of
              Some target \<Rightarrow> target @ drop n parts
            | None \<Rightarrow> rewrite_prefix ns parts)
      else rewrite_prefix ns parts)"

definition rewrite_alias :: "string list \<Rightarrow> string list" where
  "rewrite_alias parts = rewrite_prefix [3, 2, 1] parts"

subsection \<open>Walking a path\<close>

definition get_attr_or_key :: "externals \<Rightarrow> pyval \<Rightarrow> string \<Rightarrow> pyval" where
  "get_attr_or_key E node key =
     (if node = VNone then VNone
      else (case py_attr E node key of
              Some v \<Rightarrow> v
            | None \<Rightarrow> (case node of VDict d \<Rightarrow> dict_getd d key VNone | _ \<Rightarrow> VNone)))"

fun walk_path :: "externals \<Rightarrow> pyval \<Rightarrow> string list \<Rightarrow> pyval" where
  "walk_path E node [] = node"
| "walk_path E node (part # tail) =
     (let node' = get_attr_or_key E node part
      in if node' = VNone then VNone else walk_path E node' tail)"

text \<open>A field of the trace entry a placeholder is bound to.\<close>

definition placeholder_field :: "pyval \<Rightarrow> string list \<Rightarrow> pyval result" where
  "placeholder_field entry tail =
     (case tail of
        [] \<Rightarrow> Inr entry
      | raw # _ \<Rightarrow>
          (let field = str_lower raw in
           if field = ''name'' then py_get entry ''tool''
           else if field \<in> {''boundary'', ''sensitivity'', ''integrity''} then
             (case entry of
                VDict d \<Rightarrow> py_get (dict_getd d ''label'' (VDict [])) field
              | _ \<Rightarrow> Inl AttributeError)
           else if field = ''result'' then py_get entry ''result''
           else
             (case entry of
                VDict d \<Rightarrow> py_get (dict_getd d ''args'' (VDict [])) raw
              | _ \<Rightarrow> Inl AttributeError)))"

definition trace_bindings :: "pydict \<Rightarrow> (string \<times> pyval) list" where
  "trace_bindings features =
     (case map_of features ''_trace_bindings'' of Some (VDict d) \<Rightarrow> d | _ \<Rightarrow> [])"

text \<open>The node and remaining parts for a path whose head names an event or tool-call field.\<close>

definition field_start :: "string list \<Rightarrow> runtime_event \<Rightarrow> (pyval \<times> string list) option" where
  "field_start parts ev =
     (case parts of
        [] \<Rightarrow> None
      | first # tail \<Rightarrow>
          if first \<in> set event_top_fields then
            (case tail of
               head # tail' \<Rightarrow>
                 if first = ''tool_call'' \<and> head \<notin> set toolcall_shortcuts \<and> head \<noteq> ''tool_name'' then
                   (case ev_tool_call ev of
                      Some tc \<Rightarrow>
                        (case map_of (tc_args tc) head of
                           Some v \<Rightarrow> Some (v, tail')
                         | None \<Rightarrow> Some (event_attr ev first, tail))
                    | None \<Rightarrow> Some (event_attr ev first, tail))
                 else Some (event_attr ev first, tail)
             | [] \<Rightarrow> Some (event_attr ev first, tail))
          else if first \<in> set toolcall_shortcuts then
            Some (case ev_tool_call ev of Some tc \<Rightarrow> tool_call_attr tc first | None \<Rightarrow> VNone, tail)
          else None)"

fun resolve_rec ::
  "externals \<Rightarrow> nat \<Rightarrow> string list \<Rightarrow> runtime_event \<Rightarrow> pydict \<Rightarrow> pyval result"
and lookup_rec ::
  "externals \<Rightarrow> nat \<Rightarrow> string list \<Rightarrow> runtime_event \<Rightarrow> pydict \<Rightarrow> pyval result" where
  "resolve_rec E 0 parts ev features = Inl RecursionError"
| "resolve_rec E (Suc n) parts ev features =
     (let bindings = trace_bindings features in
      if parts = [] then Inl IndexError
      else (case map_of bindings (hd parts) of
              Some entry \<Rightarrow> placeholder_field entry (tl parts)
            | None \<Rightarrow>
                (let parts' = rewrite_alias parts in
                 case field_start parts' ev of
                   Some (node, tail) \<Rightarrow> Inr (walk_path E node tail)
                 | None \<Rightarrow> lookup_rec E n parts' ev features)))"
| "lookup_rec E 0 parts ev features = Inl RecursionError"
| "lookup_rec E (Suc n) parts ev features =
     (let key = path_str parts in
      case map_of features key of
        Some v \<Rightarrow> Inr v
      | None \<Rightarrow>
          (let fb = (if length parts = 2 \<and> parts ! 0 = ''allowlist''
                     then dict_getd features (''allowlist.'' @ parts ! 1) VNone else VNone)
           in if fb \<noteq> VNone then Inr fb
              else Inr (etry (resolve_rec E n parts ev []) VNone)))"

text \<open>The interpreter's recursion limit.\<close>

definition stack_limit :: nat where
  "stack_limit = 1000"

definition resolve_path :: "externals \<Rightarrow> string list \<Rightarrow> runtime_event \<Rightarrow> pydict \<Rightarrow> pyval result" where
  "resolve_path E parts ev features = resolve_rec E stack_limit parts ev features"

definition lookup_ref :: "externals \<Rightarrow> string list \<Rightarrow> runtime_event \<Rightarrow> pydict \<Rightarrow> pyval" where
  "lookup_ref E parts ev features = etry (lookup_rec E stack_limit parts ev features) VNone"

subsection \<open>Closed form\<close>

text \<open>What a path means without bindings or features: an event field, or nothing.\<close>

definition event_path :: "externals \<Rightarrow> string list \<Rightarrow> runtime_event \<Rightarrow> pyval" where
  "event_path E parts ev =
     (case field_start (rewrite_alias parts) ev of
        Some (node, tail) \<Rightarrow> walk_path E node tail | None \<Rightarrow> VNone)"

definition lookup_spec :: "externals \<Rightarrow> string list \<Rightarrow> runtime_event \<Rightarrow> pydict \<Rightarrow> pyval" where
  "lookup_spec E parts ev features =
     (case map_of features (path_str parts) of Some v \<Rightarrow> v | None \<Rightarrow> event_path E parts ev)"

definition resolve_spec ::
  "externals \<Rightarrow> string list \<Rightarrow> runtime_event \<Rightarrow> pydict \<Rightarrow> pyval result" where
  "resolve_spec E parts ev features =
     (if parts = [] then Inl IndexError
      else (case map_of (trace_bindings features) (hd parts) of
              Some entry \<Rightarrow> placeholder_field entry (tl parts)
            | None \<Rightarrow>
                (case field_start (rewrite_alias parts) ev of
                   Some (node, tail) \<Rightarrow> Inr (walk_path E node tail)
                 | None \<Rightarrow>
                     Inr (case map_of features (path_str (rewrite_alias parts)) of
                            Some v \<Rightarrow> v | None \<Rightarrow> VNone))))"

lemma trace_bindings_Nil [simp]: "trace_bindings [] = []"
  by (simp add: trace_bindings_def)

lemma rewrite_prefix_id:
  "(\<And>n. n \<in> set ns \<Longrightarrow> n \<le> length parts \<Longrightarrow> map_of path_alias_rewrites (take n parts) = None) \<Longrightarrow>
     rewrite_prefix ns parts = parts"
  by (induction ns) auto

text \<open>A path that no field starts is left alone by a second rewriting.\<close>

lemma rewrite_prefix_hit:
  "rewrite_prefix ns parts = parts \<or>
     (\<exists>k target rest. (k, target) \<in> set path_alias_rewrites \<and> rewrite_prefix ns parts = target @ rest)"
  by (induction ns) (auto split: option.splits dest!: map_of_SomeD)

lemma alias_targets_are_fields:
  "(k, target) \<in> set path_alias_rewrites \<Longrightarrow> target \<noteq> [] \<and> hd target \<in> set event_top_fields"
  by (auto simp: path_alias_rewrites_def event_top_fields_def)

lemma field_start_top:
  "parts \<noteq> [] \<Longrightarrow> hd parts \<in> set event_top_fields \<Longrightarrow> field_start parts ev \<noteq> None"
  by (cases parts) (auto simp: field_start_def split: list.splits option.splits)

lemma rewrite_alias_unknown:
  assumes "field_start (rewrite_alias parts) ev = None"
  shows "rewrite_alias parts = parts"
proof (rule ccontr)
  assume "rewrite_alias parts \<noteq> parts"
  then obtain k target rest where "(k, target) \<in> set path_alias_rewrites"
    "rewrite_alias parts = target @ rest"
    using rewrite_prefix_hit [of "[3, 2, 1]" parts] unfolding rewrite_alias_def by blast
  then show False
    using alias_targets_are_fields field_start_top [of "target @ rest" ev] assms by fastforce
qed

lemma rewrite_alias_Nil: "rewrite_alias parts = [] \<longleftrightarrow> parts = []"
proof
  assume nil: "rewrite_alias parts = []"
  then have "field_start (rewrite_alias parts) ev = None" for ev by (simp add: field_start_def)
  with nil show "parts = []" using rewrite_alias_unknown by metis
next
  assume "parts = []"
  then show "rewrite_alias parts = []" by (simp add: rewrite_alias_def)
qed

text \<open>
  With no features the two functions call each other until the stack is gone; the handler in
  \<open>_lookup_ref\<close> turns that into \<open>None\<close> at every depth.
\<close>

lemma lookup_rec_event:
  "lookup_rec E (Suc n) parts ev [] = Inr (if n = 0 then VNone else event_path E parts ev)"
proof (induction n rule: less_induct)
  case (less n)
  show ?case
  proof (cases n)
    case 0
    then show ?thesis by (simp add: Let_def dict_getd_def)
  next
    case (Suc m)
    show ?thesis
    proof (cases "field_start (rewrite_alias parts) ev")
      case (Some p)
      then have "parts \<noteq> []" by (auto simp: field_start_def rewrite_alias_def)
      with Some Suc show ?thesis
        by (cases p) (simp add: Let_def dict_getd_def event_path_def)
    next
      case None
      then have id: "rewrite_alias parts = parts" by (rule rewrite_alias_unknown)
      have "lookup_rec E m parts ev [] = Inr VNone \<or> m = 0"
      proof (cases m)
        case (Suc k)
        with less [of k] \<open>n = Suc m\<close> None show ?thesis by (auto simp: event_path_def)
      qed simp
      with None Suc id show ?thesis
        by (auto simp: Let_def dict_getd_def event_path_def)
    qed
  qed
qed

lemma lookup_rec_closed:
  assumes "2 \<le> n"
  shows "lookup_rec E n parts ev features = Inr (lookup_spec E parts ev features)"
proof -
  obtain m where n: "n = Suc (Suc m)" using assms by (metis add_2_eq_Suc le_Suc_ex)
  have alive: "etry (resolve_rec E (Suc m) parts ev []) VNone = event_path E parts ev"
    using lookup_rec_event [of E "Suc m" parts ev]
    by (simp add: Let_def dict_getd_def split: if_splits del: resolve_rec.simps)
  have dead: "dict_getd features (''allowlist.'' @ parts ! 1) VNone = VNone"
    if "map_of features (path_str parts) = None" "length parts = 2" "parts ! 0 = ''allowlist''"
  proof -
    have "parts = [''allowlist'', parts ! 1]"
      using that by (cases parts; cases "tl parts") auto
    then have "path_str parts = ''allowlist.'' @ parts ! 1"
      by (metis append_Cons append_Nil path_str_def str_join.simps(2,3))
    with that show ?thesis by (simp add: dict_getd_def)
  qed
  show ?thesis
    unfolding n using alive dead by (auto simp: lookup_spec_def Let_def split: option.splits)
qed

lemma resolve_rec_closed:
  assumes "3 \<le> n"
  shows "resolve_rec E n parts ev features = resolve_spec E parts ev features"
proof -
  obtain m where n: "n = Suc m" "2 \<le> m" using assms by (cases n) auto
  show ?thesis
  proof (cases "field_start (rewrite_alias parts) ev")
    case None
    then have "rewrite_alias parts = parts" by (rule rewrite_alias_unknown)
    then show ?thesis
      unfolding n(1) using lookup_rec_closed [OF n(2)] None
      by (auto simp: resolve_spec_def Let_def lookup_spec_def event_path_def split: option.splits)
  next
    case (Some p)
    then show ?thesis
      unfolding n(1) by (auto simp: resolve_spec_def Let_def split: option.splits)
  qed
qed

lemma resolve_path_closed [exec_simps]: "resolve_path E parts ev features = resolve_spec E parts ev features"
  unfolding resolve_path_def stack_limit_def by (rule resolve_rec_closed) simp

lemma lookup_ref_closed [exec_simps]: "lookup_ref E parts ev features = lookup_spec E parts ev features"
  unfolding lookup_ref_def stack_limit_def by (subst lookup_rec_closed) simp_all

end
