(* ===== verification/Dsl_Operators.thy ===== *)
theory Dsl_Operators
  imports Values
begin

text \<open>
  The comparison operators of conditions (\<open>_apply_op\<close>, \<open>_safe_lt\<close>, \<open>_in\<close>, \<open>_matches\<close>,
  \<open>_contains\<close>) and label patterns (\<open>_label_match_any\<close>) of \<open>policy/dsl/compiler.py\<close>.
\<close>

definition safe_lt :: "pyval \<Rightarrow> pyval \<Rightarrow> bool" where
  "safe_lt a b = (case py_lt a b of None \<Rightarrow> False | Some r \<Rightarrow> r)"

text \<open>\<open>needle in haystack\<close> on any right-hand side: strings search, scalars raise.\<close>

definition py_in_any :: "pyval \<Rightarrow> pyval \<Rightarrow> bool result" where
  "py_in_any needle haystack =
     (case haystack of
        VStr s \<Rightarrow> (case needle of VStr t \<Rightarrow> Inr (str_contains s t) | _ \<Rightarrow> Inl TypeError)
      | _ \<Rightarrow> py_in needle haystack)"

fun is_collection :: "pyval \<Rightarrow> bool" where
  "is_collection (VSet _) = True"
| "is_collection (VList _) = True"
| "is_collection (VTuple _) = True"
| "is_collection _ = False"

fun is_container :: "pyval \<Rightarrow> bool" where
  "is_container (VDict _) = True"
| "is_container v = is_collection v"

definition op_in :: "pyval \<Rightarrow> pyval \<Rightarrow> bool result" where
  "op_in needle haystack =
     (if haystack = VNone then Inr False
      else if is_container haystack then py_in needle haystack
      else (case haystack of VStr s \<Rightarrow> Inr (py_eq needle haystack) | _ \<Rightarrow> Inr False))"

definition op_matches :: "externals \<Rightarrow> pyval \<Rightarrow> pyval \<Rightarrow> bool" where
  "op_matches E left pattern =
     (case pattern of
        VStr p \<Rightarrow>
          if left = VNone then False
          else (case re_search E p (py_str E left) of None \<Rightarrow> False | Some hit \<Rightarrow> hit)
      | _ \<Rightarrow> False)"

definition op_contains :: "pyval \<Rightarrow> pyval \<Rightarrow> bool result" where
  "op_contains haystack needle =
     (if haystack = VNone then Inr False
      else if is_container haystack then py_in needle haystack
      else (case haystack of
              VStr s \<Rightarrow> (case needle of VStr t \<Rightarrow> Inr (str_contains s t) | _ \<Rightarrow> Inr False)
            | _ \<Rightarrow> Inr False))"

definition apply_op :: "externals \<Rightarrow> string \<Rightarrow> pyval \<Rightarrow> pyval \<Rightarrow> bool result" where
  "apply_op E op left right =
     (if op = ''=='' then Inr (py_eq left right)
      else if op = ''!='' then Inr (\<not> py_eq left right)
      else if op = ''<'' then Inr (safe_lt left right)
      else if op = ''<='' then Inr (py_eq left right \<or> safe_lt left right)
      else if op = ''>'' then Inr (safe_lt right left)
      else if op = ''>='' then Inr (py_eq left right \<or> safe_lt right left)
      else if op = ''IN'' then op_in left right
      else if op = ''NOT_IN'' then ebind (op_in left right) (\<lambda>b. Inr (\<not> b))
      else if op = ''MATCHES'' then Inr (op_matches E left right)
      else if op = ''CONTAINS'' then op_contains left right
      else Inl (RuleCompileError (''unsupported operator '' @ repr_str op)))"

text \<open>Label patterns: \<open>a/*\<close> covers \<open>a\<close>, \<open>a/...\<close> and \<open>a....\<close>; a trailing star is a prefix.\<close>

definition label_matches :: "string \<Rightarrow> string \<Rightarrow> bool" where
  "label_matches pattern lbl =
     (if ends_with pattern ''/*'' then
        (let prefix = take (length pattern - 2) pattern
         in lbl = prefix \<or> starts_with lbl (prefix @ ''/'') \<or> starts_with lbl (prefix @ ''.''))
      else if ends_with pattern ''*'' then starts_with lbl (take (length pattern - 1) pattern)
      else lbl = pattern)"

definition on_str :: "(string \<Rightarrow> bool) \<Rightarrow> pyval \<Rightarrow> bool result" where
  "on_str P v = (case v of VStr s \<Rightarrow> Inr (P s) | _ \<Rightarrow> Inl AttributeError)"

definition label_match_any :: "string \<Rightarrow> pyval \<Rightarrow> bool result" where
  "label_match_any pattern labels =
     (if ends_with pattern ''/*'' then
        (let prefix = take (length pattern - 2) pattern
         in ebind (py_iter labels) (eany (\<lambda>lbl. if py_eq lbl (VStr prefix) then Inr True
              else on_str (\<lambda>s. starts_with s (prefix @ ''/'') \<or> starts_with s (prefix @ ''.'')) lbl)))
      else if ends_with pattern ''*'' then
        ebind (py_iter labels) (eany (on_str (\<lambda>s. starts_with s (take (length pattern - 1) pattern))))
      else py_in_any (VStr pattern) labels)"

subsection \<open>Lemmas\<close>

lemma eany_map_Inr [simp]: "eany (\<lambda>x. Inr (P x)) xs = Inr (\<exists>x \<in> set xs. P x)"
  by (induction xs) auto

lemma eall_map_Inr [simp]: "eall (\<lambda>x. Inr (P x)) xs = Inr (\<forall>x \<in> set xs. P x)"
  by (induction xs) auto

lemma eany_map: "eany f (map g xs) = eany (\<lambda>x. f (g x)) xs"
  by (induction xs) (simp_all cong: if_cong)

lemma eall_map: "eall f (map g xs) = eall (\<lambda>x. f (g x)) xs"
  by (induction xs) (simp_all cong: if_cong)

lemma on_str_VStr [simp]: "on_str P (VStr s) = Inr (P s)"
  by (simp add: on_str_def)

lemma label_match_any_strings:
  "label_match_any pattern (VList (map VStr labels)) = Inr (\<exists>lbl \<in> set labels. label_matches pattern lbl)"
proof -
  have "eany (\<lambda>s. if s = p then Inr True else Inr (P s)) labels = Inr (\<exists>s \<in> set labels. s = p \<or> P s)"
    for p P by (induction labels) auto
  then show ?thesis
    by (auto simp: label_match_any_def label_matches_def Let_def eany_map py_in_any_def py_in_def
        cong: if_cong)
qed

text \<open>The ordered comparisons are total on numbers and on strings, and false across types.\<close>

lemma apply_op_trichotomy:
  assumes "num_of a \<noteq> None" and "num_of b \<noteq> None"
  shows "safe_lt a b \<noteq> (py_eq a b \<or> safe_lt b a)"
  using assms by (cases a; cases b) (auto simp: safe_lt_def split: if_splits)

lemma safe_lt_str [simp]: "safe_lt (VStr s) (VStr t) \<longleftrightarrow> str_less s t"
  by (simp add: safe_lt_def)

lemma safe_lt_None [simp]: "safe_lt VNone v = False" "safe_lt v VNone = False"
  by (simp_all add: safe_lt_def, cases v) simp_all

lemma op_in_set_str [simp]: "op_in (VStr s) (VSet (map VStr ss)) = Inr (s \<in> set ss)"
  by (simp add: op_in_def)

lemma not_in_negates: "apply_op E ''NOT_IN'' a b = ebind (apply_op E ''IN'' a b) (\<lambda>r. Inr (\<not> r))"
  by (simp add: apply_op_def)

lemma op_in_unhashable:
  assumes "\<not> py_hashable v" and "\<And>xs. v \<noteq> VSet xs"
  shows "op_in v (VSet ys) = Inl TypeError"
  using assms by (simp add: op_in_def py_in_VSet_unhashable)

end
