(* ===== verification/Trace_Binding.thy ===== *)
theory Trace_Binding
  imports Dsl_Ast
begin

text \<open>
  Matching of a TRACE clause with named placeholders against the chronological list of trace
  entries (\<open>match_with_bindings\<close> in \<open>policy/dsl/trace_pattern.py\<close>).  The backtracking search is
  modelled with the list of results in the order the code appends them.  Three groups of lemmas:
  the results are exactly the bindings of the position lists the separators allow; a match exists
  iff enough entries do; the returned (last) result is always the tail of the trace.
\<close>

subsection \<open>The search\<close>

fun backtrack ::
  "bool \<Rightarrow> trace_clause \<Rightarrow> 'e list \<Rightarrow> nat \<Rightarrow> (string, 'e) dict \<Rightarrow> (string, 'e) dict list" where
  "backtrack first [] tr start b = [b]"
| "backtrack first ((name, sep) # steps) tr start b =
     (let n = length tr;
          visit = (\<lambda>i. backtrack False steps tr (Suc i) (dict_set name (tr ! i) b))
      in if first then concat (map visit [0..<n])
         else if sep = ''->'' \<or> sep = [] then (if start < n then visit start else [])
         else if sep = ''-> *'' then (if Suc start < n then visit (Suc start) else [])
         else if sep = ''-> ...'' then concat (map visit [Suc start..<n])
         else if sep = ''-> ...?'' then concat (map visit [start..<n])
         else [])"

definition match_with_bindings :: "trace_clause \<Rightarrow> 'e list \<Rightarrow> (string, 'e) dict option" where
  "match_with_bindings steps tr =
     (if steps = [] \<or> tr = [] then None
      else (let results = backtrack True steps tr 0 []
            in if results = [] then None else Some (last results)))"

subsection \<open>What the separators promise\<close>

text \<open>May the next placeholder sit at position \<open>p\<close>, when \<open>start\<close> follows the previous one?\<close>

definition sep_allows :: "string \<Rightarrow> nat \<Rightarrow> nat \<Rightarrow> bool" where
  "sep_allows sep start p \<longleftrightarrow>
     (sep = ''->'' \<or> sep = []) \<and> p = start \<or>
     sep = ''-> *'' \<and> p = Suc start \<or>
     sep = ''-> ...'' \<and> Suc start \<le> p \<or>
     sep = ''-> ...?'' \<and> start \<le> p"

fun embeds_rest :: "trace_clause \<Rightarrow> nat \<Rightarrow> nat \<Rightarrow> nat list \<Rightarrow> bool" where
  "embeds_rest [] n start ps = (ps = [])"
| "embeds_rest (s # steps) n start ps =
     (case ps of [] \<Rightarrow> False
      | p # qs \<Rightarrow> sep_allows (snd s) start p \<and> p < n \<and> embeds_rest steps n (Suc p) qs)"

fun embeds :: "trace_clause \<Rightarrow> nat \<Rightarrow> nat list \<Rightarrow> bool" where
  "embeds [] n ps = (ps = [])"
| "embeds (s # steps) n ps =
     (case ps of [] \<Rightarrow> False | p # qs \<Rightarrow> p < n \<and> embeds_rest steps n (Suc p) qs)"

fun bind_at :: "trace_clause \<Rightarrow> 'e list \<Rightarrow> nat list \<Rightarrow> (string, 'e) dict \<Rightarrow> (string, 'e) dict" where
  "bind_at (s # steps) tr (p # ps) b = bind_at steps tr ps (dict_set (fst s) (tr ! p) b)"
| "bind_at _ tr _ b = b"

lemma backtrack_rest_results:
  "set (backtrack False steps tr start b)
     = {bind_at steps tr ps b | ps. embeds_rest steps (length tr) start ps}"
proof (induction steps arbitrary: start b)
  case Nil
  then show ?case by simp
next
  case (Cons s steps)
  obtain name sep where s: "s = (name, sep)" by (cases s)
  have visit: "set (backtrack False steps tr (Suc p) (dict_set name (tr ! p) b))
      = {bind_at (s # steps) tr (p # ps) b | ps. embeds_rest steps (length tr) (Suc p) ps}" for p
    by (simp add: Cons.IH s)
  have rhs: "{bind_at (s # steps) tr ps b | ps. embeds_rest (s # steps) (length tr) start ps}
     = (\<Union>p \<in> {p. sep_allows sep start p \<and> p < length tr}.
          {bind_at (s # steps) tr (p # ps) b | ps. embeds_rest steps (length tr) (Suc p) ps})"
    (is "?L = ?R")
  proof
    show "?L \<subseteq> ?R"
    proof
      fix x assume "x \<in> ?L"
      then obtain ps where ps: "x = bind_at (s # steps) tr ps b"
        "embeds_rest (s # steps) (length tr) start ps" by blast
      then obtain p qs where "ps = p # qs" by (cases ps) auto
      with ps show "x \<in> ?R" by (auto simp: s)
    qed
    show "?R \<subseteq> ?L"
    proof
      fix x assume "x \<in> ?R"
      then obtain p ps where "sep_allows sep start p" "p < length tr"
        "x = bind_at (s # steps) tr (p # ps) b" "embeds_rest steps (length tr) (Suc p) ps" by blast
      then show "x \<in> ?L" by (intro CollectI exI [of _ "p # ps"]) (simp add: s)
    qed
  qed
  have "set (backtrack False (s # steps) tr start b)
     = (\<Union>p \<in> {p. sep_allows sep start p \<and> p < length tr}.
          set (backtrack False steps tr (Suc p) (dict_set name (tr ! p) b)))"
    by (auto simp: s Let_def sep_allows_def)
  with rhs visit show ?case by simp
qed

lemma backtrack_results:
  assumes "steps \<noteq> []"
  shows "set (backtrack True steps tr 0 b)
     = {bind_at steps tr ps b | ps. embeds steps (length tr) ps}"
proof -
  obtain name sep rest where steps: "steps = (name, sep) # rest"
    using assms by (cases steps) auto
  have visit: "set (backtrack False rest tr (Suc p) (dict_set name (tr ! p) b))
      = {bind_at steps tr (p # ps) b | ps. embeds_rest rest (length tr) (Suc p) ps}" for p
    by (simp add: backtrack_rest_results steps)
  have "set (backtrack True steps tr 0 b)
     = (\<Union>p \<in> {..<length tr}. set (backtrack False rest tr (Suc p) (dict_set name (tr ! p) b)))"
    by (auto simp: steps Let_def)
  also have "\<dots> = {bind_at steps tr ps b | ps. embeds steps (length tr) ps}" (is "?L = ?R")
  proof
    show "?L \<subseteq> ?R"
    proof
      fix x assume "x \<in> ?L"
      then obtain p ps where "p < length tr" "x = bind_at steps tr (p # ps) b"
        "embeds_rest rest (length tr) (Suc p) ps" unfolding visit by blast
      then show "x \<in> ?R" by (intro CollectI exI [of _ "p # ps"]) (simp add: steps)
    qed
    show "?R \<subseteq> ?L"
    proof
      fix x assume "x \<in> ?R"
      then obtain ps where "x = bind_at steps tr ps b" "embeds steps (length tr) ps" by blast
      then obtain p qs where "ps = p # qs" "p < length tr" "embeds_rest rest (length tr) (Suc p) qs"
        by (cases ps) (auto simp: steps)
      with \<open>x = _\<close> show "x \<in> ?L" unfolding visit by blast
    qed
  qed
  finally show ?thesis .
qed

subsection \<open>How many entries a clause needs\<close>

definition sep_gap :: "string \<Rightarrow> nat option" where
  "sep_gap sep =
     (if sep = ''->'' \<or> sep = [] then Some 1
      else if sep = ''-> *'' then Some 2
      else if sep = ''-> ...'' then Some 2
      else if sep = ''-> ...?'' then Some 1
      else None)"

fun need_rest :: "trace_clause \<Rightarrow> nat option" where
  "need_rest [] = Some 0"
| "need_rest (s # steps) =
     (case sep_gap (snd s) of None \<Rightarrow> None
      | Some g \<Rightarrow> (case need_rest steps of None \<Rightarrow> None | Some k \<Rightarrow> Some (g + k)))"

text \<open>The placeholders bound to the last entries, each gap as short as its separator allows.\<close>

fun bind_tail :: "trace_clause \<Rightarrow> 'e list \<Rightarrow> nat \<Rightarrow> (string, 'e) dict \<Rightarrow> (string, 'e) dict" where
  "bind_tail [] tr start b = b"
| "bind_tail (s # steps) tr start b =
     (case sep_gap (snd s) of None \<Rightarrow> b
      | Some g \<Rightarrow> bind_tail steps tr (start + g) (dict_set (fst s) (tr ! (start + g - 1)) b))"

lemma backtrack_rest_empty:
  assumes "start \<le> length tr"
    and "\<And>k. need_rest steps = Some k \<Longrightarrow> length tr < start + k"
  shows "backtrack False steps tr start b = []"
  using assms
proof (induction steps arbitrary: start b)
  case Nil
  then show ?case by force
next
  case (Cons s steps)
  obtain name sep where s: "s = (name, sep)" by (cases s)
  have IH: "backtrack False steps tr (Suc p) (dict_set name (tr ! p) b) = []"
    if "p < length tr" "\<And>k. need_rest steps = Some k \<Longrightarrow> length tr < Suc p + k" for p
    using that by (intro Cons.IH) auto
  show ?case
  proof (cases "sep_gap sep")
    case None
    then show ?thesis by (auto simp: s Let_def sep_gap_def split: if_splits)
  next
    case (Some g)
    have "backtrack False steps tr (Suc p) (dict_set name (tr ! p) b) = []"
      if "start + g \<le> Suc p" "p < length tr" for p
      using that Cons.prems(2) Some by (intro IH) (auto simp: s split: option.splits)
    with Some show ?thesis
      by (cases "g = 1") (auto simp: s Let_def sep_gap_def split: if_splits)
  qed
qed

lemma concat_map_only:
  assumes "a < n" and "\<And>i. a < i \<Longrightarrow> i < n \<Longrightarrow> f i = []"
  shows "concat (map f [a..<n]) = f a"
proof -
  have "concat (map f [Suc a..<n]) = []" using assms(2) by auto
  with assms(1) show ?thesis by (simp add: upt_conv_Cons)
qed

lemma backtrack_rest_tight:
  assumes "need_rest steps = Some k" and "start + k = length tr"
  shows "backtrack False steps tr start b = [bind_tail steps tr start b]"
  using assms
proof (induction steps arbitrary: start b k)
  case Nil
  then show ?case by simp
next
  case (Cons s steps)
  obtain name sep where s: "s = (name, sep)" by (cases s)
  obtain g k' where g: "sep_gap sep = Some g" and k': "need_rest steps = Some k'" "k = g + k'"
    using Cons.prems(1) by (auto simp: s split: option.splits)
  have IH: "backtrack False steps tr (start + g) b' = [bind_tail steps tr (start + g) b']" for b'
    using Cons.IH [OF k'(1)] Cons.prems(2) k'(2) by simp
  have none: "backtrack False steps tr (Suc p) b' = []"
    if "start + g - 1 < p" "p < length tr" for p b'
    using that k' Cons.prems(2) by (intro backtrack_rest_empty) auto
  have room: "start + g \<le> length tr" using Cons.prems(2) k'(2) by simp
  let ?v = "\<lambda>i. backtrack False steps tr (Suc i) (dict_set name (tr ! i) b)"
  have one: "concat (map ?v [start..<length tr]) = ?v start" if "g = 1"
    using that room none by (intro concat_map_only) auto
  have two: "concat (map ?v [Suc start..<length tr]) = ?v (Suc start)" if "g = 2"
    using that room none by (intro concat_map_only) auto
  show ?case
    using g IH room one two
    by (auto simp: s Let_def sep_gap_def split: if_splits)
qed

lemma last_concat_map:
  assumes "m < n" and "f m \<noteq> []" and "\<And>i. m < i \<Longrightarrow> i < n \<Longrightarrow> f i = []"
  shows "concat (map f [0..<n]) \<noteq> [] \<and> last (concat (map f [0..<n])) = last (f m)"
proof -
  have "[0..<n] = [0..<m] @ [m..<n]"
    using assms(1) by (metis less_imp_le_nat upt_add_eq_append le_add_diff_inverse zero_le)
  moreover have "concat (map f [m..<n]) = f m"
    using assms by (intro concat_map_only) auto
  ultimately show ?thesis using assms(2) by simp
qed

lemma match_with_bindings_Cons:
  "match_with_bindings ((name, sep) # rest) tr =
     (case need_rest rest of
        None \<Rightarrow> None
      | Some k \<Rightarrow>
          if k < length tr
          then Some (bind_tail rest tr (length tr - k) [(name, tr ! (length tr - k - 1))])
          else None)"
proof (cases "need_rest rest")
  case None
  have "backtrack False rest tr (Suc i) b = []" if "i < length tr" for i b
    using that None by (intro backtrack_rest_empty) auto
  then show ?thesis by (auto simp: None match_with_bindings_def Let_def)
next
  case (Some k)
  let ?f = "\<lambda>i. backtrack False rest tr (Suc i) [(name, tr ! i)]"
  have empty: "?f i = []" if "length tr < Suc i + k" "i < length tr" for i
    using that Some by (intro backtrack_rest_empty) auto
  show ?thesis
  proof (cases "k < length tr")
    case True
    let ?m = "length tr - k - 1"
    have m: "?m < length tr" "Suc ?m = length tr - k" using True by auto
    have tight: "?f ?m = [bind_tail rest tr (length tr - k) [(name, tr ! ?m)]]"
      using True m by (subst backtrack_rest_tight [OF Some]) auto
    have "concat (map ?f [0..<length tr]) \<noteq> [] \<and> last (concat (map ?f [0..<length tr])) = last (?f ?m)"
      using m tight empty by (intro last_concat_map) auto
    with tight True Some show ?thesis
      by (auto simp: match_with_bindings_def Let_def)
  next
    case False
    then have "concat (map ?f [0..<length tr]) = []" using empty by auto
    with False Some show ?thesis by (auto simp: match_with_bindings_def Let_def)
  qed
qed

lemma match_with_bindings_None_iff:
  assumes "steps \<noteq> []"
  shows "match_with_bindings steps tr = None \<longleftrightarrow> (\<nexists>ps. embeds steps (length tr) ps)"
proof -
  have "embeds steps 0 ps = False" for ps
    using assms by (cases steps) (auto split: list.splits)
  moreover have "backtrack True steps tr 0 [] = [] \<longleftrightarrow> (\<nexists>ps. embeds steps (length tr) ps)"
    using backtrack_results [OF assms, of tr "[]"] by (auto simp: set_empty [symmetric])
  ultimately show ?thesis
    using assms by (auto simp: match_with_bindings_def Let_def)
qed

subsection \<open>Gap separators collapse\<close>

text \<open>The shortest separator with the same minimal gap.\<close>

definition shorten_sep :: "string \<Rightarrow> string" where
  "shorten_sep sep =
     (if sep = ''-> ...?'' then ''->'' else if sep = ''-> ...'' then ''-> *'' else sep)"

definition shorten_gaps :: "trace_clause \<Rightarrow> trace_clause" where
  "shorten_gaps steps = map (\<lambda>s. (fst s, shorten_sep (snd s))) steps"

lemma sep_gap_shorten [simp]: "sep_gap (shorten_sep sep) = sep_gap sep"
  by (auto simp: sep_gap_def shorten_sep_def)

lemma need_rest_shorten: "need_rest (shorten_gaps steps) = need_rest steps"
  by (induction steps) (simp_all add: shorten_gaps_def split: option.splits)

lemma bind_tail_shorten: "bind_tail (shorten_gaps steps) tr start b = bind_tail steps tr start b"
  by (induction steps arbitrary: start b) (simp_all add: shorten_gaps_def split: option.splits)

lemma match_shorten_gaps: "match_with_bindings (shorten_gaps steps) tr = match_with_bindings steps tr"
proof (cases steps)
  case Nil
  then show ?thesis by (simp add: shorten_gaps_def)
next
  case (Cons s rest)
  obtain name sep where s: "s = (name, sep)" by (cases s)
  have "shorten_gaps steps = (name, shorten_sep sep) # shorten_gaps rest"
    by (simp add: Cons s shorten_gaps_def)
  then show ?thesis
    by (simp add: Cons s match_with_bindings_Cons need_rest_shorten bind_tail_shorten
        split: option.splits)
qed

end
