(* ===== verification/Trace_Pattern.thy ===== *)
theory Trace_Pattern
  imports Trace_Binding
begin

text \<open>
  The \<open>trace("A -> ... -> B")\<close> patterns of \<open>policy/dsl/trace_pattern.py\<close>: the pattern tokenizer,
  the translation of the steps into regular-expression fragments over the comma-joined tool
  sequence, and the matcher.  The fragments are given their meaning by all residual strings a
  match can leave.  Main lemma: on tool names without commas and newlines the regular expression
  says what the pattern language promises, i.e. that the steps embed into the sequence.
\<close>

subsection \<open>Tokenizer\<close>

definition is_tool_char :: "char \<Rightarrow> bool" where
  "is_tool_char c \<longleftrightarrow> is_alnum c \<or> c \<in> {CHR ''_'', CHR ''.'', CHR ''-'', CHR '':'', CHR ''/''}"

definition take_gap :: "string \<Rightarrow> string \<times> string" where
  "take_gap text =
     (if starts_with text ''...?'' then (''...?'', drop 4 text)
      else if starts_with text ''...'' then (''...'', drop 3 text)
      else if starts_with text ''*'' then (''*'', drop 1 text)
      else ([], text))"

lemma length_take_gap: "length (snd (take_gap text)) \<le> length text"
  by (auto simp: take_gap_def)

function trace_tok :: "string \<Rightarrow> bool \<Rightarrow> string \<Rightarrow> trace_clause \<Rightarrow> trace_clause result" where
  "trace_tok text expect_step pending steps =
     (case text of
        [] \<Rightarrow> (if expect_step then Inl (TracePatternError ''trace pattern ends with a separator'')
               else Inr steps)
      | c # cs \<Rightarrow>
          if is_space c then trace_tok cs expect_step pending steps
          else if expect_step then
            (if is_alpha c \<or> c = CHR ''_''
             then trace_tok (dropWhile is_tool_char cs) False []
                    (steps @ [(c # takeWhile is_tool_char cs, pending)])
             else Inl (TracePatternError ''expected tool name''))
          else if \<not> starts_with text ''->'' then Inl (TracePatternError ''expected -> separator'')
          else
            (let gr = take_gap (dropWhile is_space (drop 2 text)); gap = fst gr; rest = snd gr
             in if gap \<noteq> [] then
                  (let rest' = dropWhile is_space rest
                   in if starts_with rest' ''->''
                      then trace_tok (drop 2 rest') True (''-> '' @ gap) steps
                      else Inl (TracePatternError ''expected -> after gap''))
                else trace_tok rest True ''->'' steps))"
  by pat_completeness auto
termination
proof (relation "measure (\<lambda>(text, _, _, _). length text)", goal_cases)
  case 1
  then show ?case by simp
next
  case (2 src e p s c cs)
  then show ?case by simp
next
  case (3 src e p s c cs)
  then show ?case by (simp add: le_imp_less_Suc length_dropWhile_le)
next
  case (4 src e p s c cs gr gap rest rest')
  have "length (drop 2 rest') \<le> length rest'" by simp
  also have "\<dots> \<le> length rest" using 4 by (simp add: length_dropWhile_le)
  also have "\<dots> \<le> length (drop 2 src)"
    using 4 by (metis length_take_gap length_dropWhile_le order_trans)
  also have "\<dots> < length src" using 4 by simp
  finally show ?case by simp
next
  case (5 src e p s c cs gr gap rest)
  have "length rest \<le> length (drop 2 src)"
    using 5 by (metis length_take_gap length_dropWhile_le order_trans)
  also have "\<dots> < length src" using 5 by simp
  finally show ?case by simp
qed

declare trace_tok.simps [simp del]

definition trace_tokenize :: "string \<Rightarrow> trace_clause result" where
  "trace_tokenize pattern =
     (let text = str_strip pattern
      in if text = [] then Inl (TracePatternError ''empty trace pattern'')
         else trace_tok text True [] [])"

subsection \<open>Regular-expression fragments\<close>

text \<open>
  The fragments \<^verbatim>\<open>(?:^|,)\<close>, \<^verbatim>\<open>,\<close>, \<^verbatim>\<open>,[^,]+,\<close>, \<^verbatim>\<open>,(?:[^,]+,)+\<close>, \<^verbatim>\<open>,(?:[^,]+,)*\<close>,
  \<open>re.escape(tool)\<close> and \<^verbatim>\<open>(?=,|$)\<close>, in this order.
\<close>

datatype rx = RxEntryStart | RxComma | RxOneSeg | RxSegPlus | RxSegStar | RxLit string | RxEnd

definition sep_rx :: "string \<Rightarrow> rx result" where
  "sep_rx sep =
     (if sep = ''->'' then Inr RxComma
      else if sep = ''-> *'' then Inr RxOneSeg
      else if sep = ''-> ...'' then Inr RxSegPlus
      else if sep = ''-> ...?'' then Inr RxSegStar
      else Inl (TracePatternError ''unsupported separator''))"

fun regex_tail :: "trace_clause \<Rightarrow> rx list result" where
  "regex_tail [] = Inr [RxEnd]"
| "regex_tail (s # steps) =
     ebind (sep_rx (snd s)) (\<lambda>r. ebind (regex_tail steps) (\<lambda>rs. Inr (r # RxLit (fst s) # rs)))"

fun compile_trace_regex :: "trace_clause \<Rightarrow> rx list result" where
  "compile_trace_regex [] = Inr [RxEnd]"
| "compile_trace_regex (s # steps) =
     ebind (regex_tail steps) (\<lambda>rs. Inr (RxEntryStart # RxLit (fst s) # rs))"

definition comma :: char where
  "comma = CHR '',''"

text \<open>The residual after one \<^verbatim>\<open>[^,]+,\<close>; it is unique.\<close>

definition rx_seg :: "string \<Rightarrow> string option" where
  "rx_seg s =
     (let r = dropWhile (\<lambda>c. c \<noteq> comma) s
      in if r \<noteq> [] \<and> s \<noteq> [] \<and> hd s \<noteq> comma then Some (tl r) else None)"

lemma rx_seg_length: "rx_seg s = Some r \<Longrightarrow> length r < length s"
proof -
  assume "rx_seg s = Some r"
  then have "r = tl (dropWhile (\<lambda>c. c \<noteq> comma) s)" "dropWhile (\<lambda>c. c \<noteq> comma) s \<noteq> []"
    by (auto simp: rx_seg_def Let_def split: if_splits)
  then have "length r < length (dropWhile (\<lambda>c. c \<noteq> comma) s)" by simp
  then show ?thesis using length_dropWhile_le [of "\<lambda>c. c \<noteq> comma" s] by linarith
qed

function rx_segs :: "string \<Rightarrow> string list" where
  "rx_segs s = s # (case rx_seg s of None \<Rightarrow> [] | Some r \<Rightarrow> rx_segs r)"
  by pat_completeness auto
termination
  by (relation "measure length") (auto dest: rx_seg_length)

declare rx_segs.simps [simp del]

text \<open>All residuals of one fragment; the flag says that nothing precedes the string.\<close>

definition after_comma :: "string \<Rightarrow> string option" where
  "after_comma s = (case s of [] \<Rightarrow> None | c # t \<Rightarrow> if c = comma then Some t else None)"

fun rx_results :: "rx \<Rightarrow> bool \<times> string \<Rightarrow> (bool \<times> string) list" where
  "rx_results RxEntryStart (at_start, s) =
     (if at_start then [(False, s)] else []) @
     (case after_comma s of None \<Rightarrow> [] | Some t \<Rightarrow> [(False, t)])"
| "rx_results RxComma (_, s) = (case after_comma s of None \<Rightarrow> [] | Some t \<Rightarrow> [(False, t)])"
| "rx_results RxOneSeg (_, s) =
     (case after_comma s of None \<Rightarrow> []
      | Some t \<Rightarrow> (case rx_seg t of None \<Rightarrow> [] | Some u \<Rightarrow> [(False, u)]))"
| "rx_results RxSegPlus (_, s) =
     (case after_comma s of None \<Rightarrow> []
      | Some t \<Rightarrow> (case rx_seg t of None \<Rightarrow> [] | Some u \<Rightarrow> map (Pair False) (rx_segs u)))"
| "rx_results RxSegStar (_, s) =
     (case after_comma s of None \<Rightarrow> [] | Some t \<Rightarrow> map (Pair False) (rx_segs t))"
| "rx_results (RxLit w) (_, s) = (if starts_with s w then [(False, drop (length w) s)] else [])"
| "rx_results RxEnd (a, s) =
     (if s = [] \<or> hd s = comma \<or> s = [char_of (10::nat)] then [(a, s)] else [])"

fun rx_matches :: "rx list \<Rightarrow> bool \<times> string \<Rightarrow> bool" where
  "rx_matches [] c = True"
| "rx_matches (r # rs) c = list_ex (rx_matches rs) (rx_results r c)"

fun tails :: "string \<Rightarrow> string list" where
  "tails [] = [[]]"
| "tails (c # s) = (c # s) # tails s"

text \<open>\<open>regex.search(s)\<close>.\<close>

definition rx_search :: "rx list \<Rightarrow> string \<Rightarrow> bool" where
  "rx_search rs s \<longleftrightarrow>
     rx_matches rs (True, s) \<or> list_ex (\<lambda>t. rx_matches rs (False, t)) (tl (tails s))"

definition trace_matcher :: "rx list \<Rightarrow> string list \<Rightarrow> bool" where
  "trace_matcher rs sequence =
     (let joined = str_join [comma] sequence in if joined = [] then False else rx_search rs joined)"

definition compile_trace_pattern :: "string \<Rightarrow> (string list \<Rightarrow> bool) result" where
  "compile_trace_pattern pattern =
     ebind (trace_tokenize pattern) (\<lambda>steps.
       if list_ex (\<lambda>s. comma \<in> set (fst s)) steps
       then Inl (TracePatternError ''tool names with commas are not allowed'')
       else ebind (compile_trace_regex steps) (\<lambda>rs. Inr (trace_matcher rs)))"

definition match_trace :: "string \<Rightarrow> string list \<Rightarrow> bool result" where
  "match_trace pattern sequence =
     ebind (compile_trace_pattern pattern) (\<lambda>m. Inr (m sequence))"

subsection \<open>What a pattern means\<close>

definition plain_name :: "string \<Rightarrow> bool" where
  "plain_name x \<longleftrightarrow> x \<noteq> [] \<and> comma \<notin> set x \<and> char_of (10::nat) \<notin> set x"

text \<open>Some choice of positions carries the named tools and respects the separators.\<close>

definition trace_spec :: "trace_clause \<Rightarrow> string list \<Rightarrow> bool" where
  "trace_spec steps sequence \<longleftrightarrow>
     (\<exists>ps. embeds steps (length sequence) ps \<and> map ((!) sequence) ps = map fst steps)"

fun embeds_list :: "trace_clause \<Rightarrow> string list \<Rightarrow> bool" where
  "embeds_list [] xs = True"
| "embeds_list (s # steps) xs =
     (\<exists>i < length xs. sep_allows (snd s) 0 i \<and> xs ! i = fst s \<and> embeds_list steps (drop (Suc i) xs))"

lemma sep_allows_shift: "sep_allows sep start p \<longleftrightarrow> start \<le> p \<and> sep_allows sep 0 (p - start)"
  by (auto simp: sep_allows_def)

lemma embeds_list_rest:
  "embeds_list steps (drop start xs) \<longleftrightarrow>
     (\<exists>ps. embeds_rest steps (length xs) start ps \<and> map ((!) xs) ps = map fst steps)"
proof (induction steps arbitrary: start)
  case Nil
  then show ?case by simp
next
  case (Cons s steps)
  have "embeds_list (s # steps) (drop start xs) \<longleftrightarrow>
     (\<exists>p. p < length xs \<and> start \<le> p \<and> sep_allows (snd s) 0 (p - start) \<and> xs ! p = fst s \<and>
        embeds_list steps (drop (Suc p) xs))" (is "?L \<longleftrightarrow> ?R")
  proof
    assume ?L
    then obtain i where "i < length xs - start" "sep_allows (snd s) 0 i"
      "xs ! (start + i) = fst s" "embeds_list steps (drop (Suc i + start) xs)" by auto
    then show ?R by (intro exI [of _ "start + i"]) (auto simp: add.commute)
  next
    assume ?R
    then obtain p where "p < length xs" "start \<le> p" "sep_allows (snd s) 0 (p - start)"
      "xs ! p = fst s" "embeds_list steps (drop (Suc p) xs)" by blast
    then show ?L by (auto intro!: exI [of _ "p - start"])
  qed
  also have "\<dots> \<longleftrightarrow> (\<exists>p. p < length xs \<and> sep_allows (snd s) start p \<and> xs ! p = fst s \<and>
      (\<exists>ps. embeds_rest steps (length xs) (Suc p) ps \<and> map ((!) xs) ps = map fst steps))"
    unfolding Cons.IH using sep_allows_shift by blast
  also have "\<dots> \<longleftrightarrow> (\<exists>ps. embeds_rest (s # steps) (length xs) start ps \<and>
      map ((!) xs) ps = map fst (s # steps))" (is "?L \<longleftrightarrow> ?R")
  proof
    assume ?L
    then obtain p ps where "p < length xs" "sep_allows (snd s) start p" "xs ! p = fst s"
      "embeds_rest steps (length xs) (Suc p) ps" "map ((!) xs) ps = map fst steps" by blast
    then show ?R by (intro exI [of _ "p # ps"]) simp
  next
    assume ?R
    then obtain ps where "embeds_rest (s # steps) (length xs) start ps"
      "map ((!) xs) ps = map fst (s # steps)" by blast
    then show ?L by (cases ps) auto
  qed
  finally show ?case .
qed

lemma trace_spec_Cons:
  "trace_spec ((t, sep) # steps) xs \<longleftrightarrow>
     (\<exists>i < length xs. xs ! i = t \<and> embeds_list steps (drop (Suc i) xs))" (is "?L \<longleftrightarrow> ?R")
proof
  assume ?L
  then obtain ps where "embeds ((t, sep) # steps) (length xs) ps"
    "map ((!) xs) ps = map fst ((t, sep) # steps)" unfolding trace_spec_def by blast
  then show ?R unfolding embeds_list_rest by (cases ps) auto
next
  assume ?R
  then obtain i ps where "i < length xs" "xs ! i = t"
    "embeds_rest steps (length xs) (Suc i) ps" "map ((!) xs) ps = map fst steps"
    unfolding embeds_list_rest by blast
  then show ?L unfolding trace_spec_def by (intro exI [of _ "i # ps"]) simp
qed

subsection \<open>The regular expression implements the meaning\<close>

definition suf :: "string list \<Rightarrow> string" where
  "suf xs = concat (map (\<lambda>x. comma # x) xs)"

lemma suf_simps [simp]: "suf [] = []" "suf (x # xs) = comma # x @ suf xs"
  by (simp_all add: suf_def)

lemma str_join_suf: "str_join [comma] (x # xs) = x @ suf xs"
  by (induction xs arbitrary: x) auto

lemma no_comma_dropWhile: "comma \<notin> set x \<Longrightarrow> dropWhile (\<lambda>c. c \<noteq> comma) (x @ suf xs) = suf xs"
  by (induction x) (cases xs; auto)+

lemma rx_seg_suf:
  assumes "x \<noteq> []" and "comma \<notin> set x"
  shows "rx_seg (x @ suf xs) = (case xs of [] \<Rightarrow> None | y # ys \<Rightarrow> Some (y @ suf ys))"
proof -
  have "hd (x @ suf xs) \<noteq> comma" using assms by (cases x) auto
  then show ?thesis
    using assms by (auto simp: rx_seg_def Let_def no_comma_dropWhile split: list.splits)
qed

lemma rx_segs_suf:
  assumes "list_all plain_name (x # xs)"
  shows "set (rx_segs (x @ suf xs))
     = {(x # xs) ! i @ suf (drop (Suc i) (x # xs)) | i. i < length (x # xs)}"
  using assms
proof (induction xs arbitrary: x)
  case Nil
  then show ?case by (subst rx_segs.simps) (auto simp: rx_seg_suf [of _ "[]", simplified] plain_name_def)
next
  case (Cons y ys)
  have "set (rx_segs (x @ suf (y # ys))) = insert (x @ suf (y # ys)) (set (rx_segs (y @ suf ys)))"
    using Cons.prems by (subst rx_segs.simps) (simp del: suf_simps add: rx_seg_suf plain_name_def)
  also have "\<dots> = insert (x @ suf (y # ys))
      {(y # ys) ! i @ suf (drop (Suc i) (y # ys)) | i. i < length (y # ys)}"
    using Cons by simp
  also have "\<dots> = {(x # y # ys) ! i @ suf (drop (Suc i) (x # y # ys)) | i. i < length (x # y # ys)}"
    (is "insert ?a ?A = ?B")
  proof
    show "insert ?a ?A \<subseteq> ?B"
    proof
      fix s assume "s \<in> insert ?a ?A"
      then consider "s = ?a"
        | i where "s = (y # ys) ! i @ suf (drop (Suc i) (y # ys))" "i < length (y # ys)" by blast
      then show "s \<in> ?B"
      proof cases
        case 1
        then show ?thesis by (intro CollectI exI [of _ 0]) simp
      next
        case (2 i)
        then show ?thesis by (intro CollectI exI [of _ "Suc i"]) simp
      qed
    qed
    show "?B \<subseteq> insert ?a ?A"
    proof
      fix s assume "s \<in> ?B"
      then obtain i where "s = (x # y # ys) ! i @ suf (drop (Suc i) (x # y # ys))"
        "i < length (x # y # ys)" by blast
      then show "s \<in> insert ?a ?A" by (cases i) auto
    qed
  qed
  finally show ?case .
qed

lemma sep_rx_results:
  assumes "sep_rx sep = Inr r" and "list_all plain_name xs"
  shows "set (rx_results r (False, suf xs))
     = {(False, xs ! i @ suf (drop (Suc i) xs)) | i. i < length xs \<and> sep_allows sep 0 i}"
proof (cases xs)
  case Nil
  then show ?thesis
    using assms(1) by (auto simp: sep_rx_def after_comma_def split: if_splits)
next
  case (Cons y ys)
  have ne: "y \<noteq> []" "comma \<notin> set y" using assms(2) by (auto simp: Cons plain_name_def)
  have seg: "rx_seg (y @ suf ys) = (case ys of [] \<Rightarrow> None | z # zs \<Rightarrow> Some (z @ suf zs))"
    using ne by (rule rx_seg_suf)
  consider "sep = ''->''" "r = RxComma" | "sep = ''-> *''" "r = RxOneSeg"
    | "sep = ''-> ...''" "r = RxSegPlus" | "sep = ''-> ...?''" "r = RxSegStar"
    using assms(1) by (auto simp: sep_rx_def split: if_splits)
  then show ?thesis
  proof cases
    case 1
    then show ?thesis by (auto simp: Cons after_comma_def sep_allows_def)
  next
    case 2
    show ?thesis
    proof (cases ys)
      case Nil
      with 2 seg show ?thesis by (auto simp: \<open>xs = y # ys\<close> after_comma_def sep_allows_def)
    next
      case (Cons z zs)
      with 2 seg show ?thesis by (auto simp: \<open>xs = y # ys\<close> after_comma_def sep_allows_def)
    qed
  next
    case 3
    show ?thesis
    proof (cases ys)
      case Nil
      with 3 seg show ?thesis by (auto simp: \<open>xs = y # ys\<close> after_comma_def sep_allows_def)
    next
      case (Cons z zs)
      have "set (rx_results r (False, suf xs)) = Pair False ` set (rx_segs (z @ suf zs))"
        using 3 by (simp add: \<open>xs = y # ys\<close> Cons after_comma_def seg [unfolded Cons, simplified])
      also have "set (rx_segs (z @ suf zs)) =
          {(z # zs) ! i @ suf (drop (Suc i) (z # zs)) | i. i < length (z # zs)}"
        using assms(2) by (intro rx_segs_suf) (simp add: \<open>xs = y # ys\<close> Cons)
      finally have *: "set (rx_results r (False, suf xs)) =
          {(False, (z # zs) ! i @ suf (drop (Suc i) (z # zs))) | i. i < length (z # zs)}"
        by auto
      show ?thesis
        unfolding *
      proof (intro equalityI subsetI)
        fix c assume "c \<in> {(False, (z # zs) ! i @ suf (drop (Suc i) (z # zs))) | i. i < length (z # zs)}"
        then obtain i where "c = (False, (z # zs) ! i @ suf (drop (Suc i) (z # zs)))"
          "i < length (z # zs)" by blast
        then show "c \<in> {(False, xs ! i @ suf (drop (Suc i) xs)) | i. i < length xs \<and> sep_allows sep 0 i}"
          using 3 by (intro CollectI exI [of _ "Suc i"]) (simp add: \<open>xs = y # ys\<close> Cons sep_allows_def)
      next
        fix c assume "c \<in> {(False, xs ! i @ suf (drop (Suc i) xs)) | i. i < length xs \<and> sep_allows sep 0 i}"
        then obtain i where "c = (False, xs ! i @ suf (drop (Suc i) xs))" "i < length xs" "1 \<le> i"
          using 3 by (auto simp: sep_allows_def)
        then show "c \<in> {(False, (z # zs) ! i @ suf (drop (Suc i) (z # zs))) | i. i < length (z # zs)}"
          by (intro CollectI exI [of _ "i - 1"]) (cases i; simp add: \<open>xs = y # ys\<close> Cons)
      qed
    qed
  next
    case 4
    have "set (rx_segs (y @ suf ys)) = {xs ! i @ suf (drop (Suc i) xs) | i. i < length xs}"
      using assms(2) unfolding Cons by (rule rx_segs_suf)
    with 4 show ?thesis by (auto simp: Cons after_comma_def sep_allows_def)
  qed
qed

text \<open>A literal followed by a separator or the end consumes exactly one entry.\<close>

definition entry_bound :: "rx list \<Rightarrow> bool" where
  "entry_bound rs \<longleftrightarrow>
     (\<forall>s. s \<noteq> [] \<and> hd s \<noteq> comma \<and> s \<noteq> [char_of (10::nat)] \<longrightarrow> \<not> rx_matches rs (False, s))"

lemma after_comma_other: "hd s \<noteq> comma \<Longrightarrow> after_comma s = None"
  by (auto simp: after_comma_def split: list.splits)

lemma entry_bound_tail: "regex_tail steps = Inr rs \<Longrightarrow> entry_bound rs"
  by (cases steps)
    (auto simp: entry_bound_def ebind_Inr_iff sep_rx_def after_comma_other split: if_splits)

lemma starts_with_entry:
  assumes "comma \<notin> set t" and "starts_with (y @ suf ys) t"
  shows "\<exists>u. y = t @ u"
proof -
  obtain r where r: "y @ suf ys = t @ r" using assms(2) by (auto simp: starts_with_iff)
  then consider u where "y = t @ u" | v where "t = y @ v" "suf ys = v @ r" "v \<noteq> []"
    by (metis append_eq_append_conv2 append_Nil2)
  then show ?thesis
  proof cases
    case (2 v)
    then have "comma \<in> set v" by (cases ys; cases v) auto
    with 2 assms(1) show ?thesis by simp
  qed blast
qed

lemma rx_literal_entry:
  assumes "entry_bound rs" and "plain_name t" and "plain_name y"
  shows "rx_matches (RxLit t # rs) (False, y @ suf ys) \<longleftrightarrow> y = t \<and> rx_matches rs (False, suf ys)"
proof (cases "starts_with (y @ suf ys) t")
  case False
  then have "y \<noteq> t" by auto
  with False show ?thesis by simp
next
  case True
  then obtain u where u: "y = t @ u"
    using assms(2) starts_with_entry [of t y ys] by (auto simp: plain_name_def)
  show ?thesis
  proof (cases "u = []")
    case True
    with u show ?thesis by simp
  next
    case False
    then have "hd (u @ suf ys) \<noteq> comma" "u @ suf ys \<noteq> [char_of (10::nat)]"
      using assms(3) u by (cases u; auto simp: plain_name_def)+
    then have "\<not> rx_matches rs (False, u @ suf ys)"
      using assms(1) False by (simp add: entry_bound_def)
    with False u show ?thesis by simp
  qed
qed

lemma regex_tail_matches:
  assumes "regex_tail steps = Inr rs" and "list_all (plain_name \<circ> fst) steps"
    and "list_all plain_name xs"
  shows "rx_matches rs (False, suf xs) \<longleftrightarrow> embeds_list steps xs"
  using assms
proof (induction steps arbitrary: rs xs)
  case Nil
  then show ?case by (cases xs) auto
next
  case (Cons s steps)
  obtain r rs' where r: "sep_rx (snd s) = Inr r" "regex_tail steps = Inr rs'"
    and rs: "rs = r # RxLit (fst s) # rs'"
    using Cons.prems(1) by (auto simp: ebind_Inr_iff)
  have plain: "plain_name (xs ! i)" if "i < length xs" for i
    using that Cons.prems(3) by (auto simp: list_all_length)
  have rest: "list_all plain_name (drop (Suc i) xs)" for i
    using Cons.prems(3) by (auto simp: list_all_iff dest: in_set_dropD)
  have one: "rx_matches (RxLit (fst s) # rs') (False, xs ! i @ suf (drop (Suc i) xs)) \<longleftrightarrow>
      xs ! i = fst s \<and> embeds_list steps (drop (Suc i) xs)" if "i < length xs" for i
    using that Cons.prems(2) r(2) plain rest entry_bound_tail
    by (subst rx_literal_entry) (auto simp: Cons.IH)
  have "rx_matches rs (False, suf xs) \<longleftrightarrow>
      (\<exists>c \<in> set (rx_results r (False, suf xs)). rx_matches (RxLit (fst s) # rs') c)"
    by (simp only: rs rx_matches.simps(2) [of r] list_ex_iff)
  also have "\<dots> \<longleftrightarrow> (\<exists>i < length xs. sep_allows (snd s) 0 i \<and>
      rx_matches (RxLit (fst s) # rs') (False, xs ! i @ suf (drop (Suc i) xs)))"
    unfolding sep_rx_results [OF r(1) Cons.prems(3)] by blast
  also have "\<dots> \<longleftrightarrow> embeds_list (s # steps) xs"
    using one by (auto simp del: rx_matches.simps)
  finally show ?case .
qed

lemma list_ex_tails_skip:
  assumes "comma \<notin> set x" and "\<And>t. t = [] \<or> hd t \<noteq> comma \<Longrightarrow> \<not> P t"
  shows "list_ex P (tails (x @ s)) \<longleftrightarrow> list_ex P (tails s)"
  using assms by (induction x) auto

lemma entry_start_tails:
  assumes "comma \<notin> set x" and "list_all plain_name xs"
  shows "list_ex (\<lambda>s. rx_matches (RxEntryStart # rs) (False, s)) (tails (x @ suf xs)) \<longleftrightarrow>
     (\<exists>i < length xs. rx_matches rs (False, xs ! i @ suf (drop (Suc i) xs)))"
  using assms
proof (induction xs arbitrary: x)
  case Nil
  have "list_ex (\<lambda>s. rx_matches (RxEntryStart # rs) (False, s)) (tails (x @ [])) \<longleftrightarrow>
      list_ex (\<lambda>s. rx_matches (RxEntryStart # rs) (False, s)) (tails [])"
    using Nil by (intro list_ex_tails_skip) (auto simp: after_comma_def split: list.splits)
  also have "\<dots> \<longleftrightarrow> False" by (simp add: after_comma_def)
  finally show ?case by simp
next
  case (Cons y ys)
  let ?P = "\<lambda>s. rx_matches (RxEntryStart # rs) (False, s)"
  have "list_ex ?P (tails (x @ suf (y # ys))) \<longleftrightarrow> list_ex ?P (tails (suf (y # ys)))"
    using Cons.prems(1)
    by (rule list_ex_tails_skip) (auto simp: after_comma_def split: list.splits)
  also have "\<dots> \<longleftrightarrow> rx_matches rs (False, y @ suf ys) \<or> list_ex ?P (tails (y @ suf ys))"
    by (simp add: after_comma_def)
  also have "list_ex ?P (tails (y @ suf ys)) \<longleftrightarrow>
      (\<exists>i < length ys. rx_matches rs (False, ys ! i @ suf (drop (Suc i) ys)))"
    using Cons by (intro Cons.IH) (auto simp: plain_name_def)
  also have "rx_matches rs (False, y @ suf ys) \<or> \<dots> \<longleftrightarrow>
      (\<exists>i < length (y # ys). rx_matches rs (False, (y # ys) ! i @ suf (drop (Suc i) (y # ys))))"
    by (simp only: length_Cons Ex_less_Suc2) simp
  finally show ?case .
qed

lemma rx_search_spec:
  assumes "regex_tail steps = Inr rs" and "plain_name t" and "list_all (plain_name \<circ> fst) steps"
    and "list_all plain_name (x # xs)"
  shows "rx_search (RxEntryStart # RxLit t # rs) (x @ suf xs) \<longleftrightarrow>
     trace_spec ((t, sep) # steps) (x # xs)"
proof -
  have x: "plain_name x" and xs: "list_all plain_name xs" using assms(4) by auto
  obtain c x' where cx: "x = c # x'" "c \<noteq> comma" "comma \<notin> set x'"
    using x by (cases x) (auto simp: plain_name_def)
  have one: "rx_matches (RxLit t # rs) (False, (x # xs) ! i @ suf (drop (Suc i) (x # xs))) \<longleftrightarrow>
      (x # xs) ! i = t \<and> embeds_list steps (drop (Suc i) (x # xs))" if "i < length (x # xs)" for i
  proof -
    have "plain_name ((x # xs) ! i)" using that assms(4) by (simp only: list_all_length)
    moreover have "list_all plain_name (drop (Suc i) (x # xs))"
      using assms(4) by (auto simp: list_all_iff dest: in_set_dropD)
    ultimately show ?thesis
      using assms entry_bound_tail by (simp only: rx_literal_entry regex_tail_matches)
  qed
  have "rx_search (RxEntryStart # RxLit t # rs) (x @ suf xs) \<longleftrightarrow>
      rx_matches (RxLit t # rs) (False, x @ suf xs) \<or>
      list_ex (\<lambda>s. rx_matches (RxEntryStart # RxLit t # rs) (False, s)) (tails (x' @ suf xs))"
    by (simp add: rx_search_def cx after_comma_def del: rx_matches.simps(2) [of "RxLit t"])
  also have "\<dots> \<longleftrightarrow> rx_matches (RxLit t # rs) (False, x @ suf xs) \<or>
      (\<exists>i < length xs. rx_matches (RxLit t # rs) (False, xs ! i @ suf (drop (Suc i) xs)))"
    using entry_start_tails [OF cx(3) xs] by (simp only:)
  also have "\<dots> \<longleftrightarrow> (\<exists>i < length (x # xs).
      rx_matches (RxLit t # rs) (False, (x # xs) ! i @ suf (drop (Suc i) (x # xs))))"
    by (simp only: length_Cons Ex_less_Suc2) simp
  also have "\<dots> \<longleftrightarrow> trace_spec ((t, sep) # steps) (x # xs)"
    unfolding trace_spec_Cons using one by blast
  finally show ?thesis .
qed

text \<open>The tokenizer yields at least one step, tool names it can print, and known separators.\<close>

definition tool_chars :: "string \<Rightarrow> bool" where
  "tool_chars t \<longleftrightarrow> t \<noteq> [] \<and> list_all is_tool_char t"

lemma tool_chars_plain: "tool_chars t \<Longrightarrow> plain_name t"
proof -
  have "\<not> is_tool_char comma" "\<not> is_tool_char (char_of (10::nat))"
    by (simp_all add: comma_def is_tool_char_def is_alnum_def is_alpha_def is_digit_def ord_def
        char_of_def)
  then show "tool_chars t \<Longrightarrow> plain_name t"
    by (auto simp: tool_chars_def plain_name_def list_all_iff)
qed

definition known_seps :: "string list" where
  "known_seps = [''->'', ''-> *'', ''-> ...'', ''-> ...?'']"

definition steps_ok :: "trace_clause \<Rightarrow> bool" where
  "steps_ok steps \<longleftrightarrow> list_all (tool_chars \<circ> fst) steps \<and>
     (case steps of [] \<Rightarrow> True | s # rest \<Rightarrow> list_all (\<lambda>s. snd s \<in> set known_seps) rest)"

lemma tool_chars_take:
  "is_alpha c \<or> c = CHR ''_'' \<Longrightarrow> tool_chars (c # takeWhile is_tool_char cs)"
  by (auto simp: tool_chars_def is_tool_char_def is_alnum_def list_all_iff dest: set_takeWhileD)

lemma take_gap_sep: "fst (take_gap s) \<noteq> [] \<Longrightarrow> ''-> '' @ fst (take_gap s) \<in> set known_seps"
  by (auto simp: take_gap_def known_seps_def split: if_splits)

lemma steps_ok_snoc:
  assumes "steps_ok acc" and "tool_chars t" and "acc \<noteq> [] \<longrightarrow> sep \<in> set known_seps"
  shows "steps_ok (acc @ [(t, sep)])"
  using assms by (cases acc) (auto simp: steps_ok_def)

lemma trace_tok_ok:
  assumes "trace_tok src e pending acc = Inr steps" and "steps_ok acc"
    and "acc \<noteq> [] \<longrightarrow> e \<longrightarrow> pending \<in> set known_seps" and "\<not> e \<longrightarrow> acc \<noteq> []"
  shows "steps_ok steps \<and> steps \<noteq> []"
  using assms
proof (induction src e pending acc rule: trace_tok.induct)
  case (1 src e pending acc)
  note run = "1.prems"(1) [unfolded trace_tok.simps [of src]]
  show ?case
  proof (cases src)
    case Nil
    with run "1.prems" show ?thesis by (auto split: if_splits)
  next
    case (Cons c cs)
    consider (space) "is_space c" | (step) "\<not> is_space c" "e" | (sep) "\<not> is_space c" "\<not> e" by blast
    then show ?thesis
    proof cases
      case space
      with run "1.prems" show ?thesis by (intro "1.IH"(1) [OF Cons]) (auto simp: Cons)
    next
      case step
      with run have c: "is_alpha c \<or> c = CHR ''_''" by (auto simp: Cons split: if_splits)
      with step run "1.prems" show ?thesis
        by (intro "1.IH"(2) [OF Cons]) (auto simp: Cons intro!: steps_ok_snoc tool_chars_take)
    next
      case sep
      define gr where "gr = take_gap (dropWhile is_space (drop 2 src))"
      have arrow: "starts_with src ''->''" using sep run by (auto simp: Cons split: if_splits)
      show ?thesis
      proof (cases "fst gr = []")
        case True
        with sep arrow run "1.prems" show ?thesis
          by (intro "1.IH"(4) [OF Cons sep _ gr_def refl refl]) (auto simp: Cons gr_def Let_def known_seps_def)
      next
        case False
        with sep arrow run have "starts_with (dropWhile is_space (snd gr)) ''->''"
          by (auto simp: Cons gr_def Let_def split: if_splits)
        with False sep arrow run "1.prems" take_gap_sep show ?thesis
          by (intro "1.IH"(3) [OF Cons sep _ gr_def refl refl _ refl]) (auto simp: Cons gr_def Let_def)
      qed
    qed
  qed
qed

lemma trace_tokenize_ok:
  "trace_tokenize pattern = Inr steps \<Longrightarrow> steps_ok steps \<and> steps \<noteq> []"
  using trace_tok_ok [of "str_strip pattern" True "[]" "[]" steps]
  by (auto simp: trace_tokenize_def Let_def steps_ok_def split: if_splits)

lemma regex_tail_total:
  "list_all (\<lambda>s. snd s \<in> set known_seps) steps \<Longrightarrow> \<exists>rs. regex_tail steps = Inr rs"
  by (induction steps) (auto simp: known_seps_def sep_rx_def)

lemma compile_trace_pattern_steps:
  assumes "trace_tokenize pattern = Inr steps"
  obtains s rest rs where "steps = s # rest" "regex_tail rest = Inr rs"
    "plain_name (fst s)" "list_all (plain_name \<circ> fst) rest"
    "compile_trace_pattern pattern = Inr (trace_matcher (RxEntryStart # RxLit (fst s) # rs))"
proof -
  have ok: "steps_ok steps" "steps \<noteq> []" using trace_tokenize_ok [OF assms] by auto
  then obtain s rest where steps: "steps = s # rest" by (cases steps) auto
  then have seps: "list_all (\<lambda>s. snd s \<in> set known_seps) rest" using ok by (simp add: steps_ok_def)
  then obtain rs where rs: "regex_tail rest = Inr rs" using regex_tail_total by blast
  have plain: "list_all (plain_name \<circ> fst) steps"
    using ok tool_chars_plain by (auto simp: steps_ok_def list_all_iff)
  then have "\<not> list_ex (\<lambda>s. comma \<in> set (fst s)) steps"
    by (auto simp: list_ex_iff list_all_iff plain_name_def)
  then have "compile_trace_pattern pattern = Inr (trace_matcher (RxEntryStart # RxLit (fst s) # rs))"
    by (simp add: compile_trace_pattern_def assms steps rs)
  then show thesis using that steps rs plain by simp
qed

text \<open>A pattern that tokenizes compiles, and the matcher decides the meaning of its steps.\<close>

lemma trace_pattern_correct:
  assumes "trace_tokenize pattern = Inr steps" and "list_all plain_name sequence"
  shows "match_trace pattern sequence = Inr (trace_spec steps sequence)"
proof -
  obtain s rest rs where s: "steps = s # rest" "regex_tail rest = Inr rs"
    "plain_name (fst s)" "list_all (plain_name \<circ> fst) rest"
    "compile_trace_pattern pattern = Inr (trace_matcher (RxEntryStart # RxLit (fst s) # rs))"
    using compile_trace_pattern_steps [OF assms(1)] by blast
  show ?thesis
  proof (cases sequence)
    case Nil
    have "\<not> trace_spec steps []"
      unfolding trace_spec_def s(1) by (auto split: list.splits)
    then show ?thesis by (simp add: Nil match_trace_def s(5) trace_matcher_def)
  next
    case (Cons x xs)
    have "x \<noteq> []" using assms(2) by (simp add: Cons plain_name_def)
    then have "trace_matcher (RxEntryStart # RxLit (fst s) # rs) sequence
        \<longleftrightarrow> rx_search (RxEntryStart # RxLit (fst s) # rs) (x @ suf xs)"
      by (simp add: trace_matcher_def Cons str_join_suf)
    also have "\<dots> \<longleftrightarrow> trace_spec ((fst s, snd s) # rest) (x # xs)"
      using assms(2) s by (intro rx_search_spec) (auto simp: Cons)
    finally show ?thesis by (simp add: match_trace_def s Cons)
  qed
qed

end
