(* ===== verification/Dsl_Functions.thy ===== *)
theory Dsl_Functions
  imports Dsl_Paths Dsl_Operators Trace_Pattern "HOL-Library.Sublist"
begin

text \<open>
  The predicate functions of the rule language (\<open>_FUNC_TABLE\<close> in \<open>policy/dsl/compiler.py\<close>), one
  definition per handler, and \<open>_call_func\<close>/\<open>_evaluate_arg\<close>.  A handler gets the call node, the
  results of evaluating its arguments, the event and the features; evaluation has no effect, so a
  handler that ignores an argument ignores its error.  \<open>_call_func\<close> turns every error into
  \<open>False\<close>.
\<close>

type_synonym handler =
  "externals \<Rightarrow> dsl_func \<Rightarrow> pyval result list \<Rightarrow> runtime_event \<Rightarrow> pydict \<Rightarrow> pyval result"

definition feat :: "pydict \<Rightarrow> string \<Rightarrow> pyval" where
  "feat features key = dict_getd features key VNone"

definition extra :: "runtime_event \<Rightarrow> string \<Rightarrow> pyval" where
  "extra ev key = dict_getd (ev_extra ev) key VNone"

definition ast_truthy :: "dsl_value \<Rightarrow> bool" where
  "ast_truthy a =
     (case a of AStr s \<Rightarrow> s \<noteq> [] | AInt i \<Rightarrow> i \<noteq> 0 | AFloat r \<Rightarrow> r \<noteq> 0 | ABool b \<Rightarrow> b | _ \<Rightarrow> True)"

text \<open>\<open>kwargs.get(k) or rest\<close>.\<close>

definition kwarg_or :: "(string \<times> dsl_value) list \<Rightarrow> string \<Rightarrow> dsl_value option \<Rightarrow> dsl_value option" where
  "kwarg_or kwargs k rest =
     (case map_of kwargs k of Some v \<Rightarrow> if ast_truthy v then Some v else rest | None \<Rightarrow> rest)"

definition first_arg :: "dsl_func \<Rightarrow> dsl_value option" where
  "first_arg func = (case fc_args func of [] \<Rightarrow> None | a # _ \<Rightarrow> Some a)"

text \<open>Names listed in the arguments: set literals spliced, anything else as its string.\<close>

fun arg_names :: "externals \<Rightarrow> dsl_value list \<Rightarrow> string list" where
  "arg_names E [] = []"
| "arg_names E (a # as) = (case a of ASet items \<Rightarrow> items | _ \<Rightarrow> [ast_str E a]) @ arg_names E as"

text \<open>\<open>previous_tools or recent_tools or []\<close>.\<close>

definition upstream_tools :: "runtime_event \<Rightarrow> pydict \<Rightarrow> pyval" where
  "upstream_tools ev features =
     py_or (py_or (feat features ''session.previous_tools'') (extra ev ''recent_tools'')) (VList [])"

definition known_labels :: "runtime_event \<Rightarrow> pydict \<Rightarrow> pyval" where
  "known_labels ev features =
     py_or (py_or (py_or (feat features ''input.labels'') (feat features ''session.labels''))
       (extra ev ''session_labels'')) (VList [])"

subsection \<open>Handlers\<close>

definition f_whitelist :: handler where
  "f_whitelist E func args ev features =
     (case fc_args func of
        [] \<Rightarrow> Inr (VSet [])
      | a # _ \<Rightarrow>
          (let name = ast_str E a;
               val = py_or (feat features (''allowlist.'' @ name)) (feat features name);
               val' = (if val = VNone
                       then (case extra ev ''allowlists'' of VDict d \<Rightarrow> dict_getd d name VNone | _ \<Rightarrow> val)
                       else val)
           in (case val' of
                 VList xs \<Rightarrow> py_set_of xs
               | VTuple xs \<Rightarrow> py_set_of xs
               | VSet xs \<Rightarrow> Inr (VSet xs)
               | _ \<Rightarrow> Inr (VSet []))))"

definition f_upstream_contains_tool :: handler where
  "f_upstream_contains_tool E func args ev features =
     (case fc_args func of
        [] \<Rightarrow> Inr (VBool False)
      | a # _ \<Rightarrow>
          ebind (py_in_any (VStr (ast_str E a)) (upstream_tools ev features)) (\<lambda>b. Inr (VBool b)))"

definition f_upstream_contains_any_tool :: handler where
  "f_upstream_contains_any_tool E func args ev features =
     (let wanted = VSet (map VStr (arg_names E (fc_args func)))
      in ebind (py_iter (upstream_tools ev features)) (\<lambda>ts.
         ebind (eany (\<lambda>t. py_in t wanted) ts) (\<lambda>b. Inr (VBool b))))"

definition f_derived_from_tool :: handler where
  "f_derived_from_tool = f_upstream_contains_tool"

text \<open>Each step is searched from where the previous one was found.\<close>

fun subsequence_of :: "string list \<Rightarrow> pyval list \<Rightarrow> bool" where
  "subsequence_of [] xs = True"
| "subsequence_of (w # ws) [] = False"
| "subsequence_of (w # ws) (x # xs) =
     (if py_eq (VStr w) x then subsequence_of ws xs else subsequence_of (w # ws) xs)"

definition current_tool :: "runtime_event \<Rightarrow> pyval" where
  "current_tool ev = (case ev_tool_call ev of Some tc \<Rightarrow> VStr (tc_tool_name tc) | None \<Rightarrow> VNone)"

definition current_tool_list :: "runtime_event \<Rightarrow> pyval list" where
  "current_tool_list ev = (case ev_tool_call ev of Some tc \<Rightarrow> [VStr (tc_tool_name tc)] | None \<Rightarrow> [])"

definition f_tool_sequence_matches :: handler where
  "f_tool_sequence_matches E func args ev features =
     (let wanted = arg_names E (fc_args func)
      in if wanted = [] then Inr (VBool False)
         else ebind (py_iter (upstream_tools ev features)) (\<lambda>tools.
           Inr (VBool (subsequence_of wanted (rev tools @ current_tool_list ev)))))"

definition f_repeated_attempts :: handler where
  "f_repeated_attempts E func args ev features =
     (let chosen = kwarg_or (fc_kwargs func) ''tool''
                     (kwarg_or (fc_kwargs func) ''tool.name'' (first_arg func));
          tool_name = of_option (ast_literal E) chosen
      in ebind (py_iter (upstream_tools ev features)) (\<lambda>tools.
         let total = length (filter (\<lambda>t. py_eq t tool_name) tools)
         in Inr (VInt (int (if py_bool tool_name \<and> py_eq (current_tool ev) tool_name
                            then total + 1 else total)))))"

definition f_distinct_targets :: handler where
  "f_distinct_targets E func args ev features =
     ebind (py_iter (py_or (feat features ''session.recent_targets'') (VList []))) (\<lambda>ts.
     ebind (py_set_of ts) (\<lambda>s. case s of VSet xs \<Rightarrow> Inr (VInt (int (length xs))) | _ \<Rightarrow> Inl TypeError))"

definition f_signal :: "string \<Rightarrow> handler" where
  "f_signal signal_name E func args ev features =
     Inr (VBool (py_bool (dict_getd features (''signal.'' @ signal_name) (VBool False))))"

definition f_input_has_label :: handler where
  "f_input_has_label E func args ev features =
     (case fc_args func of
        [] \<Rightarrow> Inr (VBool False)
      | a # _ \<Rightarrow>
          ebind (label_match_any (ast_str E a) (known_labels ev features)) (\<lambda>b. Inr (VBool b)))"

definition f_input_has_any_label :: handler where
  "f_input_has_any_label E func args ev features =
     ebind (eany (\<lambda>p. label_match_any p (known_labels ev features)) (arg_names E (fc_args func)))
       (\<lambda>b. Inr (VBool b))"

definition f_caller_scope_missing :: handler where
  "f_caller_scope_missing E func args ev features =
     (case fc_args func of
        [] \<Rightarrow> Inr (VBool False)
      | a # _ \<Rightarrow>
          (let scope = VStr (ast_str E a); own = map VStr (ev_scope ev);
               more = feat features ''caller.scopes''
           in if is_collection more
              then ebind (py_iter more) (\<lambda>xs.
                if list_all py_hashable xs then Inr (VBool (\<not> py_mem scope (own @ xs)))
                else Inl TypeError)
              else Inr (VBool (\<not> py_mem scope own))))"

definition f_tool_has_tag :: handler where
  "f_tool_has_tag E func args ev features =
     (case fc_args func of
        [] \<Rightarrow> Inr (VBool False)
      | a # _ \<Rightarrow>
          ebind (py_in_any (VStr (ast_str E a)) (py_or (feat features ''tool.tags'') (VList [])))
            (\<lambda>b. Inr (VBool b)))"

fun index_of :: "pyval \<Rightarrow> pyval list \<Rightarrow> nat option" where
  "index_of x [] = None"
| "index_of x (y # ys) = (if py_eq x y then Some 0 else map_option Suc (index_of x ys))"

definition f_path_length :: handler where
  "f_path_length E func args ev features =
     ebind (py_iter (upstream_tools ev features)) (\<lambda>tools.
       case kwarg_or (fc_kwargs func) ''source'' (first_arg func) of
         None \<Rightarrow> Inr (VInt 0)
       | Some key \<Rightarrow>
           (case index_of (VStr (ast_str E key)) tools of
              None \<Rightarrow> Inr (VInt 0)
            | Some i \<Rightarrow> Inr (VInt (int i + 1))))"

definition two_strings :: "(string \<Rightarrow> string \<Rightarrow> bool) \<Rightarrow> handler" where
  "two_strings P E func args ev features =
     (if length (fc_args func) < 2 then Inr (VBool False)
      else ebind (args ! 0) (\<lambda>a. ebind (args ! 1) (\<lambda>b.
        case a of
          VStr s \<Rightarrow> (case b of VStr t \<Rightarrow> Inr (VBool (P s t)) | _ \<Rightarrow> Inr (VBool False))
        | _ \<Rightarrow> Inr (VBool False))))"

definition f_starts_with :: handler where
  "f_starts_with = two_strings starts_with"

definition f_ends_with :: handler where
  "f_ends_with = two_strings ends_with"

definition f_contains_func :: handler where
  "f_contains_func E func args ev features =
     (if length (fc_args func) < 2 then Inr (VBool False)
      else ebind (args ! 0) (\<lambda>a. ebind (args ! 1) (\<lambda>b.
        ebind (op_contains a b) (\<lambda>r. Inr (VBool r)))))"

text \<open>The lower-cased host of a URL value, empty where it has none.\<close>

definition url_host :: "externals \<Rightarrow> pyval \<Rightarrow> string" where
  "url_host E v =
     (case v of
        VStr url \<Rightarrow>
          if url = [] then []
          else (case url_hostname E url of
                  Inl _ \<Rightarrow> [] | Inr None \<Rightarrow> [] | Inr (Some h) \<Rightarrow> str_lower h)
      | _ \<Rightarrow> [])"

definition f_url_domain :: handler where
  "f_url_domain E func args ev features =
     (case args of [] \<Rightarrow> Inr (VStr []) | a # _ \<Rightarrow> ebind a (\<lambda>v. Inr (VStr (url_host E v))))"

definition in_domain :: "string \<Rightarrow> string \<Rightarrow> bool" where
  "in_domain host zone \<longleftrightarrow>
     (let d = str_lower (dropWhile (\<lambda>c. c = CHR ''.'') zone)
      in d \<noteq> [] \<and> (host = d \<or> ends_with host (''.'' @ d)))"

definition f_url_is_external :: handler where
  "f_url_is_external E func args ev features =
     (case args of
        [] \<Rightarrow> Inr (VBool False)
      | a # _ \<Rightarrow> ebind a (\<lambda>v.
          let host = url_host E v;
              internal = py_or (py_or (feat features ''allowlist.internal_domains'')
                           (feat features ''internal_domains'')) (VList []);
              doms = (case internal of VSet xs \<Rightarrow> xs | VList xs \<Rightarrow> xs | VTuple xs \<Rightarrow> xs | _ \<Rightarrow> [])
          in Inr (VBool (host \<noteq> [] \<and> \<not> list_ex (\<lambda>d. in_domain host (py_str E d)) doms))))"

definition f_email_domain :: handler where
  "f_email_domain E func args ev features =
     (case args of
        [] \<Rightarrow> Inr (VStr [])
      | a # _ \<Rightarrow> ebind a (\<lambda>v.
          case v of
            VStr addr \<Rightarrow>
              Inr (VStr (if CHR 0x40 \<in> set addr
                         then str_lower (rev (takeWhile (\<lambda>c. c \<noteq> CHR 0x40) (rev addr))) else []))
          | _ \<Rightarrow> Inr (VStr [])))"

definition members_test ::
  "((pyval \<Rightarrow> bool result) \<Rightarrow> pyval list \<Rightarrow> bool result) \<Rightarrow> handler" where
  "members_test quantifier E func args ev features =
     (if length (fc_args func) < 2 then Inr (VBool False)
      else ebind (args ! 0) (\<lambda>members. ebind (args ! 1) (\<lambda>container.
        if members = VNone then Inr (VBool False)
        else if \<not> is_container container then Inr (VBool False)
        else if \<not> is_collection members
          then ebind (py_in members container) (\<lambda>r. Inr (VBool r))
        else ebind (py_iter members) (\<lambda>ms.
          ebind (quantifier (\<lambda>m. py_in m container) ms) (\<lambda>r. Inr (VBool r))))))"

definition f_subset :: handler where
  "f_subset = members_test eall"

definition f_any_in :: handler where
  "f_any_in = members_test eany"

text \<open>\<open>",".join(seq)\<close> needs strings.\<close>

fun all_strings :: "pyval list \<Rightarrow> string list result" where
  "all_strings [] = Inr []"
| "all_strings (v # vs) =
     (case v of VStr s \<Rightarrow> ebind (all_strings vs) (\<lambda>ss. Inr (s # ss)) | _ \<Rightarrow> Inl TypeError)"

definition f_trace :: handler where
  "f_trace E func args ev features =
     (case args of
        [] \<Rightarrow> Inr (VBool False)
      | a # _ \<Rightarrow> ebind a (\<lambda>p.
          case p of
            VStr pattern \<Rightarrow>
              if str_strip pattern = [] then Inr (VBool False)
              else ebind (py_iter (py_or (feat features ''session.trace_sequence'') (VList []))) (\<lambda>xs.
                case compile_trace_pattern pattern of
                  Inl _ \<Rightarrow> Inr (VBool False)
                | Inr matcher \<Rightarrow>
                    ebind (all_strings (xs @ current_tool_list ev)) (\<lambda>ss. Inr (VBool (matcher ss))))
          | _ \<Rightarrow> Inr (VBool False)))"

text \<open>The last entry of the rich trace recorded for a tool.\<close>

fun last_call :: "string \<Rightarrow> pyval list \<Rightarrow> pyval option result" where
  "last_call tool [] = Inr None"
| "last_call tool (entry # older) =
     ebind (py_get entry ''tool'') (\<lambda>t.
       if py_eq t (VStr tool) then Inr (Some entry) else last_call tool older)"

definition rich_trace :: "pydict \<Rightarrow> pyval list result" where
  "rich_trace features =
     (case py_or (feat features ''session.trace_rich'') (VList []) of
        VList xs \<Rightarrow> Inr (rev xs) | VTuple xs \<Rightarrow> Inr (rev xs) | _ \<Rightarrow> Inl TypeError)"

definition entry_arg :: "pyval \<Rightarrow> string \<Rightarrow> pyval result" where
  "entry_arg entry name =
     ebind (py_get entry ''args'') (\<lambda>a. py_get (py_or a (VDict [])) name)"

definition f_history_arg :: handler where
  "f_history_arg E func args ev features =
     (if length (fc_args func) < 2 then Inr VNone
      else ebind (args ! 0) (\<lambda>tool. ebind (args ! 1) (\<lambda>name.
        ebind (rich_trace features) (\<lambda>tr. ebind (last_call (py_str E tool) tr) (\<lambda>found.
          case found of None \<Rightarrow> Inr VNone | Some entry \<Rightarrow> entry_arg entry (py_str E name))))))"

definition f_history_result :: handler where
  "f_history_result E func args ev features =
     (case args of
        [] \<Rightarrow> Inr VNone
      | a # _ \<Rightarrow> ebind a (\<lambda>tool. ebind (rich_trace features) (\<lambda>tr.
          ebind (last_call (py_str E tool) tr) (\<lambda>found.
            case found of None \<Rightarrow> Inr VNone | Some entry \<Rightarrow> py_get entry ''result''))))"

definition f_history_args_match :: handler where
  "f_history_args_match E func args ev features =
     (if length (fc_args func) < 3 then Inr (VBool False)
      else ebind (args ! 0) (\<lambda>tool. ebind (args ! 1) (\<lambda>name. ebind (args ! 2) (\<lambda>expected.
        ebind (rich_trace features) (\<lambda>tr. ebind (last_call (py_str E tool) tr) (\<lambda>found.
          case found of
            None \<Rightarrow> Inr (VBool False)
          | Some entry \<Rightarrow>
              ebind (entry_arg entry (py_str E name)) (\<lambda>v. Inr (VBool (py_eq v expected)))))))))"

subsection \<open>Dispatch\<close>

definition func_table :: "((string \<times> string) \<times> handler) list" where
  "func_table =
     [(([], ''whitelist''), f_whitelist),
      (([], ''upstream_contains_tool''), f_upstream_contains_tool),
      (([], ''upstream_contains_any_tool''), f_upstream_contains_any_tool),
      (([], ''derived_from_tool''), f_derived_from_tool),
      (([], ''tool_sequence_matches''), f_tool_sequence_matches),
      (([], ''trace''), f_trace),
      (([], ''path_length''), f_path_length),
      (([], ''repeated_attempts''), f_repeated_attempts),
      (([], ''distinct_targets''), f_distinct_targets),
      (([], ''goal_drift_detected''), f_signal ''goal_drift''),
      (([], ''scope_expansion_detected''), f_signal ''scope_expansion''),
      (([], ''suspicious_exfil_pattern''), f_signal ''suspicious_exfil''),
      (([], ''high_entropy_payload_detected''), f_signal ''high_entropy_payload''),
      (([], ''goal_changed_from_initial''), f_signal ''goal_changed''),
      ((''input'', ''has_label''), f_input_has_label),
      ((''input'', ''has_any_label''), f_input_has_any_label),
      ((''caller'', ''scope_missing''), f_caller_scope_missing),
      ((''tool'', ''has_tag''), f_tool_has_tag),
      (([], ''starts_with''), f_starts_with),
      (([], ''ends_with''), f_ends_with),
      (([], ''contains''), f_contains_func),
      ((''url'', ''domain''), f_url_domain),
      ((''url'', ''is_external''), f_url_is_external),
      ((''email'', ''domain''), f_email_domain),
      (([], ''subset''), f_subset),
      (([], ''any_in''), f_any_in),
      (([], ''history_arg''), f_history_arg),
      (([], ''history_result''), f_history_result),
      (([], ''history_args_match''), f_history_args_match)]"

definition find_handler :: "string \<Rightarrow> string \<Rightarrow> handler option" where
  "find_handler ns name =
     (case map_of func_table (ns, name) of
        Some h \<Rightarrow> Some h | None \<Rightarrow> map_of func_table ([], name))"

fun call_func :: "externals \<Rightarrow> runtime_event \<Rightarrow> pydict \<Rightarrow> dsl_func \<Rightarrow> pyval"
and evaluate_arg :: "externals \<Rightarrow> runtime_event \<Rightarrow> pydict \<Rightarrow> dsl_value \<Rightarrow> pyval result" where
  "call_func E ev features (FuncCall name args kwargs ns) =
     (case find_handler ns name of
        None \<Rightarrow> VBool False
      | Some h \<Rightarrow>
          etry (h E (FuncCall name args kwargs ns) (map (evaluate_arg E ev features) args) ev features)
            (VBool False))"
| "evaluate_arg E ev features (APath parts) = resolve_path E parts ev features"
| "evaluate_arg E ev features (AFunc f) = Inr (call_func E ev features f)"
| "evaluate_arg E ev features (ASet items) = py_set_of (map VStr items)"
| "evaluate_arg E ev features (AStr s) = Inr (VStr s)"
| "evaluate_arg E ev features (AInt i) = Inr (VInt i)"
| "evaluate_arg E ev features (AFloat r) = Inr (VFloat r)"
| "evaluate_arg E ev features (ABool b) = Inr (VBool b)"

subsection \<open>Lemmas\<close>

lemma py_or_truthy [simp]: "py_bool a \<Longrightarrow> py_or a b = a" "\<not> py_bool a \<Longrightarrow> py_or a b = b"
  by (simp_all add: py_or_def)

lemma subsequence_of_subseq: "subsequence_of ws (map VStr xs) \<longleftrightarrow> subseq ws xs"
proof (induction xs arbitrary: ws)
  case Nil
  then show ?case by (cases ws) auto
next
  case (Cons x xs)
  then show ?case by (cases ws) auto
qed

lemma all_strings_map [simp]: "all_strings (map VStr ss) = Inr ss"
  by (induction ss) auto

lemma all_strings_append_map:
  "all_strings (map VStr ss @ map VStr ts) = Inr (ss @ ts)"
  by (simp add: map_append [symmetric] del: map_append)

lemma py_or_VList_Nil [simp]: "py_or (VList xs) (VList []) = VList xs"
  by (simp add: py_or_def)

text \<open>The chronological list of tools a call sees: the recorded ones, then itself.\<close>

definition with_current :: "string list \<Rightarrow> runtime_event \<Rightarrow> string list" where
  "with_current tools ev =
     tools @ (case ev_tool_call ev of Some tc \<Rightarrow> [tc_tool_name tc] | None \<Rightarrow> [])"

lemma current_tool_list_map:
  "map VStr tools @ current_tool_list ev = map VStr (with_current tools ev)"
  by (simp add: current_tool_list_def with_current_def split: option.splits)

lemma find_handler_simps [simp]:
  "find_handler [] ''trace'' = Some f_trace"
  "find_handler [] ''whitelist'' = Some f_whitelist"
  "find_handler [] ''tool_sequence_matches'' = Some f_tool_sequence_matches"
  "find_handler [] ''history_arg'' = Some f_history_arg"
  "find_handler [] ''history_args_match'' = Some f_history_args_match"
  "find_handler [] ''subset'' = Some f_subset"
  "find_handler [] ''any_in'' = Some f_any_in"
  by (simp_all add: find_handler_def func_table_def)

text \<open>An unknown function is false, as is one whose handler raises.\<close>

lemma call_func_unknown:
  "find_handler (fc_namespace f) (fc_name f) = None \<Longrightarrow> call_func E ev features f = VBool False"
  by (cases f) simp

lemma call_func_error:
  assumes "find_handler ns name = Some h"
    and "h E (FuncCall name args kwargs ns) (map (evaluate_arg E ev features) args) ev features = Inl e"
  shows "call_func E ev features (FuncCall name args kwargs ns) = VBool False"
  using assms by simp

text \<open>\<open>trace("...")\<close> holds iff the pattern tokenizes and embeds into the tools called so far.\<close>

lemma trace_call:
  assumes seq: "map_of features ''session.trace_sequence'' = Some (VList (map VStr tools))"
    and plain: "list_all plain_name (with_current tools ev)"
  shows "call_func E ev features (FuncCall ''trace'' [AStr pattern] kwargs []) =
     VBool (case trace_tokenize pattern of
              Inl _ \<Rightarrow> False | Inr steps \<Rightarrow> trace_spec steps (with_current tools ev))"
proof -
  have fseq: "feat features ''session.trace_sequence'' = VList (map VStr tools)"
    using seq by (simp add: feat_def dict_getd_def)
  show ?thesis
  proof (cases "trace_tokenize pattern")
    case (Inl e)
    then show ?thesis
      by (cases "str_strip pattern = []")
        (simp_all add: f_trace_def fseq compile_trace_pattern_def)
  next
    case (Inr steps)
    then have "str_strip pattern \<noteq> []" by (auto simp: trace_tokenize_def Let_def split: if_splits)
    moreover obtain m where "compile_trace_pattern pattern = Inr m"
      using compile_trace_pattern_steps [OF Inr] by metis
    moreover have "match_trace pattern (with_current tools ev) = Inr (trace_spec steps (with_current tools ev))"
      using Inr plain by (rule trace_pattern_correct)
    ultimately show ?thesis
      using Inr by (simp add: f_trace_def fseq match_trace_def current_tool_list_map)
  qed
qed

text \<open>\<open>tool_sequence_matches\<close> is the subsequence relation on the same list.\<close>

lemma tool_sequence_call:
  assumes "map_of features ''session.previous_tools'' = Some (VList (map VStr (rev tools)))"
    and "tools \<noteq> []" and "names \<noteq> []"
  shows "call_func E ev features (FuncCall ''tool_sequence_matches'' (map AStr names) kwargs []) =
     VBool (subseq names (with_current tools ev))"
proof -
  have up: "upstream_tools ev features = VList (map VStr (rev tools))"
    using assms(1,2) by (simp add: upstream_tools_def feat_def dict_getd_def)
  have names: "arg_names E (map AStr names) = names"
    by (induction names) auto
  show ?thesis
    using assms(3)
    by (simp add: f_tool_sequence_matches_def names up Let_def rev_map [symmetric]
        current_tool_list_map subsequence_of_subseq)
qed

text \<open>An allowlist nobody configured is empty, so membership in it fails.\<close>

lemma whitelist_missing:
  assumes "map_of features (''allowlist.'' @ name) = None" and "map_of features name = None"
    and "map_of (ev_extra ev) ''allowlists'' = None"
  shows "call_func E ev features (FuncCall ''whitelist'' [AStr name] kwargs []) = VSet []"
  using assms by (simp add: f_whitelist_def feat_def extra_def dict_getd_def Let_def)

lemma eall_Inr_iff: "eall f xs = Inr True \<longleftrightarrow> (\<forall>x \<in> set xs. f x = Inr True)"
  by (induction xs) (auto simp: ebind_Inr_iff split: if_splits)

lemma eany_Inr_False_iff: "eany f xs = Inr False \<longleftrightarrow> (\<forall>x \<in> set xs. f x = Inr False)"
  by (induction xs) (auto simp: ebind_Inr_iff split: if_splits)

end
