(* ===== verification/Rule_Compiler.thy ===== *)
theory Rule_Compiler
  imports Dsl_Functions
begin

text \<open>
  Compilation of rule syntax trees to closures (\<open>RuleCompiler\<close> in \<open>policy/dsl/compiler.py\<close>): a
  predicate takes an event and the feature dictionary and returns a Boolean or raises.
  Placeholder names, the fallback of \<open>EXISTS_PATH\<close> to labels, and the TRACE wrapper are included.
\<close>

type_synonym predicate = "runtime_event \<Rightarrow> pydict \<Rightarrow> bool result"

record path_spec =
  ps_feature_key :: string
  ps_source_labels :: "string list"
  ps_max_hops :: int

record compiled_rule =
  cr_rule_id :: string
  cr_version :: string
  cr_tool_pattern :: string
  cr_predicate :: predicate
  cr_action :: action
  cr_priority :: nat
  cr_degrade_profile :: "string option"
  cr_required_features :: "string list"
  cr_source :: string
  cr_source_block :: string
  cr_event_subtype :: string
  cr_meta :: "(string \<times> dsl_value) list"
  cr_obligations_ast :: "obligation_ast list"
  cr_path_specs :: "path_spec list"

subsection \<open>Tool patterns\<close>

text \<open>
  \<open>fnmatch.fnmatchcase\<close>: \<open>*\<close>, \<open>?\<close> and bracket classes, the closing bracket searched from the
  second character (after \<open>!\<close>); an unclosed bracket is literal.
\<close>

fun in_ranges :: "char \<Rightarrow> string \<Rightarrow> bool" where
  "in_ranges c [] = False"
| "in_ranges c [a] = (c = a)"
| "in_ranges c [a, b] = (c = a \<or> c = b)"
| "in_ranges c (a # b # d # rest) =
     (if b = CHR ''-'' then ord a \<le> ord c \<and> ord c \<le> ord d \<or> in_ranges c rest
      else c = a \<or> in_ranges c (b # d # rest))"

definition bracket_body :: "string \<Rightarrow> (string \<times> string) option" where
  "bracket_body body =
     (let n = (if body \<noteq> [] \<and> hd body = CHR '']'' then 1 else 0);
          after = dropWhile (\<lambda>c. c \<noteq> CHR '']'') (drop n body)
      in if after = [] then None
         else Some (take n body @ takeWhile (\<lambda>c. c \<noteq> CHR '']'') (drop n body), tl after))"

definition split_bracket :: "string \<Rightarrow> (bool \<times> string \<times> string) option" where
  "split_bracket pat =
     (if pat \<noteq> [] \<and> hd pat = CHR ''!''
      then map_option (Pair True) (bracket_body (tl pat))
      else map_option (Pair False) (bracket_body pat))"

lemma bracket_body_length:
  assumes "bracket_body body = Some (cls, rest)"
  shows "length rest \<le> length body"
proof -
  obtain n where "rest = tl (dropWhile (\<lambda>c. c \<noteq> CHR '']'') (drop n body))"
    using assms unfolding bracket_body_def Let_def by (metis option.distinct(1) option.inject prod.inject)
  then have "length rest \<le> length (dropWhile (\<lambda>c. c \<noteq> CHR '']'') (drop n body))" by simp
  also have "\<dots> \<le> length (drop n body)" by (rule length_dropWhile_le)
  finally show ?thesis by simp
qed

lemma split_bracket_length:
  assumes "split_bracket pat = Some (neg, cls, rest)"
  shows "length rest < Suc (length pat)"
  using assms
  by (fastforce simp: split_bracket_def split: if_splits dest: bracket_body_length)

function (sequential) fn_match :: "string \<Rightarrow> string \<Rightarrow> bool" where
  "fn_match [] s = (s = [])"
| "fn_match (p # ps) s =
     (if p = CHR ''*'' then fn_match ps s \<or> (case s of [] \<Rightarrow> False | c # cs \<Rightarrow> fn_match (p # ps) cs)
      else (case s of
              [] \<Rightarrow> False
            | c # cs \<Rightarrow>
                if p = CHR ''?'' then fn_match ps cs
                else if p = CHR ''['' then
                  (case split_bracket ps of
                     None \<Rightarrow> c = p \<and> fn_match ps cs
                   | Some (neg, cls, rest) \<Rightarrow> (in_ranges c cls \<noteq> neg) \<and> fn_match rest cs)
                else c = p \<and> fn_match ps cs))"
  by pat_completeness auto
termination
  by (relation "measure (\<lambda>(p, s). length p + length s)") (auto dest: split_bracket_length)

declare fn_match.simps(2) [simp del]

definition matches_tool :: "compiled_rule \<Rightarrow> string \<Rightarrow> bool" where
  "matches_tool r tool_name =
     (if cr_tool_pattern r = ''*'' then True else fn_match (cr_tool_pattern r) tool_name)"

definition meta_str :: "externals \<Rightarrow> compiled_rule \<Rightarrow> string \<Rightarrow> string \<Rightarrow> string" where
  "meta_str E r key dflt =
     (case map_of (cr_meta r) key of None \<Rightarrow> dflt | Some v \<Rightarrow> ast_str E v)"

definition rule_severity :: "externals \<Rightarrow> compiled_rule \<Rightarrow> string" where
  "rule_severity E r = meta_str E r ''severity'' ''medium''"

definition rule_category :: "externals \<Rightarrow> compiled_rule \<Rightarrow> string" where
  "rule_category E r = meta_str E r ''category'' []"

definition rule_llm_prompt :: "externals \<Rightarrow> compiled_rule \<Rightarrow> string" where
  "rule_llm_prompt E r =
     (case map_of (cr_meta r) ''prompt'' of
        None \<Rightarrow> [] | Some v \<Rightarrow> if ast_truthy v then ast_str E v else [])"

subsection \<open>Predicates\<close>

definition exists_path_key :: "string \<Rightarrow> string" where
  "exists_path_key rule_id = ''graph.exists_path.'' @ rule_id"

definition exists_path_eval :: "string \<Rightarrow> string list \<Rightarrow> int \<Rightarrow> predicate" where
  "exists_path_eval feature_key source_labels max_hops ev features =
     (case map_of features feature_key of
        Some v \<Rightarrow> Inr (py_bool v)
      | None \<Rightarrow>
          (let labels = feat features ''session.labels'';
               labels' = (if labels = VNone then extra ev ''session_labels'' else labels)
           in if \<not> py_bool labels' then Inr False
              else eany (\<lambda>pat. label_match_any pat labels') source_labels))"

definition label_dict :: "tool_static_label \<Rightarrow> pyval" where
  "label_dict lb = VDict
     [(''boundary'', VStr (boundary_value (lb_boundary lb))),
      (''sensitivity'', VStr (sensitivity_value (lb_sensitivity lb))),
      (''integrity'', VStr (integrity_value (lb_integrity lb)))]"

text \<open>The entry of the rich trace a call leaves, and the one appended for the current call.\<close>

definition trace_entry :: "tool_call \<Rightarrow> int \<Rightarrow> pyval" where
  "trace_entry tc ts = VDict
     [(''tool'', VStr (tc_tool_name tc)), (''args'', VDict (tc_args tc)), (''result'', VNone),
      (''ts_ms'', VInt ts), (''label'', label_dict (tc_label tc))]"

definition current_entry :: "runtime_event \<Rightarrow> pyval" where
  "current_entry ev =
     (case ev_tool_call ev of
        Some tc \<Rightarrow> trace_entry tc (ev_ts_ms ev)
      | None \<Rightarrow> VDict [(''tool'', VStr []), (''args'', VDict []), (''result'', VNone),
          (''ts_ms'', VInt (ev_ts_ms ev)), (''label'', VDict [])])"

definition wrap_trace_predicate :: "trace_clause \<Rightarrow> predicate \<Rightarrow> predicate" where
  "wrap_trace_predicate clause inner ev features =
     ebind (py_iter (py_or (feat features ''session.trace_rich'') (VList []))) (\<lambda>rich.
       case match_with_bindings clause (rich @ [current_entry ev]) of
         None \<Rightarrow> Inr False
       | Some bindings \<Rightarrow> inner ev (dict_set ''_trace_bindings'' (VDict bindings) features))"

definition upper_underscored :: "string \<Rightarrow> bool" where
  "upper_underscored s \<longleftrightarrow> str_isupper (map (\<lambda>c. if c = CHR ''-'' then CHR ''_'' else c) s)"

definition resolve_left :: "externals \<Rightarrow> dsl_value \<Rightarrow> runtime_event \<Rightarrow> pydict \<Rightarrow> pyval result" where
  "resolve_left E left ev features =
     (case left of
        AFunc f \<Rightarrow> Inr (call_func E ev features f)
      | APath parts \<Rightarrow> resolve_path E parts ev features
      | _ \<Rightarrow> Inl AttributeError)"

definition resolve_value ::
  "externals \<Rightarrow> string list \<Rightarrow> dsl_value \<Rightarrow> runtime_event \<Rightarrow> pydict \<Rightarrow> pyval result" where
  "resolve_value E placeholders v ev features =
     (case v of
        APath parts \<Rightarrow>
          if length parts = 1 \<and> upper_underscored (hd parts) \<and> hd parts \<notin> set placeholders
          then Inr (VStr (str_lower (hd parts)))
          else Inr (lookup_ref E parts ev features)
      | AFunc f \<Rightarrow> Inr (call_func E ev features f)
      | ASet items \<Rightarrow> py_set_of (map VStr items)
      | _ \<Rightarrow> Inr (ast_literal E v))"

definition compile_compare ::
  "externals \<Rightarrow> string list \<Rightarrow> dsl_value \<Rightarrow> string \<Rightarrow> dsl_value \<Rightarrow> predicate" where
  "compile_compare E placeholders left op v ev features =
     ebind (resolve_left E left ev features) (\<lambda>l.
     ebind (resolve_value E placeholders v ev features) (\<lambda>r. apply_op E op l r))"

definition compile_bare_func :: "externals \<Rightarrow> dsl_func \<Rightarrow> predicate" where
  "compile_bare_func E f ev features = Inr (py_bool (call_func E ev features f))"

text \<open>The predicate of an expression, with the features and path specifications it asks for.\<close>

fun compile_expr ::
  "externals \<Rightarrow> string \<Rightarrow> string list \<Rightarrow> dsl_expr \<Rightarrow> predicate \<times> string list \<times> path_spec list" where
  "compile_expr E rule_id phs TrueExpr = (\<lambda>ev f. Inr True, [], [])"
| "compile_expr E rule_id phs (BoolOp op l r) =
     (let (pl, fl, sl) = compile_expr E rule_id phs l;
          (pr, fr, sr) = compile_expr E rule_id phs r
      in (if op = ''AND''
          then (\<lambda>ev f. ebind (pl ev f) (\<lambda>b. if b then pr ev f else Inr False))
          else (\<lambda>ev f. ebind (pl ev f) (\<lambda>b. if b then Inr True else pr ev f)),
          fl @ fr, sl @ sr))"
| "compile_expr E rule_id phs (NotOp e) =
     (let (p, fs, ss) = compile_expr E rule_id phs e
      in (\<lambda>ev f. ebind (p ev f) (\<lambda>b. Inr (\<not> b)), fs, ss))"
| "compile_expr E rule_id phs (Compare left op v) = (compile_compare E phs left op v, [], [])"
| "compile_expr E rule_id phs (BareFunc f) = (compile_bare_func E f, [], [])"
| "compile_expr E rule_id phs (ExistsPath labels hops sink src) =
     (let key = exists_path_key rule_id
      in (exists_path_eval key labels hops, [key],
          [\<lparr>ps_feature_key = key, ps_source_labels = labels, ps_max_hops = hops\<rparr>]))"

definition action_map :: "(string \<times> action) list" where
  "action_map = [(''DENY'', DENY), (''ALLOW'', ALLOW), (''LLM_CHECK'', LLM_CHECK),
     (''HUMAN_CHECK'', HUMAN_CHECK), (''DEGRADE'', DEGRADE)]"

definition compile_rule :: "externals \<Rightarrow> string \<Rightarrow> rule_ast \<Rightarrow> compiled_rule result" where
  "compile_rule E version ast =
     (case map_of action_map (aa_kind (ra_action ast)) of
        None \<Rightarrow> Inl (RuleCompileError (''unknown action kind '' @ aa_kind (ra_action ast)))
      | Some action \<Rightarrow>
          (let placeholders = (case ra_trace_clause ast of None \<Rightarrow> [] | Some c \<Rightarrow> map fst c);
               (pred, feats, specs) = compile_expr E (ra_rule_id ast) placeholders (ra_expr ast);
               pred' = (case ra_trace_clause ast of None \<Rightarrow> pred | Some c \<Rightarrow> wrap_trace_predicate c pred)
           in Inr \<lparr>cr_rule_id = ra_rule_id ast, cr_version = version,
                cr_tool_pattern = ra_tool_pattern ast, cr_predicate = pred', cr_action = action,
                cr_priority = action_priority action,
                cr_degrade_profile = aa_profile (ra_action ast), cr_required_features = feats,
                cr_source = ra_source ast, cr_source_block = ra_source_block ast,
                cr_event_subtype = ra_event_subtype ast, cr_meta = ra_meta ast,
                cr_obligations_ast = aa_obligations (ra_action ast), cr_path_specs = specs\<rparr>))"

definition compile_all :: "externals \<Rightarrow> string \<Rightarrow> rule_ast list \<Rightarrow> compiled_rule list result" where
  "compile_all E version asts = emap (compile_rule E version) asts"

subsection \<open>Tool patterns without brackets\<close>

definition literal_pattern :: "string \<Rightarrow> bool" where
  "literal_pattern p \<longleftrightarrow> CHR ''*'' \<notin> set p \<and> CHR ''?'' \<notin> set p \<and> CHR ''['' \<notin> set p"

lemma fn_match_star [simp]: "fn_match ''*'' s"
  by (induction s) (simp_all add: fn_match.simps(2))

lemma fn_match_prefix:
  "literal_pattern p \<Longrightarrow> fn_match (p @ ps) s \<longleftrightarrow> (\<exists>t. s = p @ t \<and> fn_match ps t)"
proof (induction p arbitrary: s)
  case Nil
  then show ?case by simp
next
  case (Cons c p)
  then show ?case by (cases s) (auto simp: fn_match.simps(2) literal_pattern_def)
qed

lemma fn_match_literal: "literal_pattern p \<Longrightarrow> fn_match p s \<longleftrightarrow> s = p"
  using fn_match_prefix [of p "[]" s] by auto

lemma fn_match_literal_star: "literal_pattern p \<Longrightarrow> fn_match (p @ ''*'') s \<longleftrightarrow> starts_with s p"
  by (auto simp: fn_match_prefix starts_with_iff)

lemma literal_pattern_not_star: "literal_pattern p \<Longrightarrow> p \<noteq> ''*''"
  by (auto simp: literal_pattern_def)

subsection \<open>Graph queries\<close>

lemma compile_expr_features:
  assumes "compile_expr E rule_id phs e = (p, feats, specs)"
  shows "feats = map ps_feature_key specs \<and> set feats \<subseteq> {exists_path_key rule_id}"
  using assms
proof (induction e arbitrary: p feats specs)
  case (BoolOp op l r)
  then show ?case by (fastforce simp: Let_def split: prod.splits)
qed (auto simp: Let_def split: prod.splits)

lemma exists_path_eval_cached:
  "map_of features key = Some v \<Longrightarrow> exists_path_eval key labels hops ev features = Inr (py_bool v)"
  by (simp add: exists_path_eval_def)

lemma exists_path_eval_labels:
  assumes "map_of features key = None"
    and "map_of features ''session.labels'' = Some (VList (map VStr labels))"
  shows "exists_path_eval key pats hops ev features =
     Inr (\<exists>pat \<in> set pats. \<exists>lbl \<in> set labels. label_matches pat lbl)"
  using assms
  by (auto simp: exists_path_eval_def feat_def dict_getd_def Let_def label_match_any_strings)

subsection \<open>Compiled rules\<close>

lemma compile_rule_Inr_iff:
  "(\<exists>r. compile_rule E version ast = Inr r) \<longleftrightarrow> aa_kind (ra_action ast) \<in> set (map fst action_map)"
  by (auto simp: compile_rule_def Let_def action_map_def split: option.splits prod.splits if_splits)

lemma compile_rule_fields:
  assumes "compile_rule E version ast = Inr r"
  shows "cr_rule_id r = ra_rule_id ast" "cr_tool_pattern r = ra_tool_pattern ast"
    "cr_priority r = action_priority (cr_action r)" "cr_version r = version"
    "map_of action_map (aa_kind (ra_action ast)) = Some (cr_action r)"
    "cr_event_subtype r = ra_event_subtype ast" "cr_meta r = ra_meta ast"
  using assms by (auto simp: compile_rule_def Let_def split: option.splits prod.splits)

lemma compile_rule_specs:
  assumes "compile_rule E version ast = Inr r"
  shows "cr_required_features r = map ps_feature_key (cr_path_specs r)"
    "set (cr_required_features r) \<subseteq> {exists_path_key (cr_rule_id r)}"
  using assms compile_expr_features
  by (fastforce simp: compile_rule_def Let_def split: option.splits prod.splits)+

lemma wrap_trace_shorten_gaps:
  "wrap_trace_predicate (shorten_gaps clause) inner = wrap_trace_predicate clause inner"
  by (intro ext) (simp add: wrap_trace_predicate_def match_shorten_gaps)

lemma map_fst_shorten_gaps [simp]: "map fst (shorten_gaps clause) = map fst clause"
  by (simp add: shorten_gaps_def)

end
