(* ===== verification/Agent_Bindings.thy ===== *)
theory Agent_Bindings
  imports Prelude
begin

text \<open>
  The agent/pack binding table (\<open>AgentBindingStore\<close> and \<open>InMemoryAgentBindingStore\<close> in
  \<open>policy/routing.py\<close>).  The in-memory store keeps two indexes, pack sets by agent and agent
  sets by pack.  Its contract is a binary relation; the locale states it for any store, and the
  in-memory store is shown to provide it.
\<close>

subsection \<open>The interface\<close>

locale binding_store =
  fixes inv :: "'s \<Rightarrow> bool"
    and packs_of :: "'s \<Rightarrow> string \<Rightarrow> string set"
    and agents_of :: "'s \<Rightarrow> string \<Rightarrow> string set"
    and bind :: "string \<Rightarrow> string \<Rightarrow> 's \<Rightarrow> 's"
    and unbind :: "string \<Rightarrow> string \<Rightarrow> 's \<Rightarrow> bool \<times> 's"
    and clear_agent :: "string \<Rightarrow> 's \<Rightarrow> 's"
    and clear_pack :: "string \<Rightarrow> 's \<Rightarrow> 's"
  assumes two_views: "inv s \<Longrightarrow> p \<in> packs_of s a \<longleftrightarrow> a \<in> agents_of s p"
    and inv_bind: "inv s \<Longrightarrow> inv (bind a p s)"
    and inv_unbind: "inv s \<Longrightarrow> inv (snd (unbind a p s))"
    and inv_clear_agent: "inv s \<Longrightarrow> inv (clear_agent a s)"
    and inv_clear_pack: "inv s \<Longrightarrow> inv (clear_pack p s)"
    and packs_bind: "packs_of (bind a p s) b = (if b = a then insert p (packs_of s b) else packs_of s b)"
    and packs_unbind: "inv s \<Longrightarrow>
      packs_of (snd (unbind a p s)) b = (if b = a then packs_of s b - {p} else packs_of s b)"
    and unbind_result: "inv s \<Longrightarrow> fst (unbind a p s) \<longleftrightarrow> p \<in> packs_of s a"
    and packs_clear_agent: "inv s \<Longrightarrow> packs_of (clear_agent a s) b = (if b = a then {} else packs_of s b)"
    and packs_clear_pack: "inv s \<Longrightarrow> packs_of (clear_pack p s) b = packs_of s b - {p}"
begin

definition rel :: "'s \<Rightarrow> (string \<times> string) set" where
  "rel s = {(a, p). p \<in> packs_of s a}"

lemma rel_bind: "rel (bind a p s) = insert (a, p) (rel s)"
  by (auto simp: rel_def packs_bind split: if_splits)

lemma rel_unbind: "inv s \<Longrightarrow> rel (snd (unbind a p s)) = rel s - {(a, p)}"
  by (auto simp: rel_def packs_unbind split: if_splits)

lemma rel_clear_agent: "inv s \<Longrightarrow> rel (clear_agent a s) = {(b, p) \<in> rel s. b \<noteq> a}"
  by (auto simp: rel_def packs_clear_agent split: if_splits)

lemma rel_clear_pack: "inv s \<Longrightarrow> rel (clear_pack p s) = {(b, q) \<in> rel s. q \<noteq> p}"
  by (auto simp: rel_def packs_clear_pack)

lemma agents_rel: "inv s \<Longrightarrow> agents_of s p = {a. (a, p) \<in> rel s}"
  using two_views by (auto simp: rel_def)

lemma bind_unbind:
  assumes "inv s" and "(a, p) \<notin> rel s"
  shows "rel (snd (unbind a p (bind a p s))) = rel s"
  using assms by (simp add: rel_unbind inv_bind rel_bind)

lemma unbind_twice: "inv s \<Longrightarrow> \<not> fst (unbind a p (snd (unbind a p s)))"
  by (simp add: unbind_result inv_unbind packs_unbind)

end

subsection \<open>The in-memory store\<close>

record memory_bindings =
  by_agent :: "string \<Rightarrow> string set option"
  by_pack :: "string \<Rightarrow> string set option"

definition no_bindings :: memory_bindings where
  "no_bindings = \<lparr>by_agent = (\<lambda>_. None), by_pack = (\<lambda>_. None)\<rparr>"

definition members :: "('k \<Rightarrow> 'a set option) \<Rightarrow> 'k \<Rightarrow> 'a set" where
  "members m k = (case m k of None \<Rightarrow> {} | Some s \<Rightarrow> s)"

definition packs_of :: "memory_bindings \<Rightarrow> string \<Rightarrow> string set" where
  "packs_of s agent_id = members (by_agent s) agent_id"

definition agents_of :: "memory_bindings \<Rightarrow> string \<Rightarrow> string set" where
  "agents_of s pack_id = members (by_pack s) pack_id"

definition add_member :: "'k \<Rightarrow> 'a \<Rightarrow> ('k \<Rightarrow> 'a set option) \<Rightarrow> 'k \<Rightarrow> 'a set option" where
  "add_member k x m = m(k := Some (insert x (members m k)))"

text \<open>Discard an element of a bucket; an emptied bucket is deleted.\<close>

definition drop_member :: "'k \<Rightarrow> 'a \<Rightarrow> ('k \<Rightarrow> 'a set option) \<Rightarrow> 'k \<Rightarrow> 'a set option" where
  "drop_member k x m =
     (case m k of
        None \<Rightarrow> m
      | Some s \<Rightarrow> if x \<in> s then (let s' = s - {x} in m(k := if s' = {} then None else Some s')) else m)"

definition bind :: "string \<Rightarrow> string \<Rightarrow> memory_bindings \<Rightarrow> memory_bindings" where
  "bind agent_id pack_id s =
     s\<lparr>by_agent := add_member agent_id pack_id (by_agent s),
       by_pack := add_member pack_id agent_id (by_pack s)\<rparr>"

definition unbind :: "string \<Rightarrow> string \<Rightarrow> memory_bindings \<Rightarrow> bool \<times> memory_bindings" where
  "unbind agent_id pack_id s =
     (pack_id \<in> members (by_agent s) agent_id,
      s\<lparr>by_agent := drop_member agent_id pack_id (by_agent s),
        by_pack := drop_member pack_id agent_id (by_pack s)\<rparr>)"

definition list_all_bindings :: "memory_bindings \<Rightarrow> string \<Rightarrow> string set option" where
  "list_all_bindings s = by_agent s"

text \<open>
  \<open>for k in keys: bucket = m.get(k); if bucket: bucket.discard(x); if not bucket: del m[k]\<close>.
  The visits touch different buckets, so their order does not matter.
\<close>

definition drop_all :: "'k set \<Rightarrow> 'a \<Rightarrow> ('k \<Rightarrow> 'a set option) \<Rightarrow> 'k \<Rightarrow> 'a set option" where
  "drop_all keys x m =
     (\<lambda>k. if k \<in> keys then
            (case m k of
               None \<Rightarrow> None
             | Some s \<Rightarrow> if s = {} then Some s else if s - {x} = {} then None else Some (s - {x}))
          else m k)"

definition clear_agent :: "string \<Rightarrow> memory_bindings \<Rightarrow> memory_bindings" where
  "clear_agent agent_id s =
     s\<lparr>by_agent := (by_agent s)(agent_id := None),
       by_pack := drop_all (members (by_agent s) agent_id) agent_id (by_pack s)\<rparr>"

definition clear_pack :: "string \<Rightarrow> memory_bindings \<Rightarrow> memory_bindings" where
  "clear_pack pack_id s =
     s\<lparr>by_pack := (by_pack s)(pack_id := None),
       by_agent := drop_all (members (by_pack s) pack_id) pack_id (by_agent s)\<rparr>"

subsection \<open>Invariant: the two indexes agree and hold no empty bucket\<close>

definition bindings_ok :: "memory_bindings \<Rightarrow> bool" where
  "bindings_ok s \<longleftrightarrow>
     (\<forall>a p. p \<in> packs_of s a \<longleftrightarrow> a \<in> agents_of s p) \<and>
     (\<forall>a. by_agent s a \<noteq> Some {}) \<and> (\<forall>p. by_pack s p \<noteq> Some {}) \<and>
     (\<forall>a. finite (packs_of s a))"

lemma bindings_ok_empty [guard_intros]: "bindings_ok no_bindings"
  by (simp add: bindings_ok_def no_bindings_def packs_of_def agents_of_def members_def)

lemma members_add [simp]:
  "members (add_member k x m) j = (if j = k then insert x (members m k) else members m j)"
  by (simp add: members_def add_member_def)

lemma members_drop [simp]:
  "members (drop_member k x m) j = (if j = k then members m k - {x} else members m j)"
  by (auto simp: members_def drop_member_def Let_def split: option.splits)

lemma members_drop_all [simp]:
  "members (drop_all keys x m) j = (if j \<in> keys then members m j - {x} else members m j)"
  by (auto simp: members_def drop_all_def split: option.splits)

lemma members_upd_None [simp]: "members (m(k := None)) j = (if j = k then {} else members m j)"
  by (simp add: members_def)

lemma no_empty_add: "\<forall>j. m j \<noteq> Some {} \<Longrightarrow> \<forall>j. add_member k x m j \<noteq> Some {}"
  by (auto simp: add_member_def)

lemma no_empty_drop: "\<forall>j. m j \<noteq> Some {} \<Longrightarrow> \<forall>j. drop_member k x m j \<noteq> Some {}"
  by (auto simp: drop_member_def Let_def split: option.splits)

lemma no_empty_drop_all: "\<forall>j. m j \<noteq> Some {} \<Longrightarrow> \<forall>j. drop_all keys x m j \<noteq> Some {}"
  by (auto simp: drop_all_def split: option.splits)

lemmas binding_defs = packs_of_def agents_of_def bind_def unbind_def clear_agent_def clear_pack_def

lemma bindings_ok_bind [guard_intros]: "bindings_ok s \<Longrightarrow> bindings_ok (bind a p s)"
  by (auto simp: bindings_ok_def binding_defs no_empty_add)

lemma bindings_ok_unbind [guard_intros]: "bindings_ok s \<Longrightarrow> bindings_ok (snd (unbind a p s))"
  by (auto simp: bindings_ok_def binding_defs no_empty_drop)

lemma bindings_ok_clear_agent [guard_intros]: "bindings_ok s \<Longrightarrow> bindings_ok (clear_agent a s)"
  by (auto simp: bindings_ok_def binding_defs no_empty_drop_all)

lemma bindings_ok_clear_pack [guard_intros]: "bindings_ok s \<Longrightarrow> bindings_ok (clear_pack p s)"
  by (auto simp: bindings_ok_def binding_defs no_empty_drop_all)

interpretation mb: binding_store bindings_ok packs_of agents_of bind unbind clear_agent clear_pack
  by unfold_locales
    (simp_all add: bindings_ok_bind bindings_ok_unbind bindings_ok_clear_agent bindings_ok_clear_pack,
     auto simp: bindings_ok_def binding_defs)

lemma finite_packs_of: "bindings_ok s \<Longrightarrow> finite (packs_of s a)"
  by (simp add: bindings_ok_def)

lemma list_all_bindings_packs:
  "bindings_ok s \<Longrightarrow>
     list_all_bindings s a = (if packs_of s a = {} then None else Some (packs_of s a))"
  by (auto simp: list_all_bindings_def bindings_ok_def packs_of_def members_def split: option.splits)

subsection \<open>Runs of operations\<close>

text \<open>The operations on the binding table, and the relation they mean.\<close>

datatype binding_op = Bind string string | Unbind string string | ClearAgent string | ClearPack string

fun run_binding :: "memory_bindings \<Rightarrow> binding_op \<Rightarrow> memory_bindings" where
  "run_binding s (Bind a p) = bind a p s"
| "run_binding s (Unbind a p) = snd (unbind a p s)"
| "run_binding s (ClearAgent a) = clear_agent a s"
| "run_binding s (ClearPack p) = clear_pack p s"

fun run_relation :: "(string \<times> string) set \<Rightarrow> binding_op \<Rightarrow> (string \<times> string) set" where
  "run_relation R (Bind a p) = insert (a, p) R"
| "run_relation R (Unbind a p) = R - {(a, p)}"
| "run_relation R (ClearAgent a) = {(b, q) \<in> R. b \<noteq> a}"
| "run_relation R (ClearPack p) = {(b, q) \<in> R. q \<noteq> p}"

lemma run_binding_ok: "bindings_ok s \<Longrightarrow> bindings_ok (run_binding s x)"
  by (cases x) (simp_all add: bindings_ok_bind bindings_ok_unbind bindings_ok_clear_agent bindings_ok_clear_pack)

lemma run_bindings_relation:
  "bindings_ok s \<Longrightarrow> bindings_ok (foldl run_binding s xs) \<and>
     mb.rel (foldl run_binding s xs) = foldl run_relation (mb.rel s) xs"
proof (induction xs arbitrary: s)
  case (Cons x xs)
  have "mb.rel (run_binding s x) = run_relation (mb.rel s) x"
    using Cons.prems by (cases x) (simp_all add: mb.rel_bind mb.rel_unbind mb.rel_clear_agent mb.rel_clear_pack)
  with Cons.IH [OF run_binding_ok [OF Cons.prems, of x]] show ?case by simp
qed simp

end
