(* ===== verification/Routing.thy ===== *)
theory Routing
  imports Rule_Compiler Agent_Bindings "HOL-Library.List_Lexorder" "HOL-Library.Char_ord"
begin

text \<open>
  The rule router (\<open>RulePack\<close> and \<open>RuleRouter\<close> in \<open>policy/routing.py\<close>) and the flat registry on
  top of it (\<open>policy/rules/registry.py\<close>).  The router caches the merged rule list of each agent;
  the invariant says that every cached list is the one a fresh merge gives, and each operation
  keeps it.
\<close>

subsection \<open>State\<close>

definition builtin_pack_id :: string where
  "builtin_pack_id = ''__builtin__''"

definition default_pack_id :: string where
  "default_pack_id = ''__default__''"

record rule_pack =
  rp_pack_id :: string
  rp_rules :: "compiled_rule list"
  rp_source :: string
  rp_user_managed :: bool

record rule_router =
  rt_packs :: "(string, rule_pack) dict"
  rt_bindings :: memory_bindings
  rt_default_when_unbound :: bool
  rt_cache :: "(string, compiled_rule list) dict"

definition new_router :: "bool \<Rightarrow> rule_router" where
  "new_router dflt = \<lparr>rt_packs = [], rt_bindings = no_bindings, rt_default_when_unbound = dflt,
     rt_cache = []\<rparr>"

subsection \<open>Operations\<close>

definition upsert_pack :: "rule_pack \<Rightarrow> rule_router \<Rightarrow> rule_router" where
  "upsert_pack pack rt = rt\<lparr>rt_packs := dict_set (rp_pack_id pack) pack (rt_packs rt), rt_cache := []\<rparr>"

definition get_pack :: "string \<Rightarrow> rule_router \<Rightarrow> rule_pack option" where
  "get_pack pack_id rt = map_of (rt_packs rt) pack_id"

definition remove_pack :: "string \<Rightarrow> rule_router \<Rightarrow> bool \<times> rule_router" where
  "remove_pack pack_id rt =
     (case get_pack pack_id rt of
        None \<Rightarrow> (False, rt)
      | Some _ \<Rightarrow>
          (True, rt\<lparr>rt_packs := dict_pop pack_id (rt_packs rt),
             rt_bindings := clear_pack pack_id (rt_bindings rt), rt_cache := []\<rparr>))"

definition list_packs :: "rule_router \<Rightarrow> rule_pack list" where
  "list_packs rt = dict_values (rt_packs rt)"

definition replace_pack_rules ::
  "string \<Rightarrow> compiled_rule list \<Rightarrow> string \<Rightarrow> bool \<Rightarrow> rule_router \<Rightarrow> rule_pack \<times> rule_router" where
  "replace_pack_rules pack_id rules source user_managed rt =
     (let pack = \<lparr>rp_pack_id = pack_id, rp_rules = rules, rp_source = source,
                  rp_user_managed = user_managed\<rparr>
      in (pack, upsert_pack pack rt))"

definition router_bind :: "string \<Rightarrow> string \<Rightarrow> rule_router \<Rightarrow> rule_router result" where
  "router_bind agent_id pack_id rt =
     (case get_pack pack_id rt of
        None \<Rightarrow> Inl (KeyError (''unknown rule pack: '' @ repr_str pack_id))
      | Some _ \<Rightarrow>
          Inr (rt\<lparr>rt_bindings := bind agent_id pack_id (rt_bindings rt),
                  rt_cache := dict_pop agent_id (rt_cache rt)\<rparr>))"

definition router_unbind :: "string \<Rightarrow> string \<Rightarrow> rule_router \<Rightarrow> bool \<times> rule_router" where
  "router_unbind agent_id pack_id rt =
     (let (removed, bs) = unbind agent_id pack_id (rt_bindings rt)
      in (removed, rt\<lparr>rt_bindings := bs,
            rt_cache := (if removed then dict_pop agent_id (rt_cache rt) else rt_cache rt)\<rparr>))"

text \<open>The packs of an agent: built-in, then the bound ones by name, else the default pack.\<close>

definition push_pack :: "rule_router \<Rightarrow> string \<Rightarrow> string list \<Rightarrow> string list" where
  "push_pack rt pack_id order =
     (if pack_id \<notin> set order \<and> get_pack pack_id rt \<noteq> None then order @ [pack_id] else order)"

definition packs_for_agent :: "string \<Rightarrow> rule_router \<Rightarrow> string list" where
  "packs_for_agent agent_id rt =
     (let order = push_pack rt builtin_pack_id [];
          order' = foldl (\<lambda>acc pid. push_pack rt pid acc) order
                     (sorted_list_of_set (packs_of (rt_bindings rt) agent_id))
      in if set order' - {builtin_pack_id} = {} \<and> rt_default_when_unbound rt
         then push_pack rt default_pack_id order' else order')"

definition pack_rules :: "rule_router \<Rightarrow> string \<Rightarrow> compiled_rule list" where
  "pack_rules rt pid = (case get_pack pid rt of None \<Rightarrow> [] | Some pack \<Rightarrow> rp_rules pack)"

text \<open>Later packs override earlier ones per rule id.\<close>

definition merge_rules :: "compiled_rule list \<Rightarrow> compiled_rule list" where
  "merge_rules rules = dict_values (dict_index cr_rule_id [] rules)"

definition merged_for :: "string \<Rightarrow> rule_router \<Rightarrow> compiled_rule list" where
  "merged_for agent_id rt = merge_rules (concat (map (pack_rules rt) (packs_for_agent agent_id rt)))"

definition rules_for_agent :: "string \<Rightarrow> rule_router \<Rightarrow> compiled_rule list \<times> rule_router" where
  "rules_for_agent agent_id rt =
     (case map_of (rt_cache rt) agent_id of
        Some cached \<Rightarrow> (cached, rt)
      | None \<Rightarrow>
          (let ordered = merged_for agent_id rt
           in (ordered, rt\<lparr>rt_cache := dict_set agent_id ordered (rt_cache rt)\<rparr>)))"

definition all_rules :: "rule_router \<Rightarrow> compiled_rule list" where
  "all_rules rt = merge_rules (concat (map rp_rules (list_packs rt)))"

definition invalidate_cache :: "rule_router \<Rightarrow> rule_router" where
  "invalidate_cache rt = rt\<lparr>rt_cache := []\<rparr>"

subsection \<open>Merging\<close>

lemma dict_index_keys: "\<forall>p \<in> set (dict_index key [] xs). fst p = key (snd p)"
proof (induction xs rule: rev_induct)
  case (snoc x xs)
  then show ?case
    using set_dict_set_subset [of "key x" x "dict_index key [] xs"] by (auto simp: dict_index_append)
qed simp

lemma distinct_merge_rules: "distinct (map cr_rule_id (merge_rules rules))"
proof -
  have "map cr_rule_id (merge_rules rules) = map fst (dict_index cr_rule_id [] rules)"
    using dict_index_keys [of cr_rule_id rules] by (auto simp: merge_rules_def dict_values_def)
  then show ?thesis using distinct_dict_index [of "[]" cr_rule_id rules] by simp
qed

text \<open>The surviving rule of an id is the last one loaded.\<close>

lemma merge_rules_lookup:
  "find (\<lambda>r. cr_rule_id r = k) (rev rules) = Some r \<longleftrightarrow> r \<in> set (merge_rules rules) \<and> cr_rule_id r = k"
proof -
  let ?d = "dict_index cr_rule_id [] rules"
  have d: "distinct (map fst ?d)" by (rule distinct_dict_index) simp
  have "find (\<lambda>r. cr_rule_id r = k) (rev rules) = map_of ?d k"
    by (simp add: map_of_dict_index split: option.splits)
  moreover have "map_of ?d k = Some r \<longleftrightarrow> (k, r) \<in> set ?d"
    using d by simp
  moreover have "(k, r) \<in> set ?d \<longleftrightarrow> r \<in> set (merge_rules rules) \<and> cr_rule_id r = k"
    using dict_index_keys [of cr_rule_id rules] by (force simp: merge_rules_def dict_values_def)
  ultimately show ?thesis by simp
qed

subsection \<open>Invariant\<close>

definition packs_ok :: "rule_router \<Rightarrow> bool" where
  "packs_ok rt \<longleftrightarrow> distinct (map fst (rt_packs rt)) \<and>
     (\<forall>(k, p) \<in> set (rt_packs rt). rp_pack_id p = k)"

definition cache_ok :: "rule_router \<Rightarrow> bool" where
  "cache_ok rt \<longleftrightarrow> (\<forall>a rules. map_of (rt_cache rt) a = Some rules \<longrightarrow> rules = merged_for a rt)"

definition router_ok :: "rule_router \<Rightarrow> bool" where
  "router_ok rt \<longleftrightarrow> bindings_ok (rt_bindings rt) \<and> packs_ok rt \<and> cache_ok rt"

text \<open>The merged list depends on the pack table, the agent's own bindings and the flag only.\<close>

lemma merged_for_cong:
  assumes "rt_packs rt = rt_packs rt'" and "rt_default_when_unbound rt = rt_default_when_unbound rt'"
    and "packs_of (rt_bindings rt) a = packs_of (rt_bindings rt') a"
  shows "merged_for a rt = merged_for a rt'"
proof -
  have "push_pack rt = push_pack rt'" "pack_rules rt = pack_rules rt'"
    using assms(1) by (auto simp: push_pack_def pack_rules_def get_pack_def fun_eq_iff)
  then show ?thesis
    using assms(2,3) by (simp add: merged_for_def packs_for_agent_def Let_def cong: if_cong)
qed

lemma cache_ok_empty [simp]: "rt_cache rt = [] \<Longrightarrow> cache_ok rt"
  by (simp add: cache_ok_def)

lemma router_ok_new [guard_intros]: "router_ok (new_router dflt)"
  by (simp add: router_ok_def new_router_def packs_ok_def bindings_ok_empty)

lemma packs_ok_upsert [guard_intros]: "packs_ok rt \<Longrightarrow> packs_ok (upsert_pack pack rt)"
  using set_dict_set_subset [of "rp_pack_id pack" pack "rt_packs rt"]
  by (auto simp: packs_ok_def upsert_pack_def distinct_update)

lemma router_ok_upsert [guard_intros]: "router_ok rt \<Longrightarrow> router_ok (upsert_pack pack rt)"
  using packs_ok_upsert by (auto simp: router_ok_def upsert_pack_def)

lemma router_ok_replace [guard_intros]:
  "router_ok rt \<Longrightarrow> router_ok (snd (replace_pack_rules pack_id rules source um rt))"
  by (simp add: replace_pack_rules_def Let_def router_ok_upsert)

lemma router_ok_remove [guard_intros]: "router_ok rt \<Longrightarrow> router_ok (snd (remove_pack pack_id rt))"
  by (auto simp: router_ok_def remove_pack_def packs_ok_def bindings_ok_clear_pack distinct_delete
      AList.delete_eq distinct_map_filter split: option.splits)

lemma router_ok_bind [guard_intros]:
  assumes "router_ok rt" and "router_bind a p rt = Inr rt'"
  shows "router_ok rt'"
proof -
  have rt': "rt' = rt\<lparr>rt_bindings := bind a p (rt_bindings rt), rt_cache := dict_pop a (rt_cache rt)\<rparr>"
    using assms(2) by (auto simp: router_bind_def split: option.splits)
  have "merged_for b rt' = merged_for b rt" if "b \<noteq> a" for b
    using that by (intro merged_for_cong) (simp_all add: rt' mb.packs_bind)
  then show ?thesis
    using assms(1) by (auto simp: router_ok_def rt' packs_ok_def cache_ok_def bindings_ok_bind
        split: if_splits)
qed

lemma router_ok_unbind [guard_intros]:
  assumes "router_ok rt"
  shows "router_ok (snd (router_unbind a p rt))"
proof -
  define rt' where "rt' = snd (router_unbind a p rt)"
  have bs: "rt_bindings rt' = snd (unbind a p (rt_bindings rt))" "rt_packs rt' = rt_packs rt"
    "rt_default_when_unbound rt' = rt_default_when_unbound rt"
    and removed: "rt_cache rt' = (if fst (unbind a p (rt_bindings rt))
      then dict_pop a (rt_cache rt) else rt_cache rt)"
    by (simp_all add: rt'_def router_unbind_def split: prod.splits)
  have ok: "bindings_ok (rt_bindings rt)" using assms by (simp add: router_ok_def)
  have same: "merged_for b rt' = merged_for b rt"
    if "b \<noteq> a \<or> \<not> fst (unbind a p (rt_bindings rt))" for b
    using that ok by (intro merged_for_cong) (auto simp: bs mb.packs_unbind mb.unbind_result)
  show ?thesis
    using assms ok same bindings_ok_unbind unfolding rt'_def [symmetric]
    by (auto simp: router_ok_def bs packs_ok_def cache_ok_def removed split: if_splits)
qed

lemma router_ok_rules_for_agent [guard_intros]:
  assumes "router_ok rt"
  shows "router_ok (snd (rules_for_agent a rt))"
proof -
  have "merged_for b (rt\<lparr>rt_cache := c\<rparr>) = merged_for b rt" for b c
    by (rule merged_for_cong) simp_all
  with assms show ?thesis
    by (auto simp: rules_for_agent_def router_ok_def Let_def packs_ok_def cache_ok_def
        split: option.splits if_splits)
qed

lemma rules_for_agent_value:
  "router_ok rt \<Longrightarrow> fst (rules_for_agent a rt) = merged_for a rt"
  by (auto simp: rules_for_agent_def router_ok_def cache_ok_def Let_def split: option.splits)

lemma router_ok_invalidate [guard_intros]: "router_ok rt \<Longrightarrow> router_ok (invalidate_cache rt)"
  by (simp add: router_ok_def invalidate_cache_def packs_ok_def)

lemma merged_for_rules_for_agent [simp]:
  "merged_for b (snd (rules_for_agent a rt)) = merged_for b rt"
  by (rule merged_for_cong) (auto simp: rules_for_agent_def Let_def split: option.splits)

subsection \<open>Which packs apply\<close>

definition known_packs :: "rule_router \<Rightarrow> string set" where
  "known_packs rt = {pid. get_pack pid rt \<noteq> None}"

definition bound_packs :: "string \<Rightarrow> rule_router \<Rightarrow> string set" where
  "bound_packs a rt = packs_of (rt_bindings rt) a \<inter> known_packs rt"

lemma set_push_pack: "set (push_pack rt pid order) = set order \<union> ({pid} \<inter> known_packs rt)"
  by (auto simp: push_pack_def known_packs_def)

lemma distinct_push_pack: "distinct order \<Longrightarrow> distinct (push_pack rt pid order)"
  by (auto simp: push_pack_def)

lemma push_packs_fold:
  "set (foldl (\<lambda>acc pid. push_pack rt pid acc) order pids) = set order \<union> (set pids \<inter> known_packs rt)"
  by (induction pids arbitrary: order) (auto simp: set_push_pack)

lemma push_packs_distinct:
  "distinct order \<Longrightarrow> distinct (foldl (\<lambda>acc pid. push_pack rt pid acc) order pids)"
  by (induction pids arbitrary: order) (auto simp: distinct_push_pack)

lemma push_packs_prefix: "\<exists>rest. foldl (\<lambda>acc pid. push_pack rt pid acc) order pids = order @ rest"
proof (induction pids arbitrary: order)
  case (Cons pid pids)
  have "\<exists>rest. push_pack rt pid order = order @ rest" by (simp add: push_pack_def)
  with Cons show ?case by (metis append_assoc foldl_Cons)
qed simp

lemma set_packs_for_agent:
  assumes "router_ok rt"
  shows "set (packs_for_agent a rt) =
     ({builtin_pack_id} \<inter> known_packs rt) \<union> bound_packs a rt \<union>
     (if bound_packs a rt \<subseteq> {builtin_pack_id} \<and> rt_default_when_unbound rt
      then {default_pack_id} \<inter> known_packs rt else {})"
proof -
  have "finite (packs_of (rt_bindings rt) a)"
    using assms by (simp add: router_ok_def finite_packs_of)
  then show ?thesis
    by (auto simp: packs_for_agent_def Let_def set_push_pack push_packs_fold bound_packs_def)
qed

lemma distinct_packs_for_agent: "distinct (packs_for_agent a rt)"
  by (simp add: packs_for_agent_def Let_def distinct_push_pack push_packs_distinct)

lemma builtin_first:
  assumes "builtin_pack_id \<in> known_packs rt"
  shows "\<exists>rest. packs_for_agent a rt = builtin_pack_id # rest"
proof -
  have "push_pack rt builtin_pack_id [] = [builtin_pack_id]"
    using assms by (simp add: push_pack_def known_packs_def)
  moreover obtain rest where "foldl (\<lambda>acc pid. push_pack rt pid acc) [builtin_pack_id]
      (sorted_list_of_set (packs_of (rt_bindings rt) a)) = [builtin_pack_id] @ rest"
    using push_packs_prefix by blast
  ultimately show ?thesis
    by (simp add: packs_for_agent_def Let_def push_pack_def)
qed

text \<open>Every id of an applicable pack is represented in the merged list.\<close>

lemma merge_rules_ids: "cr_rule_id ` set (merge_rules rules) = cr_rule_id ` set rules"
proof (intro equalityI subsetI)
  fix k assume "k \<in> cr_rule_id ` set (merge_rules rules)"
  then obtain r where "find (\<lambda>r. cr_rule_id r = k) (rev rules) = Some r"
    using merge_rules_lookup by blast
  then show "k \<in> cr_rule_id ` set rules" by (auto simp: find_Some_iff rev_nth)
next
  fix k assume "k \<in> cr_rule_id ` set rules"
  then obtain r where "find (\<lambda>r. cr_rule_id r = k) (rev rules) = Some r"
    by (metis (mono_tags, lifting) find_None_iff imageE option.exhaust set_rev)
  then show "k \<in> cr_rule_id ` set (merge_rules rules)"
    using merge_rules_lookup by (metis image_eqI)
qed

lemma merge_rules_subset: "set (merge_rules rules) \<subseteq> set rules"
proof
  fix r assume "r \<in> set (merge_rules rules)"
  then have "find (\<lambda>x. cr_rule_id x = cr_rule_id r) (rev rules) = Some r"
    using merge_rules_lookup by blast
  then show "r \<in> set rules" by (metis find_Some_iff nth_mem set_rev)
qed

end
