(* ===== verification/Registry.thy ===== *)
theory Registry
  imports Routing
begin

text \<open>
  The flat registry over the router's default pack and the per-rule rollout gate
  (\<open>policy/rules/registry.py\<close>).  The MD5 bucket of the rollout is a parameter.
\<close>

record rule_registry =
  rr_router :: rule_router
  rr_version :: nat

definition registry_replace :: "compiled_rule list \<Rightarrow> rule_registry \<Rightarrow> nat \<times> rule_registry" where
  "registry_replace rules reg =
     (let rt = snd (replace_pack_rules default_pack_id rules ''registry.replace'' False (rr_router reg));
          v = rr_version reg + 1
      in (v, reg\<lparr>rr_router := rt, rr_version := v\<rparr>))"

definition registry_upsert :: "compiled_rule \<Rightarrow> rule_registry \<Rightarrow> nat \<times> rule_registry" where
  "registry_upsert rule reg =
     (let pack = get_pack default_pack_id (rr_router reg);
          existing = dict_index cr_rule_id [] (case pack of None \<Rightarrow> [] | Some p \<Rightarrow> rp_rules p);
          updated = dict_set (cr_rule_id rule) rule existing;
          source = (case pack of None \<Rightarrow> ''registry.upsert'' | Some p \<Rightarrow> rp_source p);
          rt = snd (replace_pack_rules default_pack_id (dict_values updated) source False (rr_router reg));
          v = rr_version reg + 1
      in (v, reg\<lparr>rr_router := rt, rr_version := v\<rparr>))"

definition has_rule :: "string \<Rightarrow> rule_pack \<Rightarrow> bool" where
  "has_rule rule_id pack = list_ex (\<lambda>r. cr_rule_id r = rule_id) (rp_rules pack)"

definition registry_remove :: "string \<Rightarrow> rule_registry \<Rightarrow> bool \<times> rule_registry" where
  "registry_remove rule_id reg =
     (case find (has_rule rule_id) (list_packs (rr_router reg)) of
        None \<Rightarrow> (False, reg)
      | Some pack \<Rightarrow>
          (let new_rules = filter (\<lambda>r. cr_rule_id r \<noteq> rule_id) (rp_rules pack);
               rt = snd (replace_pack_rules (rp_pack_id pack) new_rules (rp_source pack) False
                      (rr_router reg))
           in (True, reg\<lparr>rr_router := rt, rr_version := rr_version reg + 1\<rparr>)))"

definition registry_active :: "rule_registry \<Rightarrow> compiled_rule list" where
  "registry_active reg = all_rules (rr_router reg)"

definition registry_get :: "string \<Rightarrow> rule_registry \<Rightarrow> compiled_rule option" where
  "registry_get rule_id reg = find (\<lambda>r. cr_rule_id r = rule_id) (all_rules (rr_router reg))"

subsection \<open>Rollout\<close>

record rollout_spec =
  ro_percent :: int
  ro_tenants :: "string set"

type_synonym rollout = "(string, rollout_spec) dict"

definition rollout_set :: "string \<Rightarrow> rollout_spec \<Rightarrow> rollout \<Rightarrow> rollout" where
  "rollout_set rule_id spec r = dict_set rule_id spec r"

text \<open>\<open>hash32\<close> is the value of the first eight hex digits of the MD5 digest.\<close>

definition rollout_applies ::
  "(string \<Rightarrow> nat) \<Rightarrow> rollout \<Rightarrow> string \<Rightarrow> string \<Rightarrow> string option \<Rightarrow> bool" where
  "rollout_applies hash32 r rule_id session_id tenant =
     (case map_of r rule_id of
        None \<Rightarrow> True
      | Some spec \<Rightarrow>
          if ro_tenants spec \<noteq> {} \<and>
             (case tenant of None \<Rightarrow> True | Some t \<Rightarrow> t \<notin> ro_tenants spec) then False
          else if 100 \<le> ro_percent spec then True
          else if ro_percent spec \<le> 0 then False
          else int (hash32 (rule_id @ '':'' @ session_id) mod 100) < ro_percent spec)"

subsection \<open>Lemmas\<close>

definition registry_ok :: "rule_registry \<Rightarrow> bool" where
  "registry_ok reg \<longleftrightarrow> router_ok (rr_router reg)"

lemma registry_ok_replace [guard_intros]: "registry_ok reg \<Longrightarrow> registry_ok (snd (registry_replace rules reg))"
  by (simp add: registry_ok_def registry_replace_def Let_def router_ok_replace)

lemma registry_ok_upsert [guard_intros]: "registry_ok reg \<Longrightarrow> registry_ok (snd (registry_upsert rule reg))"
  by (simp add: registry_ok_def registry_upsert_def Let_def router_ok_replace)

lemma registry_ok_remove [guard_intros]: "registry_ok reg \<Longrightarrow> registry_ok (snd (registry_remove k reg))"
  by (simp add: registry_ok_def registry_remove_def Let_def router_ok_replace split: option.splits)

lemma registry_version_grows:
  "rr_version reg \<le> rr_version (snd (registry_remove k reg))"
  "rr_version reg < rr_version (snd (registry_upsert rule reg))"
  "rr_version reg < rr_version (snd (registry_replace rules reg))"
  by (simp_all add: registry_remove_def registry_upsert_def registry_replace_def Let_def
      split: option.splits)

lemma registry_get_active: "registry_get k reg \<noteq> None \<longleftrightarrow> k \<in> cr_rule_id ` set (registry_active reg)"
  by (auto simp: registry_get_def registry_active_def find_None_iff)

text \<open>The registry's view and the packs: an id is active iff some pack carries it.\<close>

lemma active_iff_pack:
  "k \<in> cr_rule_id ` set (registry_active reg) \<longleftrightarrow>
     (\<exists>pack \<in> set (list_packs (rr_router reg)). has_rule k pack)"
  unfolding registry_active_def all_rules_def merge_rules_ids
  by (auto simp: has_rule_def list_ex_iff)

lemma registry_remove_result:
  "fst (registry_remove k reg) \<longleftrightarrow> registry_get k reg \<noteq> None"
  unfolding registry_get_active active_iff_pack
  by (auto simp: registry_remove_def Let_def find_None_iff find_Some_iff split: option.splits)

lemma rollout_monotone:
  assumes "rollout_applies h (rollout_set k s1 r) k session tenant"
    and "ro_tenants s2 = ro_tenants s1" and "ro_percent s1 \<le> ro_percent s2"
  shows "rollout_applies h (rollout_set k s2 r) k session tenant"
  using assms by (auto simp: rollout_applies_def rollout_set_def split: if_splits option.splits)

end
