(* ===== verification/Obligations.thy ===== *)
theory Obligations
  imports Rule_Compiler
begin

text \<open>
  Obligations of a matched rule (\<open>policy/evaluator/obligations.py\<close>) and the heuristic risk score
  (\<open>policy/evaluator/predicates.py\<close>).
\<close>

fun materialise :: "externals \<Rightarrow> dsl_value \<Rightarrow> pyval"
and materialise_func :: "externals \<Rightarrow> dsl_func \<Rightarrow> pyval" where
  "materialise E (ASet items) = VList (map VStr items)"
| "materialise E (AFunc f) = materialise_func E f"
| "materialise E (AStr s) = ast_literal E (AStr s)"
| "materialise E (AInt i) = ast_literal E (AInt i)"
| "materialise E (AFloat r) = ast_literal E (AFloat r)"
| "materialise E (ABool b) = ast_literal E (ABool b)"
| "materialise E (APath parts) = ast_literal E (APath parts)"
| "materialise_func E (FuncCall name args kwargs ns) =
     VDict [(''__call__'', VStr name), (''args'', VList (map (materialise E) args))]"

definition setdefault :: "string \<Rightarrow> pyval \<Rightarrow> pydict \<Rightarrow> pydict" where
  "setdefault k v d = (if map_of d k = None then dict_set k v d else d)"

definition obligation_from_ast :: "externals \<Rightarrow> obligation_ast \<Rightarrow> string \<Rightarrow> obligation" where
  "obligation_from_ast E ob rule_id =
     (let kind = str_upper (oa_kind ob);
          params = setdefault ''rule_id'' (VStr rule_id) (map (\<lambda>(k, v). (k, materialise E v)) (oa_args ob))
      in if kind = ''REDACT'' then \<lparr>ob_kind = ''mask_fields'', ob_params = params\<rparr>
         else if kind = ''MASK_FIELDS'' then \<lparr>ob_kind = ''mask_fields'', ob_params = params\<rparr>
         else if kind = ''AUDIT'' then \<lparr>ob_kind = ''audit'', ob_params = params\<rparr>
         else if kind = ''REQUIRE_TARGET_IN'' then \<lparr>ob_kind = ''require_target_in'', ob_params = params\<rparr>
         else if kind = ''RATE_LIMIT'' then \<lparr>ob_kind = ''rate_limit'', ob_params = params\<rparr>
         else \<lparr>ob_kind = str_lower kind, ob_params = params\<rparr>)"

definition meta_get :: "externals \<Rightarrow> compiled_rule \<Rightarrow> string \<Rightarrow> pyval" where
  "meta_get E r k = of_option (ast_literal E) (map_of (cr_meta r) k)"

definition build_obligations :: "externals \<Rightarrow> compiled_rule \<Rightarrow> runtime_event \<Rightarrow> obligation list" where
  "build_obligations E rule event =
     (let rewrite = (case cr_degrade_profile rule of
              Some p \<Rightarrow> if p \<noteq> [] then [\<lparr>ob_kind = ''rewrite_tool'',
                ob_params = [(''profile'', VStr p), (''rule_id'', VStr (cr_rule_id rule))]\<rparr>] else []
            | None \<Rightarrow> []);
          severity = meta_get E rule ''severity'';
          category = meta_get E rule ''category'';
          tagging = (if py_bool severity \<or> py_bool category
            then [\<lparr>ob_kind = ''audit'', ob_params =
              [(''severity'', py_or severity (VStr ''medium'')),
               (''category'', py_or category (VStr [])),
               (''rule_id'', VStr (cr_rule_id rule)),
               (''reason'', case map_of (cr_meta rule) ''reason'' of
                  None \<Rightarrow> VStr [] | Some v \<Rightarrow> ast_literal E v)]\<rparr>]
            else [])
      in rewrite @ map (\<lambda>ob. obligation_from_ast E ob (cr_rule_id rule)) (cr_obligations_ast rule)
         @ tagging)"

subsection \<open>Risk\<close>

primrec sink_risk :: "sink_type \<Rightarrow> rat" where
  "sink_risk SinkNone = 0"
| "sink_risk SinkEmail = 4 / 10"
| "sink_risk SinkHttp = 5 / 10"
| "sink_risk SinkShell = 7 / 10"
| "sink_risk SinkFsWrite = 5 / 10"
| "sink_risk SinkDbWrite = 5 / 10"
| "sink_risk SinkLlmOut = 3 / 10"

definition sensitive_label :: "string \<Rightarrow> bool" where
  "sensitive_label lbl \<longleftrightarrow>
     starts_with lbl ''pii'' \<or> starts_with lbl ''finance'' \<or> starts_with lbl ''hr'' \<or>
     starts_with lbl ''secret''"

text \<open>The score before \<open>round(_, 3)\<close>, which leaves multiples of a tenth alone.\<close>

definition risk_score :: "runtime_event \<Rightarrow> string list \<Rightarrow> rat" where
  "risk_score event matched =
     (let risk = (case ev_tool_call event of Some tc \<Rightarrow> max 0 (sink_risk (tc_sink_type tc)) | None \<Rightarrow> 0);
          risk' = (if list_ex (\<lambda>r. sensitive_label (pr_label r)) (ev_provenance_refs event)
                   then max risk (8 / 10) else risk)
      in if matched \<noteq> [] then min 1 (risk' + of_nat (length matched) / 10) else risk')"

lemma sink_risk_bounds: "0 \<le> sink_risk s \<and> sink_risk s \<le> 7 / 10"
  by (cases s) simp_all

lemma risk_score_bounds: "0 \<le> risk_score ev matched \<and> risk_score ev matched \<le> 1"
proof -
  have "sink_risk s \<le> 1" "0 \<le> sink_risk s" for s using sink_risk_bounds [of s] by auto
  then show ?thesis by (auto simp: risk_score_def Let_def max_def min_def split: option.splits)
qed

text \<open>More matched rules never lower the score.\<close>

lemma risk_score_mono:
  assumes "length xs \<le> length ys"
  shows "risk_score ev xs \<le> risk_score ev ys"
proof -
  have le: "r \<le> 1 \<Longrightarrow> (if xs \<noteq> [] then min 1 (r + rat_of_nat (length xs) / 10) else r)
      \<le> (if ys \<noteq> [] then min 1 (r + rat_of_nat (length ys) / 10) else r)" for r :: rat
    using assms by (auto simp: min_def divide_le_cancel)
  have "sink_risk s \<le> 1" for s using sink_risk_bounds [of s] by simp
  then show ?thesis
    unfolding risk_score_def Let_def by (intro le) (auto simp: max_def split: option.splits)
qed

lemma obligation_kinds:
  "ob \<in> set (build_obligations E r ev) \<Longrightarrow> map_of (ob_params ob) ''rule_id'' \<noteq> None"
proof -
  have "map_of (ob_params (obligation_from_ast E a k)) ''rule_id'' \<noteq> None" for a k
    by (simp add: obligation_from_ast_def setdefault_def Let_def)
  then show "ob \<in> set (build_obligations E r ev) \<Longrightarrow> map_of (ob_params ob) ''rule_id'' \<noteq> None"
    by (fastforce simp: build_obligations_def Let_def split: option.splits if_splits)
qed

lemma build_obligations_rewrite_first:
  "cr_degrade_profile r = Some p \<Longrightarrow> p \<noteq> [] \<Longrightarrow>
     \<exists>rest. build_obligations E r ev =
       \<lparr>ob_kind = ''rewrite_tool'', ob_params = [(''profile'', VStr p), (''rule_id'', VStr (cr_rule_id r))]\<rparr> # rest"
  by (simp add: build_obligations_def Let_def)

end
