(* ===== verification/Evaluator.thy ===== *)
theory Evaluator
  imports Registry Obligations "HOL-Library.Multiset"
begin

text \<open>
  The synchronous evaluator (\<open>policy/evaluator/matcher.py\<close>): rules indexed by tool pattern,
  per-agent views cached on top of the router, and the merge of all matching rules into one
  decision.  The lemmas relate the index to a linear scan and characterise the decision.
\<close>

subsection \<open>Phases\<close>

definition event_subtype_match :: "(string \<times> event_type list) list" where
  "event_subtype_match =
     [(''requested'', [TOOL_CALL_REQUESTED, TOOL_CALL_ATTEMPT]),
      (''completed'', [TOOL_CALL_COMPLETED, TOOL_CALL_RESULT]),
      (''failed'', [TOOL_CALL_FAILED])]"

definition event_matches_subtype :: "compiled_rule \<Rightarrow> runtime_event \<Rightarrow> bool" where
  "event_matches_subtype rule event =
     (let sub = cr_event_subtype rule in
      if sub = [] then True
      else (case map_of event_subtype_match (str_lower sub) of
              None \<Rightarrow> True | Some allowed \<Rightarrow> ev_event_type event \<in> set allowed))"

subsection \<open>Merged texts\<close>

text \<open>The texts without blanks, empty ones and repetitions, in order.\<close>

definition distinct_texts :: "string list \<Rightarrow> string list" where
  "distinct_texts texts =
     foldl (\<lambda>acc t. if t \<noteq> [] \<and> t \<notin> set acc then acc @ [t] else acc) [] (map str_strip texts)"

definition merge_llm_prompts :: "externals \<Rightarrow> compiled_rule list \<Rightarrow> string option" where
  "merge_llm_prompts E matched =
     (let prompts = distinct_texts (map (rule_llm_prompt E) matched)
      in if prompts = [] then None else Some (str_join [char_of (10::nat), char_of (10::nat)] prompts))"

definition rule_reason :: "externals \<Rightarrow> compiled_rule \<Rightarrow> string" where
  "rule_reason E rule =
     (case map_of (cr_meta rule) ''reason'' of
        Some v \<Rightarrow> if ast_truthy v then ast_str E v else cr_rule_id rule
      | None \<Rightarrow> cr_rule_id rule)"

definition merge_rule_reasons :: "externals \<Rightarrow> compiled_rule list \<Rightarrow> string" where
  "merge_rule_reasons E matched = str_join '' | '' (distinct_texts (map (rule_reason E) matched))"

subsection \<open>Index\<close>

record indexed_view =
  iv_rules :: "compiled_rule list"
  iv_by_pattern :: "(string, compiled_rule list) dict"

definition index_rule ::
  "(string, compiled_rule list) dict \<Rightarrow> compiled_rule \<Rightarrow> (string, compiled_rule list) dict" where
  "index_rule index r =
     dict_set (cr_tool_pattern r) (dict_getd index (cr_tool_pattern r) [] @ [r]) index"

definition build_view :: "compiled_rule list \<Rightarrow> indexed_view" where
  "build_view rules = \<lparr>iv_rules = rules, iv_by_pattern = foldl index_rule [] rules\<rparr>"

definition view_candidates :: "indexed_view \<Rightarrow> string \<Rightarrow> compiled_rule list" where
  "view_candidates view tool_name =
     dict_getd (iv_by_pattern view) tool_name [] @
     concat (map (\<lambda>(pat, bucket).
         if pat \<noteq> tool_name \<and> CHR ''*'' \<in> set pat
         then filter (\<lambda>r. fn_match pat tool_name) bucket else [])
       (iv_by_pattern view))"

subsection \<open>State\<close>

record fast_evaluator =
  fe_rule_version :: string
  fe_routed :: bool
  fe_global_view :: indexed_view
  fe_agent_views :: "(string, indexed_view) dict"

text \<open>The router is shared with the rest of the guard, so it is passed along and returned.\<close>

definition new_evaluator :: "compiled_rule list \<Rightarrow> string \<Rightarrow> bool \<Rightarrow> fast_evaluator" where
  "new_evaluator rules version routed = \<lparr>fe_rule_version = version, fe_routed = routed,
     fe_global_view = build_view rules, fe_agent_views = []\<rparr>"

definition evaluator_load :: "compiled_rule list \<Rightarrow> fast_evaluator \<Rightarrow> fast_evaluator" where
  "evaluator_load rules fe = fe\<lparr>fe_global_view := build_view rules, fe_agent_views := []\<rparr>"

definition evaluator_invalidate :: "fast_evaluator \<Rightarrow> fast_evaluator" where
  "evaluator_invalidate fe = fe\<lparr>fe_agent_views := []\<rparr>"

definition evaluator_attach :: "bool \<Rightarrow> fast_evaluator \<Rightarrow> fast_evaluator" where
  "evaluator_attach routed fe = fe\<lparr>fe_routed := routed, fe_agent_views := []\<rparr>"

definition evaluator_rules :: "fast_evaluator \<Rightarrow> rule_router \<Rightarrow> compiled_rule list" where
  "evaluator_rules fe rt = (if fe_routed fe then all_rules rt else iv_rules (fe_global_view fe))"

definition view_for ::
  "string \<Rightarrow> fast_evaluator \<times> rule_router \<Rightarrow> indexed_view \<times> fast_evaluator \<times> rule_router" where
  "view_for agent_id st =
     (let (fe, rt) = st in
      if \<not> fe_routed fe then (fe_global_view fe, fe, rt)
      else (case map_of (fe_agent_views fe) agent_id of
              Some cached \<Rightarrow> (cached, fe, rt)
            | None \<Rightarrow>
                (let (rules, rt') = rules_for_agent agent_id rt;
                     view = build_view rules
                 in (view, fe\<lparr>fe_agent_views := dict_set agent_id view (fe_agent_views fe)\<rparr>, rt'))))"

subsection \<open>Evaluation\<close>

text \<open>A rule counts when its phase fits and its predicate holds; one that raises is skipped.\<close>

definition rule_hits :: "runtime_event \<Rightarrow> pydict \<Rightarrow> compiled_rule \<Rightarrow> bool" where
  "rule_hits event features rule =
     (event_matches_subtype rule event \<and> etry (cr_predicate rule event features) False)"

definition build_decision ::
  "externals \<Rightarrow> string \<Rightarrow> action \<Rightarrow> compiled_rule list \<Rightarrow> runtime_event \<Rightarrow> decision" where
  "build_decision E version action matched event =
     \<lparr>d_action = action,
      d_risk_score = risk_score event (map cr_rule_id matched),
      d_matched_rules = map cr_rule_id matched,
      d_obligations = concat (map (\<lambda>r. build_obligations E r event) matched),
      d_rule_version = version,
      d_ttl_ms = 0,
      d_reason = merge_rule_reasons E matched,
      d_degrade_profile =
        (case filter (\<lambda>r. cr_degrade_profile r \<noteq> None \<and> cr_degrade_profile r \<noteq> Some []) matched of
           [] \<Rightarrow> None | r # _ \<Rightarrow> cr_degrade_profile r),
      d_llm_system_prompt = (if action = LLM_CHECK then merge_llm_prompts E matched else None),
      d_client_action = None\<rparr>"

definition action_order :: "action list" where
  "action_order = [DENY, LLM_CHECK, HUMAN_CHECK, DEGRADE, ALLOW]"

definition no_match_decision :: "string \<Rightarrow> runtime_event \<Rightarrow> decision" where
  "no_match_decision version event =
     (decision_allow ''no-rule-matched'' version)\<lparr>d_risk_score := risk_score event []\<rparr>"

fun decide ::
  "externals \<Rightarrow> string \<Rightarrow> action list \<Rightarrow> compiled_rule list \<Rightarrow> runtime_event \<Rightarrow> decision" where
  "decide E version [] hits event = no_match_decision version event"
| "decide E version (a # as) hits event =
     (let matched = filter (\<lambda>r. cr_action r = a) hits
      in if matched \<noteq> [] then build_decision E version a matched event
         else decide E version as hits event)"

definition evaluate ::
  "externals \<Rightarrow> runtime_event \<Rightarrow> pydict \<Rightarrow> fast_evaluator \<times> rule_router \<Rightarrow>
   decision \<times> fast_evaluator \<times> rule_router" where
  "evaluate E event features st =
     (case ev_tool_call event of
        None \<Rightarrow> (decision_allow ''no-tool-call'' (fe_rule_version (fst st)), st)
      | Some tc \<Rightarrow>
          (let (view, st') = view_for (p_agent_id (ev_principal event)) st;
               hits = filter (rule_hits event features) (view_candidates view (tc_tool_name tc))
           in (decide E (fe_rule_version (fst st)) action_order hits event, st')))"

subsection \<open>The index is a linear scan\<close>

definition candidate_for :: "string \<Rightarrow> compiled_rule \<Rightarrow> bool" where
  "candidate_for tool_name r \<longleftrightarrow> cr_tool_pattern r = tool_name \<or>
     CHR ''*'' \<in> set (cr_tool_pattern r) \<and> fn_match (cr_tool_pattern r) tool_name"

definition wild_bucket :: "string \<Rightarrow> string \<Rightarrow> bool" where
  "wild_bucket tool_name pat \<longleftrightarrow> pat \<noteq> tool_name \<and> CHR ''*'' \<in> set pat \<and> fn_match pat tool_name"

definition wild_rules :: "string \<Rightarrow> (string, compiled_rule list) dict \<Rightarrow> compiled_rule list" where
  "wild_rules t index = concat (map (\<lambda>(pat, bucket). if wild_bucket t pat then bucket else []) index)"

lemma view_candidates_split:
  "view_candidates view t = dict_getd (iv_by_pattern view) t [] @ wild_rules t (iv_by_pattern view)"
proof -
  have "(if pat \<noteq> t \<and> CHR ''*'' \<in> set pat then filter (\<lambda>r. fn_match pat t) bucket else []) =
      (if wild_bucket t pat then bucket else [])" for pat and bucket :: "compiled_rule list"
    by (simp add: wild_bucket_def)
  then show ?thesis by (simp add: view_candidates_def wild_rules_def)
qed

lemma wild_rules_update:
  "mset (wild_rules t (dict_set k (dict_getd index k [] @ [r]) index)) =
     mset (wild_rules t index) + (if wild_bucket t k then {#r#} else {#})"
  by (induction index) (auto simp: wild_rules_def dict_getd_def split: option.splits)

lemma dict_getd_index_rule:
  "dict_getd (index_rule index r) p [] =
     dict_getd index p [] @ (if cr_tool_pattern r = p then [r] else [])"
  by (simp add: index_rule_def dict_getd_def)

lemma index_bucket:
  "dict_getd (foldl index_rule [] rules) p [] = filter (\<lambda>r. cr_tool_pattern r = p) rules"
  by (induction rules rule: rev_induct) (simp_all add: dict_getd_index_rule dict_getd_def [of "[]"])

lemma index_wild:
  "mset (wild_rules t (foldl index_rule [] rules)) =
     mset (filter (\<lambda>r. wild_bucket t (cr_tool_pattern r)) rules)"
proof (induction rules rule: rev_induct)
  case Nil
  then show ?case by (simp add: wild_rules_def)
next
  case (snoc r rules)
  then show ?case by (simp add: index_rule_def wild_rules_update)
qed

lemma mset_candidates:
  "mset (view_candidates (build_view rules) t) = mset (filter (candidate_for t) rules)"
proof -
  have "mset (filter (candidate_for t) rs) = mset (filter (\<lambda>r. cr_tool_pattern r = t) rs) +
      mset (filter (\<lambda>r. wild_bucket t (cr_tool_pattern r)) rs)" for rs
    by (induction rs) (auto simp: candidate_for_def wild_bucket_def)
  then show ?thesis
    by (simp add: view_candidates_split build_view_def index_bucket index_wild)
qed

text \<open>
  The index asks for a star before it tries a pattern, so patterns that rely on \<open>?\<close> or on a
  bracket class alone are only found under their own text.
\<close>

definition indexable :: "string \<Rightarrow> bool" where
  "indexable pat \<longleftrightarrow> CHR ''['' \<notin> set pat \<and> (CHR ''*'' \<in> set pat \<or> CHR ''?'' \<notin> set pat)"

lemma fn_match_skip: "fn_match ps s \<Longrightarrow> fn_match (CHR ''*'' # ps) s"
  by (subst fn_match.simps(2)) simp

lemma fn_match_self: "CHR ''['' \<notin> set pat \<Longrightarrow> fn_match pat pat"
proof (induction pat)
  case (Cons c pat)
  show ?case
  proof (cases "c = CHR ''*''")
    case True
    then show ?thesis using Cons by (subst fn_match.simps(2)) (simp add: fn_match_skip)
  next
    case False
    then show ?thesis using Cons by (subst fn_match.simps(2)) auto
  qed
qed simp

lemma candidate_matches:
  assumes "indexable (cr_tool_pattern r)"
  shows "candidate_for t r \<longleftrightarrow> matches_tool r t"
proof -
  have "fn_match (cr_tool_pattern r) t \<longleftrightarrow> t = cr_tool_pattern r" if "CHR ''*'' \<notin> set (cr_tool_pattern r)"
    using that assms by (intro fn_match_literal) (auto simp: indexable_def literal_pattern_def)
  moreover have "fn_match (cr_tool_pattern r) (cr_tool_pattern r)"
    using assms by (intro fn_match_self) (simp add: indexable_def)
  ultimately show ?thesis by (auto simp: candidate_for_def matches_tool_def)
qed

subsection \<open>Actions are ordered by precedence\<close>

instantiation action :: linorder
begin

definition less_eq_action :: "action \<Rightarrow> action \<Rightarrow> bool" where
  "less_eq_action a b \<longleftrightarrow> action_priority a \<le> action_priority b"

definition less_action :: "action \<Rightarrow> action \<Rightarrow> bool" where
  "less_action a b \<longleftrightarrow> action_priority a < action_priority b"

instance
  by intro_classes (auto simp: less_eq_action_def less_action_def intro: action_priority_inj)

end

lemma DENY_least [simp]: "DENY \<le> a"
  by (cases a) (simp_all add: less_eq_action_def)

lemma ALLOW_greatest [simp]: "a \<le> ALLOW"
  by (cases a) (simp_all add: less_eq_action_def)

lemma action_order_complete: "a \<in> set action_order"
  by (cases a) (simp_all add: action_order_def)

lemma action_order_sorted: "sorted_wrt (<) action_order"
  by (simp add: action_order_def less_action_def)

lemma decide_hit:
  assumes "sorted_wrt (<) as" and "hits \<noteq> []" and "cr_action ` set hits \<subseteq> set as"
  shows "decide E version as hits ev =
     build_decision E version (Min (cr_action ` set hits))
       (filter (\<lambda>r. cr_action r = Min (cr_action ` set hits)) hits) ev"
  using assms
proof (induction as)
  case Nil
  then show ?case by simp
next
  case (Cons a as)
  show ?case
  proof (cases "filter (\<lambda>r. cr_action r = a) hits = []")
    case True
    then have "a \<notin> cr_action ` set hits" by (auto simp: filter_empty_conv)
    with Cons True show ?thesis by auto
  next
    case False
    then have "a \<in> cr_action ` set hits" by (auto simp: filter_empty_conv)
    moreover have "a \<le> b" if "b \<in> cr_action ` set hits" for b
      using that Cons.prems by (auto intro: less_imp_le)
    ultimately have "Min (cr_action ` set hits) = a" by (intro Min_eqI) auto
    with False show ?thesis by simp
  qed
qed

lemma decide_order_hit:
  assumes "hits \<noteq> []"
  shows "decide E version action_order hits ev =
     build_decision E version (Min (cr_action ` set hits))
       (filter (\<lambda>r. cr_action r = Min (cr_action ` set hits)) hits) ev"
  using assms action_order_sorted action_order_complete by (intro decide_hit) auto

lemma decide_Nil: "decide E version as [] ev = no_match_decision version ev"
  by (induction as) simp_all

lemma build_decision_simps [simp]:
  "d_action (build_decision E v a rs ev) = a"
  "d_matched_rules (build_decision E v a rs ev) = map cr_rule_id rs"
  "d_obligations (build_decision E v a rs ev) = concat (map (\<lambda>r. build_obligations E r ev) rs)"
  "d_risk_score (build_decision E v a rs ev) = risk_score ev (map cr_rule_id rs)"
  by (simp_all add: build_decision_def)

subsection \<open>Per-agent views\<close>

definition evaluator_ok :: "fast_evaluator \<times> rule_router \<Rightarrow> bool" where
  "evaluator_ok st \<longleftrightarrow> router_ok (snd st) \<and>
     (\<forall>a view. map_of (fe_agent_views (fst st)) a = Some view \<longrightarrow>
        view = build_view (merged_for a (snd st)))"

text \<open>The rules an agent is judged by.\<close>

definition agent_rules :: "string \<Rightarrow> fast_evaluator \<times> rule_router \<Rightarrow> compiled_rule list" where
  "agent_rules a st =
     (if fe_routed (fst st) then merged_for a (snd st) else iv_rules (fe_global_view (fst st)))"

definition evaluator_wf :: "fast_evaluator \<times> rule_router \<Rightarrow> bool" where
  "evaluator_wf st \<longleftrightarrow> evaluator_ok st \<and>
     fe_global_view (fst st) = build_view (iv_rules (fe_global_view (fst st)))"

lemma evaluator_wf_new [guard_intros]:
  "router_ok rt \<Longrightarrow> evaluator_wf (new_evaluator rules version routed, rt)"
  by (simp add: evaluator_wf_def evaluator_ok_def new_evaluator_def build_view_def)

lemma evaluator_wf_invalidate [guard_intros]:
  "evaluator_wf (fe, rt) \<Longrightarrow> router_ok rt' \<Longrightarrow> evaluator_wf (evaluator_invalidate fe, rt')"
  by (simp add: evaluator_wf_def evaluator_ok_def evaluator_invalidate_def)

lemma evaluator_wf_load [guard_intros]:
  "router_ok rt \<Longrightarrow> evaluator_wf (evaluator_load rules fe, rt)"
  by (simp add: evaluator_wf_def evaluator_ok_def evaluator_load_def build_view_def)

lemma view_for_value:
  assumes "evaluator_wf st"
  shows "fst (view_for a st) = build_view (agent_rules a st)"
  using assms rules_for_agent_value [of "snd st" a]
  by (auto simp: view_for_def agent_rules_def evaluator_wf_def evaluator_ok_def Let_def
      split: prod.splits option.splits)

lemma evaluator_wf_view_for [guard_intros]:
  assumes "evaluator_wf st"
  shows "evaluator_wf (snd (view_for a st))"
proof -
  obtain fe rt where st: "st = (fe, rt)" by (cases st)
  have ok: "router_ok rt" using assms by (simp add: st evaluator_wf_def evaluator_ok_def)
  obtain rt' where rules: "rules_for_agent a rt = (merged_for a rt, rt')"
    using rules_for_agent_value [OF ok, of a] by (cases "rules_for_agent a rt") simp
  then have "router_ok rt'" "\<And>b. merged_for b rt' = merged_for b rt"
    using router_ok_rules_for_agent [OF ok, of a] merged_for_rules_for_agent [of _ a rt] by auto
  with assms rules show ?thesis
    by (auto simp: st view_for_def evaluator_wf_def evaluator_ok_def Let_def split: option.splits)
qed

lemma agent_rules_view_for [simp]: "agent_rules b (snd (view_for a st)) = agent_rules b st"
proof -
  obtain fe rt where st: "st = (fe, rt)" by (cases st)
  have "rules_for_agent a rt = (fst (rules_for_agent a rt), snd (rules_for_agent a rt))" by simp
  then show ?thesis
    by (auto simp: st view_for_def agent_rules_def Let_def split: option.splits prod.splits)
      (metis merged_for_rules_for_agent snd_conv)
qed

subsection \<open>Evaluation\<close>

definition applicable :: "compiled_rule list \<Rightarrow> runtime_event \<Rightarrow> pydict \<Rightarrow> string \<Rightarrow> compiled_rule list" where
  "applicable rules ev features tool =
     filter (\<lambda>r. matches_tool r tool \<and> rule_hits ev features r) rules"

lemma evaluate_hits:
  assumes "evaluator_wf st" and "ev_tool_call ev = Some tc"
  obtains hits where
    "mset hits = mset (filter (\<lambda>r. candidate_for (tc_tool_name tc) r \<and> rule_hits ev features r)
        (agent_rules (p_agent_id (ev_principal ev)) st))"
    "fst (evaluate E ev features st) = decide E (fe_rule_version (fst st)) action_order hits ev"
proof -
  define a where "a = p_agent_id (ev_principal ev)"
  define hits where
    "hits = filter (rule_hits ev features) (view_candidates (fst (view_for a st)) (tc_tool_name tc))"
  have "fst (view_for a st) = build_view (agent_rules a st)" using assms(1) by (rule view_for_value)
  then have "mset hits = filter_mset (rule_hits ev features)
      (mset (filter (candidate_for (tc_tool_name tc)) (agent_rules a st)))"
    by (simp add: hits_def mset_candidates)
  also have "\<dots> = mset (filter (\<lambda>r. candidate_for (tc_tool_name tc) r \<and> rule_hits ev features r)
      (agent_rules a st))"
    by (simp add: filter_filter_mset conj_commute)
  finally have "mset hits = \<dots>" .
  moreover have "fst (evaluate E ev features st) = decide E (fe_rule_version (fst st)) action_order hits ev"
    using assms(2) by (auto simp: evaluate_def hits_def a_def split: prod.splits)
  ultimately show thesis using that by (simp add: a_def)
qed

lemma applicable_candidates:
  assumes "\<forall>r \<in> set rules. indexable (cr_tool_pattern r)"
  shows "filter (\<lambda>r. candidate_for t r \<and> rule_hits ev features r) rules = applicable rules ev features t"
  using assms by (auto simp: applicable_def candidate_matches intro!: filter_cong)

text \<open>
  With indexable patterns the decision is the one a scan of all the agent's rules gives: the
  most restrictive action among the rules that apply, for exactly the rules with that action.
\<close>

lemma evaluate_decision:
  fixes features :: pydict and E :: externals and st :: "fast_evaluator \<times> rule_router"
  assumes "evaluator_wf st" and "ev_tool_call ev = Some tc"
    and "\<forall>r \<in> set (agent_rules (p_agent_id (ev_principal ev)) st). indexable (cr_tool_pattern r)"
  defines "rs \<equiv> applicable (agent_rules (p_agent_id (ev_principal ev)) st) ev features (tc_tool_name tc)"
    and "d \<equiv> fst (evaluate E ev features st)"
  shows "rs = [] \<Longrightarrow> d = no_match_decision (fe_rule_version (fst st)) ev"
    and "rs \<noteq> [] \<Longrightarrow> d_action d = Min (cr_action ` set rs)"
    and "rs \<noteq> [] \<Longrightarrow> mset (d_matched_rules d) =
       mset (map cr_rule_id (filter (\<lambda>r. cr_action r = Min (cr_action ` set rs)) rs))"
proof -
  obtain hits where hits: "mset hits = mset rs"
    "d = decide E (fe_rule_version (fst st)) action_order hits ev"
    using evaluate_hits [OF assms(1,2), of features E] applicable_candidates [OF assms(3)]
    unfolding rs_def d_def by metis
  have sets: "set hits = set rs" using hits(1) by (rule mset_eq_setD)
  show "d = no_match_decision (fe_rule_version (fst st)) ev" if "rs = []"
    using that hits by (simp add: decide_Nil)
  show "d_action d = Min (cr_action ` set rs)" if "rs \<noteq> []"
    using that hits(2) sets by (subst hits(2), subst decide_order_hit) auto
  show "mset (d_matched_rules d) =
       mset (map cr_rule_id (filter (\<lambda>r. cr_action r = Min (cr_action ` set rs)) rs))" if "rs \<noteq> []"
  proof -
    have "hits \<noteq> []" using that sets by auto
    then have "d_matched_rules d = map cr_rule_id (filter (\<lambda>r. cr_action r = Min (cr_action ` set rs)) hits)"
      by (simp add: hits(2) decide_order_hit sets)
    then show ?thesis using hits(1) by (simp add: mset_filter)
  qed
qed

lemma evaluate_denies:
  assumes "evaluator_wf st" and "ev_tool_call ev = Some tc"
    and "\<forall>r \<in> set (agent_rules (p_agent_id (ev_principal ev)) st). indexable (cr_tool_pattern r)"
    and "r \<in> set (agent_rules (p_agent_id (ev_principal ev)) st)" "cr_action r = DENY"
    and "matches_tool r (tc_tool_name tc)" "rule_hits ev features r"
  shows "d_action (fst (evaluate E ev features st)) = DENY"
    and "cr_rule_id r \<in> set (d_matched_rules (fst (evaluate E ev features st)))"
proof -
  let ?rs = "applicable (agent_rules (p_agent_id (ev_principal ev)) st) ev features (tc_tool_name tc)"
  have r: "r \<in> set ?rs" using assms(4,6,7) by (simp add: applicable_def)
  then have "DENY \<in> cr_action ` set ?rs" using assms(5) by (metis image_eqI)
  then have least: "Min (cr_action ` set ?rs) = DENY" by (intro Min_eqI) auto
  have "?rs \<noteq> []" using r by auto
  then show "d_action (fst (evaluate E ev features st)) = DENY"
    using evaluate_decision(2) [OF assms(1-3), of features E] least by simp
  have "set (d_matched_rules (fst (evaluate E ev features st))) =
      set (map cr_rule_id (filter (\<lambda>r. cr_action r = DENY) ?rs))"
    using evaluate_decision(3) [OF assms(1-3), of features E] \<open>?rs \<noteq> []\<close>
    unfolding least by (intro mset_eq_setD) blast
  then show "cr_rule_id r \<in> set (d_matched_rules (fst (evaluate E ev features st)))"
    using r assms(5) by simp
qed

text \<open>A rule whose predicate raises does not count, whatever its action.\<close>

lemma rule_hits_raises: "cr_predicate r ev features = Inl e \<Longrightarrow> \<not> rule_hits ev features r"
  by (simp add: rule_hits_def)

lemma evaluator_wf_evaluate [guard_intros]:
  "evaluator_wf st \<Longrightarrow> evaluator_wf (snd (evaluate E ev features st))"
  using evaluator_wf_view_for [of st "p_agent_id (ev_principal ev)"]
  by (auto simp: evaluate_def split: option.splits prod.splits)

end
