(* ===== verification/Dsl_Lexer.thy ===== *)
theory Dsl_Lexer
  imports Dsl_Ast
begin

text \<open>
  The tokenizer of the rule language (\<open>_tokenize\<close> in \<open>policy/dsl/parser.py\<close>), on ASCII sources.
  A token is its kind with its value, and the position where it starts.  The lemmas show that it
  reads back the tokens of a rendered text.
\<close>

datatype tok =
    KW string
  | IDENT string
  | STRING string
  | INT_LIT int
  | FLOAT_LIT rat
  | OP string
  | PUNC string
  | EOF

type_synonym token = "tok \<times> nat"

definition dsl_keywords :: "string list" where
  "dsl_keywords =
     [''RULE'', ''ON'', ''WITH'', ''AND'', ''OR'', ''NOT'', ''IN'', ''TO'', ''DENY'', ''ALLOW'',
      ''HUMAN_CHECK'', ''LLM_CHECK'', ''DEGRADE'', ''EXISTS_PATH'', ''MATCHES'', ''CONTAINS'',
      ''true'', ''false'', ''TRUE'', ''FALSE'', ''TRACE'', ''CONDITION'', ''POLICY'']"

subsection \<open>Strings\<close>

definition newline :: char where "newline = CHR 0x0A"
definition tab :: char where "tab = CHR 0x09"
definition carriage :: char where "carriage = CHR 0x0D"
definition nul :: char where "nul = CHR 0x00"
definition backslash :: char where "backslash = CHR 0x5C"
definition dquote :: char where "dquote = CHR 0x22"
definition squote :: char where "squote = CHR 0x27"

definition unescape :: "char \<Rightarrow> string" where
  "unescape c =
     (if c = CHR ''n'' then [newline] else if c = CHR ''t'' then [tab]
      else if c = CHR ''r'' then [carriage] else if c = CHR ''0'' then [nul]
      else if c \<in> {backslash, dquote, squote} then [c] else [backslash, c])"

text \<open>The body of a string up to its closing quote, and how many characters that took.\<close>

fun scan_string :: "char \<Rightarrow> string \<Rightarrow> (string \<times> nat) option" where
  "scan_string q [] = None"
| "scan_string q (c # s) =
     (if c = q then Some ([], 1)
      else if c = backslash \<and> s \<noteq> []
        then (case s of
                [] \<Rightarrow> None
              | d # s' \<Rightarrow> map_option (\<lambda>(out, k). (unescape d @ out, k + 2)) (scan_string q s'))
      else map_option (\<lambda>(out, k). (c # out, k + 1)) (scan_string q s))"

subsection \<open>Numbers and words\<close>

definition is_numeric_char :: "char \<Rightarrow> bool" where
  "is_numeric_char c \<longleftrightarrow> is_digit c \<or> c = CHR ''.''"

text \<open>\<open>int(raw)\<close>, or \<open>float(raw)\<close> when there is a point; two points are a \<open>ValueError\<close>.\<close>

definition unsigned_number :: "string \<Rightarrow> tok result" where
  "unsigned_number raw =
     (let whole = takeWhile is_digit raw; rest = dropWhile is_digit raw
      in case rest of
           [] \<Rightarrow> Inr (INT_LIT (int (nat_of_digits whole)))
         | c # frac_digits \<Rightarrow>
             if list_all is_digit frac_digits
             then Inr (FLOAT_LIT (of_nat (nat_of_digits (whole @ frac_digits)) / 10 ^ length frac_digits))
             else Inl ValueError)"

definition negate_tok :: "tok \<Rightarrow> tok" where
  "negate_tok t = (case t of INT_LIT i \<Rightarrow> INT_LIT (- i) | FLOAT_LIT r \<Rightarrow> FLOAT_LIT (- r) | _ \<Rightarrow> t)"

definition number_value :: "string \<Rightarrow> tok result" where
  "number_value raw =
     (case raw of
        c # digits \<Rightarrow>
          if c = CHR ''-'' then ebind (unsigned_number digits) (\<lambda>t. Inr (negate_tok t))
          else unsigned_number raw
      | [] \<Rightarrow> Inl ValueError)"

definition is_word_char :: "char \<Rightarrow> bool" where
  "is_word_char c \<longleftrightarrow> is_alnum c \<or> c = CHR ''_''"

text \<open>A hyphen belongs to a word when a word character follows it.\<close>

fun word_tail :: "string \<Rightarrow> string" where
  "word_tail [] = []"
| "word_tail (c # s) =
     (if is_word_char c \<or> (c = CHR ''-'' \<and> s \<noteq> [] \<and> is_word_char (hd s)) then c # word_tail s else [])"

definition word_token :: "string \<Rightarrow> tok" where
  "word_token w = (if w \<in> set dsl_keywords then KW w else IDENT w)"

subsection \<open>One token\<close>

definition unexpected :: "char \<Rightarrow> nat \<Rightarrow> py_exc" where
  "unexpected c pos =
     RuleCompileError (''unexpected character '' @ repr_str [c] @ '' at pos '' @ str_of_nat pos)"

text \<open>
  The token at the head of a text, if any, and how many characters it takes after the first.
\<close>

definition lex_token :: "nat \<Rightarrow> char \<Rightarrow> string \<Rightarrow> (tok option \<times> nat) result" where
  "lex_token pos c s =
     (if c \<in> {CHR '' '', tab, carriage, newline} then Inr (None, 0)
      else if c = CHR ''#'' then Inr (None, length (takeWhile (\<lambda>d. d \<noteq> newline) s))
      else if take 2 (c # s) \<in> {''=='', ''!='', ''<='', ''>=''} then Inr (Some (OP (take 2 (c # s))), 1)
      else if c \<in> set ''<>'' then Inr (Some (OP [c]), 0)
      else if c \<in> set ''(){},=.:'' then Inr (Some (PUNC [c]), 0)
      else if c = dquote \<or> c = squote then
        (case scan_string c s of
           None \<Rightarrow> Inl (RuleCompileError (''unterminated string at pos '' @ str_of_nat pos))
         | Some (out, k) \<Rightarrow> Inr (Some (STRING out), k))
      else if is_digit c \<or> (c = CHR ''-'' \<and> s \<noteq> [] \<and> is_digit (hd s)) then
        (let body = takeWhile is_numeric_char s
         in ebind (number_value (c # body)) (\<lambda>t. Inr (Some t, length body)))
      else if is_alpha c \<or> c = CHR ''_'' then
        Inr (Some (word_token (c # word_tail s)), length (word_tail s))
      else if c = CHR ''*'' \<or> c = CHR ''?'' then Inr (Some (PUNC [c]), 0)
      else if c = CHR ''-'' \<and> s \<noteq> [] \<and> hd s = CHR ''>'' then Inr (Some (PUNC ''->''), 1)
      else Inl (unexpected c pos))"

function tokenize_from :: "nat \<Rightarrow> string \<Rightarrow> token list result" where
  "tokenize_from pos [] = Inr [(EOF, pos)]"
| "tokenize_from pos (c # s) =
     ebind (lex_token pos c s) (\<lambda>(t, k).
     ebind (tokenize_from (pos + Suc k) (drop k s)) (\<lambda>toks.
       Inr (case t of None \<Rightarrow> toks | Some t' \<Rightarrow> (t', pos) # toks)))"
  by pat_completeness auto

termination tokenize_from
  by (relation "measure (\<lambda>(pos, s). length s)") auto

definition tokenize :: "string \<Rightarrow> token list result" where
  "tokenize src = tokenize_from 0 src"

subsection \<open>Rendering\<close>

definition escape_char :: "char \<Rightarrow> string" where
  "escape_char c =
     (if c = newline then [backslash, CHR ''n''] else if c = tab then [backslash, CHR ''t'']
      else if c = carriage then [backslash, CHR ''r''] else if c = nul then [backslash, CHR ''0'']
      else if c \<in> {backslash, dquote} then [backslash, c] else [c])"

definition render_string :: "string \<Rightarrow> string" where
  "render_string s = dquote # concat (map escape_char s) @ [dquote]"

definition render_tok :: "tok \<Rightarrow> string" where
  "render_tok t =
     (case t of
        KW w \<Rightarrow> w | IDENT w \<Rightarrow> w | STRING s \<Rightarrow> render_string s | INT_LIT i \<Rightarrow> str_of_int i
      | FLOAT_LIT r \<Rightarrow> [] | OP p \<Rightarrow> p | PUNC p \<Rightarrow> p | EOF \<Rightarrow> [])"

fun render :: "tok list \<Rightarrow> string" where
  "render [] = []"
| "render (t # ts) = render_tok t @ '' '' @ render ts"

definition is_word :: "string \<Rightarrow> bool" where
  "is_word w \<longleftrightarrow>
     (case w of [] \<Rightarrow> False | c # s \<Rightarrow> (is_alpha c \<or> c = CHR ''_'') \<and> list_all is_word_char s)"

definition operators :: "string list" where
  "operators = [''=='', ''!='', ''<='', ''>='', ''<'', ''>'']"

definition punctuation :: "string list" where
  "punctuation = [''('', '')'', ''{'', ''}'', '','', ''='', ''.'', '':'', ''*'', ''?'', ''->'']"

text \<open>The tokens a text can spell; points of a number are left out.\<close>

definition lexical :: "tok \<Rightarrow> bool" where
  "lexical t =
     (case t of
        KW w \<Rightarrow> w \<in> set dsl_keywords | IDENT w \<Rightarrow> is_word w \<and> w \<notin> set dsl_keywords
      | STRING s \<Rightarrow> True | INT_LIT i \<Rightarrow> True | FLOAT_LIT r \<Rightarrow> False
      | OP p \<Rightarrow> p \<in> set operators | PUNC p \<Rightarrow> p \<in> set punctuation | EOF \<Rightarrow> False)"

subsection \<open>Reading back\<close>

lemma special_chars [simp]:
  "newline \<noteq> backslash" "tab \<noteq> backslash" "carriage \<noteq> backslash" "nul \<noteq> backslash" "dquote \<noteq> backslash"
  "newline \<noteq> dquote" "tab \<noteq> dquote" "carriage \<noteq> dquote" "nul \<noteq> dquote" "backslash \<noteq> dquote"
  by (simp_all add: newline_def tab_def carriage_def nul_def backslash_def dquote_def)

lemma unescape_simps [simp]:
  "unescape CHR ''n'' = [newline]" "unescape CHR ''t'' = [tab]" "unescape CHR ''r'' = [carriage]"
  "unescape CHR ''0'' = [nul]" "unescape backslash = [backslash]" "unescape dquote = [dquote]"
  by (simp_all add: unescape_def backslash_def dquote_def squote_def)

lemma scan_escaped:
  "scan_string dquote (escape_char c @ s) =
     map_option (\<lambda>(out, k). (c # out, k + length (escape_char c))) (scan_string dquote s)"
  by (simp add: escape_char_def split del: if_split)
    (simp add: numeral_2_eq_2 split: if_splits)

lemma scan_rendered:
  "scan_string dquote (concat (map escape_char s) @ dquote # rest) =
     Some (s, Suc (length (concat (map escape_char s))))"
  by (induction s) (simp_all add: scan_escaped)

lemma word_start:
  assumes "is_alpha c \<or> c = CHR ''_''"
  shows "c \<notin> {CHR '' '', tab, carriage, newline}" "c \<noteq> CHR ''#''" "c \<notin> set ''<>''" "c \<notin> set ''(){},=.:''"
    "c \<noteq> dquote" "c \<noteq> squote" "\<not> is_digit c" "c \<noteq> CHR ''-''" "c \<noteq> CHR ''!''"
  using assms
  by (auto simp: is_alpha_def is_digit_def ord_def tab_def carriage_def newline_def dquote_def squote_def)

lemma digit_start:
  assumes "is_digit c"
  shows "c \<notin> {CHR '' '', tab, carriage, newline}" "c \<noteq> CHR ''#''" "c \<notin> set ''<>''" "c \<notin> set ''(){},=.:''"
    "c \<noteq> dquote" "c \<noteq> squote" "c \<noteq> CHR ''-''" "c \<noteq> CHR ''!''"
  using assms
  by (auto simp: is_digit_def ord_def tab_def carriage_def newline_def dquote_def squote_def)

lemma word_tail_space: "list_all is_word_char s \<Longrightarrow> word_tail (s @ CHR '' '' # rest) = s"
  by (induction s) (auto simp: is_word_char_def is_alnum_def is_alpha_def is_digit_def ord_def)

lemma keyword_is_word: "w \<in> set dsl_keywords \<Longrightarrow> is_word w"
  by (auto simp: dsl_keywords_def is_word_def is_word_char_def is_alnum_def is_alpha_def is_digit_def ord_def)

lemma lex_word:
  assumes "is_word (c # s)"
  shows "lex_token pos c (s @ CHR '' '' # rest) = Inr (Some (word_token (c # s)), length s)"
  using assms word_start [of c] word_tail_space [of s rest]
  by (auto simp: lex_token_def is_word_def)

lemma digits_of_shape: "digits_of n \<noteq> [] \<and> list_all is_digit (digits_of n)"
proof (induction n rule: digits_of.induct)
  case (1 n)
  have digit: "is_digit (char_of (48 + k))" if "k < 10" for k :: nat
    using that by (simp add: is_digit_def ord_def)
  show ?case
    using 1 digit by (cases "n < 10") (simp_all add: digits_of.simps [of n])
qed

lemma takeWhile_all: "list_all P s \<Longrightarrow> takeWhile P s = s" "list_all P s \<Longrightarrow> dropWhile P s = []"
  by (induction s) auto

lemma unsigned_digits: "unsigned_number (digits_of n) = Inr (INT_LIT (int n))"
  using digits_of_shape [of n]
  by (simp add: unsigned_number_def Let_def takeWhile_all nat_of_digits_of)

lemma takeWhile_numeric:
  "list_all is_digit s \<Longrightarrow> takeWhile is_numeric_char (s @ CHR '' '' # rest) = s"
  by (induction s) (auto simp: is_numeric_char_def is_digit_def ord_def)

lemma number_digits: "number_value (digits_of n) = Inr (INT_LIT (int n))"
proof -
  obtain c s where "digits_of n = c # s" using digits_of_shape by (meson list.exhaust)
  moreover have "c \<noteq> CHR ''-''"
    using digits_of_shape [of n] calculation digit_start(7) by auto
  ultimately show ?thesis using unsigned_digits [of n] by (simp add: number_value_def)
qed

lemma lex_int:
  "\<exists>c s. str_of_int i = c # s \<and> lex_token pos c (s @ CHR '' '' # rest) = Inr (Some (INT_LIT i), length s)"
proof (cases "i < 0")
  case True
  obtain d s where ds: "digits_of (nat (- i)) = d # s" using digits_of_shape by (meson list.exhaust)
  then have digits: "list_all is_digit (d # s)" using digits_of_shape by metis
  have "number_value (CHR ''-'' # digits_of (nat (- i))) = Inr (INT_LIT i)"
    using True by (simp add: number_value_def unsigned_digits negate_tok_def)
  moreover have "takeWhile is_numeric_char (d # s @ CHR '' '' # rest) = d # s"
    using takeWhile_numeric [OF digits, of rest] by simp
  ultimately have "lex_token pos CHR ''-'' (d # s @ CHR '' '' # rest) = Inr (Some (INT_LIT i), Suc (length s))"
    using digits unfolding ds
    by (simp add: lex_token_def Let_def tab_def carriage_def newline_def dquote_def squote_def)
  then show ?thesis using True ds by (auto simp: str_of_int_def)
next
  case False
  obtain d s where ds: "digits_of (nat i) = d # s" using digits_of_shape by (meson list.exhaust)
  then have digits: "is_digit d" "list_all is_digit s" using digits_of_shape [of "nat i"] by auto
  have "number_value (d # s) = Inr (INT_LIT i)" using number_digits [of "nat i"] False ds by simp
  then have "lex_token pos d (s @ CHR '' '' # rest) = Inr (Some (INT_LIT i), length s)"
    using digits(1) digit_start [OF digits(1)] takeWhile_numeric [OF digits(2), of rest]
    by (simp add: lex_token_def Let_def)
  then show ?thesis using False ds by (auto simp: str_of_int_def)
qed

lemmas lex_classes = lex_token_def is_digit_def is_alpha_def ord_def tab_def carriage_def
  newline_def dquote_def squote_def

lemma lex_op:
  "\<forall>p \<in> set operators. lex_token pos (hd p) (tl p @ CHR '' '' # rest) = Inr (Some (OP p), length (tl p))"
  by (simp add: operators_def lex_classes)

lemma lex_punc:
  "\<forall>p \<in> set punctuation. lex_token pos (hd p) (tl p @ CHR '' '' # rest) = Inr (Some (PUNC p), length (tl p))"
  by (simp add: punctuation_def lex_classes)

lemma fixed_not_Nil: "\<forall>p \<in> set operators \<union> set punctuation. p \<noteq> []"
  by (simp add: operators_def punctuation_def)

lemma lex_fixed:
  assumes "t \<in> OP ` set operators \<union> PUNC ` set punctuation"
  shows "\<exists>c s. render_tok t = c # s \<and> lex_token pos c (s @ CHR '' '' # rest) = Inr (Some t, length s)"
proof -
  obtain p where p: "p \<in> set operators \<and> t = OP p \<or> p \<in> set punctuation \<and> t = PUNC p"
    using assms by auto
  then obtain c s where "p = c # s" using fixed_not_Nil by (cases p) auto
  with p show ?thesis
    using bspec [OF lex_op, of p pos rest] bspec [OF lex_punc, of p pos rest]
    by (auto simp: render_tok_def)
qed

lemma lex_string:
  "lex_token pos dquote ((concat (map escape_char s) @ [dquote]) @ CHR '' '' # rest) =
     Inr (Some (STRING s), length (concat (map escape_char s) @ [dquote]))"
  using scan_rendered [of s "CHR '' '' # rest"]
  by (simp add: lex_token_def tab_def carriage_def newline_def dquote_def)

lemma lex_rendered:
  assumes "lexical t"
  shows "\<exists>c s. render_tok t = c # s \<and> lex_token pos c (s @ CHR '' '' # rest) = Inr (Some t, length s)"
proof (cases t)
  case (KW w)
  with assms have w: "is_word w" "w \<in> set dsl_keywords" by (simp_all add: lexical_def keyword_is_word)
  then obtain c s where "w = c # s" by (cases w) (auto simp: is_word_def)
  with w KW lex_word [of c s pos rest] show ?thesis by (simp add: render_tok_def word_token_def)
next
  case (IDENT w)
  with assms have w: "is_word w" "w \<notin> set dsl_keywords" by (simp_all add: lexical_def)
  then obtain c s where "w = c # s" by (cases w) (auto simp: is_word_def)
  with w IDENT lex_word [of c s pos rest] show ?thesis by (simp add: render_tok_def word_token_def)
next
  case (STRING s)
  with lex_string [of pos s rest] show ?thesis by (simp add: render_tok_def render_string_def)
next
  case (INT_LIT i)
  with lex_int [of i pos rest] show ?thesis by (simp add: render_tok_def)
qed (use assms lex_fixed [of t pos rest] in \<open>auto simp: lexical_def\<close>)

lemma tokenize_rendered:
  assumes "list_all lexical ts"
  shows "map_sum id (map fst) (tokenize_from pos (render ts)) = Inr (ts @ [EOF])"
  using assms
proof (induction ts arbitrary: pos)
  case Nil
  then show ?case by simp
next
  case (Cons t ts)
  then obtain c s where t: "render_tok t = c # s"
      "lex_token pos c (s @ CHR '' '' # render ts) = Inr (Some t, length s)"
    using lex_rendered [of t pos "render ts"] by auto
  let ?pos = "Suc (pos + length s)"
  have space: "tokenize_from ?pos (CHR '' '' # render ts) = tokenize_from (Suc ?pos) (render ts)"
    by (simp add: lex_token_def) (cases "tokenize_from (Suc ?pos) (render ts)"; simp)
  obtain toks where toks: "tokenize_from (Suc ?pos) (render ts) = Inr toks" "map fst toks = ts @ [EOF]"
    using Cons.IH [of "Suc ?pos"] Cons.prems
    by (cases "tokenize_from (Suc ?pos) (render ts)") simp_all
  then show ?case using t space by (simp del: tokenize_from.simps(2) add: tokenize_from.simps(2) [of pos])
qed

end
