(* ===== verification/Dsl_Parser.thy ===== *)
theory Dsl_Parser
  imports Dsl_Lexer
begin

text \<open>
  The recursive-descent parser (\<open>_Parser\<close> and \<open>parse_rule_source\<close> in \<open>policy/dsl/parser.py\<close>).
  The state is the list of tokens not yet eaten, which ends with \<open>EOF\<close>.  The first argument of the recursive operations bounds calls
  and loop rounds; running out is a \<open>RecursionError\<close>, which the lemmas exclude for the bound
  the entry point passes.
\<close>

type_synonym 'a parser = "token list \<Rightarrow> ('a \<times> token list) result"

subsection \<open>Token access\<close>

definition peek :: "token list \<Rightarrow> tok" where
  "peek toks = (case toks of [] \<Rightarrow> EOF | t # _ \<Rightarrow> fst t)"

definition peek_at :: "nat \<Rightarrow> token list \<Rightarrow> tok" where
  "peek_at n toks = peek (drop n toks)"

text \<open>A token in an error message: its kind, its value, and where it starts.\<close>

fun decimals :: "nat \<Rightarrow> rat \<Rightarrow> string" where
  "decimals 0 r = []"
| "decimals (Suc n) r =
     (let d = floor (r * 10); rest = r * 10 - of_int d
      in str_of_int d @ (if rest = 0 then [] else decimals n rest))"

definition decimal_text :: "rat \<Rightarrow> string" where
  "decimal_text r =
     (let a = abs r; whole = floor a
      in (if r < 0 then ''-'' else []) @ str_of_int whole @ ''.'' @ decimals 17 (a - of_int whole))"

definition tok_kind :: "tok \<Rightarrow> string" where
  "tok_kind t =
     (case t of KW w \<Rightarrow> ''KW'' | IDENT w \<Rightarrow> ''IDENT'' | STRING s \<Rightarrow> ''STRING'' | INT_LIT i \<Rightarrow> ''NUMBER''
      | FLOAT_LIT r \<Rightarrow> ''NUMBER'' | OP p \<Rightarrow> ''OP'' | PUNC p \<Rightarrow> ''PUNC'' | EOF \<Rightarrow> ''EOF'')"

definition tok_value :: "tok \<Rightarrow> string" where
  "tok_value t =
     (case t of KW w \<Rightarrow> w | IDENT w \<Rightarrow> w | STRING s \<Rightarrow> s | INT_LIT i \<Rightarrow> str_of_int i
      | FLOAT_LIT r \<Rightarrow> decimal_text r | OP p \<Rightarrow> p | PUNC p \<Rightarrow> p | EOF \<Rightarrow> ''None'')"

definition got :: "token list \<Rightarrow> string" where
  "got toks = tok_kind (peek toks) @ ''/'' @ tok_value (peek toks)"

definition at_pos :: "token list \<Rightarrow> string" where
  "at_pos toks = (case toks of [] \<Rightarrow> [] | t # _ \<Rightarrow> str_of_nat (snd t))"

definition wanted :: "string \<Rightarrow> token list \<Rightarrow> py_exc" where
  "wanted what toks =
     RuleCompileError (''expected '' @ what @ '', got '' @ got toks @ '' at '' @ at_pos toks)"

definition expected :: "string \<Rightarrow> token list \<Rightarrow> py_exc" where
  "expected what toks = RuleCompileError (''expected '' @ what @ '' at pos '' @ at_pos toks)"

definition expected_not :: "string \<Rightarrow> token list \<Rightarrow> py_exc" where
  "expected_not what toks =
     RuleCompileError (''expected '' @ what @ '' at pos '' @ at_pos toks @ '', got '' @ got toks)"

definition eat :: "tok \<Rightarrow> unit parser" where
  "eat t toks =
     (if peek toks = t then Inr ((), tl toks)
      else Inl (wanted (tok_kind t @ (if tok_value t = [] then [] else ''/'' @ tok_value t)) toks))"

definition eat_ident :: "string parser" where
  "eat_ident toks =
     (case peek toks of IDENT w \<Rightarrow> Inr (w, tl toks) | _ \<Rightarrow> Inl (wanted ''IDENT'' toks))"

definition eat_string :: "string parser" where
  "eat_string toks =
     (case peek toks of STRING s \<Rightarrow> Inr (s, tl toks) | _ \<Rightarrow> Inl (wanted ''STRING'' toks))"

subsection \<open>Sets and dotted names\<close>

definition str_item :: "string parser" where
  "str_item toks =
     (case peek toks of
        STRING s \<Rightarrow> Inr (s, tl toks) | IDENT w \<Rightarrow> Inr (w, tl toks)
      | _ \<Rightarrow> Inl (expected ''string inside set'' toks))"

fun more_items :: "nat \<Rightarrow> string list \<Rightarrow> string list parser" where
  "more_items 0 items toks = Inl RecursionError"
| "more_items (Suc n) items toks =
     (if peek toks = PUNC '',''
      then ebind (str_item (tl toks)) (\<lambda>(s, r). more_items n (items @ [s]) r)
      else Inr (items, toks))"

definition parse_set_lit :: "nat \<Rightarrow> string list parser" where
  "parse_set_lit n toks =
     ebind (eat (PUNC ''{'') toks) (\<lambda>(_, r).
     if peek r = PUNC ''}'' then Inr ([], tl r)
     else ebind (str_item r) (\<lambda>(s, r1).
          ebind (more_items n [s] r1) (\<lambda>(items, r2).
          ebind (eat (PUNC ''}'') r2) (\<lambda>(_, r3). Inr (items, r3)))))"

text \<open>The dotted tail of a path; a star after a point ends it.\<close>

fun more_parts :: "nat \<Rightarrow> string list \<Rightarrow> string list parser" where
  "more_parts 0 parts toks = Inl RecursionError"
| "more_parts (Suc n) parts toks =
     (if peek toks = PUNC ''.'' then
        (if peek (tl toks) = PUNC ''*'' then Inr (parts, tl toks)
         else ebind (eat_ident (tl toks)) (\<lambda>(w, r). more_parts n (parts @ [w]) r))
      else Inr (parts, toks))"

subsection \<open>Values\<close>

definition kwarg_key :: "token list \<Rightarrow> string option" where
  "kwarg_key toks =
     (case peek toks of
        IDENT w \<Rightarrow> if peek_at 1 toks = PUNC ''='' then Some w else None
      | _ \<Rightarrow> None)"

definition mk_call :: "string list \<Rightarrow> dsl_value list \<Rightarrow> (string \<times> dsl_value) list \<Rightarrow> dsl_value" where
  "mk_call parts args kwargs =
     AFunc (FuncCall (last parts) args kwargs (str_join ''.'' (butlast parts)))"

fun parse_value :: "nat \<Rightarrow> dsl_value parser"
and parse_path_or_func :: "nat \<Rightarrow> dsl_value parser"
and call_args :: "nat \<Rightarrow> dsl_value list \<Rightarrow> (string \<times> dsl_value) list \<Rightarrow>
  (dsl_value list \<times> (string \<times> dsl_value) list) parser" where
  "parse_value 0 toks = Inl RecursionError"
| "parse_value (Suc n) toks =
     (case peek toks of
        STRING s \<Rightarrow> Inr (AStr s, tl toks)
      | INT_LIT i \<Rightarrow> Inr (AInt i, tl toks)
      | FLOAT_LIT r \<Rightarrow> Inr (AFloat r, tl toks)
      | KW w \<Rightarrow>
          if w = ''true'' \<or> w = ''TRUE'' then Inr (ABool True, tl toks)
          else if w = ''false'' \<or> w = ''FALSE'' then Inr (ABool False, tl toks)
          else Inl (expected_not ''value'' toks)
      | PUNC p \<Rightarrow>
          if p = ''{'' then ebind (parse_set_lit n toks) (\<lambda>(items, r). Inr (ASet items, r))
          else Inl (expected_not ''value'' toks)
      | IDENT w \<Rightarrow> parse_path_or_func n toks
      | _ \<Rightarrow> Inl (expected_not ''value'' toks))"
| "parse_path_or_func 0 toks = Inl RecursionError"
| "parse_path_or_func (Suc n) toks =
     ebind (eat_ident toks) (\<lambda>(w, r).
     ebind (more_parts n [w] r) (\<lambda>(parts, r1).
     if peek r1 = PUNC ''('' then
       (if peek (tl r1) = PUNC '')'' then Inr (mk_call parts [] [], tl (tl r1))
        else ebind (call_args n [] [] (tl r1)) (\<lambda>((args, kwargs), r2).
             ebind (eat (PUNC '')'') r2) (\<lambda>(_, r3). Inr (mk_call parts args kwargs, r3))))
     else Inr (APath parts, r1)))"
| "call_args 0 args kwargs toks = Inl RecursionError"
| "call_args (Suc n) args kwargs toks =
     (case kwarg_key toks of
        Some key \<Rightarrow>
          ebind (parse_value n (tl (tl toks))) (\<lambda>(v, r).
          if peek r = PUNC '','' then call_args n args (dict_set key v kwargs) (tl r)
          else Inr ((args, dict_set key v kwargs), r))
      | None \<Rightarrow>
          ebind (parse_value n toks) (\<lambda>(v, r).
          if peek r = PUNC '','' then call_args n (args @ [v]) kwargs (tl r)
          else Inr ((args @ [v], kwargs), r)))"

subsection \<open>Conditions\<close>

text \<open>The keyword arguments of a graph query; unknown keys and a hop bound that is no integer are dropped.\<close>

record path_node =
  pn_labels :: "string list"
  pn_max_hops :: int
  pn_sink :: string
  pn_over :: string

definition set_path_arg :: "externals \<Rightarrow> string \<Rightarrow> dsl_value \<Rightarrow> path_node \<Rightarrow> path_node" where
  "set_path_arg E key v node =
     (case v of
        AInt i \<Rightarrow> if key = ''max_hops'' then node\<lparr>pn_max_hops := i\<rparr>
          else if key = ''sink'' then node\<lparr>pn_sink := ast_str E v\<rparr>
          else if key = ''over'' then node\<lparr>pn_over := ast_str E v\<rparr> else node
      | ABool b \<Rightarrow> if key = ''max_hops'' then node\<lparr>pn_max_hops := (if b then 1 else 0)\<rparr>
          else if key = ''sink'' then node\<lparr>pn_sink := ast_str E v\<rparr>
          else if key = ''over'' then node\<lparr>pn_over := ast_str E v\<rparr> else node
      | _ \<Rightarrow> if key = ''sink'' then node\<lparr>pn_sink := ast_str E v\<rparr>
          else if key = ''over'' then node\<lparr>pn_over := ast_str E v\<rparr> else node)"

definition path_key :: "string parser" where
  "path_key toks =
     ebind (eat_ident toks) (\<lambda>(w, r).
     if peek r = PUNC ''.'' then ebind (eat_ident (tl r)) (\<lambda>(v, r1). Inr (w @ ''.'' @ v, r1))
     else Inr (w, r))"

fun path_args :: "externals \<Rightarrow> nat \<Rightarrow> path_node \<Rightarrow> path_node parser" where
  "path_args E 0 node toks = Inl RecursionError"
| "path_args E (Suc n) node toks =
     ebind (path_key toks) (\<lambda>(key, r).
     ebind (if key = ''source_label'' \<or> key = ''source.label''
            then ebind (eat (KW ''IN'') r) (\<lambda>(_, r1).
                 ebind (parse_set_lit n r1) (\<lambda>(items, r2). Inr (node\<lparr>pn_labels := items\<rparr>, r2)))
            else ebind (eat (PUNC ''='') r) (\<lambda>(_, r1).
                 ebind (parse_value n r1) (\<lambda>(v, r2). Inr (set_path_arg E key v node, r2))))
       (\<lambda>(node', r3). if peek r3 = PUNC '','' then path_args E n node' (tl r3) else Inr (node', r3)))"

definition parse_exists_path :: "externals \<Rightarrow> nat \<Rightarrow> dsl_expr parser" where
  "parse_exists_path E n toks =
     ebind (eat (PUNC ''('') toks) (\<lambda>(_, r).
     ebind (path_args E n \<lparr>pn_labels = [], pn_max_hops = 6, pn_sink = ''current_call'',
         pn_over = ''execution_graph''\<rparr> r) (\<lambda>(node, r1).
     ebind (eat (PUNC '')'') r1) (\<lambda>(_, r2).
       Inr (ExistsPath (pn_labels node) (pn_max_hops node) (pn_sink node) (pn_over node), r2))))"

definition parse_bare_or_compare :: "nat \<Rightarrow> dsl_expr parser" where
  "parse_bare_or_compare n toks =
     ebind (parse_path_or_func n toks) (\<lambda>(left, r).
     let compare = (\<lambda>op r1. ebind (parse_value n r1) (\<lambda>(v, r2). Inr (Compare left op v, r2)));
         bare = (case left of AFunc f \<Rightarrow> Inr (BareFunc f, r)
                 | APath parts \<Rightarrow> Inl (expected_not (''operator or IN after path '' @ path_str parts) r)
                 | _ \<Rightarrow> Inl AssertionError)
     in case peek r of
          KW w \<Rightarrow>
            if w = ''IN'' then compare ''IN'' (tl r)
            else if w = ''NOT'' then ebind (eat (KW ''IN'') (tl r)) (\<lambda>(_, r1). compare ''NOT_IN'' r1)
            else if w = ''MATCHES'' then compare ''MATCHES'' (tl r)
            else if w = ''CONTAINS'' then compare ''CONTAINS'' (tl r)
            else bare
        | OP p \<Rightarrow> compare p (tl r)
        | _ \<Rightarrow> bare)"

function (sequential) parse_or :: "externals \<Rightarrow> nat \<Rightarrow> dsl_expr parser"
and more_or :: "externals \<Rightarrow> nat \<Rightarrow> dsl_expr \<Rightarrow> dsl_expr parser"
and parse_and :: "externals \<Rightarrow> nat \<Rightarrow> dsl_expr parser"
and more_and :: "externals \<Rightarrow> nat \<Rightarrow> dsl_expr \<Rightarrow> dsl_expr parser"
and parse_not :: "externals \<Rightarrow> nat \<Rightarrow> dsl_expr parser"
and parse_atom :: "externals \<Rightarrow> nat \<Rightarrow> dsl_expr parser" where
  "parse_or E 0 toks = Inl RecursionError"
| "parse_or E (Suc n) toks = ebind (parse_and E n toks) (\<lambda>(l, r). more_or E n l r)"
| "more_or E 0 l toks = Inl RecursionError"
| "more_or E (Suc n) l toks =
     (if peek toks = KW ''OR''
      then ebind (parse_and E n (tl toks)) (\<lambda>(e, r). more_or E n (BoolOp ''OR'' l e) r)
      else Inr (l, toks))"
| "parse_and E 0 toks = Inl RecursionError"
| "parse_and E (Suc n) toks = ebind (parse_not E n toks) (\<lambda>(l, r). more_and E n l r)"
| "more_and E 0 l toks = Inl RecursionError"
| "more_and E (Suc n) l toks =
     (if peek toks = KW ''AND''
      then ebind (parse_not E n (tl toks)) (\<lambda>(e, r). more_and E n (BoolOp ''AND'' l e) r)
      else Inr (l, toks))"
| "parse_not E 0 toks = Inl RecursionError"
| "parse_not E (Suc n) toks =
     (if peek toks = KW ''NOT''
      then ebind (parse_not E n (tl toks)) (\<lambda>(e, r). Inr (NotOp e, r))
      else parse_atom E n toks)"
| "parse_atom E 0 toks = Inl RecursionError"
| "parse_atom E (Suc n) toks =
     (if peek toks = PUNC ''(''
      then ebind (parse_or E n (tl toks)) (\<lambda>(e, r).
           ebind (eat (PUNC '')'') r) (\<lambda>(_, r1). Inr (e, r1)))
      else if peek toks = KW ''EXISTS_PATH'' then parse_exists_path E n (tl toks)
      else if peek toks = IDENT ''exists_path'' \<and> peek_at 1 toks = PUNC ''(''
        then parse_exists_path E n (tl toks)
      else parse_bare_or_compare n toks)"
  by pat_completeness simp_all

termination
  by (relation "measure (case_sum
      (case_sum (\<lambda>(E, n, toks). n) (case_sum (\<lambda>(E, n, l, toks). n) (\<lambda>(E, n, toks). n)))
      (case_sum (\<lambda>(E, n, l, toks). n) (case_sum (\<lambda>(E, n, toks). n) (\<lambda>(E, n, toks). n))))")
    simp_all

subsection \<open>Rules\<close>

definition key_of :: "tok \<Rightarrow> string option" where
  "key_of t = (case t of KW w \<Rightarrow> Some w | IDENT w \<Rightarrow> Some w | _ \<Rightarrow> None)"

text \<open>\<open>KEYWORD:\<close>, as a keyword or as an identifier in any case.\<close>

definition accept_key :: "string \<Rightarrow> token list \<Rightarrow> token list option" where
  "accept_key keyword toks =
     (if peek_at 1 toks = PUNC '':'' \<and>
         (case peek toks of KW w \<Rightarrow> w = keyword | IDENT w \<Rightarrow> str_upper w = keyword | _ \<Rightarrow> False)
      then Some (tl (tl toks)) else None)"

definition require_key :: "string \<Rightarrow> unit parser" where
  "require_key keyword toks =
     (case accept_key keyword toks of
        Some r \<Rightarrow> Inr ((), r)
      | None \<Rightarrow> Inl (RuleCompileError (''expected '' @ squote # keyword @ '':'' @ squote # '' in v3 rule, got '' @
          got toks @ '' at pos '' @ at_pos toks)))"

fun tool_pattern_parts :: "nat \<Rightarrow> string list \<Rightarrow> string list parser" where
  "tool_pattern_parts 0 parts toks = Inl RecursionError"
| "tool_pattern_parts (Suc n) parts toks =
     (if peek toks = PUNC ''.'' then
        (if peek (tl toks) = PUNC ''*'' then Inr (parts @ [''*''], tl (tl toks))
         else ebind (eat_ident (tl toks)) (\<lambda>(w, r). tool_pattern_parts n (parts @ [w]) r))
      else Inr (parts, toks))"

definition parse_tool_pattern :: "nat \<Rightarrow> string parser" where
  "parse_tool_pattern n toks =
     (if peek toks = PUNC ''*'' then Inr (''*'', tl toks)
      else ebind (eat_ident toks) (\<lambda>(w, r).
           ebind (tool_pattern_parts n [w] r) (\<lambda>(parts, r1). Inr (str_join ''.'' parts, r1))))"

definition parse_event_match :: "nat \<Rightarrow> (string \<times> string) parser" where
  "parse_event_match n toks =
     ebind (eat_ident toks) (\<lambda>(w, r).
     if w \<noteq> ''tool_call''
     then Inl (RuleCompileError (''expected '' @ squote # ''tool_call'' @ squote # '' at pos '' @ at_pos toks @
       '', got '' @ repr_str w))
     else if peek r = PUNC ''.'' then
       ebind (eat_ident (tl r)) (\<lambda>(sub, r1).
       if peek r1 = PUNC ''('' then
         ebind (parse_tool_pattern n (tl r1)) (\<lambda>(pat, r2).
         ebind (eat (PUNC '')'') r2) (\<lambda>(_, r3). Inr ((pat, sub), r3)))
       else Inr ((''*'', sub), r1))
     else
       ebind (eat (PUNC ''('') r) (\<lambda>(_, r1).
       ebind (parse_tool_pattern n r1) (\<lambda>(pat, r2).
       ebind (eat (PUNC '')'') r2) (\<lambda>(_, r3). Inr ((pat, []), r3)))))"

text \<open>The gap between two arrows of a trace, or the empty string.\<close>

definition consume_gap :: "token list \<Rightarrow> string \<times> token list" where
  "consume_gap toks =
     (if peek toks = PUNC ''.'' \<and> peek_at 1 toks = PUNC ''.'' \<and> peek_at 2 toks = PUNC ''.'' then
        (if peek_at 3 toks = PUNC ''?'' then (''...?'', drop 4 toks) else (''...'', drop 3 toks))
      else if peek toks = PUNC ''*'' then (''*'', tl toks)
      else ([], toks))"

fun trace_steps :: "nat \<Rightarrow> string \<Rightarrow> trace_clause \<Rightarrow> trace_clause parser" where
  "trace_steps 0 sep steps toks = Inl RecursionError"
| "trace_steps (Suc n) sep steps toks =
     (if key_of (peek toks) = None then Inr (steps, toks)
      else ebind (eat_ident toks) (\<lambda>(name, r).
        let steps' = steps @ [(name, sep)]
        in if peek r \<noteq> PUNC ''->'' then Inr (steps', r)
           else (let (gap, r1) = consume_gap (tl r)
                 in if gap = [] then trace_steps n ''->'' steps' r1
                    else if peek r1 = PUNC ''->'' then trace_steps n (''-> '' @ gap) steps' (tl r1)
                    else Inl (RuleCompileError (''expected '' @ squote # ''->'' @ squote # '' after '' @
                      squote # gap @ squote # '' in TRACE clause'')))))"

definition parse_trace_clause :: "nat \<Rightarrow> trace_clause parser" where
  "parse_trace_clause n toks =
     ebind (trace_steps n [] [] toks) (\<lambda>(steps, r).
     if steps = [] then Inl (RuleCompileError ''TRACE clause must have at least one placeholder step'') else Inr (steps, r))"

definition meta_value :: "dsl_value \<Rightarrow> dsl_value" where
  "meta_value v = (case v of APath [w] \<Rightarrow> AStr w | _ \<Rightarrow> v)"

fun parse_meta :: "nat \<Rightarrow> (string \<times> dsl_value) list \<Rightarrow> (string \<times> dsl_value) list parser" where
  "parse_meta 0 meta toks = Inl RecursionError"
| "parse_meta (Suc n) meta toks =
     (case key_of (peek toks) of
        None \<Rightarrow> Inr (meta, toks)
      | Some key \<Rightarrow>
          if peek toks = KW ''RULE'' \<or> peek_at 1 toks \<noteq> PUNC '':'' then Inr (meta, toks)
          else ebind (parse_value n (tl (tl toks))) (\<lambda>(v, r).
               parse_meta n (dict_set (str_lower key) (meta_value v) meta)
                 (if peek r = PUNC '','' then tl r else r)))"

subsection \<open>Actions\<close>

definition parse_kv :: "nat \<Rightarrow> (string \<times> dsl_value) list \<Rightarrow> (string \<times> dsl_value) list parser" where
  "parse_kv n kwargs toks =
     ebind (eat_ident toks) (\<lambda>(key, r).
     ebind (eat (PUNC ''='') r) (\<lambda>(_, r1).
     ebind (parse_value n r1) (\<lambda>(v, r2). Inr (dict_set key v kwargs, r2))))"

fun more_kvs :: "nat \<Rightarrow> (string \<times> dsl_value) list \<Rightarrow> (string \<times> dsl_value) list parser" where
  "more_kvs 0 kwargs toks = Inl RecursionError"
| "more_kvs (Suc n) kwargs toks =
     (if peek toks = PUNC '',''
      then ebind (parse_kv n kwargs (tl toks)) (\<lambda>(kw, r). more_kvs n kw r)
      else Inr (kwargs, toks))"

definition parse_one_obligation :: "nat \<Rightarrow> obligation_ast parser" where
  "parse_one_obligation n toks =
     ebind (eat_ident toks) (\<lambda>(kind, r).
     ebind (eat (PUNC ''('') r) (\<lambda>(_, r1).
     if peek r1 = PUNC '')'' then Inr (\<lparr>oa_kind = str_upper kind, oa_args = []\<rparr>, tl r1)
     else ebind (parse_kv n [] r1) (\<lambda>(kw, r2).
          ebind (more_kvs n kw r2) (\<lambda>(kw', r3).
          ebind (eat (PUNC '')'') r3) (\<lambda>(_, r4).
            Inr (\<lparr>oa_kind = str_upper kind, oa_args = kw'\<rparr>, r4))))))"

fun more_obligations :: "nat \<Rightarrow> obligation_ast list \<Rightarrow> obligation_ast list parser" where
  "more_obligations 0 obs toks = Inl RecursionError"
| "more_obligations (Suc n) obs toks =
     (if peek toks = PUNC '',''
      then ebind (parse_one_obligation n (tl toks)) (\<lambda>(ob, r). more_obligations n (obs @ [ob]) r)
      else Inr (obs, toks))"

definition parse_obligations :: "nat \<Rightarrow> obligation_ast list parser" where
  "parse_obligations n toks =
     ebind (parse_one_obligation n toks) (\<lambda>(ob, r). more_obligations n [ob] r)"

text \<open>An obligation follows \<open>WITH\<close> when an identifier and a parenthesis do.\<close>

definition looks_like_obligations :: "token list \<Rightarrow> bool" where
  "looks_like_obligations toks \<longleftrightarrow>
     (case peek_at 1 toks of IDENT w \<Rightarrow> peek_at 2 toks = PUNC ''('' | _ \<Rightarrow> False)"

definition with_obligations :: "nat \<Rightarrow> action_ast \<Rightarrow> action_ast parser" where
  "with_obligations n act toks =
     (if peek toks = KW ''WITH'' \<and> looks_like_obligations toks
      then ebind (parse_obligations n (tl toks)) (\<lambda>(obs, r). Inr (act\<lparr>aa_obligations := obs\<rparr>, r))
      else Inr (act, toks))"

fun plain_parts :: "nat \<Rightarrow> string list \<Rightarrow> string list parser" where
  "plain_parts 0 parts toks = Inl RecursionError"
| "plain_parts (Suc n) parts toks =
     (if peek toks = PUNC ''.''
      then ebind (eat_ident (tl toks)) (\<lambda>(w, r). plain_parts n (parts @ [w]) r)
      else Inr (parts, toks))"

definition parse_profile :: "nat \<Rightarrow> string parser" where
  "parse_profile n toks =
     (if peek toks = KW ''TO'' then eat_string (tl toks)
      else ebind (eat (PUNC ''('') toks) (\<lambda>(_, r).
           ebind (eat_ident r) (\<lambda>(w, r1).
           ebind (plain_parts n [w] r1) (\<lambda>(parts, r2).
           ebind (eat (PUNC '')'') r2) (\<lambda>(_, r3). Inr (str_join ''.'' parts, r3))))))"

definition action_kinds :: "string list" where
  "action_kinds = [''DENY'', ''ALLOW'', ''HUMAN_CHECK'', ''LLM_CHECK'', ''DEGRADE'']"

definition action_keyword :: "tok \<Rightarrow> string option" where
  "action_keyword t =
     (case t of
        IDENT w \<Rightarrow> if str_upper w \<in> set action_kinds then Some (str_upper w) else None
      | KW w \<Rightarrow> Some w | _ \<Rightarrow> None)"

definition parse_action :: "nat \<Rightarrow> action_ast parser" where
  "parse_action n toks =
     (case action_keyword (peek toks) of
        None \<Rightarrow> Inl (expected ''action keyword'' toks)
      | Some w \<Rightarrow>
          ebind (if w = ''DEGRADE''
                 then ebind (parse_profile n (tl toks)) (\<lambda>(profile, r).
                      Inr (\<lparr>aa_kind = w, aa_profile = Some profile, aa_obligations = []\<rparr>, r))
                 else if w \<in> set action_kinds
                   then Inr (\<lparr>aa_kind = w, aa_profile = None, aa_obligations = []\<rparr>, tl toks)
                 else Inl (RuleCompileError (''unknown action '' @ repr_str w @ '' at pos '' @ at_pos toks)))
            (\<lambda>(act, r). with_obligations n act r))"

subsection \<open>Sources\<close>

definition optional_key :: "string \<Rightarrow> 'a \<Rightarrow> 'a parser \<Rightarrow> 'a parser" where
  "optional_key keyword dflt p toks =
     (case accept_key keyword toks of Some r \<Rightarrow> p r | None \<Rightarrow> Inr (dflt, toks))"

definition parse_rule :: "externals \<Rightarrow> nat \<Rightarrow> rule_ast parser" where
  "parse_rule E n toks =
     ebind (eat (KW ''RULE'') toks) (\<lambda>(_, r0).
     ebind (eat (PUNC '':'') r0) (\<lambda>(_, r1).
     ebind (eat_ident r1) (\<lambda>(name, r2).
     ebind (optional_key ''ON'' (''*'', []) (parse_event_match n) r2) (\<lambda>((pattern, subtype), r3).
     ebind (optional_key ''TRACE'' None
         (\<lambda>r. ebind (parse_trace_clause n r) (\<lambda>(c, q). Inr (Some c, q))) r3) (\<lambda>(trace, r4).
     ebind (optional_key ''CONDITION'' TrueExpr (parse_or E n) r4) (\<lambda>(expr, r5).
     ebind (require_key ''POLICY'' r5) (\<lambda>(_, r6).
     ebind (parse_action n r6) (\<lambda>(act, r7).
     ebind (parse_meta n [] r7) (\<lambda>(meta, r8).
       Inr (\<lparr>ra_rule_id = name, ra_tool_pattern = pattern, ra_expr = expr, ra_action = act,
              ra_event_subtype = subtype, ra_source = [], ra_source_block = [], ra_meta = meta,
              ra_trace_clause = trace\<rparr>, r8))))))))))"

fun parse_rules_from :: "externals \<Rightarrow> nat \<Rightarrow> nat \<Rightarrow> token list \<Rightarrow> rule_ast list result" where
  "parse_rules_from E n 0 toks = Inl RecursionError"
| "parse_rules_from E n (Suc k) toks =
     (if peek toks = EOF then Inr []
      else ebind (parse_rule E n toks) (\<lambda>(rule, r).
           ebind (parse_rules_from E n k r) (\<lambda>rules. Inr (rule # rules))))"

definition parse_fuel :: "token list \<Rightarrow> nat" where
  "parse_fuel toks = 8 * length toks + 8"

definition parse_tokens :: "externals \<Rightarrow> token list \<Rightarrow> rule_ast list result" where
  "parse_tokens E toks = parse_rules_from E (parse_fuel toks) (Suc (length toks)) toks"

text \<open>
  The source text of each rule: the text split in front of every line that begins with
  \<open>RULE:\<close>, stripped; blocks are handed out to the parsed rules in order.
\<close>

fun split_blocks :: "bool \<Rightarrow> string \<Rightarrow> string list" where
  "split_blocks line_start [] = [[]]"
| "split_blocks line_start (c # s) =
     (let rest = split_blocks (c = newline) s; b = c # hd rest
      in if line_start \<and> starts_with (c # s) ''RULE:'' then [] # b # tl rest else b # tl rest)"

fun drop_crlf :: "string \<Rightarrow> string" where
  "drop_crlf [] = []"
| "drop_crlf (c # s) = (if c = carriage \<and> s \<noteq> [] \<and> hd s = newline then drop_crlf s else c # drop_crlf s)"

definition source_blocks :: "string \<Rightarrow> string list" where
  "source_blocks src =
     filter (\<lambda>b. starts_with b ''RULE:'') (map str_strip (split_blocks True (str_strip (drop_crlf src))))"

definition attach_sources :: "string \<Rightarrow> rule_ast list \<Rightarrow> rule_ast list" where
  "attach_sources src rules =
     (let blocks = source_blocks src
      in map (\<lambda>(i, r). r\<lparr>ra_source := src,
             ra_source_block := (if i < length blocks then blocks ! i else [])\<rparr>)
           (enumerate 0 rules))"

definition parse_rule_source :: "externals \<Rightarrow> string \<Rightarrow> rule_ast list result" where
  "parse_rule_source E src =
     ebind (tokenize src) (\<lambda>toks.
     ebind (parse_tokens E toks) (\<lambda>rules. Inr (attach_sources src rules)))"

definition parse_rules :: "externals \<Rightarrow> string list \<Rightarrow> rule_ast list result" where
  "parse_rules E sources = ebind (emap (parse_rule_source E) sources) (\<lambda>rss. Inr (concat rss))"

end
