(* ===== verification/Guard_Rules.thy ===== *)
theory Guard_Rules
  imports Registry Evaluator Dsl_Parser
begin

text \<open>
  Rule management of the guard (\<open>sdk/guard.py\<close>) with the rule loader
  (\<open>policy/rules/loaders.py\<close>, \<open>compile_rules\<close>).  The guard, the registry and the evaluator share
  one router; every operation that changes it drops the evaluator's per-agent views.
\<close>

subsection \<open>Loading\<close>

datatype rule_source = OneSource string | ManySources "string list"

text \<open>The files the loader sees: the rule files under a directory in order, and file contents.\<close>

record file_system =
  fs_dir :: "string \<Rightarrow> string list option"
  fs_file :: "string \<Rightarrow> string option"

definition strip_file_prefix :: "string \<Rightarrow> string" where
  "strip_file_prefix s = (if starts_with s ''file://'' then drop 7 s else s)"

definition read_source :: "file_system \<Rightarrow> string \<Rightarrow> string list result" where
  "read_source fs src =
     (let s = strip_file_prefix src
      in if newline \<in> set s \<and> str_contains s ''RULE'' then Inr [s]
         else (case fs_dir fs s of
                 Some texts \<Rightarrow> Inr texts
               | None \<Rightarrow>
                   (case fs_file fs s of
                      Some txt_of \<Rightarrow> Inr [txt_of]
                    | None \<Rightarrow>
                        if CHR ''/'' \<in> set s \<or> ends_with s ''.rules''
                        then Inl (ExternalError ''FileNotFoundError'') else Inr [s])))"

definition compile_rules :: "externals \<Rightarrow> string list \<Rightarrow> compiled_rule list result" where
  "compile_rules E sources = ebind (parse_rules E sources) (compile_all E ''v1'')"

definition source_list :: "rule_source option \<Rightarrow> string list" where
  "source_list src = (case src of None \<Rightarrow> [] | Some (OneSource s) \<Rightarrow> [s] | Some (ManySources ss) \<Rightarrow> ss)"

text \<open>A built-in source that does not compile is logged and loads as no rules.\<close>

definition load_rules ::
  "externals \<Rightarrow> file_system \<Rightarrow> bool \<Rightarrow> rule_source option \<Rightarrow> compiled_rule list result" where
  "load_rules E fs is_builtin src =
     (if src = None then Inr []
      else ebind (emap (read_source fs) (source_list src)) (\<lambda>texts.
           case compile_rules E (concat texts) of
             Inl e \<Rightarrow> if is_builtin then Inr [] else Inl e
           | Inr rules \<Rightarrow> Inr rules))"

subsection \<open>State\<close>

record guard_rules =
  gr_registry :: rule_registry
  gr_eval :: fast_evaluator
  gr_builtin_on :: bool
  gr_user_source :: "rule_source option"

definition gr_router :: "guard_rules \<Rightarrow> rule_router" where
  "gr_router g = rr_router (gr_registry g)"

text \<open>The router is replaced and the evaluator's views are dropped.\<close>

definition with_router :: "rule_router \<Rightarrow> guard_rules \<Rightarrow> guard_rules" where
  "with_router rt g = g\<lparr>gr_registry := (gr_registry g)\<lparr>rr_router := rt\<rparr>,
     gr_eval := evaluator_invalidate (gr_eval g)\<rparr>"

definition source_str :: "externals \<Rightarrow> rule_source option \<Rightarrow> string" where
  "source_str E src =
     (case src of None \<Rightarrow> [] | Some (OneSource s) \<Rightarrow> s
      | Some (ManySources ss) \<Rightarrow> if ss = [] then [] else py_repr E (VList (map VStr ss)))"

definition load_packs ::
  "externals \<Rightarrow> file_system \<Rightarrow> (string \<times> rule_source) list \<Rightarrow> rule_router \<Rightarrow> rule_router result" where
  "load_packs E fs packs rt =
     foldl (\<lambda>acc (pid, src). ebind acc (\<lambda>rt.
         ebind (load_rules E fs False (Some src)) (\<lambda>rules.
           Inr (snd (replace_pack_rules pid rules (source_str E (Some src)) False rt)))))
       (Inr rt) packs"

text \<open>A binding to an unknown pack is skipped when the guard is built.\<close>

definition bind_known :: "rule_router \<Rightarrow> string \<times> string \<Rightarrow> rule_router" where
  "bind_known rt ap = etry (router_bind (fst ap) (snd ap) rt) rt"

definition new_guard ::
  "externals \<Rightarrow> file_system \<Rightarrow> rule_source \<Rightarrow> bool \<Rightarrow> rule_source option \<Rightarrow>
   (string \<times> rule_source) list \<Rightarrow> (string \<times> string) list \<Rightarrow> guard_rules result" where
  "new_guard E fs builtin_dir use_builtin policy packs bindings =
     ebind (if use_builtin then load_rules E fs True (Some builtin_dir) else Inr []) (\<lambda>builtin.
     ebind (load_rules E fs False policy) (\<lambda>user.
       let rt1 = snd (replace_pack_rules builtin_pack_id builtin ''builtin'' False (new_router True));
           rt2 = snd (replace_pack_rules default_pack_id user (source_str E policy) False rt1)
       in ebind (load_packs E fs packs rt2) (\<lambda>rt3.
            Inr \<lparr>gr_registry = \<lparr>rr_router = foldl bind_known rt3 bindings, rr_version = 0\<rparr>,
                 gr_eval = new_evaluator [] ''v1'' True, gr_builtin_on = use_builtin,
                 gr_user_source = policy\<rparr>)))"

subsection \<open>Operations\<close>

definition merge_into ::
  "bool \<Rightarrow> string set \<Rightarrow> compiled_rule list \<Rightarrow> (string, compiled_rule) dict \<Rightarrow> (string, compiled_rule) dict \<times> nat" where
  "merge_into override global_ids new bucket =
     (let chosen = (if override then new else filter (\<lambda>r. cr_rule_id r \<notin> global_ids) new)
      in (dict_index cr_rule_id bucket chosen, length chosen))"

definition add_rules ::
  "externals \<Rightarrow> file_system \<Rightarrow> rule_source \<Rightarrow> bool \<Rightarrow> string \<Rightarrow> guard_rules \<Rightarrow> (nat \<times> guard_rules) result" where
  "add_rules E fs src override pack_id g =
     ebind (load_rules E fs False (Some src)) (\<lambda>new.
     if new = [] then Inr (0, g)
     else if pack_id = builtin_pack_id then Inl ValueError
     else
       (let rt = gr_router g; existing = get_pack pack_id rt;
            bucket = dict_index cr_rule_id [] (pack_rules rt pack_id);
            (bucket', added) = merge_into override (cr_rule_id ` set (all_rules rt)) new bucket;
            source = (case existing of None \<Rightarrow> ''api'' | Some p \<Rightarrow> rp_source p);
            managed = (case existing of None \<Rightarrow> True | Some p \<Rightarrow> rp_user_managed p)
        in Inr (added, with_router
             (snd (replace_pack_rules pack_id (dict_values bucket') source managed rt)) g)))"

definition remove_rule :: "string \<Rightarrow> guard_rules \<Rightarrow> bool \<times> guard_rules" where
  "remove_rule rule_id g =
     (let (ok, reg) = registry_remove rule_id (gr_registry g)
      in (ok, if ok then g\<lparr>gr_registry := reg, gr_eval := evaluator_invalidate (gr_eval g)\<rparr>
              else g\<lparr>gr_registry := reg\<rparr>))"

definition managed_flag :: "bool option \<Rightarrow> rule_pack option \<Rightarrow> bool" where
  "managed_flag user_managed existing =
     (case (user_managed, existing) of
        (None, Some p) \<Rightarrow> rp_user_managed p | (None, None) \<Rightarrow> False | (Some b, _) \<Rightarrow> b)"

definition replace_rule_pack_rules ::
  "string \<Rightarrow> compiled_rule list \<Rightarrow> string \<Rightarrow> bool option \<Rightarrow> guard_rules \<Rightarrow> (rule_pack \<times> guard_rules) result" where
  "replace_rule_pack_rules pack_id rules source user_managed g =
     (if pack_id = builtin_pack_id then Inl ValueError
      else (let (pack, rt) = replace_pack_rules pack_id rules source
                  (managed_flag user_managed (get_pack pack_id (gr_router g))) (gr_router g)
            in Inr (pack, with_router rt g)))"

definition ensure_rule_pack ::
  "string \<Rightarrow> string \<Rightarrow> bool \<Rightarrow> guard_rules \<Rightarrow> (rule_pack \<times> guard_rules) result" where
  "ensure_rule_pack pack_id source user_managed g =
     (if pack_id = builtin_pack_id then Inl ValueError
      else (case get_pack pack_id (gr_router g) of
              Some pack \<Rightarrow> Inr (pack, g)
            | None \<Rightarrow>
                (let (pack, rt) = replace_pack_rules pack_id [] source user_managed (gr_router g)
                 in Inr (pack, with_router rt g))))"

text \<open>
  Reloading replaces the built-in pack before the user source is read, so a user source that does
  not load leaves the built-in pack already replaced and the evaluator's views in place.
\<close>

definition reload_builtin ::
  "externals \<Rightarrow> file_system \<Rightarrow> rule_source \<Rightarrow> bool option \<Rightarrow> guard_rules \<Rightarrow> nat result \<times> guard_rules" where
  "reload_builtin E fs builtin_dir keep_builtin g =
     (let use_builtin = (case keep_builtin of None \<Rightarrow> gr_builtin_on g | Some b \<Rightarrow> b);
          g0 = g\<lparr>gr_builtin_on := use_builtin\<rparr>
      in case (if use_builtin then load_rules E fs True (Some builtin_dir) else Inr []) of
           Inl e \<Rightarrow> (Inl e, g0)
         | Inr builtin \<Rightarrow>
             (Inr (length builtin), g0\<lparr>gr_registry := (gr_registry g0)\<lparr>rr_router :=
                snd (replace_pack_rules builtin_pack_id builtin ''builtin'' False (gr_router g0))\<rparr>\<rparr>))"

definition reload_user ::
  "externals \<Rightarrow> file_system \<Rightarrow> rule_source option \<Rightarrow> bool option \<Rightarrow> guard_rules \<Rightarrow> nat result \<times> guard_rules" where
  "reload_user E fs policy user_managed g =
     (let src = (if policy \<noteq> None then policy else gr_user_source g);
          existing = get_pack default_pack_id (gr_router g);
          g1 = (if src \<noteq> None then g\<lparr>gr_user_source := src\<rparr> else g)
      in case load_rules E fs False src of
           Inl e \<Rightarrow> (Inl e, g1)
         | Inr user \<Rightarrow>
             (Inr (length user), with_router (snd (replace_pack_rules default_pack_id user
                (source_str E src) (managed_flag user_managed existing) (gr_router g))) g1))"

definition reload_rules ::
  "externals \<Rightarrow> file_system \<Rightarrow> rule_source \<Rightarrow> rule_source option \<Rightarrow> bool option \<Rightarrow> bool option \<Rightarrow>
   guard_rules \<Rightarrow> nat result \<times> guard_rules" where
  "reload_rules E fs builtin_dir policy keep_builtin user_managed g =
     (case reload_builtin E fs builtin_dir keep_builtin g of
        (Inl e, g1) \<Rightarrow> (Inl e, g1)
      | (Inr n, g1) \<Rightarrow>
          (case reload_user E fs policy user_managed g1 of
             (Inl e, g2) \<Rightarrow> (Inl e, g2) | (Inr m, g2) \<Rightarrow> (Inr (n + m), g2)))"

definition add_rule_pack ::
  "externals \<Rightarrow> file_system \<Rightarrow> string \<Rightarrow> rule_source \<Rightarrow> guard_rules \<Rightarrow> (rule_pack \<times> guard_rules) result" where
  "add_rule_pack E fs pack_id src g =
     (if pack_id = builtin_pack_id then Inl ValueError
      else ebind (load_rules E fs False (Some src)) (\<lambda>rules.
        let (pack, rt) = replace_pack_rules pack_id rules
              (case src of OneSource s \<Rightarrow> s | ManySources _ \<Rightarrow> ''api'') True (gr_router g)
        in Inr (pack, with_router rt g)))"

definition remove_rule_pack :: "string \<Rightarrow> guard_rules \<Rightarrow> (bool \<times> guard_rules) result" where
  "remove_rule_pack pack_id g =
     (if pack_id = builtin_pack_id then Inl ValueError
      else (let (ok, rt) = remove_pack pack_id (gr_router g)
            in Inr (ok, if ok then with_router rt g else g)))"

definition bind_agent :: "string \<Rightarrow> string \<Rightarrow> guard_rules \<Rightarrow> guard_rules result" where
  "bind_agent agent_id pack_id g =
     ebind (router_bind agent_id pack_id (gr_router g)) (\<lambda>rt. Inr (with_router rt g))"

definition unbind_agent :: "string \<Rightarrow> string \<Rightarrow> guard_rules \<Rightarrow> bool \<times> guard_rules" where
  "unbind_agent agent_id pack_id g =
     (let (ok, rt) = router_unbind agent_id pack_id (gr_router g)
      in (ok, if ok then with_router rt g
              else g\<lparr>gr_registry := (gr_registry g)\<lparr>rr_router := rt\<rparr>\<rparr>))"

definition active_rules :: "guard_rules \<Rightarrow> compiled_rule list" where
  "active_rules g = all_rules (gr_router g)"

definition guard_rules_for_agent :: "string \<Rightarrow> guard_rules \<Rightarrow> compiled_rule list \<times> guard_rules" where
  "guard_rules_for_agent agent_id g =
     (let (rules, rt) = rules_for_agent agent_id (gr_router g)
      in (rules, g\<lparr>gr_registry := (gr_registry g)\<lparr>rr_router := rt\<rparr>\<rparr>))"

definition guard_evaluate ::
  "externals \<Rightarrow> runtime_event \<Rightarrow> pydict \<Rightarrow> guard_rules \<Rightarrow> decision \<times> guard_rules" where
  "guard_evaluate E ev features g =
     (let (d, fe, rt) = evaluate E ev features (gr_eval g, gr_router g)
      in (d, g\<lparr>gr_registry := (gr_registry g)\<lparr>rr_router := rt\<rparr>, gr_eval := fe\<rparr>))"

subsection \<open>Pack configurations\<close>

text \<open>
  A parsed configuration (\<open>apply_rule_pack_config\<close> in \<open>policy/rules/pack_loader.py\<close>): packs with
  their source paths, then bindings.  The first error stops it, with what was applied so far.
\<close>

record pack_config =
  pc_packs :: "(string \<times> string list) list"
  pc_bindings :: "(string \<times> string list) list"

fun apply_packs ::
  "externals \<Rightarrow> file_system \<Rightarrow> (string \<times> string list) list \<Rightarrow> guard_rules \<Rightarrow> unit result \<times> guard_rules" where
  "apply_packs E fs [] g = (Inr (), g)"
| "apply_packs E fs ((pid, sources) # rest) g =
     (case add_rule_pack E fs pid (ManySources sources) g of
        Inl e \<Rightarrow> (Inl e, g) | Inr (_, g') \<Rightarrow> apply_packs E fs rest g')"

fun apply_bindings :: "(string \<times> string) list \<Rightarrow> guard_rules \<Rightarrow> unit result \<times> guard_rules" where
  "apply_bindings [] g = (Inr (), g)"
| "apply_bindings ((agent, pid) # rest) g =
     (case bind_agent agent pid g of Inl e \<Rightarrow> (Inl e, g) | Inr g' \<Rightarrow> apply_bindings rest g')"

definition apply_rule_pack_config ::
  "externals \<Rightarrow> file_system \<Rightarrow> pack_config \<Rightarrow> guard_rules \<Rightarrow> unit result \<times> guard_rules" where
  "apply_rule_pack_config E fs cfg g =
     (case apply_packs E fs (pc_packs cfg) g of
        (Inl e, g') \<Rightarrow> (Inl e, g')
      | (Inr _, g') \<Rightarrow>
          apply_bindings (concat (map (\<lambda>(a, pids). map (Pair a) pids) (pc_bindings cfg))) g')"

subsection \<open>Coherence of the evaluator\<close>

definition guard_ok :: "guard_rules \<Rightarrow> bool" where
  "guard_ok g \<longleftrightarrow> evaluator_wf (gr_eval g, gr_router g)"

lemma guard_ok_router: "guard_ok g \<Longrightarrow> router_ok (gr_router g)"
  by (simp add: guard_ok_def evaluator_wf_def evaluator_ok_def)

lemma gr_router_with [simp]: "gr_router (with_router rt g) = rt"
  by (simp add: gr_router_def with_router_def)

lemma guard_ok_with [guard_intros]: "guard_ok g \<Longrightarrow> router_ok rt \<Longrightarrow> guard_ok (with_router rt g)"
  using evaluator_wf_invalidate [of "gr_eval g" "gr_router g" rt]
  by (simp add: guard_ok_def with_router_def gr_router_def)

lemma load_packs_ok:
  assumes "router_ok rt" and "load_packs E fs packs rt = Inr rt'"
  shows "router_ok rt'"
proof -
  have err: "foldl (\<lambda>acc (pid, src). ebind acc (\<lambda>rt. ebind (load_rules E fs False (Some src)) (\<lambda>rules.
      Inr (snd (replace_pack_rules pid rules (source_str E (Some src)) False rt))))) (Inl e) ps = Inl e" for e ps
    by (induction ps) auto
  show ?thesis
    using assms unfolding load_packs_def
  proof (induction packs arbitrary: rt)
    case (Cons p packs)
    obtain pid src where p: "p = (pid, src)" by (cases p)
    show ?case
    proof (cases "load_rules E fs False (Some src)")
      case (Inl e)
      with Cons.prems show ?thesis by (simp add: p err)
    next
      case (Inr rules)
      with Cons.prems show ?thesis
        by (intro Cons.IH [of "snd (replace_pack_rules pid rules (source_str E (Some src)) False rt)"])
          (simp_all add: p router_ok_replace)
    qed
  qed simp
qed

lemma bind_known_ok: "router_ok rt \<Longrightarrow> router_ok (foldl bind_known rt bs)"
proof (induction bs arbitrary: rt)
  case (Cons b bs)
  have "router_ok (bind_known rt b)"
    using Cons.prems router_ok_bind [of rt "fst b" "snd b"]
    by (cases "router_bind (fst b) (snd b) rt") (auto simp: bind_known_def)
  with Cons.IH show ?case by simp
qed simp

lemma new_guard_ok:
  assumes "new_guard E fs bdir b policy packs bindings = Inr g"
  shows "guard_ok g"
proof -
  obtain builtin user rt where rt: "load_packs E fs packs
        (snd (replace_pack_rules default_pack_id user (source_str E policy) False
          (snd (replace_pack_rules builtin_pack_id builtin ''builtin'' False (new_router True))))) = Inr rt"
      "gr_router g = foldl bind_known rt bindings" "gr_eval g = new_evaluator [] ''v1'' True"
    using assms by (auto simp: new_guard_def ebind_Inr_iff Let_def gr_router_def)
  have "router_ok rt" by (rule load_packs_ok [OF _ rt(1)]) (intro router_ok_replace router_ok_new)
  then show ?thesis by (simp add: guard_ok_def rt evaluator_wf_new bind_known_ok)
qed

lemma add_rules_ok: "guard_ok g \<Longrightarrow> add_rules E fs src ov pid g = Inr (n, g') \<Longrightarrow> guard_ok g'"
  by (auto simp: add_rules_def ebind_Inr_iff Let_def guard_ok_router router_ok_replace guard_ok_with
      split: if_splits prod.splits)

lemma remove_rule_ok: "guard_ok g \<Longrightarrow> guard_ok (snd (remove_rule rid g))"
proof -
  assume g: "guard_ok g"
  obtain ok reg where reg: "registry_remove rid (gr_registry g) = (ok, reg)" by fastforce
  have "router_ok (rr_router reg)"
    using registry_ok_remove [of "gr_registry g" rid] guard_ok_router [OF g] reg
    by (simp add: registry_ok_def gr_router_def)
  moreover have "reg = gr_registry g" if "\<not> ok"
    using reg that by (auto simp: registry_remove_def Let_def split: option.splits)
  ultimately show ?thesis
    using g evaluator_wf_invalidate [of "gr_eval g" "gr_router g" "rr_router reg"]
    by (simp add: remove_rule_def reg guard_ok_def gr_router_def)
qed

lemma replace_pack_ok:
  "guard_ok g \<Longrightarrow> replace_rule_pack_rules pid rules src um g = Inr (p, g') \<Longrightarrow> guard_ok g'"
  by (auto simp: replace_rule_pack_rules_def guard_ok_router split: if_splits prod.splits
      dest!: sym [of _ "replace_pack_rules _ _ _ _ _"] arg_cong [where f = snd]
      intro!: guard_ok_with) (metis guard_ok_router router_ok_replace snd_conv)

lemma ensure_pack_ok: "guard_ok g \<Longrightarrow> ensure_rule_pack pid src um g = Inr (p, g') \<Longrightarrow> guard_ok g'"
  using router_ok_replace [OF guard_ok_router, of g pid "[]" src um]
  by (auto simp: ensure_rule_pack_def split: if_splits option.splits prod.splits intro!: guard_ok_with)

lemma guard_ok_fresh:
  assumes "guard_ok g" and "gr_eval g' = gr_eval g" and "router_ok rt"
  shows "guard_ok (with_router rt g')"
  using assms evaluator_wf_invalidate [of "gr_eval g" "gr_router g" rt]
  by (simp add: guard_ok_def with_router_def gr_router_def)

lemma reload_builtin_router:
  assumes "router_ok (gr_router g)"
  shows "router_ok (gr_router (snd (reload_builtin E fs bdir kb g)))"
    "gr_eval (snd (reload_builtin E fs bdir kb g)) = gr_eval g"
  using assms router_ok_replace [OF assms]
  by (auto simp: reload_builtin_def Let_def gr_router_def split: sum.splits)

lemma reload_user_ok:
  assumes "guard_ok g0" and "gr_eval g = gr_eval g0" and "router_ok (gr_router g)"
    and "fst (reload_user E fs src um g) = Inr n"
  shows "guard_ok (snd (reload_user E fs src um g))"
  using assms by (auto simp: reload_user_def Let_def intro!: guard_ok_fresh router_ok_replace split: sum.splits)

lemma reload_ok:
  assumes "guard_ok g" and "fst (reload_rules E fs bdir src kb um g) = Inr n"
  shows "guard_ok (snd (reload_rules E fs bdir src kb um g))"
proof -
  let ?b = "reload_builtin E fs bdir kb g"
  have b: "router_ok (gr_router (snd ?b))" "gr_eval (snd ?b) = gr_eval g"
    using reload_builtin_router [OF guard_ok_router [OF assms(1)]] by auto
  show ?thesis
    using assms reload_user_ok [OF assms(1) b(2,1), of E fs src um]
    by (auto simp: reload_rules_def split: prod.splits sum.splits)
qed

lemma add_pack_ok: "guard_ok g \<Longrightarrow> add_rule_pack E fs pid src g = Inr (p, g') \<Longrightarrow> guard_ok g'"
  by (auto simp: add_rule_pack_def ebind_Inr_iff replace_pack_rules_def Let_def guard_ok_router
      split: if_splits intro!: guard_ok_with router_ok_upsert)

lemma remove_pack_ok: "guard_ok g \<Longrightarrow> remove_rule_pack pid g = Inr (ok, g') \<Longrightarrow> guard_ok g'"
  using router_ok_remove [OF guard_ok_router, of g pid]
  by (auto simp: remove_rule_pack_def split: if_splits prod.splits intro!: guard_ok_with)

lemma bind_ok: "guard_ok g \<Longrightarrow> bind_agent a pid g = Inr g' \<Longrightarrow> guard_ok g'"
  using router_ok_bind [OF guard_ok_router, of g a pid]
  by (auto simp: bind_agent_def ebind_Inr_iff intro!: guard_ok_with)

lemma unbind_absent:
  assumes "router_ok rt" and "\<not> fst (router_unbind a p rt)"
  shows "merged_for b (snd (router_unbind a p rt)) = merged_for b rt"
proof -
  obtain removed bs where un: "unbind a p (rt_bindings rt) = (removed, bs)" by fastforce
  have ok: "bindings_ok (rt_bindings rt)" using assms(1) by (simp add: router_ok_def)
  have absent: "p \<notin> packs_of (rt_bindings rt) a"
    using assms(2) mb.unbind_result [OF ok, of a p] by (simp add: router_unbind_def un)
  then have "packs_of bs b = packs_of (rt_bindings rt) b"
    using mb.packs_unbind [OF ok, of a p b] by (simp add: un)
  then show ?thesis by (intro merged_for_cong) (simp_all add: router_unbind_def un)
qed

lemma unbind_ok:
  assumes "guard_ok g"
  shows "guard_ok (snd (unbind_agent a pid g))"
proof -
  obtain ok rt where rt: "router_unbind a pid (gr_router g) = (ok, rt)" by fastforce
  have router: "router_ok rt" using router_ok_unbind [OF guard_ok_router [OF assms], of a pid] rt by simp
  show ?thesis
  proof (cases ok)
    case True
    then show ?thesis using guard_ok_with [OF assms router] by (simp add: unbind_agent_def rt)
  next
    case False
    then have "merged_for b rt = merged_for b (gr_router g)" for b
      using unbind_absent [OF guard_ok_router [OF assms], of a pid b] rt by simp
    moreover have "snd (unbind_agent a pid g) = g\<lparr>gr_registry := (gr_registry g)\<lparr>rr_router := rt\<rparr>\<rparr>"
      using False by (simp add: unbind_agent_def rt)
    ultimately show ?thesis
      using router assms by (simp add: guard_ok_def evaluator_wf_def evaluator_ok_def gr_router_def)
  qed
qed

end
