(* ===== verification/Graph_Store.thy ===== *)
theory Graph_Store
  imports Dsl_Operators
begin

text \<open>
  The in-memory execution graph (\<open>graph/model.py\<close>, \<open>storage/graph_store.py\<close>): nodes with merged
  properties, outgoing edges in insertion order, the breadth-first data-flow query and the agent
  ancestry.  The query is shown to decide bounded reachability over data-flow edges.
\<close>

subsection \<open>Data\<close>

datatype node_type = AGENT | TOOL_CALL | RESOURCE | GOAL
datatype edge_type = INVOKED | READ_FROM | WROTE_TO | DERIVED_FROM | UNDER_GOAL | SPAWNED

type_synonym node_key = "node_type \<times> string"

record graph_edge =
  ge_type :: edge_type
  ge_dst :: node_key
  ge_props :: pydict

record graph_store =
  g_nodes :: "(node_key, pydict) dict"
  g_out :: "(node_key, graph_edge list) dict"

definition empty_graph :: graph_store where
  "empty_graph = \<lparr>g_nodes = [], g_out = []\<rparr>"

subsection \<open>Writes\<close>

text \<open>One property: labels are united with the recorded ones, anything else is overwritten.\<close>

definition merge_prop :: "pydict \<Rightarrow> string \<times> pyval \<Rightarrow> pydict" where
  "merge_prop existing kv =
     (let (k, v) = kv in
      if k = ''labels'' \<and> (case v of VList _ \<Rightarrow> True | VSet _ \<Rightarrow> True | _ \<Rightarrow> False)
      then (let old = py_or (dict_getd existing ''labels'' VNone) (VList []);
                merged = py_dedup (etry (py_iter old) [] @ etry (py_iter v) [])
            in dict_set ''labels'' (VList merged) existing)
      else dict_set k v existing)"

definition upsert_node :: "node_type \<Rightarrow> string \<Rightarrow> pydict \<Rightarrow> graph_store \<Rightarrow> graph_store" where
  "upsert_node ntype node_id props g =
     (let key = (ntype, node_id); existing = dict_getd (g_nodes g) key []
      in g\<lparr>g_nodes := dict_set key (foldl merge_prop existing props) (g_nodes g)\<rparr>)"

definition upsert_edge :: "edge_type \<Rightarrow> node_key \<Rightarrow> node_key \<Rightarrow> pydict \<Rightarrow> graph_store \<Rightarrow> graph_store" where
  "upsert_edge etype src dst props g =
     g\<lparr>g_out := dict_set src
         (dict_getd (g_out g) src [] @ [\<lparr>ge_type = etype, ge_dst = dst, ge_props = props\<rparr>]) (g_out g)\<rparr>"

subsection \<open>Reads\<close>

definition node_labels :: "graph_store \<Rightarrow> node_key \<Rightarrow> pyval list" where
  "node_labels g key =
     (case map_of (dict_getd (g_nodes g) key []) ''labels'' of
        None \<Rightarrow> [] | Some v \<Rightarrow> etry (py_iter v) [])"

definition resource_labels :: "string \<Rightarrow> graph_store \<Rightarrow> pyval set" where
  "resource_labels rid g = set (node_labels g (RESOURCE, rid))"

text \<open>The parent links, each agent at most once.\<close>

definition parent_of :: "graph_store \<Rightarrow> string \<Rightarrow> string option" where
  "parent_of g cur =
     (case map_of (g_nodes g) (AGENT, cur) of
        None \<Rightarrow> None
      | Some node \<Rightarrow>
          (case map_of node ''parent_id'' of
             Some (VStr p) \<Rightarrow> if p = [] then None else Some p | _ \<Rightarrow> None))"

definition unseen :: "graph_store \<Rightarrow> string list \<Rightarrow> node_key list" where
  "unseen g seen = filter (\<lambda>k. k \<notin> Pair AGENT ` set seen) (map fst (g_nodes g))"

lemma unseen_shrinks:
  assumes "parent_of g cur = Some p" and "cur \<notin> set seen"
  shows "length (unseen g (cur # seen)) < length (unseen g seen)"
proof -
  have "(AGENT, cur) \<in> set (map fst (g_nodes g))"
    using assms(1) by (auto simp: parent_of_def dest: map_of_SomeD split: option.splits intro: rev_image_eqI)
  moreover have "(AGENT, cur) \<notin> Pair AGENT ` set seen" using assms(2) by auto
  ultimately have in_unseen: "(AGENT, cur) \<in> set (unseen g seen)" by (simp add: unseen_def)
  have "unseen g (cur # seen) = filter (\<lambda>k. k \<noteq> (AGENT, cur)) (unseen g seen)"
    by (auto simp: unseen_def intro!: filter_cong)
  also have "length \<dots> < length (unseen g seen)"
    using in_unseen by (intro length_filter_less [of "(AGENT, cur)"]) auto
  finally show ?thesis .
qed

function ancestor_walk :: "graph_store \<Rightarrow> string \<Rightarrow> string list \<Rightarrow> string list" where
  "ancestor_walk g cur seen =
     (if cur = [] \<or> cur \<in> set seen then []
      else (case parent_of g cur of
              None \<Rightarrow> [] | Some parent \<Rightarrow> parent # ancestor_walk g parent (cur # seen)))"
  by pat_completeness auto
termination
  by (relation "measure (\<lambda>(g, cur, seen). length (unseen g seen))") (simp_all add: unseen_shrinks)

declare ancestor_walk.simps [simp del]

definition agent_ancestors :: "string \<Rightarrow> graph_store \<Rightarrow> string list" where
  "agent_ancestors agent_id g = ancestor_walk g agent_id []"

subsection \<open>The data-flow query\<close>

definition normalize_label :: "string \<Rightarrow> string \<times> bool" where
  "normalize_label pattern =
     (if ends_with pattern ''/*'' then (take (length pattern - 2) pattern, True)
      else if ends_with pattern ''*'' then (take (length pattern - 1) pattern, True)
      else (pattern, False))"

definition graph_label_match :: "string \<times> bool \<Rightarrow> pyval \<Rightarrow> bool" where
  "graph_label_match pat v =
     (case v of
        VStr label \<Rightarrow>
          (let (prefix, is_prefix) = pat in
           if is_prefix
           then label = prefix \<or> starts_with label (prefix @ ''/'') \<or> starts_with label (prefix @ ''.'')
           else label = prefix)
      | _ \<Rightarrow> False)"

definition flow_edge :: "graph_edge \<Rightarrow> bool" where
  "flow_edge e \<longleftrightarrow> ge_type e = DERIVED_FROM \<or> ge_type e = READ_FROM"

definition tainted :: "(string \<times> bool) list \<Rightarrow> graph_store \<Rightarrow> node_key \<Rightarrow> bool" where
  "tainted pats g key =
     (fst key = RESOURCE \<and>
      list_ex (\<lambda>pat. list_ex (graph_label_match pat) (node_labels g key)) pats)"

fun scan_edges ::
  "(string \<times> bool) list \<Rightarrow> graph_store \<Rightarrow> graph_edge list \<Rightarrow> node_key list \<Rightarrow> bool \<times> node_key list" where
  "scan_edges pats g [] acc = (False, acc)"
| "scan_edges pats g (e # es) acc =
     (if \<not> flow_edge e then scan_edges pats g es acc
      else if tainted pats g (ge_dst e) then (True, acc)
      else scan_edges pats g es (acc @ [ge_dst e]))"

fun scan_level ::
  "(string \<times> bool) list \<Rightarrow> graph_store \<Rightarrow> node_key list \<Rightarrow> node_key list \<Rightarrow> node_key list \<Rightarrow>
   bool \<times> node_key list \<times> node_key list" where
  "scan_level pats g [] visited acc = (False, visited, acc)"
| "scan_level pats g (key # frontier) visited acc =
     (if key \<in> set visited then scan_level pats g frontier visited acc
      else (let (hit, acc') = scan_edges pats g (dict_getd (g_out g) key []) acc
            in if hit then (True, key # visited, acc')
               else scan_level pats g frontier (key # visited) acc'))"

fun flow_search ::
  "(string \<times> bool) list \<Rightarrow> graph_store \<Rightarrow> nat \<Rightarrow> node_key list \<Rightarrow> node_key list \<Rightarrow> bool" where
  "flow_search pats g 0 frontier visited = False"
| "flow_search pats g (Suc n) frontier visited =
     (let (hit, visited', acc) = scan_level pats g frontier visited []
      in if hit then True else if acc = [] then False else flow_search pats g n acc visited')"

definition exists_path_to_sink :: "string \<Rightarrow> string list \<Rightarrow> int \<Rightarrow> graph_store \<Rightarrow> bool" where
  "exists_path_to_sink sink_call_id source_labels max_hops g =
     (let pats = map normalize_label source_labels
      in if pats = [] then False
         else flow_search pats g (nat max_hops) [(TOOL_CALL, sink_call_id)] [])"

subsection \<open>Correctness of the query\<close>

definition flow_succ :: "graph_store \<Rightarrow> node_key \<Rightarrow> node_key set" where
  "flow_succ g key = ge_dst ` {e \<in> set (dict_getd (g_out g) key []). flow_edge e}"

text \<open>Some tainted node is one to \<open>n\<close> data-flow edges away.\<close>

fun taint_within :: "(string \<times> bool) list \<Rightarrow> graph_store \<Rightarrow> nat \<Rightarrow> node_key \<Rightarrow> bool" where
  "taint_within pats g 0 key = False"
| "taint_within pats g (Suc n) key =
     (\<exists>y \<in> flow_succ g key. tainted pats g y \<or> taint_within pats g n y)"

lemma taint_within_mono: "taint_within pats g n key \<Longrightarrow> taint_within pats g (Suc n) key"
proof (induction n arbitrary: key)
  case (Suc n)
  from Suc.prems obtain y where y: "y \<in> flow_succ g key" "tainted pats g y \<or> taint_within pats g n y"
    by auto
  then have "tainted pats g y \<or> taint_within pats g (Suc n) y" using Suc.IH by blast
  with y(1) show ?case by (subst taint_within.simps) blast
qed simp

lemma scan_edges_hit:
  "fst (scan_edges pats g es acc) \<longleftrightarrow> (\<exists>e \<in> set es. flow_edge e \<and> tainted pats g (ge_dst e))"
  by (induction es arbitrary: acc) auto

lemma scan_edges_next:
  "\<not> fst (scan_edges pats g es acc) \<Longrightarrow>
     set (snd (scan_edges pats g es acc)) = set acc \<union> ge_dst ` {e \<in> set es. flow_edge e}"
  by (induction es arbitrary: acc) (auto split: if_splits)

lemma scan_level_hit:
  "fst (scan_level pats g F V acc) \<longleftrightarrow>
     (\<exists>key \<in> set F - set V. \<exists>y \<in> flow_succ g key. tainted pats g y)"
proof (induction F arbitrary: V acc)
  case (Cons key F)
  have hit: "fst (scan_edges pats g (dict_getd (g_out g) key []) acc) \<longleftrightarrow>
      (\<exists>y \<in> flow_succ g key. tainted pats g y)" for acc
    by (auto simp: scan_edges_hit flow_succ_def)
  show ?case
    using Cons.IH [of V acc] Cons.IH [of "key # V"] hit [of acc]
    by (cases "scan_edges pats g (dict_getd (g_out g) key []) acc") auto
qed simp

lemma scan_level_next:
  assumes "\<not> fst (scan_level pats g F V acc)"
  shows "set (fst (snd (scan_level pats g F V acc))) = set V \<union> set F \<and>
     set (snd (snd (scan_level pats g F V acc))) = set acc \<union> (\<Union>key \<in> set F - set V. flow_succ g key)"
  using assms
proof (induction F arbitrary: V acc)
  case (Cons key F)
  show ?case
  proof (cases "key \<in> set V")
    case True
    with Cons show ?thesis by auto
  next
    case False
    obtain hit acc' where scan: "scan_edges pats g (dict_getd (g_out g) key []) acc = (hit, acc')"
      by fastforce
    with False Cons.prems have "\<not> hit" by auto
    then have "set acc' = set acc \<union> flow_succ g key"
      using scan_edges_next [of pats g "dict_getd (g_out g) key []" acc] scan
      by (simp add: flow_succ_def)
    with False \<open>\<not> hit\<close> scan Cons.IH [of "key # V" acc'] Cons.prems show ?thesis
      by auto
  qed
qed simp

lemma taint_leaves:
  assumes "\<forall>v \<in> V. \<forall>y \<in> flow_succ g v. \<not> tainted pats g y \<and> y \<in> V \<union> N"
    and "x \<in> V" and "taint_within pats g n x"
  shows "\<exists>y \<in> N. taint_within pats g n y"
  using assms(2,3)
proof (induction n arbitrary: x)
  case (Suc n)
  then obtain y where "y \<in> flow_succ g x" "tainted pats g y \<or> taint_within pats g n y" by auto
  with assms(1) Suc.prems(1) have y: "y \<in> V \<union> N" "taint_within pats g n y" by auto
  then show ?case using Suc.IH taint_within_mono by blast
qed simp

lemma flow_search_correct:
  assumes "\<forall>v \<in> set V. \<forall>y \<in> flow_succ g v. \<not> tainted pats g y \<and> y \<in> set V \<union> set F"
  shows "flow_search pats g n F V \<longleftrightarrow> (\<exists>x \<in> set F. taint_within pats g n x)"
  using assms
proof (induction n arbitrary: F V)
  case (Suc n)
  obtain hit V' N where level: "scan_level pats g F V [] = (hit, V', N)" by (metis prod_cases3)
  show ?case
  proof (cases hit)
    case True
    then show ?thesis using scan_level_hit [of pats g F V "[]"] level by auto
  next
    case False
    then have sets: "set V' = set V \<union> set F" "set N = (\<Union>key \<in> set F - set V. flow_succ g key)"
      using scan_level_next [of pats g F V "[]"] level by auto
    have clean: "\<not> tainted pats g y" if "x \<in> set F" "y \<in> flow_succ g x" for x y
      using that False level scan_level_hit [of pats g F V "[]"] Suc.prems by (cases "x \<in> set V") auto
    have closed: "\<forall>v \<in> set V'. \<forall>y \<in> flow_succ g v. \<not> tainted pats g y \<and> y \<in> set V' \<union> set N"
      using Suc.prems clean sets by blast
    have "(\<exists>x \<in> set F. taint_within pats g (Suc n) x) \<longleftrightarrow> (\<exists>x \<in> set N. taint_within pats g n x)"
    proof
      assume "\<exists>x \<in> set F. taint_within pats g (Suc n) x"
      then obtain x y where "x \<in> set F" "y \<in> flow_succ g x" "taint_within pats g n y"
        using clean by auto
      then have "y \<in> set V' \<union> set N" using closed sets by blast
      then show "\<exists>x \<in> set N. taint_within pats g n x"
        using taint_leaves [OF closed] \<open>taint_within pats g n y\<close> by blast
    next
      assume "\<exists>x \<in> set N. taint_within pats g n x"
      then show "\<exists>x \<in> set F. taint_within pats g (Suc n) x" using sets by auto
    qed
    with Suc.IH [OF closed] False level show ?thesis by (cases N) auto
  qed
qed simp

text \<open>The same as a statement about paths.\<close>

definition flow_rel :: "graph_store \<Rightarrow> (node_key \<times> node_key) set" where
  "flow_rel g = {(x, y). y \<in> flow_succ g x}"

lemma taint_within_path:
  "taint_within pats g n x \<longleftrightarrow> (\<exists>k y. 0 < k \<and> k \<le> n \<and> (x, y) \<in> flow_rel g ^^ k \<and> tainted pats g y)"
proof (induction n arbitrary: x)
  case 0
  then show ?case by simp
next
  case (Suc n)
  show ?case
  proof
    assume "taint_within pats g (Suc n) x"
    then obtain y where y: "y \<in> flow_succ g x" "tainted pats g y \<or> taint_within pats g n y" by auto
    show "\<exists>k z. 0 < k \<and> k \<le> Suc n \<and> (x, z) \<in> flow_rel g ^^ k \<and> tainted pats g z"
    proof (cases "tainted pats g y")
      case True
      with y(1) show ?thesis by (intro exI [of _ 1] exI [of _ y]) (simp add: flow_rel_def)
    next
      case False
      with y Suc obtain k z where "0 < k" "k \<le> n" "(y, z) \<in> flow_rel g ^^ k" "tainted pats g z" by blast
      moreover from this y(1) have "(x, z) \<in> flow_rel g ^^ Suc k"
        by (intro relpow_Suc_I2 [of x y]) (simp_all add: flow_rel_def)
      ultimately show ?thesis by (intro exI [of _ "Suc k"] exI [of _ z]) simp
    qed
  next
    assume "\<exists>k z. 0 < k \<and> k \<le> Suc n \<and> (x, z) \<in> flow_rel g ^^ k \<and> tainted pats g z"
    then obtain k z where k: "k \<le> n" "(x, z) \<in> flow_rel g ^^ Suc k" "tainted pats g z"
      by (metis Suc_le_mono gr0_conv_Suc)
    then obtain y where y: "(x, y) \<in> flow_rel g" "(y, z) \<in> flow_rel g ^^ k"
      by (meson relpow_Suc_D2)
    have "tainted pats g y \<or> taint_within pats g n y"
    proof (cases k)
      case 0
      with y(2) k(3) show ?thesis by simp
    next
      case (Suc m)
      with y(2) k show ?thesis unfolding Suc.IH by blast
    qed
    with y(1) show "taint_within pats g (Suc n) x" by (auto simp: flow_rel_def)
  qed
qed

lemma exists_path_correct:
  "exists_path_to_sink sid labels hops g \<longleftrightarrow>
     (\<exists>k y. 0 < k \<and> int k \<le> hops \<and> ((TOOL_CALL, sid), y) \<in> flow_rel g ^^ k \<and>
        tainted (map normalize_label labels) g y)"
proof (cases "labels = []")
  case True
  then show ?thesis by (simp add: exists_path_to_sink_def tainted_def)
next
  case False
  then have "exists_path_to_sink sid labels hops g \<longleftrightarrow>
      taint_within (map normalize_label labels) g (nat hops) (TOOL_CALL, sid)"
    by (simp add: exists_path_to_sink_def flow_search_correct)
  also have "\<dots> \<longleftrightarrow> (\<exists>k y. 0 < k \<and> k \<le> nat hops \<and> ((TOOL_CALL, sid), y) \<in> flow_rel g ^^ k \<and>
      tainted (map normalize_label labels) g y)" by (rule taint_within_path)
  also have "\<dots> \<longleftrightarrow> (\<exists>k y. 0 < k \<and> int k \<le> hops \<and> ((TOOL_CALL, sid), y) \<in> flow_rel g ^^ k \<and>
      tainted (map normalize_label labels) g y)"
  proof -
    have "0 < k \<and> k \<le> nat hops \<longleftrightarrow> 0 < k \<and> int k \<le> hops" for k by linarith
    then show ?thesis by (simp only: conj_assoc [symmetric])
  qed
  finally show ?thesis .
qed

subsection \<open>Writes only add taint\<close>

definition labels_are_lists :: "pydict \<Rightarrow> bool" where
  "labels_are_lists props \<longleftrightarrow> (\<forall>(k, v) \<in> set props. k = ''labels'' \<longrightarrow> (\<exists>ss. v = VList (map VStr ss)))"

text \<open>Label properties hold string lists; every writer in the sources keeps this.\<close>

definition graph_ok :: "graph_store \<Rightarrow> bool" where
  "graph_ok g \<longleftrightarrow> (\<forall>key. \<exists>ss. node_labels g key = map VStr ss)"

definition graph_le :: "graph_store \<Rightarrow> graph_store \<Rightarrow> bool" where
  "graph_le g h \<longleftrightarrow> (\<forall>key. flow_succ g key \<subseteq> flow_succ h key) \<and>
     (\<forall>key. set (node_labels g key) \<subseteq> set (node_labels h key))"

lemma graph_le_refl [simp]: "graph_le g g"
  by (simp add: graph_le_def)

lemma graph_le_trans: "graph_le g h \<Longrightarrow> graph_le h k \<Longrightarrow> graph_le g k"
  unfolding graph_le_def by blast

lemma tainted_mono: "graph_le g h \<Longrightarrow> tainted pats g key \<Longrightarrow> tainted pats h key"
  unfolding graph_le_def tainted_def list_ex_iff by blast

lemma flow_rel_mono: "graph_le g h \<Longrightarrow> flow_rel g \<subseteq> flow_rel h"
  by (auto simp: graph_le_def flow_rel_def)

lemma exists_path_mono:
  assumes "graph_le g h" and "exists_path_to_sink sid labels hops g"
  shows "exists_path_to_sink sid labels hops h"
proof -
  have "flow_rel g ^^ k \<subseteq> flow_rel h ^^ k" for k
    using flow_rel_mono [OF assms(1)] by (induction k) auto
  with assms tainted_mono show ?thesis unfolding exists_path_correct by blast
qed

lemma node_labels_upsert_edge [simp]: "node_labels (upsert_edge t a b props g) key = node_labels g key"
  by (simp add: node_labels_def upsert_edge_def)

lemma flow_succ_upsert_node [simp]: "flow_succ (upsert_node t i props g) key = flow_succ g key"
  by (simp add: flow_succ_def upsert_node_def Let_def)

lemma flow_succ_upsert_edge:
  "flow_succ (upsert_edge t a b props g) key =
     flow_succ g key \<union> (if key = a \<and> (t = DERIVED_FROM \<or> t = READ_FROM) then {b} else {})"
proof -
  let ?e = "\<lparr>ge_type = t, ge_dst = b, ge_props = props\<rparr>"
  have image: "ge_dst ` {e \<in> set (es @ [?e]). flow_edge e} =
      ge_dst ` {e \<in> set es. flow_edge e} \<union> (if flow_edge ?e then {b} else {})" for es
    by (auto intro: rev_image_eqI)
  have "flow_succ (upsert_edge t a b props g) key =
      (if key = a then ge_dst ` {e \<in> set (dict_getd (g_out g) a [] @ [?e]). flow_edge e}
       else flow_succ g key)"
    by (simp add: flow_succ_def upsert_edge_def dict_getd_def [of "dict_set _ _ _"])
      (simp add: dict_getd_def)
  then show ?thesis unfolding image by (simp add: flow_succ_def flow_edge_def)
qed

lemma graph_le_upsert_edge: "graph_le g (upsert_edge t a b props g)"
  by (auto simp: graph_le_def flow_succ_upsert_edge)

text \<open>Labels of a property dictionary, as strings.\<close>

definition prop_labels :: "pydict \<Rightarrow> pyval list" where
  "prop_labels d = (case map_of d ''labels'' of None \<Rightarrow> [] | Some v \<Rightarrow> etry (py_iter v) [])"

lemma node_labels_prop: "node_labels g key = prop_labels (dict_getd (g_nodes g) key [])"
  by (simp add: node_labels_def prop_labels_def)

lemma py_dedup_strings: "\<exists>ts. py_dedup (map VStr ss) = map VStr ts \<and> set ts = set ss"
proof (induction ss)
  case (Cons s ss)
  then obtain ts where "py_dedup (map VStr ss) = map VStr ts" "set ts = set ss" by blast
  then show ?case
    by (cases "s \<in> set ss") (auto intro: exI [of _ ts] exI [of _ "s # ts"])
qed simp

lemma prop_labels_merge:
  assumes "prop_labels d = map VStr ss" and "labels_are_lists [kv]"
  shows "\<exists>ts. prop_labels (merge_prop d kv) = map VStr ts \<and>
     set ts = set ss \<union> (if fst kv = ''labels'' then {t. VStr t \<in> set (etry (py_iter (snd kv)) [])} else {})"
proof (cases "fst kv = ''labels''")
  case False
  then have "prop_labels (merge_prop d kv) = prop_labels d"
    by (cases kv) (simp add: merge_prop_def prop_labels_def)
  with assms(1) False show ?thesis by auto
next
  case True
  then obtain us where kv: "kv = (''labels'', VList (map VStr us))"
    using assms(2) by (cases kv) (auto simp: labels_are_lists_def)
  have old: "etry (py_iter (py_or (dict_getd d ''labels'' VNone) (VList []))) [] = map VStr ss"
  proof (cases "map_of d ''labels''")
    case None
    with assms(1) show ?thesis by (simp add: prop_labels_def dict_getd_def py_or_def)
  next
    case (Some v)
    then have "etry (py_iter v) [] = map VStr ss" using assms(1) by (simp add: prop_labels_def)
    moreover from this have "\<not> py_bool v \<Longrightarrow> ss = []" by (cases v) auto
    ultimately show ?thesis using Some by (auto simp: dict_getd_def py_or_def)
  qed
  obtain ts where ts: "py_dedup (map VStr (ss @ us)) = map VStr ts" "set ts = set ss \<union> set us"
    using py_dedup_strings [of "ss @ us"] by auto
  have "prop_labels (merge_prop d kv) = map VStr ts"
    using old ts(1) by (simp add: kv merge_prop_def prop_labels_def)
  with ts(2) show ?thesis by (auto simp: kv)
qed

definition new_labels :: "pydict \<Rightarrow> string set" where
  "new_labels props = {t. \<exists>v. (''labels'', v) \<in> set props \<and> VStr t \<in> set (etry (py_iter v) [])}"

lemma prop_labels_fold:
  assumes "prop_labels d = map VStr ss" and "labels_are_lists props"
  shows "\<exists>ts. prop_labels (foldl merge_prop d props) = map VStr ts \<and> set ts = set ss \<union> new_labels props"
  using assms
proof (induction props arbitrary: d ss)
  case Nil
  then show ?case by (intro exI [of _ ss]) (simp add: new_labels_def)
next
  case (Cons kv props)
  have "labels_are_lists [kv]" "labels_are_lists props"
    using Cons.prems(2) by (simp_all add: labels_are_lists_def)
  then obtain ts where ts: "prop_labels (merge_prop d kv) = map VStr ts"
    "set ts = set ss \<union> (if fst kv = ''labels'' then {t. VStr t \<in> set (etry (py_iter (snd kv)) [])} else {})"
    using prop_labels_merge [OF Cons.prems(1)] by blast
  obtain us where us: "prop_labels (foldl merge_prop (merge_prop d kv) props) = map VStr us"
    "set us = set ts \<union> new_labels props"
    using Cons.IH [OF ts(1) \<open>labels_are_lists props\<close>] by blast
  have "set us = set ss \<union> new_labels (kv # props)"
    using ts(2) us(2) by (cases kv) (auto simp: new_labels_def)
  with us(1) show ?case by auto
qed

lemma node_labels_upsert_node:
  assumes "graph_ok g" and "labels_are_lists props"
  shows "set (node_labels (upsert_node t i props g) key) = set (node_labels g key) \<union>
      (if key = (t, i) then VStr ` new_labels props else {})"
    and "\<exists>ss. node_labels (upsert_node t i props g) key = map VStr ss"
proof -
  obtain ss where ss: "prop_labels (dict_getd (g_nodes g) (t, i) []) = map VStr ss"
    using assms(1) unfolding graph_ok_def node_labels_prop by blast
  obtain ts where ts: "prop_labels (foldl merge_prop (dict_getd (g_nodes g) (t, i) []) props) = map VStr ts"
    "set ts = set ss \<union> new_labels props"
    using prop_labels_fold [OF ss assms(2)] by blast
  have upd: "node_labels (upsert_node t i props g) key =
      (if key = (t, i) then map VStr ts else node_labels g key)"
    using ts(1) by (simp add: node_labels_prop upsert_node_def Let_def dict_getd_def [of "dict_set _ _ _"])
      (simp add: dict_getd_def)
  show "set (node_labels (upsert_node t i props g) key) = set (node_labels g key) \<union>
      (if key = (t, i) then VStr ` new_labels props else {})"
    using ts(2) ss unfolding upd by (auto simp: node_labels_prop)
  show "\<exists>ss. node_labels (upsert_node t i props g) key = map VStr ss"
    using assms(1) unfolding upd graph_ok_def by (metis (full_types))
qed

lemma graph_ok_upsert_node [guard_intros]:
  "graph_ok g \<Longrightarrow> labels_are_lists props \<Longrightarrow> graph_ok (upsert_node t i props g)"
  unfolding graph_ok_def by (metis graph_ok_def node_labels_upsert_node(2))

lemma graph_ok_upsert_edge [guard_intros]: "graph_ok g \<Longrightarrow> graph_ok (upsert_edge t a b props g)"
  by (simp add: graph_ok_def)

lemma graph_ok_empty [guard_intros]: "graph_ok empty_graph"
  by (simp add: graph_ok_def node_labels_def empty_graph_def dict_getd_def)

lemma graph_le_upsert_node:
  "graph_ok g \<Longrightarrow> labels_are_lists props \<Longrightarrow> graph_le g (upsert_node t i props g)"
  by (auto simp: graph_le_def node_labels_upsert_node)

subsection \<open>Ancestry\<close>

text \<open>The walk follows parent links and never repeats a starting point.\<close>

lemma ancestor_walk_links:
  "i < length (ancestor_walk g cur seen) \<Longrightarrow>
     parent_of g ((cur # ancestor_walk g cur seen) ! i) = Some (ancestor_walk g cur seen ! i)"
proof (induction g cur seen arbitrary: i rule: ancestor_walk.induct)
  case (1 g cur seen)
  show ?case
  proof (cases "cur = [] \<or> cur \<in> set seen \<or> parent_of g cur = None")
    case True
    with "1.prems" show ?thesis by (auto simp: ancestor_walk.simps [of g cur seen])
  next
    case False
    then obtain p where p: "parent_of g cur = Some p" by auto
    have walk: "ancestor_walk g cur seen = p # ancestor_walk g p (cur # seen)"
      using False p by (subst ancestor_walk.simps) simp
    show ?thesis
    proof (cases i)
      case 0
      with p show ?thesis by (simp add: walk)
    next
      case (Suc j)
      with False p "1.prems" show ?thesis
        using "1.IH" [OF _ p, of j] by (simp add: walk)
    qed
  qed
qed

lemma ancestor_walk_bound:
  "length (ancestor_walk g cur seen) \<le> length (unseen g seen)"
proof (induction g cur seen rule: ancestor_walk.induct)
  case (1 g cur seen)
  show ?case
  proof (cases "cur = [] \<or> cur \<in> set seen \<or> parent_of g cur = None")
    case True
    then show ?thesis by (auto simp: ancestor_walk.simps [of g cur seen])
  next
    case False
    then obtain p where p: "parent_of g cur = Some p" by auto
    have "length (ancestor_walk g p (cur # seen)) \<le> length (unseen g (cur # seen))"
      using False p "1.IH" by blast
    also have "\<dots> < length (unseen g seen)" using False p by (intro unseen_shrinks) auto
    finally show ?thesis using False p by (simp add: ancestor_walk.simps [of g cur seen])
  qed
qed

end
