(* ===== verification/Session_Store.thy ===== *)
theory Session_Store
  imports Events
begin

text \<open>
  The hot-path state cache (\<open>storage/session_store.py\<close>): keys, expiring values, sets, capped
  newest-first lists and the two chronological traces of a session.  A set is kept as the list
  of its members in insertion order.  The contract of a capped log is a locale; both traces of
  the in-memory cache provide it.
\<close>

subsection \<open>Keys\<close>

definition recent_tools_cap :: nat where "recent_tools_cap = 32"
definition trace_log_cap :: nat where "trace_log_cap = 256"
definition trace_rich_cap :: nat where "trace_rich_cap = 256"

definition key_recent_tools :: "string \<Rightarrow> string" where
  "key_recent_tools sid = ''ag:sess:'' @ sid @ '':recent_tools''"
definition key_labels :: "string \<Rightarrow> string" where
  "key_labels sid = ''ag:sess:'' @ sid @ '':labels''"
definition key_feature :: "string \<Rightarrow> string \<Rightarrow> string" where
  "key_feature sid fk = ''ag:feat:'' @ sid @ '':'' @ fk"
definition key_provenance :: "string \<Rightarrow> string" where
  "key_provenance rid = ''ag:prov:'' @ rid"
definition key_trace_log :: "string \<Rightarrow> string" where
  "key_trace_log sid = ''ag:sess:'' @ sid @ '':trace''"
definition key_trace_rich :: "string \<Rightarrow> string" where
  "key_trace_rich sid = ''ag:sess:'' @ sid @ '':trace_rich''"

lemma session_key_inj [simp]:
  "key_recent_tools a = key_recent_tools b \<longleftrightarrow> a = b" "key_labels a = key_labels b \<longleftrightarrow> a = b"
  "key_trace_log a = key_trace_log b \<longleftrightarrow> a = b" "key_trace_rich a = key_trace_rich b \<longleftrightarrow> a = b"
  "key_labels a \<noteq> key_provenance b"
  by (simp_all add: key_recent_tools_def key_labels_def key_trace_log_def key_trace_rich_def
      key_provenance_def)

subsection \<open>State\<close>

record 'a deque =
  dq_maxlen :: nat
  dq_items :: "'a list"

record state_cache =
  sc_kv :: "(string, string \<times> rat option) dict"
  sc_sets :: "(string, string list) dict"
  sc_lists :: "(string, string deque) dict"
  sc_traces :: "(string, (string \<times> int) deque) dict"
  sc_traces_rich :: "(string, pydict deque) dict"

definition empty_cache :: state_cache where
  "empty_cache = \<lparr>sc_kv = [], sc_sets = [], sc_lists = [], sc_traces = [], sc_traces_rich = []\<rparr>"

text \<open>The deque of a key, created with the default bound and re-bounded to \<open>cap\<close>.\<close>

definition deque_for :: "nat \<Rightarrow> nat \<Rightarrow> (string, 'a deque) dict \<Rightarrow> string \<Rightarrow> 'a deque" where
  "deque_for default_cap cap d key =
     (let dq = dict_getd d key \<lparr>dq_maxlen = default_cap, dq_items = []\<rparr>
      in if dq_maxlen dq \<noteq> cap then \<lparr>dq_maxlen = cap, dq_items = last_n cap (dq_items dq)\<rparr> else dq)"

definition deque_append :: "'a \<Rightarrow> 'a deque \<Rightarrow> 'a deque" where
  "deque_append x dq = dq\<lparr>dq_items := push_right (dq_maxlen dq) (dq_items dq) x\<rparr>"

definition deque_appendleft :: "'a \<Rightarrow> 'a deque \<Rightarrow> 'a deque" where
  "deque_appendleft x dq = dq\<lparr>dq_items := push_left (dq_maxlen dq) x (dq_items dq)\<rparr>"

definition deque_items :: "(string, 'a deque) dict \<Rightarrow> string \<Rightarrow> 'a list" where
  "deque_items d key = (case map_of d key of None \<Rightarrow> [] | Some dq \<Rightarrow> dq_items dq)"

subsection \<open>Operations\<close>

definition cache_get :: "rat \<Rightarrow> string \<Rightarrow> state_cache \<Rightarrow> string option \<times> state_cache" where
  "cache_get now key c =
     (case map_of (sc_kv c) key of
        None \<Rightarrow> (None, c)
      | Some (v, expires_at) \<Rightarrow>
          if (case expires_at of None \<Rightarrow> False | Some t \<Rightarrow> t < now)
          then (None, c\<lparr>sc_kv := dict_pop key (sc_kv c)\<rparr>) else (Some v, c))"

definition cache_set :: "rat \<Rightarrow> string \<Rightarrow> string \<Rightarrow> int option \<Rightarrow> state_cache \<Rightarrow> state_cache" where
  "cache_set now key v ttl_ms c =
     (let expires_at = (case ttl_ms of None \<Rightarrow> None
                        | Some t \<Rightarrow> if t \<noteq> 0 then Some (now + of_int t / 1000) else None)
      in c\<lparr>sc_kv := dict_set key (v, expires_at) (sc_kv c)\<rparr>)"

definition add_missing :: "string list \<Rightarrow> string list \<Rightarrow> string list" where
  "add_missing xs ms = foldl (\<lambda>acc m. if m \<in> set acc then acc else acc @ [m]) xs ms"

definition smembers :: "string \<Rightarrow> state_cache \<Rightarrow> string list" where
  "smembers key c = dict_getd (sc_sets c) key []"

definition sadd :: "string \<Rightarrow> string list \<Rightarrow> state_cache \<Rightarrow> state_cache" where
  "sadd key ms c = c\<lparr>sc_sets := dict_set key (add_missing (smembers key c) ms) (sc_sets c)\<rparr>"

definition lpush_capped :: "string \<Rightarrow> string \<Rightarrow> nat \<Rightarrow> state_cache \<Rightarrow> state_cache" where
  "lpush_capped key v cap c =
     c\<lparr>sc_lists := dict_set key
         (deque_appendleft v (deque_for recent_tools_cap cap (sc_lists c) key)) (sc_lists c)\<rparr>"

definition slice_bound :: "nat \<Rightarrow> int \<Rightarrow> nat" where
  "slice_bound n i = nat (if i < 0 then max 0 (int n + i) else min (int n) i)"

definition py_slice :: "'a list \<Rightarrow> int \<Rightarrow> int \<Rightarrow> 'a list" where
  "py_slice xs lo hi =
     drop (slice_bound (length xs) lo) (take (slice_bound (length xs) hi) xs)"

definition lrange :: "string \<Rightarrow> int \<Rightarrow> int \<Rightarrow> state_cache \<Rightarrow> string list" where
  "lrange key start stop c =
     (let items = deque_items (sc_lists c) key;
          stop' = (if stop < 0 then int (length items) + stop + 1 else stop + 1)
      in if items = [] then [] else py_slice items start stop')"

definition cache_append_trace :: "string \<Rightarrow> string \<times> int \<Rightarrow> nat \<Rightarrow> state_cache \<Rightarrow> state_cache" where
  "cache_append_trace key entry cap c =
     c\<lparr>sc_traces := dict_set key
         (deque_append entry (deque_for trace_log_cap cap (sc_traces c) key)) (sc_traces c)\<rparr>"

definition read_trace :: "string \<Rightarrow> state_cache \<Rightarrow> (string \<times> int) list" where
  "read_trace key c = deque_items (sc_traces c) key"

definition cache_append_trace_rich :: "string \<Rightarrow> pydict \<Rightarrow> nat \<Rightarrow> state_cache \<Rightarrow> state_cache" where
  "cache_append_trace_rich key entry cap c =
     c\<lparr>sc_traces_rich := dict_set key
         (deque_append entry (deque_for trace_rich_cap cap (sc_traces_rich c) key)) (sc_traces_rich c)\<rparr>"

definition read_trace_rich :: "string \<Rightarrow> state_cache \<Rightarrow> pydict list" where
  "read_trace_rich key c = deque_items (sc_traces_rich c) key"

fun json_safe :: "pyval \<Rightarrow> bool" where
  "json_safe (VList xs) = list_all json_safe xs"
| "json_safe (VTuple xs) = list_all json_safe xs"
| "json_safe (VDict d) = list_all (\<lambda>p. json_safe (snd p)) d"
| "json_safe (VSet _) = False"
| "json_safe (VObj _ _) = False"
| "json_safe (VOpaque _) = False"
| "json_safe _ = True"

text \<open>Back-fill the first matching entry of the reversed trace.\<close>

fun update_first :: "('a \<Rightarrow> bool) \<Rightarrow> ('a \<Rightarrow> 'a) \<Rightarrow> 'a list \<Rightarrow> 'a list" where
  "update_first P f [] = []"
| "update_first P f (x # xs) = (if P x then f x # xs else x # update_first P f xs)"

definition update_trace_result_last :: "externals \<Rightarrow> string \<Rightarrow> string \<Rightarrow> pyval \<Rightarrow> state_cache \<Rightarrow> state_cache" where
  "update_trace_result_last E key tool_name result c =
     (case map_of (sc_traces_rich c) key of
        None \<Rightarrow> c
      | Some dq \<Rightarrow>
          (let v = (if json_safe result then result else VStr (py_str E result));
               items = rev (update_first
                 (\<lambda>entry. py_eq (dict_getd entry ''tool'' VNone) (VStr tool_name))
                 (\<lambda>entry. dict_set ''result'' v entry) (rev (dq_items dq)))
           in c\<lparr>sc_traces_rich := dict_set key (dq\<lparr>dq_items := items\<rparr>) (sc_traces_rich c)\<rparr>))"

definition cache_clear :: "state_cache \<Rightarrow> state_cache" where
  "cache_clear c = empty_cache"

datatype cache_backend = InMemoryBackend | RedisBackend string

definition build_state_cache :: "string option \<Rightarrow> cache_backend result" where
  "build_state_cache url =
     (case url of
        None \<Rightarrow> Inr InMemoryBackend
      | Some u \<Rightarrow>
          if u = [] \<or> u \<in> {''memory'', ''in-memory'', ''inmemory''} then Inr InMemoryBackend
          else if starts_with u ''redis://'' \<or> starts_with u ''rediss://'' \<or> starts_with u ''unix://''
            then Inr (RedisBackend u)
          else Inl ValueError)"

subsection \<open>Capped logs\<close>

locale capped_log =
  fixes inv :: "'s \<Rightarrow> bool" and cap :: nat
    and append_log :: "string \<Rightarrow> 'e \<Rightarrow> 's \<Rightarrow> 's" and read_log :: "string \<Rightarrow> 's \<Rightarrow> 'e list"
  assumes inv_append: "inv s \<Longrightarrow> inv (append_log k x s)"
    and read_append: "inv s \<Longrightarrow>
      read_log j (append_log k x s) = (if j = k then push_right cap (read_log k s) x else read_log j s)"
    and read_bound: "inv s \<Longrightarrow> length (read_log k s) \<le> cap"
begin

definition append_all :: "string \<Rightarrow> 'e list \<Rightarrow> 's \<Rightarrow> 's" where
  "append_all k xs s = foldl (\<lambda>s x. append_log k x s) s xs"

lemma inv_append_all: "inv s \<Longrightarrow> inv (append_all k xs s)"
  by (induction xs arbitrary: s) (simp_all add: append_all_def inv_append)

text \<open>A log holds the last \<open>cap\<close> of everything appended under its key.\<close>

lemma read_append_all:
  assumes "inv s"
  shows "read_log j (append_all k xs s) =
     (if j = k then last_n cap (read_log k s @ xs) else read_log j s)"
proof (induction xs rule: rev_induct)
  case Nil
  then show ?case using read_bound [OF assms] by (simp add: append_all_def)
next
  case (snoc x xs)
  have "append_all k (xs @ [x]) s = append_log k x (append_all k xs s)" by (simp add: append_all_def)
  then show ?case
    using snoc inv_append_all [OF assms]
    by (cases "j = k") (simp_all add: read_append push_right_last_n)
qed

lemma last_read_append: "inv s \<Longrightarrow> 0 < cap \<Longrightarrow> last (read_log k (append_log k x s)) = x"
  by (simp add: read_append last_push_right)

end

subsection \<open>Invariant\<close>

definition deques_ok :: "nat \<Rightarrow> (string, 'a deque) dict \<Rightarrow> bool" where
  "deques_ok cap d \<longleftrightarrow>
     (\<forall>k dq. map_of d k = Some dq \<longrightarrow> dq_maxlen dq = cap \<and> length (dq_items dq) \<le> cap)"

definition sets_ok :: "(string, string list) dict \<Rightarrow> bool" where
  "sets_ok d \<longleftrightarrow> (\<forall>k. distinct (dict_getd d k []))"

definition cache_wf :: "state_cache \<Rightarrow> bool" where
  "cache_wf c \<longleftrightarrow> deques_ok recent_tools_cap (sc_lists c) \<and> deques_ok trace_log_cap (sc_traces c) \<and>
     deques_ok trace_rich_cap (sc_traces_rich c) \<and> sets_ok (sc_sets c)"

lemma deque_for_items:
  "deques_ok cap d \<Longrightarrow> dq_items (deque_for cap cap d k) = deque_items d k"
  "deques_ok cap d \<Longrightarrow> dq_maxlen (deque_for cap cap d k) = cap"
  by (auto simp: deques_ok_def deque_for_def deque_items_def dict_getd_def Let_def split: option.splits)

lemma deques_ok_append:
  "deques_ok cap d \<Longrightarrow> deques_ok cap (dict_set k (deque_append x (deque_for cap cap d k)) d)"
  "deques_ok cap d \<Longrightarrow> deques_ok cap (dict_set k (deque_appendleft x (deque_for cap cap d k)) d)"
  using deque_for_items [of cap d k]
  by (auto simp: deques_ok_def deque_append_def deque_appendleft_def length_push_right length_push_left
      simp del: map_of_append split: if_splits)

lemma items_append:
  "deques_ok cap d \<Longrightarrow> deque_items (dict_set k (deque_append x (deque_for cap cap d k)) d) j =
     (if j = k then push_right cap (deque_items d k) x else deque_items d j)"
  "deques_ok cap d \<Longrightarrow> deque_items (dict_set k (deque_appendleft x (deque_for cap cap d k)) d) j =
     (if j = k then push_left cap x (deque_items d k) else deque_items d j)"
  by (simp_all add: deque_items_def [of "dict_set _ _ _"] deque_append_def deque_appendleft_def
      deque_for_items) (simp_all add: deque_items_def)

lemma deque_items_bound: "deques_ok cap d \<Longrightarrow> length (deque_items d k) \<le> cap"
  by (auto simp: deques_ok_def deque_items_def split: option.splits)

lemma set_add_missing [simp]: "set (add_missing xs ms) = set xs \<union> set ms"
  by (induction ms arbitrary: xs) (auto simp: add_missing_def)

lemma distinct_add_missing: "distinct xs \<Longrightarrow> distinct (add_missing xs ms)"
  by (induction ms arbitrary: xs) (auto simp: add_missing_def)

lemma cache_wf_empty [guard_intros]: "cache_wf empty_cache"
  by (simp add: cache_wf_def empty_cache_def deques_ok_def sets_ok_def dict_getd_def)

lemma cache_wf_clear [guard_intros]: "cache_wf (cache_clear c)"
  by (simp add: cache_clear_def cache_wf_empty)

lemma cache_wf_set [guard_intros]: "cache_wf c \<Longrightarrow> cache_wf (cache_set now k v ttl c)"
  by (simp add: cache_wf_def cache_set_def Let_def)

lemma cache_wf_get [guard_intros]: "cache_wf c \<Longrightarrow> cache_wf (snd (cache_get now k c))"
  by (auto simp: cache_wf_def cache_get_def split: option.splits)

lemma cache_wf_sadd [guard_intros]: "cache_wf c \<Longrightarrow> cache_wf (sadd k ms c)"
  by (simp add: cache_wf_def sadd_def smembers_def sets_ok_def dict_getd_def [of "dict_set _ _ _"]
      distinct_add_missing) (simp add: dict_getd_def)

lemma cache_wf_lpush [guard_intros]: "cache_wf c \<Longrightarrow> cache_wf (lpush_capped k v recent_tools_cap c)"
  by (simp add: cache_wf_def lpush_capped_def deques_ok_append)

lemma cache_wf_trace [guard_intros]: "cache_wf c \<Longrightarrow> cache_wf (cache_append_trace k x trace_log_cap c)"
  by (simp add: cache_wf_def cache_append_trace_def deques_ok_append)

lemma cache_wf_rich [guard_intros]:
  "cache_wf c \<Longrightarrow> cache_wf (cache_append_trace_rich k x trace_rich_cap c)"
  by (simp add: cache_wf_def cache_append_trace_rich_def deques_ok_append)

lemma length_update_first [simp]: "length (update_first P f xs) = length xs"
  by (induction xs) auto

lemma cache_wf_update [guard_intros]:
  "cache_wf c \<Longrightarrow> cache_wf (update_trace_result_last E k tool res c)"
  by (auto simp: cache_wf_def update_trace_result_last_def deques_ok_def Let_def split: option.splits)

interpretation tl: capped_log cache_wf trace_log_cap
  "\<lambda>k x c. cache_append_trace k x trace_log_cap c" read_trace
  by unfold_locales
    (simp add: cache_wf_trace,
     auto simp: cache_wf_def cache_append_trace_def read_trace_def items_append deque_items_bound)

interpretation tr: capped_log cache_wf trace_rich_cap
  "\<lambda>k x c. cache_append_trace_rich k x trace_rich_cap c" read_trace_rich
  by unfold_locales
    (simp add: cache_wf_rich,
     auto simp: cache_wf_def cache_append_trace_rich_def read_trace_rich_def items_append
       deque_items_bound)

subsection \<open>What the other operations leave alone\<close>

lemma read_trace_frame [frame_simps]:
  "read_trace k (sadd j ms c) = read_trace k c"
  "read_trace k (lpush_capped j v n c) = read_trace k c"
  "read_trace k (cache_append_trace_rich j x n c) = read_trace k c"
  "read_trace k (update_trace_result_last E j tool res c) = read_trace k c"
  by (simp_all add: read_trace_def sadd_def lpush_capped_def cache_append_trace_rich_def
      update_trace_result_last_def Let_def split: option.splits)

lemma read_trace_rich_frame [frame_simps]:
  "read_trace_rich k (sadd j ms c) = read_trace_rich k c"
  "read_trace_rich k (lpush_capped j v n c) = read_trace_rich k c"
  "read_trace_rich k (cache_append_trace j y n c) = read_trace_rich k c"
  by (simp_all add: read_trace_rich_def sadd_def lpush_capped_def cache_append_trace_def)

lemma smembers_frame [frame_simps]:
  "smembers k (lpush_capped j v n c) = smembers k c"
  "smembers k (cache_append_trace j y n c) = smembers k c"
  "smembers k (cache_append_trace_rich j x n c) = smembers k c"
  "smembers k (update_trace_result_last E j tool res c) = smembers k c"
  by (simp_all add: smembers_def lpush_capped_def cache_append_trace_def cache_append_trace_rich_def
      update_trace_result_last_def Let_def split: option.splits)

lemma smembers_sadd: "set (smembers k (sadd j ms c)) = set (smembers k c) \<union> (if k = j then set ms else {})"
  by (auto simp: smembers_def sadd_def dict_getd_def)

lemma lrange_frame [frame_simps]:
  "lrange k lo hi (sadd j ms c) = lrange k lo hi c"
  "lrange k lo hi (cache_append_trace j y n c) = lrange k lo hi c"
  "lrange k lo hi (cache_append_trace_rich j x n c) = lrange k lo hi c"
  "lrange k lo hi (update_trace_result_last E j tool res c) = lrange k lo hi c"
  by (simp_all add: lrange_def sadd_def cache_append_trace_def cache_append_trace_rich_def
      update_trace_result_last_def Let_def split: option.splits)

text \<open>The end of a range is inclusive: \<open>lrange(k, 0, n)\<close> yields up to \<open>n + 1\<close> elements.\<close>

lemma lrange_prefix:
  "lrange k 0 (int n) c = take (Suc n) (deque_items (sc_lists c) k)"
  by (auto simp: lrange_def py_slice_def slice_bound_def Let_def min_def nat_add_distrib)

lemma lrange_push:
  assumes "cache_wf c" and "n < recent_tools_cap"
  shows "lrange k 0 (int n) (lpush_capped k v recent_tools_cap c) = v # take n (deque_items (sc_lists c) k)"
proof -
  have "deques_ok recent_tools_cap (sc_lists c)" using assms(1) by (simp add: cache_wf_def)
  then show ?thesis
    using assms(2) by (auto simp: lrange_prefix lpush_capped_def items_append push_left_def
        recent_tools_cap_def take_Cons' min_def)
qed

text \<open>A value is returned until its deadline has passed, and forgotten after.\<close>

lemma cache_get_set:
  assumes "0 < ttl"
  shows "fst (cache_get now' k (cache_set now k v (Some ttl) c)) =
     (if now' \<le> now + of_int ttl / 1000 then Some v else None)"
  using assms by (auto simp: cache_get_def cache_set_def Let_def)

lemma cache_get_set_forever: "fst (cache_get now' k (cache_set now k v None c)) = Some v"
  by (simp add: cache_get_def cache_set_def)

end
