(* ===== verification/Graph_Builder.thy ===== *)
theory Graph_Builder
  imports Graph_Store Session_Store
begin

text \<open>
  The asynchronous graph writer (\<open>graph/builder.py\<close>) and the provenance tracker
  (\<open>graph/provenance.py\<close>).  \<open>submit\<close> puts an item on a bounded queue and drops it when the queue
  is full; the worker takes items in order and writes nodes, edges, session labels and the
  recent-tool list.
\<close>

subsection \<open>Writing one item\<close>

type_synonym graph_cache = "graph_store \<times> state_cache"

definition agent_props :: "principal \<Rightarrow> pydict" where
  "agent_props p =
     [(''role'', VStr (p_role p)), (''trust_level'', VInt (p_trust_level p)),
      (''parent_id'', of_option VStr (p_parent_agent_id p)),
      (''user_id'', of_option VStr (p_user_id p))]"

definition write_agent :: "principal \<Rightarrow> graph_store \<Rightarrow> graph_store" where
  "write_agent p g =
     (let g1 = upsert_node AGENT (p_agent_id p) (agent_props p) g in
      case p_parent_agent_id p of
        Some parent \<Rightarrow>
          if parent \<noteq> [] then upsert_edge SPAWNED (AGENT, parent) (AGENT, p_agent_id p) [] g1 else g1
      | None \<Rightarrow> g1)"

definition write_ref :: "string \<Rightarrow> string \<Rightarrow> graph_cache \<Rightarrow> provenance_ref \<Rightarrow> graph_cache" where
  "write_ref event_id session_id gc ref =
     (let (g, c) = gc;
          g1 = upsert_node RESOURCE (pr_node_id ref)
                 [(''labels'', VList [VStr (pr_label ref)]), (''kind'', VStr ''derived'')] g;
          g2 = upsert_edge READ_FROM (TOOL_CALL, event_id) (RESOURCE, pr_node_id ref) [] g1;
          c1 = sadd (key_labels session_id) [pr_label ref] c;
          g3 = (case pr_parent_tool_call_id ref of
                  Some parent \<Rightarrow>
                    if parent \<noteq> []
                    then upsert_edge DERIVED_FROM (TOOL_CALL, event_id) (TOOL_CALL, parent) [] g2 else g2
                | None \<Rightarrow> g2)
      in (g3, c1))"

definition call_props :: "tool_call \<Rightarrow> runtime_event \<Rightarrow> decision option \<Rightarrow> pydict" where
  "call_props tc event dec =
     [(''tool_name'', VStr (tc_tool_name tc)), (''ts_ms'', VInt (ev_ts_ms event)),
      (''action'', VStr (case dec of Some d \<Rightarrow> action_value (d_action d) | None \<Rightarrow> ''allow'')),
      (''risk'', VFloat (case dec of Some d \<Rightarrow> d_risk_score d | None \<Rightarrow> 0)),
      (''sink_type'', VStr (sink_type_value (tc_sink_type tc)))]"

definition write_tool_call ::
  "tool_call \<Rightarrow> runtime_event \<Rightarrow> decision option \<Rightarrow> graph_cache \<Rightarrow> graph_cache" where
  "write_tool_call tc event dec gc =
     (let p = ev_principal event; eid = ev_event_id event; (g, c) = gc;
          g1 = upsert_node TOOL_CALL eid (call_props tc event dec) g;
          g2 = upsert_edge INVOKED (AGENT, p_agent_id p) (TOOL_CALL, eid) [] g1;
          (g3, c3) = foldl (write_ref eid (p_session_id p)) (g2, c) (ev_provenance_refs event);
          c4 = lpush_capped (key_recent_tools (p_session_id p)) (tc_tool_name tc) recent_tools_cap c3
      in case ev_goal event of
           Some goal \<Rightarrow>
             if goal \<noteq> [] then
               (let gid = p_session_id p @ '':goal'';
                    g4 = upsert_node GOAL gid
                           [(''text'', VStr goal), (''session_id'', VStr (p_session_id p))] g3
                in (upsert_edge UNDER_GOAL (TOOL_CALL, eid) (GOAL, gid) [] g4, c4))
             else (g3, c4)
         | None \<Rightarrow> (g3, c4))"

definition result_props :: "tool_call \<Rightarrow> runtime_event \<Rightarrow> decision option \<Rightarrow> pydict" where
  "result_props tc event dec =
     [(''tool_name'', VStr (tc_tool_name tc)), (''ts_ms'', VInt (ev_ts_ms event)),
      (''action'', VStr ''result''),
      (''risk'', VFloat (case dec of Some d \<Rightarrow> d_risk_score d | None \<Rightarrow> 0))]"

definition graph_write :: "runtime_event \<times> decision option \<Rightarrow> graph_cache \<Rightarrow> graph_cache" where
  "graph_write item gc =
     (let (event, dec) = item; (g, c) = gc; g1 = write_agent (ev_principal event) g in
      case ev_tool_call event of
        None \<Rightarrow> (g1, c)
      | Some tc \<Rightarrow>
          if ev_event_type event \<in> {TOOL_CALL_ATTEMPT, TOOL_CALL_REQUESTED}
          then write_tool_call tc event dec (g1, c)
          else if ev_event_type event \<in> {TOOL_CALL_RESULT, TOOL_CALL_COMPLETED}
          then (upsert_node TOOL_CALL (ev_event_id event) (result_props tc event dec) g1, c)
          else (g1, c))"

subsection \<open>The queue\<close>

record graph_writer =
  gw_capacity :: nat
  gw_queue :: "(runtime_event \<times> decision option) list"
  gw_target :: graph_cache

definition gw_submit :: "runtime_event \<Rightarrow> decision option \<Rightarrow> graph_writer \<Rightarrow> graph_writer" where
  "gw_submit event dec w =
     (if length (gw_queue w) < gw_capacity w then w\<lparr>gw_queue := gw_queue w @ [(event, dec)]\<rparr> else w)"

definition gw_step :: "graph_writer \<Rightarrow> graph_writer" where
  "gw_step w =
     (case gw_queue w of
        [] \<Rightarrow> w | item # rest \<Rightarrow> w\<lparr>gw_queue := rest, gw_target := graph_write item (gw_target w)\<rparr>)"

text \<open>\<open>flush\<close> waits until every queued item is written.\<close>

definition gw_flush :: "graph_writer \<Rightarrow> graph_writer" where
  "gw_flush w = (gw_step ^^ length (gw_queue w)) w"

subsection \<open>Provenance tracker\<close>

definition provenance_tag :: "string \<Rightarrow> string \<Rightarrow> string list \<Rightarrow> state_cache \<Rightarrow> state_cache" where
  "provenance_tag session_id resource_id labels c =
     (if labels = [] then c
      else sadd (key_labels session_id) labels (sadd (key_provenance resource_id) labels c))"

definition labels_for :: "string \<Rightarrow> state_cache \<Rightarrow> string set" where
  "labels_for resource_id c = set (smembers (key_provenance resource_id) c)"

definition session_labels :: "string \<Rightarrow> state_cache \<Rightarrow> string set" where
  "session_labels session_id c = set (smembers (key_labels session_id) c)"

lemma session_labels_tag:
  "session_labels s (provenance_tag s r labels c) = session_labels s c \<union> set labels"
  "labels_for r (provenance_tag s r labels c) = labels_for r c \<union> set labels"
  by (auto simp: provenance_tag_def session_labels_def labels_for_def smembers_sadd)

subsection \<open>What a write records\<close>

lemma prop_lists [simp]:
  "labels_are_lists (agent_props p)" "labels_are_lists (call_props tc ev dec)"
  "labels_are_lists (result_props tc ev dec)"
  "labels_are_lists [(''text'', VStr a), (''session_id'', VStr b)]"
  "labels_are_lists [(''labels'', VList [VStr l]), (''kind'', VStr k)]"
  by (auto simp: labels_are_lists_def agent_props_def call_props_def result_props_def
      intro!: exI [of _ "[l]"])

lemmas graph_le_steps = graph_le_trans [OF _ graph_le_upsert_node] graph_le_trans [OF _ graph_le_upsert_edge]

definition grows :: "graph_store \<Rightarrow> graph_store \<Rightarrow> bool" where
  "grows g h \<longleftrightarrow> (graph_ok g \<longrightarrow> graph_ok h \<and> graph_le g h)"

lemma grows_refl [simp]: "grows g g"
  by (simp add: grows_def)

lemma grows_trans: "grows g h \<Longrightarrow> grows h k \<Longrightarrow> grows g k"
  by (auto simp: grows_def intro: graph_le_trans)

lemma grows_node: "labels_are_lists props \<Longrightarrow> grows g (upsert_node t i props g)"
  by (simp add: grows_def graph_ok_upsert_node graph_le_upsert_node)

lemma grows_edge: "grows g (upsert_edge t a b props g)"
  by (simp add: grows_def graph_ok_upsert_edge graph_le_upsert_edge)

lemma grows_node_step: "grows g h \<Longrightarrow> labels_are_lists props \<Longrightarrow> grows g (upsert_node t i props h)"
  using grows_trans grows_node by blast

lemma grows_edge_step: "grows g h \<Longrightarrow> grows g (upsert_edge t a b props h)"
  using grows_trans grows_edge by blast

lemma grows_write_agent: "grows g (write_agent p g)"
  by (auto simp: write_agent_def Let_def intro!: grows_edge_step grows_node split: option.splits)

lemma grows_write_ref: "grows (fst gc) (fst (write_ref eid sid gc ref))"
  by (cases gc)
    (auto simp: write_ref_def Let_def intro!: grows_edge_step grows_node_step split: option.splits)

lemma grows_foldl:
  assumes "\<And>gc x. grows (fst gc) (fst (f gc x))"
  shows "grows (fst gc) (fst (foldl f gc xs))"
proof (induction xs arbitrary: gc)
  case (Cons x xs)
  have "grows (fst gc) (fst (f gc x))" by (rule assms)
  then show ?case using grows_trans [OF _ Cons.IH [of "f gc x"]] by simp
qed simp

lemma grows_write_refs: "grows (fst gc) (fst (foldl (write_ref eid sid) gc refs))"
  by (intro grows_foldl grows_write_ref)

text \<open>The graph after the tool-call node and edge, before the references.\<close>

definition call_start :: "tool_call \<Rightarrow> runtime_event \<Rightarrow> decision option \<Rightarrow> graph_store \<Rightarrow> graph_store" where
  "call_start tc event dec g =
     upsert_edge INVOKED (AGENT, p_agent_id (ev_principal event)) (TOOL_CALL, ev_event_id event) []
       (upsert_node TOOL_CALL (ev_event_id event) (call_props tc event dec) g)"

definition write_refs :: "runtime_event \<Rightarrow> graph_cache \<Rightarrow> graph_cache" where
  "write_refs event gc =
     foldl (write_ref (ev_event_id event) (p_session_id (ev_principal event))) gc
       (ev_provenance_refs event)"

lemma grows_write_tool_call_refs:
  "grows (fst (write_refs event (call_start tc event dec g, c))) (fst (write_tool_call tc event dec (g, c)))"
  by (auto simp: write_tool_call_def write_refs_def call_start_def Let_def
      intro!: grows_edge_step grows_node_step split: option.splits prod.splits)

lemma grows_call_start: "grows g (call_start tc event dec g)"
  by (simp add: call_start_def grows_edge_step grows_node)

lemma grows_write_tool_call: "grows g (fst (write_tool_call tc event dec (g, c)))"
proof -
  have "grows g (fst (write_refs event (call_start tc event dec g, c)))"
    using grows_trans [OF grows_call_start] grows_write_refs
    unfolding write_refs_def by (metis fst_conv)
  then show ?thesis using grows_write_tool_call_refs grows_trans by blast
qed

lemma grows_graph_write: "grows (fst gc) (fst (graph_write item gc))"
proof -
  obtain g c event dec where "gc = (g, c)" "item = (event, dec)" by (metis surj_pair)
  then show ?thesis
    using grows_trans [OF grows_write_agent grows_write_tool_call]
    by (auto simp: graph_write_def Let_def intro!: grows_node_step grows_write_agent
        split: option.splits)
qed

text \<open>A reference's resource is one data-flow edge from the call, and carries the label.\<close>

lemma write_ref_flow:
  assumes "graph_ok (fst gc)"
  shows "(RESOURCE, pr_node_id ref) \<in> flow_succ (fst (write_ref eid sid gc ref)) (TOOL_CALL, eid)"
    and "VStr (pr_label ref) \<in> set (node_labels (fst (write_ref eid sid gc ref)) (RESOURCE, pr_node_id ref))"
proof -
  obtain g c where gc: "gc = (g, c)" by (cases gc)
  have ok: "graph_ok g" using assms by (simp add: gc)
  have nl: "new_labels [(''labels'', VList [VStr (pr_label ref)]), (''kind'', VStr ''derived'')] = {pr_label ref}"
    by (auto simp: new_labels_def)
  show "(RESOURCE, pr_node_id ref) \<in> flow_succ (fst (write_ref eid sid gc ref)) (TOOL_CALL, eid)"
    by (auto simp: gc write_ref_def Let_def flow_succ_upsert_edge split: option.splits)
  show "VStr (pr_label ref) \<in> set (node_labels (fst (write_ref eid sid gc ref)) (RESOURCE, pr_node_id ref))"
    by (auto simp: gc write_ref_def Let_def node_labels_upsert_node [OF ok] nl split: option.splits)
qed

lemma write_refs_flow:
  assumes "graph_ok (fst gc)" and "ref \<in> set refs"
  shows "(RESOURCE, pr_node_id ref) \<in> flow_succ (fst (foldl (write_ref eid sid) gc refs)) (TOOL_CALL, eid) \<and>
     VStr (pr_label ref) \<in> set (node_labels (fst (foldl (write_ref eid sid) gc refs)) (RESOURCE, pr_node_id ref))"
  using assms
proof (induction refs arbitrary: gc)
  case (Cons r refs)
  have ok: "graph_ok (fst (write_ref eid sid gc r))"
    using grows_write_ref [of gc] Cons.prems(1) by (simp add: grows_def)
  show ?case
  proof (cases "ref \<in> set refs")
    case True
    with Cons.IH [OF ok] show ?thesis by simp
  next
    case False
    with Cons.prems have "ref = r" by simp
    moreover have "graph_le (fst (write_ref eid sid gc r)) (fst (foldl (write_ref eid sid) (write_ref eid sid gc r) refs))"
      using grows_write_refs [of "write_ref eid sid gc r"] ok by (simp add: grows_def)
    ultimately show ?thesis
      using write_ref_flow [OF Cons.prems(1), of r] unfolding graph_le_def foldl_Cons by blast
  qed
qed simp

lemma tainted_label:
  assumes "VStr lbl \<in> set (node_labels g (RESOURCE, r))" and "\<not> ends_with lbl ''*''"
  shows "tainted [normalize_label lbl] g (RESOURCE, r)"
proof -
  have "\<not> ends_with lbl ''/*''"
    using assms(2) by (auto simp: ends_with_iff)
  then have "normalize_label lbl = (lbl, False)" using assms(2) by (simp add: normalize_label_def)
  moreover have "graph_label_match (lbl, False) (VStr lbl)" by (simp add: graph_label_match_def)
  ultimately show ?thesis using assms(1) unfolding tainted_def list_ex_iff by force
qed

text \<open>Writing an attempt makes every label it declares reachable from its own node.\<close>

lemma graph_write_reaches:
  assumes "graph_ok (fst gc)" and "ev_tool_call event = Some tc"
    and "ev_event_type event \<in> {TOOL_CALL_ATTEMPT, TOOL_CALL_REQUESTED}"
    and "ref \<in> set (ev_provenance_refs event)" and "\<not> ends_with (pr_label ref) ''*''" and "1 \<le> hops"
  shows "exists_path_to_sink (ev_event_id event) [pr_label ref] hops (fst (graph_write (event, dec) gc))"
proof -
  obtain g c where gc: "gc = (g, c)" by (cases gc)
  define g1 where "g1 = call_start tc event dec (write_agent (ev_principal event) g)"
  define h where "h = fst (write_refs event (g1, c))"
  have ok: "graph_ok g1"
    using assms(1) grows_write_agent grows_call_start by (simp add: gc g1_def grows_def)
  have final: "graph_le h (fst (graph_write (event, dec) gc))"
    using assms(2,3) ok grows_write_refs [of "(g1, c)"]
      grows_write_tool_call_refs [of event tc dec "write_agent (ev_principal event) g" c]
    by (auto simp: graph_write_def gc grows_def h_def g1_def write_refs_def)
  have "(RESOURCE, pr_node_id ref) \<in> flow_succ h (TOOL_CALL, ev_event_id event)"
    "VStr (pr_label ref) \<in> set (node_labels h (RESOURCE, pr_node_id ref))"
    using write_refs_flow [of "(g1, c)" ref "ev_provenance_refs event"] ok assms(4)
    by (auto simp: h_def write_refs_def)
  then have "exists_path_to_sink (ev_event_id event) [pr_label ref] hops h"
    unfolding exists_path_correct using assms(5,6) tainted_label
    by (intro exI [of _ 1] exI [of _ "(RESOURCE, pr_node_id ref)"]) (simp add: flow_rel_def)
  with final show ?thesis by (rule exists_path_mono)
qed

subsection \<open>The queue keeps order and drops only when full\<close>

lemma gw_flush_target:
  "gw_target (gw_flush w) = foldl (\<lambda>gc item. graph_write item gc) (gw_target w) (gw_queue w) \<and>
   gw_queue (gw_flush w) = []"
proof -
  have "gw_target ((gw_step ^^ length q) w) = foldl (\<lambda>gc item. graph_write item gc) (gw_target w) q \<and>
      gw_queue ((gw_step ^^ length q) w) = rest" if "gw_queue w = q @ rest" for q rest and w
    using that
  proof (induction q arbitrary: w)
    case (Cons item q)
    then have "gw_queue (gw_step w) = q @ rest" "gw_target (gw_step w) = graph_write item (gw_target w)"
      by (simp_all add: gw_step_def)
    with Cons.IH [of "gw_step w"] show ?case by (simp add: funpow_swap1)
  qed simp
  from this [of w "gw_queue w" "[]"] show ?thesis by (simp add: gw_flush_def)
qed

lemma gw_submit_queue:
  "gw_queue (gw_submit ev dec w) =
     (if length (gw_queue w) < gw_capacity w then gw_queue w @ [(ev, dec)] else gw_queue w)"
  by (simp add: gw_submit_def)

lemma gw_flush_grows: "grows (fst (gw_target w)) (fst (gw_target (gw_flush w)))"
proof -
  have "grows (fst gc) (fst (foldl (\<lambda>gc item. graph_write item gc) gc items))" for gc items
    by (intro grows_foldl grows_graph_write)
  then show ?thesis using gw_flush_target by simp
qed

end
