(* ===== verification/Enrichment.thy ===== *)
theory Enrichment
  imports Rule_Compiler Graph_Builder
begin

text \<open>
  Event enrichment and the feature dictionary (\<open>runtime/enrichment.py\<close>): cached session state is
  copied into \<open>event.extra\<close>, provenance labels are persisted, EXISTS_PATH features are computed
  from the graph with a fallback to the session's labels, and traces are appended.
\<close>

subsection \<open>Enrichment\<close>

definition trace_pairs :: "(string \<times> int) list \<Rightarrow> pyval" where
  "trace_pairs tr = VList (map (\<lambda>(t, ts). VTuple [VStr t, VInt ts]) tr)"

definition trace_tools :: "(string \<times> int) list \<Rightarrow> pyval" where
  "trace_tools tr = VList (map (VStr \<circ> fst) tr)"

definition rich_entries :: "pydict list \<Rightarrow> pyval" where
  "rich_entries tr = VList (map VDict tr)"

text \<open>
  The label list is stored in \<open>extras\<close> before the loop over the references extends it; both
  names denote one list object, so the stored list is the extended one.
\<close>

definition labels_with_refs :: "runtime_event \<Rightarrow> string list \<Rightarrow> string list" where
  "labels_with_refs event labels = add_missing labels (map pr_label (ev_provenance_refs event))"

definition persist_ref_labels :: "runtime_event \<Rightarrow> state_cache \<Rightarrow> state_cache" where
  "persist_ref_labels event c =
     foldl (\<lambda>c ref. sadd (key_labels (p_session_id (ev_principal event))) [pr_label ref] c) c
       (ev_provenance_refs event)"

definition enrich_event :: "runtime_event \<Rightarrow> state_cache \<Rightarrow> runtime_event \<times> state_cache" where
  "enrich_event event c =
     (let sid = p_session_id (ev_principal event);
          recent = lrange (key_recent_tools sid) 0 8 c;
          labels = smembers (key_labels sid) c;
          trace_log = read_trace (key_trace_log sid) c;
          trace_rich = read_trace_rich (key_trace_rich sid) c;
          x1 = dict_set ''recent_tools'' (VList (map VStr recent)) (ev_extra event);
          x2 = dict_set ''session_labels'' (VList (map VStr (labels_with_refs event labels))) x1;
          x3 = dict_set ''trace_log'' (trace_pairs trace_log) x2;
          x4 = dict_set ''trace_sequence'' (trace_tools trace_log) x3;
          x5 = dict_set ''trace_rich'' (rich_entries trace_rich) x4
      in (event\<lparr>ev_extra := x5\<rparr>, persist_ref_labels event c))"

subsection \<open>Features\<close>

fun allowlist_features :: "pydict \<Rightarrow> pydict \<Rightarrow> pydict result" where
  "allowlist_features [] f = Inr f"
| "allowlist_features ((k, v) # rest) f =
     ebind (case v of VList xs \<Rightarrow> py_set_of xs | VTuple xs \<Rightarrow> py_set_of xs | _ \<Rightarrow> Inr v) (\<lambda>value.
       let f1 = dict_set k value f
       in allowlist_features rest
            (if starts_with k ''allowlist.'' then f1 else dict_set (''allowlist.'' @ k) value f1))"

definition set_flags :: "(string \<Rightarrow> string) \<Rightarrow> string list \<Rightarrow> pydict \<Rightarrow> pydict" where
  "set_flags key xs f = foldl (\<lambda>f x. dict_set (key x) (VBool True) f) f xs"

definition feature_session_label :: "string \<Rightarrow> string" where
  "feature_session_label l = ''session.label.'' @ l"

definition feature_recent_tool :: "string \<Rightarrow> string" where
  "feature_recent_tool t = ''recent.tool.'' @ t"

definition path_hit :: "graph_store \<Rightarrow> string \<Rightarrow> string list \<Rightarrow> path_spec \<Rightarrow> bool" where
  "path_hit g event_id labels ps \<longleftrightarrow>
     exists_path_to_sink event_id (ps_source_labels ps) (ps_max_hops ps) g \<or>
     list_ex (\<lambda>lbl. list_ex (\<lambda>pat. label_matches pat lbl) (ps_source_labels ps)) labels"

text \<open>A key that is already present is not computed again.\<close>

definition path_feature ::
  "graph_store \<Rightarrow> string \<Rightarrow> string list \<Rightarrow> pydict \<Rightarrow> path_spec \<Rightarrow> pydict" where
  "path_feature g event_id labels f ps =
     (if map_of f (ps_feature_key ps) \<noteq> None then f
      else dict_set (ps_feature_key ps) (VBool (path_hit g event_id labels ps)) f)"

definition tool_tags :: "tool_call \<Rightarrow> pyval list result" where
  "tool_tags tc =
     (if lb_tags (tc_label tc) \<noteq> [] then Inr (map VStr (lb_tags (tc_label tc)))
      else py_iter (py_or (py_or (dict_getd (tc_target tc) ''tags'' VNone)
                     (dict_getd (tc_target tc) ''tool_tags'' VNone)) (VList [])))"

definition tool_features :: "runtime_event \<Rightarrow> pydict \<Rightarrow> pydict result" where
  "tool_features event f =
     (case ev_tool_call event of
        None \<Rightarrow> Inr f
      | Some tc \<Rightarrow>
          (let f1 = dict_set ''tool.boundary'' (VStr (boundary_value (lb_boundary (tc_label tc)))) f;
               f2 = dict_set ''tool.sensitivity'' (VStr (sensitivity_value (lb_sensitivity (tc_label tc)))) f1;
               f3 = dict_set ''tool.integrity'' (VStr (integrity_value (lb_integrity (tc_label tc)))) f2
           in ebind (tool_tags tc) (\<lambda>tags.
                Inr (if tags = [] then f3 else dict_set ''tool.tags'' (VList tags) f3))))"

definition trace_features :: "runtime_event \<Rightarrow> state_cache \<Rightarrow> pydict \<Rightarrow> pydict" where
  "trace_features event c f =
     (let sid = p_session_id (ev_principal event);
          recent = lrange (key_recent_tools sid) 0 16 c;
          trace_log = read_trace (key_trace_log sid) c;
          f1 = set_flags feature_recent_tool recent
                 (dict_set ''session.previous_tools'' (VList (map VStr recent)) f);
          f2 = dict_set ''session.trace_log'' (trace_pairs trace_log) f1;
          f3 = dict_set ''session.trace_sequence'' (trace_tools trace_log) f2;
          f4 = dict_set ''session.trace_rich'' (rich_entries (read_trace_rich (key_trace_rich sid) c)) f3
      in dict_set ''caller.scopes'' (VList (map VStr (ev_scope event))) f4)"

definition session_label_list :: "runtime_event \<Rightarrow> state_cache \<Rightarrow> string list" where
  "session_label_list event c =
     labels_with_refs event (smembers (key_labels (p_session_id (ev_principal event))) c)"

definition label_features :: "string list \<Rightarrow> pydict \<Rightarrow> pydict" where
  "label_features labels f =
     set_flags feature_session_label labels
       (dict_set ''input.labels'' (VList (map VStr labels))
         (dict_set ''session.labels'' (VList (map VStr labels)) f))"

definition compute_fast_features ::
  "runtime_event \<Rightarrow> state_cache \<Rightarrow> graph_store \<Rightarrow> compiled_rule list \<Rightarrow> pydict \<Rightarrow> pydict result" where
  "compute_fast_features event c g rules allowlists =
     ebind (allowlist_features allowlists []) (\<lambda>f0.
       let labels = session_label_list event c;
           f1 = label_features labels f0;
           f2 = foldl (path_feature g (ev_event_id event) labels) f1 (concat (map cr_path_specs rules))
       in tool_features event (trace_features event c f2))"

subsection \<open>Traces\<close>

definition rich_entry :: "tool_call \<Rightarrow> int \<Rightarrow> pydict" where
  "rich_entry tc ts =
     [(''tool'', VStr (tc_tool_name tc)), (''args'', VDict (tc_args tc)), (''result'', VNone),
      (''ts_ms'', VInt ts), (''label'', label_dict (tc_label tc))]"

definition append_trace :: "runtime_event \<Rightarrow> state_cache \<Rightarrow> state_cache" where
  "append_trace event c =
     (case ev_tool_call event of
        None \<Rightarrow> c
      | Some tc \<Rightarrow>
          (let sid = p_session_id (ev_principal event);
               c1 = cache_append_trace (key_trace_log sid) (tc_tool_name tc, ev_ts_ms event) trace_log_cap c
           in cache_append_trace_rich (key_trace_rich sid) (rich_entry tc (ev_ts_ms event))
                trace_rich_cap c1))"

definition update_trace_result :: "externals \<Rightarrow> runtime_event \<Rightarrow> pyval \<Rightarrow> state_cache \<Rightarrow> state_cache" where
  "update_trace_result E event result c =
     (case ev_tool_call event of
        None \<Rightarrow> c
      | Some tc \<Rightarrow>
          update_trace_result_last E (key_trace_rich (p_session_id (ev_principal event)))
            (tc_tool_name tc) result c)"

subsection \<open>Lemmas\<close>

lemma rich_entry_trace_entry: "VDict (rich_entry tc ts) = trace_entry tc ts"
  by (simp add: rich_entry_def trace_entry_def)

lemma cache_wf_persist [guard_intros]: "cache_wf c \<Longrightarrow> cache_wf (persist_ref_labels event c)"
proof -
  have "cache_wf c \<Longrightarrow> cache_wf (foldl (\<lambda>c ref. sadd k [pr_label ref] c) c refs)"
    for k and refs :: "provenance_ref list"
    by (induction refs arbitrary: c) (simp_all add: cache_wf_sadd)
  then show "cache_wf c \<Longrightarrow> cache_wf (persist_ref_labels event c)" by (simp add: persist_ref_labels_def)
qed

lemma cache_wf_enrich [guard_intros]: "cache_wf c \<Longrightarrow> cache_wf (snd (enrich_event event c))"
  by (simp add: enrich_event_def Let_def cache_wf_persist)

lemma cache_wf_append_trace [guard_intros]: "cache_wf c \<Longrightarrow> cache_wf (append_trace event c)"
  by (simp add: append_trace_def Let_def cache_wf_trace cache_wf_rich split: option.splits)

lemma cache_wf_update_trace [guard_intros]: "cache_wf c \<Longrightarrow> cache_wf (update_trace_result E event res c)"
  by (simp add: update_trace_result_def cache_wf_update split: option.splits)

lemma enrich_event_same:
  "ev_tool_call (fst (enrich_event ev c)) = ev_tool_call ev"
  "ev_principal (fst (enrich_event ev c)) = ev_principal ev"
  "ev_event_type (fst (enrich_event ev c)) = ev_event_type ev"
  "ev_event_id (fst (enrich_event ev c)) = ev_event_id ev"
  "ev_provenance_refs (fst (enrich_event ev c)) = ev_provenance_refs ev"
  "ev_ts_ms (fst (enrich_event ev c)) = ev_ts_ms ev"
  "ev_scope (fst (enrich_event ev c)) = ev_scope ev"
  by (simp_all add: enrich_event_def Let_def)

lemma session_labels_persist:
  "session_labels sid (persist_ref_labels ev c) =
     session_labels sid c \<union>
     (if sid = p_session_id (ev_principal ev) then pr_label ` set (ev_provenance_refs ev) else {})"
proof -
  have "session_labels sid (foldl (\<lambda>c ref. sadd (key_labels s) [pr_label ref] c) c refs) =
      session_labels sid c \<union> (if sid = s then pr_label ` set refs else {})"
    for s and refs :: "provenance_ref list" and c
    by (induction refs arbitrary: c) (auto simp: session_labels_def smembers_sadd)
  then show ?thesis by (simp add: persist_ref_labels_def)
qed

text \<open>Once enriched, the labels of the references are in every later view of the session.\<close>

lemma session_label_list_set:
  "set (session_label_list ev c) =
     session_labels (p_session_id (ev_principal ev)) c \<union> pr_label ` set (ev_provenance_refs ev)"
  by (simp add: session_label_list_def labels_with_refs_def session_labels_def)

lemma map_of_set_flags:
  "map_of (set_flags key xs f) k = (if k \<in> key ` set xs then Some (VBool True) else map_of f k)"
  by (induction xs arbitrary: f) (auto simp: set_flags_def)

lemma path_feature_keep:
  "map_of f k = Some v \<Longrightarrow> map_of (path_feature g eid labels f ps) k = Some v"
  by (auto simp: path_feature_def)

lemma path_features_keep:
  "map_of f k = Some v \<Longrightarrow> map_of (foldl (path_feature g eid labels) f specs) k = Some v"
  by (induction specs arbitrary: f) (simp_all add: path_feature_keep)

lemma path_features_other:
  "k \<notin> ps_feature_key ` set specs \<Longrightarrow>
     map_of (foldl (path_feature g eid labels) f specs) k = map_of f k"
  by (induction specs arbitrary: f) (auto simp: path_feature_def)

text \<open>The first specification of a key decides its feature.\<close>

lemma path_features_first:
  assumes "map_of f k = None"
  shows "map_of (foldl (path_feature g eid labels) f specs) k =
     map_option (\<lambda>ps. VBool (path_hit g eid labels ps)) (find (\<lambda>ps. ps_feature_key ps = k) specs)"
  using assms
proof (induction specs arbitrary: f)
  case (Cons ps specs)
  show ?case
  proof (cases "ps_feature_key ps = k")
    case True
    with Cons.prems have "map_of (path_feature g eid labels f ps) k = Some (VBool (path_hit g eid labels ps))"
      by (simp add: path_feature_def)
    with True show ?thesis by (simp add: path_features_keep)
  next
    case False
    with Cons show ?thesis by (simp add: path_feature_def)
  qed
qed simp

lemma read_trace_append_trace:
  assumes "cache_wf c" and "ev_tool_call ev = Some tc"
  shows "read_trace (key_trace_log sid) (append_trace ev c) =
     (if sid = p_session_id (ev_principal ev)
      then push_right trace_log_cap (read_trace (key_trace_log sid) c) (tc_tool_name tc, ev_ts_ms ev)
      else read_trace (key_trace_log sid) c)"
  using assms(2) tl.read_append [OF assms(1)]
  by (auto simp: append_trace_def Let_def read_trace_frame)

lemma read_rich_append_trace:
  assumes "cache_wf c" and "ev_tool_call ev = Some tc"
  shows "read_trace_rich (key_trace_rich sid) (append_trace ev c) =
     (if sid = p_session_id (ev_principal ev)
      then push_right trace_rich_cap (read_trace_rich (key_trace_rich sid) c) (rich_entry tc (ev_ts_ms ev))
      else read_trace_rich (key_trace_rich sid) c)"
  using assms(2) tr.read_append [OF cache_wf_trace [OF assms(1)]]
  by (auto simp: append_trace_def Let_def read_trace_rich_frame)

lemma read_trace_persist [frame_simps]:
  "read_trace k (persist_ref_labels ev c) = read_trace k c"
  "read_trace_rich k (persist_ref_labels ev c) = read_trace_rich k c"
proof -
  have "read_trace k (foldl (\<lambda>c ref. sadd j [pr_label ref] c) c refs) = read_trace k c \<and>
      read_trace_rich k (foldl (\<lambda>c ref. sadd j [pr_label ref] c) c refs) = read_trace_rich k c"
    for j and refs :: "provenance_ref list"
    by (induction refs arbitrary: c) (simp_all add: read_trace_frame read_trace_rich_frame)
  then show "read_trace k (persist_ref_labels ev c) = read_trace k c"
    "read_trace_rich k (persist_ref_labels ev c) = read_trace_rich k c"
    by (simp_all add: persist_ref_labels_def)
qed

end
