(* ===== verification/Degrade.thy ===== *)
theory Degrade
  imports Events
begin

text \<open>
  Degradation: the rewrite profiles (\<open>degrade/variants.py\<close>), field redaction
  (\<open>degrade/redaction.py\<close>) and the obligations executed around a tool call
  (\<open>degrade/transformers.py\<close>).  The clock is an argument.  The sliding-window rate limit is shown
  to bound the calls in every window of time.
\<close>

subsection \<open>Numbers in strings\<close>

text \<open>
  \<open>int(s)\<close> and \<open>float(s)\<close> on decimal text with surrounding blanks; the spellings with
  underscores, infinities and NaN are not covered.
\<close>

definition split_sign :: "string \<Rightarrow> bool \<times> string" where
  "split_sign s =
     (if s \<noteq> [] \<and> hd s = CHR ''-'' then (True, tl s)
      else if s \<noteq> [] \<and> hd s = CHR ''+'' then (False, tl s) else (False, s))"

definition py_int_of_str :: "string \<Rightarrow> int option" where
  "py_int_of_str raw =
     (let (neg, digits) = split_sign (str_strip raw)
      in if digits \<noteq> [] \<and> list_all is_digit digits
         then Some ((if neg then -1 else 1) * int (nat_of_digits digits)) else None)"

definition frac_value :: "string \<Rightarrow> string \<Rightarrow> rat" where
  "frac_value whole decs = of_nat (nat_of_digits (whole @ decs)) / 10 ^ length decs"

definition parse_exponent :: "string \<Rightarrow> int option" where
  "parse_exponent s =
     (case s of
        [] \<Rightarrow> Some 0
      | c # rest \<Rightarrow>
          if c = CHR ''e'' \<or> c = CHR ''E'' then
            (let (neg, digits) = split_sign rest
             in if digits \<noteq> [] \<and> list_all is_digit digits
                then Some ((if neg then -1 else 1) * int (nat_of_digits digits)) else None)
          else None)"

definition scale10 :: "rat \<Rightarrow> int \<Rightarrow> rat" where
  "scale10 r e = (if 0 \<le> e then r * 10 ^ nat e else r / 10 ^ nat (- e))"

definition py_float_of_str :: "string \<Rightarrow> rat option" where
  "py_float_of_str raw =
     (let (neg, body) = split_sign (str_strip raw);
          whole = takeWhile is_digit body; rest = dropWhile is_digit body;
          dot = (rest \<noteq> [] \<and> hd rest = CHR ''.'');
          decs = (if dot then takeWhile is_digit (tl rest) else []);
          tail = (if dot then dropWhile is_digit (tl rest) else rest)
      in if whole = [] \<and> decs = [] then None
         else map_option (\<lambda>e. (if neg then -1 else 1) * scale10 (frac_value whole decs) e)
                (parse_exponent tail))"

text \<open>\<open>int(v)\<close> on a value.\<close>

definition py_int :: "pyval \<Rightarrow> int result" where
  "py_int v =
     (case v of
        VInt i \<Rightarrow> Inr i
      | VBool b \<Rightarrow> Inr (if b then 1 else 0)
      | VFloat r \<Rightarrow> Inr (if 0 \<le> r then floor r else ceiling r)
      | VStr s \<Rightarrow> (case py_int_of_str s of Some i \<Rightarrow> Inr i | None \<Rightarrow> Inl ValueError)
      | _ \<Rightarrow> Inl TypeError)"

definition float_result :: "string \<Rightarrow> rat result" where
  "float_result s = (case py_float_of_str s of Some r \<Rightarrow> Inr r | None \<Rightarrow> Inl ValueError)"

text \<open>Only the unit-less form has a fallback; a malformed number before a unit raises.\<close>

definition parse_window :: "string \<Rightarrow> rat result" where
  "parse_window text =
     (let raw = str_strip text in
      if ends_with raw ''h'' then ebind (float_result (butlast raw)) (\<lambda>r. Inr (r * 3600))
      else if ends_with raw ''m'' then ebind (float_result (butlast raw)) (\<lambda>r. Inr (r * 60))
      else if ends_with raw ''s'' then float_result (butlast raw)
      else Inr (etry (float_result raw) 60))"

subsection \<open>Rewrite profiles\<close>

type_synonym degrade_profile = "externals \<Rightarrow> tool_call \<Rightarrow> tool_call result"
type_synonym profile_table = "(string, degrade_profile) dict"

definition register_degrade_profile :: "string \<Rightarrow> degrade_profile \<Rightarrow> profile_table \<Rightarrow> profile_table" where
  "register_degrade_profile name fn profiles = dict_set name fn profiles"

definition get_degrade_profile :: "profile_table \<Rightarrow> string \<Rightarrow> degrade_profile option" where
  "get_degrade_profile profiles name = map_of profiles name"

definition arg_str :: "externals \<Rightarrow> tool_call \<Rightarrow> string \<Rightarrow> string" where
  "arg_str E tc key = py_str E (dict_getd (tc_args tc) key (VStr []))"

definition set_arg :: "string \<Rightarrow> string \<Rightarrow> tool_call \<Rightarrow> tool_call" where
  "set_arg key v tc = tc\<lparr>tc_args := dict_set key (VStr v) (tc_args tc)\<rparr>"

definition email_send_to_draft :: degrade_profile where
  "email_send_to_draft E tc =
     Inr (tc\<lparr>tc_tool_name := ''email.draft'', tc_args := dict_pop ''attachments'' (tc_args tc),
             tc_sink_type := SinkNone\<rparr>)"

definition readonly_commands :: "string list" where
  "readonly_commands = [''ls'', ''cat'', ''echo'', ''pwd'', ''whoami'', ''head'', ''tail'', ''wc'',
     ''find'', ''stat'', ''file'', ''env'']"

definition shell_blocked_prefix :: string where
  "shell_blocked_prefix = ''echo '' @ [CHR 0x27] @ ''[agentguard] shell blocked (readonly mode): ''"

definition shell_force_readonly :: degrade_profile where
  "shell_force_readonly E tc =
     (let cmd = str_strip (arg_str E tc ''cmd'');
          first = takeWhile (\<lambda>c. \<not> is_space c) cmd
      in if first \<in> set readonly_commands then Inr tc
         else Inr (set_arg ''cmd''
           (shell_blocked_prefix @ (if first \<noteq> [] then first else cmd) @ [CHR 0x27]) tc))"

definition blocked_sql :: string where
  "blocked_sql = ''SELECT 1 WHERE 1=0  -- agentguard: non-select blocked''"

definition db_force_select_only :: degrade_profile where
  "db_force_select_only E tc =
     (let sql = str_strip (arg_str E tc ''sql''); upper = str_upper sql
      in if \<not> starts_with upper ''SELECT'' then Inr (set_arg ''sql'' blocked_sql tc)
         else if \<not> str_contains upper ''LIMIT''
         then Inr (set_arg ''sql'' (rev (dropWhile (\<lambda>c. c = CHR '';'') (rev sql)) @ '' LIMIT 100'') tc)
         else Inr tc)"

definition py_in_str :: "pyval \<Rightarrow> string \<Rightarrow> bool result" where
  "py_in_str v s = (case v of VStr t \<Rightarrow> Inr (str_contains s t) | _ \<Rightarrow> Inl TypeError)"

definition browser_allowlist_only :: degrade_profile where
  "browser_allowlist_only E tc =
     (let url = arg_str E tc ''url'' in
      ebind (py_iter (dict_getd (tc_target tc) ''allowlist'' (VList []))) (\<lambda>allow.
      if \<not> list_all py_hashable allow then Inl TypeError
      else if allow = [] then Inr tc
      else ebind (eany (\<lambda>a. py_in_str a url) allow) (\<lambda>hit.
        Inr (if hit then tc else set_arg ''url'' ''about:blank'' tc))))"

definition basename :: "string \<Rightarrow> string" where
  "basename path = rev (takeWhile (\<lambda>c. c \<noteq> CHR ''/'') (rev path))"

definition tmp_base :: string where
  "tmp_base = ''/tmp/agentguard/''"

definition fs_tmp_only :: degrade_profile where
  "fs_tmp_only E tc =
     (let path = arg_str E tc ''path'' in
      if starts_with path tmp_base then Inr tc
      else Inr (set_arg ''path''
        (tmp_base @ (if basename path \<noteq> [] then basename path else ''out.bin'')) tc))"

definition noop_profile :: degrade_profile where
  "noop_profile E tc = Inr tc"

definition degrade_profiles :: profile_table where
  "degrade_profiles =
     [(''email.send_to_draft'', email_send_to_draft), (''shell.readonly'', shell_force_readonly),
      (''db.select_only'', db_force_select_only),
      (''browser.allowlist_only'', browser_allowlist_only), (''fs.tmp_only'', fs_tmp_only),
      (''noop'', noop_profile)]"

definition redacted :: string where
  "redacted = ''[REDACTED]''"

definition redact_fields :: "pydict \<Rightarrow> string list \<Rightarrow> pydict" where
  "redact_fields data names =
     foldl (\<lambda>d f. if f \<in> set (map fst d) then dict_set f (VStr redacted) d else d) data names"

subsection \<open>Obligations that rewrite the call\<close>

definition ob_get :: "obligation \<Rightarrow> string \<Rightarrow> pyval" where
  "ob_get ob key = dict_getd (ob_params ob) key VNone"

text \<open>Mask the named arguments that are present; an unhashable name raises.\<close>

fun mask_args :: "pyval list \<Rightarrow> pydict \<Rightarrow> pydict result" where
  "mask_args [] args = Inr args"
| "mask_args (f # fs) args =
     (if \<not> py_hashable f then Inl TypeError
      else mask_args fs
        (case f of
           VStr k \<Rightarrow> if k \<in> set (map fst args) then dict_set k (VStr redacted) args else args
         | _ \<Rightarrow> args))"

definition apply_obligation ::
  "externals \<Rightarrow> profile_table \<Rightarrow> obligation \<Rightarrow> tool_call \<Rightarrow> tool_call result" where
  "apply_obligation E profiles ob tc =
     (if ob_kind ob = ''rewrite_tool'' then
        (case get_degrade_profile profiles (py_str E (dict_getd (ob_params ob) ''profile'' (VStr []))) of
           None \<Rightarrow> Inr tc | Some profile \<Rightarrow> profile E tc)
      else if ob_kind ob = ''mask_field'' then
        (let field = py_str E (dict_getd (ob_params ob) ''field'' (VStr []))
         in Inr (if field \<noteq> [] \<and> field \<in> set (map fst (tc_args tc))
                 then set_arg field redacted tc else tc))
      else if ob_kind ob = ''mask_fields'' then
        (let chosen = py_or (ob_get ob ''fields'') (ob_get ob ''field'');
             wanted = (case chosen of VStr s \<Rightarrow> VList [VStr s] | _ \<Rightarrow> chosen)
         in if \<not> py_bool wanted then Inr tc
            else ebind (py_iter wanted) (\<lambda>fs. ebind (mask_args fs (tc_args tc)) (\<lambda>args.
              Inr (tc\<lparr>tc_args := args\<rparr>))))
      else Inr tc)"

fun apply_all ::
  "externals \<Rightarrow> profile_table \<Rightarrow> obligation list \<Rightarrow> tool_call \<Rightarrow> tool_call result" where
  "apply_all E profiles [] tc = Inr tc"
| "apply_all E profiles (ob # obs) tc =
     ebind (apply_obligation E profiles ob tc) (apply_all E profiles obs)"

definition apply_rewrites ::
  "externals \<Rightarrow> profile_table \<Rightarrow> runtime_event \<Rightarrow> decision \<Rightarrow> tool_call option result" where
  "apply_rewrites E profiles event d =
     (case ev_tool_call event of
        None \<Rightarrow> Inr None
      | Some tc \<Rightarrow> ebind (apply_all E profiles (d_obligations d) tc) (\<lambda>tc'. Inr (Some tc')))"

subsection \<open>Obligations that block the call\<close>

text \<open>\<open>domain not in allowed_set\<close>, where the domain came from the call's target.\<close>

definition target_violation :: "externals \<Rightarrow> tool_call \<Rightarrow> obligation \<Rightarrow> string option result" where
  "target_violation E tc ob =
     (let allowed = py_or (ob_get ob ''whitelist'') (ob_get ob ''allowed'') in
      if \<not> py_bool allowed then Inr None
      else if (case allowed of VDict d \<Rightarrow> ''__call__'' \<in> set (map fst d) | _ \<Rightarrow> False) then Inr None
      else
        (let members = (case allowed of VList xs \<Rightarrow> xs | VTuple xs \<Rightarrow> xs | _ \<Rightarrow> []);
             target_domain = py_or (py_or (dict_getd (tc_target tc) ''domain'' VNone)
                               (dict_getd (tc_target tc) ''url'' VNone)) (VStr [])
         in ebind (py_set_of members) (\<lambda>allowed_set.
              if \<not> py_bool allowed_set \<or> \<not> py_bool target_domain then Inr None
              else ebind (py_in target_domain allowed_set) (\<lambda>ok.
                Inr (if ok then None
                     else Some (''target domain '' @ py_repr E target_domain @ '' not in allowed set ''
                            @ py_repr E allowed_set))))))"

fun first_violation :: "externals \<Rightarrow> tool_call \<Rightarrow> obligation list \<Rightarrow> string option result" where
  "first_violation E tc [] = Inr None"
| "first_violation E tc (ob # obs) =
     (if ob_kind ob \<noteq> ''require_target_in'' then first_violation E tc obs
      else ebind (target_violation E tc ob) (\<lambda>v.
        case v of None \<Rightarrow> first_violation E tc obs | Some m \<Rightarrow> Inr (Some m)))"

definition check_require_target_in :: "externals \<Rightarrow> runtime_event \<Rightarrow> decision \<Rightarrow> string option result" where
  "check_require_target_in E event d =
     (case ev_tool_call event of
        None \<Rightarrow> Inr None | Some tc \<Rightarrow> first_violation E tc (d_obligations d))"

subsection \<open>Rate limits\<close>

type_synonym rate_store = "((string \<times> string), rat list) dict"

text \<open>One counter: forget what left the window, then admit or refuse.\<close>

definition rate_step :: "int \<Rightarrow> rat \<Rightarrow> rat \<Rightarrow> rat list \<Rightarrow> bool \<times> rat list" where
  "rate_step max_calls window now ts =
     (let live = filter (\<lambda>t. now - window \<le> t) ts
      in if max_calls \<le> int (length live) then (False, live) else (True, live @ [now]))"

definition rate_message :: "nat \<Rightarrow> int \<Rightarrow> string \<Rightarrow> string \<Rightarrow> string" where
  "rate_message n max_calls window_raw rule_id =
     ''rate limit exceeded: '' @ str_of_nat n @ ''/'' @ str_of_int max_calls @ '' calls in '' @
     window_raw @ '' for rule '' @ repr_str rule_id"

fun rate_checks ::
  "externals \<Rightarrow> rat \<Rightarrow> string \<Rightarrow> obligation list \<Rightarrow> rate_store \<Rightarrow> string option result \<times> rate_store" where
  "rate_checks E now sess [] rates = (Inr None, rates)"
| "rate_checks E now sess (ob # obs) rates =
     (if ob_kind ob \<noteq> ''rate_limit'' then rate_checks E now sess obs rates
      else
        (let rule_id = py_str E (dict_getd (ob_params ob) ''rule_id'' (VStr []));
             window_raw = py_str E (dict_getd (ob_params ob) ''window'' (VStr ''60s''));
             limit = py_int (dict_getd (ob_params ob) ''max'' (dict_getd (ob_params ob) ''max_calls'' (VInt 10)))
         in case limit of
              Inl e \<Rightarrow> (Inl e, rates)
            | Inr max_calls \<Rightarrow>
                (case parse_window window_raw of
                   Inl e \<Rightarrow> (Inl e, rates)
                 | Inr window \<Rightarrow>
                     (let (ok, ts) = rate_step max_calls window now (dict_getd rates (sess, rule_id) []);
                          rates' = dict_set (sess, rule_id) ts rates
                      in if ok then rate_checks E now sess obs rates'
                         else (Inr (Some (rate_message (length ts) max_calls window_raw rule_id)), rates')))))"

definition check_rate_limit ::
  "externals \<Rightarrow> rat \<Rightarrow> runtime_event \<Rightarrow> decision \<Rightarrow> rate_store \<Rightarrow> string option result \<times> rate_store" where
  "check_rate_limit E now event d rates =
     (case ev_tool_call event of
        None \<Rightarrow> (Inr None, rates)
      | Some _ \<Rightarrow> rate_checks E now (p_session_id (ev_principal event)) (d_obligations d) rates)"

subsection \<open>Profiles and masks: what they change\<close>

lemma map_of_set_arg [simp]: "map_of (tc_args (set_arg k v tc)) j = (if j = k then Some (VStr v) else map_of (tc_args tc) j)"
  by (simp add: set_arg_def)

lemma set_arg_fields [simp]:
  "tc_tool_name (set_arg k v tc) = tc_tool_name tc" "tc_sink_type (set_arg k v tc) = tc_sink_type tc"
  "tc_target (set_arg k v tc) = tc_target tc"
  by (simp_all add: set_arg_def)

lemma mask_args_strings:
  "mask_args (map VStr ks) args = Inr (redact_fields args ks)"
  by (induction ks arbitrary: args) (simp_all add: redact_fields_def)

lemma keys_dict_set: "set (map fst (dict_set k v d)) = insert k (set (map fst d))"
  by (induction d) auto

lemma map_of_redact_fields:
  "map_of (redact_fields d ks) k =
     (if k \<in> set ks \<and> k \<in> set (map fst d) then Some (VStr redacted) else map_of d k)"
proof (induction ks arbitrary: d)
  case Nil
  then show ?case by (simp add: redact_fields_def)
next
  case (Cons j ks)
  have step: "redact_fields d (j # ks) =
      redact_fields (if j \<in> set (map fst d) then dict_set j (VStr redacted) d else d) ks"
    by (simp add: redact_fields_def)
  show ?case
  proof (cases "j \<in> set (map fst d)")
    case True
    then have "set (map fst (dict_set j (VStr redacted) d)) = set (map fst d)"
      by (simp only: keys_dict_set insert_absorb)
    with True show ?thesis unfolding step by (simp add: Cons)
  next
    case False
    then show ?thesis unfolding step by (auto simp: Cons)
  qed
qed

definition mask_obligation :: "string list \<Rightarrow> obligation" where
  "mask_obligation ks = \<lparr>ob_kind = ''mask_fields'', ob_params = [(''fields'', VList (map VStr ks))]\<rparr>"

text \<open>A REDACT obligation masks its fields and nothing else.\<close>

lemma apply_mask_fields:
  assumes "ob_kind ob = ''mask_fields''" and "map_of (ob_params ob) ''fields'' = Some (VList (map VStr ks))"
    and "ks \<noteq> []"
  shows "apply_obligation E profiles ob tc = Inr (tc\<lparr>tc_args := redact_fields (tc_args tc) ks\<rparr>)"
  using assms by (simp add: apply_obligation_def ob_get_def dict_getd_def mask_args_strings Let_def
      py_or_def)

lemma apply_all_append:
  "apply_all E profiles (xs @ ys) tc = ebind (apply_all E profiles xs tc) (apply_all E profiles ys)"
proof (induction xs arbitrary: tc)
  case (Cons ob xs)
  then show ?case by (cases "apply_obligation E profiles ob tc") simp_all
qed simp

subsection \<open>The sliding window\<close>

text \<open>Run a counter over the times of a list of calls, collecting the admitted ones.\<close>

fun rate_run :: "int \<Rightarrow> rat \<Rightarrow> rat list \<Rightarrow> rat list \<Rightarrow> rat list" where
  "rate_run m w ts [] = []"
| "rate_run m w ts (now # rest) =
     (let (ok, ts') = rate_step m w now ts
      in (if ok then [now] else []) @ rate_run m w ts' rest)"

definition in_window :: "rat \<Rightarrow> rat \<Rightarrow> rat \<Rightarrow> bool" where
  "in_window lo w t \<longleftrightarrow> lo \<le> t \<and> t \<le> lo + w"

text \<open>
  \<open>H\<close> is everything admitted so far, \<open>now\<close> the last time looked at: the counter holds exactly
  the admitted times of the last window, and no window has more than \<open>m\<close> of them.
\<close>

definition rate_inv :: "int \<Rightarrow> rat \<Rightarrow> rat \<Rightarrow> rat list \<Rightarrow> rat list \<Rightarrow> bool" where
  "rate_inv m w now H ts \<longleftrightarrow>
     (\<exists>cut. cut \<le> now - w \<and> ts = filter (\<lambda>t. cut \<le> t) H) \<and> (\<forall>t \<in> set H. t \<le> now) \<and>
     (\<forall>lo. int (length (filter (in_window lo w) H)) \<le> max 0 m)"

lemma rate_inv_step:
  assumes inv: "rate_inv m w now H ts" and "now \<le> now'" and "0 \<le> w"
    and step: "rate_step m w now' ts = (ok, ts')"
  shows "rate_inv m w now' (H @ (if ok then [now'] else [])) ts'"
proof -
  obtain cut where cut: "cut \<le> now - w" "ts = filter (\<lambda>t. cut \<le> t) H"
    and old: "\<forall>t \<in> set H. t \<le> now"
    and win: "\<And>lo. int (length (filter (in_window lo w) H)) \<le> max 0 m"
    using inv by (auto simp: rate_inv_def)
  define live where "live = filter (\<lambda>t. now' - w \<le> t) H"
  have "filter (\<lambda>t. now' - w \<le> t) ts = live"
    using cut assms(2) by (auto simp: live_def intro!: filter_cong)
  with step have ok: "ok \<longleftrightarrow> \<not> m \<le> int (length live)"
    and ts': "ts' = live @ (if ok then [now'] else [])"
    by (auto simp: rate_step_def Let_def split: if_splits)
  have "ts' = filter (\<lambda>t. now' - w \<le> t) (H @ (if ok then [now'] else []))"
    using assms(3) by (simp add: ts' live_def)
  moreover have "\<forall>t \<in> set (H @ (if ok then [now'] else [])). t \<le> now'"
    using old assms(2) by auto
  moreover have "int (length (filter (in_window lo w) (H @ (if ok then [now'] else [])))) \<le> max 0 m" for lo
  proof (cases "ok \<and> in_window lo w now'")
    case False
    then show ?thesis using win [of lo] by auto
  next
    case True
    then have "filter (in_window lo w) H = filter (\<lambda>t. lo \<le> t) H"
      using old assms(2) by (intro filter_cong) (auto simp: in_window_def)
    moreover have "length (filter (\<lambda>t. lo \<le> t) H) \<le> length live"
    proof -
      have "filter (\<lambda>t. lo \<le> t) H = filter (\<lambda>t. lo \<le> t) live"
        using True by (auto simp: live_def in_window_def intro!: filter_cong)
      then show ?thesis by (metis length_filter_le)
    qed
    ultimately show ?thesis using True ok by auto
  qed
  ultimately show ?thesis unfolding rate_inv_def by blast
qed

lemma rate_run_bound:
  assumes "rate_inv m w now H ts" and "sorted (now # calls)" and "0 \<le> w"
  shows "int (length (filter (in_window lo w) (H @ rate_run m w ts calls))) \<le> max 0 m"
  using assms
proof (induction calls arbitrary: now H ts)
  case Nil
  then show ?case by (simp add: rate_inv_def)
next
  case (Cons now' calls)
  obtain ok ts' where step: "rate_step m w now' ts = (ok, ts')" by fastforce
  have "rate_inv m w now' (H @ (if ok then [now'] else [])) ts'"
    using Cons.prems step by (intro rate_inv_step [of m w now H ts now']) auto
  then have "int (length (filter (in_window lo w)
      ((H @ (if ok then [now'] else [])) @ rate_run m w ts' calls))) \<le> max 0 m"
    using Cons.prems by (intro Cons.IH [of now']) auto
  then show ?case by (simp add: step)
qed

lemma rate_inv_start: "rate_inv m w now [] []"
  by (auto simp: rate_inv_def intro: exI [of _ "now - w"])

lemma rate_window_bound:
  assumes "sorted calls" and "0 \<le> w"
  shows "int (length (filter (in_window lo w) (rate_run m w [] calls))) \<le> max 0 m"
proof (cases calls)
  case Nil
  then show ?thesis by simp
next
  case (Cons t rest)
  have "sorted (t # calls)" using assms(1) by (simp add: Cons)
  from rate_run_bound [OF rate_inv_start this assms(2)] show ?thesis by simp
qed

end
