(* ===== verification/Llm_Review.thy ===== *)
theory Llm_Review
  imports Degrade
begin

text \<open>
  The text side of LLM review (\<open>degrade/planner.py\<close>, helpers before the enforcer): the trace
  summary and messages sent to the reviewer, and the verdict read back from its answer.
\<close>

subsection \<open>Messages\<close>

definition nl :: string where
  "nl = [char_of (10::nat)]"

definition json_char :: "char \<Rightarrow> string" where
  "json_char c =
     (if ord c = 34 \<or> ord c = 92 then [char_of (92::nat), c]
      else if ord c = 10 then [char_of (92::nat), CHR ''n'']
      else if ord c = 13 then [char_of (92::nat), CHR ''r'']
      else if ord c = 9 then [char_of (92::nat), CHR ''t'']
      else if ord c = 8 then [char_of (92::nat), CHR ''b'']
      else if ord c = 12 then [char_of (92::nat), CHR ''f'']
      else if ord c < 32
        then [char_of (92::nat), CHR ''u'', CHR ''0'', CHR ''0'', hex_digit (ord c div 16), hex_digit (ord c mod 16)]
      else [c])"

definition json_str :: "string \<Rightarrow> string" where
  "json_str s = [CHR 0x22] @ concat (map json_char s) @ [CHR 0x22]"

definition type_name :: "pyval \<Rightarrow> string" where
  "type_name v =
     (case v of
        VNone \<Rightarrow> ''NoneType'' | VBool _ \<Rightarrow> ''bool'' | VInt _ \<Rightarrow> ''int'' | VFloat _ \<Rightarrow> ''float''
      | VStr _ \<Rightarrow> ''str'' | VList _ \<Rightarrow> ''list'' | VTuple _ \<Rightarrow> ''tuple'' | VSet _ \<Rightarrow> ''set''
      | VDict _ \<Rightarrow> ''dict'' | VObj c _ \<Rightarrow> c | VOpaque t \<Rightarrow> t)"

definition angle_count :: "string \<Rightarrow> nat \<Rightarrow> string" where
  "angle_count t n = ''<'' @ t @ '':'' @ str_of_nat n @ ''>''"

definition compact_text :: "externals \<Rightarrow> pyval \<Rightarrow> string" where
  "compact_text E v =
     (case v of
        VStr s \<Rightarrow> json_str s
      | VInt i \<Rightarrow> str_of_int i
      | VFloat r \<Rightarrow> float_repr E r
      | VBool b \<Rightarrow> (if b then ''true'' else ''false'')
      | VNone \<Rightarrow> ''null''
      | VDict d \<Rightarrow>
          ''{'' @ str_join '', '' (map json_str (take 3 (map fst d))) @
          (if 3 < length d then '', ...'' else []) @ ''}''
      | VList xs \<Rightarrow> angle_count ''list'' (length xs)
      | VTuple xs \<Rightarrow> angle_count ''tuple'' (length xs)
      | VSet xs \<Rightarrow> angle_count ''set'' (length xs)
      | _ \<Rightarrow> ''<'' @ type_name v @ ''>'')"

definition compact_trace_value :: "externals \<Rightarrow> pyval \<Rightarrow> nat \<Rightarrow> string" where
  "compact_trace_value E v max_len =
     (let text = compact_text E v
      in if max_len < length text then take (max_len - 3) text @ ''...'' else text)"

definition default_trace_steps :: int where
  "default_trace_steps = 5"

text \<open>The limit from the environment variable's text.\<close>

definition llm_trace_max_steps :: "string \<Rightarrow> int" where
  "llm_trace_max_steps env_text =
     (let raw = str_strip env_text in
      if raw = [] then default_trace_steps
      else (case py_int_of_str raw of Some i \<Rightarrow> max 0 i | None \<Rightarrow> default_trace_steps))"

definition entry_details :: "externals \<Rightarrow> nat \<Rightarrow> (string \<times> pyval) list \<Rightarrow> string list" where
  "entry_details E max_args entry =
     (let args = (case map_of entry ''args'' of Some (VDict d) \<Rightarrow> d | _ \<Rightarrow> []);
          shown = map (\<lambda>(k, v). k @ ''='' @ compact_trace_value E v 48) (take max_args args);
          more = (if max_args < length args then [''...''] else []);
          result = dict_getd entry ''result'' VNone
      in shown @ more @
         (if result \<noteq> VNone then [''result='' @ compact_trace_value E result 32] else []))"

definition render_entry :: "externals \<Rightarrow> nat \<Rightarrow> (string \<times> pyval) list \<Rightarrow> string" where
  "render_entry E max_args entry =
     (let tool = py_str E (dict_getd entry ''tool'' VNone); details = entry_details E max_args entry
      in if details \<noteq> [] then tool @ ''('' @ str_join '', '' details @ '')'' else tool)"

definition tool_entries :: "pyval list \<Rightarrow> (string \<times> pyval) list list" where
  "tool_entries vs =
     concat (map (\<lambda>v. case v of
        VDict d \<Rightarrow> if py_bool (dict_getd d ''tool'' VNone) then [d] else [] | _ \<Rightarrow> []) vs)"

definition arrow :: string where
  "arrow = '' -> ''"

definition summarize_trace_rich :: "externals \<Rightarrow> pyval \<Rightarrow> int \<Rightarrow> nat \<Rightarrow> string" where
  "summarize_trace_rich E trace_rich max_steps max_args =
     (if max_steps \<le> 0 then ''(none)''
      else (case trace_rich of
        VList vs \<Rightarrow>
          (let entries = tool_entries vs in
           if entries = [] then ''(none)''
           else (if nat max_steps < length entries then ''...'' @ arrow else []) @
                str_join arrow (map (render_entry E max_args) (last_n (nat max_steps) entries)))
      | _ \<Rightarrow> ''(none)''))"

definition resolve_system_prompt :: "string \<Rightarrow> decision \<Rightarrow> string" where
  "resolve_system_prompt review_system d =
     (let custom = str_strip (case d_llm_system_prompt d of Some p \<Rightarrow> p | None \<Rightarrow> [])
      in if custom = [] then review_system else custom @ nl @ nl @ review_system)"

text \<open>The system and user message; the fixed system prompt is an argument.\<close>

definition build_review_messages ::
  "externals \<Rightarrow> string \<Rightarrow> string \<Rightarrow> runtime_event \<Rightarrow> decision \<Rightarrow> string \<times> string" where
  "build_review_messages E review_system env_text event d =
     (let tool = (case ev_tool_call event of Some tc \<Rightarrow> tc_tool_name tc | None \<Rightarrow> ''unknown'');
          args = (case ev_tool_call event of Some tc \<Rightarrow> tc_args tc | None \<Rightarrow> []);
          summary = summarize_trace_rich E (dict_getd (ev_extra event) ''trace_rich'' VNone)
                      (llm_trace_max_steps env_text) 5
      in (resolve_system_prompt review_system d,
          ''Tool: '' @ tool @ nl @ ''Args: '' @ py_repr E (VDict args) @ nl @
          ''Principal: '' @ p_agent_id (ev_principal event) @ nl @
          ''Trace summary: '' @ summary @ nl @
          ''Matched rules: '' @ str_join '', '' (d_matched_rules d) @ nl @
          ''Risk score: '' @ float_repr E (d_risk_score d) @ nl @
          ''Reason: '' @ d_reason d @ nl @ nl @
          ''Respond with <DECISION>allow|deny|human</DECISION> and <REASON>...</REASON> only.''))"

subsection \<open>Verdicts\<close>

text \<open>The text after the first occurrence, letter case ignored, and the text before it.\<close>

fun find_ci :: "string \<Rightarrow> string \<Rightarrow> (string \<times> string) option" where
  "find_ci needle [] = (if needle = [] then Some ([], []) else None)"
| "find_ci needle (c # s) =
     (if starts_with (str_lower (c # s)) (str_lower needle)
      then Some ([], drop (length needle) (c # s))
      else map_option (\<lambda>(u, v). (c # u, v)) (find_ci needle s))"

definition extract_llm_tag :: "string \<Rightarrow> string \<Rightarrow> string option" where
  "extract_llm_tag content tag =
     (case find_ci (''<'' @ tag @ ''>'') content of
        None \<Rightarrow> None
      | Some (_, rest) \<Rightarrow>
          (case find_ci (''</'' @ tag @ ''>'') rest of
             None \<Rightarrow> None | Some (body, _) \<Rightarrow> Some (str_strip body)))"

datatype verdict = VerdictAllow | VerdictDeny | VerdictHuman

definition parse_llm_review_response :: "string option \<Rightarrow> verdict \<times> string" where
  "parse_llm_review_response reply =
     (case reply of
        None \<Rightarrow> (VerdictHuman, ''empty_llm_response'')
      | Some content \<Rightarrow>
          if content = [] then (VerdictHuman, ''empty_llm_response'')
          else
            (let decision_text = extract_llm_tag content ''DECISION'';
                 reason_text = extract_llm_tag content ''REASON''
             in if decision_text \<noteq> None \<or> reason_text \<noteq> None then
                  (let low = str_lower (str_strip (case decision_text of Some t \<Rightarrow> t | None \<Rightarrow> []));
                       verdict = (if low = ''allow'' then VerdictAllow
                                  else if low = ''deny'' then VerdictDeny else VerdictHuman)
                   in case reason_text of
                        Some r \<Rightarrow>
                          if r \<noteq> [] then (verdict, r)
                          else if decision_text = None then (VerdictHuman, ''missing_<DECISION>_tag'')
                          else (verdict, ''missing_<REASON>_tag'')
                      | None \<Rightarrow>
                          if decision_text = None then (VerdictHuman, ''missing_<DECISION>_tag'')
                          else (verdict, ''missing_<REASON>_tag''))
                else
                  (let low = str_lower (str_strip content)
                   in if starts_with low ''allow'' then (VerdictAllow, [])
                      else if starts_with low ''deny'' then (VerdictDeny, [])
                      else if starts_with low ''human'' then (VerdictHuman, [])
                      else (VerdictHuman, ''invalid_llm_response_format''))))"

definition prefixed_reason :: "string \<Rightarrow> string \<Rightarrow> string" where
  "prefixed_reason prefix reason = (if reason \<noteq> [] then prefix @ '': '' @ reason else prefix)"

definition merge_rule_and_llm_reason :: "string \<Rightarrow> string \<Rightarrow> string" where
  "merge_rule_and_llm_reason rule_reason llm_reason =
     str_join ''; '' ((if rule_reason \<noteq> [] then [''rule_reason='' @ rule_reason] else []) @
                      (if llm_reason \<noteq> [] then [''llm_reason='' @ llm_reason] else []))"

subsection \<open>Lemmas\<close>

lemma compact_trace_value_length:
  "3 \<le> max_len \<Longrightarrow> length (compact_trace_value E v max_len) \<le> max_len"
  by (auto simp: compact_trace_value_def Let_def)

lemma length_str_lower [simp]: "length (str_lower s) = length s"
  by (simp add: str_lower_def)

lemma lower_lt: "lower_char CHR ''<'' = CHR ''<''"
  by (simp add: lower_char_def ord_def)

text \<open>Text without an angle bracket before the tag is skipped.\<close>

lemma lower_char_lt: "lower_char c = CHR ''<'' \<longleftrightarrow> c = CHR ''<''"
proof
  assume low: "lower_char c = CHR ''<''"
  show "c = CHR ''<''"
  proof (cases "65 \<le> ord c \<and> ord c \<le> 90")
    case True
    then have "of_char (char_of (ord c + 32) :: char) = (60 :: nat)"
      using low by (simp add: lower_char_def)
    moreover have "of_char (char_of (ord c + 32) :: char) = ord c + 32"
      using True by (simp add: of_char_of)
    ultimately show ?thesis using True by simp
  next
    case False
    with low show ?thesis by (simp add: lower_char_def split: if_splits)
  qed
qed (simp add: lower_lt)

lemma find_ci_skip:
  assumes "CHR ''<'' \<notin> set u"
  shows "find_ci (CHR ''<'' # tag) (u @ CHR ''<'' # tag @ v) = Some (u, v)"
  using assms
proof (induction u)
  case Nil
  have "starts_with (str_lower (CHR ''<'' # tag @ v)) (str_lower (CHR ''<'' # tag))"
    by (simp add: starts_with_iff str_lower_def)
  then show ?case by simp
next
  case (Cons c u)
  then have "\<not> starts_with (str_lower (c # u @ CHR ''<'' # tag @ v)) (str_lower (CHR ''<'' # tag))"
    using lower_char_lt [of c] by (auto simp: starts_with_iff str_lower_def lower_lt)
  with Cons show ?case by simp
qed

text \<open>A reply in the documented format is read as written.\<close>

lemma extract_tag_value:
  assumes "CHR ''<'' \<notin> set u" and "CHR ''<'' \<notin> set body"
  shows "extract_llm_tag (u @ ''<'' @ tag @ ''>'' @ body @ ''</'' @ tag @ ''>'' @ v) tag = Some (str_strip body)"
proof -
  have "find_ci (''<'' @ tag @ ''>'') (u @ ''<'' @ tag @ ''>'' @ body @ ''</'' @ tag @ ''>'' @ v)
      = Some (u, body @ ''</'' @ tag @ ''>'' @ v)"
    using find_ci_skip [OF assms(1), of "tag @ ''>''" "body @ ''</'' @ tag @ ''>'' @ v"] by simp
  moreover have "find_ci (''</'' @ tag @ ''>'') (body @ ''</'' @ tag @ ''>'' @ v) = Some (body, v)"
    using find_ci_skip [OF assms(2), of "''/'' @ tag @ ''>''" v] by simp
  ultimately show ?thesis by (simp add: extract_llm_tag_def)
qed

text \<open>When the reply allows: the tag says so, or an untagged reply starts with the word.\<close>

lemma parse_allow_iff:
  "fst (parse_llm_review_response (Some content)) = VerdictAllow \<longleftrightarrow>
     (content \<noteq> [] \<and>
      (case extract_llm_tag content ''DECISION'' of
         Some t \<Rightarrow> str_lower (str_strip t) = ''allow''
       | None \<Rightarrow> extract_llm_tag content ''REASON'' = None \<and> starts_with (str_lower (str_strip content)) ''allow''))"
  by (auto simp: parse_llm_review_response_def Let_def str_lower_def str_strip_def split: option.splits)

end
