(* ===== verification/Approval.thy ===== *)
theory Approval
  imports Events
begin

text \<open>
  The approval queue (\<open>review/tickets.py\<close>, \<open>review/api.py\<close>).  The operations are modelled as
  atomic steps and their contract is a locale.  Resolving a ticket reads its status under the
  lock but writes it outside; a step relation splits the read from the write, and shows what two
  reviewers can then do to one ticket.
\<close>

subsection \<open>Tickets\<close>

datatype ticket_status = Pending | Approved | Denied | Expired

record approval_ticket =
  tk_ticket_id :: string
  tk_event :: runtime_event
  tk_decision :: decision
  tk_created_ms :: int
  tk_status :: ticket_status
  tk_signalled :: bool
  tk_resolved_action :: string
  tk_note :: string

type_synonym approval_bridge = "(string, approval_ticket) dict"

definition enqueue ::
  "string \<Rightarrow> int \<Rightarrow> runtime_event \<Rightarrow> decision \<Rightarrow> approval_bridge \<Rightarrow> approval_bridge" where
  "enqueue tid now_ms event d b =
     dict_set tid \<lparr>tk_ticket_id = tid, tk_event = event, tk_decision = d, tk_created_ms = now_ms,
       tk_status = Pending, tk_signalled = False, tk_resolved_action = [], tk_note = []\<rparr> b"

text \<open>What \<open>wait\<close> does once the event is set or the timeout is over.\<close>

definition finish_wait :: "string \<Rightarrow> approval_bridge \<Rightarrow> approval_ticket result \<times> approval_bridge" where
  "finish_wait tid b =
     (case map_of b tid of
        None \<Rightarrow> (Inl (KeyError tid), b)
      | Some t \<Rightarrow>
          (let t' = (if tk_status t = Pending then t\<lparr>tk_status := Expired\<rparr> else t)
           in (Inr t', dict_set tid t' b)))"

definition resolved_status :: "string \<Rightarrow> ticket_status" where
  "resolved_status action = (if action = ''approve'' then Approved else Denied)"

definition resolve :: "string \<Rightarrow> string \<Rightarrow> string \<Rightarrow> approval_bridge \<Rightarrow> bool \<times> approval_bridge" where
  "resolve tid action note b =
     (case map_of b tid of
        None \<Rightarrow> (False, b)
      | Some t \<Rightarrow>
          if tk_status t \<noteq> Pending then (False, b)
          else (True, dict_set tid (t\<lparr>tk_status := resolved_status action,
                        tk_resolved_action := action, tk_note := note, tk_signalled := True\<rparr>) b))"

definition pending :: "approval_bridge \<Rightarrow> approval_ticket list" where
  "pending b = filter (\<lambda>t. tk_status t = Pending) (dict_values b)"

definition console_approve :: "string \<Rightarrow> string \<Rightarrow> approval_bridge \<Rightarrow> bool \<times> approval_bridge" where
  "console_approve tid note b = resolve tid ''approve'' note b"

definition console_deny :: "string \<Rightarrow> string \<Rightarrow> approval_bridge \<Rightarrow> bool \<times> approval_bridge" where
  "console_deny tid note b = resolve tid ''deny'' note b"

definition console_list_pending :: "approval_bridge \<Rightarrow> (string \<times> int \<times> runtime_event \<times> decision) list" where
  "console_list_pending b =
     map (\<lambda>t. (tk_ticket_id t, tk_created_ms t, tk_event t, tk_decision t)) (pending b)"

definition status_of :: "approval_bridge \<Rightarrow> string \<Rightarrow> ticket_status option" where
  "status_of b tid = map_option tk_status (map_of b tid)"

subsection \<open>The interface\<close>

locale approval_service =
  fixes status :: "'b \<Rightarrow> string \<Rightarrow> ticket_status option"
    and submit :: "'x \<Rightarrow> string \<Rightarrow> 'b \<Rightarrow> 'b"
    and settle :: "'r \<Rightarrow> string \<Rightarrow> string \<Rightarrow> 'b \<Rightarrow> bool \<times> 'b"
    and expire :: "string \<Rightarrow> 'b \<Rightarrow> 'b"
  assumes status_submit: "status (submit x t b) u = (if u = t then Some Pending else status b u)"
    and settle_result: "fst (settle r t a b) \<longleftrightarrow> status b t = Some Pending"
    and status_settle: "status (snd (settle r t a b)) u =
      (if u = t \<and> status b t = Some Pending then Some (resolved_status a) else status b u)"
    and status_expire: "status (expire t b) u =
      (if u = t \<and> status b t = Some Pending then Some Expired else status b u)"
begin

text \<open>What can happen to a queue once a ticket is in it; a new ticket has a new id.\<close>

inductive later :: "'b \<Rightarrow> 'b \<Rightarrow> bool" where
  later_refl: "later b b"
| later_submit: "later b c \<Longrightarrow> status c t = None \<Longrightarrow> later b (submit x t c)"
| later_settle: "later b c \<Longrightarrow> later b (snd (settle r t a c))"
| later_expire: "later b c \<Longrightarrow> later b (expire t c)"

lemma final_status:
  assumes "later b c" and "status b t = Some st" and "st \<noteq> Pending"
  shows "status c t = Some st"
  using assms by induction (auto simp: status_submit status_settle status_expire)

lemma settle_once:
  assumes "fst (settle r t a b)" and "later (snd (settle r t a b)) c"
  shows "\<not> fst (settle r' t a' c)" and "status c t = Some (resolved_status a)"
proof -
  have "status (snd (settle r t a b)) t = Some (resolved_status a)"
    using assms(1) by (simp add: status_settle settle_result)
  then show "status c t = Some (resolved_status a)"
    using final_status [OF assms(2)] by (simp add: resolved_status_def split: if_splits)
  then show "\<not> fst (settle r' t a' c)" by (simp add: settle_result resolved_status_def)
qed

lemma known_stays: "later b c \<Longrightarrow> status b t \<noteq> None \<Longrightarrow> status c t \<noteq> None"
  by (induction rule: later.induct) (auto simp: status_submit status_settle status_expire)

end

lemma status_enqueue: "status_of (enqueue tid now ev d b) u = (if u = tid then Some Pending else status_of b u)"
  by (simp add: status_of_def enqueue_def)

lemma status_finish_wait:
  "status_of (snd (finish_wait tid b)) u =
     (if u = tid \<and> status_of b tid = Some Pending then Some Expired else status_of b u)"
  by (auto simp: status_of_def finish_wait_def Let_def split: option.splits)

lemma status_resolve:
  "status_of (snd (resolve tid action note b)) u =
     (if u = tid \<and> status_of b tid = Some Pending then Some (resolved_status action) else status_of b u)"
  by (auto simp: status_of_def resolve_def split: option.splits)

lemma resolve_result: "fst (resolve tid action note b) \<longleftrightarrow> status_of b tid = Some Pending"
  by (auto simp: status_of_def resolve_def split: option.splits)

interpretation ap: approval_service status_of "\<lambda>(now, ev, d) t b. enqueue t now ev d b"
  "\<lambda>remark t a b. resolve t a remark b" "\<lambda>t b. snd (finish_wait t b)"
  by unfold_locales (auto simp: status_enqueue status_resolve resolve_result status_finish_wait)

subsection \<open>Interleavings\<close>

text \<open>
  A reviewer reads the status (under the lock) and writes it later (without).  The waiting
  enforcer reads and writes the status the same way.
\<close>

datatype actor_pc = Idle | Checked | Done bool

record race_state =
  rs_status :: ticket_status
  rs_pc :: "string \<Rightarrow> actor_pc"

inductive race_step :: "race_state \<Rightarrow> race_state \<Rightarrow> bool" where
  check_pending: "rs_pc s r = Idle \<Longrightarrow> rs_status s = Pending \<Longrightarrow>
     race_step s (s\<lparr>rs_pc := (rs_pc s)(r := Checked)\<rparr>)"
| check_settled: "rs_pc s r = Idle \<Longrightarrow> rs_status s \<noteq> Pending \<Longrightarrow>
     race_step s (s\<lparr>rs_pc := (rs_pc s)(r := Done False)\<rparr>)"
| write_status: "rs_pc s r = Checked \<Longrightarrow> st \<noteq> Pending \<Longrightarrow>
     race_step s (s\<lparr>rs_status := st, rs_pc := (rs_pc s)(r := Done True)\<rparr>)"

inductive_cases race_step_cases: "race_step s s'"
inductive_simps race_step_simps: "race_step s s'"

inductive race_reach :: "race_state \<Rightarrow> race_state \<Rightarrow> bool" where
  race_start: "race_reach s s"
| race_next: "race_reach s t \<Longrightarrow> race_step t u \<Longrightarrow> race_reach s u"

definition race_initial :: race_state where
  "race_initial = \<lparr>rs_status = Pending, rs_pc = (\<lambda>_. Idle)\<rparr>"

text \<open>A settled ticket never becomes pending again, whatever the interleaving.\<close>

lemma race_settled:
  "race_reach s t \<Longrightarrow> rs_status s \<noteq> Pending \<Longrightarrow> rs_status t \<noteq> Pending"
  by (induction rule: race_reach.induct) (auto elim: race_step_cases)

lemma race_winner_settled:
  "race_reach s t \<Longrightarrow> \<forall>r. rs_pc s r = Idle \<Longrightarrow> rs_pc t r = Done True \<Longrightarrow> rs_status t \<noteq> Pending"
proof (induction rule: race_reach.induct)
  case (race_start s)
  then show ?case by simp
next
  case (race_next s t u)
  from race_next(2,3,4,5) show ?case
    by (cases rule: race_step.cases) (auto split: if_splits)
qed

end
