(* ===== verification/Enforcer.thy ===== *)
theory Enforcer
  imports Llm_Review Approval
begin

text \<open>
  The enforcer (\<open>Enforcer\<close> in \<open>degrade/planner.py\<close>): a decision becomes an execution of the
  tool, a rewritten execution, a refusal or a pending ticket.  The state carries the approval
  queue, the rate counters and the events executed so far; the tool, the reviewer model, the
  clock and what other threads do to the queue while the enforcer waits are in the environment.
  Waiting and degrading call each other, so both take the number of interpreter frames left.
\<close>

subsection \<open>State and environment\<close>

record enforcer_config =
  ec_mode :: string
  ec_approval_mode :: string
  ec_approval_timeout_s :: rat
  ec_on_timeout :: string
  ec_max_rewrite_depth :: nat

definition default_enforcer_config :: enforcer_config where
  "default_enforcer_config = \<lparr>ec_mode = ''enforce'', ec_approval_mode = ''block'',
     ec_approval_timeout_s = 60, ec_on_timeout = ''deny'', ec_max_rewrite_depth = 2\<rparr>"

record enf_state =
  es_bridge :: approval_bridge
  es_rates :: rate_store
  es_executed :: "runtime_event list"

record enf_env =
  en_ext :: externals
  en_profiles :: profile_table
  en_config :: enforcer_config
  en_llm :: "(runtime_event \<Rightarrow> decision \<Rightarrow> string option result) option"
  en_now :: rat
  en_fresh :: "approval_bridge \<Rightarrow> string"
  en_meanwhile :: "string \<Rightarrow> approval_bridge \<Rightarrow> approval_bridge"
  en_exec :: "runtime_event \<Rightarrow> pyval result"

type_synonym ('s, 'a) step = "'s \<Rightarrow> 'a result \<times> 's"

definition denied :: "runtime_event \<Rightarrow> decision \<Rightarrow> string \<Rightarrow> py_exc" where
  "denied event d reason = DecisionDenied reason (d_matched_rules d) (Some (ev_event_id event))"

definition str_or :: "string \<Rightarrow> string \<Rightarrow> string" where
  "str_or s t = (if s \<noteq> [] then s else t)"

subsection \<open>Branches\<close>

definition run_original ::
  "enf_env \<Rightarrow> runtime_event \<Rightarrow> ('z enf_state_scheme, pyval) step" where
  "run_original env event s = (en_exec env event, s\<lparr>es_executed := es_executed s @ [event]\<rparr>)"

definition enforce_allow ::
  "enf_env \<Rightarrow> runtime_event \<Rightarrow> decision \<Rightarrow> ('z enf_state_scheme, pyval) step" where
  "enforce_allow env event d s =
     (if d_obligations d = [] then run_original env event s
      else
        (let (violation, rates) = check_rate_limit (en_ext env) (en_now env) event d (es_rates s);
             s1 = s\<lparr>es_rates := rates\<rparr>
         in case violation of
              Inl e \<Rightarrow> (Inl e, s1)
            | Inr (Some m) \<Rightarrow> (Inl (denied event d (''rate_limit: '' @ m)), s1)
            | Inr None \<Rightarrow>
                (case apply_rewrites (en_ext env) (en_profiles env) event d of
                   Inl e \<Rightarrow> (Inl e, s1)
                 | Inr rewritten \<Rightarrow>
                     (let event' = (case rewritten of Some tc \<Rightarrow> with_tool_call event tc | None \<Rightarrow> event)
                      in case check_require_target_in (en_ext env) event' d of
                           Inl e \<Rightarrow> (Inl e, s1)
                         | Inr (Some m) \<Rightarrow> (Inl (denied event' d (''require_target_in: '' @ m)), s1)
                         | Inr None \<Rightarrow> run_original env event' s1))))"

definition enforce_deny :: "runtime_event \<Rightarrow> decision \<Rightarrow> ('s, 'a) step" where
  "enforce_deny event d s = (Inl (denied event d (str_or (d_reason d) ''policy_denied'')), s)"

definition exc_name :: "py_exc \<Rightarrow> string" where
  "exc_name e =
     (case e of
        TypeError \<Rightarrow> ''TypeError'' | ValueError \<Rightarrow> ''ValueError'' | AttributeError \<Rightarrow> ''AttributeError''
      | IndexError \<Rightarrow> ''IndexError'' | KeyError _ \<Rightarrow> ''KeyError''
      | RecursionError \<Rightarrow> ''RecursionError'' | AssertionError \<Rightarrow> ''AssertionError''
      | RuntimeError _ \<Rightarrow> ''RuntimeError'' | RuleCompileError _ \<Rightarrow> ''RuleCompileError''
      | TracePatternError _ \<Rightarrow> ''TracePatternError'' | DecisionDenied _ _ _ \<Rightarrow> ''DecisionDenied''
      | HumanApprovalPending _ _ \<Rightarrow> ''HumanApprovalPending'' | ExternalError n \<Rightarrow> n)"

definition review_verdict :: "enf_env \<Rightarrow> runtime_event \<Rightarrow> decision \<Rightarrow> verdict \<times> string" where
  "review_verdict env event d =
     (case en_llm env of
        None \<Rightarrow> (VerdictHuman, ''llm_backend_not_configured'')
      | Some chat \<Rightarrow>
          (case chat event d of
             Inl e \<Rightarrow> (VerdictHuman, ''llm_call_failed: '' @ exc_name e)
           | Inr content \<Rightarrow> parse_llm_review_response content))"

definition resolve_llm_check_decision :: "enf_env \<Rightarrow> runtime_event \<Rightarrow> decision \<Rightarrow> decision" where
  "resolve_llm_check_decision env event d =
     (let (verdict, llm_reason) = review_verdict env event d;
          merged = merge_rule_and_llm_reason (d_reason d) llm_reason
      in case verdict of
           VerdictAllow \<Rightarrow> d\<lparr>d_action := ALLOW, d_client_action := Some CLIENT_ALLOW,
             d_reason := prefixed_reason ''llm_approved'' merged, d_llm_system_prompt := None\<rparr>
         | VerdictDeny \<Rightarrow> d\<lparr>d_action := DENY, d_client_action := Some CLIENT_DENY,
             d_reason := prefixed_reason ''llm_denied'' merged, d_llm_system_prompt := None\<rparr>
         | VerdictHuman \<Rightarrow> d\<lparr>d_action := HUMAN_CHECK, d_client_action := Some CLIENT_HUMAN_CHECK,
             d_reason := prefixed_reason ''llm_escalated'' merged, d_llm_system_prompt := None\<rparr>)"

definition resolve_remote_decision :: "enf_env \<Rightarrow> runtime_event \<Rightarrow> decision \<Rightarrow> decision" where
  "resolve_remote_decision env event d =
     (if d_action d \<noteq> LLM_CHECK then
        (if d_client_action d \<noteq> None then d
         else d\<lparr>d_client_action := Some (to_client_action d)\<rparr>)
      else resolve_llm_check_decision env event d)"

text \<open>
  \<open>revalidate\<close> is a parameter; the pipeline passes its own evaluation, which also updates the
  extras of the event in place, so the answer carries the event.
\<close>

type_synonym 's revalidator = "(runtime_event \<Rightarrow> ('s, decision \<times> runtime_event) step) option"

fun human_check ::
  "enf_env \<Rightarrow> 'z enf_state_scheme revalidator \<Rightarrow> nat \<Rightarrow> runtime_event \<Rightarrow> decision \<Rightarrow>
   ('z enf_state_scheme, pyval) step"
and degrade ::
  "enf_env \<Rightarrow> 'z enf_state_scheme revalidator \<Rightarrow> nat \<Rightarrow> nat \<Rightarrow> runtime_event \<Rightarrow> decision \<Rightarrow>
   ('z enf_state_scheme, pyval) step" where
  "human_check env rv 0 event d s = (Inl RecursionError, s)"
| "human_check env rv (Suc n) event d s =
     (let tid = en_fresh env (es_bridge s);
          queued = enqueue tid (floor (en_now env * 1000)) event d (es_bridge s)
      in if ec_approval_mode (en_config env) = ''suspend''
         then (Inl (HumanApprovalPending tid ''human_approval_required''), s\<lparr>es_bridge := queued\<rparr>)
         else
           (let (answer, settled) = finish_wait tid (en_meanwhile env tid queued);
                s1 = s\<lparr>es_bridge := settled\<rparr>
            in case answer of
                 Inl e \<Rightarrow> (Inl e, s1)
               | Inr ticket \<Rightarrow>
                   if tk_status ticket = Approved then enforce_allow env event d s1
                   else if tk_status ticket = Denied then
                     (Inl (denied event d (''human_denied: '' @ str_or (tk_note ticket) (d_reason d))), s1)
                   else if ec_on_timeout (en_config env) = ''allow'' then run_original env event s1
                   else if ec_on_timeout (en_config env) = ''degrade'' \<and>
                           d_degrade_profile d \<noteq> None \<and> d_degrade_profile d \<noteq> Some []
                     then degrade env rv n 0 event d s1
                   else (Inl (denied event d ''human_approval_timeout''), s1)))"
| "degrade env rv 0 depth event d s = (Inl RecursionError, s)"
| "degrade env rv (Suc n) depth event d s =
     (case ev_tool_call event of
        None \<Rightarrow> run_original env event s
      | Some tc \<Rightarrow>
          (case apply_rewrites (en_ext env) (en_profiles env) event d of
             Inl e \<Rightarrow> (Inl e, s)
           | Inr None \<Rightarrow> (Inl AssertionError, s)
           | Inr (Some tc') \<Rightarrow>
               if tc' = tc then run_original env event s
               else
                 (let event' = with_tool_call event tc' in
                  if depth < ec_max_rewrite_depth (en_config env) then
                    (case rv of
                       None \<Rightarrow> run_original env event' s
                     | Some check \<Rightarrow>
                         (let (answer, s1) = check event' s in
                          case answer of
                            Inl e \<Rightarrow> (Inl e, s1)
                          | Inr (d', event'') \<Rightarrow>
                              if d_action d' = DEGRADE \<and> d_matched_rules d' \<noteq> d_matched_rules d
                                then degrade env rv n (Suc depth) event'' d' s1
                              else if d_action d' = DENY then enforce_deny event'' d' s1
                              else if d_action d' = HUMAN_CHECK \<or> d_action d' = LLM_CHECK
                                then human_check env rv n event'' d' s1
                              else run_original env event'' s1))
                  else run_original env event' s)))"

definition llm_check ::
  "enf_env \<Rightarrow> 'z enf_state_scheme revalidator \<Rightarrow> nat \<Rightarrow> runtime_event \<Rightarrow> decision \<Rightarrow>
   ('z enf_state_scheme, pyval) step" where
  "llm_check env rv n event d s =
     (let resolved = resolve_llm_check_decision env event d in
      if d_action resolved = ALLOW then enforce_allow env event resolved s
      else if d_action resolved = DENY then enforce_deny event resolved s
      else human_check env rv n event resolved s)"

definition decision_dump :: "decision \<Rightarrow> pyval" where
  "decision_dump d = VDict
     [(''action'', VStr (action_value (d_action d))),
      (''risk_score'', VFloat (d_risk_score d)),
      (''matched_rules'', VList (map VStr (d_matched_rules d))),
      (''obligations'', VList (map (\<lambda>ob. VDict [(''kind'', VStr (ob_kind ob)),
         (''params'', VDict (ob_params ob))]) (d_obligations d))),
      (''rule_version'', VStr (d_rule_version d)),
      (''ttl_ms'', VInt (d_ttl_ms d)),
      (''reason'', VStr (d_reason d)),
      (''degrade_profile'', of_option VStr (d_degrade_profile d)),
      (''client_action'', of_option (VStr \<circ> client_action_value) (d_client_action d))]"

definition enforcer_apply ::
  "enf_env \<Rightarrow> 'z enf_state_scheme revalidator \<Rightarrow> nat \<Rightarrow> runtime_event \<Rightarrow> decision \<Rightarrow>
   ('z enf_state_scheme, pyval) step" where
  "enforcer_apply env rv n event d s =
     (if ec_mode (en_config env) = ''monitor'' then run_original env event s
      else if ec_mode (en_config env) = ''dry_run''
        then (Inr (VDict [(''agentguard_dry_run'', VBool True), (''decision'', decision_dump d)]), s)
      else (case d_action d of
              ALLOW \<Rightarrow> enforce_allow env event d s
            | DENY \<Rightarrow> enforce_deny event d s
            | LLM_CHECK \<Rightarrow> llm_check env rv n event d s
            | HUMAN_CHECK \<Rightarrow> human_check env rv n event d s
            | DEGRADE \<Rightarrow> degrade env rv n 0 event d s))"

subsection \<open>How often the tool runs\<close>

definition ran_at_most_once :: "'z enf_state_scheme \<Rightarrow> 'z enf_state_scheme \<Rightarrow> bool" where
  "ran_at_most_once s s' \<longleftrightarrow> (\<exists>evs. es_executed s' = es_executed s @ evs \<and> length evs \<le> 1)"

definition not_run :: "'z enf_state_scheme \<Rightarrow> 'z enf_state_scheme \<Rightarrow> bool" where
  "not_run s s' \<longleftrightarrow> es_executed s' = es_executed s"

text \<open>A revalidator evaluates without running the tool.\<close>

definition rv_quiet :: "'z enf_state_scheme revalidator \<Rightarrow> bool" where
  "rv_quiet rv \<longleftrightarrow> (\<forall>check ev s. rv = Some check \<longrightarrow> not_run s (snd (check ev s)))"

lemma not_run_once: "not_run s s' \<Longrightarrow> ran_at_most_once s s'"
  by (simp add: not_run_def ran_at_most_once_def)

lemma not_run_refl [simp]: "not_run s s"
  by (simp add: not_run_def)

lemma not_run_trans: "not_run s t \<Longrightarrow> ran_at_most_once t u \<Longrightarrow> ran_at_most_once s u"
  by (simp add: not_run_def ran_at_most_once_def)

lemma run_original_once: "ran_at_most_once s (snd (run_original env ev s))"
  by (simp add: run_original_def ran_at_most_once_def)

lemma not_run_fields [simp]:
  "not_run s (s\<lparr>es_bridge := b\<rparr>)" "not_run s (s\<lparr>es_rates := r\<rparr>)"
  by (simp_all add: not_run_def)

lemma enforce_deny_not_run [simp]: "snd (enforce_deny ev d s) = s"
  by (simp add: enforce_deny_def)

lemma enforce_allow_once: "ran_at_most_once s (snd (enforce_allow env ev d s))"
proof -
  have run: "ran_at_most_once s (snd (run_original env e (s\<lparr>es_rates := r\<rparr>)))" for e r
    by (rule not_run_trans [OF _ run_original_once]) simp
  then show ?thesis
    by (auto simp: enforce_allow_def Let_def run_original_once not_run_once split: prod.splits sum.splits option.splits)
qed

lemma wait_degrade_once:
  "rv_quiet rv \<Longrightarrow> ran_at_most_once s (snd (human_check env rv n ev d s))"
  "rv_quiet rv \<Longrightarrow> ran_at_most_once s (snd (degrade env rv n depth ev d s))"
proof (induction env rv n ev d s and env rv n depth ev d s rule: human_check_degrade.induct)
  case (1 env rv ev d s)
  then show ?case by (simp add: not_run_once)
next
  case (2 env rv n ev d s)
  have allow: "ran_at_most_once s (snd (enforce_allow env ev d (s\<lparr>es_bridge := b\<rparr>)))" for b
    by (rule not_run_trans [OF _ enforce_allow_once]) simp
  have orig: "ran_at_most_once s (snd (run_original env ev (s\<lparr>es_bridge := b\<rparr>)))" for b
    by (rule not_run_trans [OF _ run_original_once]) simp
  have deg: "ran_at_most_once s (snd (degrade env rv n 0 ev d (s\<lparr>es_bridge := b\<rparr>)))"
    if "ran_at_most_once (s\<lparr>es_bridge := b\<rparr>) (snd (degrade env rv n 0 ev d (s\<lparr>es_bridge := b\<rparr>)))" for b
    using that by (rule not_run_trans [rotated]) simp
  show ?case
    using 2 by (auto simp: Let_def not_run_once allow orig intro!: deg split: prod.splits sum.splits)
next
  case (3 env rv depth ev d s)
  then show ?case by (simp add: not_run_once)
next
  case (4 env rv n depth ev d s)
  have quiet: "not_run s s1" if "rv = Some check" "check e s = (a, s1)" for check e a s1
    using 4(3) that by (auto simp: rv_quiet_def) (metis snd_conv)
  show ?case
    using 4 by (auto simp: Let_def not_run_once run_original_once quiet
        intro: not_run_trans [OF quiet] not_run_trans [OF quiet run_original_once]
        split: option.splits prod.splits sum.splits)
qed

lemma enforcer_apply_once:
  assumes "rv_quiet rv"
  shows "ran_at_most_once s (snd (enforcer_apply env rv n ev d s))"
  using assms
  by (auto simp: enforcer_apply_def llm_check_def Let_def run_original_once not_run_once
      enforce_allow_once wait_degrade_once split: action.splits)

text \<open>
  What the enforcer does to the rest of the state is what its own fields and the revalidator do.
\<close>

definition enf_stable :: "('z enf_state_scheme \<Rightarrow> bool) \<Rightarrow> bool" where
  "enf_stable P \<longleftrightarrow> (\<forall>s b r x. P s \<longrightarrow>
     P (s\<lparr>es_bridge := b\<rparr>) \<and> P (s\<lparr>es_rates := r\<rparr>) \<and> P (s\<lparr>es_executed := x\<rparr>))"

definition rv_keeps :: "('z enf_state_scheme \<Rightarrow> bool) \<Rightarrow> 'z enf_state_scheme revalidator \<Rightarrow> bool" where
  "rv_keeps P rv \<longleftrightarrow> (\<forall>check ev s. rv = Some check \<longrightarrow> P s \<longrightarrow> P (snd (check ev s)))"

lemma enf_stableD:
  assumes "enf_stable P" and "P s"
  shows "P (s\<lparr>es_bridge := b\<rparr>)" "P (s\<lparr>es_rates := r\<rparr>)" "P (s\<lparr>es_executed := x\<rparr>)"
  using assms by (auto simp: enf_stable_def)

lemma run_original_keeps: "enf_stable P \<Longrightarrow> P s \<Longrightarrow> P (snd (run_original env ev s))"
  by (simp add: run_original_def enf_stableD)

lemma enforce_allow_keeps: "enf_stable P \<Longrightarrow> P s \<Longrightarrow> P (snd (enforce_allow env ev d s))"
  by (auto simp: enforce_allow_def Let_def run_original_keeps enf_stableD
      split: prod.splits sum.splits option.splits)

lemma wait_degrade_keeps:
  "enf_stable P \<Longrightarrow> rv_keeps P rv \<Longrightarrow> P s \<Longrightarrow> P (snd (human_check env rv n ev d s))"
  "enf_stable P \<Longrightarrow> rv_keeps P rv \<Longrightarrow> P s \<Longrightarrow> P (snd (degrade env rv n depth ev d s))"
proof (induction env rv n ev d s and env rv n depth ev d s rule: human_check_degrade.induct)
  case (2 env rv n ev d s)
  then show ?case
    by (auto simp: Let_def enf_stableD enforce_allow_keeps run_original_keeps
        split: prod.splits sum.splits)
next
  case (4 env rv n depth ev d s)
  have keep: "P s1" if "rv = Some check" "check e s = (a, s1)" for check e a s1
    using 4(4,5) that by (auto simp: rv_keeps_def) (metis snd_conv)
  show ?case
    using 4 by (auto simp: Let_def run_original_keeps keep
        split: option.splits prod.splits sum.splits)
qed simp_all

lemma enforcer_apply_keeps:
  assumes "enf_stable P" "rv_keeps P rv" "P s"
  shows "P (snd (enforcer_apply env rv n ev d s))"
  using assms
  by (auto simp: enforcer_apply_def llm_check_def Let_def run_original_keeps
      enforce_allow_keeps wait_degrade_keeps split: action.splits)

subsection \<open>What an execution implies\<close>

lemma enforce_allow_ran:
  assumes "\<not> not_run s (snd (enforce_allow env ev d s))" and "d_obligations d \<noteq> []"
  obtains rates rewritten where
    "check_rate_limit (en_ext env) (en_now env) ev d (es_rates s) = (Inr None, rates)"
    "apply_rewrites (en_ext env) (en_profiles env) ev d = Inr rewritten"
    "check_require_target_in (en_ext env)
       (case rewritten of Some tc \<Rightarrow> with_tool_call ev tc | None \<Rightarrow> ev) d = Inr None"
    "es_executed (snd (enforce_allow env ev d s)) = es_executed s @
       [case rewritten of Some tc \<Rightarrow> with_tool_call ev tc | None \<Rightarrow> ev]"
  using assms
  by (auto simp: enforce_allow_def Let_def run_original_def split: prod.splits sum.splits option.splits)

text \<open>The status of the ticket of a call when the wait is over.\<close>

definition ticket_after ::
  "enf_env \<Rightarrow> runtime_event \<Rightarrow> decision \<Rightarrow> approval_bridge \<Rightarrow> ticket_status option" where
  "ticket_after env ev d b =
     (let tid = en_fresh env b
      in status_of (snd (finish_wait tid
           (en_meanwhile env tid (enqueue tid (floor (en_now env * 1000)) ev d b)))) tid)"

lemma human_check_ran:
  assumes "\<not> not_run s (snd (human_check env rv n ev d s))"
    and "ec_on_timeout (en_config env) \<noteq> ''allow''" "ec_on_timeout (en_config env) \<noteq> ''degrade''"
  shows "ticket_after env ev d (es_bridge s) = Some Approved"
proof (cases n)
  case 0
  with assms(1) show ?thesis by simp
next
  case (Suc m)
  obtain answer settled where wait: "finish_wait (en_fresh env (es_bridge s))
      (en_meanwhile env (en_fresh env (es_bridge s)) (enqueue (en_fresh env (es_bridge s))
        (floor (en_now env * 1000)) ev d (es_bridge s))) = (answer, settled)"
    by fastforce
  with assms Suc obtain ticket where "answer = Inr ticket" "tk_status ticket = Approved"
    by (auto simp: Let_def split: if_splits sum.splits)
  with wait show ?thesis
    by (auto simp: ticket_after_def Let_def finish_wait_def status_of_def split: option.splits)
qed

text \<open>
  In enforce mode, with timeouts that deny, a tool runs only on an allow or a degrade, on a
  reviewer's allow, or on an approved ticket.
\<close>

definition may_run :: "enf_env \<Rightarrow> runtime_event \<Rightarrow> decision \<Rightarrow> approval_bridge \<Rightarrow> bool" where
  "may_run env ev d b \<longleftrightarrow>
     (case d_action d of
        ALLOW \<Rightarrow> True | DEGRADE \<Rightarrow> True | DENY \<Rightarrow> False
      | HUMAN_CHECK \<Rightarrow> ticket_after env ev d b = Some Approved
      | LLM_CHECK \<Rightarrow>
          (let resolved = resolve_llm_check_decision env ev d
           in d_action resolved = ALLOW \<or>
              (d_action resolved = HUMAN_CHECK \<and> ticket_after env ev resolved b = Some Approved)))"

lemma resolved_action: "d_action (resolve_llm_check_decision env ev d) \<in> {ALLOW, DENY, HUMAN_CHECK}"
  by (simp add: resolve_llm_check_decision_def Let_def split: prod.splits verdict.splits)

lemma enforcer_ran:
  assumes "\<not> not_run s (snd (enforcer_apply env rv n ev d s))"
    and "ec_mode (en_config env) \<notin> {''monitor'', ''dry_run''}"
    and "ec_on_timeout (en_config env) \<notin> {''allow'', ''degrade''}"
  shows "may_run env ev d (es_bridge s)"
proof (cases "d_action d")
  case LLM_CHECK
  then show ?thesis
    using assms resolved_action [of env ev d]
      human_check_ran [of s env rv n ev "resolve_llm_check_decision env ev d"]
    by (auto simp: may_run_def enforcer_apply_def llm_check_def Let_def split: if_splits)
next
  case HUMAN_CHECK
  then show ?thesis
    using assms human_check_ran [of s env rv n ev d] by (simp add: may_run_def enforcer_apply_def)
qed (use assms in \<open>simp_all add: may_run_def enforcer_apply_def\<close>)

text \<open>A suspended check runs nothing and leaves a pending ticket.\<close>

lemma human_check_suspend:
  assumes "ec_approval_mode (en_config env) = ''suspend''"
  shows "\<exists>s'. human_check env rv (Suc n) ev d s =
     (Inl (HumanApprovalPending (en_fresh env (es_bridge s)) ''human_approval_required''), s') \<and>
     not_run s s' \<and> status_of (es_bridge s') (en_fresh env (es_bridge s)) = Some Pending"
  using assms by (simp add: Let_def status_enqueue)

lemma resolved_not_llm: "d_action (resolve_llm_check_decision env ev d) \<noteq> LLM_CHECK"
  by (simp add: resolve_llm_check_decision_def Let_def split: prod.splits verdict.splits)

lemma resolved_without_backend:
  "en_llm env = None \<Longrightarrow> d_action (resolve_llm_check_decision env ev d) = HUMAN_CHECK"
  by (simp add: resolve_llm_check_decision_def review_verdict_def)

lemma resolved_allow_iff:
  "d_action (resolve_llm_check_decision env ev d) = ALLOW \<longleftrightarrow>
     (\<exists>chat content. en_llm env = Some chat \<and> chat ev d = Inr content \<and>
        fst (parse_llm_review_response content) = VerdictAllow)"
  by (auto simp: resolve_llm_check_decision_def review_verdict_def Let_def
      split: option.splits sum.splits prod.splits verdict.splits)

subsection \<open>Frames\<close>

text \<open>
  Unless a timed-out approval degrades again, a waiting check never recurses and a degradation
  re-evaluates at most \<open>max_rewrite_depth\<close> times; more frames change nothing.
\<close>

lemma human_check_frames:
  assumes "ec_on_timeout (en_config env) \<noteq> ''degrade''"
  shows "human_check env rv (Suc n) ev d s = human_check env rv (Suc m) ev d s"
  using assms by (simp add: Let_def split: prod.splits sum.splits)

lemma degrade_frames:
  fixes rv :: "'z enf_state_scheme revalidator"
  assumes "ec_on_timeout (en_config env) \<noteq> ''degrade''"
    and "ec_max_rewrite_depth (en_config env) + 2 \<le> n + depth"
    and "ec_max_rewrite_depth (en_config env) + 2 \<le> m + depth" and "0 < n" and "0 < m"
  shows "degrade env rv n depth ev d s = degrade env rv m depth ev d s"
  using assms(2-5)
proof (induction n arbitrary: m depth ev d s rv)
  case 0
  then show ?case by simp
next
  case (Suc n)
  obtain k where m: "m = Suc k" using Suc.prems(4) by (cases m) auto
  have human: "human_check env rv' n ev' d' s' = human_check env rv' k ev' d' s'"
    if "depth < ec_max_rewrite_depth (en_config env)" for rv' :: "'z enf_state_scheme revalidator" and ev' d' s'
  proof -
    have "n \<noteq> 0" "k \<noteq> 0" using that Suc.prems(1,2) m by auto
    then obtain i j where "n = Suc i" "k = Suc j" by (meson not0_implies_Suc)
    then show ?thesis using human_check_frames [OF assms(1)] by metis
  qed
  have deg: "degrade env rv' n (Suc depth) ev' d' s' = degrade env rv' k (Suc depth) ev' d' s'"
    if "depth < ec_max_rewrite_depth (en_config env)" for rv' :: "'z enf_state_scheme revalidator" and ev' d' s'
    using that Suc.prems m by (intro Suc.IH) auto
  show ?case
    by (auto simp: m Let_def human deg split: option.splits sum.splits prod.splits)
qed

end
