(* ===== verification/Audit_Log.thy ===== *)
theory Audit_Log
  imports Events
begin

text \<open>
  The audit ring buffer (\<open>audit/logger.py\<close>): the newest records up to the buffer size, a count
  of the evicted ones and a one-time warning near capacity.
\<close>

type_synonym audit_record = "runtime_event \<times> decision option"

record audit_log =
  al_buffer_size :: nat
  al_buf :: "audit_record list"
  al_dropped_count :: nat
  al_warned_full :: bool
  al_sink :: "audit_record list"

definition new_audit_log :: "nat \<Rightarrow> audit_log" where
  "new_audit_log cap = \<lparr>al_buffer_size = cap, al_buf = [], al_dropped_count = 0,
     al_warned_full = False, al_sink = []\<rparr>"

text \<open>The optional sink is the list of records handed to it.\<close>

definition audit_log_record :: "runtime_event \<Rightarrow> decision option \<Rightarrow> audit_log \<Rightarrow> audit_log" where
  "audit_log_record event d lg =
     (let record = (event, d); current = length (al_buf lg); cap = al_buffer_size lg;
          full = (cap \<le> current);
          warn = (\<not> full \<and> \<not> al_warned_full lg \<and> (cap * 80) div 100 \<le> current)
      in lg\<lparr>al_buf := push_right cap (al_buf lg) record,
             al_dropped_count := (if full then al_dropped_count lg + 1 else al_dropped_count lg),
             al_warned_full := (al_warned_full lg \<or> warn),
             al_sink := al_sink lg @ [record]\<rparr>)"

definition audit_recent :: "nat \<Rightarrow> audit_log \<Rightarrow> audit_record list" where
  "audit_recent n lg = (if n = 0 then al_buf lg else last_n n (al_buf lg))"

definition audit_all :: "audit_record list \<Rightarrow> audit_log \<Rightarrow> audit_log" where
  "audit_all records lg = foldl (\<lambda>l r. audit_log_record (fst r) (snd r) l) lg records"

text \<open>The buffer is the tail of everything logged, and the counter says how much is missing.\<close>

definition audit_ok :: "audit_log \<Rightarrow> bool" where
  "audit_ok lg \<longleftrightarrow> al_buf lg = last_n (al_buffer_size lg) (al_sink lg) \<and>
     al_dropped_count lg + length (al_buf lg) = length (al_sink lg)"

lemma audit_ok_new [guard_intros]: "audit_ok (new_audit_log cap)"
  by (simp add: audit_ok_def new_audit_log_def)

lemma audit_ok_record [guard_intros]: "audit_ok lg \<Longrightarrow> audit_ok (audit_log_record ev d lg)"
  by (auto simp: audit_ok_def audit_log_record_def Let_def push_right_last_n)

lemma audit_buffer_size [simp]: "al_buffer_size (audit_log_record ev d lg) = al_buffer_size lg"
  by (simp add: audit_log_record_def Let_def)

lemma audit_sink_record [simp]: "al_sink (audit_log_record ev d lg) = al_sink lg @ [(ev, d)]"
  by (simp add: audit_log_record_def Let_def)

lemma audit_ok_all: "audit_ok lg \<Longrightarrow> audit_ok (audit_all records lg)"
  by (induction records arbitrary: lg) (simp_all add: audit_all_def audit_ok_record)

lemma audit_all_fields:
  "al_buffer_size (audit_all records lg) = al_buffer_size lg"
  "al_sink (audit_all records lg) = al_sink lg @ records"
  by (induction records arbitrary: lg) (simp_all add: audit_all_def)

end
