(* ===== verification/Stats.thy ===== *)
theory Stats
  imports Events "HOL-Library.Multiset"
begin

text \<open>
  The pipeline counters (\<open>telemetry/stats.py\<close>).  A \<open>Counter\<close> is a dictionary of positive counts
  in the order of first occurrence; times are rationals.
\<close>

subsection \<open>Counters\<close>

type_synonym counter = "(string, nat) dict"

definition counter_get :: "counter \<Rightarrow> string \<Rightarrow> nat" where
  "counter_get c k = dict_getd c k 0"

definition counter_incr :: "string \<Rightarrow> counter \<Rightarrow> counter" where
  "counter_incr k c = dict_set k (counter_get c k + 1) c"

definition counter_update :: "string list \<Rightarrow> counter \<Rightarrow> counter" where
  "counter_update ks c = foldl (\<lambda>c k. counter_incr k c) c ks"

definition counter_total :: "counter \<Rightarrow> nat" where
  "counter_total c = sum_list (map snd c)"

text \<open>\<open>most_common(n)\<close>: by falling count, ties in order of first occurrence.\<close>

definition most_common :: "nat \<Rightarrow> counter \<Rightarrow> (string \<times> nat) list" where
  "most_common n c = take n (sort_key (\<lambda>p. - int (snd p)) c)"

lemma counter_get_incr [simp]:
  "counter_get (counter_incr k c) j = counter_get c j + (if j = k then 1 else 0)"
  by (simp add: counter_get_def counter_incr_def dict_getd_def)

lemma counter_get_update: "counter_get (counter_update ks c) j = counter_get c j + count_list ks j"
  by (induction ks arbitrary: c) (simp_all add: counter_update_def)

lemma distinct_counter_incr: "distinct (map fst c) \<Longrightarrow> distinct (map fst (counter_incr k c))"
  by (simp add: counter_incr_def distinct_update)

lemma counter_get_Cons: "counter_get ((j, m) # c) k = (if j = k then m else counter_get c k)"
  by (simp add: counter_get_def dict_getd_def)

lemma counter_get_absent: "k \<notin> fst ` set c \<Longrightarrow> counter_get c k = 0"
  by (simp add: counter_get_def dict_getd_def map_of_eq_None_iff [THEN iffD2])

lemma counter_total_set:
  "distinct (map fst c) \<Longrightarrow> counter_total (dict_set k n c) + counter_get c k = counter_total c + n"
proof (induction c)
  case Nil
  then show ?case by (simp add: counter_total_def counter_get_def dict_getd_def)
next
  case (Cons p c)
  obtain j m where p: "p = (j, m)" by (cases p)
  show ?case
    using Cons by (cases "j = k") (auto simp: p counter_get_Cons counter_total_def)
qed

lemma counter_total_incr:
  "distinct (map fst c) \<Longrightarrow> counter_total (counter_incr k c) = counter_total c + 1"
  using counter_total_set [of c k "counter_get c k + 1"] by (simp add: counter_incr_def)

lemma counter_get_le_total: "counter_get c k \<le> counter_total c"
  by (induction c) (auto simp: counter_get_def dict_getd_def counter_total_def)

lemma counter_two_le_total:
  assumes "j \<noteq> k" and "distinct (map fst c)"
  shows "counter_get c j + counter_get c k \<le> counter_total c"
  using assms(2)
proof (induction c)
  case Nil
  then show ?case by (simp add: counter_get_def dict_getd_def)
next
  case (Cons p c)
  with assms(1) counter_get_le_total [of c j] counter_get_le_total [of c k] show ?case
    by (cases p) (auto simp: counter_get_Cons counter_total_def)
qed

text \<open>Every entry listed among the most common has at least the count of one left out.\<close>

lemma most_common_max:
  assumes "p \<in> set (most_common n c)" "q \<in> set (drop n (sort_key (\<lambda>p. - int (snd p)) c))"
  shows "snd q \<le> snd p"
proof -
  let ?s = "sort_key (\<lambda>p. - int (snd p)) c"
  have "sorted (map (\<lambda>p. - int (snd p)) (take n ?s @ drop n ?s))" by simp
  then have "- int (snd p) \<le> - int (snd q)"
    using assms unfolding map_append sorted_append most_common_def by fastforce
  then show ?thesis by simp
qed

subsection \<open>State\<close>

record traffic_entry =
  te_ts :: rat
  te_tool :: string
  te_agent :: string
  te_session :: string
  te_action :: string
  te_latency_ms :: rat
  te_risk :: rat
  te_rules :: "string list"
  te_reason :: string

record pipeline_stats =
  ps_total :: nat
  ps_action_counts :: counter
  ps_tool_counts :: counter
  ps_agent_counts :: counter
  ps_deny_tool_counts :: counter
  ps_deny_agent_counts :: counter
  ps_matched_rule_counts :: counter
  ps_latency_hist :: counter
  ps_latency_sum_ms :: rat
  ps_latency_max_ms :: rat
  ps_start_ts :: rat
  ps_traffic :: "traffic_entry list"
  ps_traffic_window :: nat
  ps_top_n :: nat

definition new_stats :: "rat \<Rightarrow> nat \<Rightarrow> nat \<Rightarrow> pipeline_stats" where
  "new_stats now window n = \<lparr>ps_total = 0, ps_action_counts = [], ps_tool_counts = [],
     ps_agent_counts = [], ps_deny_tool_counts = [], ps_deny_agent_counts = [],
     ps_matched_rule_counts = [], ps_latency_hist = [], ps_latency_sum_ms = 0,
     ps_latency_max_ms = 0, ps_start_ts = now, ps_traffic = [], ps_traffic_window = window,
     ps_top_n = n\<rparr>"

subsection \<open>Recording\<close>

text \<open>\<open>round(x, n)\<close>: to the nearest multiple of \<open>10^-n\<close>, ties to the even one.\<close>

definition round_half_even :: "rat \<Rightarrow> int" where
  "round_half_even x =
     (let f = \<lfloor>x\<rfloor>; r = x - of_int f
      in if r < 1/2 then f else if 1/2 < r then f + 1 else if even f then f else f + 1)"

definition py_round :: "rat \<Rightarrow> nat \<Rightarrow> rat" where
  "py_round x n = of_int (round_half_even (x * 10 ^ n)) / 10 ^ n"

definition latency_bucket :: "rat \<Rightarrow> string" where
  "latency_bucket ms =
     (if ms < 5 then ''<5ms'' else if ms < 15 then ''5-15ms'' else if ms < 50 then ''15-50ms''
      else ''>=50ms'')"

definition stats_record ::
  "string \<Rightarrow> string \<Rightarrow> string \<Rightarrow> string \<Rightarrow> string list \<Rightarrow> rat \<Rightarrow> rat \<Rightarrow> string \<Rightarrow> rat \<Rightarrow>
   pipeline_stats \<Rightarrow> pipeline_stats" where
  "stats_record tool agent session act rules latency risk reason ts st =
     (let bucket = latency_bucket latency;
          is_deny = (str_lower act \<in> {''deny'', ''human_check''});
          entry = \<lparr>te_ts = ts, te_tool = tool, te_agent = agent, te_session = session,
            te_action = act, te_latency_ms = py_round latency 2, te_risk = py_round risk 3,
            te_rules = rules, te_reason = reason\<rparr>
      in st\<lparr>ps_total := ps_total st + 1,
            ps_action_counts := counter_incr (str_lower act) (ps_action_counts st),
            ps_tool_counts := counter_incr tool (ps_tool_counts st),
            ps_agent_counts := counter_incr agent (ps_agent_counts st),
            ps_matched_rule_counts := counter_update rules (ps_matched_rule_counts st),
            ps_latency_hist := counter_incr bucket (ps_latency_hist st),
            ps_latency_sum_ms := ps_latency_sum_ms st + latency,
            ps_latency_max_ms := max (ps_latency_max_ms st) latency,
            ps_deny_tool_counts :=
              (if is_deny then counter_incr tool (ps_deny_tool_counts st) else ps_deny_tool_counts st),
            ps_deny_agent_counts :=
              (if is_deny then counter_incr agent (ps_deny_agent_counts st) else ps_deny_agent_counts st),
            ps_traffic := push_left (ps_traffic_window st) entry (ps_traffic st)\<rparr>)"

subsection \<open>Reading\<close>

record stats_summary =
  ss_total_requests :: nat
  ss_uptime_s :: rat
  ss_deny_rate :: rat
  ss_by_action :: counter
  ss_avg :: rat
  ss_max :: rat
  ss_histogram :: counter
  ss_top_tools :: "(string \<times> nat) list"
  ss_top_agents :: "(string \<times> nat) list"
  ss_top_denied_tools :: "(string \<times> nat) list"
  ss_top_denied_agents :: "(string \<times> nat) list"
  ss_top_matched_rules :: "(string \<times> nat) list"

definition rate_of :: "nat \<Rightarrow> nat \<Rightarrow> rat" where
  "rate_of part whole = (if whole = 0 then 0 else py_round (of_nat part / of_nat whole) 4)"

definition stats_deny_count :: "pipeline_stats \<Rightarrow> nat" where
  "stats_deny_count st =
     counter_get (ps_action_counts st) ''deny'' + counter_get (ps_action_counts st) ''human_check''"

definition stats_summary_of :: "rat \<Rightarrow> pipeline_stats \<Rightarrow> stats_summary" where
  "stats_summary_of now st =
     (let n_req = ps_total st; n = ps_top_n st in
      \<lparr>ss_total_requests = n_req, ss_uptime_s = py_round (now - ps_start_ts st) 1,
       ss_deny_rate = rate_of (stats_deny_count st) n_req,
       ss_by_action = ps_action_counts st,
       ss_avg = (if n_req = 0 then 0 else py_round (ps_latency_sum_ms st / of_nat n_req) 2),
       ss_max = py_round (ps_latency_max_ms st) 2,
       ss_histogram = ps_latency_hist st,
       ss_top_tools = most_common n (ps_tool_counts st),
       ss_top_agents = most_common n (ps_agent_counts st),
       ss_top_denied_tools = most_common n (ps_deny_tool_counts st),
       ss_top_denied_agents = most_common n (ps_deny_agent_counts st),
       ss_top_matched_rules = most_common n (ps_matched_rule_counts st)\<rparr>)"

definition summary_agent :: "string \<Rightarrow> rat \<Rightarrow> pipeline_stats \<Rightarrow> nat \<times> rat \<times> nat \<times> rat" where
  "summary_agent agent now st =
     (let calls = counter_get (ps_agent_counts st) agent;
          deny = counter_get (ps_deny_agent_counts st) agent
      in (calls, py_round (now - ps_start_ts st) 1, deny, rate_of deny calls))"

definition recent_traffic :: "nat \<Rightarrow> pipeline_stats \<Rightarrow> traffic_entry list" where
  "recent_traffic n st = take n (ps_traffic st)"

definition traffic_by_action :: "string \<Rightarrow> nat \<Rightarrow> pipeline_stats \<Rightarrow> traffic_entry list" where
  "traffic_by_action act n st =
     take n (filter (\<lambda>e. str_lower (te_action e) = str_lower act) (ps_traffic st))"

definition stats_reset :: "rat \<Rightarrow> pipeline_stats \<Rightarrow> pipeline_stats" where
  "stats_reset now st = new_stats now (ps_traffic_window st) (ps_top_n st)"

subsection \<open>Consistency of the counters\<close>

definition counter_ok :: "nat \<Rightarrow> counter \<Rightarrow> bool" where
  "counter_ok n c \<longleftrightarrow> distinct (map fst c) \<and> counter_total c = n"

definition stats_ok :: "pipeline_stats \<Rightarrow> bool" where
  "stats_ok st \<longleftrightarrow>
     counter_ok (ps_total st) (ps_action_counts st) \<and> counter_ok (ps_total st) (ps_tool_counts st) \<and>
     counter_ok (ps_total st) (ps_agent_counts st) \<and> counter_ok (ps_total st) (ps_latency_hist st) \<and>
     counter_ok (stats_deny_count st) (ps_deny_tool_counts st) \<and>
     counter_ok (stats_deny_count st) (ps_deny_agent_counts st) \<and>
     (\<forall>a. counter_get (ps_deny_agent_counts st) a \<le> counter_get (ps_agent_counts st) a) \<and>
     length (ps_traffic st) = min (ps_traffic_window st) (ps_total st)"

lemma counter_ok_incr [guard_intros]: "counter_ok n c \<Longrightarrow> counter_ok (n + 1) (counter_incr k c)"
  by (simp add: counter_ok_def distinct_counter_incr counter_total_incr)

lemma counter_ok_Nil [guard_intros]: "counter_ok 0 []"
  by (simp add: counter_ok_def counter_total_def)

lemma stats_deny_count_record:
  "stats_deny_count (stats_record tool agent session act rules latency risk reason ts st) =
     stats_deny_count st + (if str_lower act \<in> {''deny'', ''human_check''} then 1 else 0)"
  by (auto simp: stats_deny_count_def stats_record_def Let_def)

lemma stats_ok_new [guard_intros]: "stats_ok (new_stats now window n)"
  by (simp add: stats_ok_def new_stats_def stats_deny_count_def counter_ok_def counter_total_def
      counter_get_def dict_getd_def)

lemma stats_ok_record [guard_intros]:
  assumes "stats_ok st"
  shows "stats_ok (stats_record tool agent session act rules latency risk reason ts st)"
proof -
  have "counter_get (ps_deny_agent_counts st) a \<le> counter_get (ps_agent_counts st) a + 1" for a
    using assms unfolding stats_ok_def using trans_le_add1 by blast
  then show ?thesis
    using assms unfolding stats_ok_def stats_deny_count_record
    by (auto simp: stats_record_def Let_def length_push_left
        dest: counter_ok_incr simp del: One_nat_def)
qed

lemma stats_ok_reset [guard_intros]: "stats_ok (stats_reset now st)"
  by (simp add: stats_reset_def stats_ok_new)

lemma round_half_even_mono_bounds:
  "of_int a \<le> x \<Longrightarrow> a \<le> round_half_even x"
  "x \<le> of_int b \<Longrightarrow> round_half_even x \<le> b"
proof -
  show "a \<le> round_half_even x" if "of_int a \<le> x"
  proof -
    have "a \<le> \<lfloor>x\<rfloor>" using that by (simp add: le_floor_iff)
    then show ?thesis by (simp add: round_half_even_def Let_def)
  qed
  show "round_half_even x \<le> b" if "x \<le> of_int b"
  proof (cases "x = of_int b")
    case True
    then show ?thesis by (simp add: round_half_even_def)
  next
    case False
    with that have "x < of_int b" by simp
    then have "\<lfloor>x\<rfloor> < b" by (simp add: floor_less_iff)
    then show ?thesis by (simp add: round_half_even_def Let_def)
  qed
qed

lemma py_round_unit: "0 \<le> x \<Longrightarrow> x \<le> 1 \<Longrightarrow> 0 \<le> py_round x n \<and> py_round x n \<le> 1"
proof -
  assume x: "0 \<le> x" "x \<le> 1"
  have "0 \<le> round_half_even (x * 10 ^ n)"
    using x by (intro round_half_even_mono_bounds) simp
  moreover have "round_half_even (x * 10 ^ n) \<le> 10 ^ n"
    using x by (intro round_half_even_mono_bounds) (simp add: mult_left_le_one_le)
  then have "(of_int (round_half_even (x * 10 ^ n)) :: rat) \<le> of_int (10 ^ n)"
    by (simp only: of_int_le_iff)
  ultimately show ?thesis by (simp add: py_round_def divide_le_eq)
qed

lemma rate_of_unit: "part \<le> whole \<Longrightarrow> 0 \<le> rate_of part whole \<and> rate_of part whole \<le> 1"
  by (auto simp: rate_of_def intro!: py_round_unit)

lemma stats_deny_rate: "stats_ok st \<Longrightarrow> 0 \<le> ss_deny_rate (stats_summary_of now st) \<and> ss_deny_rate (stats_summary_of now st) \<le> 1"
  using counter_two_le_total [of "''deny''" "''human_check''" "ps_action_counts st"]
  by (simp add: stats_summary_of_def Let_def stats_ok_def counter_ok_def stats_deny_count_def rate_of_unit)

end
