(* ===== verification/Pipeline.thy ===== *)
theory Pipeline
  imports Evaluator Enrichment Enforcer Audit_Log Stats
begin

text \<open>
  The synchronous pipeline (\<open>runtime/dispatcher.py\<close>): session signals, the attempt handler, the
  result handler and the guarded call.  The graph writer owns the graph and the cache the rest of
  the pipeline reads; submitted items stay queued until the writer's thread runs.
\<close>

subsection \<open>Session signals\<close>

record signal_store =
  sg_signals :: "(string, pydict) dict"
  sg_ts :: "(string, rat) dict"

definition signal_ttl :: rat where
  "signal_ttl = 3600"

definition set_session_signal :: "rat \<Rightarrow> string \<Rightarrow> string \<Rightarrow> pyval \<Rightarrow> signal_store \<Rightarrow> signal_store" where
  "set_session_signal now sid name v sg =
     \<lparr>sg_signals = dict_set sid (dict_set name v (dict_getd (sg_signals sg) sid [])) (sg_signals sg),
      sg_ts = dict_set sid now (sg_ts sg)\<rparr>"

definition clear_session_signals :: "string \<Rightarrow> signal_store \<Rightarrow> signal_store" where
  "clear_session_signals sid sg =
     \<lparr>sg_signals = dict_pop sid (sg_signals sg), sg_ts = dict_pop sid (sg_ts sg)\<rparr>"

definition gc_session_signals :: "rat \<Rightarrow> signal_store \<Rightarrow> signal_store" where
  "gc_session_signals now sg =
     (let stale = map fst (filter (\<lambda>(sid, ts). signal_ttl < now - ts) (sg_ts sg))
      in foldl (\<lambda>sg sid. clear_session_signals sid sg) sg stale)"

subsection \<open>The slow path\<close>

text \<open>
  Hooks are asynchronous observers known by name; an event is scheduled only when one is
  registered, and a hook that fails does not stop the others.
\<close>

record slow_dispatcher =
  sd_hooks :: "string list"
  sd_submitted :: "runtime_event list"

definition add_hook :: "string \<Rightarrow> slow_dispatcher \<Rightarrow> slow_dispatcher" where
  "add_hook h sd = sd\<lparr>sd_hooks := sd_hooks sd @ [h]\<rparr>"

definition remove_hook :: "string \<Rightarrow> slow_dispatcher \<Rightarrow> bool \<times> slow_dispatcher" where
  "remove_hook h sd = (h \<in> set (sd_hooks sd), sd\<lparr>sd_hooks := remove1 h (sd_hooks sd)\<rparr>)"

definition slow_submit :: "runtime_event \<Rightarrow> slow_dispatcher \<Rightarrow> slow_dispatcher" where
  "slow_submit ev sd =
     (if sd_hooks sd = [] then sd else sd\<lparr>sd_submitted := sd_submitted sd @ [ev]\<rparr>)"

subsection \<open>State\<close>

record pipeline = enf_state +
  pl_writer :: graph_writer
  pl_eval :: fast_evaluator
  pl_router :: rule_router
  pl_audit :: audit_log
  pl_signals :: signal_store
  pl_allowlists :: pydict
  pl_slow :: slow_dispatcher
  pl_stats :: pipeline_stats

definition pl_cache :: "'a pipeline_scheme \<Rightarrow> state_cache" where
  "pl_cache p = snd (gw_target (pl_writer p))"

definition pl_graph :: "'a pipeline_scheme \<Rightarrow> graph_store" where
  "pl_graph p = fst (gw_target (pl_writer p))"

definition update_cache :: "(state_cache \<Rightarrow> state_cache) \<Rightarrow> 'a pipeline_scheme \<Rightarrow> 'a pipeline_scheme" where
  "update_cache f p =
     p\<lparr>pl_writer := (pl_writer p)\<lparr>gw_target := (pl_graph p, f (pl_cache p))\<rparr>\<rparr>"

definition submit_graph :: "runtime_event \<Rightarrow> decision option \<Rightarrow> 'a pipeline_scheme \<Rightarrow> 'a pipeline_scheme" where
  "submit_graph ev d p = p\<lparr>pl_writer := gw_submit ev d (pl_writer p)\<rparr>"

definition log_audit :: "runtime_event \<Rightarrow> decision option \<Rightarrow> 'a pipeline_scheme \<Rightarrow> 'a pipeline_scheme" where
  "log_audit ev d p = p\<lparr>pl_audit := audit_log_record ev d (pl_audit p)\<rparr>"

subsection \<open>Handling an attempt\<close>

definition add_signals :: "pydict \<Rightarrow> pydict \<Rightarrow> pydict" where
  "add_signals sigs features =
     foldl (\<lambda>f (name, v). dict_set (''signal.'' @ name) v f) features sigs"

definition rules_in_scope ::
  "runtime_event \<Rightarrow> 'a pipeline_scheme \<Rightarrow> compiled_rule list \<times> 'a pipeline_scheme" where
  "rules_in_scope ev p =
     (let (view, fe, rt) = view_for (p_agent_id (ev_principal ev)) (pl_eval p, pl_router p)
      in (iv_rules view, p\<lparr>pl_eval := fe, pl_router := rt\<rparr>))"

definition fast_features ::
  "runtime_event \<Rightarrow> 'a pipeline_scheme \<Rightarrow> pydict result \<times> 'a pipeline_scheme" where
  "fast_features ev p =
     (let (rules, p1) = rules_in_scope ev p;
          sigs = dict_getd (sg_signals (pl_signals p1)) (p_session_id (ev_principal ev)) []
      in (ebind (compute_fast_features ev (pl_cache p1) (pl_graph p1) rules (pl_allowlists p1))
            (\<lambda>f. Inr (add_signals sigs f)), p1))"

definition is_attempt :: "runtime_event \<Rightarrow> bool" where
  "is_attempt ev \<longleftrightarrow>
     ev_tool_call ev \<noteq> None \<and> ev_event_type ev \<in> {TOOL_CALL_ATTEMPT, TOOL_CALL_REQUESTED}"

definition record_stats ::
  "rat \<Rightarrow> rat \<Rightarrow> runtime_event \<Rightarrow> decision \<Rightarrow> 'a pipeline_scheme \<Rightarrow> 'a pipeline_scheme" where
  "record_stats now elapsed ev d p = p\<lparr>pl_stats :=
     stats_record (case ev_tool_call ev of Some tc \<Rightarrow> tc_tool_name tc | None \<Rightarrow> [])
       (p_agent_id (ev_principal ev)) (p_session_id (ev_principal ev)) (action_value (d_action d))
       (d_matched_rules d) elapsed (d_risk_score d) (d_reason d) now (pl_stats p)\<rparr>"

text \<open>What happens once the decision is known, in the order of the code.\<close>

definition publish ::
  "rat \<Rightarrow> rat \<Rightarrow> runtime_event \<Rightarrow> decision \<Rightarrow> 'a pipeline_scheme \<Rightarrow> 'a pipeline_scheme" where
  "publish now elapsed ev d p =
     (let p1 = (if is_attempt ev then update_cache (append_trace ev) p else p);
          p2 = submit_graph ev (Some d) p1;
          p3 = p2\<lparr>pl_slow := slow_submit ev (pl_slow p2)\<rparr>
      in record_stats now elapsed ev d (log_audit ev (Some d) p3))"

text \<open>
  The clock and the elapsed time are arguments.  The event handed in is updated in place with the
  enriched extras, so it is returned as well.
\<close>

definition handle_attempt ::
  "externals \<Rightarrow> rat \<Rightarrow> rat \<Rightarrow> runtime_event \<Rightarrow> 'a pipeline_scheme \<Rightarrow>
   (decision \<times> runtime_event) result \<times> 'a pipeline_scheme" where
  "handle_attempt E now elapsed event p =
     (let p0 = p\<lparr>pl_signals := gc_session_signals now (pl_signals p)\<rparr>;
          (enriched, c1) = enrich_event event (pl_cache p0);
          (features, p2) = fast_features enriched (update_cache (\<lambda>_. c1) p0)
      in case features of
           Inl e \<Rightarrow> (Inl e, p2)
         | Inr f \<Rightarrow>
             (let (d, fe, rt) = evaluate E enriched f (pl_eval p2, pl_router p2)
              in (Inr (d, enriched),
                  publish now elapsed enriched d (p2\<lparr>pl_eval := fe, pl_router := rt\<rparr>))))"

definition handle_result :: "runtime_event \<Rightarrow> 'a pipeline_scheme \<Rightarrow> 'a pipeline_scheme" where
  "handle_result event p = log_audit event None (submit_graph event None p)"

subsection \<open>The guarded call\<close>

definition revalidate :: "externals \<Rightarrow> rat \<Rightarrow> rat \<Rightarrow> 'a pipeline_scheme revalidator" where
  "revalidate E now elapsed = Some (handle_attempt E now elapsed)"

definition after_call ::
  "externals \<Rightarrow> runtime_event \<Rightarrow> pyval \<Rightarrow> 'a pipeline_scheme \<Rightarrow> 'a pipeline_scheme" where
  "after_call E event v p =
     handle_result (event\<lparr>ev_event_type := TOOL_CALL_RESULT\<rparr>)
       (update_cache (update_trace_result E event v) p)"

text \<open>The \<open>finally\<close> clause runs on every path; a refused call back-fills \<open>None\<close>.\<close>

definition guarded_call ::
  "enf_env \<Rightarrow> rat \<Rightarrow> nat \<Rightarrow> runtime_event \<Rightarrow> 'a pipeline_scheme \<Rightarrow> pyval result \<times> 'a pipeline_scheme" where
  "guarded_call env elapsed n event p =
     (let (answer, p1) = handle_attempt (en_ext env) (en_now env) elapsed event p
      in case answer of
           Inl e \<Rightarrow> (Inl e, p1)
         | Inr (d, event') \<Rightarrow>
             (let (out, p2) = enforcer_apply env
                    (revalidate (en_ext env) (en_now env) elapsed) n event' d p1;
                  v = (case out of Inl _ \<Rightarrow> VNone | Inr v \<Rightarrow> v)
              in (out, after_call (en_ext env) event' v p2)))"

subsection \<open>Frames\<close>

lemma update_cache_fields [simp]:
  "pl_cache (update_cache f p) = f (pl_cache p)"
  "pl_graph (update_cache f p) = pl_graph p"
  "gw_queue (pl_writer (update_cache f p)) = gw_queue (pl_writer p)"
  "es_executed (update_cache f p) = es_executed p"
  "es_bridge (update_cache f p) = es_bridge p"
  "es_rates (update_cache f p) = es_rates p"
  "pl_eval (update_cache f p) = pl_eval p"
  "pl_router (update_cache f p) = pl_router p"
  "pl_audit (update_cache f p) = pl_audit p"
  "pl_stats (update_cache f p) = pl_stats p"
  "pl_signals (update_cache f p) = pl_signals p"
  "pl_allowlists (update_cache f p) = pl_allowlists p"
  by (simp_all add: update_cache_def pl_cache_def pl_graph_def)

lemma submit_graph_fields [simp]:
  "pl_cache (submit_graph ev d p) = pl_cache p"
  "es_executed (submit_graph ev d p) = es_executed p"
  "pl_eval (submit_graph ev d p) = pl_eval p"
  "pl_router (submit_graph ev d p) = pl_router p"
  "pl_audit (submit_graph ev d p) = pl_audit p"
  "pl_stats (submit_graph ev d p) = pl_stats p"
  by (simp_all add: submit_graph_def pl_cache_def gw_submit_def)

lemma pl_cache_fields [simp]:
  "pl_cache (p\<lparr>pl_eval := fe\<rparr>) = pl_cache p" "pl_cache (p\<lparr>pl_router := rt\<rparr>) = pl_cache p"
  "pl_cache (p\<lparr>pl_audit := al\<rparr>) = pl_cache p" "pl_cache (p\<lparr>pl_stats := st\<rparr>) = pl_cache p"
  "pl_cache (p\<lparr>pl_slow := sd\<rparr>) = pl_cache p" "pl_cache (p\<lparr>pl_signals := sg\<rparr>) = pl_cache p"
  "pl_graph (p\<lparr>pl_signals := sg\<rparr>) = pl_graph p"
  by (simp_all add: pl_cache_def pl_graph_def)

lemma publish_fields [simp]:
  "pl_cache (publish now elapsed ev d p) =
     (if is_attempt ev then append_trace ev (pl_cache p) else pl_cache p)"
  "es_executed (publish now elapsed ev d p) = es_executed p"
  "pl_eval (publish now elapsed ev d p) = pl_eval p"
  "pl_router (publish now elapsed ev d p) = pl_router p"
  "pl_audit (publish now elapsed ev d p) = audit_log_record ev (Some d) (pl_audit p)"
  by (simp_all add: publish_def record_stats_def log_audit_def Let_def)

lemma rules_in_scope_value:
  "rules_in_scope ev p =
     (iv_rules (fst (view_for (p_agent_id (ev_principal ev)) (pl_eval p, pl_router p))),
      p\<lparr>pl_eval := fst (snd (view_for (p_agent_id (ev_principal ev)) (pl_eval p, pl_router p))),
        pl_router := snd (snd (view_for (p_agent_id (ev_principal ev)) (pl_eval p, pl_router p)))\<rparr>)"
  by (simp add: rules_in_scope_def split: prod.splits)

lemma fast_features_state: "snd (fast_features ev p) = snd (rules_in_scope ev p)"
  by (simp add: fast_features_def Let_def split: prod.splits)

text \<open>The three steps of an attempt, without the nesting of the handler.\<close>

definition attempt_event :: "runtime_event \<Rightarrow> 'a pipeline_scheme \<Rightarrow> runtime_event" where
  "attempt_event ev p = fst (enrich_event ev (pl_cache p))"

definition attempt_ready :: "rat \<Rightarrow> runtime_event \<Rightarrow> 'a pipeline_scheme \<Rightarrow> 'a pipeline_scheme" where
  "attempt_ready now ev p =
     update_cache (\<lambda>_. snd (enrich_event ev (pl_cache p)))
       (p\<lparr>pl_signals := gc_session_signals now (pl_signals p)\<rparr>)"

definition attempt_features :: "rat \<Rightarrow> runtime_event \<Rightarrow> 'a pipeline_scheme \<Rightarrow> pydict result" where
  "attempt_features now ev p = fst (fast_features (attempt_event ev p) (attempt_ready now ev p))"

definition attempt_rules :: "runtime_event \<Rightarrow> 'a pipeline_scheme \<Rightarrow> compiled_rule list" where
  "attempt_rules ev p = agent_rules (p_agent_id (ev_principal ev)) (pl_eval p, pl_router p)"

lemma attempt_event_same:
  "ev_tool_call (attempt_event ev p) = ev_tool_call ev"
  "ev_principal (attempt_event ev p) = ev_principal ev"
  "ev_event_type (attempt_event ev p) = ev_event_type ev"
  "ev_event_id (attempt_event ev p) = ev_event_id ev"
  "ev_ts_ms (attempt_event ev p) = ev_ts_ms ev"
  by (simp_all add: attempt_event_def enrich_event_same)

lemma handle_attempt_cases:
  obtains
    (failed) e where "attempt_features now ev p = Inl e"
      "handle_attempt E now elapsed ev p =
         (Inl e, snd (rules_in_scope (attempt_event ev p) (attempt_ready now ev p)))"
  | (decided) f p2 st where "attempt_features now ev p = Inr f"
      "p2 = snd (rules_in_scope (attempt_event ev p) (attempt_ready now ev p))"
      "st = evaluate E (attempt_event ev p) f (pl_eval p2, pl_router p2)"
      "handle_attempt E now elapsed ev p =
         (Inr (fst st, attempt_event ev p), publish now elapsed (attempt_event ev p) (fst st)
            (p2\<lparr>pl_eval := fst (snd st), pl_router := snd (snd st)\<rparr>))"
proof -
  let ?fp = "fast_features (attempt_event ev p) (attempt_ready now ev p)"
  have state: "snd ?fp = snd (rules_in_scope (attempt_event ev p) (attempt_ready now ev p))"
    by (rule fast_features_state)
  show thesis
  proof (cases "fst ?fp")
    case (Inl e)
    with state show thesis
      by (intro failed [of e])
        (auto simp: attempt_features_def handle_attempt_def attempt_event_def attempt_ready_def
          Let_def split: prod.splits)
  next
    case (Inr f)
    with state show thesis
      by (intro decided [of f, OF _ refl refl])
        (auto simp: attempt_features_def handle_attempt_def attempt_event_def attempt_ready_def
          Let_def split: prod.splits)
  qed
qed

subsection \<open>Invariant\<close>

definition pipeline_ok :: "'a pipeline_scheme \<Rightarrow> bool" where
  "pipeline_ok p \<longleftrightarrow> cache_wf (pl_cache p) \<and> evaluator_wf (pl_eval p, pl_router p) \<and>
     audit_ok (pl_audit p) \<and> stats_ok (pl_stats p)"

lemma publish_ok [guard_intros]: "pipeline_ok p \<Longrightarrow> pipeline_ok (publish now elapsed ev d p)"
  by (simp add: pipeline_ok_def cache_wf_append_trace audit_ok_record)
    (simp add: publish_def record_stats_def log_audit_def Let_def stats_ok_record)

lemma rules_in_scope_ok [guard_intros]:
  assumes "pipeline_ok p"
  shows "pipeline_ok (snd (rules_in_scope ev p))"
  using assms evaluator_wf_view_for [of "(pl_eval p, pl_router p)" "p_agent_id (ev_principal ev)"]
  by (simp add: rules_in_scope_value pipeline_ok_def)

lemma attempt_ready_ok [guard_intros]: "pipeline_ok p \<Longrightarrow> pipeline_ok (attempt_ready now ev p)"
  by (simp add: attempt_ready_def pipeline_ok_def cache_wf_enrich)

lemma pipeline_ok_eval:
  "pipeline_ok p \<Longrightarrow> evaluator_wf st \<Longrightarrow> pipeline_ok (p\<lparr>pl_eval := fst st, pl_router := snd st\<rparr>)"
  by (simp add: pipeline_ok_def)

lemma handle_attempt_ok [guard_intros]:
  assumes "pipeline_ok p"
  shows "pipeline_ok (snd (handle_attempt E now elapsed ev p))"
proof -
  let ?p2 = "snd (rules_in_scope (attempt_event ev p) (attempt_ready now ev p))"
  have p2: "pipeline_ok ?p2" using assms by (intro guard_intros)
  show ?thesis
  proof (cases rule: handle_attempt_cases [of now ev p E elapsed])
    case (failed e)
    then show ?thesis using p2 by simp
  next
    case (decided f p2 st)
    with p2 have "evaluator_wf (snd st)"
      by (simp add: pipeline_ok_def evaluator_wf_evaluate)
    with decided p2 show ?thesis
      by (simp add: publish_ok pipeline_ok_eval)
  qed
qed

lemma handle_result_ok [guard_intros]: "pipeline_ok p \<Longrightarrow> pipeline_ok (handle_result ev p)"
  by (simp add: handle_result_def log_audit_def pipeline_ok_def audit_ok_record)

lemma after_call_ok [guard_intros]: "pipeline_ok p \<Longrightarrow> pipeline_ok (after_call E ev v p)"
  unfolding after_call_def
  by (rule handle_result_ok) (simp add: pipeline_ok_def cache_wf_update_trace)

text \<open>The enforcer reaches the pipeline's own state only through the revalidation.\<close>

lemma enf_fields_keep:
  "pl_cache (p\<lparr>es_bridge := b\<rparr>) = pl_cache p" "pl_cache (p\<lparr>es_rates := r\<rparr>) = pl_cache p"
  "pl_cache (p\<lparr>es_executed := x\<rparr>) = pl_cache p"
  by (simp_all add: pl_cache_def)

lemma pipeline_ok_stable: "enf_stable pipeline_ok"
  by (simp add: enf_stable_def pipeline_ok_def enf_fields_keep)

lemma revalidate_keeps:
  "(\<And>ev p. P p \<Longrightarrow> P (snd (handle_attempt E now elapsed ev p))) \<Longrightarrow> rv_keeps P (revalidate E now elapsed)"
  by (simp add: rv_keeps_def revalidate_def)

lemma enforcer_ok:
  "pipeline_ok p \<Longrightarrow> pipeline_ok (snd (enforcer_apply env (revalidate E now elapsed) n ev d p))"
  by (rule enforcer_apply_keeps [where P = pipeline_ok, OF pipeline_ok_stable])
    (rule revalidate_keeps [where P = pipeline_ok], rule handle_attempt_ok)

subsection \<open>The guarded call, unfolded\<close>

lemma guarded_call_cases:
  obtains
    (failed) e where "fst (handle_attempt (en_ext env) (en_now env) elapsed ev p) = Inl e"
      "guarded_call env elapsed n ev p =
         (Inl e, snd (handle_attempt (en_ext env) (en_now env) elapsed ev p))"
  | (enforced) d ev' p1 out p2 where
      "handle_attempt (en_ext env) (en_now env) elapsed ev p = (Inr (d, ev'), p1)"
      "enforcer_apply env (revalidate (en_ext env) (en_now env) elapsed) n ev' d p1 = (out, p2)"
      "guarded_call env elapsed n ev p =
         (out, after_call (en_ext env) ev' (case out of Inl _ \<Rightarrow> VNone | Inr v \<Rightarrow> v) p2)"
proof -
  obtain answer p1 where attempt:
      "handle_attempt (en_ext env) (en_now env) elapsed ev p = (answer, p1)"
    by fastforce
  show thesis
  proof (cases answer)
    case (Inl e)
    with attempt show thesis by (intro failed) (auto simp: guarded_call_def)
  next
    case (Inr w)
    obtain d ev' where "w = (d, ev')" by (cases w)
    moreover obtain out p2 where
        "enforcer_apply env (revalidate (en_ext env) (en_now env) elapsed) n ev' d p1 = (out, p2)"
      by fastforce
    ultimately show thesis
      using attempt Inr by (intro enforced) (auto simp: guarded_call_def)
  qed
qed

lemma guarded_call_ok:
  assumes "pipeline_ok p"
  shows "pipeline_ok (snd (guarded_call env elapsed n ev p))"
proof (cases rule: guarded_call_cases [of env elapsed ev p n])
  case (failed e)
  then show ?thesis using assms by (simp add: handle_attempt_ok)
next
  case (enforced d ev' p1 out p2)
  then have "pipeline_ok p1" using handle_attempt_ok [OF assms] by (metis snd_conv)
  then have "pipeline_ok p2" using enforced(2) enforcer_ok by (metis snd_conv)
  then show ?thesis using enforced(3) by (simp add: after_call_ok)
qed

subsection \<open>Execution\<close>

lemma handle_attempt_not_run [simp]:
  "es_executed (snd (handle_attempt E now elapsed ev p)) = es_executed p"
  by (cases rule: handle_attempt_cases [of now ev p E elapsed])
    (simp_all add: rules_in_scope_value attempt_ready_def)

lemma revalidate_quiet: "rv_quiet (revalidate E now elapsed)"
  by (simp add: rv_quiet_def revalidate_def not_run_def)

lemma after_call_not_run [simp]: "es_executed (after_call E ev v p) = es_executed p"
  by (simp add: after_call_def handle_result_def log_audit_def)

lemma guarded_call_ran:
  assumes "handle_attempt (en_ext env) (en_now env) elapsed ev p = (Inr (d, ev'), p1)"
  shows "es_executed (snd (guarded_call env elapsed n ev p)) =
     es_executed (snd (enforcer_apply env (revalidate (en_ext env) (en_now env) elapsed) n ev' d p1))"
  using assms by (simp add: guarded_call_def Let_def split: prod.splits)

lemma guarded_call_at_most_once: "ran_at_most_once p (snd (guarded_call env elapsed n ev p))"
proof (cases rule: guarded_call_cases [of env elapsed ev p n])
  case (failed e)
  then show ?thesis by (simp add: not_run_once not_run_def)
next
  case (enforced d ev' p1 out p2)
  have "es_executed p1 = es_executed p"
    using handle_attempt_not_run [of "en_ext env" "en_now env" elapsed ev p] enforced(1) by simp
  moreover have "ran_at_most_once p1 p2"
    using enforcer_apply_once [OF revalidate_quiet, of p1 env "en_ext env" "en_now env" elapsed n ev' d]
      enforced(2) by simp
  ultimately show ?thesis using enforced(3) by (simp add: ran_at_most_once_def)
qed

lemma guarded_call_denied:
  assumes "handle_attempt (en_ext env) (en_now env) elapsed ev p = (Inr (d, ev'), p1)"
    and "d_action d = DENY" and "ec_mode (en_config env) \<notin> {''monitor'', ''dry_run''}"
  shows "fst (guarded_call env elapsed n ev p) =
      Inl (DecisionDenied (str_or (d_reason d) ''policy_denied'') (d_matched_rules d) (Some (ev_event_id ev')))"
    and "es_executed (snd (guarded_call env elapsed n ev p)) = es_executed p"
proof -
  have "es_executed p1 = es_executed p"
    using handle_attempt_not_run [of "en_ext env" "en_now env" elapsed ev p] assms(1) by simp
  with assms show "fst (guarded_call env elapsed n ev p) =
      Inl (DecisionDenied (str_or (d_reason d) ''policy_denied'') (d_matched_rules d) (Some (ev_event_id ev')))"
    "es_executed (snd (guarded_call env elapsed n ev p)) = es_executed p"
    by (simp_all add: guarded_call_def Let_def enforcer_apply_def enforce_deny_def denied_def)
qed

subsection \<open>The decision of an attempt\<close>

lemma attempt_decision:
  assumes "pipeline_ok p" and "attempt_features now ev p = Inr f"
  obtains st where "evaluator_wf st"
    "\<And>a. agent_rules a st = agent_rules a (pl_eval p, pl_router p)"
    "fst (handle_attempt E now elapsed ev p) =
       Inr (fst (evaluate E (attempt_event ev p) f st), attempt_event ev p)"
proof -
  let ?p2 = "snd (rules_in_scope (attempt_event ev p) (attempt_ready now ev p))"
  have "evaluator_wf (pl_eval ?p2, pl_router ?p2)"
    using rules_in_scope_ok [OF attempt_ready_ok [OF assms(1)]] by (simp add: pipeline_ok_def)
  moreover have "agent_rules a (pl_eval ?p2, pl_router ?p2) = agent_rules a (pl_eval p, pl_router p)" for a
    by (simp add: rules_in_scope_value attempt_ready_def)
  moreover have "fst (handle_attempt E now elapsed ev p) =
      Inr (fst (evaluate E (attempt_event ev p) f (pl_eval ?p2, pl_router ?p2)), attempt_event ev p)"
    using assms(2) by (cases rule: handle_attempt_cases [of now ev p E elapsed]) simp_all
  ultimately show thesis using that by blast
qed

text \<open>
  A deny rule in the agent's scope that matches the tool and whose condition holds on the
  features of the attempt refuses the call, whatever the other rules say.
\<close>

lemma deny_rule_blocks:
  assumes "pipeline_ok p" and "ev_tool_call ev = Some tc"
    and "attempt_features (en_now env) ev p = Inr f"
    and "\<forall>r \<in> set (attempt_rules ev p). indexable (cr_tool_pattern r)"
    and "r \<in> set (attempt_rules ev p)" "cr_action r = DENY" "matches_tool r (tc_tool_name tc)"
    and "rule_hits (attempt_event ev p) f r"
    and "ec_mode (en_config env) \<notin> {''monitor'', ''dry_run''}"
  shows "es_executed (snd (guarded_call env elapsed n ev p)) = es_executed p"
    and "\<exists>reason ids. fst (guarded_call env elapsed n ev p) =
           Inl (DecisionDenied reason ids (Some (ev_event_id ev))) \<and> cr_rule_id r \<in> set ids"
proof -
  obtain st where st: "evaluator_wf st"
      "\<And>a. agent_rules a st = agent_rules a (pl_eval p, pl_router p)"
      "fst (handle_attempt (en_ext env) (en_now env) elapsed ev p) =
         Inr (fst (evaluate (en_ext env) (attempt_event ev p) f st), attempt_event ev p)"
    using attempt_decision [OF assms(1,3)] by metis
  let ?d = "fst (evaluate (en_ext env) (attempt_event ev p) f st)"
  have rules: "agent_rules (p_agent_id (ev_principal (attempt_event ev p))) st = attempt_rules ev p"
    by (simp add: st(2) attempt_rules_def attempt_event_same)
  have d: "d_action ?d = DENY" "cr_rule_id r \<in> set (d_matched_rules ?d)"
    using assms(2,4-8) rules
    by (intro evaluate_denies [OF st(1), of _ tc]; simp add: attempt_event_same)+
  obtain p1 where attempt: "handle_attempt (en_ext env) (en_now env) elapsed ev p =
      (Inr (?d, attempt_event ev p), p1)"
    using st(3) by (cases "handle_attempt (en_ext env) (en_now env) elapsed ev p") auto
  show "es_executed (snd (guarded_call env elapsed n ev p)) = es_executed p"
    by (rule guarded_call_denied(2) [OF attempt d(1) assms(9)])
  show "\<exists>reason ids. fst (guarded_call env elapsed n ev p) =
           Inl (DecisionDenied reason ids (Some (ev_event_id ev))) \<and> cr_rule_id r \<in> set ids"
    using guarded_call_denied(1) [OF attempt d(1) assms(9)] d(2) by (simp add: attempt_event_same)
qed

text \<open>A call that no rule in scope applies to runs once, in enforce mode, on the enriched event.\<close>

lemma unmatched_runs:
  assumes "pipeline_ok p" and "ev_tool_call ev = Some tc"
    and "attempt_features (en_now env) ev p = Inr f"
    and "\<forall>r \<in> set (attempt_rules ev p). indexable (cr_tool_pattern r)"
    and "applicable (attempt_rules ev p) (attempt_event ev p) f (tc_tool_name tc) = []"
    and "ec_mode (en_config env) = ''enforce''"
  shows "es_executed (snd (guarded_call env elapsed n ev p)) = es_executed p @ [attempt_event ev p] \<and>
    fst (guarded_call env elapsed n ev p) = en_exec env (attempt_event ev p)"
proof -
  obtain st where st: "evaluator_wf st"
      "\<And>a. agent_rules a st = agent_rules a (pl_eval p, pl_router p)"
      "fst (handle_attempt (en_ext env) (en_now env) elapsed ev p) =
         Inr (fst (evaluate (en_ext env) (attempt_event ev p) f st), attempt_event ev p)"
    using attempt_decision [OF assms(1,3)] by metis
  have rules: "agent_rules (p_agent_id (ev_principal (attempt_event ev p))) st = attempt_rules ev p"
    by (simp add: st(2) attempt_rules_def attempt_event_same)
  have d: "fst (evaluate (en_ext env) (attempt_event ev p) f st) =
      no_match_decision (fe_rule_version (fst st)) (attempt_event ev p)"
    using assms(2,4,5) rules by (intro evaluate_decision(1) [OF st(1), of _ tc])
      (simp_all add: attempt_event_same)
  show ?thesis
  proof (cases rule: guarded_call_cases [of env elapsed ev p n])
    case (failed e)
    with st(3) show ?thesis by simp
  next
    case (enforced d' ev' p1 out p2)
    have allow: "d_action d' = ALLOW" "d_obligations d' = []" "ev' = attempt_event ev p"
      using enforced(1) st(3) d by (auto simp: no_match_decision_def decision_allow_def)
    have "es_executed p1 = es_executed p"
      using handle_attempt_not_run [of "en_ext env" "en_now env" elapsed ev p] enforced(1) by simp
    moreover have "(out, p2) = run_original env ev' p1"
      using enforced(2) allow assms(6) by (simp add: enforcer_apply_def enforce_allow_def)
    ultimately show ?thesis
      using enforced(3) allow(3) by (simp add: run_original_def)
  qed
qed

text \<open>In enforce mode a tool runs only when the decision of the attempt lets it.\<close>

lemma guarded_call_may_run:
  assumes "\<not> not_run p (snd (guarded_call env elapsed n ev p))"
    and "ec_mode (en_config env) \<notin> {''monitor'', ''dry_run''}"
    and "ec_on_timeout (en_config env) \<notin> {''allow'', ''degrade''}"
  shows "\<exists>d ev' p1. handle_attempt (en_ext env) (en_now env) elapsed ev p = (Inr (d, ev'), p1) \<and>
     may_run env ev' d (es_bridge p1)"
proof (cases rule: guarded_call_cases [of env elapsed ev p n])
  case (failed e)
  with assms(1) show ?thesis by (simp add: not_run_def)
next
  case (enforced d ev' p1 out p2)
  have "es_executed p1 = es_executed p"
    using handle_attempt_not_run [of "en_ext env" "en_now env" elapsed ev p] enforced(1) by simp
  with assms(1) enforced(2,3) have "\<not> not_run p1 (snd (enforcer_apply env
      (revalidate (en_ext env) (en_now env) elapsed) n ev' d p1))"
    by (simp add: not_run_def)
  with enforced(1) enforcer_ran assms(2,3) show ?thesis by blast
qed

subsection \<open>Traces and the audit log\<close>

lemma rules_in_scope_fields [simp]:
  "pl_cache (snd (rules_in_scope ev p)) = pl_cache p"
  "pl_audit (snd (rules_in_scope ev p)) = pl_audit p"
  by (simp_all add: rules_in_scope_value)

text \<open>The next attempt of the session reads this one last in its trace, even when it was denied.\<close>

lemma handle_attempt_trace:
  assumes "pipeline_ok p" and "ev_tool_call ev = Some tc" and "is_attempt ev"
    and "handle_attempt E now elapsed ev p = (Inr (d, ev'), p1)"
  shows "read_trace (key_trace_log sid) (pl_cache p1) =
     (if sid = p_session_id (ev_principal ev)
      then push_right trace_log_cap (read_trace (key_trace_log sid) (pl_cache p)) (tc_tool_name tc, ev_ts_ms ev)
      else read_trace (key_trace_log sid) (pl_cache p))"
proof -
  have "is_attempt (attempt_event ev p)"
    using assms(3) by (simp add: is_attempt_def attempt_event_same)
  then have "pl_cache p1 = append_trace (attempt_event ev p) (persist_ref_labels ev (pl_cache p))"
    using assms(4) by (cases rule: handle_attempt_cases [of now ev p E elapsed])
      (auto simp: attempt_ready_def enrich_event_def Let_def)
  then show ?thesis
    using assms(1,2) read_trace_append_trace [of "persist_ref_labels ev (pl_cache p)" "attempt_event ev p" tc]
    by (simp add: attempt_event_same pipeline_ok_def cache_wf_persist read_trace_persist)
qed

text \<open>
  A guarded call logs its attempt with the decision first and its result last; revalidations of
  rewritten calls are logged in between.
\<close>

definition logged_since :: "audit_record list \<Rightarrow> 'a pipeline_scheme \<Rightarrow> bool" where
  "logged_since base p \<longleftrightarrow> (\<exists>mid. al_sink (pl_audit p) = base @ mid)"

lemma handle_attempt_sink:
  "al_sink (pl_audit (snd (handle_attempt E now elapsed ev p))) = al_sink (pl_audit p) @
     (case fst (handle_attempt E now elapsed ev p) of Inl _ \<Rightarrow> [] | Inr (d, ev') \<Rightarrow> [(ev', Some d)])"
  by (cases rule: handle_attempt_cases [of now ev p E elapsed]) (simp_all add: attempt_ready_def)

lemma logged_since_stable: "enf_stable (logged_since base)"
  by (simp add: enf_stable_def logged_since_def)

lemma logged_since_attempt: "logged_since base p \<Longrightarrow> logged_since base (snd (handle_attempt E now elapsed ev p))"
  by (auto simp: logged_since_def handle_attempt_sink)

lemma guarded_call_audit:
  assumes "handle_attempt (en_ext env) (en_now env) elapsed ev p = (Inr (d, ev'), p1)"
  shows "\<exists>mid. al_sink (pl_audit (snd (guarded_call env elapsed n ev p))) =
     al_sink (pl_audit p) @ (ev', Some d) # mid @ [(ev'\<lparr>ev_event_type := TOOL_CALL_RESULT\<rparr>, None)]"
proof -
  let ?base = "al_sink (pl_audit p) @ [(ev', Some d)]"
  let ?rv = "revalidate (en_ext env) (en_now env) elapsed :: 'a pipeline_scheme revalidator"
  have "logged_since ?base p1"
    using handle_attempt_sink [of "en_ext env" "en_now env" elapsed ev p] assms
    by (simp add: logged_since_def)
  then have "logged_since ?base (snd (enforcer_apply env ?rv n ev' d p1))"
    by (intro enforcer_apply_keeps [where P = "logged_since ?base", OF logged_since_stable]
        revalidate_keeps [where P = "logged_since ?base"] logged_since_attempt)
  then show ?thesis
    using assms by (auto simp: logged_since_def guarded_call_def after_call_def handle_result_def
        log_audit_def Let_def split: prod.splits)
qed

end
