(* ===== verification/Sample.thy ===== *)
theory Sample
  imports Guard_Rules Pipeline
begin

text \<open>
  A small world the examples of the development run in: library functions that know nothing, one
  agent and session, a shell call, rules over it, and a pipeline that has just been built.
\<close>

definition sample_ext :: externals where
  "sample_ext = \<lparr>re_search = (\<lambda>_ _. None), url_hostname = (\<lambda>_. Inr None), float_repr = (\<lambda>_. []),
     obj_repr = (\<lambda>_. []), reflect_attr = (\<lambda>_ _. None)\<rparr>"

definition sample_call :: tool_call where
  "sample_call = mk_tool_call ''shell.exec'' [(''cmd'', VStr ''rm -rf /'')]"

definition sample_event :: runtime_event where
  "sample_event =
     mk_event ''e1'' 10 TOOL_CALL_ATTEMPT (mk_principal ''a1'' ''s1'') (Some sample_call)"

definition sample_ast :: "string \<Rightarrow> string \<Rightarrow> string \<Rightarrow> rule_ast" where
  "sample_ast rid pattern kind = \<lparr>ra_rule_id = rid, ra_tool_pattern = pattern, ra_expr = TrueExpr,
     ra_action = \<lparr>aa_kind = kind, aa_profile = None, aa_obligations = []\<rparr>, ra_event_subtype = [],
     ra_source = [], ra_source_block = [], ra_meta = [], ra_trace_clause = None\<rparr>"

definition sample_rule :: "string \<Rightarrow> string \<Rightarrow> action \<Rightarrow> compiled_rule" where
  "sample_rule rid pattern act = \<lparr>cr_rule_id = rid, cr_version = ''v1'', cr_tool_pattern = pattern,
     cr_predicate = (\<lambda>ev f. Inr True), cr_action = act, cr_priority = action_priority act,
     cr_degrade_profile = None, cr_required_features = [], cr_source = [], cr_source_block = [],
     cr_event_subtype = [], cr_meta = [], cr_obligations_ast = [], cr_path_specs = []\<rparr>"

lemma compile_sample:
  "compile_rule E ''v1'' (sample_ast rid pattern ''DENY'') = Inr (sample_rule rid pattern DENY)"
  "compile_rule E ''v1'' (sample_ast rid pattern ''ALLOW'') = Inr (sample_rule rid pattern ALLOW)"
  "compile_rule E ''v1'' (sample_ast rid pattern ''HUMAN_CHECK'') = Inr (sample_rule rid pattern HUMAN_CHECK)"
  by (simp_all add: compile_rule_def sample_ast_def sample_rule_def action_map_def)

definition sample_router :: "compiled_rule list \<Rightarrow> rule_router" where
  "sample_router rules = snd (replace_pack_rules builtin_pack_id rules ''builtin'' False (new_router True))"

definition sample_enf :: "string \<Rightarrow> enf_env" where
  "sample_enf mode = \<lparr>en_ext = sample_ext, en_profiles = degrade_profiles,
     en_config = default_enforcer_config\<lparr>ec_mode := mode\<rparr>, en_llm = None, en_now = 0,
     en_fresh = (\<lambda>_. ''t1''), en_meanwhile = (\<lambda>_ b. b), en_exec = (\<lambda>_. Inr VNone)\<rparr>"

definition sample_pipeline :: "compiled_rule list \<Rightarrow> pipeline" where
  "sample_pipeline rules = \<lparr>es_bridge = [], es_rates = [], es_executed = [],
     pl_writer = \<lparr>gw_capacity = 4096, gw_queue = [], gw_target = (empty_graph, empty_cache)\<rparr>,
     pl_eval = new_evaluator [] ''v1'' True, pl_router = sample_router rules,
     pl_audit = new_audit_log 10, pl_signals = \<lparr>sg_signals = [], sg_ts = []\<rparr>, pl_allowlists = [],
     pl_slow = \<lparr>sd_hooks = [], sd_submitted = []\<rparr>, pl_stats = new_stats 0 500 10\<rparr>"

text \<open>The router of the sample has one pack, and every agent sees its rules.\<close>

lemma sample_router_ok: "router_ok (sample_router rules)"
  unfolding sample_router_def by (rule router_ok_replace [OF router_ok_new])

lemma sample_router_value:
  "sample_router rules = \<lparr>rt_packs = [(builtin_pack_id, \<lparr>rp_pack_id = builtin_pack_id,
     rp_rules = rules, rp_source = ''builtin'', rp_user_managed = False\<rparr>)],
     rt_bindings = no_bindings, rt_default_when_unbound = True, rt_cache = []\<rparr>"
  by (simp add: sample_router_def replace_pack_rules_def upsert_pack_def new_router_def Let_def)

lemma sample_packs: "packs_for_agent a (sample_router rules) = [builtin_pack_id]"
  by (simp add: packs_for_agent_def sample_router_value push_pack_def get_pack_def packs_of_def
      no_bindings_def members_def builtin_pack_id_def default_pack_id_def Let_def)

lemma sample_rules: "merged_for a (sample_router rules) = merge_rules rules"
  unfolding merged_for_def sample_packs by (simp add: pack_rules_def get_pack_def sample_router_value)

lemma sample_pipeline_ok: "pipeline_ok (sample_pipeline rules)"
proof -
  have "cache_wf empty_cache" "stats_ok (new_stats 0 500 10)" "audit_ok (new_audit_log 10)"
    by (rule cache_wf_empty, rule stats_ok_new, rule audit_ok_new)
  moreover have "evaluator_wf (new_evaluator [] ''v1'' True, sample_router rules)"
    by (rule evaluator_wf_new [OF sample_router_ok])
  ultimately show ?thesis
    unfolding pipeline_ok_def pl_cache_def sample_pipeline_def by simp
qed

lemma sample_attempt_rules: "attempt_rules ev (sample_pipeline rules) = merge_rules rules"
  by (simp add: attempt_rules_def agent_rules_def sample_pipeline_def new_evaluator_def sample_rules)

text \<open>Features fail only on values that cannot be collected; a call without targets has none.\<close>

lemma features_without_target:
  assumes "ev_tool_call ev = Some tc" and "tc_target tc = []"
  shows "\<exists>f. compute_fast_features ev c g rules [] = Inr f"
proof -
  have "\<exists>tags. tool_tags tc = Inr tags"
    using assms(2) by (simp add: tool_tags_def dict_getd_def py_or_def)
  then show ?thesis
    using assms(1) by (auto simp: compute_fast_features_def tool_features_def Let_def)
qed

lemma sample_event_call: "ev_tool_call sample_event = Some sample_call" "tc_target sample_call = []"
    "tc_tool_name sample_call = ''shell.exec''"
  by (simp_all add: sample_event_def mk_event_def sample_call_def mk_tool_call_def)

lemma sample_features_of:
  assumes "ev_tool_call ev = Some sample_call"
  shows "\<exists>f. attempt_features now ev (sample_pipeline rules) = Inr f"
proof -
  let ?ev = "attempt_event ev (sample_pipeline rules)"
  have "pl_allowlists (snd (rules_in_scope ?ev (attempt_ready now ev (sample_pipeline rules)))) = []"
    by (simp add: rules_in_scope_value attempt_ready_def) (simp add: sample_pipeline_def)
  moreover have "ev_tool_call ?ev = Some sample_call"
    by (simp add: attempt_event_same assms)
  moreover obtain f where "compute_fast_features ?ev c g rules [] = Inr (f c g rules)" for c g rules
    using features_without_target [OF calculation(2) sample_event_call(2)] by metis
  ultimately show ?thesis
    by (auto simp: attempt_features_def fast_features_def Let_def split: prod.splits)
qed

lemmas sample_features = sample_features_of [OF sample_event_call(1)]

lemma sample_env [simp]:
  "en_ext (sample_enf mode) = sample_ext" "en_now (sample_enf mode) = 0"
  "ec_mode (en_config (sample_enf mode)) = mode" "ec_on_timeout (en_config (sample_enf mode)) = ''deny''"
  "ec_max_rewrite_depth (en_config (sample_enf mode)) = 2"
  by (simp_all add: sample_enf_def default_enforcer_config_def)

lemma sample_executed [simp]: "es_executed (sample_pipeline rules) = []" "es_bridge (sample_pipeline rules) = []"
  by (simp_all add: sample_pipeline_def)

lemma sample_one_rule: "attempt_rules ev (sample_pipeline [r]) = [r]"
  by (simp add: sample_attempt_rules merge_rules_def dict_index_def dict_values_def)

lemma sample_matches:
  "matches_tool (sample_rule rid ''shell.*'' act) (tc_tool_name sample_call)"
  "\<not> matches_tool (sample_rule rid ''email.*'' act) (tc_tool_name sample_call)"
  "indexable ''shell.*''" "indexable ''email.*''"
  unfolding sample_event_call matches_tool_def sample_rule_def indexable_def by simp_all code_simp+

lemma sample_rule_fields [simp]:
  "cr_rule_id (sample_rule rid pat act) = rid" "cr_tool_pattern (sample_rule rid pat act) = pat"
  "cr_action (sample_rule rid pat act) = act" "rule_hits ev f (sample_rule rid pat act)"
  by (simp_all add: sample_rule_def rule_hits_def event_matches_subtype_def)

text \<open>A pipeline whose one rule is about e-mail lets the shell call through, once.\<close>

lemma sample_unmatched:
  "\<forall>r \<in> set (attempt_rules ev (sample_pipeline [sample_rule rid ''email.*'' act])).
     indexable (cr_tool_pattern r)"
  "applicable (attempt_rules ev (sample_pipeline [sample_rule rid ''email.*'' act])) ev' f
     (tc_tool_name sample_call) = []"
  by (simp_all add: sample_one_rule sample_matches applicable_def)

lemma sample_runs:
  "es_executed (snd (guarded_call (sample_enf ''enforce'') elapsed n sample_event
     (sample_pipeline [sample_rule rid ''email.*'' act]))) \<noteq> []"
proof -
  obtain f where "attempt_features (en_now (sample_enf ''enforce'')) sample_event
      (sample_pipeline [sample_rule rid ''email.*'' act]) = Inr f"
    using sample_features by blast
  from unmatched_runs [OF sample_pipeline_ok sample_event_call(1) this sample_unmatched]
  show ?thesis by simp
qed

lemma sample_attempt_of:
  assumes "ev_tool_call ev = Some sample_call"
  shows "\<exists>d p1. handle_attempt E now elapsed ev (sample_pipeline rules) =
     (Inr (d, attempt_event ev (sample_pipeline rules)), p1)"
proof -
  obtain f where "attempt_features now ev (sample_pipeline rules) = Inr f"
    using sample_features_of [OF assms] by blast
  from attempt_decision [OF sample_pipeline_ok this] show ?thesis by (metis prod.collapse)
qed

lemmas sample_attempt = sample_attempt_of [OF sample_event_call(1)]

end
