(* ===== verification/Runtime_System.thy ===== *)
theory Runtime_System
  imports Pipeline
begin

text \<open>
  The pipeline among the other things that touch its state: guarded calls and bare attempts of any
  adapter, results, the graph writer's thread taking the next item, session signals pushed by the
  host, provenance tags and a reset of the statistics.  The step relation interleaves them freely;
  what every reachable state satisfies is proved by rule induction.
\<close>

subsection \<open>Steps\<close>

inductive system_step :: "'a pipeline_scheme \<Rightarrow> 'a pipeline_scheme \<Rightarrow> bool" where
  step_call: "system_step p (snd (guarded_call env elapsed n ev p))"
| step_attempt: "system_step p (snd (handle_attempt E now elapsed ev p))"
| step_result: "system_step p (handle_result ev p)"
| step_write: "system_step p (p\<lparr>pl_writer := gw_step (pl_writer p)\<rparr>)"
| step_signal: "system_step p (p\<lparr>pl_signals := set_session_signal now sid name v (pl_signals p)\<rparr>)"
| step_clear: "system_step p (p\<lparr>pl_signals := clear_session_signals sid (pl_signals p)\<rparr>)"
| step_tag: "system_step p (update_cache (provenance_tag sid rid labels) p)"
| step_reset: "system_step p (p\<lparr>pl_stats := stats_reset now (pl_stats p)\<rparr>)"

inductive_cases system_step_cases: "system_step p q"

inductive system_reach :: "'a pipeline_scheme \<Rightarrow> 'a pipeline_scheme \<Rightarrow> bool" where
  reach_start: "system_reach p p"
| reach_step: "system_reach p q \<Longrightarrow> system_step q r \<Longrightarrow> system_reach p r"

definition system_ok :: "'a pipeline_scheme \<Rightarrow> bool" where
  "system_ok p \<longleftrightarrow> pipeline_ok p \<and> graph_ok (pl_graph p)"

subsection \<open>The writer keeps the cache in shape\<close>

lemma cache_wf_write_ref: "cache_wf (snd gc) \<Longrightarrow> cache_wf (snd (write_ref eid sid gc ref))"
  by (cases gc) (simp add: write_ref_def Let_def cache_wf_sadd)

lemma cache_wf_write_refs: "cache_wf (snd gc) \<Longrightarrow> cache_wf (snd (foldl (write_ref eid sid) gc refs))"
  by (induction refs arbitrary: gc) (simp_all add: cache_wf_write_ref)

lemma cache_wf_write_tool_call: "cache_wf (snd gc) \<Longrightarrow> cache_wf (snd (write_tool_call tc ev dec gc))"
proof -
  assume ok: "cache_wf (snd gc)"
  obtain g c where gc: "gc = (g, c)" by (cases gc)
  define start where "start = (upsert_edge INVOKED (AGENT, p_agent_id (ev_principal ev)) (TOOL_CALL, ev_event_id ev) []
      (upsert_node TOOL_CALL (ev_event_id ev) (call_props tc ev dec) g), c)"
  obtain g3 c3 where refs: "foldl (write_ref (ev_event_id ev) (p_session_id (ev_principal ev))) start
      (ev_provenance_refs ev) = (g3, c3)"
    by fastforce
  have "cache_wf c3" using cache_wf_write_refs [of start] ok refs by (metis gc snd_conv start_def)
  then show ?thesis
    using refs by (auto simp: write_tool_call_def gc start_def Let_def cache_wf_lpush split: option.splits)
qed

lemma cache_wf_graph_write: "cache_wf (snd gc) \<Longrightarrow> cache_wf (snd (graph_write item gc))"
  by (cases item; cases gc)
    (auto simp: graph_write_def Let_def intro: cache_wf_write_tool_call split: option.splits)

lemma gw_step_ok:
  assumes "cache_wf (snd (gw_target w))" and "graph_ok (fst (gw_target w))"
  shows "cache_wf (snd (gw_target (gw_step w))) \<and> graph_ok (fst (gw_target (gw_step w)))"
proof (cases "gw_queue w")
  case Nil
  with assms show ?thesis by (simp add: gw_step_def)
next
  case (Cons item rest)
  have "grows (fst (gw_target w)) (fst (graph_write item (gw_target w)))" by (rule grows_graph_write)
  with assms Cons show ?thesis by (simp add: gw_step_def cache_wf_graph_write grows_def)
qed

subsection \<open>The graph changes only by the writer\<close>

lemma handle_attempt_graph: "pl_graph (snd (handle_attempt E now elapsed ev p)) = pl_graph p"
  by (cases rule: handle_attempt_cases [of now ev p E elapsed])
    (simp_all add: attempt_ready_def rules_in_scope_value publish_def record_stats_def log_audit_def
      submit_graph_def update_cache_def pl_graph_def gw_submit_def Let_def)

lemma enforcer_graph:
  fixes p :: "'a pipeline_scheme"
  shows "pl_graph (snd (enforcer_apply env (revalidate E now elapsed) n ev d p)) = pl_graph p"
proof -
  let ?P = "\<lambda>q :: 'a pipeline_scheme. pl_graph q = pl_graph p"
  have "enf_stable ?P" by (simp add: enf_stable_def pl_graph_def)
  moreover have "rv_keeps ?P (revalidate E now elapsed)"
    by (rule revalidate_keeps [where P = ?P]) (simp add: handle_attempt_graph)
  ultimately show ?thesis by (rule enforcer_apply_keeps [where P = ?P]) simp
qed

lemma after_call_graph: "pl_graph (after_call E ev v p) = pl_graph p"
  by (simp add: after_call_def handle_result_def log_audit_def submit_graph_def update_cache_def
      pl_graph_def gw_submit_def)

lemma guarded_call_graph: "pl_graph (snd (guarded_call env elapsed n ev p)) = pl_graph p"
proof (cases rule: guarded_call_cases [of env elapsed ev p n])
  case (failed e)
  then show ?thesis by (simp add: handle_attempt_graph)
next
  case (enforced d ev' p1 out p2)
  have "pl_graph p1 = pl_graph p" using handle_attempt_graph enforced(1) by (metis snd_conv)
  moreover have "pl_graph p2 = pl_graph p1" using enforcer_graph enforced(2) by (metis snd_conv)
  ultimately show ?thesis using enforced(3) by (simp add: after_call_graph)
qed

subsection \<open>The invariant of reachable states\<close>

lemma system_step_ok: "system_step p q \<Longrightarrow> system_ok p \<Longrightarrow> system_ok q"
proof (induction rule: system_step.induct)
  case (step_call p env elapsed n ev)
  then show ?case by (simp add: system_ok_def guarded_call_ok guarded_call_graph)
next
  case (step_attempt p E now elapsed ev)
  then show ?case by (simp add: system_ok_def handle_attempt_ok handle_attempt_graph)
next
  case (step_result p ev)
  then show ?case
    by (simp add: system_ok_def handle_result_ok)
      (simp add: handle_result_def log_audit_def submit_graph_def pl_graph_def gw_submit_def)
next
  case (step_write p)
  then show ?case
    using gw_step_ok [of "pl_writer p"] by (simp add: system_ok_def pipeline_ok_def pl_cache_def pl_graph_def)
next
  case (step_tag p sid rid labels)
  then show ?case
    by (simp add: system_ok_def pipeline_ok_def provenance_tag_def cache_wf_sadd)
next
  case (step_reset p now)
  then show ?case
    by (simp add: system_ok_def pipeline_ok_def stats_ok_reset) (simp add: pl_cache_def pl_graph_def)
qed (simp_all add: system_ok_def pipeline_ok_def pl_cache_def pl_graph_def)

lemma system_reach_ok: "system_reach p q \<Longrightarrow> system_ok p \<Longrightarrow> system_ok q"
  by (induction rule: system_reach.induct) (auto intro: system_step_ok)

lemma system_reach_writes:
  "system_reach p (q\<lparr>pl_writer := w\<rparr>) \<Longrightarrow> system_reach p (q\<lparr>pl_writer := (gw_step ^^ k) w\<rparr>)"
proof (induction k)
  case (Suc k)
  show ?case using reach_step [OF Suc.IH [OF Suc.prems] step_write] by simp
qed simp

subsection \<open>What the writer makes visible\<close>

lemma attempt_queue:
  assumes "handle_attempt E now elapsed ev p = (Inr (d, ev'), p1)"
    and "length (gw_queue (pl_writer p)) < gw_capacity (pl_writer p)"
  shows "gw_queue (pl_writer p1) = gw_queue (pl_writer p) @ [(ev', Some d)]"
    and "fst (gw_target (pl_writer p1)) = pl_graph p" and "ev' = attempt_event ev p"
proof -
  have "gw_queue (pl_writer p1) = gw_queue (pl_writer p) @ [(ev', Some d)] \<and> ev' = attempt_event ev p"
    using assms by (cases rule: handle_attempt_cases [of now ev p E elapsed])
      (auto simp: attempt_ready_def rules_in_scope_value publish_def record_stats_def log_audit_def
        submit_graph_def update_cache_def gw_submit_def Let_def)
  then show "gw_queue (pl_writer p1) = gw_queue (pl_writer p) @ [(ev', Some d)]"
    and "ev' = attempt_event ev p" by auto
  show "fst (gw_target (pl_writer p1)) = pl_graph p"
    using handle_attempt_graph [of E now elapsed ev p] assms(1) by (simp add: pl_graph_def)
qed

text \<open>Once the queue is written, a graph query from the call finds the labels it came with.\<close>

lemma flushed_attempt_tainted:
  assumes "graph_ok (pl_graph p)" and "is_attempt ev"
    and "handle_attempt E now elapsed ev p = (Inr (d, ev'), p1)"
    and "length (gw_queue (pl_writer p)) < gw_capacity (pl_writer p)"
    and "ref \<in> set (ev_provenance_refs ev)" "\<not> ends_with (pr_label ref) ''*''" "1 \<le> hops"
  shows "exists_path_to_sink (ev_event_id ev) [pr_label ref] hops
     (fst (gw_target (gw_flush (pl_writer p1))))"
proof -
  note q = attempt_queue [OF assms(3,4)]
  define gc where "gc = foldl (\<lambda>gc item. graph_write item gc) (gw_target (pl_writer p1)) (gw_queue (pl_writer p))"
  have "gw_target (gw_flush (pl_writer p1)) = graph_write (ev', Some d) gc"
    using gw_flush_target [of "pl_writer p1"] by (simp add: q(1) gc_def)
  moreover have "graph_ok (fst gc)"
    using grows_foldl [of "\<lambda>gc item. graph_write item gc", OF grows_graph_write,
        of "gw_target (pl_writer p1)" "gw_queue (pl_writer p)"] assms(1)
    by (simp add: gc_def grows_def q(2))
  moreover have "ev_event_id ev' = ev_event_id ev" "ev_event_type ev' = ev_event_type ev"
      "ev_tool_call ev' = ev_tool_call ev" "ev_provenance_refs ev' = ev_provenance_refs ev"
    by (simp_all add: q(3) attempt_event_def enrich_event_same)
  ultimately show ?thesis
    using assms(2,5-7) graph_write_reaches [of gc ev'] by (fastforce simp: is_attempt_def)
qed

end
