(* ===== verification/Runtime_Properties.thy ===== *)
theory Runtime_Properties
  imports Sample Runtime_System
begin

text \<open>
  What the runtime guarantees around a tool call: when a call is refused, when and how often the
  tool runs, what is logged, and what the stores, the rate limits, the review and the approval
  queue promise.  Each property is followed by an example that applies it.
\<close>

subsection \<open>The guarded call\<close>

text \<open>C1: A DENY rule in the scope of the calling agent that matches the tool and whose condition
  holds on the attempt's features stops the call: outside the monitor and dry-run modes the tool
  does not run, and the caller gets a denial that names the rule, whatever other rules say.\<close>

theorem deny_blocks_call:
  assumes "pipeline_ok p" and "ev_tool_call ev = Some tc"
    and "attempt_features (en_now env) ev p = Inr f"
    and "\<forall>r \<in> set (attempt_rules ev p). indexable (cr_tool_pattern r)"
    and "r \<in> set (attempt_rules ev p)" "cr_action r = DENY" "matches_tool r (tc_tool_name tc)"
    and "rule_hits (attempt_event ev p) f r"
    and "ec_mode (en_config env) \<notin> {''monitor'', ''dry_run''}"
  shows "es_executed (snd (guarded_call env elapsed n ev p)) = es_executed p \<and>
    (\<exists>reason ids. fst (guarded_call env elapsed n ev p) =
       Inl (DecisionDenied reason ids (Some (ev_event_id ev))) \<and> cr_rule_id r \<in> set ids)"
  using deny_rule_blocks [OF assms] by blast

lemma deny_blocks_call_example:
  "es_executed (snd (guarded_call (sample_enf ''enforce'') 0 50 sample_event
     (sample_pipeline [sample_rule ''no-shell'' ''shell.*'' DENY]))) = []"
proof -
  obtain f where "attempt_features (en_now (sample_enf ''enforce'')) sample_event
      (sample_pipeline [sample_rule ''no-shell'' ''shell.*'' DENY]) = Inr f"
    using sample_features by blast
  from deny_blocks_call [OF sample_pipeline_ok sample_event_call(1) this,
      of "sample_rule ''no-shell'' ''shell.*'' DENY" 0 50]
  show ?thesis by (simp add: sample_one_rule sample_matches)
qed

text \<open>A call that no rule in the agent's scope applies to goes through: in enforce mode the tool
  runs exactly once, on the event as enriched from the session, and its answer is the caller's.\<close>

theorem unmatched_call_runs:
  assumes "pipeline_ok p" and "ev_tool_call ev = Some tc"
    and "attempt_features (en_now env) ev p = Inr f"
    and "\<forall>r \<in> set (attempt_rules ev p). indexable (cr_tool_pattern r)"
    and "applicable (attempt_rules ev p) (attempt_event ev p) f (tc_tool_name tc) = []"
    and "ec_mode (en_config env) = ''enforce''"
  shows "es_executed (snd (guarded_call env elapsed n ev p)) = es_executed p @ [attempt_event ev p] \<and>
    fst (guarded_call env elapsed n ev p) = en_exec env (attempt_event ev p)"
  using unmatched_runs [OF assms] by blast

lemma unmatched_call_runs_example:
  "length (es_executed (snd (guarded_call (sample_enf ''enforce'') 0 50 sample_event
     (sample_pipeline [sample_rule ''no-mail'' ''email.*'' DENY])))) = 1"
proof -
  obtain f where "attempt_features (en_now (sample_enf ''enforce'')) sample_event
      (sample_pipeline [sample_rule ''no-mail'' ''email.*'' DENY]) = Inr f"
    using sample_features by blast
  from unmatched_call_runs [OF sample_pipeline_ok sample_event_call(1) this, of 0 50] show ?thesis
    by (simp add: sample_unmatched sample_env sample_executed)
qed

text \<open>C8: A guarded call runs the tool at most once, whatever the decision, the enforcement mode,
  the reviewers and the revalidations of rewritten calls do.\<close>

theorem call_runs_at_most_once:
  "\<exists>evs. es_executed (snd (guarded_call env elapsed n ev p)) = es_executed p @ evs \<and> length evs \<le> 1"
  using guarded_call_at_most_once by (simp add: ran_at_most_once_def)

text \<open>C2: In enforce mode, unless timed-out approvals are configured to go through or degrade, a
  tool has run only if the decision of the attempt permits it: ALLOW, DEGRADE, a HUMAN_CHECK whose
  ticket was approved, or an LLM_CHECK resolved to one of these.\<close>

theorem run_needs_permission:
  assumes "es_executed (snd (guarded_call env elapsed n ev p)) \<noteq> es_executed p"
    and "ec_mode (en_config env) \<notin> {''monitor'', ''dry_run''}"
    and "ec_on_timeout (en_config env) \<notin> {''allow'', ''degrade''}"
  shows "\<exists>d ev' p1. handle_attempt (en_ext env) (en_now env) elapsed ev p = (Inr (d, ev'), p1) \<and>
     may_run env ev' d (es_bridge p1)"
  using guarded_call_may_run [of p env elapsed n ev] assms by (simp add: not_run_def)

lemma run_needs_permission_example:
  "\<exists>d ev' p1. handle_attempt sample_ext 0 0 sample_event
       (sample_pipeline [sample_rule ''no-mail'' ''email.*'' DENY]) = (Inr (d, ev'), p1) \<and>
     may_run (sample_enf ''enforce'') ev' d (es_bridge p1)"
  using run_needs_permission [of "sample_enf ''enforce''" 0 50 sample_event
      "sample_pipeline [sample_rule ''no-mail'' ''email.*'' DENY]"] sample_runs
  by (simp add: sample_env sample_executed)

text \<open>C4: Interleave guarded calls, attempts, results, graph writes, signals, provenance tags and
  statistics resets in any order: the session traces stay within their caps of 256 entries, the
  audit buffer accounts for every record, the per-agent rule views are fresh merges of the packs,
  and the refusal rate of the statistics lies between 0 and 1.\<close>

theorem reachable_state_ok:
  assumes "system_ok p" and "system_reach p q"
  shows "system_ok q \<and> length (read_trace k (pl_cache q)) \<le> trace_log_cap \<and>
    length (read_trace_rich k (pl_cache q)) \<le> trace_rich_cap \<and>
    al_dropped_count (pl_audit q) + length (al_buf (pl_audit q)) = length (al_sink (pl_audit q)) \<and>
    iv_rules (fst (view_for a (pl_eval q, pl_router q))) = agent_rules a (pl_eval q, pl_router q) \<and>
    0 \<le> ss_deny_rate (stats_summary_of now (pl_stats q)) \<and>
    ss_deny_rate (stats_summary_of now (pl_stats q)) \<le> 1"
proof -
  have ok: "system_ok q" using system_reach_ok assms by blast
  then have "cache_wf (pl_cache q)" "audit_ok (pl_audit q)" "stats_ok (pl_stats q)"
      "evaluator_wf (pl_eval q, pl_router q)"
    by (simp_all add: system_ok_def pipeline_ok_def)
  then show ?thesis
    using ok tl.read_bound tr.read_bound stats_deny_rate view_for_value
    by (auto simp: audit_ok_def build_view_def)
qed

lemma reachable_state_ok_example:
  "length (read_trace ''k'' (pl_cache (snd (guarded_call (sample_enf ''enforce'') 0 50 sample_event
     (sample_pipeline [sample_rule ''r'' ''*'' HUMAN_CHECK]))))) \<le> trace_log_cap"
proof -
  have "system_ok (sample_pipeline [sample_rule ''r'' ''*'' HUMAN_CHECK])"
    using graph_ok_empty by (simp add: system_ok_def sample_pipeline_ok) (simp add: sample_pipeline_def pl_graph_def)
  then show ?thesis
    using reachable_state_ok [OF _ reach_step [OF reach_start step_call]] by blast
qed

subsection \<open>What is recorded\<close>

text \<open>C20: A guarded call whose attempt was decided leaves at least two audit records: the attempt with
  its decision first, and the result, with the event type rewritten, last; the records of
  revalidated rewrites stand between them.  This holds for refused calls as well.\<close>

theorem call_is_audited:
  assumes "handle_attempt (en_ext env) (en_now env) elapsed ev p = (Inr (d, ev'), p1)"
  shows "\<exists>mid. al_sink (pl_audit (snd (guarded_call env elapsed n ev p))) =
     al_sink (pl_audit p) @ (ev', Some d) # mid @ [(ev'\<lparr>ev_event_type := TOOL_CALL_RESULT\<rparr>, None)]"
  by (rule guarded_call_audit [OF assms])

lemma call_is_audited_example:
  "2 \<le> length (al_sink (pl_audit (snd (guarded_call (sample_enf ''enforce'') 0 50 sample_event
     (sample_pipeline [sample_rule ''r'' ''*'' DENY])))))"
proof -
  obtain d p1 where "handle_attempt (en_ext (sample_enf ''enforce'')) (en_now (sample_enf ''enforce'')) 0
      sample_event (sample_pipeline [sample_rule ''r'' ''*'' DENY]) =
      (Inr (d, attempt_event sample_event (sample_pipeline [sample_rule ''r'' ''*'' DENY])), p1)"
    using sample_attempt [of sample_ext 0 0 "[sample_rule ''r'' ''*'' DENY]"] by auto
  from call_is_audited [OF this, of 50] show ?thesis by auto
qed

text \<open>C27: An attempt puts itself at the end of its session's trace, whatever was decided, and leaves the
  traces of other sessions alone; the trace keeps the most recent 256 entries.\<close>

theorem attempt_extends_trace:
  assumes "pipeline_ok p" and "ev_tool_call ev = Some tc" and "is_attempt ev"
    and "handle_attempt E now elapsed ev p = (Inr (d, ev'), p1)"
  shows "read_trace (key_trace_log sid) (pl_cache p1) =
     (if sid = p_session_id (ev_principal ev)
      then last_n trace_log_cap (read_trace (key_trace_log sid) (pl_cache p) @ [(tc_tool_name tc, ev_ts_ms ev)])
      else read_trace (key_trace_log sid) (pl_cache p))"
  using handle_attempt_trace [OF assms] by (simp add: push_right_def last_n_def)

lemma attempt_extends_trace_example:
  "read_trace (key_trace_log ''s1'') (pl_cache (snd (handle_attempt sample_ext 0 0 sample_event
     (sample_pipeline [])))) = [(''shell.exec'', 10)]"
proof -
  obtain d ev' p1 where a: "handle_attempt sample_ext 0 0 sample_event (sample_pipeline []) = (Inr (d, ev'), p1)"
    using sample_attempt [of sample_ext 0 0 "[]"] by auto
  have "is_attempt sample_event" "p_session_id (ev_principal sample_event) = ''s1''" "ev_ts_ms sample_event = 10"
    by (simp_all add: sample_event_def is_attempt_def mk_event_def mk_principal_def)
  moreover have "read_trace k (pl_cache (sample_pipeline [])) = []" for k
    by (simp add: read_trace_def deque_items_def dict_getd_def sample_pipeline_def pl_cache_def empty_cache_def)
  ultimately show ?thesis
    using attempt_extends_trace [OF sample_pipeline_ok sample_event_call(1) _ a, of "''s1''"]
    by (auto simp: a sample_event_call last_n_def trace_log_cap_def)
qed

text \<open>Appending any number of entries to a session's trace leaves exactly the last 256 of the old
  and new entries together, in order, and does not touch another session's trace.\<close>

theorem trace_keeps_most_recent:
  assumes "cache_wf c"
  shows "read_trace j (foldl (\<lambda>c x. cache_append_trace k x trace_log_cap c) c xs) =
     (if j = k then last_n trace_log_cap (read_trace k c @ xs) else read_trace j c)"
  using tl.read_append_all [OF assms, of j k xs] by (simp add: tl.append_all_def)

lemma trace_keeps_most_recent_example:
  "read_trace ''k'' (foldl (\<lambda>c x. cache_append_trace ''k'' x trace_log_cap c) empty_cache
     [(''a'', 1), (''b'', 2)]) = [(''a'', 1), (''b'', 2)]"
proof -
  have "read_trace ''k'' empty_cache = []"
    by (simp add: read_trace_def deque_items_def dict_getd_def empty_cache_def)
  then show ?thesis
    using trace_keeps_most_recent [OF cache_wf_empty, of "''k''" "''k''" "[(''a'', 1), (''b'', 2)]"]
    by (simp add: last_n_def trace_log_cap_def)
qed

subsection \<open>Approvals\<close>

text \<open>C26: A ticket that a reviewer has resolved keeps that verdict through everything that can happen
  to the queue one operation at a time: later enqueues, resolutions and timed-out waits change
  neither its status nor accept a second verdict.\<close>

theorem ticket_verdict_final:
  assumes "fst (resolve t act remark b)" and "ap.later (snd (resolve t act remark b)) c"
  shows "status_of c t = Some (resolved_status act) \<and> \<not> fst (resolve t act' remark' c)"
  using ap.settle_once [of t act remark b c] assms by blast

lemma ticket_verdict_final_example:
  "\<not> fst (resolve ''t'' ''deny'' [] (snd (finish_wait ''t'' (snd (resolve ''t'' ''approve'' []
     (enqueue ''t'' 0 sample_event (decision_allow [] []) []))))))"
proof -
  let ?b = "enqueue ''t'' 0 sample_event (decision_allow [] []) []"
  have "fst (resolve ''t'' ''approve'' [] ?b)" by (simp add: resolve_def enqueue_def)
  moreover have "ap.later (snd (resolve ''t'' ''approve'' [] ?b))
      (snd (finish_wait ''t'' (snd (resolve ''t'' ''approve'' [] ?b))))"
    using ap.later_expire [OF ap.later_refl] by simp
  ultimately show ?thesis using ticket_verdict_final by blast
qed

text \<open>The check and the write of a resolution are not one step: two reviewers who both read a
  pending ticket both succeed, and an approval already in place is overwritten by a denial.\<close>

theorem reviewers_can_both_win:
  "\<exists>s t. race_reach race_initial s \<and> rs_status s = Approved \<and> rs_pc s ''a'' = Done True \<and>
     race_reach s t \<and> rs_status t = Denied \<and> rs_pc t ''a'' = Done True \<and> rs_pc t ''b'' = Done True"
proof -
  let ?s1 = "race_initial\<lparr>rs_pc := (rs_pc race_initial)(''a'' := Checked)\<rparr>"
  let ?s2 = "?s1\<lparr>rs_pc := (rs_pc ?s1)(''b'' := Checked)\<rparr>"
  let ?s3 = "?s2\<lparr>rs_status := Approved, rs_pc := (rs_pc ?s2)(''a'' := Done True)\<rparr>"
  let ?s4 = "?s3\<lparr>rs_status := Denied, rs_pc := (rs_pc ?s3)(''b'' := Done True)\<rparr>"
  have "race_step race_initial ?s1" by (rule check_pending) (simp_all add: race_initial_def)
  moreover have "race_step ?s1 ?s2" by (rule check_pending) (simp_all add: race_initial_def)
  moreover have "race_step ?s2 ?s3" by (rule write_status) simp_all
  moreover have "race_step ?s3 ?s4" by (rule write_status) (simp_all add: race_initial_def)
  ultimately have "race_reach race_initial ?s3" "race_reach ?s3 ?s4"
    by (blast intro: race_start race_next)+
  then show ?thesis by (intro exI [of _ ?s3] exI [of _ ?s4]) simp
qed

subsection \<open>Enforcement\<close>

text \<open>C10: When an allowed call with obligations runs, its rate limits had room, the event it runs on is
  the one rewritten by the obligations, and the rewritten call passes the target allowlists.\<close>

theorem obligations_precede_run:
  assumes "es_executed (snd (enforce_allow env ev d s)) \<noteq> es_executed s" and "d_obligations d \<noteq> []"
  shows "\<exists>rates rewritten.
     check_rate_limit (en_ext env) (en_now env) ev d (es_rates s) = (Inr None, rates) \<and>
     apply_rewrites (en_ext env) (en_profiles env) ev d = Inr rewritten \<and>
     (let ev' = (case rewritten of Some tc \<Rightarrow> with_tool_call ev tc | None \<Rightarrow> ev)
      in check_require_target_in (en_ext env) ev' d = Inr None \<and>
         es_executed (snd (enforce_allow env ev d s)) = es_executed s @ [ev'])"
  using enforce_allow_ran [OF _ assms(2), of s env ev] assms(1)
  unfolding not_run_def Let_def by metis

definition mask_decision :: decision where
  "mask_decision = (decision_allow [] [])\<lparr>d_obligations :=
     [\<lparr>ob_kind = ''mask_fields'', ob_params = [(''fields'', VList [VStr ''cmd''])]\<rparr>]\<rparr>"

lemma obligations_precede_run_example:
  "\<exists>rewritten. apply_rewrites sample_ext degrade_profiles sample_event mask_decision = Inr rewritten"
proof -
  let ?s = "\<lparr>es_bridge = [], es_rates = [], es_executed = []\<rparr>"
  have "es_executed (snd (enforce_allow (sample_enf ''enforce'') sample_event mask_decision ?s)) \<noteq> []"
    by code_simp
  then have "es_executed (snd (enforce_allow (sample_enf ''enforce'') sample_event mask_decision ?s)) \<noteq>
      es_executed ?s" by simp
  moreover have "d_obligations mask_decision \<noteq> []" by (simp add: mask_decision_def)
  ultimately show ?thesis
    using obligations_precede_run [of "sample_enf ''enforce''" sample_event mask_decision ?s]
    by (auto simp: Let_def) (simp add: sample_enf_def)
qed



text \<open>A \<open>mask_fields\<close> obligation replaces each listed argument that is present by the redaction
  marker, adds none, and changes nothing else of the call.\<close>

theorem mask_fields_masks:
  assumes "ob_kind ob = ''mask_fields''" and "map_of (ob_params ob) ''fields'' = Some (VList (map VStr names))"
    and "names \<noteq> []"
  shows "\<exists>tc'. apply_obligation E profiles ob tc = Inr tc' \<and>
     (\<forall>k. map_of (tc_args tc') k =
        (if k \<in> set names \<and> k \<in> set (map fst (tc_args tc)) then Some (VStr redacted)
         else map_of (tc_args tc) k)) \<and>
     tc_tool_name tc' = tc_tool_name tc \<and> tc_target tc' = tc_target tc"
proof -
  have "py_or (ob_get ob ''fields'') (ob_get ob ''field'') = VList (map VStr names)"
    using assms(2,3) by (simp add: ob_get_def dict_getd_def py_or_def)
  then show ?thesis
    using assms(1,3) by (simp add: apply_obligation_def mask_args_strings map_of_redact_fields)
qed

lemma mask_fields_masks_example:
  "\<exists>tc'. apply_obligation sample_ext degrade_profiles
       \<lparr>ob_kind = ''mask_fields'', ob_params = [(''fields'', VList (map VStr [''cmd'']))]\<rparr> sample_call = Inr tc' \<and>
     map_of (tc_args tc') ''cmd'' = Some (VStr redacted)"
  using mask_fields_masks [of "\<lparr>ob_kind = ''mask_fields'', ob_params = [(''fields'', VList (map VStr [''cmd'']))]\<rparr>"
      "[''cmd'']" sample_ext degrade_profiles sample_call]
  by (auto simp: sample_call_def mk_tool_call_def)

text \<open>In suspend mode a call under human review never runs the tool: it raises the pending-approval
  error with the new ticket, which is in the queue as pending.\<close>

theorem suspended_review_never_runs:
  assumes "ec_approval_mode (en_config env) = ''suspend''" and "d_action d = HUMAN_CHECK"
    and "ec_mode (en_config env) = ''enforce''"
  shows "\<exists>s'. enforcer_apply env rv (Suc n) ev d s =
       (Inl (HumanApprovalPending (en_fresh env (es_bridge s)) ''human_approval_required''), s') \<and>
     es_executed s' = es_executed s \<and>
     status_of (es_bridge s') (en_fresh env (es_bridge s)) = Some Pending"
  using human_check_suspend [OF assms(1), of rv n ev d s] assms(2,3)
  by (auto simp: enforcer_apply_def not_run_def)

definition suspend_env :: enf_env where
  "suspend_env = (sample_enf ''enforce'')\<lparr>en_config :=
     default_enforcer_config\<lparr>ec_approval_mode := ''suspend''\<rparr>\<rparr>"

lemma suspended_review_never_runs_example:
  "\<exists>s'. enforcer_apply suspend_env None 5 sample_event
     ((decision_allow [] [])\<lparr>d_action := HUMAN_CHECK\<rparr>) \<lparr>es_bridge = [], es_rates = [], es_executed = []\<rparr> =
     (Inl (HumanApprovalPending ''t1'' ''human_approval_required''), s') \<and> es_executed s' = []"
  using suspended_review_never_runs [of suspend_env "(decision_allow [] [])\<lparr>d_action := HUMAN_CHECK\<rparr>" None 4
      sample_event "\<lparr>es_bridge = [], es_rates = [], es_executed = []\<rparr>"]
  by (auto simp: suspend_env_def default_enforcer_config_def) (auto simp: sample_enf_def)

text \<open>An LLM review turns into ALLOW only when a configured model answered, its answer is not empty, and
  the answer's DECISION tag reads allow in any case, or the answer has neither tag and begins with
  allow; every failure of the model escalates or denies.\<close>

theorem llm_allow_needs_verdict:
  "d_action (resolve_llm_check_decision env ev d) = ALLOW \<longleftrightarrow>
     (case en_llm env of
        None \<Rightarrow> False
      | Some chat \<Rightarrow>
          (case chat ev d of
             Inl _ \<Rightarrow> False
           | Inr None \<Rightarrow> False
           | Inr (Some content) \<Rightarrow>
               content \<noteq> [] \<and>
               (case extract_llm_tag content ''DECISION'' of
                  Some t \<Rightarrow> str_lower (str_strip t) = ''allow''
                | None \<Rightarrow> extract_llm_tag content ''REASON'' = None \<and>
                    starts_with (str_lower (str_strip content)) ''allow'')))"
proof -
  have "fst (parse_llm_review_response None) \<noteq> VerdictAllow"
    by (simp add: parse_llm_review_response_def)
  then show ?thesis
    unfolding resolved_allow_iff
    by (auto simp: parse_allow_iff split: option.splits sum.splits)
qed

text \<open>C9: Unless timed-out approvals degrade again, the result of a degradation does not depend on how
  many interpreter frames are left once there are two more than the rewrite depth allows: the
  chain of rewrites and revalidations ends by itself.\<close>

theorem degradation_ends:
  fixes rv :: "'z enf_state_scheme revalidator"
  assumes "ec_on_timeout (en_config env) \<noteq> ''degrade''"
    and "ec_max_rewrite_depth (en_config env) + 2 \<le> n" and "ec_max_rewrite_depth (en_config env) + 2 \<le> m"
  shows "degrade env rv n 0 ev d s = degrade env rv m 0 ev d s"
  using assms by (intro degrade_frames) auto

lemma degradation_ends_example:
  "degrade (sample_enf ''enforce'') None 4 0 sample_event (decision_allow [] []) (sample_pipeline []) =
     degrade (sample_enf ''enforce'') None 1000 0 sample_event (decision_allow [] []) (sample_pipeline [])"
  by (rule degradation_ends) simp_all

subsection \<open>The execution graph\<close>

text \<open>C11: The breadth-first query for tainted sources is reachability: it answers yes exactly when some
  resource with a matching label is reached from the call by at most \<open>max_hops\<close> data-flow edges.\<close>

theorem path_query_is_reachability:
  "exists_path_to_sink sid labels hops g \<longleftrightarrow>
     (\<exists>k y. 0 < k \<and> int k \<le> hops \<and> ((TOOL_CALL, sid), y) \<in> flow_rel g ^^ k \<and>
        tainted (map normalize_label labels) g y)"
  by (rule exists_path_correct)

text \<open>C28: When the writer's queue has room, the graph that results from writing the queue out answers
  yes to a query from a decided attempt for any label its provenance references carry.\<close>

theorem attempt_taint_becomes_visible:
  assumes "graph_ok (pl_graph p)" and "is_attempt ev"
    and "handle_attempt E now elapsed ev p = (Inr (d, ev'), p1)"
    and "length (gw_queue (pl_writer p)) < gw_capacity (pl_writer p)"
    and "ref \<in> set (ev_provenance_refs ev)" "\<not> ends_with (pr_label ref) ''*''" "1 \<le> hops"
  shows "exists_path_to_sink (ev_event_id ev) [pr_label ref] hops
     (fst (gw_target (gw_flush (pl_writer p1))))"
  by (rule flushed_attempt_tainted [OF assms])

definition tagged_event :: runtime_event where
  "tagged_event = sample_event\<lparr>ev_provenance_refs :=
     [\<lparr>pr_node_id = ''doc'', pr_label = ''pii'', pr_confidence = 1, pr_parent_tool_call_id = None\<rparr>]\<rparr>"

lemma attempt_taint_becomes_visible_example:
  "exists_path_to_sink ''e1'' [''pii''] 1
     (fst (gw_target (gw_flush (pl_writer (snd (handle_attempt sample_ext 0 0 tagged_event (sample_pipeline [])))))))"
proof -
  have call: "ev_tool_call tagged_event = Some sample_call"
    by (simp add: tagged_event_def sample_event_call)
  obtain d p1 where a: "handle_attempt sample_ext 0 0 tagged_event (sample_pipeline []) =
      (Inr (d, attempt_event tagged_event (sample_pipeline [])), p1)"
    using sample_attempt_of [OF call] by blast
  have "is_attempt tagged_event" "ev_event_id tagged_event = ''e1''"
      "graph_ok (pl_graph (sample_pipeline []))"
      "length (gw_queue (pl_writer (sample_pipeline []))) < gw_capacity (pl_writer (sample_pipeline []))"
    using graph_ok_empty
    by (simp_all add: is_attempt_def tagged_event_def sample_event_def mk_event_def sample_pipeline_def pl_graph_def)
  then show ?thesis
    using attempt_taint_becomes_visible [OF _ _ a, of "hd (ev_provenance_refs tagged_event)" 1]
    by (simp add: a) (simp add: tagged_event_def ends_with_def starts_with_def)
qed

text \<open>Waiting for the writer applies every queued item in the order of submission and empties the
  queue.\<close>

theorem flush_writes_in_order:
  "gw_target (gw_flush w) = foldl (\<lambda>gc item. graph_write item gc) (gw_target w) (gw_queue w) \<and>
   gw_queue (gw_flush w) = []"
  by (rule gw_flush_target)

text \<open>Two EXISTS_PATH conditions of one rule share one feature key, so both read the answer computed
  for the first: the labels and the hop bound of the second have no influence.\<close>

theorem second_path_condition_ignored:
  assumes "compile_expr E rid phs (BoolOp ''AND'' (ExistsPath l1 h1 s1 o1) (ExistsPath l2 h2 s2 o2)) =
      (pred, feats, specs)"
    and "map_of f (exists_path_key rid) = None"
  shows "pred ev (foldl (path_feature g eid labels) f specs) =
     Inr (path_hit g eid labels \<lparr>ps_feature_key = exists_path_key rid, ps_source_labels = l1, ps_max_hops = h1\<rparr>)"
proof -
  have pred: "pred = (\<lambda>ev f. ebind (exists_path_eval (exists_path_key rid) l1 h1 ev f)
      (\<lambda>b. if b then exists_path_eval (exists_path_key rid) l2 h2 ev f else Inr False))"
    and "specs = [\<lparr>ps_feature_key = exists_path_key rid, ps_source_labels = l1, ps_max_hops = h1\<rparr>,
      \<lparr>ps_feature_key = exists_path_key rid, ps_source_labels = l2, ps_max_hops = h2\<rparr>]"
    using assms(1) by (auto simp: Let_def)
  then have "map_of (foldl (path_feature g eid labels) f specs) (exists_path_key rid) =
      Some (VBool (path_hit g eid labels
        \<lparr>ps_feature_key = exists_path_key rid, ps_source_labels = l1, ps_max_hops = h1\<rparr>))"
    using path_features_first [OF assms(2), of g eid labels specs] by simp
  then show ?thesis by (auto simp: pred exists_path_eval_cached)
qed

lemma second_path_condition_ignored_example:
  "\<exists>pred feats specs.
     compile_expr sample_ext ''r'' [] (BoolOp ''AND'' (ExistsPath [''pii''] 6 [] []) (ExistsPath [''hr''] 6 [] [])) =
       (pred, feats, specs) \<and>
     pred sample_event (foldl (path_feature empty_graph ''e1'' [''pii'']) [] specs) = Inr True"
proof -
  obtain pred feats specs where c: "compile_expr sample_ext ''r'' []
      (BoolOp ''AND'' (ExistsPath [''pii''] 6 [] []) (ExistsPath [''hr''] 6 [] [])) = (pred, feats, specs)"
    by (metis surj_pair)
  have "path_hit empty_graph ''e1'' [''pii'']
      \<lparr>ps_feature_key = exists_path_key ''r'', ps_source_labels = [''pii''], ps_max_hops = 6\<rparr>"
    by (simp add: path_hit_def label_matches_def ends_with_def starts_with_def)
  with second_path_condition_ignored [OF c, of "[]" sample_event empty_graph "''e1''" "[''pii'']"] c
  show ?thesis by auto
qed

end
