(* ===== verification/Guard_Machine.thy ===== *)
theory Guard_Machine
  imports Guard_Rules
begin

text \<open>
  The guard's rule management as a state machine: every operation of \<open>sdk/guard.py\<close> on rules,
  packs and bindings that succeeds, listing an agent's rules, and evaluating an event.  In every
  reachable state the evaluator judges an agent by the rules a fresh merge of its packs gives.  A
  reload that fails half-way is not a step of the machine; what it leaves behind is shown apart.
\<close>

subsection \<open>Steps\<close>

inductive guard_step :: "guard_rules \<Rightarrow> guard_rules \<Rightarrow> bool" where
  step_add: "add_rules E fs src ov pid g = Inr (n, g') \<Longrightarrow> guard_step g g'"
| step_remove: "guard_step g (snd (remove_rule rid g))"
| step_replace: "replace_rule_pack_rules pid rules src um g = Inr (p, g') \<Longrightarrow> guard_step g g'"
| step_ensure: "ensure_rule_pack pid src b g = Inr (p, g') \<Longrightarrow> guard_step g g'"
| step_reload: "reload_rules E fs bdir src kb um g = (Inr n, g') \<Longrightarrow> guard_step g g'"
| step_add_pack: "add_rule_pack E fs pid rsrc g = Inr (p, g') \<Longrightarrow> guard_step g g'"
| step_remove_pack: "remove_rule_pack pid g = Inr (ok, g') \<Longrightarrow> guard_step g g'"
| step_bind: "bind_agent a pid g = Inr g' \<Longrightarrow> guard_step g g'"
| step_unbind: "guard_step g (snd (unbind_agent a pid g))"
| step_list: "guard_step g (snd (guard_rules_for_agent a g))"
| step_evaluate: "guard_step g (snd (guard_evaluate E ev features g))"

inductive guard_reach :: "guard_rules \<Rightarrow> bool" where
  reach_new: "new_guard E fs bdir b policy packs bindings = Inr g \<Longrightarrow> guard_reach g"
| reach_next: "guard_reach g \<Longrightarrow> guard_step g g' \<Longrightarrow> guard_reach g'"

inductive_cases guard_step_cases: "guard_step g g'"

definition guard_live :: "guard_rules \<Rightarrow> bool" where
  "guard_live g \<longleftrightarrow> guard_ok g \<and> fe_routed (gr_eval g)"

subsection \<open>The evaluator stays attached to the router\<close>

lemma routed_invalidate [simp]: "fe_routed (evaluator_invalidate fe) = fe_routed fe"
  by (simp add: evaluator_invalidate_def)

lemma routed_with_router [simp]: "fe_routed (gr_eval (with_router rt g)) = fe_routed (gr_eval g)"
  by (simp add: with_router_def)

lemma routed_view_for [simp]: "fe_routed (fst (snd (view_for a st))) = fe_routed (fst st)"
  by (auto simp: view_for_def Let_def split: prod.splits option.splits)

lemma routed_evaluate: "fe_routed (fst (snd (evaluate E ev features st))) = fe_routed (fst st)"
  by (auto simp: evaluate_def Let_def split: option.splits prod.splits dest!: sym [of _ "view_for _ _"]
      dest: arg_cong [of _ _ "\<lambda>x. fe_routed (fst (snd x))"])

lemma routed_reload_builtin [simp]:
  "fe_routed (gr_eval (snd (reload_builtin E fs bdir kb g))) = fe_routed (gr_eval g)"
  by (simp add: reload_builtin_def Let_def split: sum.split)

lemma routed_reload_user [simp]:
  "fe_routed (gr_eval (snd (reload_user E fs src um g))) = fe_routed (gr_eval g)"
proof -
  have "fe_routed (gr_eval (if b then g\<lparr>gr_user_source := s\<rparr> else g)) = fe_routed (gr_eval g)" for b s
    by simp
  then show ?thesis by (simp add: reload_user_def Let_def split: sum.split)
qed

lemma routed_step: "guard_step g g' \<Longrightarrow> fe_routed (gr_eval g') = fe_routed (gr_eval g)"
proof (induction rule: guard_step.induct)
  case (step_add E fs src ov pid g n g')
  then show ?case by (auto simp: add_rules_def ebind_Inr_iff Let_def split: if_splits prod.splits)
next
  case (step_remove g rid)
  then show ?case by (simp add: remove_rule_def split: prod.splits)
next
  case (step_replace pid rules src um g p g')
  then show ?case by (auto simp: replace_rule_pack_rules_def split: if_splits prod.splits)
next
  case (step_ensure pid src b g p g')
  then show ?case by (auto simp: ensure_rule_pack_def split: if_splits option.splits prod.splits)
next
  case (step_reload E fs bdir src kb um g n g')
  then show ?case
    using routed_reload_builtin [of E fs bdir kb g]
      routed_reload_user [of E fs src um "snd (reload_builtin E fs bdir kb g)"]
    by (simp add: reload_rules_def del: routed_reload_builtin routed_reload_user split: sum.splits prod.splits)
next
  case (step_add_pack E fs pid rsrc g p g')
  then show ?case by (auto simp: add_rule_pack_def replace_pack_rules_def Let_def ebind_Inr_iff split: if_splits)
next
  case (step_remove_pack pid g ok g')
  then show ?case by (auto simp: remove_rule_pack_def split: if_splits prod.splits)
next
  case (step_bind a pid g g')
  then show ?case by (auto simp: bind_agent_def ebind_Inr_iff)
next
  case (step_unbind g a pid)
  then show ?case by (simp add: unbind_agent_def split: prod.splits)
next
  case (step_list g a)
  then show ?case by (simp add: guard_rules_for_agent_def split: prod.splits)
next
  case (step_evaluate g E ev features)
  then show ?case
    using routed_evaluate [of E ev features "(gr_eval g, gr_router g)"]
    by (auto simp: guard_evaluate_def split: prod.splits)
qed

subsection \<open>Every step keeps the views fresh\<close>

lemma guard_list_ok:
  assumes "guard_ok g"
  shows "guard_ok (snd (guard_rules_for_agent a g))"
proof -
  obtain rules rt where rt: "rules_for_agent a (gr_router g) = (rules, rt)" by fastforce
  have "router_ok rt" "merged_for b rt = merged_for b (gr_router g)" for b
    using router_ok_rules_for_agent [OF guard_ok_router [OF assms], of a]
      merged_for_rules_for_agent [of b a "gr_router g"] rt by auto
  then show ?thesis
    using assms rt [unfolded gr_router_def]
    by (simp add: guard_rules_for_agent_def guard_ok_def evaluator_wf_def evaluator_ok_def gr_router_def)
qed

lemma guard_evaluate_ok: "guard_ok g \<Longrightarrow> guard_ok (snd (guard_evaluate E ev features g))"
  using evaluator_wf_evaluate [of "(gr_eval g, gr_router g)" E ev features]
  by (auto simp: guard_ok_def guard_evaluate_def gr_router_def split: prod.splits)

lemma guard_step_ok: "guard_step g g' \<Longrightarrow> guard_ok g \<Longrightarrow> guard_ok g'"
proof (induction rule: guard_step.induct)
  case (step_reload E fs bdir src kb um g n g')
  then show ?case using reload_ok [of g E fs bdir src kb um n] by simp
qed (auto intro: add_rules_ok remove_rule_ok replace_pack_ok ensure_pack_ok add_pack_ok remove_pack_ok
    bind_ok unbind_ok guard_list_ok guard_evaluate_ok)

lemma guard_reach_live: "guard_reach g \<Longrightarrow> guard_live g"
proof (induction rule: guard_reach.induct)
  case (reach_new E fs bdir b policy packs bindings g)
  then show ?case
    using new_guard_ok [OF reach_new]
    by (auto simp: guard_live_def new_guard_def ebind_Inr_iff Let_def new_evaluator_def)
next
  case (reach_next g g')
  then show ?case by (simp add: guard_live_def guard_step_ok routed_step)
qed

lemma guard_live_rules: "guard_live g \<Longrightarrow> agent_rules a (gr_eval g, gr_router g) = merged_for a (gr_router g)"
  by (simp add: guard_live_def agent_rules_def)

subsection \<open>A reload that fails\<close>

lemma evaluate_cached:
  assumes "fe_routed fe" and "map_of (fe_agent_views fe) (p_agent_id (ev_principal ev)) = Some view"
  shows "fst (evaluate E ev features (fe, rt)) = fst (evaluate E ev features (fe, rt'))"
  using assms by (simp add: evaluate_def view_for_def split: option.splits)

lemma reload_failed:
  assumes "load_rules E fs True (Some bdir) = Inr builtin"
    and "load_rules E fs False (Some src) = Inl e"
  shows "fst (reload_rules E fs bdir (Some src) (Some True) um g) = Inl e"
    and "get_pack builtin_pack_id (gr_router (snd (reload_rules E fs bdir (Some src) (Some True) um g))) =
      Some \<lparr>rp_pack_id = builtin_pack_id, rp_rules = builtin, rp_source = ''builtin'', rp_user_managed = False\<rparr>"
    and "gr_eval (snd (reload_rules E fs bdir (Some src) (Some True) um g)) = gr_eval g"
  using assms
  by (simp_all add: reload_rules_def reload_builtin_def reload_user_def Let_def gr_router_def
      replace_pack_rules_def upsert_pack_def get_pack_def)

lemma reload_failed_stale:
  assumes "load_rules E fs True (Some bdir) = Inr builtin"
    and "load_rules E fs False (Some src) = Inl e" and "fe_routed (gr_eval g)"
    and "map_of (fe_agent_views (gr_eval g)) (p_agent_id (ev_principal ev)) = Some view"
  shows "fst (guard_evaluate E ev features (snd (reload_rules E fs bdir (Some src) (Some True) um g))) =
     fst (guard_evaluate E ev features g)"
  using reload_failed(3) [OF assms(1,2), of um g] evaluate_cached [OF assms(3,4)]
  by (simp add: guard_evaluate_def split: prod.splits) (metis fst_conv)

subsection \<open>Removing a rule\<close>

text \<open>The registry edits the first pack that carries the id, so another pack's copy stays active.\<close>

lemma remove_rule_other_pack:
  assumes "packs_ok (gr_router g)" and "get_pack a (gr_router g) = Some pa" "has_rule k pa"
    and "get_pack b (gr_router g) = Some pb" "has_rule k pb" "a \<noteq> b"
  shows "fst (remove_rule k g)" and "k \<in> cr_rule_id ` set (active_rules (snd (remove_rule k g)))"
proof -
  let ?rt = "gr_router g"
  have pa: "pa \<in> set (list_packs ?rt)"
    using assms(2) by (force simp: get_pack_def list_packs_def dict_values_def dest: map_of_SomeD)
  then obtain first where first: "find (has_rule k) (list_packs ?rt) = Some first"
    using assms(3) by (cases "find (has_rule k) (list_packs ?rt)") (auto simp: find_None_iff)
  define rt' where "rt' = snd (replace_pack_rules (rp_pack_id first)
     (filter (\<lambda>r. cr_rule_id r \<noteq> k) (rp_rules first)) (rp_source first) False ?rt)"
  have removed: "registry_remove k (gr_registry g) =
      (True, (gr_registry g)\<lparr>rr_router := rt', rr_version := rr_version (gr_registry g) + 1\<rparr>)"
    using first by (simp add: registry_remove_def gr_router_def rt'_def Let_def)
  then show "fst (remove_rule k g)" by (simp add: remove_rule_def)
  obtain other po where other: "get_pack other ?rt = Some po" "has_rule k po" "other \<noteq> rp_pack_id first"
    using assms(2-6) by metis
  then have "get_pack other rt' = Some po"
    by (simp add: rt'_def replace_pack_rules_def upsert_pack_def get_pack_def Let_def)
  then have "(other, po) \<in> set (rt_packs rt')"
    unfolding get_pack_def by (rule map_of_SomeD)
  then have "po \<in> set (list_packs rt')"
    by (force simp: list_packs_def dict_values_def)
  then have "k \<in> cr_rule_id ` set (all_rules rt')"
    using other(2) unfolding all_rules_def merge_rules_ids by (auto simp: has_rule_def list_ex_iff)
  then show "k \<in> cr_rule_id ` set (active_rules (snd (remove_rule k g)))"
    using removed by (simp add: remove_rule_def active_rules_def gr_router_def)
qed

end
