(* ===== verification/Parsed_Rules.thy ===== *)
theory Parsed_Rules
  imports Guard_Rules
begin

text \<open>
  The parser and the compiler together: whatever the parser accepts also compiles, rule by rule and
  in order, so a rule file that parses is loaded completely.
\<close>

definition known_action :: "rule_ast \<Rightarrow> bool" where
  "known_action r \<longleftrightarrow> aa_kind (ra_action r) \<in> set action_kinds"

lemma with_obligations_kind:
  "with_obligations n act toks = Inr (act', r) \<Longrightarrow> aa_kind act' = aa_kind act"
  by (auto simp: with_obligations_def ebind_Inr_iff split: if_splits prod.splits)

lemma parse_action_kind:
  assumes "parse_action n toks = Inr (act, r)"
  shows "aa_kind act \<in> set action_kinds"
  using assms
  by (auto simp: parse_action_def ebind_Inr_iff action_kinds_def split: option.splits if_splits prod.splits
      dest!: with_obligations_kind)

lemma parse_rule_known: "parse_rule E n toks = Inr (rule, r) \<Longrightarrow> known_action rule"
  by (auto simp: parse_rule_def ebind_Inr_iff known_action_def split: prod.splits dest: parse_action_kind)

lemma parsed_all:
  assumes "\<And>n toks rule r. parse_rule E n toks = Inr (rule, r) \<Longrightarrow> P rule"
    and "\<And>rule src block. P rule \<Longrightarrow> P (rule\<lparr>ra_source := src, ra_source_block := block\<rparr>)"
    and "parse_rule_source E src = Inr rules"
  shows "list_all P rules"
proof -
  have from_tokens: "list_all P rs" if "parse_rules_from E n k toks = Inr rs" for n k toks rs
    using that by (induction k arbitrary: toks rs)
      (auto simp: ebind_Inr_iff split: if_splits prod.splits dest: assms(1))
  have "list_all P (map (\<lambda>(i, r). r\<lparr>ra_source := src, ra_source_block := f i\<rparr>) (enumerate m rs))"
    if "list_all P rs" for f m rs
    using that by (induction rs arbitrary: m) (auto dest: assms(2))
  from this [of _ "\<lambda>i. if i < length (source_blocks src) then source_blocks src ! i else []" 0]
  have "list_all P (attach_sources src rs)" if "list_all P rs" for rs
    using that by (simp add: attach_sources_def Let_def)
  moreover obtain toks rs where "parse_rules_from E (parse_fuel toks) (Suc (length toks)) toks = Inr rs"
      "rules = attach_sources src rs"
    using assms(3) unfolding parse_rule_source_def parse_tokens_def ebind_Inr_iff sum.inject by metis
  ultimately show ?thesis using from_tokens by blast
qed

lemma parse_rule_source_known: "parse_rule_source E src = Inr rules \<Longrightarrow> list_all known_action rules"
  by (rule parsed_all [OF parse_rule_known]) (auto simp: known_action_def)

lemma parse_rules_known:
  assumes "parse_rules E sources = Inr rules"
  shows "list_all known_action rules"
proof -
  obtain rss where rss: "emap (parse_rule_source E) sources = Inr rss" "rules = concat rss"
    using assms by (auto simp: parse_rules_def ebind_Inr_iff)
  have "\<forall>rs \<in> set rss. list_all known_action rs"
    using rss(1)
    by (induction sources arbitrary: rss) (auto simp: ebind_Inr_iff dest: parse_rule_source_known)
  then show ?thesis by (auto simp: rss(2) list_all_iff)
qed

lemma compile_known: "known_action ast \<Longrightarrow> \<exists>r. compile_rule E version ast = Inr r"
  unfolding compile_rule_Inr_iff by (auto simp: known_action_def action_kinds_def action_map_def)

subsection \<open>Separators of parsed TRACE clauses\<close>

definition known_tail :: "trace_clause \<Rightarrow> bool" where
  "known_tail steps \<longleftrightarrow> list_all (\<lambda>s. snd s \<in> {''->'', ''-> *'', ''-> ...'', ''-> ...?''}) (tl steps)"

lemma consume_gap_known: "fst (consume_gap toks) \<in> {[], ''*'', ''...'', ''...?''}"
  by (simp add: consume_gap_def)

lemma trace_steps_known:
  assumes "trace_steps n sep acc toks = Inr (steps, r)" and "known_tail acc"
    and "acc \<noteq> [] \<longrightarrow> sep \<in> {''->'', ''-> *'', ''-> ...'', ''-> ...?''}"
  shows "known_tail steps"
  using assms
proof (induction n arbitrary: sep acc toks)
  case (Suc n)
  have snoc: "known_tail (acc @ [(name, sep)])" for name
    using Suc.prems(2,3) by (cases acc) (auto simp: known_tail_def)
  have gap: "''-> '' @ fst (consume_gap q) \<in> {''->'', ''-> *'', ''-> ...'', ''-> ...?''}"
    if "fst (consume_gap q) \<noteq> []" for q
    using consume_gap_known [of q] that by auto
  show ?case
  proof (cases "key_of (peek toks) = None")
    case True
    then show ?thesis using Suc.prems(1,2) by simp
  next
    case False
    then obtain name q where name: "eat_ident toks = Inr (name, q)"
      using Suc.prems(1) by (auto simp: ebind_Inr_iff)
    obtain g q1 where g: "consume_gap (tl q) = (g, q1)" by fastforce
    have "trace_steps n sep' (acc @ [(name, sep)]) q' = Inr (steps, r) \<Longrightarrow>
        sep' \<in> {''->'', ''-> *'', ''-> ...'', ''-> ...?''} \<Longrightarrow> known_tail steps" for sep' q'
      using Suc.IH snoc by blast
    then show ?thesis
      using Suc.prems(1) False name g gap [of "tl q"] snoc [of name]
      by (auto simp: Let_def split: if_splits)
  qed
qed simp

lemma parse_trace_clause_known: "parse_trace_clause n toks = Inr (steps, r) \<Longrightarrow> known_tail steps"
  by (auto simp: parse_trace_clause_def ebind_Inr_iff known_tail_def [of "[]"] split: if_splits prod.splits
      dest: trace_steps_known)

definition known_trace :: "rule_ast \<Rightarrow> bool" where
  "known_trace r \<longleftrightarrow> (case ra_trace_clause r of None \<Rightarrow> True | Some c \<Rightarrow> known_tail c)"

lemma optional_trace_known:
  "optional_key k None (\<lambda>r. ebind (parse_trace_clause n r) (\<lambda>(c, q). Inr (Some c, q))) toks = Inr (tc, r) \<Longrightarrow>
     (case tc of None \<Rightarrow> True | Some c \<Rightarrow> known_tail c)"
  by (auto simp: optional_key_def ebind_Inr_iff split: option.splits prod.splits dest: parse_trace_clause_known)

lemma parse_rule_known_trace: "parse_rule E n toks = Inr (rule, r) \<Longrightarrow> known_trace rule"
  by (auto simp: parse_rule_def ebind_Inr_iff known_trace_def split: prod.splits dest: optional_trace_known)

lemma parse_rule_source_known_trace: "parse_rule_source E src = Inr rules \<Longrightarrow> list_all known_trace rules"
  by (rule parsed_all [OF parse_rule_known_trace]) (auto simp: known_trace_def)

subsection \<open>Compiling\<close>

definition same_rule :: "rule_ast \<Rightarrow> compiled_rule \<Rightarrow> bool" where
  "same_rule ast r \<longleftrightarrow> cr_rule_id r = ra_rule_id ast \<and> cr_tool_pattern r = ra_tool_pattern ast \<and>
     map_of action_map (aa_kind (ra_action ast)) = Some (cr_action r) \<and>
     cr_event_subtype r = ra_event_subtype ast \<and> cr_meta r = ra_meta ast"

lemma compile_all_known:
  assumes "list_all known_action asts"
  shows "\<exists>rules. compile_all E version asts = Inr rules \<and> list_all2 same_rule asts rules"
  using assms
proof (induction asts)
  case (Cons ast asts)
  then obtain r rules where r: "compile_rule E version ast = Inr r"
      "compile_all E version asts = Inr rules" "list_all2 same_rule asts rules"
    using compile_known [of ast E version] by auto
  then show ?case
    using compile_rule_fields [OF r(1)] by (auto simp: compile_all_def same_rule_def [of ast])
qed (simp add: compile_all_def)

end
