(* ===== verification/Parser_Bounds.thy ===== *)
theory Parser_Bounds
  imports Dsl_Parser
begin

text \<open>
  Every parse ends: with the bound the entry point passes, no operation of the parser runs out,
  and every one that eats a token leaves fewer.
\<close>

text \<open>A result within a bound: no exhaustion, and less than \<open>m\<close> tokens left.\<close>

definition leaves :: "nat \<Rightarrow> ('a \<times> token list) result \<Rightarrow> bool" where
  "leaves m res \<longleftrightarrow> (case res of Inl e \<Rightarrow> e \<noteq> RecursionError | Inr (a, r) \<Rightarrow> length r < m)"

lemma leaves_simps [simp]:
  "leaves m (Inl e) \<longleftrightarrow> e \<noteq> RecursionError"
  "leaves m (Inr (a, r)) \<longleftrightarrow> length r < m"
  by (simp_all add: leaves_def)

lemma leaves_bind:
  assumes "leaves m res" and "\<And>a r. res = Inr (a, r) \<Longrightarrow> length r < m \<Longrightarrow> leaves k (f (a, r))"
  shows "leaves k (ebind res f)"
  using assms by (cases res) auto

lemma leaves_mono: "leaves m res \<Longrightarrow> m \<le> k \<Longrightarrow> leaves k res"
  by (cases res) auto

lemma peek_simps [simp]: "peek (t # ts) = fst t" "peek [] = EOF"
  by (simp_all add: peek_def)

lemma peek_not_Nil: "peek toks \<noteq> EOF \<Longrightarrow> 0 < length toks"
  by (cases toks) simp_all

lemma expected_no_recursion [simp]:
  "expected what toks \<noteq> RecursionError" "wanted what toks \<noteq> RecursionError"
  "expected_not what toks \<noteq> RecursionError"
  by (simp_all add: expected_def wanted_def expected_not_def)

lemma leaves_eat: "t \<noteq> EOF \<Longrightarrow> leaves (length toks) (eat t toks)"
  by (cases toks) (simp_all add: eat_def)

lemma leaves_eat_ident: "leaves (length toks) (eat_ident toks)"
  by (cases toks) (simp_all add: eat_ident_def split: tok.splits)

lemma leaves_eat_string: "leaves (length toks) (eat_string toks)"
  by (cases toks) (simp_all add: eat_string_def split: tok.splits)

lemma leaves_str_item: "leaves (length toks) (str_item toks)"
  by (cases toks) (simp_all add: str_item_def split: tok.splits)

lemma leaves_more_items: "length toks < n \<Longrightarrow> leaves (Suc (length toks)) (more_items n items toks)"
proof (induction n arbitrary: items toks)
  case (Suc n)
  show ?case
  proof (cases "peek toks = PUNC '',''")
    case True
    then have "0 < length toks" by (intro peek_not_Nil) simp
    then have "leaves (Suc (length toks)) (more_items n its r)" if "length r < length (tl toks)" for its r
      using that Suc.prems by (intro leaves_mono [OF Suc.IH]) auto
    then show ?thesis using True by (auto intro: leaves_bind [OF leaves_str_item])
  qed simp
qed simp

lemma leaves_set_lit: "length toks \<le> n \<Longrightarrow> leaves (length toks) (parse_set_lit n toks)"
  unfolding parse_set_lit_def
proof (rule leaves_bind [OF leaves_eat]; simp?)
  fix r :: "token list" assume n: "length toks \<le> n" and r: "length r < length toks"
  have items: "leaves (length toks) (ebind (more_items n its r1) (\<lambda>(items, r2).
      ebind (eat (PUNC ''}'') r2) (\<lambda>(_, r3). Inr (items, r3))))" if "length r1 < length r" for its r1
  proof (rule leaves_bind [OF leaves_more_items])
    show "length r1 < n" using that n r by simp
    show "leaves (length toks) (case (items, r2) of (items, r2) \<Rightarrow>
        ebind (eat (PUNC ''}'') r2) (\<lambda>(_, r3). Inr (items, r3)))"
      if "length r2 < Suc (length r1)" for items r2
      using that \<open>length r1 < length r\<close> r by (auto intro!: leaves_bind [OF leaves_eat])
  qed
  show "(peek r = PUNC ''}'' \<longrightarrow> length r - Suc 0 < length toks) \<and>
      (peek r \<noteq> PUNC ''}'' \<longrightarrow> leaves (length toks) (ebind (str_item r) (\<lambda>(s, r1).
         ebind (more_items n [s] r1) (\<lambda>(items, r2). ebind (eat (PUNC ''}'') r2) (\<lambda>(_, r3). Inr (items, r3))))))"
    using r by (auto intro!: leaves_bind [OF leaves_str_item] items)
qed

lemma length_tl_less [simp]: "peek toks \<noteq> EOF \<Longrightarrow> length toks - Suc 0 < length toks"
  by (cases toks) simp_all

lemma leaves_more_parts: "length toks < n \<Longrightarrow> leaves (Suc (length toks)) (more_parts n parts toks)"
proof (induction n arbitrary: parts toks)
  case (Suc n)
  show ?case
  proof (cases "peek toks = PUNC ''.''")
    case True
    then have "length (tl toks) < length toks" by simp
    moreover have "leaves (Suc (length toks)) (more_parts n ps r)" if "length r < length (tl toks)" for ps r
      using that Suc.prems by (intro leaves_mono [OF Suc.IH]) auto
    ultimately show ?thesis using True by (auto intro: leaves_bind [OF leaves_eat_ident])
  qed simp
qed simp

lemma kwarg_key_tokens: "kwarg_key toks = Some k \<Longrightarrow> length (tl (tl toks)) + 2 \<le> length toks"
  by (cases toks; cases "tl toks") (auto simp: kwarg_key_def peek_at_def split: tok.splits if_splits)

lemma leaves_values:
  "8 * length toks + 2 \<le> n \<Longrightarrow> leaves (length toks) (parse_value n toks)"
  "8 * length toks + 1 \<le> n \<Longrightarrow> leaves (length toks) (parse_path_or_func n toks)"
  "8 * length toks + 3 \<le> n \<Longrightarrow> leaves (length toks) (call_args n args kwargs toks)"
proof (induction n toks and n toks and n args kwargs toks
    rule: parse_value_parse_path_or_func_call_args.induct)
  case (2 n toks)
  then show ?case
    using peek_not_Nil [of toks]
    by (auto split: tok.splits intro!: leaves_bind [OF leaves_set_lit])
next
  case (4 n toks)
  show ?case
    unfolding parse_path_or_func.simps
  proof (rule leaves_bind [OF leaves_eat_ident], unfold split)
    fix w and r :: "token list"
    assume w: "eat_ident toks = Inr (w, r)" and r: "length r < length toks"
    then have "leaves (Suc (length r)) (more_parts n [w] r)" using 4(2) by (intro leaves_more_parts) simp
    then show "leaves (length toks) (ebind (more_parts n [w] r) (\<lambda>(parts, r1).
        if peek r1 = PUNC ''('' then
          (if peek (tl r1) = PUNC '')'' then Inr (mk_call parts [] [], tl (tl r1))
           else ebind (call_args n [] [] (tl r1)) (\<lambda>((args, kwargs), r2).
                ebind (eat (PUNC '')'') r2) (\<lambda>(_, r3). Inr (mk_call parts args kwargs, r3))))
        else Inr (APath parts, r1)))"
    proof (rule leaves_bind, unfold split)
      fix parts and r1 :: "token list"
      assume parts: "more_parts n [w] r = Inr (parts, r1)" and r1: "length r1 < Suc (length r)"
      have args: "leaves (length (tl r1)) (call_args n [] [] (tl r1))"
        if "peek r1 = PUNC ''(''" "peek (tl r1) \<noteq> PUNC '')''"
        using that r r1 4(2) by (intro 4(1) [OF w refl parts refl]) (auto dest: peek_not_Nil)
      show "leaves (length toks) (if peek r1 = PUNC ''('' then
          (if peek (tl r1) = PUNC '')'' then Inr (mk_call parts [] [], tl (tl r1))
           else ebind (call_args n [] [] (tl r1)) (\<lambda>((args, kwargs), r2).
                ebind (eat (PUNC '')'') r2) (\<lambda>(_, r3). Inr (mk_call parts args kwargs, r3))))
        else Inr (APath parts, r1))"
        using r r1 by (auto intro!: leaves_bind [OF args] leaves_bind [OF leaves_eat])
    qed
  qed
next
  case (6 n args kwargs toks)
  show ?case
  proof (cases "kwarg_key toks")
    case None
    have "leaves (length toks) (parse_value n toks)" using None 6 by simp
    moreover have "leaves (length toks) (call_args n (args @ [v]) kwargs (tl r))"
      if "parse_value n toks = Inr (v, r)" "peek r = PUNC '',''" "length r < length toks" for v r
      using that 6(5) by (intro leaves_mono [OF 6(2) [OF None that(1) refl that(2)]]) auto
    ultimately show ?thesis using None by (auto intro: leaves_bind)
  next
    case (Some key)
    let ?r = "tl (tl toks)"
    have less: "length ?r + 2 \<le> length toks" using Some by (rule kwarg_key_tokens)
    have "leaves (length ?r) (parse_value n ?r)" using Some 6 less by simp
    moreover have "leaves (length toks) (call_args n args (dict_set key v kwargs) (tl r))"
      if "parse_value n ?r = Inr (v, r)" "peek r = PUNC '',''" "length r < length ?r" for v r
      using that 6(5) less by (intro leaves_mono [OF 6(4) [OF Some that(1) refl that(2)]]) auto
    ultimately show ?thesis using Some less by (auto intro: leaves_bind)
  qed
qed simp_all

lemma leaves_path_key: "leaves (length toks) (path_key toks)"
  unfolding path_key_def
  by (auto intro!: leaves_bind [OF leaves_eat_ident])

lemma leaves_path_arg:
  assumes "8 * length toks + 2 \<le> n"
  shows "leaves (length toks)
    (if key = ''source_label'' \<or> key = ''source.label''
     then ebind (eat (KW ''IN'') toks) (\<lambda>(_, r1).
          ebind (parse_set_lit n r1) (\<lambda>(items, r2). Inr (node\<lparr>pn_labels := items\<rparr>, r2)))
     else ebind (eat (PUNC ''='') toks) (\<lambda>(_, r1).
          ebind (parse_value n r1) (\<lambda>(v, r2). Inr (set_path_arg E key v node, r2))))"
  using assms
  by (auto intro!: leaves_bind [OF leaves_eat] leaves_bind [OF leaves_set_lit] leaves_bind [OF leaves_values(1)])

lemma leaves_path_args: "8 * length toks + 3 \<le> n \<Longrightarrow> leaves (length toks) (path_args E n node toks)"
proof (induction n arbitrary: node toks)
  case (Suc n)
  show ?case
    unfolding path_args.simps
  proof (rule leaves_bind [OF leaves_path_key], unfold split, rule leaves_bind [OF leaves_path_arg], goal_cases)
    case (1 key r)
    then show ?case using Suc.prems by simp
  next
    case (2 key r node' r3)
    have "leaves (length toks) (path_args E n node' (tl r3))" if "peek r3 = PUNC '',''"
      using that 2 Suc.prems by (intro leaves_mono [OF Suc.IH]) auto
    with 2 show ?case by auto
  qed
qed simp

lemma leaves_exists_path: "8 * length toks + 1 \<le> n \<Longrightarrow> leaves (length toks) (parse_exists_path E n toks)"
  unfolding parse_exists_path_def
  by (auto intro!: leaves_bind [OF leaves_eat] leaves_bind [OF leaves_path_args])

lemma leaves_compare:
  "8 * length toks + 2 \<le> n \<Longrightarrow>
     leaves (length toks) (ebind (parse_value n toks) (\<lambda>(v, r2). Inr (Compare left op v, r2)))"
  by (auto intro!: leaves_bind [OF leaves_values(1)])

lemma leaves_bare_or_compare:
  assumes "8 * length toks + 1 \<le> n"
  shows "leaves (length toks) (parse_bare_or_compare n toks)"
  unfolding parse_bare_or_compare_def
proof (rule leaves_bind [OF leaves_values(2) [OF assms]], unfold split)
  fix left and r :: "token list"
  assume r: "length r < length toks"
  have compare: "leaves (length toks) (ebind (parse_value n r1) (\<lambda>(v, r2). Inr (Compare left op v, r2)))"
    if "length r1 \<le> length r" for op r1
    using that r assms by (intro leaves_mono [OF leaves_compare]) auto
  show "leaves (length toks) (let compare = (\<lambda>op r1. ebind (parse_value n r1) (\<lambda>(v, r2). Inr (Compare left op v, r2)));
         bare = (case left of AFunc f \<Rightarrow> Inr (BareFunc f, r)
                 | APath parts \<Rightarrow> Inl (expected_not (''operator or IN after path '' @ path_str parts) r)
                 | _ \<Rightarrow> Inl AssertionError)
     in case peek r of
          KW w \<Rightarrow>
            if w = ''IN'' then compare ''IN'' (tl r)
            else if w = ''NOT'' then ebind (eat (KW ''IN'') (tl r)) (\<lambda>(_, r1). compare ''NOT_IN'' r1)
            else if w = ''MATCHES'' then compare ''MATCHES'' (tl r)
            else if w = ''CONTAINS'' then compare ''CONTAINS'' (tl r)
            else bare
        | OP p \<Rightarrow> compare p (tl r)
        | _ \<Rightarrow> bare)"
  proof -
    have bare: "leaves (length toks) (case left of AFunc f \<Rightarrow> Inr (BareFunc f, r)
        | APath parts \<Rightarrow> Inl (expected_not (''operator or IN after path '' @ path_str parts) r)
        | _ \<Rightarrow> Inl AssertionError)"
      using r by (cases left) simp_all
    have not_in: "leaves (length toks) (ebind (eat (KW ''IN'') (tl r)) (\<lambda>(_, r1).
        ebind (parse_value n r1) (\<lambda>(v, r2). Inr (Compare left ''NOT_IN'' v, r2))))"
      by (rule leaves_bind [OF leaves_eat]) (auto intro!: compare)
    show ?thesis
      using bare not_in compare [of "tl r"] by (cases "peek r") (simp_all add: Let_def)
  qed
qed

lemma leaves_exprs:
  "8 * length toks + 5 \<le> n \<Longrightarrow> leaves (length toks) (parse_or E n toks)"
  "8 * length toks + 1 \<le> n \<Longrightarrow> leaves (Suc (length toks)) (more_or E n l toks)"
  "8 * length toks + 4 \<le> n \<Longrightarrow> leaves (length toks) (parse_and E n toks)"
  "8 * length toks + 1 \<le> n \<Longrightarrow> leaves (Suc (length toks)) (more_and E n l toks)"
  "8 * length toks + 3 \<le> n \<Longrightarrow> leaves (length toks) (parse_not E n toks)"
  "8 * length toks + 2 \<le> n \<Longrightarrow> leaves (length toks) (parse_atom E n toks)"
proof (induction n arbitrary: toks l)
  case (Suc n)
  case 1
  then show ?case by (auto intro!: leaves_bind [OF Suc(3)] leaves_mono [OF Suc(2)])
next
  case (Suc n)
  case 2
  then show ?case by (cases toks) (auto intro!: leaves_bind [OF Suc(3)] leaves_mono [OF Suc(2)])
next
  case (Suc n)
  case 3
  then show ?case by (auto intro!: leaves_bind [OF Suc(5)] leaves_mono [OF Suc(4)])
next
  case (Suc n)
  case 4
  then show ?case by (cases toks) (auto intro!: leaves_bind [OF Suc(5)] leaves_mono [OF Suc(4)])
next
  case (Suc n)
  case 5
  then show ?case by (cases toks) (auto intro!: leaves_bind [OF Suc(5)] leaves_mono [OF Suc(6)])
next
  case (Suc n)
  case 6
  then show ?case
    by (cases toks) (auto intro!: leaves_bind [OF Suc(1)] leaves_bind [OF leaves_eat]
        leaves_mono [OF leaves_exists_path] leaves_mono [OF leaves_bare_or_compare])
qed simp_all

text \<open>The rule level.\<close>

lemma accept_key_tokens: "accept_key k toks = Some r \<Longrightarrow> length r < length toks"
  by (cases toks) (auto simp: accept_key_def split: if_splits tok.splits)

lemma leaves_optional:
  assumes "\<And>r. length r < length toks \<Longrightarrow> leaves (length r) (p r)"
  shows "leaves (Suc (length toks)) (optional_key k d p toks)"
proof (cases "accept_key k toks")
  case (Some r)
  then have "length r < length toks" by (rule accept_key_tokens)
  with leaves_mono [OF assms [of r], of "Suc (length toks)"] Some show ?thesis
    by (simp add: optional_key_def)
qed (simp add: optional_key_def)

lemma leaves_require: "leaves (length toks) (require_key k toks)"
  using accept_key_tokens [of k toks] by (auto simp: require_key_def split: option.splits)

lemma leaves_tool_parts:
  "length toks < n \<Longrightarrow> leaves (Suc (length toks)) (tool_pattern_parts n parts toks)"
proof (induction n arbitrary: parts toks)
  case (Suc n)
  have "leaves (Suc (length toks)) (tool_pattern_parts n ps r)" if "length r < length toks" for ps r
    using that Suc.prems by (intro leaves_mono [OF Suc.IH]) auto
  then show ?case by (cases toks) (auto intro!: leaves_bind [OF leaves_eat_ident])
qed simp

lemma leaves_plain_parts:
  "length toks < n \<Longrightarrow> leaves (Suc (length toks)) (plain_parts n parts toks)"
proof (induction n arbitrary: parts toks)
  case (Suc n)
  have "leaves (Suc (length toks)) (plain_parts n ps r)" if "length r < length toks" for ps r
    using that Suc.prems by (intro leaves_mono [OF Suc.IH]) auto
  then show ?case by (cases toks) (auto intro!: leaves_bind [OF leaves_eat_ident])
qed simp

lemma leaves_tool_pattern: "length toks \<le> n \<Longrightarrow> leaves (length toks) (parse_tool_pattern n toks)"
  unfolding parse_tool_pattern_def
  by (auto intro!: leaves_bind [OF leaves_eat_ident] leaves_bind [OF leaves_tool_parts])

lemma leaves_event_match: "length toks \<le> n \<Longrightarrow> leaves (length toks) (parse_event_match n toks)"
  unfolding parse_event_match_def
proof (rule leaves_bind [OF leaves_eat_ident], unfold split)
  fix w and r :: "token list"
  assume n: "length toks \<le> n" and r: "length r < length toks"
  have pat: "leaves (length toks) (ebind (parse_tool_pattern n q) (\<lambda>(pat, r2).
      ebind (eat (PUNC '')'') r2) (\<lambda>(_, r3). Inr ((pat, sub), r3))))" if "length q < length toks" for q sub
    using that n by (auto intro!: leaves_bind [OF leaves_tool_pattern] leaves_bind [OF leaves_eat])
  have sub: "leaves (length toks) (ebind (eat_ident (tl r)) (\<lambda>(sub, r1).
      if peek r1 = PUNC ''('' then ebind (parse_tool_pattern n (tl r1)) (\<lambda>(pat, r2).
        ebind (eat (PUNC '')'') r2) (\<lambda>(_, r3). Inr ((pat, sub), r3)))
      else Inr ((''*'', sub), r1)))"
    by (rule leaves_bind [OF leaves_eat_ident]) (use r in \<open>auto intro!: pat\<close>)
  have call: "leaves (length toks) (ebind (eat (PUNC ''('') r) (\<lambda>(_, r1).
      ebind (parse_tool_pattern n r1) (\<lambda>(pat, r2).
      ebind (eat (PUNC '')'') r2) (\<lambda>(_, r3). Inr ((pat, [] :: string), r3)))))"
    by (rule leaves_bind [OF leaves_eat]) (use r in \<open>auto intro!: pat\<close>)
  show "leaves (length toks) (if w \<noteq> ''tool_call''
     then Inl (RuleCompileError (''expected '' @ squote # ''tool_call'' @ squote # '' at pos '' @ at_pos toks @
       '', got '' @ repr_str w))
     else if peek r = PUNC ''.'' then
       ebind (eat_ident (tl r)) (\<lambda>(sub, r1).
       if peek r1 = PUNC ''('' then
         ebind (parse_tool_pattern n (tl r1)) (\<lambda>(pat, r2).
         ebind (eat (PUNC '')'') r2) (\<lambda>(_, r3). Inr ((pat, sub), r3)))
       else Inr ((''*'', sub), r1))
     else
       ebind (eat (PUNC ''('') r) (\<lambda>(_, r1).
       ebind (parse_tool_pattern n r1) (\<lambda>(pat, r2).
       ebind (eat (PUNC '')'') r2) (\<lambda>(_, r3). Inr ((pat, []), r3)))))"
    using sub call by simp
qed

lemma consume_gap_tokens: "length (snd (consume_gap toks)) \<le> length toks"
  by (simp add: consume_gap_def)

lemma leaves_trace_steps:
  "length toks < n \<Longrightarrow> leaves (Suc (length toks)) (trace_steps n sep steps toks)"
proof (induction n arbitrary: sep steps toks)
  case (Suc n)
  have step: "leaves (Suc (length toks)) (trace_steps n sep' steps' r)" if "length r < length toks" for sep' steps' r
    using that Suc.prems by (intro leaves_mono [OF Suc.IH]) auto
  show ?case
    unfolding trace_steps.simps Let_def
  proof (cases "key_of (peek toks) = None", simp, simp, rule leaves_bind [OF leaves_eat_ident], unfold split)
    fix name and r :: "token list" assume r: "length r < length toks"
    obtain gap r1 where gap: "consume_gap (tl r) = (gap, r1)" by fastforce
    then have "length r1 < length toks" using consume_gap_tokens [of "tl r"] r by simp
    then show "leaves (Suc (length toks))
        (if peek r \<noteq> PUNC ''->'' then Inr (steps @ [(name, sep)], r)
         else case consume_gap (tl r) of (gap, r1) \<Rightarrow>
           if gap = [] then trace_steps n ''->'' (steps @ [(name, sep)]) r1
           else if peek r1 = PUNC ''->'' then trace_steps n (''-> '' @ gap) (steps @ [(name, sep)]) (tl r1)
           else Inl (RuleCompileError (''expected '' @ squote # ''->'' @ squote # '' after '' @
             squote # gap @ squote # '' in TRACE clause'')))"
      using r gap by (auto intro!: step)
  qed
qed simp

lemma leaves_trace_clause: "length toks < n \<Longrightarrow> leaves (Suc (length toks)) (parse_trace_clause n toks)"
  unfolding parse_trace_clause_def
  by (auto intro!: leaves_bind [OF leaves_trace_steps])

lemma leaves_meta: "8 * length toks + 3 \<le> n \<Longrightarrow> leaves (Suc (length toks)) (parse_meta n meta toks)"
proof (induction n arbitrary: meta toks)
  case (Suc n)
  have "leaves (Suc (length toks)) (ebind (parse_value n (tl (tl toks))) (\<lambda>(v, r).
      parse_meta n (dict_set k (meta_value v) meta) (if peek r = PUNC '','' then tl r else r)))" for k
  proof (rule leaves_bind [OF leaves_values(1)], unfold split)
    show "8 * length (tl (tl toks)) + 2 \<le> n" using Suc.prems by simp
    show "leaves (Suc (length toks)) (parse_meta n (dict_set k (meta_value v) meta)
        (if peek r = PUNC '','' then tl r else r))" if "length r < length (tl (tl toks))" for v r
      using that Suc.prems by (intro leaves_mono [OF Suc.IH]) auto
  qed
  then show ?case by (simp split: option.splits)
qed simp

lemma leaves_kv: "8 * length toks \<le> n \<Longrightarrow> leaves (length toks) (parse_kv n kw toks)"
  unfolding parse_kv_def
  by (auto intro!: leaves_bind [OF leaves_eat_ident] leaves_bind [OF leaves_eat] leaves_bind [OF leaves_values(1)])

lemma leaves_more_kvs: "8 * length toks + 1 \<le> n \<Longrightarrow> leaves (Suc (length toks)) (more_kvs n kw toks)"
proof (induction n arbitrary: kw toks)
  case (Suc n)
  then show ?case
    by (cases toks) (auto intro!: leaves_bind [OF leaves_kv] leaves_mono [OF Suc.IH])
qed simp

lemma leaves_one_obligation: "8 * length toks \<le> n \<Longrightarrow> leaves (length toks) (parse_one_obligation n toks)"
  unfolding parse_one_obligation_def
  by (auto intro!: leaves_bind [OF leaves_eat_ident] leaves_bind [OF leaves_eat] leaves_bind [OF leaves_kv]
      leaves_bind [OF leaves_more_kvs])

lemma leaves_more_obligations:
  "8 * length toks + 1 \<le> n \<Longrightarrow> leaves (Suc (length toks)) (more_obligations n obs toks)"
proof (induction n arbitrary: obs toks)
  case (Suc n)
  then show ?case
    by (cases toks) (auto intro!: leaves_bind [OF leaves_one_obligation] leaves_mono [OF Suc.IH])
qed simp

lemma leaves_obligations: "8 * length toks \<le> n \<Longrightarrow> leaves (length toks) (parse_obligations n toks)"
  unfolding parse_obligations_def
  by (auto intro!: leaves_bind [OF leaves_one_obligation] leaves_mono [OF leaves_more_obligations])

lemma leaves_with_obligations:
  assumes "8 * length toks + 1 \<le> n"
  shows "leaves (Suc (length toks)) (with_obligations n act toks)"
  using assms unfolding with_obligations_def
  by (auto intro!: leaves_bind [OF leaves_obligations])

lemma leaves_profile: "length toks \<le> n \<Longrightarrow> leaves (length toks) (parse_profile n toks)"
  unfolding parse_profile_def
  by (auto intro!: leaves_mono [OF leaves_eat_string] leaves_bind [OF leaves_eat] leaves_bind [OF leaves_eat_ident]
      leaves_bind [OF leaves_plain_parts])

lemma ebind_ebind: "ebind (ebind m f) g = ebind m (\<lambda>x. ebind (f x) g)"
  by (cases m) simp_all

lemma leaves_action:
  assumes "8 * length toks \<le> n"
  shows "leaves (length toks) (parse_action n toks)"
proof (cases "action_keyword (peek toks)")
  case None
  then show ?thesis by (simp add: parse_action_def)
next
  case (Some w)
  then obtain t ts where toks: "toks = t # ts" by (cases toks) (simp_all add: action_keyword_def)
  have rest: "leaves (length toks) (with_obligations n act r)" if "length r < length toks" for act r
    using that assms by (intro leaves_mono [OF leaves_with_obligations]) auto
  have "leaves (length toks) (ebind (parse_profile n ts) (\<lambda>(profile, r).
      with_obligations n \<lparr>aa_kind = w, aa_profile = Some profile, aa_obligations = []\<rparr> r))"
    using assms by (intro leaves_bind [OF leaves_profile]) (auto simp: toks intro!: rest [unfolded toks, simplified])
  with rest [of ts] show ?thesis
    using Some by (cases "w = ''DEGRADE''") (simp_all add: parse_action_def toks ebind_ebind case_prod_unfold)
qed

lemma leaves_rule:
  assumes n: "8 * length toks \<le> n"
  shows "leaves (length toks) (parse_rule E n toks)"
proof -
  have on: "leaves (Suc (length r)) (optional_key ''ON'' (''*'', []) (parse_event_match n) r)"
    if "length r < length toks" for r
    using that n by (intro leaves_optional leaves_event_match) simp
  have trace: "leaves (Suc (length r)) (optional_key ''TRACE'' None
      (\<lambda>r. ebind (parse_trace_clause n r) (\<lambda>(c, q). Inr (Some c, q))) r)" if "length r < length toks" for r
    using that n by (auto simp: optional_key_def split: option.splits dest!: accept_key_tokens
        intro!: leaves_bind [OF leaves_trace_clause])
  have cond: "leaves (Suc (length r)) (optional_key ''CONDITION'' TrueExpr (parse_or E n) r)"
    if "length r < length toks" for r
    using that n by (intro leaves_optional leaves_exprs) simp
  have act: "leaves (length r) (parse_action n r)" if "length r < length toks" for r
    using that n by (intro leaves_action) simp
  have meta: "leaves (Suc (length r)) (parse_meta n [] r)" if "length r < length toks" for r
    using that n by (intro leaves_meta) simp
  show ?thesis
    unfolding parse_rule_def
    apply (rule leaves_bind [OF leaves_eat], simp, unfold split_beta prod.sel)
    apply (rule leaves_bind [OF leaves_eat], simp, unfold split_beta prod.sel)
    apply (rule leaves_bind [OF leaves_eat_ident], unfold split_beta prod.sel)
    apply (rule leaves_bind [OF on], simp, unfold split_beta prod.sel)
    apply (rule leaves_bind [OF trace [unfolded split_beta]], simp, unfold split_beta prod.sel)
    apply (rule leaves_bind [OF cond], simp, unfold split_beta prod.sel)
    apply (rule leaves_bind [OF leaves_require], unfold split_beta prod.sel)
    apply (rule leaves_bind [OF act], simp, unfold split_beta prod.sel)
    apply (rule leaves_bind [OF meta], simp, unfold split_beta prod.sel)
    apply simp
    done
qed

lemma rules_from_ends:
  assumes "8 * length toks \<le> n" and "length toks < k"
  shows "parse_rules_from E n k toks \<noteq> Inl RecursionError"
  using assms
proof (induction k arbitrary: toks)
  case (Suc k)
  show ?case
  proof (cases "parse_rule E n toks")
    case (Inl e)
    with leaves_rule [OF Suc.prems(1), of E] show ?thesis by simp
  next
    case (Inr w)
    obtain rule r where w: "w = (rule, r)" by (cases w)
    then have "length r < length toks" using leaves_rule [OF Suc.prems(1), of E] Inr by simp
    then have "parse_rules_from E n k r \<noteq> Inl RecursionError" using Suc by simp
    with Inr w show ?thesis by (auto simp: ebind_Inl_iff)
  qed
qed simp

lemma parse_tokens_ends: "parse_tokens E toks \<noteq> Inl RecursionError"
  unfolding parse_tokens_def by (rule rules_from_ends) (simp_all add: parse_fuel_def)

lemma number_value_errors: "number_value raw = Inl e \<Longrightarrow> e = ValueError"
  by (auto simp: number_value_def unsigned_number_def Let_def ebind_Inl_iff split: list.splits if_splits)

lemma lex_token_errors: "lex_token pos c s = Inl e \<Longrightarrow> e = ValueError \<or> (\<exists>m. e = RuleCompileError m)"
  unfolding lex_token_def unexpected_def Let_def
  by (auto simp only: ebind_Inl_iff sum.inject sum.distinct dest!: number_value_errors
      split: if_split_asm option.split_asm prod.split_asm)

lemma tokenize_errors: "tokenize_from pos s = Inl e \<Longrightarrow> e = ValueError \<or> (\<exists>m. e = RuleCompileError m)"
proof (induction pos s rule: tokenize_from.induct)
  case (2 pos c s)
  then show ?case by (auto simp: ebind_Inl_iff dest: lex_token_errors)
qed simp

lemma parse_rule_source_ends: "parse_rule_source E src \<noteq> Inl RecursionError"
  using tokenize_errors [of 0 src] parse_tokens_ends [of E]
  by (auto simp: parse_rule_source_def tokenize_def ebind_Inl_iff)

end
