(* ===== verification/Dsl_Printer.thy ===== *)
theory Dsl_Printer
  imports Parser_Bounds
begin

text \<open>
  A printer for rules, as the specification of the parser: every well-formed rule is read back
  from its tokens, and from its text.
\<close>

subsection \<open>Printing\<close>

fun split_dots :: "string \<Rightarrow> string list" where
  "split_dots [] = [[]]"
| "split_dots (c # s) =
     (if c = CHR ''.'' then [] # split_dots s
      else (case split_dots s of [] \<Rightarrow> [[c]] | w # ws \<Rightarrow> (c # w) # ws))"

definition name_parts :: "string \<Rightarrow> string list" where
  "name_parts s = (if s = [] then [] else split_dots s)"

fun commas :: "tok list list \<Rightarrow> tok list" where
  "commas [] = []"
| "commas [x] = x"
| "commas (x # y # ys) = x @ PUNC '','' # commas (y # ys)"

definition dotted_tail :: "string list \<Rightarrow> tok list" where
  "dotted_tail ws = concat (map (\<lambda>w. [PUNC ''.'', IDENT w]) ws)"

fun dotted :: "string list \<Rightarrow> tok list" where
  "dotted [] = []"
| "dotted (w # ws) = IDENT w # dotted_tail ws"

definition print_set :: "string list \<Rightarrow> tok list" where
  "print_set items = PUNC ''{'' # commas (map (\<lambda>s. [STRING s]) items) @ [PUNC ''}'']"

fun print_value :: "dsl_value \<Rightarrow> tok list"
and print_func :: "dsl_func \<Rightarrow> tok list" where
  "print_value (AStr s) = [STRING s]"
| "print_value (AInt i) = [INT_LIT i]"
| "print_value (AFloat r) = [FLOAT_LIT r]"
| "print_value (ABool b) = [KW (if b then ''true'' else ''false'')]"
| "print_value (ASet items) = print_set items"
| "print_value (APath parts) = dotted parts"
| "print_value (AFunc f) = print_func f"
| "print_func (FuncCall name args kwargs ns) =
     dotted (name_parts ns @ [name]) @ PUNC ''('' #
     commas (map print_value args @ map (\<lambda>p. IDENT (fst p) # PUNC ''='' # print_value (snd p)) kwargs) @
     [PUNC '')'']"

definition op_tokens :: "string \<Rightarrow> tok list" where
  "op_tokens op =
     (if op = ''NOT_IN'' then [KW ''NOT'', KW ''IN'']
      else if op \<in> {''IN'', ''MATCHES'', ''CONTAINS''} then [KW op] else [OP op])"

fun print_expr :: "dsl_expr \<Rightarrow> tok list" where
  "print_expr TrueExpr = []"
| "print_expr (BoolOp op l r) = PUNC ''('' # print_expr l @ KW op # print_expr r @ [PUNC '')'']"
| "print_expr (NotOp e) = KW ''NOT'' # print_expr e"
| "print_expr (Compare left op v) = print_value left @ op_tokens op @ print_value v"
| "print_expr (BareFunc f) = print_func f"
| "print_expr (ExistsPath labels hops sink src) =
     [KW ''EXISTS_PATH'', PUNC ''('', IDENT ''source_label'', KW ''IN''] @ print_set labels @
     [PUNC '','', IDENT ''max_hops'', PUNC ''='', INT_LIT hops,
      PUNC '','', IDENT ''sink'', PUNC ''='', STRING sink,
      PUNC '','', IDENT ''over'', PUNC ''='', STRING src, PUNC '')'']"

subsection \<open>Well-formed trees\<close>

fun wf_value :: "dsl_value \<Rightarrow> bool"
and wf_func :: "dsl_func \<Rightarrow> bool" where
  "wf_value (APath parts) = (parts \<noteq> [])"
| "wf_value (AFunc f) = wf_func f"
| "wf_value _ = True"
| "wf_func (FuncCall name args kwargs ns) =
     (list_all wf_value args \<and> list_all (\<lambda>p. wf_value (snd p)) kwargs \<and> distinct (map fst kwargs))"

text \<open>What may stand on the left of a comparison; a call of \<open>exists_path\<close> is a graph query.\<close>

definition wf_head :: "dsl_func \<Rightarrow> bool" where
  "wf_head f \<longleftrightarrow> wf_func f \<and> \<not> (fc_name f = ''exists_path'' \<and> fc_namespace f = [])"

definition wf_left :: "dsl_value \<Rightarrow> bool" where
  "wf_left v = (case v of APath parts \<Rightarrow> parts \<noteq> [] | AFunc f \<Rightarrow> wf_head f | _ \<Rightarrow> False)"

fun wf_expr :: "dsl_expr \<Rightarrow> bool" where
  "wf_expr TrueExpr = False"
| "wf_expr (BoolOp op l r) = ((op = ''AND'' \<or> op = ''OR'') \<and> wf_expr l \<and> wf_expr r)"
| "wf_expr (NotOp e) = wf_expr e"
| "wf_expr (Compare left op v) = (wf_left left \<and> wf_value v)"
| "wf_expr (BareFunc f) = wf_head f"
| "wf_expr (ExistsPath labels hops sink src) = True"

subsection \<open>Reading values back\<close>

text \<open>\<open>reads p toks x ks\<close>: \<open>p\<close> reads \<open>x\<close> off \<open>toks\<close> and leaves tokens of the kinds \<open>ks\<close>.\<close>

definition reads :: "'a parser \<Rightarrow> token list \<Rightarrow> 'a \<Rightarrow> tok list \<Rightarrow> bool" where
  "reads p toks x ks \<longleftrightarrow> (\<exists>r. p toks = Inr (x, r) \<and> map fst r = ks)"

lemma reads_bind:
  assumes "reads p toks x ks" and "\<And>r. map fst r = ks \<Longrightarrow> reads (\<lambda>r. f (x, r)) r y ls"
  shows "reads (\<lambda>toks. ebind (p toks) f) toks y ls"
  using assms by (auto simp: reads_def)

definition head :: "tok list \<Rightarrow> tok" where
  "head ks = (case ks of [] \<Rightarrow> EOF | k # _ \<Rightarrow> k)"

lemma head_simps [simp]: "head (k # ks) = k" "head [] = EOF"
  by (simp_all add: head_def)

lemma peek_kinds: "map fst toks = ks \<Longrightarrow> peek toks = head ks"
  by (cases toks) auto

lemma peek_at_kinds: "map fst toks = ks \<Longrightarrow> peek_at n toks = head (drop n ks)"
  unfolding peek_at_def by (rule peek_kinds) (auto simp: drop_map)

lemma tl_kinds: "map fst toks = ks \<Longrightarrow> map fst (tl toks) = tl ks"
  by (auto simp: map_tl)

lemmas kinds = peek_kinds peek_at_kinds tl_kinds

lemma kinds_Cons: "map fst toks = k # ks \<longleftrightarrow> (\<exists>a toks'. toks = (k, a) # toks' \<and> map fst toks' = ks)"
  by (cases toks) auto

lemma split_dots_not_Nil [simp]: "split_dots s \<noteq> []"
  by (induction s) (auto split: list.splits)

lemma join_split_dots: "str_join ''.'' (split_dots s) = s"
proof (induction s)
  case (Cons c s)
  obtain w ws where "split_dots s = w # ws" by (meson list.exhaust split_dots_not_Nil)
  with Cons show ?case by (cases ws) auto
qed simp

lemma join_name_parts: "str_join ''.'' (name_parts s) = s"
  by (simp add: name_parts_def join_split_dots)

lemma read_more_parts:
  assumes "map fst toks = dotted_tail ws @ ks" and "head ks \<noteq> PUNC ''.''" and "length ws < n"
  shows "reads (more_parts n parts) toks (parts @ ws) ks"
  using assms
proof (induction ws arbitrary: n parts toks)
  case Nil
  then show ?case by (cases n) (auto simp: reads_def dotted_tail_def kinds)
next
  case (Cons w ws)
  obtain m where n: "n = Suc m" using Cons.prems by (cases n) auto
  obtain a b toks' where toks: "toks = (PUNC ''.'', a) # (IDENT w, b) # toks'"
      "map fst toks' = dotted_tail ws @ ks"
    using Cons.prems(1) by (auto simp: dotted_tail_def kinds_Cons)
  then have "reads (more_parts m (parts @ [w])) toks' ((parts @ [w]) @ ws) ks"
    using Cons.prems n by (intro Cons.IH) auto
  then show ?case by (auto simp: reads_def n toks eat_ident_def)
qed

lemma read_more_items:
  assumes "map fst toks = concat (map (\<lambda>s. [PUNC '','', STRING s]) items) @ ks"
    and "head ks \<noteq> PUNC '',''" and "length items < n"
  shows "reads (more_items n acc) toks (acc @ items) ks"
  using assms
proof (induction items arbitrary: n acc toks)
  case Nil
  then show ?case by (cases n) (auto simp: reads_def kinds)
next
  case (Cons s items)
  obtain m where n: "n = Suc m" using Cons.prems by (cases n) auto
  obtain a b toks' where toks: "toks = (PUNC '','', a) # (STRING s, b) # toks'"
      "map fst toks' = concat (map (\<lambda>s. [PUNC '','', STRING s]) items) @ ks"
    using Cons.prems(1) by (auto simp: kinds_Cons)
  then have "reads (more_items m (acc @ [s])) toks' ((acc @ [s]) @ items) ks"
    using Cons.prems n by (intro Cons.IH) auto
  then show ?case by (auto simp: reads_def n toks str_item_def)
qed

lemma commas_Cons: "commas (x # xs) = x @ concat (map (\<lambda>y. PUNC '','' # y) xs)"
  by (induction xs arbitrary: x) auto

lemma read_set:
  assumes "map fst toks = print_set items @ ks" and "length items \<le> n"
  shows "reads (parse_set_lit n) toks items ks"
proof (cases items)
  case Nil
  with assms show ?thesis
    by (auto simp: reads_def parse_set_lit_def print_set_def eat_def kinds_Cons)
next
  case (Cons s rest)
  obtain a b toks' where toks: "toks = (PUNC ''{'', a) # (STRING s, b) # toks'"
      "map fst toks' = concat (map (\<lambda>s. [PUNC '','', STRING s]) rest) @ PUNC ''}'' # ks"
    using assms(1) Cons by (auto simp: print_set_def commas_Cons kinds_Cons comp_def)
  have "reads (more_items n [s]) toks' ([s] @ rest) (PUNC ''}'' # ks)"
    using toks(2) assms(2) Cons by (intro read_more_items) auto
  then show ?thesis
    by (auto simp: reads_def parse_set_lit_def toks eat_def str_item_def Cons kinds_Cons)
qed

lemma length_kinds: "map fst toks = ks \<Longrightarrow> length toks = length ks"
  by auto

definition value_end :: "tok list \<Rightarrow> bool" where
  "value_end ks \<longleftrightarrow> head ks \<notin> {PUNC ''.'', PUNC ''(''}"

definition readable :: "dsl_value \<Rightarrow> bool" where
  "readable v \<longleftrightarrow> (\<forall>toks ks n. map fst toks = print_value v @ ks \<longrightarrow> value_end ks \<longrightarrow>
     8 * length toks + 2 \<le> n \<longrightarrow> reads (parse_value n) toks v ks)"

lemma readableD:
  "readable v \<Longrightarrow> map fst toks = print_value v @ ks \<Longrightarrow> value_end ks \<Longrightarrow> 8 * length toks + 2 \<le> n \<Longrightarrow>
     reads (parse_value n) toks v ks"
  by (simp add: readable_def)

lemma dotted_snoc: "\<exists>w rest. dotted (ws @ [v]) = IDENT w # rest"
  by (cases ws) auto

lemma print_value_not_Nil: "wf_value v \<Longrightarrow> print_value v \<noteq> []"
proof (cases v)
  case (APath parts)
  then show "wf_value v \<Longrightarrow> ?thesis" by (cases parts) auto
next
  case (AFunc f)
  then show ?thesis by (cases f) simp
qed (simp_all add: print_set_def)

text \<open>A positional argument is not taken for a keyword argument.\<close>

lemma positional:
  assumes "map fst toks = print_value v @ ks" and "wf_value v" and "head ks \<noteq> PUNC ''=''"
  shows "kwarg_key toks = None"
proof -
  have ident: "head (drop 1 (print_value v @ ks)) \<noteq> PUNC ''=''" if "head (print_value v @ ks) = IDENT w" for w
  proof (cases v)
    case (APath parts)
    then obtain p ps where "parts = p # ps" using assms(2) by (cases parts) auto
    then show ?thesis using APath assms(3) by (cases ps) (auto simp: dotted_tail_def)
  next
    case (AFunc f)
    obtain name args kwargs ns where f: "f = FuncCall name args kwargs ns" by (cases f)
    show ?thesis
    proof (cases "name_parts ns")
      case (Cons p ps)
      then show ?thesis by (cases ps) (auto simp: AFunc f dotted_tail_def)
    qed (simp add: AFunc f dotted_tail_def)
  qed (use that in \<open>auto simp: print_set_def\<close>)
  then show ?thesis
    using assms(1) by (auto simp: kwarg_key_def kinds split: tok.splits)
qed

definition print_kwarg :: "string \<times> dsl_value \<Rightarrow> tok list" where
  "print_kwarg p = IDENT (fst p) # PUNC ''='' # print_value (snd p)"

lemma read_kwargs:
  assumes "map fst toks = commas (map print_kwarg kws) @ PUNC '')'' # ks" and "kws \<noteq> []"
    and "\<forall>p \<in> set kws. readable (snd p) \<and> wf_value (snd p)" and "distinct (map fst (acc @ kws))"
    and "8 * length toks + 3 \<le> n"
  shows "reads (call_args n args acc) toks (args, acc @ kws) (PUNC '')'' # ks)"
  using assms
proof (induction kws arbitrary: n acc toks)
  case (Cons p kws)
  obtain k v where p: "p = (k, v)" by (cases p)
  obtain m where n: "n = Suc m" using Cons.prems(5) by (cases n) auto
  define rest where "rest = concat (map (\<lambda>y. PUNC '','' # y) (map print_kwarg kws)) @ PUNC '')'' # ks"
  obtain a b toks' where toks: "toks = (IDENT k, a) # (PUNC ''='', b) # toks'"
      "map fst toks' = print_value v @ rest"
    using Cons.prems(1) print_kwarg_def [of "(k, v)"] by (auto simp: commas_Cons rest_def p kinds_Cons)
  have key: "kwarg_key toks = Some k" by (simp add: toks kwarg_key_def peek_at_def)
  have "value_end rest" by (cases kws) (simp_all add: rest_def value_end_def)
  then obtain r where r: "parse_value m toks' = Inr (v, r)" "map fst r = rest"
    using readableD [of v toks' rest m] toks Cons.prems(3,5) n p by (auto simp: reads_def)
  have set: "dict_set k v acc = acc @ [p]" using Cons.prems(4) p by (intro update_new [of k acc v, folded p]) auto
  show ?case
  proof (cases kws)
    case Nil
    then show ?thesis
      using r key set by (auto simp: reads_def n toks rest_def kinds p)
  next
    case (Cons q kws')
    then obtain c r' where r': "r = (PUNC '','', c) # r'" "map fst r' = commas (map print_kwarg kws) @ PUNC '')'' # ks"
      using r(2) by (auto simp: rest_def commas_Cons kinds_Cons)
    have "length toks' = length (print_value v) + Suc (length r')"
      using toks(2) r(2) r'(1) length_kinds [OF toks(2)] by (auto dest: length_kinds)
    then have "8 * length r' + 3 \<le> m" using Cons.prems(5) n toks(1) by simp
    then have "reads (call_args m args (acc @ [p])) r' (args, (acc @ [p]) @ kws) (PUNC '')'' # ks)"
      using Cons.prems Cons r' by (intro Cons.IH) auto
    then show ?thesis using r(1) key set r'(1) by (auto simp: reads_def n toks)
  qed
qed simp

lemma read_args:
  assumes "map fst toks = commas (map print_value vs @ map print_kwarg kws) @ PUNC '')'' # ks"
    and "vs \<noteq> [] \<or> kws \<noteq> []"
    and "\<forall>v \<in> set vs. readable v \<and> wf_value v" and "\<forall>p \<in> set kws. readable (snd p) \<and> wf_value (snd p)"
    and "distinct (map fst kws)" and "8 * length toks + 3 \<le> n"
  shows "reads (call_args n acc []) toks (acc @ vs, kws) (PUNC '')'' # ks)"
  using assms
proof (induction vs arbitrary: n acc toks)
  case Nil
  then show ?case using read_kwargs [of toks kws ks "[]" n acc] by simp
next
  case (Cons v vs)
  obtain m where n: "n = Suc m" using Cons.prems(6) by (cases n) auto
  define rest where
    "rest = concat (map (\<lambda>y. PUNC '','' # y) (map print_value vs @ map print_kwarg kws)) @ PUNC '')'' # ks"
  have toks: "map fst toks = print_value v @ rest"
    using Cons.prems(1) by (simp add: commas_Cons rest_def)
  have rest: "value_end rest" "head rest \<noteq> PUNC ''=''"
    by (cases vs; cases kws; simp add: rest_def value_end_def)+
  have key: "kwarg_key toks = None" using toks Cons.prems(3) rest(2) by (intro positional) auto
  obtain r where r: "parse_value m toks = Inr (v, r)" "map fst r = rest"
    using readableD [of v toks rest m] toks rest(1) Cons.prems(3,6) n by (auto simp: reads_def)
  show ?case
  proof (cases "vs = [] \<and> kws = []")
    case True
    then show ?thesis using r key by (auto simp: reads_def n rest_def kinds)
  next
    case False
    then obtain c r' where r': "r = (PUNC '','', c) # r'"
        "map fst r' = commas (map print_value vs @ map print_kwarg kws) @ PUNC '')'' # ks"
      using r(2) by (cases vs; cases kws) (auto simp: rest_def commas_Cons kinds_Cons)
    have "length toks = length (print_value v) + Suc (length r')"
      using length_kinds [OF toks] length_kinds [OF r(2)] r'(1) by simp
    then have "8 * length r' + 3 \<le> m"
      using Cons.prems(3,6) n print_value_not_Nil [of v] by (cases "print_value v") auto
    then have "reads (call_args m (acc @ [v]) []) r' ((acc @ [v]) @ vs, kws) (PUNC '')'' # ks)"
      using Cons.prems False r' by (intro Cons.IH) auto
    then show ?thesis using r(1) key r'(1) by (auto simp: reads_def n)
  qed
qed

text \<open>Paths and calls.\<close>

lemma dotted_tail_length: "length (dotted_tail ws) = 2 * length ws"
  by (induction ws) (simp_all add: dotted_tail_def)

lemma read_parts:
  assumes "map fst toks = dotted (w # ws) @ ks" and "head ks \<noteq> PUNC ''.''" and "length toks \<le> n"
  obtains r r1 where "eat_ident toks = Inr (w, r)" "more_parts n [w] r = Inr (w # ws, r1)" "map fst r1 = ks"
proof -
  obtain a r where toks: "toks = (IDENT w, a) # r" "map fst r = dotted_tail ws @ ks"
    using assms(1) by (auto simp: kinds_Cons)
  then have "length ws < n"
    using assms(3) length_kinds [OF toks(2)] by (simp add: dotted_tail_length)
  then have "reads (more_parts n [w]) r ([w] @ ws) ks"
    using toks(2) assms(2) by (intro read_more_parts)
  then show thesis using toks(1) that by (auto simp: reads_def eat_ident_def)
qed

lemma read_path:
  assumes "map fst toks = dotted (w # ws) @ ks" and "value_end ks" and "length toks < n"
  shows "reads (parse_path_or_func n) toks (APath (w # ws)) ks"
proof -
  obtain m where n: "n = Suc m" using assms(3) by (cases n) auto
  obtain r r1 where r: "eat_ident toks = Inr (w, r)" "more_parts m [w] r = Inr (w # ws, r1)" "map fst r1 = ks"
    using read_parts [OF assms(1), of m] assms(2,3) n by (auto simp: value_end_def)
  then show ?thesis using assms(2) by (auto simp: reads_def n kinds value_end_def)
qed

definition readable_func :: "dsl_func \<Rightarrow> bool" where
  "readable_func f \<longleftrightarrow> (\<forall>toks ks n. map fst toks = print_func f @ ks \<longrightarrow>
     8 * length toks + 1 \<le> n \<longrightarrow> reads (parse_path_or_func n) toks (AFunc f) ks)"

lemma readable_funcD:
  "readable_func f \<Longrightarrow> map fst toks = print_func f @ ks \<Longrightarrow> 8 * length toks + 1 \<le> n \<Longrightarrow>
     reads (parse_path_or_func n) toks (AFunc f) ks"
  by (simp add: readable_func_def)

lemma readable_funcI:
  assumes f: "f = FuncCall name args kwargs ns" and "wf_func f"
    and args: "\<forall>v \<in> set args. readable v" and kwargs: "\<forall>p \<in> set kwargs. readable (snd p)"
  shows "readable_func f"
  unfolding readable_func_def
proof (intro allI impI)
  fix toks :: "token list" and ks n
  assume toks: "map fst toks = print_func f @ ks" and n: "8 * length toks + 1 \<le> n"
  obtain w ws where parts: "name_parts ns @ [name] = w # ws" by (cases "name_parts ns") auto
  have call: "mk_call (w # ws) as kw = AFunc (FuncCall name as kw ns)" for as kw
    unfolding parts [symmetric] mk_call_def by (simp add: join_name_parts)
  have wf: "\<forall>v \<in> set args. wf_value v" "\<forall>p \<in> set kwargs. wf_value (snd p)" "distinct (map fst kwargs)"
    using assms(1,2) by (simp_all add: list_all_iff)
  have kw: "map (\<lambda>p. IDENT (fst p) # PUNC ''='' # print_value (snd p)) kwargs = map print_kwarg kwargs"
    by (simp add: print_kwarg_def)
  define body where "body = commas (map print_value args @ map print_kwarg kwargs)"
  have shape: "map fst toks = dotted (w # ws) @ PUNC ''('' # body @ PUNC '')'' # ks"
    using toks unfolding f print_func.simps parts kw body_def by simp
  obtain m where m: "n = Suc m" using n by (cases n) auto
  obtain r r1 where r: "eat_ident toks = Inr (w, r)" "more_parts m [w] r = Inr (w # ws, r1)"
      "map fst r1 = PUNC ''('' # body @ PUNC '')'' # ks"
    using read_parts [OF shape, of m] n m by auto
  obtain a r2 where r2: "r1 = (PUNC ''('', a) # r2" "map fst r2 = body @ PUNC '')'' # ks"
    using r(3) by (auto simp: kinds_Cons)
  show "reads (parse_path_or_func n) toks (AFunc f) ks"
  proof (cases "args = [] \<and> kwargs = []")
    case True
    then have "body = []" by (simp add: body_def)
    with True r r2 call show ?thesis by (auto simp: reads_def m kinds_Cons f)
  next
    case False
    then have "body \<noteq> []"
      using wf print_value_not_Nil
      by (cases args; cases kwargs) (auto simp: body_def commas_Cons print_kwarg_def)
    moreover have "head (body @ x) \<noteq> PUNC '')''" for x
    proof (cases args)
      case Nil
      then show ?thesis using False by (cases kwargs) (auto simp: body_def commas_Cons print_kwarg_def)
    next
      case (Cons v vs)
      have "head (print_value v @ y) \<noteq> PUNC '')''" for y
      proof (cases v)
        case (APath ps)
        then show ?thesis using wf(1) Cons by (cases ps) auto
      next
        case (AFunc g)
        obtain gname gargs gkw gns where g: "g = FuncCall gname gargs gkw gns" by (cases g)
        obtain gw grest where "dotted (name_parts gns @ [gname]) = IDENT gw # grest"
          using dotted_snoc by metis
        then show ?thesis by (simp add: AFunc g)
      qed (simp_all add: print_set_def)
      then show ?thesis using Cons by (auto simp: body_def commas_Cons)
    qed
    ultimately have peek: "peek r2 \<noteq> PUNC '')''" using r2(2) by (simp add: kinds)
    have "length r1 < length toks"
      using length_kinds [OF shape] length_kinds [OF r(3)] by simp
    then have "reads (call_args m [] []) r2 ([] @ args, kwargs) (PUNC '')'' # ks)"
      using r2 False wf args kwargs n m by (intro read_args) (auto simp: body_def)
    then show ?thesis
      using r r2(1) peek call by (auto simp: reads_def m f eat_def kinds_Cons)
  qed
qed

lemma readable_set: "readable (ASet items)"
  unfolding readable_def
proof (intro allI impI)
  fix toks :: "token list" and ks n
  assume toks: "map fst toks = print_value (ASet items) @ ks" and n: "8 * length toks + 2 \<le> n"
  obtain m where m: "n = Suc m" using n by (cases n) auto
  have "length items \<le> length (commas (map (\<lambda>s. [STRING s]) items))"
    by (cases items) (auto simp: commas_Cons comp_def length_concat sum_list_triv)
  then have "length items \<le> m"
    using length_kinds [OF toks] n m by (simp add: print_set_def)
  then have "reads (parse_set_lit m) toks items ks" using toks by (intro read_set) simp_all
  then show "reads (parse_value n) toks (ASet items) ks"
    using toks by (auto simp: reads_def m kinds print_set_def)
qed

lemma readable_path:
  assumes parts: "parts = w # ws"
  shows "readable (APath parts)"
  unfolding readable_def
proof (intro allI impI)
  fix toks :: "token list" and ks n
  assume toks: "map fst toks = print_value (APath parts) @ ks" "value_end ks" and n: "8 * length toks + 2 \<le> n"
  obtain m where m: "n = Suc m" using n by (cases n) auto
  have "reads (parse_path_or_func m) toks (APath (w # ws)) ks"
    using toks n m parts by (intro read_path) auto
  then show "reads (parse_value n) toks (APath parts) ks"
    using toks(1) by (auto simp: reads_def m kinds parts)
qed

lemma readable_call:
  assumes f: "readable_func f"
  shows "readable (AFunc f)"
proof -
  obtain name args kwargs ns where fc: "f = FuncCall name args kwargs ns" by (cases f)
  obtain w rest where head: "dotted (name_parts ns @ [name]) = IDENT w # rest" using dotted_snoc by metis
  show ?thesis
    unfolding readable_def
  proof (intro allI impI)
    fix toks :: "token list" and ks n
    assume toks: "map fst toks = print_value (AFunc f) @ ks" and n: "8 * length toks + 2 \<le> n"
    obtain m where m: "n = Suc m" using n by (cases n) auto
    have "reads (parse_path_or_func m) toks (AFunc f) ks"
      using f toks n m by (auto simp: readable_func_def)
    then show "reads (parse_value n) toks (AFunc f) ks"
      using toks head by (auto simp: reads_def m kinds fc)
  qed
qed

lemma readable_literals: "readable (AStr s)" "readable (AInt i)" "readable (AFloat x)" "readable (ABool b)"
  by (auto simp: readable_def reads_def kinds_Cons dest!: Suc_le_D)

lemma readable_all: "(wf_value v \<longrightarrow> readable v) \<and> (wf_func f \<longrightarrow> readable_func f)"
proof (rule dsl_value_dsl_func.induct, goal_cases)
  case (6 parts)
  then show ?case by (cases parts) (auto intro: readable_path)
next
  case (7 f)
  then show ?case by (simp add: readable_call)
next
  case (8 name args kwargs ns)
  then show ?case
    by (intro impI readable_funcI [OF refl]) (fastforce simp: list_all_iff)+
qed (simp_all add: readable_literals readable_set)

lemmas readable_value = readable_all [THEN conjunct1, rule_format]
lemmas readable_call_of = readable_all [THEN conjunct2, rule_format]

subsection \<open>Reading conditions back\<close>

definition expr_end :: "tok list \<Rightarrow> bool" where
  "expr_end ks \<longleftrightarrow> value_end ks \<and>
     (case head ks of KW w \<Rightarrow> w \<notin> {''IN'', ''NOT'', ''MATCHES'', ''CONTAINS''} | OP p \<Rightarrow> False | _ \<Rightarrow> True)"

definition readable_expr :: "externals \<Rightarrow> dsl_expr \<Rightarrow> bool" where
  "readable_expr E e \<longleftrightarrow> (\<forall>toks ks n. map fst toks = print_expr e @ ks \<longrightarrow> expr_end ks \<longrightarrow>
     8 * length toks + 3 \<le> n \<longrightarrow> reads (parse_not E n) toks e ks)"

lemma readable_exprD:
  "readable_expr E e \<Longrightarrow> map fst toks = print_expr e @ ks \<Longrightarrow> expr_end ks \<Longrightarrow> 8 * length toks + 3 \<le> n \<Longrightarrow>
     reads (parse_not E n) toks e ks"
  by (simp add: readable_expr_def)

lemma op_tokens_end: "value_end (op_tokens op @ ks)"
  by (simp add: op_tokens_def value_end_def)

lemma func_head:
  assumes "wf_head f"
  obtains w rest where "print_func f = IDENT w # rest" "w = ''exists_path'' \<longrightarrow> head rest \<noteq> PUNC ''(''"
proof -
  obtain name args kwargs ns where f: "f = FuncCall name args kwargs ns" by (cases f)
  show thesis
  proof (cases "name_parts ns")
    case Nil
    then have "ns = []" using split_dots_not_Nil [of ns] by (auto simp: name_parts_def split: if_splits)
    then show thesis using assms that by (auto simp: f wf_head_def name_parts_def)
  next
    case (Cons p ps)
    then show thesis using that by (cases ps) (auto simp: f dotted_tail_def)
  qed
qed

lemma left_head:
  assumes "wf_left v" and "head ks \<noteq> PUNC ''(''"
  obtains w rest where "print_value v @ ks = IDENT w # rest" "w = ''exists_path'' \<longrightarrow> head rest \<noteq> PUNC ''(''"
proof (cases v)
  case (APath parts)
  then obtain p ps where "parts = p # ps" using assms(1) by (cases parts) (auto simp: wf_left_def)
  then show thesis using that assms(2) by (cases ps) (auto simp: APath dotted_tail_def)
next
  case (AFunc f)
  then have "wf_head f" using assms(1) by (simp add: wf_left_def)
  then obtain w rest where f: "print_func f = IDENT w # rest" "w = ''exists_path'' \<longrightarrow> head rest \<noteq> PUNC ''(''"
    by (rule func_head)
  have "rest \<noteq> []" using f(1) by (cases f) (auto simp: dotted_tail_def)
  then show thesis using that f AFunc by (cases rest) auto
qed (use assms in \<open>simp_all add: wf_left_def\<close>)

lemma read_left:
  assumes "wf_left v" and "map fst toks = print_value v @ ks" and "value_end ks" and "8 * length toks + 1 \<le> n"
  shows "reads (parse_path_or_func n) toks v ks"
proof (cases v)
  case (APath parts)
  then obtain p ps where "parts = p # ps" using assms(1) by (cases parts) (auto simp: wf_left_def)
  then show ?thesis using assms read_path [of toks p ps ks n] by (simp add: APath)
next
  case (AFunc f)
  then have "readable_func f" using assms(1) by (simp add: wf_left_def wf_head_def readable_call_of)
  then show ?thesis using assms by (simp add: AFunc readable_func_def)
qed (use assms in \<open>simp_all add: wf_left_def\<close>)

lemma atom_bare:
  assumes "peek toks = IDENT w" and "w = ''exists_path'' \<Longrightarrow> peek_at 1 toks \<noteq> PUNC ''(''"
  shows "parse_not E (Suc (Suc n)) toks = parse_bare_or_compare n toks"
  using assms by auto

lemma readable_compare:
  assumes "wf_left left" and "wf_value v"
  shows "readable_expr E (Compare left op v)"
  unfolding readable_expr_def
proof (intro allI impI)
  fix toks :: "token list" and ks n
  assume toks: "map fst toks = print_expr (Compare left op v) @ ks" and ends: "expr_end ks"
    and n: "8 * length toks + 3 \<le> n"
  then obtain m where m: "n = Suc (Suc m)" "8 * length toks + 1 \<le> m"
    by (cases n; cases "n - 1") auto
  let ?ks = "op_tokens op @ print_value v @ ks"
  obtain w rest where head: "print_value left @ ?ks = IDENT w # rest" "w = ''exists_path'' \<longrightarrow> head rest \<noteq> PUNC ''(''"
    using left_head [OF assms(1), of ?ks] op_tokens_end [of op "print_value v @ ks"] by (auto simp: value_end_def)
  then have bare: "parse_not E n toks = parse_bare_or_compare m toks"
    using toks unfolding m(1) by (intro atom_bare [of _ w]) (auto simp: kinds)
  obtain r where r: "parse_path_or_func m toks = Inr (left, r)" "map fst r = ?ks"
    using read_left [OF assms(1), of toks ?ks m] toks m(2) op_tokens_end by (auto simp: reads_def)
  have val: "reads (parse_value m) r1 v ks" if "map fst r1 = print_value v @ ks" for r1
  proof (rule readableD [OF readable_value [OF assms(2)] that])
    show "value_end ks" using ends by (simp add: expr_end_def)
    have "length r1 < length toks" using length_kinds [OF that] length_kinds [OF toks] left_head [OF assms(1), of ?ks]
      by (auto simp: op_tokens_def)
    then show "8 * length r1 + 2 \<le> m" using m(2) by simp
  qed
  show "reads (parse_not E n) toks (Compare left op v) ks"
  proof (cases "op = ''NOT_IN''")
    case True
    then obtain a b r1 where "r = (KW ''NOT'', a) # (KW ''IN'', b) # r1" "map fst r1 = print_value v @ ks"
      using r(2) by (auto simp: op_tokens_def kinds_Cons)
    then show ?thesis using val [of r1] r(1) True bare
      by (auto simp: reads_def parse_bare_or_compare_def Let_def eat_def)
  next
    case False
    then obtain k a r1 where k: "op_tokens op = [k]" "r = (k, a) # r1" "map fst r1 = print_value v @ ks"
      using r(2) by (auto simp: op_tokens_def kinds_Cons split: if_splits)
    then show ?thesis using val [of r1] r(1) False bare
      by (auto simp: reads_def parse_bare_or_compare_def Let_def op_tokens_def split: if_splits)
  qed
qed

lemma readable_bare:
  assumes "wf_head f"
  shows "readable_expr E (BareFunc f)"
  unfolding readable_expr_def
proof (intro allI impI)
  fix toks :: "token list" and ks n
  assume toks: "map fst toks = print_expr (BareFunc f) @ ks" and ends: "expr_end ks"
    and n: "8 * length toks + 3 \<le> n"
  then obtain m where m: "n = Suc (Suc m)" "8 * length toks + 1 \<le> m"
    by (cases n; cases "n - 1") auto
  obtain w rest where head: "print_func f = IDENT w # rest" "w = ''exists_path'' \<longrightarrow> head rest \<noteq> PUNC ''(''"
    using assms by (rule func_head)
  have "rest \<noteq> []" using head(1) by (cases f) (auto simp: dotted_tail_def)
  then have bare: "parse_not E n toks = parse_bare_or_compare m toks"
    using toks head unfolding m(1) by (intro atom_bare [of _ w]; cases rest) (auto simp: kinds)
  have "readable_func f" using assms by (simp add: wf_head_def readable_call_of)
  then obtain r where r: "parse_path_or_func m toks = Inr (AFunc f, r)" "map fst r = ks"
    using readable_funcD [of f toks ks m] toks m(2) by (auto simp: reads_def)
  then show "reads (parse_not E n) toks (BareFunc f) ks"
    using ends bare by (auto simp: reads_def parse_bare_or_compare_def kinds expr_end_def split: tok.splits)
qed

lemma path_arg_step:
  assumes "map fst toks = IDENT k # PUNC ''='' # print_value v @ ks" and "wf_value v" and "value_end ks"
    and "k \<noteq> ''source_label''" "k \<noteq> ''source.label''" and "8 * length toks \<le> n"
  obtains r where "map fst r = ks"
    "path_args E (Suc n) node toks =
       (if head ks = PUNC '','' then path_args E n (set_path_arg E k v node) (tl r)
        else Inr (set_path_arg E k v node, r))"
proof -
  obtain a b toks' where toks: "toks = (IDENT k, a) # (PUNC ''='', b) # toks'" "map fst toks' = print_value v @ ks"
    using assms(1) by (auto simp: kinds_Cons)
  obtain r where r: "parse_value n toks' = Inr (v, r)" "map fst r = ks"
    using readableD [OF readable_value [OF assms(2)] toks(2) assms(3), of n] assms(6) toks(1) by (auto simp: reads_def)
  then show thesis
    using assms(4,5) by (intro that [of r]) (simp_all add: toks(1) path_key_def eat_ident_def eat_def kinds)
qed

lemma readable_exists_path: "readable_expr E (ExistsPath labels hops sink src)"
  unfolding readable_expr_def
proof (intro allI impI)
  fix toks :: "token list" and ks n
  assume toks: "map fst toks = print_expr (ExistsPath labels hops sink src) @ ks" and n: "8 * length toks + 3 \<le> n"
  let ?k3 = "IDENT ''over'' # PUNC ''='' # STRING src # PUNC '')'' # ks"
  let ?k2 = "IDENT ''sink'' # PUNC ''='' # STRING sink # PUNC '','' # ?k3"
  let ?k1 = "IDENT ''max_hops'' # PUNC ''='' # INT_LIT hops # PUNC '','' # ?k2"
  obtain a b c d q where q: "toks = (KW ''EXISTS_PATH'', a) # (PUNC ''('', b) # (IDENT ''source_label'', c) # (KW ''IN'', d) # q"
      "map fst q = print_set labels @ PUNC '','' # ?k1"
    using toks by (auto simp: kinds_Cons)
  have len: "length q = length (print_set labels) + length ks + 13" using length_kinds [OF q(2)] by simp
  define m where "m = n - 6"
  have m: "n = Suc (Suc (Suc (Suc (Suc (Suc m)))))" "8 * (length ks + 12) \<le> m" "length labels \<le> m"
  proof -
    have "length labels \<le> length (commas (map (\<lambda>s. [STRING s]) labels))"
      by (cases labels) (auto simp: commas_Cons comp_def length_concat sum_list_triv)
    then have "length labels \<le> length (print_set labels)" by (simp add: print_set_def)
    with n q(1) len show "n = Suc (Suc (Suc (Suc (Suc (Suc m)))))" "8 * (length ks + 12) \<le> m" "length labels \<le> m"
      by (simp_all add: m_def)
  qed
  let ?node = "\<lparr>pn_labels = labels, pn_max_hops = 6, pn_sink = ''current_call'', pn_over = ''execution_graph''\<rparr>"
  obtain r1 where r1: "parse_set_lit (Suc (Suc (Suc m))) q = Inr (labels, r1)" "map fst r1 = PUNC '','' # ?k1"
    using read_set [OF q(2), of "Suc (Suc (Suc m))"] m(3) by (auto simp: reads_def)
  obtain r2 where r2: "map fst r2 = PUNC '','' # ?k2"
      "path_args E (Suc (Suc (Suc m))) ?node (tl r1) =
         path_args E (Suc (Suc m)) (set_path_arg E ''max_hops'' (AInt hops) ?node) (tl r2)"
    using path_arg_step [of "tl r1" "''max_hops''" "AInt hops" "PUNC '','' # ?k2" "Suc (Suc m)" E ?node]
      r1(2) m(2) length_kinds [OF tl_kinds [OF r1(2)]] by (auto simp: kinds value_end_def)
  obtain r3 where r3: "map fst r3 = PUNC '','' # ?k3"
      "path_args E (Suc (Suc m)) (set_path_arg E ''max_hops'' (AInt hops) ?node) (tl r2) =
         path_args E (Suc m) (set_path_arg E ''sink'' (AStr sink) (set_path_arg E ''max_hops'' (AInt hops) ?node)) (tl r3)"
    using path_arg_step [of "tl r2" "''sink''" "AStr sink" "PUNC '','' # ?k3" "Suc m" E]
      r2(1) m(2) length_kinds [OF tl_kinds [OF r2(1)]] by (auto simp: kinds value_end_def)
  obtain r4 where r4: "map fst r4 = PUNC '')'' # ks"
      "path_args E (Suc m) (set_path_arg E ''sink'' (AStr sink) (set_path_arg E ''max_hops'' (AInt hops) ?node)) (tl r3) =
         Inr (set_path_arg E ''over'' (AStr src)
           (set_path_arg E ''sink'' (AStr sink) (set_path_arg E ''max_hops'' (AInt hops) ?node)), r4)"
    using path_arg_step [of "tl r3" "''over''" "AStr src" "PUNC '')'' # ks" m E]
      r3(1) m(2) length_kinds [OF tl_kinds [OF r3(1)]] by (auto simp: kinds value_end_def)
  have "parse_not E n toks = parse_exists_path E (Suc (Suc (Suc (Suc m)))) (tl toks)"
    by (simp add: m(1) q(1))
  moreover have "path_args E (Suc (Suc (Suc (Suc m)))) (?node\<lparr>pn_labels := []\<rparr>) (tl (tl toks)) =
      path_args E (Suc (Suc (Suc m))) ?node (tl r1)"
    using r1 by (simp add: q(1) path_key_def eat_ident_def eat_def kinds)
  ultimately show "reads (parse_not E n) toks (ExistsPath labels hops sink src) ks"
    using r2(2) r3(2) r4
    by (auto simp: reads_def parse_exists_path_def eat_def q(1) set_path_arg_def kinds_Cons simp del: path_args.simps)
qed

lemma print_expr_not_Nil: "wf_expr e \<Longrightarrow> print_expr e \<noteq> []"
proof (cases e)
  case (Compare left op v)
  then show "wf_expr e \<Longrightarrow> ?thesis" using print_value_not_Nil [of v] by simp
next
  case (BareFunc f)
  then show ?thesis by (cases f) simp
qed simp_all

lemma readable_not:
  assumes "readable_expr E e"
  shows "readable_expr E (NotOp e)"
  unfolding readable_expr_def
proof (intro allI impI)
  fix toks :: "token list" and ks n
  assume toks: "map fst toks = print_expr (NotOp e) @ ks" "expr_end ks" and n: "8 * length toks + 3 \<le> n"
  obtain a q where q: "toks = (KW ''NOT'', a) # q" "map fst q = print_expr e @ ks"
    using toks(1) by (auto simp: kinds_Cons)
  obtain m where m: "n = Suc m" using n by (cases n) auto
  have "reads (parse_not E m) q e ks" using readable_exprD [OF assms q(2) toks(2)] n m q(1) by simp
  then show "reads (parse_not E n) toks (NotOp e) ks" by (auto simp: reads_def m q(1))
qed

lemma more_or_stop: "head ks \<noteq> KW ''OR'' \<Longrightarrow> map fst r = ks \<Longrightarrow> more_or E (Suc n) l r = Inr (l, r)"
  by (simp add: kinds)

lemma more_and_stop: "head ks \<noteq> KW ''AND'' \<Longrightarrow> map fst r = ks \<Longrightarrow> more_and E (Suc n) l r = Inr (l, r)"
  by (simp add: kinds)

lemma readable_bool:
  assumes "op = ''AND'' \<or> op = ''OR''" and "wf_expr l" "wf_expr r"
    and l: "readable_expr E l" and r: "readable_expr E r"
  shows "readable_expr E (BoolOp op l r)"
  unfolding readable_expr_def
proof (intro allI impI)
  fix toks :: "token list" and ks n
  let ?k2 = "PUNC '')'' # ks"
  let ?k1 = "KW op # print_expr r @ ?k2"
  assume toks: "map fst toks = print_expr (BoolOp op l r) @ ks" and n: "8 * length toks + 3 \<le> n"
  obtain a q where q: "toks = (PUNC ''('', a) # q" "map fst q = print_expr l @ ?k1"
    using toks by (auto simp: kinds_Cons)
  define m where "m = n - 7"
  have len: "length q = length (print_expr l) + length (print_expr r) + length ks + 2" "0 < length (print_expr l)"
    using length_kinds [OF q(2)] print_expr_not_Nil [OF assms(2)] by auto
  then have m: "n = Suc (Suc (Suc (Suc (Suc (Suc (Suc m))))))" "8 * length q + 4 \<le> m"
    using n q(1) by (simp_all add: m_def)
  have e1: "expr_end ?k1" and e2: "expr_end ?k2" using assms(1) by (auto simp: expr_end_def value_end_def)
  obtain q1 where q1: "parse_not E (Suc (Suc (Suc m))) q = Inr (l, q1)" "map fst q1 = ?k1"
    using readable_exprD [OF l q(2) e1, of "Suc (Suc (Suc m))"] m(2) by (auto simp: reads_def simp del: parse_not.simps)
  have k1: "peek q1 = KW op" "map fst (tl q1) = print_expr r @ ?k2" using kinds [OF q1(2)] by simp_all
  have right: "\<exists>q2. parse_not E k (tl q1) = Inr (r, q2) \<and> map fst q2 = ?k2" if "Suc m \<le> k" for k
    using readable_exprD [OF r k1(2) e2, of k] length_kinds [OF k1(2)] len m(2) that
    by (auto simp: reads_def simp del: parse_not.simps)
  have "\<exists>q2. parse_or E (Suc (Suc (Suc (Suc (Suc m))))) q = Inr (BoolOp op l r, q2) \<and> map fst q2 = ?k2"
  proof (cases "op = ''AND''")
    case True
    obtain q2 where q2: "parse_not E (Suc (Suc m)) (tl q1) = Inr (r, q2)" "map fst q2 = ?k2"
      using right [of "Suc (Suc m)"] by auto
    then show ?thesis
      using q1 k1 True more_and_stop [OF _ q2(2), of E "Suc m"] more_or_stop [OF _ q2(2), of E "Suc (Suc (Suc m))"]
      by (simp del: parse_not.simps)
  next
    case False
    then have op: "op = ''OR''" using assms(1) by simp
    obtain q2 where q2: "parse_not E (Suc (Suc m)) (tl q1) = Inr (r, q2)" "map fst q2 = ?k2"
      using right [of "Suc (Suc m)"] by auto
    then show ?thesis
      using q1 k1 op more_and_stop [OF _ q1(2), of E "Suc (Suc m)"] more_and_stop [OF _ q2(2), of E "Suc m"]
        more_or_stop [OF _ q2(2), of E "Suc (Suc m)"]
      by (simp del: parse_not.simps)
  qed
  then obtain q2 where "parse_or E (Suc (Suc (Suc (Suc (Suc m))))) q = Inr (BoolOp op l r, q2)" "map fst q2 = ?k2"
    by auto
  then show "reads (parse_not E n) toks (BoolOp op l r) ks"
    by (auto simp: reads_def m(1) q(1) eat_def kinds_Cons simp del: parse_or.simps)
qed

lemma readable_exprs: "wf_expr e \<Longrightarrow> readable_expr E e"
  by (induction e) (simp_all add: readable_bool readable_not readable_compare readable_bare readable_exists_path)

text \<open>The whole grammar of conditions, from its top.\<close>

lemma read_condition:
  assumes "wf_expr e" and "map fst toks = print_expr e @ ks" and "expr_end ks"
    and "head ks \<notin> {KW ''AND'', KW ''OR''}" and "8 * length toks + 5 \<le> n"
  shows "reads (parse_or E n) toks e ks"
proof -
  define m where "m = n - 3"
  have m: "n = Suc (Suc (Suc m))" "8 * length toks + 2 \<le> m" using assms(5) by (simp_all add: m_def)
  obtain r where r: "parse_not E (Suc m) toks = Inr (e, r)" "map fst r = ks"
    using readable_exprD [OF readable_exprs [OF assms(1)] assms(2,3), of "Suc m"] m(2)
    by (auto simp: reads_def simp del: parse_not.simps)
  then show ?thesis
    using assms(4) more_and_stop [OF _ r(2), of E m] more_or_stop [OF _ r(2), of E "Suc m"]
    by (simp add: reads_def m(1) del: parse_not.simps)
qed

end
