(* ===== verification/Rule_Printer.thy ===== *)
theory Rule_Printer
  imports Dsl_Printer
begin

text \<open>The printer for whole rules, and reading rules back from tokens and from text.\<close>

subsection \<open>Printing\<close>

definition print_part :: "string \<Rightarrow> tok list" where
  "print_part w = [PUNC ''.'', if w = ''*'' then PUNC ''*'' else IDENT w]"

definition print_pattern :: "string \<Rightarrow> tok list" where
  "print_pattern pat =
     (if pat = ''*'' then [PUNC ''*'']
      else IDENT (hd (split_dots pat)) # concat (map print_part (tl (split_dots pat))))"

definition print_event :: "string \<Rightarrow> string \<Rightarrow> tok list" where
  "print_event pat subtype =
     [KW ''ON'', PUNC '':'', IDENT ''tool_call''] @
     (if subtype = [] then [] else [PUNC ''.'', IDENT subtype]) @
     PUNC ''('' # print_pattern pat @ [PUNC '')'']"

definition sep_tokens :: "string \<Rightarrow> tok list" where
  "sep_tokens sep =
     (if sep = ''-> *'' then [PUNC ''->'', PUNC ''*'', PUNC ''->'']
      else if sep = ''-> ...'' then [PUNC ''->'', PUNC ''.'', PUNC ''.'', PUNC ''.'', PUNC ''->'']
      else if sep = ''-> ...?'' then [PUNC ''->'', PUNC ''.'', PUNC ''.'', PUNC ''.'', PUNC ''?'', PUNC ''->'']
      else [PUNC ''->''])"

definition print_steps :: "trace_clause \<Rightarrow> tok list" where
  "print_steps steps = concat (map (\<lambda>(name, sep). sep_tokens sep @ [IDENT name]) steps)"

definition print_trace :: "trace_clause option \<Rightarrow> tok list" where
  "print_trace c =
     (case c of None \<Rightarrow> []
      | Some steps \<Rightarrow> KW ''TRACE'' # PUNC '':'' # IDENT (fst (hd steps)) # print_steps (tl steps))"

definition print_condition :: "dsl_expr \<Rightarrow> tok list" where
  "print_condition e = (if e = TrueExpr then [] else KW ''CONDITION'' # PUNC '':'' # print_expr e)"

definition print_obligation :: "obligation_ast \<Rightarrow> tok list" where
  "print_obligation ob =
     IDENT (oa_kind ob) # PUNC ''('' # commas (map print_kwarg (oa_args ob)) @ [PUNC '')'']"

definition print_action :: "action_ast \<Rightarrow> tok list" where
  "print_action act =
     KW (aa_kind act) #
     (case aa_profile act of None \<Rightarrow> [] | Some p \<Rightarrow> [KW ''TO'', STRING p]) @
     (if aa_obligations act = [] then []
      else KW ''WITH'' # commas (map print_obligation (aa_obligations act)))"

definition print_meta :: "(string \<times> dsl_value) list \<Rightarrow> tok list" where
  "print_meta meta = concat (map (\<lambda>p. IDENT (fst p) # PUNC '':'' # print_value (snd p) @ [PUNC '','']) meta)"

definition print_rule :: "rule_ast \<Rightarrow> tok list" where
  "print_rule r =
     [KW ''RULE'', PUNC '':'', IDENT (ra_rule_id r)] @
     print_event (ra_tool_pattern r) (ra_event_subtype r) @ print_trace (ra_trace_clause r) @
     print_condition (ra_expr r) @ [KW ''POLICY'', PUNC '':''] @ print_action (ra_action r) @
     print_meta (ra_meta r)"

definition wf_pattern :: "string \<Rightarrow> bool" where
  "wf_pattern pat \<longleftrightarrow> pat = ''*'' \<or> ''*'' \<notin> set (butlast (split_dots pat)) \<and> hd (split_dots pat) \<noteq> ''*''"

definition wf_steps :: "trace_clause \<Rightarrow> bool" where
  "wf_steps steps \<longleftrightarrow> steps \<noteq> [] \<and> snd (hd steps) = [] \<and>
     list_all (\<lambda>(name, sep). sep \<in> {''->'', ''-> *'', ''-> ...'', ''-> ...?''}) (tl steps)"

definition wf_kwargs :: "(string \<times> dsl_value) list \<Rightarrow> bool" where
  "wf_kwargs kws \<longleftrightarrow> distinct (map fst kws) \<and> list_all (\<lambda>p. wf_value (snd p)) kws"

definition wf_obligation :: "obligation_ast \<Rightarrow> bool" where
  "wf_obligation ob \<longleftrightarrow> str_upper (oa_kind ob) = oa_kind ob \<and> wf_kwargs (oa_args ob)"

definition wf_action :: "action_ast \<Rightarrow> bool" where
  "wf_action act \<longleftrightarrow> aa_kind act \<in> set action_kinds \<and>
     ((aa_kind act = ''DEGRADE'') = (aa_profile act \<noteq> None)) \<and> list_all wf_obligation (aa_obligations act)"

definition wf_meta :: "(string \<times> dsl_value) list \<Rightarrow> bool" where
  "wf_meta meta \<longleftrightarrow> wf_kwargs meta \<and>
     list_all (\<lambda>p. str_lower (fst p) = fst p \<and> meta_value (snd p) = snd p) meta"

definition wf_rule :: "rule_ast \<Rightarrow> bool" where
  "wf_rule r \<longleftrightarrow> wf_pattern (ra_tool_pattern r) \<and>
     (case ra_trace_clause r of None \<Rightarrow> True | Some steps \<Rightarrow> wf_steps steps) \<and>
     (ra_expr r = TrueExpr \<or> wf_expr (ra_expr r)) \<and> wf_action (ra_action r) \<and> wf_meta (ra_meta r) \<and>
     ra_source r = [] \<and> ra_source_block r = []"

subsection \<open>Reading clauses back\<close>

lemma readsD: "reads p toks x ks \<Longrightarrow> \<exists>r. p toks = Inr (x, r) \<and> map fst r = ks"
  by (simp add: reads_def)

lemma read_tool_parts:
  assumes "map fst toks = concat (map print_part ws) @ ks" and "head ks \<noteq> PUNC ''.''"
    and "''*'' \<notin> set (butlast ws)" and "length ws < n"
  shows "reads (tool_pattern_parts n parts) toks (parts @ ws) ks"
  using assms
proof (induction ws arbitrary: n parts toks)
  case Nil
  then show ?case by (cases n) (auto simp: reads_def kinds)
next
  case (Cons w ws)
  obtain m where n: "n = Suc m" using Cons.prems by (cases n) auto
  obtain a b q where toks: "toks = (PUNC ''.'', a) # (if w = ''*'' then PUNC ''*'' else IDENT w, b) # q"
      "map fst q = concat (map print_part ws) @ ks"
    using Cons.prems(1) print_part_def [of w] by (auto simp: kinds_Cons)
  show ?case
  proof (cases "w = ''*''")
    case True
    then have "ws = []" using Cons.prems(3) by (cases ws) auto
    with True show ?thesis using toks by (simp add: reads_def n)
  next
    case False
    then have "reads (tool_pattern_parts m (parts @ [w])) q ((parts @ [w]) @ ws) ks"
      using Cons.prems n toks(2) by (intro Cons.IH) (auto split: if_splits)
    then show ?thesis using False by (auto simp: reads_def n toks(1) eat_ident_def)
  qed
qed

lemma read_pattern:
  assumes "wf_pattern pat" and "map fst toks = print_pattern pat @ ks" and "head ks \<noteq> PUNC ''.''"
    and "length toks \<le> n"
  shows "reads (parse_tool_pattern n) toks pat ks"
proof (cases "pat = ''*''")
  case True
  with assms(2) show ?thesis by (auto simp: reads_def parse_tool_pattern_def print_pattern_def kinds_Cons)
next
  case False
  obtain w ws where parts: "split_dots pat = w # ws" by (meson list.exhaust split_dots_not_Nil)
  obtain a q where toks: "toks = (IDENT w, a) # q" "map fst q = concat (map print_part ws) @ ks"
    using assms(2) False parts by (auto simp: print_pattern_def kinds_Cons)
  have "length ws \<le> length (concat (map print_part ws))"
    by (induction ws) (simp_all add: print_part_def)
  then have "length ws < n" using assms(4) toks(1) length_kinds [OF toks(2)] by simp
  moreover have "''*'' \<notin> set (butlast ws)"
    using assms(1) False parts by (auto simp: wf_pattern_def split: if_splits)
  ultimately have "reads (tool_pattern_parts n [w]) q ([w] @ ws) ks"
    using toks(2) assms(3) by (intro read_tool_parts)
  moreover have "str_join ''.'' (w # ws) = pat" using join_split_dots [of pat] parts by simp
  ultimately show ?thesis by (auto simp: reads_def parse_tool_pattern_def toks(1) eat_ident_def)
qed

lemma read_event:
  assumes "wf_pattern pat" and "map fst toks = tl (tl (print_event pat subtype)) @ ks" and "length toks \<le> n"
  shows "reads (parse_event_match n) toks (pat, subtype) ks"
proof -
  have pat: "reads (parse_tool_pattern n) q pat (PUNC '')'' # ks)"
    if "map fst q = print_pattern pat @ PUNC '')'' # ks" "length q \<le> n" for q
    using that assms(1) by (intro read_pattern) auto
  show ?thesis
  proof (cases "subtype = []")
    case True
    then obtain a b q where q: "toks = (IDENT ''tool_call'', a) # (PUNC ''('', b) # q"
        "map fst q = print_pattern pat @ PUNC '')'' # ks"
      using assms(2) by (auto simp: print_event_def kinds_Cons)
    then show ?thesis using readsD [OF pat [OF q(2)]] assms(3) True
      by (auto simp: reads_def parse_event_match_def eat_ident_def eat_def kinds_Cons)
  next
    case False
    then obtain a b c d q where q: "toks = (IDENT ''tool_call'', a) # (PUNC ''.'', b) # (IDENT subtype, c) # (PUNC ''('', d) # q"
        "map fst q = print_pattern pat @ PUNC '')'' # ks"
      using assms(2) by (auto simp: print_event_def kinds_Cons)
    then show ?thesis using readsD [OF pat [OF q(2)]] assms(3) False
      by (auto simp: reads_def parse_event_match_def eat_ident_def eat_def kinds_Cons)
  qed
qed

lemma sep_tokens_simps [simp]:
  "sep_tokens ''->'' = [PUNC ''->'']"
  "sep_tokens ''-> *'' = [PUNC ''->'', PUNC ''*'', PUNC ''->'']"
  "sep_tokens ''-> ...'' = [PUNC ''->'', PUNC ''.'', PUNC ''.'', PUNC ''.'', PUNC ''->'']"
  "sep_tokens ''-> ...?'' = [PUNC ''->'', PUNC ''.'', PUNC ''.'', PUNC ''.'', PUNC ''?'', PUNC ''->'']"
  by (simp_all add: sep_tokens_def)

lemma gap_step:
  assumes "map fst q = sep_tokens sep @ IDENT w # ks"
    and sep: "sep \<in> {''->'', ''-> *'', ''-> ...'', ''-> ...?''}"
  shows "trace_steps (Suc m) s acc ((IDENT name, a) # q) =
     trace_steps m sep (acc @ [(name, s)]) (drop (length (sep_tokens sep)) q)"
proof -
  let ?goal = "\<lambda>sep. map fst q = sep_tokens sep @ IDENT w # ks \<longrightarrow>
     trace_steps (Suc m) s acc ((IDENT name, a) # q) =
     trace_steps m sep (acc @ [(name, s)]) (drop (length (sep_tokens sep)) q)"
  note unfolds = kinds_Cons key_of_def eat_ident_def eat_def consume_gap_def peek_at_def Let_def
  have "?goal ''->''" by (intro impI, unfold sep_tokens_simps append.simps) (clarsimp simp: unfolds)
  moreover have "?goal ''-> *''" by (intro impI, unfold sep_tokens_simps append.simps) (clarsimp simp: unfolds)
  moreover have "?goal ''-> ...''" by (intro impI, unfold sep_tokens_simps append.simps) (clarsimp simp: unfolds)
  moreover have "?goal ''-> ...?''" by (intro impI, unfold sep_tokens_simps append.simps) (clarsimp simp: unfolds)
  ultimately show ?thesis using assms(1) sep by blast
qed

lemma read_steps:
  assumes "map fst toks = IDENT name # print_steps steps @ ks" and "head ks \<noteq> PUNC ''->''"
    and "list_all (\<lambda>(name, sep). sep \<in> {''->'', ''-> *'', ''-> ...'', ''-> ...?''}) steps" and "length steps < n"
  shows "reads (trace_steps n sep acc) toks (acc @ (name, sep) # steps) ks"
  using assms
proof (induction steps arbitrary: n name sep acc toks)
  case Nil
  then show ?case by (cases n) (auto simp: reads_def print_steps_def kinds_Cons kinds key_of_def eat_ident_def)
next
  case (Cons s steps)
  obtain name' sep' where s: "s = (name', sep')" by (cases s)
  obtain m where n: "n = Suc m" using Cons.prems by (cases n) auto
  obtain a q where q: "toks = (IDENT name, a) # q"
      "map fst q = sep_tokens sep' @ IDENT name' # print_steps steps @ ks"
    using Cons.prems(1) by (auto simp: print_steps_def s kinds_Cons)
  have "sep' \<in> {''->'', ''-> *'', ''-> ...'', ''-> ...?''}" using Cons.prems(3) s by simp
  then have step: "trace_steps n sep acc toks =
      trace_steps m sep' (acc @ [(name, sep)]) (drop (length (sep_tokens sep')) q)"
    unfolding n q(1) by (rule gap_step [OF q(2)])
  define q' where "q' = drop (length (sep_tokens sep')) q"
  have q': "map fst q' = IDENT name' # print_steps steps @ ks"
    by (simp add: q'_def q(2) flip: drop_map)
  have "reads (trace_steps m sep' (acc @ [(name, sep)])) q' ((acc @ [(name, sep)]) @ (name', sep') # steps) ks"
    using q' Cons.prems n by (intro Cons.IH) auto
  then show ?case using step by (simp add: reads_def s q'_def)
qed

lemma sep_tokens_not_Nil: "0 < length (sep_tokens sep)"
  by (simp add: sep_tokens_def)

lemma read_trace_clause:
  assumes "wf_steps steps" and "map fst toks = tl (tl (print_trace (Some steps))) @ ks" and "head ks \<noteq> PUNC ''->''"
    and "length toks < n"
  shows "reads (parse_trace_clause n) toks steps ks"
proof -
  obtain name rest where steps: "steps = (name, []) # rest"
    using assms(1) by (cases steps) (auto simp: wf_steps_def)
  have "length rest \<le> length (print_steps rest)"
    by (induction rest) (auto simp: print_steps_def)
  then have "reads (trace_steps n [] []) toks ([] @ (name, []) # rest) ks"
    using assms length_kinds [OF assms(2)]
    by (intro read_steps) (auto simp: steps wf_steps_def print_trace_def)
  then show ?thesis by (auto simp: reads_def parse_trace_clause_def steps)
qed

subsection \<open>Reading actions and metadata back\<close>

lemma wf_kwargs_Cons [simp]:
  "wf_kwargs (p # kws) \<longleftrightarrow> wf_value (snd p) \<and> fst p \<notin> fst ` set kws \<and> wf_kwargs kws"
  by (auto simp: wf_kwargs_def)

lemma read_kv:
  assumes "map fst toks = print_kwarg p @ ks" and "wf_value (snd p)" and "value_end ks"
    and "8 * length toks \<le> n" and "fst p \<notin> fst ` set acc"
  shows "reads (parse_kv n acc) toks (acc @ [p]) ks"
proof -
  obtain k v where p: "p = (k, v)" by (cases p)
  obtain a b q where q: "toks = (IDENT k, a) # (PUNC ''='', b) # q" "map fst q = print_value v @ ks"
    using assms(1) by (auto simp: print_kwarg_def p kinds_Cons)
  have "reads (parse_value n) q v ks"
    using readableD [OF readable_value q(2) assms(3), of n] assms(2,4) q(1) p by simp
  then show ?thesis
    using assms(5) update_new [of k acc v] by (auto simp: reads_def parse_kv_def q(1) eat_ident_def eat_def p)
qed

lemma read_more_kvs:
  assumes "map fst toks = concat (map (\<lambda>p. PUNC '','' # print_kwarg p) kws) @ PUNC '')'' # ks"
    and "wf_kwargs kws" and "fst ` set acc \<inter> fst ` set kws = {}" and "8 * length toks + 1 \<le> n"
  shows "reads (more_kvs n acc) toks (acc @ kws) (PUNC '')'' # ks)"
  using assms
proof (induction kws arbitrary: n acc toks)
  case Nil
  then show ?case by (cases n) (auto simp: reads_def kinds)
next
  case (Cons p kws)
  obtain m where n: "n = Suc m" using Cons.prems by (cases n) auto
  let ?rest = "concat (map (\<lambda>p. PUNC '','' # print_kwarg p) kws) @ PUNC '')'' # ks"
  obtain a q where q: "toks = (PUNC '','', a) # q" "map fst q = print_kwarg p @ ?rest"
    using Cons.prems(1) by (auto simp: kinds_Cons)
  have "value_end ?rest" by (cases kws) (simp_all add: value_end_def)
  then obtain r where r: "parse_kv m acc q = Inr (acc @ [p], r)" "map fst r = ?rest"
    using read_kv [OF q(2), of m acc] Cons.prems n q(1) by (auto simp: reads_def)
  have "reads (more_kvs m (acc @ [p])) r ((acc @ [p]) @ kws) (PUNC '')'' # ks)"
    using Cons.prems n r(2) q(1) length_kinds [OF q(2)] length_kinds [OF r(2)] by (intro Cons.IH) auto
  then show ?case using r(1) by (simp add: reads_def n q(1))
qed

lemma read_obligation:
  assumes "wf_obligation ob" and "map fst toks = print_obligation ob @ ks" and "8 * length toks \<le> n"
  shows "reads (parse_one_obligation n) toks ob ks"
proof (cases "oa_args ob")
  case Nil
  then have "ob = \<lparr>oa_kind = oa_kind ob, oa_args = []\<rparr>" by simp
  with Nil assms(1,2) show ?thesis
    by (auto simp: reads_def parse_one_obligation_def print_obligation_def wf_obligation_def kinds_Cons
        eat_ident_def eat_def)
next
  case (Cons p kws)
  let ?rest = "concat (map (\<lambda>p. PUNC '','' # print_kwarg p) kws) @ PUNC '')'' # ks"
  obtain a b q where q: "toks = (IDENT (oa_kind ob), a) # (PUNC ''('', b) # q" "map fst q = print_kwarg p @ ?rest"
    using assms(2) by (auto simp: print_obligation_def Cons commas_Cons kinds_Cons comp_def)
  have wf: "wf_kwargs (p # kws)" using assms(1) by (simp add: wf_obligation_def Cons)
  have "value_end ?rest" by (cases kws) (simp_all add: value_end_def)
  then obtain r where r: "parse_kv n [] q = Inr ([p], r)" "map fst r = ?rest"
    using read_kv [OF q(2), of n "[]"] wf assms(3) q(1) by (auto simp: reads_def)
  have "reads (more_kvs n [p]) r ([p] @ kws) (PUNC '')'' # ks)"
    using wf r(2) q(1) assms(3) length_kinds [OF q(2)] length_kinds [OF r(2)]
    by (intro read_more_kvs) auto
  moreover have "peek q \<noteq> PUNC '')''" using kinds(1) [OF q(2)] by (simp add: print_kwarg_def)
  moreover have "ob = \<lparr>oa_kind = oa_kind ob, oa_args = p # kws\<rparr>" using Cons by simp
  ultimately show ?thesis
    using r(1) assms(1) by (auto simp: reads_def parse_one_obligation_def q(1) eat_ident_def eat_def
        wf_obligation_def kinds_Cons)
qed

lemma read_more_obligations:
  assumes "map fst toks = concat (map (\<lambda>ob. PUNC '','' # print_obligation ob) obs) @ ks"
    and "list_all wf_obligation obs" and "head ks \<noteq> PUNC '',''" and "8 * length toks + 1 \<le> n"
  shows "reads (more_obligations n acc) toks (acc @ obs) ks"
  using assms
proof (induction obs arbitrary: n acc toks)
  case Nil
  then show ?case by (cases n) (auto simp: reads_def kinds)
next
  case (Cons ob obs)
  obtain m where n: "n = Suc m" using Cons.prems by (cases n) auto
  let ?rest = "concat (map (\<lambda>ob. PUNC '','' # print_obligation ob) obs) @ ks"
  obtain a q where q: "toks = (PUNC '','', a) # q" "map fst q = print_obligation ob @ ?rest"
    using Cons.prems(1) by (auto simp: kinds_Cons)
  obtain r where r: "parse_one_obligation m q = Inr (ob, r)" "map fst r = ?rest"
    using read_obligation [OF _ q(2), of m] Cons.prems n q(1) by (auto simp: reads_def)
  have "reads (more_obligations m (acc @ [ob])) r ((acc @ [ob]) @ obs) ks"
    using Cons.prems n r(2) q(1) length_kinds [OF q(2)] length_kinds [OF r(2)] by (intro Cons.IH) auto
  then show ?case using r(1) by (simp add: reads_def n q(1))
qed

lemma read_obligations:
  assumes "list_all wf_obligation obs" and "obs \<noteq> []" and "map fst toks = commas (map print_obligation obs) @ ks"
    and "head ks \<noteq> PUNC '',''" and "8 * length toks \<le> n"
  shows "reads (parse_obligations n) toks obs ks"
proof -
  obtain ob rest where obs: "obs = ob # rest" using assms(2) by (cases obs) auto
  let ?rest = "concat (map (\<lambda>ob. PUNC '','' # print_obligation ob) rest) @ ks"
  have toks: "map fst toks = print_obligation ob @ ?rest"
    using assms(3) by (simp add: obs commas_Cons comp_def)
  obtain r where r: "parse_one_obligation n toks = Inr (ob, r)" "map fst r = ?rest"
    using read_obligation [OF _ toks, of n] assms(1,5) obs by (auto simp: reads_def)
  have "Suc 0 \<le> length (print_obligation ob)" by (simp add: print_obligation_def)
  with length_kinds [OF toks] length_kinds [OF r(2)] assms(5) have "8 * length r + 1 \<le> n"
    unfolding length_append by linarith
  then have "reads (more_obligations n [ob]) r ([ob] @ rest) ks"
    using assms(1,4,5) obs r(2) length_kinds [OF toks] length_kinds [OF r(2)]
    by (intro read_more_obligations) auto
  then show ?thesis using r(1) by (simp add: reads_def parse_obligations_def obs)
qed

lemma obligations_head:
  assumes "obs \<noteq> []"
  obtains w rest where "commas (map print_obligation obs) @ ks = IDENT w # PUNC ''('' # rest"
  using assms by (cases obs) (auto simp: commas_Cons print_obligation_def)

lemma read_with_obligations:
  assumes "list_all wf_obligation obs"
    and "map fst toks = (if obs = [] then [] else KW ''WITH'' # commas (map print_obligation obs)) @ ks"
    and "head ks \<notin> {PUNC '','', KW ''WITH''}" and "8 * length toks \<le> n" and "aa_obligations act = []"
  shows "reads (with_obligations n act) toks (act\<lparr>aa_obligations := obs\<rparr>) ks"
proof (cases "obs = []")
  case True
  then have "act\<lparr>aa_obligations := obs\<rparr> = act" using assms(5) by simp
  with True assms(2,3) show ?thesis by (simp add: reads_def with_obligations_def kinds)
next
  case False
  then obtain a q where q: "toks = (KW ''WITH'', a) # q" "map fst q = commas (map print_obligation obs) @ ks"
    using assms(2) by (auto simp: kinds_Cons)
  obtain w rest where "map fst q = IDENT w # PUNC ''('' # rest"
    using obligations_head [OF False, of ks] q(2) by metis
  then have "looks_like_obligations toks"
    by (auto simp: looks_like_obligations_def q(1) peek_at_def kinds_Cons)
  moreover have "reads (parse_obligations n) q obs ks"
    using assms False q by (intro read_obligations) auto
  ultimately show ?thesis by (auto simp: reads_def with_obligations_def q(1))
qed

lemma read_action:
  assumes "wf_action act" and "map fst toks = print_action act @ ks"
    and "head ks \<notin> {PUNC '','', KW ''WITH''}" and "8 * length toks \<le> n"
  shows "reads (parse_action n) toks act ks"
proof -
  let ?base = "act\<lparr>aa_obligations := []\<rparr>"
  let ?obs = "if aa_obligations act = [] then [] else KW ''WITH'' # commas (map print_obligation (aa_obligations act))"
  have kind: "aa_kind act \<in> set action_kinds" using assms(1) by (simp add: wf_action_def)
  have obs: "reads (with_obligations n ?base) r act ks" if "map fst r = ?obs @ ks" "length r \<le> length toks" for r
    using read_with_obligations [of "aa_obligations act" r ks n ?base] that assms by (simp add: wf_action_def)
  show ?thesis
  proof (cases "aa_kind act = ''DEGRADE''")
    case True
    then obtain p where p: "aa_profile act = Some p" using assms(1) by (auto simp: wf_action_def)
    obtain a b c r where r: "toks = (KW ''DEGRADE'', a) # (KW ''TO'', b) # (STRING p, c) # r" "map fst r = ?obs @ ks"
      using assms(2) by (auto simp: print_action_def True p kinds_Cons)
    have "?base = \<lparr>aa_kind = ''DEGRADE'', aa_profile = Some p, aa_obligations = []\<rparr>" using True p by simp
    then show ?thesis
      using obs [OF r(2)] r(1) by (simp add: reads_def parse_action_def action_keyword_def parse_profile_def eat_string_def)
  next
    case False
    then have p: "aa_profile act = None" using assms(1) by (simp add: wf_action_def)
    obtain a r where r: "toks = (KW (aa_kind act), a) # r" "map fst r = ?obs @ ks"
      using assms(2) by (auto simp: print_action_def p kinds_Cons)
    have "?base = \<lparr>aa_kind = aa_kind act, aa_profile = None, aa_obligations = []\<rparr>" using p by simp
    then show ?thesis
      using obs [OF r(2)] r(1) False kind by (simp add: reads_def parse_action_def action_keyword_def)
  qed
qed

definition rule_end :: "tok list \<Rightarrow> bool" where
  "rule_end ks \<longleftrightarrow> head ks = EOF \<or> head ks = KW ''RULE''"

lemma read_meta:
  assumes "map fst toks = print_meta meta @ ks" and "rule_end ks" and "wf_meta meta"
    and "fst ` set acc \<inter> fst ` set meta = {}" and "8 * length toks + 3 \<le> n"
  shows "reads (parse_meta n acc) toks (acc @ meta) ks"
  using assms
proof (induction meta arbitrary: n acc toks)
  case Nil
  then show ?case by (cases n) (auto simp: reads_def print_meta_def kinds rule_end_def key_of_def)
next
  case (Cons p meta)
  obtain k v where p: "p = (k, v)" by (cases p)
  obtain m where n: "n = Suc m" using Cons.prems by (cases n) auto
  have wf: "wf_value v" "str_lower k = k" "meta_value v = v" "wf_meta meta" "k \<notin> fst ` set meta"
    using Cons.prems(3) by (simp_all add: wf_meta_def p)
  obtain a b q where q: "toks = (IDENT k, a) # (PUNC '':'', b) # q"
      "map fst q = print_value v @ PUNC '','' # print_meta meta @ ks"
    using Cons.prems(1) by (auto simp: print_meta_def p kinds_Cons)
  obtain r where r: "parse_value m q = Inr (v, r)" "map fst r = PUNC '','' # print_meta meta @ ks"
    using readableD [OF readable_value [OF wf(1)] q(2), of m] Cons.prems(5) n q(1)
    by (auto simp: reads_def value_end_def)
  obtain c r' where r': "r = (PUNC '','', c) # r'" "map fst r' = print_meta meta @ ks"
    using r(2) by (auto simp: kinds_Cons)
  have "reads (parse_meta m (acc @ [p])) r' ((acc @ [p]) @ meta) ks"
    using Cons.prems n wf r'(2) q(1) r'(1) length_kinds [OF q(2)] length_kinds [OF r(2)]
    by (intro Cons.IH) (auto simp: p)
  moreover have "dict_set k v acc = acc @ [p]"
    using Cons.prems(4) update_new [of k acc v] by (auto simp: p)
  ultimately show ?case
    using r(1) wf by (simp add: reads_def n q(1) r'(1) key_of_def peek_at_def)
qed

subsection \<open>Reading rules back\<close>

lemma accept_key_kinds:
  "accept_key k toks =
     (if head (tl (map fst toks)) = PUNC '':'' \<and>
         (case head (map fst toks) of KW w \<Rightarrow> w = k | IDENT w \<Rightarrow> str_upper w = k | _ \<Rightarrow> False)
      then Some (tl (tl toks)) else None)"
  by (simp add: accept_key_def kinds(1) [OF refl] kinds(2) [OF refl] drop_Suc)

lemma optional_present:
  assumes "map fst toks = KW k # PUNC '':'' # body"
    and "\<And>q. map fst q = body \<Longrightarrow> reads p q x ks"
  shows "reads (optional_key k d p) toks x ks"
proof -
  obtain a b q where "toks = (KW k, a) # (PUNC '':'', b) # q" "map fst q = body"
    using assms(1) by (auto simp: kinds_Cons)
  then show ?thesis using assms(2) [of q] by (simp add: reads_def optional_key_def accept_key_kinds)
qed

lemma optional_absent:
  assumes "map fst toks = KW w # ks" and "w \<noteq> k"
  shows "reads (optional_key k d p) toks d (KW w # ks)"
  using assms by (auto simp: reads_def optional_key_def accept_key_kinds)

lemma read_rule:
  fixes toks :: "token list"
  assumes wf: "wf_rule r" and toks: "map fst toks = print_rule r @ ks" and ends: "rule_end ks"
    and n: "8 * length toks \<le> n"
  shows "reads (parse_rule E n) toks r ks"
proof -
  let ?meta = "print_meta (ra_meta r) @ ks"
  let ?act = "print_action (ra_action r) @ ?meta"
  let ?policy = "KW ''POLICY'' # PUNC '':'' # ?act"
  let ?cond = "print_condition (ra_expr r) @ ?policy"
  let ?trace = "print_trace (ra_trace_clause r) @ ?cond"
  let ?event = "print_event (ra_tool_pattern r) (ra_event_subtype r) @ ?trace"
  obtain a b c t2 where t2: "toks = (KW ''RULE'', a) # (PUNC '':'', b) # (IDENT (ra_rule_id r), c) # t2"
      "map fst t2 = ?event"
    using toks by (auto simp: print_rule_def kinds_Cons)
  have wfs: "wf_pattern (ra_tool_pattern r)" "wf_action (ra_action r)" "wf_meta (ra_meta r)"
      "\<And>s. ra_trace_clause r = Some s \<Longrightarrow> wf_steps s" "ra_expr r \<noteq> TrueExpr \<Longrightarrow> wf_expr (ra_expr r)"
    using wf by (auto simp: wf_rule_def)
  have "reads (optional_key ''ON'' (''*'', []) (parse_event_match n)) t2
      (ra_tool_pattern r, ra_event_subtype r) ?trace"
  proof (rule optional_present)
    show "map fst t2 = KW ''ON'' # PUNC '':'' # tl (tl (print_event (ra_tool_pattern r) (ra_event_subtype r))) @ ?trace"
      using t2(2) by (simp add: print_event_def)
    then have len: "length t2 = Suc (Suc (length (tl (tl (print_event (ra_tool_pattern r) (ra_event_subtype r))) @ ?trace)))"
      by (auto dest: length_kinds)
    show "reads (parse_event_match n) q (ra_tool_pattern r, ra_event_subtype r) ?trace"
      if "map fst q = tl (tl (print_event (ra_tool_pattern r) (ra_event_subtype r))) @ ?trace" for q
      using that n t2(1) len length_kinds [OF that] by (intro read_event [OF wfs(1)]) auto
  qed
  then obtain t3 where t3: "optional_key ''ON'' (''*'', []) (parse_event_match n) t2 =
      Inr ((ra_tool_pattern r, ra_event_subtype r), t3)" "map fst t3 = ?trace"
    by (auto dest: readsD)
  have len: "length ?trace < length toks" using t2 length_kinds [OF t2(2)] by (simp add: print_event_def)
  have "reads (optional_key ''TRACE'' None
      (\<lambda>q. ebind (parse_trace_clause n q) (\<lambda>(c, q'). Inr (Some c, q')))) t3 (ra_trace_clause r) ?cond"
  proof (cases "ra_trace_clause r")
    case None
    obtain w rest where "?cond = KW w # rest" "w \<noteq> ''TRACE''" by (cases "ra_expr r = TrueExpr") (simp_all add: print_condition_def)
    then show ?thesis using t3(2) None optional_absent [of t3 w rest] by (simp add: print_trace_def)
  next
    case (Some steps)
    show ?thesis
    proof (rule optional_present)
      show "map fst t3 = KW ''TRACE'' # PUNC '':'' # tl (tl (print_trace (Some steps))) @ ?cond"
        using t3(2) by (simp add: Some print_trace_def)
      show "reads (\<lambda>q. ebind (parse_trace_clause n q) (\<lambda>(c, q'). Inr (Some c, q'))) q (ra_trace_clause r) ?cond"
        if "map fst q = tl (tl (print_trace (Some steps))) @ ?cond" for q
      proof -
        have "head ?cond \<noteq> PUNC ''->''" by (simp add: print_condition_def)
        moreover have "length q < n"
          using length_kinds [OF that] len n by (simp add: Some print_trace_def)
        ultimately show ?thesis
          using read_trace_clause [OF wfs(4) [OF Some] that, of n] by (auto simp: reads_def Some)
      qed
    qed
  qed
  then obtain t4 where t4: "optional_key ''TRACE'' None
      (\<lambda>q. ebind (parse_trace_clause n q) (\<lambda>(c, q'). Inr (Some c, q'))) t3 = Inr (ra_trace_clause r, t4)"
      "map fst t4 = ?cond" by (auto dest: readsD)
  have "reads (optional_key ''CONDITION'' TrueExpr (parse_or E n)) t4 (ra_expr r) ?policy"
  proof (cases "ra_expr r = TrueExpr")
    case True
    then have "map fst t4 = ?policy" using t4(2) by (simp add: print_condition_def)
    then show ?thesis unfolding True by (rule optional_absent) simp
  next
    case False
    show ?thesis
    proof (rule optional_present)
      show "map fst t4 = KW ''CONDITION'' # PUNC '':'' # print_expr (ra_expr r) @ ?policy"
        using t4(2) False by (simp add: print_condition_def)
      show "reads (parse_or E n) q (ra_expr r) ?policy" if "map fst q = print_expr (ra_expr r) @ ?policy" for q
        using length_kinds [OF that] len n False
        by (intro read_condition [OF wfs(5) that]) (simp_all add: expr_end_def value_end_def print_condition_def)
    qed
  qed
  then obtain t5 where t5: "optional_key ''CONDITION'' TrueExpr (parse_or E n) t4 = Inr (ra_expr r, t5)"
      "map fst t5 = ?policy" by (auto dest: readsD)
  obtain d e t6 where t6: "t5 = (KW ''POLICY'', d) # (PUNC '':'', e) # t6" "map fst t6 = ?act"
    using t5(2) by (auto simp: kinds_Cons)
  have "head ?meta \<notin> {PUNC '','', KW ''WITH''}"
    using ends by (cases "ra_meta r") (auto simp: print_meta_def rule_end_def)
  moreover have "8 * length t6 \<le> n" using length_kinds [OF t6(2)] len n by simp
  ultimately obtain t7 where t7: "parse_action n t6 = Inr (ra_action r, t7)" "map fst t7 = ?meta"
    using read_action [OF wfs(2) t6(2)] by (auto dest: readsD)
  have "8 * length t7 + 3 \<le> n" using length_kinds [OF t7(2)] len n by simp
  then obtain t8 where t8: "parse_meta n [] t7 = Inr (ra_meta r, t8)" "map fst t8 = ks"
    using read_meta [OF t7(2) ends wfs(3), of "[]" n] by (auto dest: readsD)
  have "require_key ''POLICY'' t5 = Inr ((), t6)" by (simp add: require_key_def accept_key_kinds t6(1))
  moreover have "ra_source r = []" "ra_source_block r = []" using wf by (simp_all add: wf_rule_def)
  ultimately show ?thesis
    using t3(1) t4(1) t5(1) t7(1) t8 by (simp add: reads_def parse_rule_def t2(1) eat_def eat_ident_def)
qed

lemma read_rules:
  assumes "list_all wf_rule rules" and "map fst toks = concat (map print_rule rules) @ [EOF]"
    and "8 * length toks \<le> n" and "length rules < k"
  shows "parse_rules_from E n k toks = Inr rules"
  using assms
proof (induction rules arbitrary: k toks)
  case Nil
  then show ?case by (cases k) (auto simp: kinds_Cons)
next
  case (Cons r rules)
  obtain j where k: "k = Suc j" using Cons.prems by (cases k) auto
  let ?rest = "concat (map print_rule rules) @ [EOF]"
  have toks: "map fst toks = print_rule r @ ?rest" using Cons.prems(2) by simp
  have "rule_end ?rest" by (cases rules) (simp_all add: rule_end_def print_rule_def)
  then obtain q where q: "parse_rule E n toks = Inr (r, q)" "map fst q = ?rest"
    using read_rule [OF _ toks, of n E] Cons.prems by (auto dest: readsD)
  have "peek toks \<noteq> EOF" using kinds(1) [OF toks] by (simp add: print_rule_def)
  moreover have "parse_rules_from E n j q = Inr rules"
    using Cons.prems k q(2) length_kinds [OF toks] length_kinds [OF q(2)] by (intro Cons.IH) auto
  ultimately show ?case using q(1) by (simp add: k)
qed

text \<open>Rules are read back from their tokens, and from their text when its words can be spelled.\<close>

lemma parse_printed:
  assumes "list_all wf_rule rules" and "map fst toks = concat (map print_rule rules) @ [EOF]"
  shows "parse_tokens E toks = Inr rules"
proof -
  have "length rules \<le> length (concat (map print_rule rules))"
    by (induction rules) (auto simp: print_rule_def)
  then show ?thesis
    using assms length_kinds [OF assms(2)] unfolding parse_tokens_def parse_fuel_def
    by (intro read_rules) auto
qed

lemma parse_rendered:
  assumes "list_all wf_rule rules" and "list_all lexical (concat (map print_rule rules))"
  defines "src \<equiv> render (concat (map print_rule rules))"
  shows "parse_rule_source E src = Inr (attach_sources src rules)"
proof -
  obtain toks where "tokenize src = Inr toks" "map fst toks = concat (map print_rule rules) @ [EOF]"
    using tokenize_rendered [OF assms(2), of 0]
    by (cases "tokenize src") (auto simp: tokenize_def src_def)
  then show ?thesis using parse_printed [OF assms(1)] by (simp add: parse_rule_source_def)
qed

end
