(* ===== verification/Policy_Properties.thy ===== *)
theory Policy_Properties
  imports Sample Guard_Machine Parsed_Rules Rule_Printer Parser_Bounds
begin

text \<open>
  What the policy side guarantees: how rule text becomes rules, what the conditions of a rule mean,
  which rules an agent is judged by, and how the decision is taken.  Each property with hypotheses
  is followed by an example that applies it.
\<close>

subsection \<open>Guards of the examples\<close>

text \<open>A guard without built-in rules whose default pack holds the given rules.\<close>

definition bare_guard :: guard_rules where
  "bare_guard = \<lparr>gr_registry = \<lparr>rr_router = snd (replace_pack_rules default_pack_id [] [] False
       (snd (replace_pack_rules builtin_pack_id [] ''builtin'' False (new_router True)))),
     rr_version = 0\<rparr>, gr_eval = new_evaluator [] ''v1'' True, gr_builtin_on = False, gr_user_source = None\<rparr>"

definition guard_with :: "compiled_rule list \<Rightarrow> guard_rules" where
  "guard_with rules = with_router
     (snd (replace_pack_rules default_pack_id rules ''api'' True (gr_router bare_guard))) bare_guard"

lemma bare_guard_reach: "guard_reach bare_guard"
proof -
  have "new_guard sample_ext \<lparr>fs_dir = \<lambda>_. None, fs_file = \<lambda>_. None\<rparr> (OneSource []) False None [] [] = Inr bare_guard"
    by (simp add: new_guard_def load_rules_def load_packs_def bare_guard_def source_str_def Let_def)
  then show ?thesis by (rule reach_new)
qed

lemma guard_with_reach: "guard_reach (guard_with rules)"
proof -
  obtain p where "replace_rule_pack_rules default_pack_id rules ''api'' (Some True) bare_guard =
      Inr (p, guard_with rules)"
    by (simp add: replace_rule_pack_rules_def replace_pack_rules_def guard_with_def managed_flag_def
        default_pack_id_def builtin_pack_id_def Let_def)
  then show ?thesis by (rule reach_next [OF bare_guard_reach step_replace])
qed

lemma guard_with_router:
  "gr_router (guard_with rules) = \<lparr>rt_packs =
      [(builtin_pack_id, \<lparr>rp_pack_id = builtin_pack_id, rp_rules = [], rp_source = ''builtin'', rp_user_managed = False\<rparr>),
       (default_pack_id, \<lparr>rp_pack_id = default_pack_id, rp_rules = rules, rp_source = ''api'', rp_user_managed = True\<rparr>)],
     rt_bindings = no_bindings, rt_default_when_unbound = True, rt_cache = []\<rparr>"
  by (simp add: guard_with_def bare_guard_def gr_router_def with_router_def replace_pack_rules_def
      upsert_pack_def new_router_def default_pack_id_def builtin_pack_id_def Let_def)




subsection \<open>Deciding\<close>



text \<open>The risk score of a decision lies between 0 and 1 and never falls when more rules match.\<close>

theorem risk_score_bounded_monotone:
  assumes "length xs \<le> length ys"
  shows "0 \<le> risk_score ev xs \<and> risk_score ev xs \<le> risk_score ev ys \<and> risk_score ev ys \<le> 1"
  using risk_score_bounds [of ev] risk_score_mono [OF assms] by blast

lemma risk_score_bounded_monotone_example:
  "risk_score sample_event [''a''] \<le> risk_score sample_event [''a'', ''b'']"
  using risk_score_bounded_monotone [of "[''a'']" "[''a'', ''b'']" sample_event] by simp

subsection \<open>Packs and bindings\<close>

text \<open>An agent is judged by the built-in pack first, then by the packs bound to it that exist, each
  once; the default pack counts when none but the built-in one is bound and the router allows it.\<close>

theorem agent_scope:
  assumes "router_ok rt"
  shows "distinct (packs_for_agent a rt) \<and>
    set (packs_for_agent a rt) = ({builtin_pack_id} \<inter> known_packs rt) \<union> bound_packs a rt \<union>
      (if bound_packs a rt \<subseteq> {builtin_pack_id} \<and> rt_default_when_unbound rt
       then {default_pack_id} \<inter> known_packs rt else {}) \<and>
    (builtin_pack_id \<in> known_packs rt \<longrightarrow> hd (packs_for_agent a rt) = builtin_pack_id)"
  using distinct_packs_for_agent set_packs_for_agent [OF assms, of a] builtin_first [of rt a] by force

lemma agent_scope_example:
  "hd (packs_for_agent ''a1'' (sample_router [])) = builtin_pack_id"
  using agent_scope [OF sample_router_ok, of "''a1''" "[]"]
  by (simp add: known_packs_def sample_router_value get_pack_def)

text \<open>In a merge the last rule of an id wins and nothing else is dropped: a later pack replaces a
  built-in rule by reusing its id.\<close>

theorem last_rule_of_an_id_wins:
  "(r \<in> set (merge_rules rules) \<longleftrightarrow> find (\<lambda>x. cr_rule_id x = cr_rule_id r) (rev rules) = Some r) \<and>
   cr_rule_id ` set (merge_rules rules) = cr_rule_id ` set rules \<and>
   distinct (map cr_rule_id (merge_rules rules))"
  using merge_rules_lookup [of "cr_rule_id r" rules r] merge_rules_ids distinct_merge_rules by blast

text \<open>C21: The two-index binding store implements a relation: after any sequence of operations both indexes
  are the two projections of the relation that sequence builds from the empty one.\<close>

theorem binding_store_is_a_relation:
  "packs_of (foldl run_binding no_bindings xs) a = {p. (a, p) \<in> foldl run_relation {} xs} \<and>
   agents_of (foldl run_binding no_bindings xs) p = {b. (b, p) \<in> foldl run_relation {} xs}"
proof -
  let ?s = "foldl run_binding no_bindings xs"
  have "mb.rel no_bindings = {}" by (simp add: mb.rel_def no_bindings_def packs_of_def members_def)
  then have s: "bindings_ok ?s" "mb.rel ?s = foldl run_relation {} xs"
    using run_bindings_relation [OF bindings_ok_empty, of xs] by simp_all
  show ?thesis using mb.agents_rel [OF s(1)] unfolding s(2) [symmetric] by (auto simp: mb.rel_def)
qed

subsection \<open>Managing rules\<close>

text \<open>C35: A reload whose built-in rules load and whose user rules do not has already replaced the built-in
  pack, but an agent whose rules were looked up before is still judged by the rules of then.\<close>

theorem failed_reload_keeps_old_decisions:
  assumes "load_rules E fs True (Some bdir) = Inr builtin"
    and "load_rules E fs False (Some src) = Inl e" and "fe_routed (gr_eval g)"
    and "map_of (fe_agent_views (gr_eval g)) (p_agent_id (ev_principal ev)) = Some view"
  shows "let (answer, g') = reload_rules E fs bdir (Some src) (Some True) um g
     in answer = Inl e \<and> map_option rp_rules (get_pack builtin_pack_id (gr_router g')) = Some builtin \<and>
        fst (guard_evaluate E ev f g') = fst (guard_evaluate E ev f g)"
  using reload_failed(1,2) [OF assms(1,2), of um g] reload_failed_stale [OF assms, of f um]
  by (auto split: prod.splits)

lemma evaluated_view:
  assumes "fe_routed (gr_eval g)" and "ev_tool_call ev = Some tc"
  shows "\<exists>view. map_of (fe_agent_views (gr_eval (snd (guard_evaluate E ev f g)))) (p_agent_id (ev_principal ev)) = Some view"
  using assms by (auto simp: guard_evaluate_def evaluate_def view_for_def Let_def split: option.splits prod.splits)

definition lost_files :: file_system where
  "lost_files = \<lparr>fs_dir = (\<lambda>d. if d = ''builtin'' then Some [] else None), fs_file = (\<lambda>_. None)\<rparr>"

lemma lost_files_loads:
  "load_rules E lost_files True (Some (OneSource ''builtin'')) = Inr []"
  "load_rules E lost_files False (Some (OneSource ''user.rules'')) = Inl (ExternalError ''FileNotFoundError'')"
  by (simp_all add: load_rules_def source_list_def read_source_def strip_file_prefix_def lost_files_def
      starts_with_def ends_with_def compile_rules_def parse_rules_def compile_all_def newline_def Let_def)

lemma failed_reload_keeps_old_decisions_example:
  "let g = snd (guard_evaluate sample_ext sample_event [] (guard_with [sample_rule ''r'' ''shell.*'' DENY]));
       (answer, g') = reload_rules sample_ext lost_files (OneSource ''builtin'')
         (Some (OneSource ''user.rules'')) (Some True) None g
   in fst (guard_evaluate sample_ext sample_event [] g') = fst (guard_evaluate sample_ext sample_event [] g)"
proof -
  let ?g = "guard_with [sample_rule ''r'' ''shell.*'' DENY]"
  have live: "guard_live (snd (guard_evaluate sample_ext sample_event [] ?g))" "guard_live ?g"
    by (rule guard_reach_live [OF reach_next [OF guard_with_reach step_evaluate]],
        rule guard_reach_live [OF guard_with_reach])
  then have routed: "fe_routed (gr_eval (snd (guard_evaluate sample_ext sample_event [] ?g)))" "fe_routed (gr_eval ?g)"
    by (simp_all add: guard_live_def)
  obtain view where "map_of (fe_agent_views (gr_eval (snd (guard_evaluate sample_ext sample_event [] ?g))))
      (p_agent_id (ev_principal sample_event)) = Some view"
    using evaluated_view [OF routed(2) sample_event_call(1), of sample_ext "[]"] by blast
  from failed_reload_keeps_old_decisions [OF lost_files_loads routed(1) this,
      where um = None and f = "[]" and E = sample_ext]
  show ?thesis by (auto simp: Let_def split: prod.splits)
qed

text \<open>Removing a rule that two packs carry reports success and leaves the rule active: only the copy in
  the first pack is deleted.\<close>

theorem removed_rule_stays_active:
  assumes "packs_ok (gr_router g)" and "get_pack a (gr_router g) = Some pa" "has_rule k pa"
    and "get_pack b (gr_router g) = Some pb" "has_rule k pb" "a \<noteq> b"
  shows "fst (remove_rule k g) \<and> k \<in> cr_rule_id ` set (active_rules (snd (remove_rule k g)))"
  using remove_rule_other_pack [OF assms] by blast

lemma removed_rule_stays_active_example:
  "''r'' \<in> cr_rule_id ` set (active_rules (snd (remove_rule ''r'' (with_router
     (snd (replace_pack_rules ''p2'' [sample_rule ''r'' ''*'' DENY] ''api'' True
       (gr_router (guard_with [sample_rule ''r'' ''*'' DENY])))) bare_guard))))"
proof -
  let ?g = "with_router (snd (replace_pack_rules ''p2'' [sample_rule ''r'' ''*'' DENY] ''api'' True
       (gr_router (guard_with [sample_rule ''r'' ''*'' DENY])))) bare_guard"
  have "packs_ok (gr_router ?g)"
    by (simp add: packs_ok_def replace_pack_rules_def upsert_pack_def guard_with_router
        builtin_pack_id_def default_pack_id_def Let_def)
  moreover obtain pa where "get_pack default_pack_id (gr_router ?g) = Some pa" "has_rule ''r'' pa"
    by (simp add: get_pack_def replace_pack_rules_def upsert_pack_def guard_with_router has_rule_def
        builtin_pack_id_def default_pack_id_def Let_def)
  moreover obtain pb where "get_pack ''p2'' (gr_router ?g) = Some pb" "has_rule ''r'' pb"
    by (simp add: get_pack_def replace_pack_rules_def upsert_pack_def guard_with_router has_rule_def
        builtin_pack_id_def default_pack_id_def Let_def)
  ultimately show ?thesis
    using removed_rule_stays_active [of ?g default_pack_id pa "''r''" "''p2''" pb]
    by (simp add: default_pack_id_def)
qed

subsection \<open>Rule text\<close>

text \<open>C7: Rule text written by the printer is read back as the same rules, in order, with the text and its
  blocks attached: tokenizer, expression parser and rule parser together invert the printer on every
  well-formed rule without floating-point literals.\<close>

theorem printed_rules_read_back:
  assumes "list_all wf_rule rules" and "list_all lexical (concat (map print_rule rules))"
  shows "let src = render (concat (map print_rule rules))
     in parse_rule_source E src = Inr (attach_sources src rules)"
  using parse_rendered [OF assms, of E] by simp

definition written_rule :: rule_ast where
  "written_rule = \<lparr>ra_rule_id = ''no_leak'', ra_tool_pattern = ''email.*'',
     ra_expr = BoolOp ''AND'' (Compare (APath [''principal'', ''role'']) ''=='' (AStr ''guest''))
       (NotOp (Compare (APath [''tool'', ''sink_type'']) ''IN'' (ASet [''none'']))),
     ra_action = \<lparr>aa_kind = ''DENY'', aa_profile = None, aa_obligations = []\<rparr>,
     ra_event_subtype = ''requested'', ra_source = [], ra_source_block = [],
     ra_meta = [(''severity'', AStr ''high'')], ra_trace_clause = Some [(''a'', []), (''b'', ''-> *'')]\<rparr>"

lemma printed_rules_read_back_example:
  "let src = render (print_rule written_rule)
   in parse_rule_source sample_ext src = Inr (attach_sources src [written_rule])"
proof -
  have "list_all wf_rule [written_rule]" by code_simp
  moreover have "list_all lexical (concat (map print_rule [written_rule]))" by code_simp
  ultimately show ?thesis using printed_rules_read_back [of "[written_rule]" sample_ext] by simp
qed

text \<open>C24: Reading rule text always ends, with rules or with a reported error: no source exhausts the rounds
  the model grants the parser's loops and nested calls, eight for each token.\<close>

theorem reading_ends:
  "parse_rule_source E src \<noteq> Inl RecursionError"
  by (rule parse_rule_source_ends)

text \<open>Every rule the parser accepts compiles: a source that parses is loaded completely, one compiled
  rule for each written one, in order, with its id, tool pattern, phase, metadata and action.\<close>

theorem parsed_rules_compile:
  assumes "parse_rules E sources = Inr asts"
  shows "\<exists>rules. compile_rules E sources = Inr rules \<and> list_all2 same_rule asts rules"
  using compile_all_known [OF parse_rules_known [OF assms], of E "''v1''"] assms
  by (auto simp: compile_rules_def)

lemma parsed_rules_compile_example:
  "\<exists>rules. compile_rules sample_ext [''RULE: r ON: tool_call(shell.*) POLICY: DENY''] = Inr rules \<and>
     map cr_rule_id rules = [''r'']"
proof -
  have "parse_rules sample_ext [''RULE: r ON: tool_call(shell.*) POLICY: DENY''] =
      Inr [(sample_ast ''r'' ''shell.*'' ''DENY'')
        \<lparr>ra_source := ''RULE: r ON: tool_call(shell.*) POLICY: DENY'',
         ra_source_block := ''RULE: r ON: tool_call(shell.*) POLICY: DENY''\<rparr>]"
    by code_simp
  from parsed_rules_compile [OF this] show ?thesis
    by (auto simp: same_rule_def sample_ast_def list_all2_Cons1)
qed

subsection \<open>Conditions\<close>

text \<open>C12: The regular expression a trace pattern compiles to, searched over the comma-joined tool names,
  decides exactly whether the steps embed into the sequence in order with the gaps the separators
  allow.\<close>

theorem trace_pattern_is_embedding:
  assumes "trace_tokenize pattern = Inr steps" and "list_all plain_name sequence"
  shows "match_trace pattern sequence = Inr (trace_spec steps sequence)"
  using assms by (rule trace_pattern_correct)

lemma trace_pattern_is_embedding_example:
  "match_trace ''db.read -> email.send'' [''db.read'', ''fs.write'', ''email.send''] = Inr False"
proof -
  have steps: "trace_tokenize ''db.read -> email.send'' = Inr [(''db.read'', []), (''email.send'', ''->'')]"
    by code_simp
  have "list_all plain_name [''db.read'', ''fs.write'', ''email.send'']" by code_simp
  moreover have "\<not> trace_spec [(''db.read'', []), (''email.send'', ''->'')] [''db.read'', ''fs.write'', ''email.send'']"
    by (auto simp: trace_spec_Cons sep_allows_def less_Suc_eq)
  ultimately show ?thesis using trace_pattern_is_embedding [OF steps] by simp
qed

text \<open>A rule with a TRACE clause can only hold where the clause embeds into the recorded trace followed
  by the call being judged; elsewhere its condition is false, whatever it says.\<close>

theorem trace_clause_gates:
  assumes "clause \<noteq> []" and "feat f ''session.trace_rich'' = VList rich"
    and "\<nexists>ps. embeds clause (Suc (length rich)) ps"
  shows "wrap_trace_predicate clause inner ev f = Inr False"
proof -
  have "py_iter (py_or (VList rich) (VList [])) = Inr rich" by (cases rich) (simp_all add: py_or_def)
  moreover have "match_with_bindings clause (rich @ [current_entry ev]) = None"
    using assms(3) match_with_bindings_None_iff [OF assms(1), of "rich @ [current_entry ev]"] by simp
  ultimately show ?thesis by (simp add: wrap_trace_predicate_def assms(2))
qed

lemma trace_clause_gates_example:
  "wrap_trace_predicate [(''A'', []), (''B'', ''->'')] (\<lambda>_ _. Inr True) sample_event
     [(''session.trace_rich'', VList [])] = Inr False"
proof -
  have "\<nexists>ps. embeds [(''A'', []), (''B'', ''->'')] (Suc (length ([] :: pyval list))) ps"
    by (auto simp: sep_allows_def split: list.splits)
  then show ?thesis
    by (intro trace_clause_gates [of _ _ "[]"]) (simp_all add: feat_def dict_getd_def)
qed

text \<open>In a compiled TRACE clause the separator \<open>-> ...?\<close> means \<open>->\<close> and
  \<open>-> ...\<close> means \<open>-> *\<close>: the clause that is written with long gaps holds for the same traces, with the same
  bindings, as the one without them.\<close>

theorem long_gaps_collapse:
  "wrap_trace_predicate (shorten_gaps clause) inner ev f = wrap_trace_predicate clause inner ev f"
  by (simp add: wrap_trace_shorten_gaps)

text \<open>Path lookup is total: the mutually recursive resolver and feature lookup agree, for every path,
  with a specification that reads the event's fields, then the features, and yields None for a path
  neither knows, instead of recursing until the stack is gone.\<close>

theorem path_lookup_total:
  "resolve_path E parts ev f = resolve_spec E parts ev f \<and> lookup_ref E parts ev f = lookup_spec E parts ev f"
  by (simp add: resolve_path_closed lookup_ref_closed)

text \<open>A condition that asks whether a list or a dictionary is in a set literal raises, and a raising
  condition counts as false: a DENY rule with it is skipped, not enforced.\<close>

theorem unhashable_needle_skips_rule:
  assumes "resolve_path E parts ev f = Inr v" and "\<not> py_hashable v" "\<And>xs. v \<noteq> VSet xs"
    and "cr_predicate r = fst (compile_expr E rid phs (Compare (APath parts) ''IN'' (ASet items)))"
  shows "cr_predicate r ev f = Inl TypeError \<and> \<not> rule_hits ev f r"
proof -
  have "cr_predicate r ev f = Inl TypeError"
    using assms(1-3)
    by (simp add: assms(4) compile_compare_def resolve_left_def resolve_value_def apply_op_def
        op_in_unhashable py_set_of_def list_all_iff)
  then show ?thesis by (simp add: rule_hits_def)
qed

lemma unhashable_needle_skips_rule_example:
  "\<not> rule_hits (sample_event\<lparr>ev_tool_call := Some (mk_tool_call ''mail'' [(''to'', VList [VStr ''x''])])\<rparr>) []
     ((sample_rule ''r'' ''*'' DENY)\<lparr>cr_predicate := fst (compile_expr sample_ext ''r'' []
        (Compare (APath [''args'', ''to'']) ''IN'' (ASet [''x''])))\<rparr>)"
proof -
  let ?ev = "sample_event\<lparr>ev_tool_call := Some (mk_tool_call ''mail'' [(''to'', VList [VStr ''x''])])\<rparr>"
  have "resolve_path sample_ext [''args'', ''to''] ?ev [] = Inr (VList [VStr ''x''])"
    unfolding resolve_path_closed by code_simp
  from unhashable_needle_skips_rule [OF this] show ?thesis by simp
qed

text \<open>A tool pattern of plain characters and a final star matches exactly the names it is a prefix of,
  and one without a star exactly itself.\<close>

theorem tool_patterns_match_prefixes:
  assumes "literal_pattern p"
  shows "(matches_tool (r\<lparr>cr_tool_pattern := p @ ''*''\<rparr>) t \<longleftrightarrow> starts_with t p) \<and>
    (matches_tool (r\<lparr>cr_tool_pattern := p\<rparr>) t \<longleftrightarrow> t = p)"
  using fn_match_literal_star [OF assms] fn_match_literal [OF assms] literal_pattern_not_star [OF assms]
  by (auto simp: matches_tool_def starts_with_def)

lemma tool_patterns_match_prefixes_example:
  "matches_tool ((sample_rule ''r'' [] DENY)\<lparr>cr_tool_pattern := ''email.*''\<rparr>) ''email.send''"
proof -
  have "literal_pattern ''email.''" by code_simp
  from tool_patterns_match_prefixes [OF this, of "sample_rule ''r'' [] DENY" "''email.send''"]
  show ?thesis by (simp add: starts_with_def)
qed

end
