(* ===== verification/Validator.thy ===== *)
theory Validator
  imports Parsed_Rules
begin

text \<open>
  The rule validator (\<open>policy/dsl/validator.py\<close>).  A diagnostic has a level, the rule it is about, a
  line, and a notice: a constructor for every message of the source with the values the message and
  its suggestion are formatted from.  The checks append to one list, so each returns what it adds.
\<close>

subsection \<open>Knowledge tables\<close>

definition valid_boundaries :: "string list" where
  "valid_boundaries = [''internal'', ''external'', ''privileged'']"

definition valid_sensitivities :: "string list" where
  "valid_sensitivities = [''low'', ''moderate'', ''high'']"

definition valid_integrities :: "string list" where
  "valid_integrities = [''trusted'', ''unfiltered'']"

definition known_prefixes :: "string list" where
  "known_prefixes = [''tool'', ''caller'', ''principal'', ''target'', ''input'', ''event'', ''session'', ''allowlist'']"

definition known_funcs :: "string list" where
  "known_funcs =
     [''trace'', ''exists_path'', ''upstream_contains_tool'', ''upstream_contains_any_tool'',
      ''derived_from_tool'', ''tool_sequence_matches'', ''goal_drift_detected'', ''scope_expansion_detected'',
      ''suspicious_exfil_pattern'', ''high_entropy_payload_detected'', ''goal_changed_from_initial'',
      ''repeated_attempts'', ''whitelist'', ''history_arg'', ''history_result'', ''history_args_match'']"

definition valid_severities :: "string list" where
  "valid_severities = [''critical'', ''high'', ''medium'', ''low'', ''info'']"

subsection \<open>Diagnostics\<close>

datatype diag_level = LevelError | LevelWarning | LevelHint

datatype parse_help =
    RuleStart | RuleColon | BadCharacter string | UnterminatedString | NeedsIn | TraceSyntax
  | OnePlaceholder | NeedsPolicy | QuickReference

datatype compile_help = ValidActions | UnsupportedNode | ReviewCondition

datatype notice =
    ParseError string parse_help
  | CompileError string compile_help
  | DuplicateRuleId
  | UnusualRuleId
  | NoSeverity
  | UnknownSeverity string
  | NoCategory
  | DegradeWithoutProfile
  | LlmCheckNeedsKey
  | PromptUnused
  | TraceWithoutCondition string string
  | DuplicatePlaceholders "string set"
  | UnknownSeparator string
  | PathWithoutLabels
  | BareIdentifier string
  | PlaceholderAlone string
  | PlaceholderArgument string string
  | InvalidValue string string
  | UnusualValue string string
  | AllowlistAlone
  | UnknownPrefix string
  | HistoryInTrace string string
  | NoArguments string
  | HistoryNeedsTwo string
  | HistoryResultNeedsOne
  | TraceWithoutPattern
  | InvalidTracePattern string py_exc
  | UnknownFunction string
  | NoRules
  | NoDenyRules
  | FileNotFound string

record diagnostic =
  dg_level :: diag_level
  dg_rule_id :: "string option"
  dg_notice :: notice
  dg_line :: "nat option"

record validation_report =
  vr_diagnostics :: "diagnostic list"
  vr_rule_count :: nat
  vr_source_file :: string

definition of_level :: "diag_level \<Rightarrow> validation_report \<Rightarrow> diagnostic list" where
  "of_level l rep = filter (\<lambda>d. dg_level d = l) (vr_diagnostics rep)"

definition report_ok :: "validation_report \<Rightarrow> bool" where
  "report_ok rep \<longleftrightarrow> of_level LevelError rep = []"

text \<open>The groups of the summary: the diagnostics of each rule, rules in order of appearance.\<close>

definition by_rule :: "validation_report \<Rightarrow> (string option, diagnostic list) dict" where
  "by_rule rep = foldl (\<lambda>d x. dict_set (dg_rule_id x) (dict_getd d (dg_rule_id x) [] @ [x]) d)
     [] (vr_diagnostics rep)"

definition about :: "string \<Rightarrow> diag_level \<Rightarrow> notice \<Rightarrow> diagnostic" where
  "about rule_id l n = \<lparr>dg_level = l, dg_rule_id = Some rule_id, dg_notice = n, dg_line = None\<rparr>"

subsection \<open>Lines and help for errors\<close>

fun build_line_map :: "nat \<Rightarrow> string \<Rightarrow> nat list" where
  "build_line_map k [] = [k]"
| "build_line_map k (c # s) = k # build_line_map (if c = newline then Suc k else k) s"

text \<open>\<open>re.search(r"at pos (\d+)", msg)\<close>.\<close>

fun find_pos :: "string \<Rightarrow> nat option" where
  "find_pos [] = None"
| "find_pos (c # s) =
     (let digits = takeWhile is_digit (drop 7 (c # s))
      in if starts_with (c # s) ''at pos '' \<and> digits \<noteq> [] then Some (nat_of_digits digits) else find_pos s)"

definition guess_line_from_pos :: "string \<Rightarrow> nat list \<Rightarrow> nat option" where
  "guess_line_from_pos msg line_map =
     (case find_pos msg of
        None \<Rightarrow> None
      | Some pos \<Rightarrow> if pos < length line_map then Some (line_map ! pos) else None)"

text \<open>\<open>(.+?)\<close> up to a text, on one line; and the search for it after a marker.\<close>

fun lazy_until :: "string \<Rightarrow> string \<Rightarrow> string option" where
  "lazy_until stop [] = None"
| "lazy_until stop (c # s) =
     (if c = newline then None else if starts_with s stop then Some [c]
      else map_option ((#) c) (lazy_until stop s))"

fun search_after :: "string \<Rightarrow> string \<Rightarrow> string \<Rightarrow> string option" where
  "search_after marker stop [] = None"
| "search_after marker stop (c # s) =
     (case (if starts_with (c # s) marker then lazy_until stop (drop (length marker) (c # s)) else None) of
        Some x \<Rightarrow> Some x | None \<Rightarrow> search_after marker stop s)"

definition parse_error_suggestion :: "string \<Rightarrow> parse_help" where
  "parse_error_suggestion msg =
     (let low = str_lower msg
      in if str_contains low ''expected kw/rule'' \<or> str_contains low ''expected rule'' then RuleStart
         else if str_contains low ''expected punc/:'' then RuleColon
         else if str_contains low ''unexpected character'' then
           BadCharacter (case search_after ''unexpected character '' '' at pos'' msg of None \<Rightarrow> ''?'' | Some ch \<Rightarrow> ch)
         else if str_contains low ''unterminated string'' then UnterminatedString
         else if str_contains low ''expected kw/in'' then NeedsIn
         else if str_contains low (''expected '' @ squote # ''->'' @ squote # ''  after'') \<or> str_contains low ''trace''
           then TraceSyntax
         else if str_contains low ''at least one placeholder'' then OnePlaceholder
         else if str_contains low ''policy'' then NeedsPolicy
         else QuickReference)"

definition compile_error_suggestion :: "string \<Rightarrow> compile_help" where
  "compile_error_suggestion msg =
     (let low = str_lower msg
      in if str_contains low ''unknown action'' then ValidActions
         else if str_contains low ''unsupported expression'' then UnsupportedNode else ReviewCondition)"

subsection \<open>Checks on conditions\<close>

definition check_enum_value :: "dsl_value \<Rightarrow> string list \<Rightarrow> string \<Rightarrow> string \<Rightarrow> diagnostic list" where
  "check_enum_value v valid field rule_id =
     (let candidates = (case v of AStr s \<Rightarrow> [str_lower s] | APath [w] \<Rightarrow> [str_lower w]
                        | ASet items \<Rightarrow> map str_lower items | _ \<Rightarrow> [])
      in map (\<lambda>c. about rule_id LevelWarning (InvalidValue c field)) (filter (\<lambda>c. c \<notin> set valid) candidates))"

definition check_string_value :: "dsl_value \<Rightarrow> string list \<Rightarrow> string \<Rightarrow> string \<Rightarrow> diagnostic list" where
  "check_string_value v valid field rule_id =
     (case (case v of AStr s \<Rightarrow> Some s | APath [w] \<Rightarrow> Some w | _ \<Rightarrow> None) of
        None \<Rightarrow> []
      | Some raw \<Rightarrow>
          if raw \<noteq> [] \<and> raw \<notin> set valid then [about rule_id LevelHint (UnusualValue raw field)] else [])"

definition check_trace_pattern_string :: "string \<Rightarrow> string \<Rightarrow> diagnostic list" where
  "check_trace_pattern_string pat rule_id =
     (case compile_trace_pattern pat of
        Inl e \<Rightarrow> [about rule_id LevelError (InvalidTracePattern pat e)] | Inr _ \<Rightarrow> [])"

definition check_placeholder :: "string list \<Rightarrow> string \<Rightarrow> diagnostic list" where
  "check_placeholder parts rule_id =
     (case parts of
        [base] \<Rightarrow> [about rule_id LevelWarning (PlaceholderAlone base)]
      | [base, field] \<Rightarrow>
          if str_lower field \<notin> {''name'', ''integrity'', ''sensitivity'', ''boundary'', ''result'', ''tags''}
          then [about rule_id LevelHint (PlaceholderArgument base field)] else []
      | _ \<Rightarrow> [])"

definition check_path :: "string list \<Rightarrow> string \<Rightarrow> string list \<Rightarrow> string \<Rightarrow> dsl_value \<Rightarrow> diagnostic list" where
  "check_path parts rule_id phs op v =
     (case parts of
        [] \<Rightarrow> []
      | base # rest \<Rightarrow>
          if base \<in> set phs then check_placeholder parts rule_id
          else if base = ''tool'' then
            (case rest of
               [] \<Rightarrow> []
             | field # _ \<Rightarrow>
                 if field = ''boundary'' then check_enum_value v valid_boundaries ''tool.boundary'' rule_id
                 else if field = ''sensitivity''
                   then check_enum_value v valid_sensitivities ''tool.sensitivity'' rule_id
                 else if field = ''integrity''
                   then check_enum_value v valid_integrities ''tool.integrity'' rule_id
                 else [])
          else if base = ''caller'' \<or> base = ''principal'' then
            (if rest \<noteq> [] \<and> hd rest = ''role'' \<and> op = ''==''
             then check_string_value v [''basic'', ''default'', ''privileged'', ''system''] ''principal.role'' rule_id
             else [])
          else if base = ''target'' then []
          else if base = ''allowlist'' then
            (if rest = [] then [about rule_id LevelWarning AllowlistAlone] else [])
          else if base = ''input'' then []
          else if base \<notin> set known_prefixes then [about rule_id LevelWarning (UnknownPrefix base)]
          else [])"

definition check_history_in_trace :: "dsl_func \<Rightarrow> string \<Rightarrow> string list \<Rightarrow> diagnostic list" where
  "check_history_in_trace f rule_id phs =
     (if fc_name f \<in> {''history_arg'', ''history_result''} \<and> phs \<noteq> [] \<and> fc_namespace f = []
      then (case fc_args f of
              AStr tool # _ \<Rightarrow>
                if tool \<noteq> [] then [about rule_id LevelWarning (HistoryInTrace (fc_name f) tool)] else []
            | _ \<Rightarrow> [])
      else [])"

definition check_func_call :: "dsl_func \<Rightarrow> string \<Rightarrow> diagnostic list" where
  "check_func_call f rule_id =
     (let ns = fc_namespace f; name = fc_name f; args = fc_args f;
          full = (if ns = [] then name else ns @ ''.'' @ name)
      in if ns = ''input'' \<and> name \<in> {''has_label'', ''has_any_label''} then
           (if args = [] then [about rule_id LevelWarning (NoArguments full)] else [])
         else if ns \<in> {''caller'', ''principal''} \<and> name = ''scope_missing'' then
           (if args = [] then [about rule_id LevelWarning (NoArguments full)] else [])
         else if name \<in> {''history_arg'', ''history_args_match''} then
           (if length args < 2 then [about rule_id LevelError (HistoryNeedsTwo name)] else [])
         else if name = ''history_result'' then
           (if args = [] then [about rule_id LevelError HistoryResultNeedsOne] else [])
         else if name = ''trace'' \<and> ns = [] then
           (case args of
              [] \<Rightarrow> [about rule_id LevelError TraceWithoutPattern]
            | AStr pat # _ \<Rightarrow> check_trace_pattern_string pat rule_id
            | _ \<Rightarrow> [])
         else if name \<in> {''exists_path'', ''EXISTS_PATH''} then []
         else if ns = [] \<and> name \<notin> set known_funcs then [about rule_id LevelWarning (UnknownFunction name)]
         else [])"

definition check_func :: "dsl_func \<Rightarrow> string \<Rightarrow> string list \<Rightarrow> diagnostic list" where
  "check_func f rule_id phs = check_history_in_trace f rule_id phs @ check_func_call f rule_id"

definition bare_enum_names :: "string list" where
  "bare_enum_names = [''UNFILTERED'', ''TRUSTED'', ''INTERNAL'', ''EXTERNAL'', ''PRIVILEGED'',
     ''LOW'', ''MODERATE'', ''HIGH'', ''NONE'']"

definition check_compare :: "dsl_value \<Rightarrow> string \<Rightarrow> dsl_value \<Rightarrow> string \<Rightarrow> string list \<Rightarrow> diagnostic list" where
  "check_compare left op v rule_id phs =
     (case left of
        APath parts \<Rightarrow> check_path parts rule_id phs op v
      | AFunc f \<Rightarrow> check_func f rule_id phs
      | _ \<Rightarrow> []) @
     (case v of
        APath [bare] \<Rightarrow>
          if str_upper bare \<in> set bare_enum_names then [about rule_id LevelHint (BareIdentifier bare)] else []
      | AFunc f \<Rightarrow> check_func f rule_id phs
      | _ \<Rightarrow> [])"

fun check_expr :: "dsl_expr \<Rightarrow> string \<Rightarrow> string list \<Rightarrow> diagnostic list" where
  "check_expr TrueExpr rule_id phs = []"
| "check_expr (BoolOp op l r) rule_id phs = check_expr l rule_id phs @ check_expr r rule_id phs"
| "check_expr (NotOp e) rule_id phs = check_expr e rule_id phs"
| "check_expr (Compare left op v) rule_id phs = check_compare left op v rule_id phs"
| "check_expr (BareFunc f) rule_id phs = check_func f rule_id phs"
| "check_expr (ExistsPath labels hops sink over) rule_id phs =
     (if labels = [] then [about rule_id LevelWarning PathWithoutLabels] else [])"

subsection \<open>Checks on rules and files\<close>

fun repeated_names :: "string set \<Rightarrow> string list \<Rightarrow> string set" where
  "repeated_names seen [] = {}"
| "repeated_names seen (n # ns) =
     (if n \<in> seen then insert n (repeated_names seen ns) else repeated_names (insert n seen) ns)"

definition check_trace_clause :: "trace_clause \<Rightarrow> string \<Rightarrow> diagnostic list" where
  "check_trace_clause steps rule_id =
     (let names = map fst steps
      in (if length names \<noteq> card (set names)
          then [about rule_id LevelWarning (DuplicatePlaceholders (repeated_names {} names))] else []) @
         map (\<lambda>s. about rule_id LevelError (UnknownSeparator (snd s)))
           (filter (\<lambda>s. snd s \<notin> {''->'', ''-> *'', ''-> ...'', ''-> ...?''}) (tl steps)))"

definition usual_id :: "string \<Rightarrow> bool" where
  "usual_id s \<longleftrightarrow>
     (let ok = (\<lambda>w. w \<noteq> [] \<and> (is_alpha (hd w) \<or> hd w = CHR ''_'') \<and>
           list_all (\<lambda>c. is_alnum c \<or> c = CHR ''_'' \<or> c = CHR ''-'') (tl w))
      in ok s \<or> s \<noteq> [] \<and> last s = newline \<and> ok (butlast s))"

definition check_meta :: "externals \<Rightarrow> rule_ast \<Rightarrow> diagnostic list" where
  "check_meta E ast =
     (let rid = ra_rule_id ast; meta = ra_meta ast
      in (case map_of meta ''severity'' of
            None \<Rightarrow> [about rid LevelHint NoSeverity]
          | Some v \<Rightarrow>
              (let sev = str_lower (ast_str E v)
               in if sev \<notin> set valid_severities then [about rid LevelWarning (UnknownSeverity sev)] else [])) @
         (if map_of meta ''category'' = None then [about rid LevelHint NoCategory] else []))"

definition check_action :: "externals \<Rightarrow> rule_ast \<Rightarrow> diagnostic list" where
  "check_action E ast =
     (let rid = ra_rule_id ast; act = ra_action ast
      in (if aa_kind act = ''DEGRADE'' \<and> (aa_profile act = None \<or> aa_profile act = Some [])
          then [about rid LevelError DegradeWithoutProfile] else []) @
         (if aa_kind act = ''LLM_CHECK'' then [about rid LevelHint LlmCheckNeedsKey]
          else (case map_of (ra_meta ast) ''prompt'' of
                  Some v \<Rightarrow> if str_strip (ast_str E v) \<noteq> [] then [about rid LevelWarning PromptUnused] else []
                | None \<Rightarrow> [])))"

definition check_rule :: "externals \<Rightarrow> string set \<Rightarrow> rule_ast \<Rightarrow> diagnostic list" where
  "check_rule E seen_ids ast =
     (let rid = ra_rule_id ast; steps = (case ra_trace_clause ast of None \<Rightarrow> [] | Some c \<Rightarrow> c)
      in (if rid \<in> seen_ids then [about rid LevelWarning DuplicateRuleId] else []) @
         (if \<not> usual_id rid then [about rid LevelWarning UnusualRuleId] else []) @
         (if ra_trace_clause ast = None then [] else check_trace_clause steps rid) @
         check_expr (ra_expr ast) rid (map fst steps) @ check_meta E ast @ check_action E ast @
         (if ra_trace_clause ast \<noteq> None \<and> ra_expr ast = TrueExpr
          then [about rid LevelHint (TraceWithoutCondition (fst (hd steps)) (fst (last steps)))] else []))"

fun check_rules :: "externals \<Rightarrow> string set \<Rightarrow> rule_ast list \<Rightarrow> diagnostic list" where
  "check_rules E seen_ids [] = []"
| "check_rules E seen_ids (ast # asts) =
     check_rule E seen_ids ast @ check_rules E (insert (ra_rule_id ast) seen_ids) asts"

definition check_file_level :: "rule_ast list \<Rightarrow> diagnostic list" where
  "check_file_level asts =
     (let file_level = (\<lambda>l n. \<lparr>dg_level = l, dg_rule_id = None, dg_notice = n, dg_line = None\<rparr>)
      in if asts = [] then [file_level LevelWarning NoRules]
         else if 5 < length asts \<and> ''DENY'' \<notin> (\<lambda>a. aa_kind (ra_action a)) ` set asts
           then [file_level LevelHint NoDenyRules]
         else [])"

text \<open>Compiling only reports \<open>RuleCompileError\<close>; another exception would leave the validator.\<close>

fun check_compiles :: "externals \<Rightarrow> rule_ast list \<Rightarrow> diagnostic list result" where
  "check_compiles E [] = Inr []"
| "check_compiles E (ast # asts) =
     ebind (case compile_rule E ''v1'' ast of
              Inr _ \<Rightarrow> Inr []
            | Inl e \<Rightarrow>
                (case e of
                   RuleCompileError msg \<Rightarrow>
                     Inr [about (ra_rule_id ast) LevelError (CompileError msg (compile_error_suggestion msg))]
                 | _ \<Rightarrow> Inl e)) (\<lambda>ds.
     ebind (check_compiles E asts) (\<lambda>rest. Inr (ds @ rest)))"

definition validate_source :: "externals \<Rightarrow> string \<Rightarrow> string \<Rightarrow> validation_report result" where
  "validate_source E src source_file =
     (case parse_rule_source E src of
        Inl e \<Rightarrow>
          (case e of
             RuleCompileError msg \<Rightarrow>
               Inr \<lparr>vr_diagnostics = [\<lparr>dg_level = LevelError, dg_rule_id = None,
                      dg_notice = ParseError msg (parse_error_suggestion msg),
                      dg_line = guess_line_from_pos msg (build_line_map 1 src)\<rparr>],
                    vr_rule_count = 0, vr_source_file = source_file\<rparr>
           | _ \<Rightarrow> Inl e)
      | Inr asts \<Rightarrow>
          ebind (check_compiles E asts) (\<lambda>ds.
            Inr \<lparr>vr_diagnostics = ds @ check_rules E {} asts @ check_file_level asts,
                 vr_rule_count = length asts, vr_source_file = source_file\<rparr>))"

definition validate_file :: "externals \<Rightarrow> file_system \<Rightarrow> string \<Rightarrow> validation_report result" where
  "validate_file E fs path =
     (if fs_dir fs path \<noteq> None then Inl (ExternalError ''IsADirectoryError'')
      else (case fs_file fs path of
              None \<Rightarrow>
                Inr \<lparr>vr_diagnostics = [\<lparr>dg_level = LevelError, dg_rule_id = None,
                       dg_notice = FileNotFound path, dg_line = None\<rparr>],
                     vr_rule_count = 0, vr_source_file = path\<rparr>
            | Some src \<Rightarrow> validate_source E src path))"

subsection \<open>What a clean report means\<close>

lemma check_compiles_known: "list_all known_action asts \<Longrightarrow> check_compiles E asts = Inr []"
proof (induction asts)
  case (Cons ast asts)
  then obtain r where "compile_rule E ''v1'' ast = Inr r"
    using compile_known [of ast E "''v1''"] by auto
  with Cons show ?case by simp
qed simp

lemma validate_parsed:
  assumes "parse_rule_source E src = Inr asts"
  shows "validate_source E src file = Inr \<lparr>vr_diagnostics = check_rules E {} asts @ check_file_level asts,
     vr_rule_count = length asts, vr_source_file = file\<rparr>"
  using check_compiles_known [OF parse_rule_source_known [OF assms], of E] assms
  by (simp add: validate_source_def)

lemma clean_report_parses:
  assumes "validate_source E src file = Inr rep" and "report_ok rep"
  obtains asts where "parse_rule_source E src = Inr asts" "vr_rule_count rep = length asts"
    "vr_diagnostics rep = check_rules E {} asts @ check_file_level asts"
proof (cases "parse_rule_source E src")
  case (Inl e)
  then show ?thesis
    using assms by (cases e) (auto simp: validate_source_def report_ok_def of_level_def)
next
  case (Inr asts)
  then show ?thesis using that assms(1) validate_parsed [OF Inr, of "file"] by auto
qed

lemma clean_report_loads:
  assumes "validate_source E src file = Inr rep" and "report_ok rep"
  shows "\<exists>rules. compile_rules E [src] = Inr rules \<and> length rules = vr_rule_count rep"
proof -
  obtain asts where asts: "parse_rule_source E src = Inr asts" "vr_rule_count rep = length asts"
    using clean_report_parses [OF assms] by metis
  then have "parse_rules E [src] = Inr asts" by (simp add: parse_rules_def)
  then show ?thesis
    using compile_all_known [OF parse_rule_source_known [OF asts(1)], of E "''v1''"] asts(2)
    by (auto simp: compile_rules_def dest: list_all2_lengthD)
qed

subsection \<open>Errors a rule that parses can have\<close>

definition possible_error :: "notice \<Rightarrow> bool" where
  "possible_error n =
     (case n of
        DegradeWithoutProfile \<Rightarrow> True | HistoryNeedsTwo name \<Rightarrow> True | HistoryResultNeedsOne \<Rightarrow> True
      | TraceWithoutPattern \<Rightarrow> True | InvalidTracePattern pat e \<Rightarrow> True | _ \<Rightarrow> False)"

definition fine :: "diagnostic \<Rightarrow> bool" where
  "fine d \<longleftrightarrow> dg_level d \<noteq> LevelError \<or> possible_error (dg_notice d)"

lemma about_fields [simp]:
  "dg_notice (about rid l n) = n" "dg_level (about rid l n) = l" "dg_rule_id (about rid l n) = Some rid"
  by (simp_all add: about_def)

lemma fine_about [simp]: "fine (about rid l n) \<longleftrightarrow> l \<noteq> LevelError \<or> possible_error n"
  by (simp add: fine_def)

lemma check_value_fine [simp]:
  "list_all fine (check_enum_value v valid field rid)" "list_all fine (check_string_value v valid field rid)"
  "list_all fine (check_placeholder parts rid)" "list_all fine (check_trace_pattern_string pat rid)"
  by (simp add: check_enum_value_def Let_def list_all_iff,
      simp add: check_string_value_def split: option.split,
      simp add: check_placeholder_def split: list.split,
      simp add: check_trace_pattern_string_def possible_error_def split: sum.split)

lemma check_func_fine [simp]: "list_all fine (check_func f rid phs)"
proof -
  have "list_all fine (check_history_in_trace f rid phs)"
    by (simp add: check_history_in_trace_def split: list.split dsl_value.split)
  moreover have "list_all fine (case args of [] \<Rightarrow> [about rid LevelError TraceWithoutPattern]
      | AStr pat # _ \<Rightarrow> check_trace_pattern_string pat rid | _ \<Rightarrow> [])" for args
    by (simp add: possible_error_def split: list.split dsl_value.split)
  ultimately show ?thesis by (simp add: check_func_def check_func_call_def Let_def possible_error_def)
qed

lemma check_path_fine [simp]: "list_all fine (check_path parts rid phs op v)"
  by (cases parts, simp add: check_path_def) (simp add: check_path_def split: list.split)

lemma check_expr_fine [simp]: "list_all fine (check_expr e rid phs)"
proof (induction e)
  case (Compare left op v)
  show ?case by (simp add: check_compare_def split: dsl_value.split list.split)
qed simp_all

lemma check_rule_fine: "known_trace ast \<Longrightarrow> list_all fine (check_rule E seen ast)"
proof -
  assume known: "known_trace ast"
  have "list_all fine (check_trace_clause c rid)" if "ra_trace_clause ast = Some c" for c rid
    using known that by (auto simp: check_trace_clause_def known_trace_def known_tail_def list_all_iff Let_def)
  moreover have "list_all fine (check_meta E ast)" "list_all fine (check_action E ast)"
    by (simp add: check_meta_def Let_def split: option.split,
        simp add: check_action_def Let_def possible_error_def split: option.split)
  ultimately show ?thesis by (auto simp: check_rule_def Let_def split: option.split)
qed

lemma check_rules_fine: "list_all known_trace asts \<Longrightarrow> list_all fine (check_rules E seen asts)"
  by (induction asts arbitrary: seen) (simp_all add: check_rule_fine)

lemma parsed_errors:
  assumes "parse_rule_source E src = Inr asts"
  shows "\<exists>rep. validate_source E src file = Inr rep \<and> list_all fine (vr_diagnostics rep)"
proof -
  have "list_all fine (check_file_level asts)" by (simp add: check_file_level_def Let_def fine_def)
  then show ?thesis
    using check_rules_fine [OF parse_rule_source_known_trace [OF assms], of E "{}"]
    by (simp add: validate_parsed [OF assms])
qed

subsection \<open>Duplicates\<close>

definition duplicate_warnings :: "diagnostic list \<Rightarrow> diagnostic list" where
  "duplicate_warnings ds = filter (\<lambda>d. dg_notice d = DuplicateRuleId) ds"

lemma no_duplicates [simp]:
  "duplicate_warnings [] = []" "duplicate_warnings (xs @ ys) = duplicate_warnings xs @ duplicate_warnings ys"
  "duplicate_warnings (about rid l n # ds) =
     (if n = DuplicateRuleId then [about rid l n] else []) @ duplicate_warnings ds"
  "duplicate_warnings (if b then xs else ys) = (if b then duplicate_warnings xs else duplicate_warnings ys)"
  "duplicate_warnings (map (\<lambda>x. about rid l (InvalidValue x field)) vs) = []"
  "duplicate_warnings (map (\<lambda>s. about rid l (UnknownSeparator (snd s))) steps) = []"
  by (simp_all add: duplicate_warnings_def comp_def filter_empty_conv)

lemma check_value_duplicates [simp]:
  "duplicate_warnings (check_enum_value v valid field rid) = []"
  "duplicate_warnings (check_string_value v valid field rid) = []"
  "duplicate_warnings (check_placeholder parts rid) = []"
  "duplicate_warnings (check_trace_pattern_string pat rid) = []"
  by (simp add: check_enum_value_def Let_def,
      simp add: check_string_value_def split: option.split,
      simp add: check_placeholder_def split: list.split,
      simp add: check_trace_pattern_string_def split: sum.split)

lemma check_func_duplicates [simp]: "duplicate_warnings (check_func f rid phs) = []"
proof -
  have "duplicate_warnings (check_history_in_trace f rid phs) = []"
    by (simp add: check_history_in_trace_def split: list.split dsl_value.split)
  moreover have "duplicate_warnings (case args of [] \<Rightarrow> [about rid l TraceWithoutPattern]
      | AStr pat # _ \<Rightarrow> check_trace_pattern_string pat rid | _ \<Rightarrow> []) = []" for args l
    by (simp split: list.split dsl_value.split)
  ultimately show ?thesis by (simp add: check_func_def check_func_call_def Let_def)
qed

lemma check_path_duplicates [simp]: "duplicate_warnings (check_path parts rid phs op v) = []"
  by (cases parts, simp add: check_path_def) (simp add: check_path_def split: list.split)

lemma check_expr_duplicates [simp]: "duplicate_warnings (check_expr e rid phs) = []"
proof (induction e)
  case (Compare left op v)
  show ?case by (simp add: check_compare_def split: dsl_value.split list.split)
qed simp_all

lemma check_rule_duplicates:
  "length (duplicate_warnings (check_rule E seen ast)) = (if ra_rule_id ast \<in> seen then 1 else 0)"
proof -
  have "duplicate_warnings (check_trace_clause c rid) = []" "duplicate_warnings (check_meta E ast) = []"
      "duplicate_warnings (check_action E ast) = []" for c rid
    by (simp add: check_trace_clause_def Let_def,
        simp add: check_meta_def Let_def split: option.split,
        simp add: check_action_def Let_def split: option.split)
  then show ?thesis by (simp add: check_rule_def Let_def)
qed

lemma check_rules_duplicates:
  "length (duplicate_warnings (check_rules E seen asts)) + card (ra_rule_id ` set asts - seen) = length asts"
proof (induction asts arbitrary: seen)
  case (Cons ast asts)
  let ?ids = "ra_rule_id ` set asts"
  have "card (insert (ra_rule_id ast) ?ids - seen) =
      card (?ids - insert (ra_rule_id ast) seen) + (if ra_rule_id ast \<in> seen then 0 else 1)"
  proof (cases "ra_rule_id ast \<in> seen")
    case True
    then show ?thesis by (simp add: insert_absorb)
  next
    case False
    then have "insert (ra_rule_id ast) ?ids - seen =
        insert (ra_rule_id ast) (?ids - insert (ra_rule_id ast) seen)" by auto
    with False show ?thesis by simp
  qed
  then show ?case
    using Cons [of "insert (ra_rule_id ast) seen"] check_rule_duplicates [of E seen ast] by simp
qed simp

subsection \<open>Lines\<close>

lemma line_map_lines:
  "p \<le> length src \<Longrightarrow> build_line_map k src ! p = k + length (filter (\<lambda>c. c = newline) (take p src))"
proof (induction src arbitrary: k p)
  case (Cons c src)
  then show ?case by (cases p) auto
qed simp

lemma length_line_map [simp]: "length (build_line_map k src) = Suc (length src)"
  by (induction src arbitrary: k) auto

subsection \<open>Duplicates and the merge\<close>

lemma length_merge_rules: "length (merge_rules rules) = card (cr_rule_id ` set rules)"
  by (metis distinct_card distinct_merge_rules length_map list.set_map merge_rules_ids)

lemma same_rule_ids: "list_all2 same_rule asts rules \<Longrightarrow> map cr_rule_id rules = map ra_rule_id asts"
  by (induction rule: list_all2_induct) (simp_all add: same_rule_def)

lemma duplicates_of_merge:
  assumes "validate_source E src file = Inr rep" and "compile_rules E [src] = Inr rules"
  shows "length (duplicate_warnings (vr_diagnostics rep)) + length (merge_rules rules) = length rules"
proof -
  obtain asts where asts: "parse_rule_source E src = Inr asts" "compile_all E ''v1'' asts = Inr rules"
    using assms(2) by (auto simp: compile_rules_def parse_rules_def ebind_def split: sum.splits)
  obtain rules' where "compile_all E ''v1'' asts = Inr rules'" "list_all2 same_rule asts rules'"
    using compile_all_known [OF parse_rule_source_known [OF asts(1)], of E "''v1''"] by blast
  with asts(2) have same: "list_all2 same_rule asts rules" by simp
  then have ids: "map cr_rule_id rules = map ra_rule_id asts" by (rule same_rule_ids)
  then have "cr_rule_id ` set rules = ra_rule_id ` set asts" by (metis list.set_map)
  moreover have "length rules = length asts" using same by (simp add: list_all2_lengthD)
  moreover have "duplicate_warnings (check_file_level asts) = []"
    by (simp add: check_file_level_def duplicate_warnings_def Let_def)
  moreover have "vr_diagnostics rep = check_rules E {} asts @ check_file_level asts"
    using assms(1) validate_parsed [OF asts(1), of "file"] by auto
  ultimately show ?thesis
    using check_rules_duplicates [of E "{}" asts] by (simp add: length_merge_rules)
qed

end
