(* ===== verification/Sdk_Wrappers.thy ===== *)
theory Sdk_Wrappers
  imports Pipeline
begin

text \<open>
  The agent side (\<open>sdk/wrappers.py\<close>, \<open>sdk/context.py\<close> and \<open>RemotePipeline\<close> in \<open>sdk/guard.py\<close>):
  the session context, the event a wrapped function builds from its arguments, the synchronous and
  the asynchronous wrapper, and the pipeline that asks a remote server.  Tools are functions of
  their bound arguments; awaiting and the worker thread of the asynchronous wrapper are one step.
\<close>

subsection \<open>Session context\<close>

text \<open>The context variable; a token is the value it had before a \<open>set\<close>.\<close>

type_synonym session_var = "guard_session option"

definition push_session ::
  "string \<Rightarrow> string option \<Rightarrow> principal option \<Rightarrow> string option \<Rightarrow> string list option \<Rightarrow> session_var \<Rightarrow>
   (guard_session \<times> session_var) \<times> session_var" where
  "push_session fresh_id session_id p goal scope cur =
     (let sid = (case session_id of
                   Some s \<Rightarrow> if s \<noteq> [] then s else (case p of Some q \<Rightarrow> p_session_id q | None \<Rightarrow> fresh_id)
                 | None \<Rightarrow> (case p of Some q \<Rightarrow> p_session_id q | None \<Rightarrow> fresh_id));
          q = (case p of Some q \<Rightarrow> q | None \<Rightarrow> mk_principal ''sdk-default'' sid);
          session = new_guard_session sid q goal (case scope of None \<Rightarrow> [] | Some xs \<Rightarrow> xs)
      in ((session, cur), Some session))"

definition pop_session :: "session_var \<Rightarrow> session_var \<Rightarrow> session_var" where
  "pop_session token cur = token"

definition set_principal :: "principal \<Rightarrow> session_var \<Rightarrow> session_var" where
  "set_principal p cur =
     (case cur of
        None \<Rightarrow> Some (new_guard_session (p_session_id p) p None [])
      | Some s \<Rightarrow> Some (s\<lparr>gs_principal := p\<rparr>))"

definition current_principal :: "session_var \<Rightarrow> principal option" where
  "current_principal cur = map_option gs_principal cur"

text \<open>\<open>with session_scope(...)\<close> around a body that may raise and may change the context.\<close>

definition session_scope ::
  "string \<Rightarrow> string option \<Rightarrow> principal option \<Rightarrow> string option \<Rightarrow> string list option \<Rightarrow>
   (guard_session \<Rightarrow> session_var \<Rightarrow> 'a result \<times> session_var) \<Rightarrow> session_var \<Rightarrow> 'a result \<times> session_var" where
  "session_scope fresh_id session_id p goal scope body cur =
     (let ((session, token), cur1) = push_session fresh_id session_id p goal scope cur;
          (answer, cur2) = body session cur1
      in (answer, pop_session token cur2))"

text \<open>The imperative pair of the guard, which keeps the token.\<close>

definition end_session :: "session_var option \<times> session_var \<Rightarrow> session_var option \<times> session_var" where
  "end_session st = (case fst st of None \<Rightarrow> st | Some token \<Rightarrow> (None, pop_session token (snd st)))"

definition start_session ::
  "string \<Rightarrow> principal \<Rightarrow> string option \<Rightarrow> string list option \<Rightarrow> string option \<Rightarrow>
   session_var option \<times> session_var \<Rightarrow> guard_session \<times> session_var option \<times> session_var" where
  "start_session fresh_id p goal scope session_id st =
     (let st1 = end_session st;
          ((session, token), cur) = push_session fresh_id session_id (Some p) goal scope (snd st1)
      in (session, Some token, cur))"

definition resolve_principal :: "session_var \<Rightarrow> principal \<times> string option \<times> string list" where
  "resolve_principal cur =
     (case cur of
        Some s \<Rightarrow> (gs_principal s, gs_goal s, gs_scope s)
      | None \<Rightarrow> (mk_principal ''sdk-default'' ''anon'', None, []))"

subsection \<open>The event of a call\<close>

text \<open>What follows the first \<open>@\<close>.\<close>

definition after_at :: "string \<Rightarrow> string" where
  "after_at s = tl (dropWhile (\<lambda>c. c \<noteq> CHR ''@'') s)"

definition email_domain :: "externals \<Rightarrow> pyval \<Rightarrow> string option" where
  "email_domain E v =
     (case v of
        VStr s \<Rightarrow> if CHR ''@'' \<in> set s then Some (after_at s) else None
      | VList (x # _) \<Rightarrow> (let s = py_str E x in if CHR ''@'' \<in> set s then Some (after_at s) else None)
      | VTuple (x # _) \<Rightarrow> (let s = py_str E x in if CHR ''@'' \<in> set s then Some (after_at s) else None)
      | _ \<Rightarrow> None)"

definition extract_target :: "externals \<Rightarrow> string \<Rightarrow> pydict \<Rightarrow> pydict" where
  "extract_target E tool_name args =
     (let t1 = (case map_of args ''url'' of
                  None \<Rightarrow> []
                | Some url \<Rightarrow>
                    (case url_hostname E (py_str E url) of
                       Inl _ \<Rightarrow> [(''url'', url)]
                     | Inr host \<Rightarrow> [(''url'', url), (''domain'', VStr (case host of None \<Rightarrow> [] | Some h \<Rightarrow> h))]));
          t2 = (case map_of args ''to'' of
                  None \<Rightarrow> t1
                | Some v \<Rightarrow>
                    if starts_with tool_name ''email''
                    then (case email_domain E v of None \<Rightarrow> t1 | Some d \<Rightarrow> dict_set ''domain'' (VStr d) t1)
                    else t1)
      in (case map_of args ''path'' of None \<Rightarrow> t2 | Some path \<Rightarrow> dict_set ''path'' path t2))"

record wrapped_tool =
  wt_name :: string
  wt_sink :: sink_type
  wt_label :: tool_static_label
  wt_syntax :: "string list"
  wt_fn :: "pydict \<Rightarrow> pyval result"

type_synonym tool_registry = "(string, pydict \<Rightarrow> pyval result) dict"

definition build_event ::
  "externals \<Rightarrow> wrapped_tool \<Rightarrow> session_var \<Rightarrow> string \<Rightarrow> int \<Rightarrow> pydict \<Rightarrow> runtime_event" where
  "build_event E w cur event_id ts bound =
     (let (p, goal, scope) = resolve_principal cur
      in (mk_event event_id ts TOOL_CALL_ATTEMPT p
           (Some ((mk_tool_call (wt_name w) bound)\<lparr>tc_target := extract_target E (wt_name w) bound,
              tc_sink_type := wt_sink w, tc_label := wt_label w, tc_syntax := wt_syntax w\<rparr>)))
         \<lparr>ev_goal := goal, ev_scope := scope\<rparr>)"

text \<open>A call that was redirected runs the function registered under the new name, if any.\<close>

definition run_wrapped :: "wrapped_tool \<Rightarrow> tool_registry \<Rightarrow> pydict \<Rightarrow> runtime_event \<Rightarrow> pyval result" where
  "run_wrapped w registry bound event =
     (case ev_tool_call event of
        None \<Rightarrow> wt_fn w bound
      | Some tc \<Rightarrow>
          (case (if tc_tool_name tc \<noteq> wt_name w then map_of registry (tc_tool_name tc) else None) of
             Some raw \<Rightarrow> raw (tc_args tc)
           | None \<Rightarrow> wt_fn w (tc_args tc)))"

subsection \<open>The synchronous wrapper\<close>

definition call_wrapped ::
  "enf_env \<Rightarrow> rat \<Rightarrow> nat \<Rightarrow> wrapped_tool \<Rightarrow> tool_registry \<Rightarrow> pydict \<Rightarrow> runtime_event \<Rightarrow>
   'a pipeline_scheme \<Rightarrow> pyval result \<times> 'a pipeline_scheme" where
  "call_wrapped env elapsed n w registry bound event p =
     guarded_call (env\<lparr>en_exec := run_wrapped w registry bound\<rparr>) elapsed n event p"

subsection \<open>The asynchronous wrapper\<close>

text \<open>
  The wrapper asks the pipeline object for \<open>mode\<close> and \<open>fail_open\<close>.  The in-process pipeline has
  neither attribute, so the defaults \<open>enforce\<close> and true apply whatever the guard was configured to.
\<close>

definition pipeline_mode :: "string option \<Rightarrow> string" where
  "pipeline_mode attr = (case attr of None \<Rightarrow> ''enforce'' | Some m \<Rightarrow> m)"

definition async_refusal :: "(py_exc \<Rightarrow> string) \<Rightarrow> py_exc \<Rightarrow> py_exc" where
  "async_refusal exc_text e = DecisionDenied (''guard_unavailable: '' @ exc_text e) [] None"

definition async_rewrite ::
  "enf_env \<Rightarrow> string \<Rightarrow> runtime_event \<Rightarrow> decision \<Rightarrow> 'a pipeline_scheme \<Rightarrow> runtime_event result \<times> 'a pipeline_scheme" where
  "async_rewrite env mode event d p =
     (if d_action d = DEGRADE \<or> d_obligations d \<noteq> [] then
       (case apply_rewrites (en_ext env) (en_profiles env) event d of
          Inl e \<Rightarrow> (Inl e, p)
        | Inr rewritten \<Rightarrow>
            (let event' = (case rewritten of Some tc \<Rightarrow> with_tool_call event tc | None \<Rightarrow> event)
             in if d_obligations d \<noteq> [] \<and> mode \<noteq> ''monitor'' then
                  (let (violation, rates) = check_rate_limit (en_ext env) (en_now env) event' d (es_rates p);
                       p1 = p\<lparr>es_rates := rates\<rparr>
                   in case violation of
                        Inl e \<Rightarrow> (Inl e, p1)
                      | Inr (Some m) \<Rightarrow> (Inl (denied event d (''rate_limit: '' @ m)), p1)
                      | Inr None \<Rightarrow>
                          (case check_require_target_in (en_ext env) event' d of
                             Inl e \<Rightarrow> (Inl e, p1)
                           | Inr (Some m) \<Rightarrow> (Inl (denied event d (''require_target_in: '' @ m)), p1)
                           | Inr None \<Rightarrow> (Inr event', p1)))
                else (Inr event', p)))
      else (Inr event, p))"

definition async_finish :: "enf_env \<Rightarrow> runtime_event \<Rightarrow> pyval \<Rightarrow> 'a pipeline_scheme \<Rightarrow> 'a pipeline_scheme" where
  "async_finish env event v p =
     (let filled = event\<lparr>ev_tool_call := map_option (\<lambda>tc. tc\<lparr>tc_result := v\<rparr>) (ev_tool_call event)\<rparr>
      in handle_result (filled\<lparr>ev_event_type := TOOL_CALL_RESULT\<rparr>)
           (update_cache (update_trace_result (en_ext env) filled v) p))"

definition async_run ::
  "enf_env \<Rightarrow> wrapped_tool \<Rightarrow> tool_registry \<Rightarrow> pydict \<Rightarrow> runtime_event \<Rightarrow> 'a pipeline_scheme \<Rightarrow>
   pyval result \<times> 'a pipeline_scheme" where
  "async_run env w registry bound event p =
     (let p1 = p\<lparr>es_executed := es_executed p @ [event]\<rparr>
      in case run_wrapped w registry bound event of
           Inl e \<Rightarrow> (Inl e, p1)
         | Inr v \<Rightarrow> (Inr v, async_finish env event v p1))"

definition async_enforce ::
  "enf_env \<Rightarrow> string \<Rightarrow> string \<Rightarrow> wrapped_tool \<Rightarrow> tool_registry \<Rightarrow> pydict \<Rightarrow> runtime_event \<Rightarrow> decision \<Rightarrow>
   'a pipeline_scheme \<Rightarrow> pyval result \<times> 'a pipeline_scheme" where
  "async_enforce env mode pending_id w registry bound event d p =
     (if mode = ''dry_run''
      then (Inr (VDict [(''agentguard_dry_run'', VBool True), (''decision'', decision_dump d)]), p)
      else if mode \<noteq> ''monitor'' \<and> d_action d = DENY
        then (Inl (denied event d (str_or (d_reason d) ''policy_denied'')), p)
      else if mode \<noteq> ''monitor'' \<and> d_action d = HUMAN_CHECK
        then (Inl (HumanApprovalPending pending_id (str_or (d_reason d) ''human_check_required'')), p)
      else (case async_rewrite env mode event d p of
              (Inl e, p1) \<Rightarrow> (Inl e, p1)
            | (Inr event', p1) \<Rightarrow> async_run env w registry bound event' p1))"

definition async_call ::
  "enf_env \<Rightarrow> string option \<Rightarrow> bool option \<Rightarrow> (py_exc \<Rightarrow> string) \<Rightarrow> string \<Rightarrow> rat \<Rightarrow> wrapped_tool \<Rightarrow> tool_registry \<Rightarrow>
   pydict \<Rightarrow> runtime_event \<Rightarrow> 'a pipeline_scheme \<Rightarrow> pyval result \<times> 'a pipeline_scheme" where
  "async_call env mode_attr fail_open_attr exc_text pending_id elapsed w registry bound event p =
     (let (answer, p1) = handle_attempt (en_ext env) (en_now env) elapsed event p
      in case answer of
           Inl e \<Rightarrow>
             if fail_open_attr = Some False then (Inl (async_refusal exc_text e), p1)
             else (wt_fn w bound, p1\<lparr>es_executed := es_executed p1 @ [event]\<rparr>)
         | Inr (d, event') \<Rightarrow>
             async_enforce env (pipeline_mode mode_attr) pending_id w registry bound event' d p1)"

subsection \<open>The remote pipeline\<close>

record remote_pipeline =
  rm_mode :: string
  rm_audit :: audit_log
  rm_executed :: "runtime_event list"

definition remote_attempt ::
  "(runtime_event \<Rightarrow> decision result) \<Rightarrow> runtime_event \<Rightarrow> remote_pipeline \<Rightarrow> decision result \<times> remote_pipeline" where
  "remote_attempt client event rp =
     (case client event of
        Inl e \<Rightarrow> (Inl e, rp)
      | Inr d \<Rightarrow> (Inr d, rp\<lparr>rm_audit := audit_log_record event (Some d) (rm_audit rp)\<rparr>))"

definition remote_result :: "runtime_event \<Rightarrow> remote_pipeline \<Rightarrow> remote_pipeline" where
  "remote_result event rp = rp\<lparr>rm_audit := audit_log_record event None (rm_audit rp)\<rparr>"

definition remote_run ::
  "(runtime_event \<Rightarrow> pyval result) \<Rightarrow> runtime_event \<Rightarrow> remote_pipeline \<Rightarrow> pyval result \<times> remote_pipeline" where
  "remote_run exec event rp = (exec event, rp\<lparr>rm_executed := rm_executed rp @ [event]\<rparr>)"

definition remote_dispatch ::
  "enf_env \<Rightarrow> runtime_event \<Rightarrow> decision \<Rightarrow> remote_pipeline \<Rightarrow> (pyval \<times> runtime_event) result \<times> remote_pipeline" where
  "remote_dispatch env event d rp =
     (let ran = (\<lambda>ev. case remote_run (en_exec env) ev rp of
                   (Inl e, rp1) \<Rightarrow> (Inl e, rp1) | (Inr v, rp1) \<Rightarrow> (Inr (v, ev), rp1))
      in case d_action d of
           DENY \<Rightarrow> (Inl (denied event d (str_or (d_reason d) ''policy_denied'')), rp)
         | HUMAN_CHECK \<Rightarrow>
             (Inl (HumanApprovalPending ''remote_review'' (str_or (d_reason d) ''human_check_required'')), rp)
         | DEGRADE \<Rightarrow>
             (case apply_rewrites (en_ext env) (en_profiles env) event d of
                Inl e \<Rightarrow> (Inl e, rp)
              | Inr rewritten \<Rightarrow> ran (case rewritten of Some tc \<Rightarrow> with_tool_call event tc | None \<Rightarrow> event))
         | _ \<Rightarrow> ran event)"

definition remote_guarded_call ::
  "enf_env \<Rightarrow> (runtime_event \<Rightarrow> decision result) \<Rightarrow> runtime_event \<Rightarrow> remote_pipeline \<Rightarrow> pyval result \<times> remote_pipeline" where
  "remote_guarded_call env client event rp =
     (case remote_attempt client event rp of
        (Inl e, rp1) \<Rightarrow> (Inl e, rp1)
      | (Inr d, rp1) \<Rightarrow>
          if d_action d = LLM_CHECK
          then (Inl (HumanApprovalPending ''remote_review'' (str_or (d_reason d) ''remote_llm_check_unresolved'')), rp1)
          else if rm_mode rp1 = ''monitor'' then remote_run (en_exec env) event rp1
          else (case remote_dispatch env event d rp1 of
                  (Inl e, rp2) \<Rightarrow> (Inl e, rp2)
                | (Inr (v, event'), rp2) \<Rightarrow>
                    (Inr v, remote_result (event'\<lparr>ev_event_type := TOOL_CALL_RESULT\<rparr>) rp2)))"

subsection \<open>When the asynchronous wrapper runs the tool\<close>

lemma async_rewrite_not_run [simp]: "es_executed (snd (async_rewrite env mode ev d p)) = es_executed p"
  by (simp add: async_rewrite_def Let_def split: sum.split prod.split option.split)

lemma async_finish_not_run [simp]: "es_executed (async_finish env ev v p) = es_executed p"
  by (simp add: async_finish_def handle_result_def log_audit_def Let_def)

lemma async_run_ran [simp]: "es_executed (snd (async_run env w reg bound ev p)) = es_executed p @ [ev]"
  by (simp add: async_run_def Let_def split: sum.split)

text \<open>The events the tool runs on once the policy has answered: none or one.\<close>

definition async_runs_on ::
  "enf_env \<Rightarrow> string \<Rightarrow> runtime_event \<Rightarrow> decision \<Rightarrow> 'a pipeline_scheme \<Rightarrow> runtime_event list" where
  "async_runs_on env mode ev d p =
     (if mode = ''dry_run'' then []
      else if mode \<noteq> ''monitor'' \<and> d_action d \<in> {DENY, HUMAN_CHECK} then []
      else case fst (async_rewrite env mode ev d p) of Inl _ \<Rightarrow> [] | Inr ev' \<Rightarrow> [ev'])"

lemma async_enforce_ran:
  "es_executed (snd (async_enforce env mode pid w reg bound ev d p)) =
     es_executed p @ async_runs_on env mode ev d p"
proof -
  obtain r p1 where r: "async_rewrite env mode ev d p = (r, p1)" by fastforce
  moreover have "es_executed p1 = es_executed p" using async_rewrite_not_run [of env mode ev d p] by (simp add: r)
  ultimately show ?thesis by (auto simp: async_enforce_def async_runs_on_def split: sum.split)
qed

lemma async_call_ran:
  "es_executed (snd (async_call env mode_attr fo txt pid elapsed w reg bound ev p)) = es_executed p @
     (case handle_attempt (en_ext env) (en_now env) elapsed ev p of
        (Inl _, p1) \<Rightarrow> if fo = Some False then [] else [ev]
      | (Inr (d, ev'), p1) \<Rightarrow> async_runs_on env (pipeline_mode mode_attr) ev' d p1)"
proof -
  obtain r p1 where r: "handle_attempt (en_ext env) (en_now env) elapsed ev p = (r, p1)" by fastforce
  moreover have "es_executed p1 = es_executed p"
    using handle_attempt_not_run [of "en_ext env" "en_now env" elapsed ev p] by (simp add: r)
  ultimately show ?thesis by (auto simp: async_call_def async_enforce_ran split: sum.split)
qed

lemma async_call_decided:
  assumes "handle_attempt (en_ext env) (en_now env) elapsed ev p = (Inr (d, ev'), p1)"
  shows "async_call env mode_attr fo txt pid elapsed w reg bound ev p =
     async_enforce env (pipeline_mode mode_attr) pid w reg bound ev' d p1"
  using assms by (simp add: async_call_def)

lemma async_rewrite_plain:
  "d_action d \<noteq> DEGRADE \<Longrightarrow> d_obligations d = [] \<Longrightarrow> async_rewrite env mode ev d p = (Inr ev, p)"
  by (simp add: async_rewrite_def)

text \<open>A decision that carries no obligations and neither refuses nor degrades: the tool runs.\<close>

lemma async_enforce_plain:
  assumes "d_action d \<in> {ALLOW, LLM_CHECK}" and "d_obligations d = []" and "mode \<noteq> ''dry_run''"
  shows "async_enforce env mode pid w reg bound ev d p = async_run env w reg bound ev p"
  using assms by (auto simp: async_enforce_def async_rewrite_plain)

lemma async_enforce_denies:
  assumes "d_action d = DENY" and "mode \<notin> {''dry_run'', ''monitor''}"
  shows "async_enforce env mode pid w reg bound ev d p =
     (Inl (denied ev d (str_or (d_reason d) ''policy_denied'')), p)"
  using assms by (simp add: async_enforce_def)

lemma call_wrapped_decided:
  assumes "handle_attempt (en_ext env) (en_now env) elapsed ev p = (Inr (d, ev'), p1)"
    and "enforcer_apply (env\<lparr>en_exec := run_wrapped w reg bound\<rparr>)
      (revalidate (en_ext env) (en_now env) elapsed) n ev' d p1 = (out, p2)"
  shows "call_wrapped env elapsed n w reg bound ev p =
     (out, after_call (en_ext env) ev' (case out of Inl _ \<Rightarrow> VNone | Inr v \<Rightarrow> v) p2)"
  using assms by (simp add: call_wrapped_def guarded_call_def)

subsection \<open>Sessions\<close>

text \<open>What a program does with the session functions of a guard, one call after another.\<close>

datatype session_op =
    StartSession string principal "string option" "string list option" "string option"
  | EndSession
  | SetPrincipal principal

fun session_op_step :: "session_op \<Rightarrow> session_var option \<times> session_var \<Rightarrow> session_var option \<times> session_var" where
  "session_op_step (StartSession fresh p goal scope sid) st = snd (start_session fresh p goal scope sid st)"
| "session_op_step EndSession st = end_session st"
| "session_op_step (SetPrincipal p) (token, cur) = (token, set_principal p cur)"

text \<open>The principal is only exchanged while a started session is open.\<close>

fun principal_inside :: "session_op list \<Rightarrow> session_var option \<times> session_var \<Rightarrow> bool" where
  "principal_inside [] st = True"
| "principal_inside (x # xs) st =
     ((case x of SetPrincipal _ \<Rightarrow> fst st \<noteq> None | _ \<Rightarrow> True) \<and> principal_inside xs (session_op_step x st))"

definition restores :: "session_var \<Rightarrow> session_var option \<times> session_var \<Rightarrow> bool" where
  "restores base st \<longleftrightarrow> (case fst st of None \<Rightarrow> snd st = base | Some token \<Rightarrow> token = base)"

lemma end_session_restores: "restores base st \<Longrightarrow> end_session st = (None, base)"
  by (cases st) (auto simp: restores_def end_session_def pop_session_def split: option.splits)

lemma start_session_restores:
  "restores base st \<Longrightarrow> restores base (snd (start_session fresh p goal scope sid st))"
  using end_session_restores [of base st]
  by (simp add: start_session_def restores_def push_session_def Let_def)

lemma session_ops_restore:
  "restores base st \<Longrightarrow> principal_inside ops st \<Longrightarrow> restores base (fold session_op_step ops st)"
proof (induction ops arbitrary: st)
  case (Cons x ops)
  have "restores base (session_op_step x st)"
  proof (cases x)
    case (SetPrincipal p)
    then show ?thesis using Cons.prems by (cases st) (auto simp: restores_def split: option.splits)
  next
    case EndSession
    then show ?thesis using end_session_restores [OF Cons.prems(1)] by (simp add: restores_def)
  qed (use Cons.prems start_session_restores in simp)
  with Cons show ?case by simp
qed simp

subsection \<open>The remote pipeline\<close>

lemma remote_not_run:
  assumes "client ev = Inr d" and "d_action d \<in> {LLM_CHECK, DENY, HUMAN_CHECK}"
    and "rm_mode rp \<noteq> ''monitor'' \<or> d_action d = LLM_CHECK"
  shows "rm_executed (snd (remote_guarded_call env client ev rp)) = rm_executed rp"
  using assms
  by (auto simp: remote_guarded_call_def remote_attempt_def remote_dispatch_def audit_log_record_def)

lemma remote_allow:
  assumes "client ev = Inr d" and "d_action d = ALLOW" and "en_exec env ev = Inr v"
  shows "fst (remote_guarded_call env client ev rp) = Inr v \<and>
     rm_executed (snd (remote_guarded_call env client ev rp)) = rm_executed rp @ [ev]"
  using assms
  by (simp add: remote_guarded_call_def remote_attempt_def remote_dispatch_def remote_run_def
      remote_result_def Let_def)

end
