(* ===== verification/Tooling_Properties.thy ===== *)
theory Tooling_Properties
  imports Sample Validator Sdk_Wrappers
begin

text \<open>
  What the parts around the runtime guarantee: the validator that rule authors run before loading,
  the wrappers that turn functions into guarded tools, the sessions they read the principal from,
  and the remote pipeline.  Each property with hypotheses is followed by an example.
\<close>

subsection \<open>Validating rules\<close>

definition two_rules :: string where
  "two_rules = ''RULE: a POLICY: DENY RULE: a POLICY: ALLOW''"

lemma two_rules_parse:
  "\<exists>asts. parse_rule_source sample_ext two_rules = Inr asts \<and> length asts = 2 \<and>
     map ra_rule_id asts = [''a'', ''a'']"
proof -
  have "map_sum id (map ra_rule_id) (parse_rule_source sample_ext two_rules) = Inr [''a'', ''a'']"
    by code_simp
  then show ?thesis by (cases "parse_rule_source sample_ext two_rules") auto
qed

lemma two_rules_report:
  "\<exists>rep. validate_source sample_ext two_rules [] = Inr rep \<and> report_ok rep \<and> vr_rule_count rep = 2"
proof -
  have "map_sum id (\<lambda>rep. (report_ok rep, vr_rule_count rep)) (validate_source sample_ext two_rules []) =
      Inr (True, 2)" by code_simp
  then show ?thesis by (cases "validate_source sample_ext two_rules []") auto
qed

text \<open>C25: A text the validator passes without an error loads: every rule in it compiles, and as many
  rules are loaded as the report counts.\<close>

theorem validated_rules_load:
  assumes "validate_source E src file = Inr rep" and "report_ok rep"
  shows "\<exists>rules. compile_rules E [src] = Inr rules \<and> length rules = vr_rule_count rep"
  by (rule clean_report_loads [OF assms])

lemma validated_rules_load_example:
  "\<exists>rules. compile_rules sample_ext [two_rules] = Inr rules \<and> length rules = 2"
proof -
  obtain rep where "validate_source sample_ext two_rules [] = Inr rep" "report_ok rep" "vr_rule_count rep = 2"
    using two_rules_report by blast
  then show ?thesis using validated_rules_load by metis
qed

text \<open>Of a text that parses the validator reports no other errors than a degradation without a
  profile, a history or trace function with too few arguments, and an invalid trace pattern: its
  branches for rules that do not compile and for unknown TRACE separators are never taken.\<close>

theorem errors_of_parsed_rules:
  assumes "parse_rule_source E src = Inr asts"
  shows "\<exists>rep. validate_source E src file = Inr rep \<and> vr_rule_count rep = length asts \<and>
     (\<forall>d \<in> set (of_level LevelError rep).
        case dg_notice d of
          DegradeWithoutProfile \<Rightarrow> True | HistoryNeedsTwo _ \<Rightarrow> True | HistoryResultNeedsOne \<Rightarrow> True
        | TraceWithoutPattern \<Rightarrow> True | InvalidTracePattern _ _ \<Rightarrow> True | _ \<Rightarrow> False)"
  using parsed_errors [OF assms, of "file"]
  by (auto simp: validate_parsed [OF assms] of_level_def fine_def possible_error_def list_all_iff)

lemma errors_of_parsed_rules_example:
  "\<exists>rep. validate_source sample_ext two_rules [] = Inr rep \<and> vr_rule_count rep = 2"
  using two_rules_parse errors_of_parsed_rules by metis

text \<open>The validator warns about a duplicate id once for every rule that is lost when the rules are
  merged for an agent.\<close>

theorem duplicate_warnings_count_lost_rules:
  assumes "validate_source E src file = Inr rep" and "compile_rules E [src] = Inr rules"
  shows "length (duplicate_warnings (vr_diagnostics rep)) + length (merge_rules rules) = length rules"
  by (rule duplicates_of_merge [OF assms])

lemma duplicate_warnings_count_lost_rules_example:
  "\<exists>rep rules. validate_source sample_ext two_rules [] = Inr rep \<and>
     compile_rules sample_ext [two_rules] = Inr rules \<and>
     length (duplicate_warnings (vr_diagnostics rep)) + length (merge_rules rules) = 2"
proof -
  obtain rep where rep: "validate_source sample_ext two_rules [] = Inr rep" "report_ok rep" "vr_rule_count rep = 2"
    using two_rules_report by blast
  then obtain rules where "compile_rules sample_ext [two_rules] = Inr rules" "length rules = 2"
    using clean_report_loads by metis
  with rep show ?thesis using duplicate_warnings_count_lost_rules [OF rep(1)] by auto
qed

subsection \<open>Wrapped functions\<close>

definition sample_tool :: wrapped_tool where
  "sample_tool = \<lparr>wt_name = ''shell.exec'', wt_sink = SinkNone, wt_label = default_label, wt_syntax = [''cmd''],
     wt_fn = (\<lambda>_. Inr (VStr ''done''))\<rparr>"

lemma sample_decision:
  assumes "(case fst (handle_attempt sample_ext 0 0 sample_event p) of
      Inl _ \<Rightarrow> False | Inr (d, _) \<Rightarrow> d_action d = act \<and> d_obligations d = [])"
  obtains d ev' p1 where "handle_attempt sample_ext 0 0 sample_event p = (Inr (d, ev'), p1)"
    "d_action d = act" "d_obligations d = []"
  using assms by (cases "handle_attempt sample_ext 0 0 sample_event p") (auto split: sum.splits)

text \<open>When the asynchronous wrapper runs the tool, and on which event: if the attempt cannot be
  decided it runs unless the pipeline says otherwise; if it is decided, only a refusal, a pending
  review, a dry run or a failed rewrite keeps it from running, and it runs once, on the event the
  obligations rewrote.\<close>

theorem async_runs_exactly:
  "es_executed (snd (async_call env mode_attr fo txt pid elapsed w reg bound ev p)) = es_executed p @
     (case handle_attempt (en_ext env) (en_now env) elapsed ev p of
        (Inl _, p1) \<Rightarrow> if fo = Some False then [] else [ev]
      | (Inr (d, ev'), p1) \<Rightarrow>
          if pipeline_mode mode_attr = ''dry_run'' then []
          else if pipeline_mode mode_attr = ''monitor'' then
            (case fst (async_rewrite env ''monitor'' ev' d p1) of Inl _ \<Rightarrow> [] | Inr ev'' \<Rightarrow> [ev''])
          else if d_action d = DENY then []
          else if d_action d = HUMAN_CHECK then []
          else (case fst (async_rewrite env (pipeline_mode mode_attr) ev' d p1) of
                  Inl _ \<Rightarrow> [] | Inr ev'' \<Rightarrow> [ev'']))"
  by (auto simp: async_call_ran async_runs_on_def split: prod.split sum.split)

text \<open>An allowed call without obligations behaves alike in both wrappers: same answer, the tool runs
  once on the same event.  Only a call that fails differs: the asynchronous wrapper leaves no result
  record in the audit log.\<close>

theorem sync_and_async_allow_alike:
  assumes "handle_attempt (en_ext env) (en_now env) elapsed ev p = (Inr (d, ev'), p1)"
    and "d_action d = ALLOW" and "d_obligations d = []" and "ec_mode (en_config env) = ''enforce''"
  shows "fst (async_call env None fo txt pid elapsed w reg bound ev p) =
       fst (call_wrapped env elapsed n w reg bound ev p) \<and>
     es_executed (snd (async_call env None fo txt pid elapsed w reg bound ev p)) =
       es_executed (snd (call_wrapped env elapsed n w reg bound ev p)) \<and>
     pl_cache (snd (async_call env None fo txt pid elapsed w reg bound ev p)) =
       (case run_wrapped w reg bound ev' of
          Inl _ \<Rightarrow> pl_cache p1 | Inr _ \<Rightarrow> pl_cache (snd (call_wrapped env elapsed n w reg bound ev p))) \<and>
     length (al_sink (pl_audit (snd (async_call env None fo txt pid elapsed w reg bound ev p)))) =
       length (al_sink (pl_audit p1)) + (case run_wrapped w reg bound ev' of Inl _ \<Rightarrow> 0 | Inr _ \<Rightarrow> 1) \<and>
     length (al_sink (pl_audit (snd (call_wrapped env elapsed n w reg bound ev p)))) =
       length (al_sink (pl_audit p1)) + 1"
proof -
  define p2 where "p2 = p1\<lparr>es_executed := es_executed p1 @ [ev']\<rparr>"
  let ?out = "run_wrapped w reg bound ev'"
  have "enforcer_apply (env\<lparr>en_exec := run_wrapped w reg bound\<rparr>) rv n ev' d p1 = (?out, p2)" for rv
    using assms(2-4) by (simp add: enforcer_apply_def enforce_allow_def run_original_def p2_def)
  then have sync: "call_wrapped env elapsed n w reg bound ev p =
      (?out, after_call (en_ext env) ev' (case ?out of Inl _ \<Rightarrow> VNone | Inr v \<Rightarrow> v) p2)"
    by (rule call_wrapped_decided [OF assms(1)])
  have async: "async_call env None fo txt pid elapsed w reg bound ev p = async_run env w reg bound ev' p1"
    using assms(2,3) by (simp add: async_call_decided [OF assms(1)] pipeline_mode_def async_enforce_plain)
  have same: "update_trace_result E (ev'\<lparr>ev_tool_call := map_option (\<lambda>tc. tc\<lparr>tc_result := v\<rparr>) (ev_tool_call ev')\<rparr>) v c =
      update_trace_result E ev' v c" for E v c
    by (simp add: update_trace_result_def split: option.split)
  have cache: "pl_cache p2 = pl_cache p1" "es_executed p2 = es_executed p1 @ [ev']" "pl_audit p2 = pl_audit p1"
    by (simp_all add: p2_def pl_cache_def)
  show ?thesis
    by (cases ?out) (simp_all add: sync async async_run_def async_finish_def after_call_def p2_def [symmetric] cache same
        handle_result_def log_audit_def audit_log_record_def Let_def)
qed

lemma sync_and_async_allow_alike_example:
  "fst (async_call (sample_enf ''enforce'') None None (\<lambda>_. []) ''t'' 0 sample_tool [] [] sample_event
     (sample_pipeline [sample_rule ''r'' ''shell.*'' ALLOW])) =
   fst (call_wrapped (sample_enf ''enforce'') 0 50 sample_tool [] [] sample_event
     (sample_pipeline [sample_rule ''r'' ''shell.*'' ALLOW]))"
proof -
  have "(case fst (handle_attempt sample_ext 0 0 sample_event (sample_pipeline [sample_rule ''r'' ''shell.*'' ALLOW])) of
      Inl _ \<Rightarrow> False | Inr (d, _) \<Rightarrow> d_action d = ALLOW \<and> d_obligations d = [])" by code_simp
  then obtain d ev' p1 where "handle_attempt sample_ext 0 0 sample_event
      (sample_pipeline [sample_rule ''r'' ''shell.*'' ALLOW]) = (Inr (d, ev'), p1)" "d_action d = ALLOW" "d_obligations d = []"
    by (rule sample_decision)
  then show ?thesis
    using sync_and_async_allow_alike [of "sample_enf ''enforce''" 0 sample_event
        "sample_pipeline [sample_rule ''r'' ''shell.*'' ALLOW]" d ev' p1 None "\<lambda>_. []" "''t''" sample_tool "[]" "[]" 50]
    by simp
qed
text \<open>When the features of a call cannot be computed, the synchronous wrapper raises and runs nothing;
  the asynchronous wrapper runs the tool on the unchecked arguments, since the pipeline has no
  \<open>fail_open\<close> attribute to forbid it.\<close>

theorem async_fails_open:
  assumes "attempt_features (en_now env) ev p = Inl e"
  shows "fst (call_wrapped env elapsed n w reg bound ev p) = Inl e \<and>
     es_executed (snd (call_wrapped env elapsed n w reg bound ev p)) = es_executed p \<and>
     fst (async_call env None None txt pid elapsed w reg bound ev p) = wt_fn w bound \<and>
     es_executed (snd (async_call env None None txt pid elapsed w reg bound ev p)) = es_executed p @ [ev]"
proof -
  obtain p1 where a: "handle_attempt (en_ext env) (en_now env) elapsed ev p = (Inl e, p1)"
    using assms by (cases rule: handle_attempt_cases [of "en_now env" ev p "en_ext env" elapsed]) auto
  have "es_executed p1 = es_executed p"
    using handle_attempt_not_run [of "en_ext env" "en_now env" elapsed ev p] by (simp add: a)
  then show ?thesis by (simp add: call_wrapped_def guarded_call_def async_call_def a)
qed

text \<open>A call whose target names its tags by a number: they cannot be iterated.\<close>

definition odd_event :: runtime_event where
  "odd_event = sample_event\<lparr>ev_tool_call := Some (sample_call\<lparr>tc_target := [(''tags'', VInt 5)]\<rparr>)\<rparr>"

lemma async_fails_open_example:
  "fst (async_call (sample_enf ''enforce'') None None (\<lambda>_. []) ''t'' 0 sample_tool [] [] odd_event
     (sample_pipeline [sample_rule ''r'' ''shell.*'' DENY])) = Inr (VStr ''done'')"
proof -
  have "(case attempt_features 0 odd_event (sample_pipeline [sample_rule ''r'' ''shell.*'' DENY]) of
      Inl _ \<Rightarrow> True | Inr _ \<Rightarrow> False)" by code_simp
  then obtain e where "attempt_features (en_now (sample_enf ''enforce'')) odd_event
      (sample_pipeline [sample_rule ''r'' ''shell.*'' DENY]) = Inl e"
    by (auto split: sum.splits)
  from async_fails_open [OF this, of 0 50 sample_tool "[]" "[]" "\<lambda>_. []" "''t''"] show ?thesis
    by (simp add: sample_tool_def)
qed

text \<open>A call under an LLM_CHECK decision without obligations waits for a reviewer in the synchronous
  wrapper when no model is configured and approvals suspend; the asynchronous wrapper runs it.\<close>

theorem async_skips_llm_review:
  assumes "handle_attempt (en_ext env) (en_now env) elapsed ev p = (Inr (d, ev'), p1)"
    and "d_action d = LLM_CHECK" and "d_obligations d = []" and "ec_mode (en_config env) = ''enforce''"
    and "en_llm env = None" and "ec_approval_mode (en_config env) = ''suspend''"
  shows "es_executed (snd (call_wrapped env elapsed n w reg bound ev p)) = es_executed p \<and>
     es_executed (snd (async_call env None fo txt pid elapsed w reg bound ev p)) = es_executed p @ [ev'] \<and>
     fst (async_call env None fo txt pid elapsed w reg bound ev p) = run_wrapped w reg bound ev'"
proof -
  let ?env = "env\<lparr>en_exec := run_wrapped w reg bound\<rparr>"
  let ?rv = "revalidate (en_ext env) (en_now env) elapsed"
  have p1: "es_executed p1 = es_executed p"
    using handle_attempt_not_run [of "en_ext env" "en_now env" elapsed ev p] assms(1) by simp
  obtain out p2 where out: "enforcer_apply ?env ?rv n ev' d p1 = (out, p2)" by fastforce
  have "enforcer_apply ?env ?rv n ev' d p1 = human_check ?env ?rv n ev' (resolve_llm_check_decision ?env ev' d) p1"
    using assms(2,4,5) by (simp add: enforcer_apply_def llm_check_def resolved_without_backend Let_def)
  moreover have "not_run p1 (snd (human_check ?env ?rv n ev' x p1))" for x
  proof (cases n)
    case (Suc m)
    then show ?thesis using human_check_suspend [of ?env ?rv m ev' x p1] assms(6) by auto
  qed (simp add: not_run_def)
  ultimately have "es_executed p2 = es_executed p1" using out by (metis not_run_def snd_conv)
  moreover have "async_call env None fo txt pid elapsed w reg bound ev p = async_run env w reg bound ev' p1"
    using assms(2,3) by (simp add: async_call_decided [OF assms(1)] pipeline_mode_def async_enforce_plain)
  moreover have "fst (async_run env w reg bound ev' p1) = run_wrapped w reg bound ev'"
    by (simp add: async_run_def Let_def split: sum.split)
  ultimately show ?thesis using p1 by (simp add: call_wrapped_decided [OF assms(1) out])
qed

definition review_env :: enf_env where
  "review_env = (sample_enf ''enforce'')\<lparr>en_config :=
     default_enforcer_config\<lparr>ec_mode := ''enforce'', ec_approval_mode := ''suspend''\<rparr>\<rparr>"

lemma async_skips_llm_review_example:
  "fst (async_call review_env None None (\<lambda>_. []) ''t'' 0 sample_tool [] [] sample_event
     (sample_pipeline [sample_rule ''r'' ''shell.*'' LLM_CHECK])) = Inr (VStr ''done'')"
proof -
  let ?p = "sample_pipeline [sample_rule ''r'' ''shell.*'' LLM_CHECK]"
  have env: "en_ext review_env = sample_ext" "en_now review_env = 0" "en_llm review_env = None"
      "ec_mode (en_config review_env) = ''enforce''" "ec_approval_mode (en_config review_env) = ''suspend''"
    by (simp_all add: review_env_def) (simp add: sample_enf_def)
  have "(case fst (handle_attempt sample_ext 0 0 sample_event ?p) of
      Inl _ \<Rightarrow> False | Inr (d, _) \<Rightarrow> d_action d = LLM_CHECK \<and> d_obligations d = [])" by code_simp
  then obtain d ev' p1 where a: "handle_attempt sample_ext 0 0 sample_event ?p = (Inr (d, ev'), p1)"
      "d_action d = LLM_CHECK" "d_obligations d = []"
    by (rule sample_decision)
  have "fst (async_call review_env None None (\<lambda>_. []) ''t'' 0 sample_tool [] [] sample_event ?p) =
      run_wrapped sample_tool [] [] ev'"
    using async_skips_llm_review [of review_env 0 sample_event ?p d ev' p1 50 sample_tool "[]" "[]"
        None "\<lambda>_. []" "''t''"] a env by simp
  then show ?thesis by (simp add: run_wrapped_def sample_tool_def split: option.split)
qed

subsection \<open>Sessions and the remote pipeline\<close>

text \<open>However often sessions are started and ended through a guard, ending the last one brings back
  exactly the context there was before the first, so a session never leaks into later calls; the
  principal may be exchanged meanwhile as long as a session is open.\<close>

theorem sessions_do_not_leak:
  assumes "principal_inside ops (None, base)"
  shows "end_session (fold session_op_step ops (None, base)) = (None, base)"
  by (rule end_session_restores [OF session_ops_restore [OF _ assms]]) (simp add: restores_def)

definition two_sessions :: "session_op list" where
  "two_sessions = [StartSession ''x'' (mk_principal ''a'' ''s'') None None None, SetPrincipal (mk_principal ''b'' ''s''),
     StartSession ''y'' (mk_principal ''c'' ''t'') None None None]"

lemma sessions_do_not_leak_example:
  "end_session (fold session_op_step two_sessions (None, None)) = (None, None)"
  by (rule sessions_do_not_leak) (simp add: two_sessions_def start_session_def push_session_def Let_def)

text \<open>Where the guard in the process refuses an allowed call because a rate limit is used up, the
  guard of a remote runtime runs it: of an allowing decision it ignores the obligations.\<close>

theorem remote_ignores_obligations:
  assumes "client ev = Inr d" and "d_action d = ALLOW" and "d_obligations d \<noteq> []"
    and "check_rate_limit (en_ext env) (en_now env) ev d (es_rates s) = (Inr (Some m), rates)"
    and "ec_mode (en_config env) = ''enforce''" and "en_exec env ev = Inr v"
  shows "fst (enforcer_apply env rv n ev d s) = Inl (denied ev d (''rate_limit: '' @ m)) \<and>
     es_executed (snd (enforcer_apply env rv n ev d s)) = es_executed s \<and>
     fst (remote_guarded_call env client ev rp) = Inr v \<and>
     rm_executed (snd (remote_guarded_call env client ev rp)) = rm_executed rp @ [ev]"
  using remote_allow [of client ev d env v rp] assms
  by (simp add: enforcer_apply_def enforce_allow_def Let_def)

definition limited_decision :: decision where
  "limited_decision = (decision_allow [] [])\<lparr>d_obligations :=
     [\<lparr>ob_kind = ''rate_limit'', ob_params = [(''max'', VInt 0)]\<rparr>]\<rparr>"

lemma remote_ignores_obligations_example:
  "rm_executed (snd (remote_guarded_call (sample_enf ''enforce'') (\<lambda>_. Inr limited_decision) sample_event
     \<lparr>rm_mode = ''enforce'', rm_audit = new_audit_log 10, rm_executed = []\<rparr>)) = [sample_event]"
proof -
  have "(case fst (check_rate_limit sample_ext 0 sample_event limited_decision []) of
      Inr (Some _) \<Rightarrow> True | _ \<Rightarrow> False)" by code_simp
  then obtain m rates where "check_rate_limit sample_ext 0 sample_event limited_decision [] = (Inr (Some m), rates)"
    by (cases "check_rate_limit sample_ext 0 sample_event limited_decision []") (auto split: sum.splits option.splits)
  moreover have "en_exec (sample_enf ''enforce'') sample_event = Inr VNone" by (simp add: sample_enf_def)
  ultimately show ?thesis
    using remote_ignores_obligations [of "\<lambda>_. Inr limited_decision" sample_event limited_decision
        "sample_enf ''enforce''" "\<lparr>es_bridge = [], es_rates = [], es_executed = []\<rparr>" m rates VNone]
    by (simp add: limited_decision_def decision_allow_def)
qed

end
