(* ===== verification/Runtime_Loops.thy ===== *)
theory Runtime_Loops
  imports Approval Audit_Log Stats
begin

text \<open>
  The loops beside the actors (\<open>runtime/loops\<close>): decision metrics, the risk and cooldown filter in
  front of rule synthesis, the watchdog over approval tickets, and the loop that hands audit records
  to a sink.  A loop is its state and what one message or one tick does to it; sleeping between
  ticks is the gap between two steps.
\<close>

subsection \<open>Decision metrics\<close>

definition risk_bucket :: "rat \<Rightarrow> string" where
  "risk_bucket score =
     (if 9/10 \<le> score then ''critical'' else if 6/10 \<le> score then ''high''
      else if 3/10 \<le> score then ''medium'' else ''low'')"

record decision_loop =
  dl_action_counts :: counter
  dl_risk_buckets :: counter
  dl_matched_rules :: counter
  dl_total :: nat

definition new_decision_loop :: decision_loop where
  "new_decision_loop = \<lparr>dl_action_counts = [], dl_risk_buckets = [], dl_matched_rules = [], dl_total = 0\<rparr>"

definition decision_loop_handle :: "decision \<Rightarrow> decision_loop \<Rightarrow> decision_loop" where
  "decision_loop_handle d dl =
     \<lparr>dl_action_counts = counter_incr (action_value (d_action d)) (dl_action_counts dl),
      dl_risk_buckets = counter_incr (risk_bucket (d_risk_score d)) (dl_risk_buckets dl),
      dl_matched_rules = counter_update (d_matched_rules d) (dl_matched_rules dl),
      dl_total = dl_total dl + 1\<rparr>"

definition decision_loop_metrics :: "decision_loop \<Rightarrow> nat \<times> counter \<times> counter \<times> (string \<times> nat) list" where
  "decision_loop_metrics dl =
     (dl_total dl, dl_action_counts dl, dl_risk_buckets dl, most_common 10 (dl_matched_rules dl))"

definition decision_loop_ok :: "decision_loop \<Rightarrow> bool" where
  "decision_loop_ok dl \<longleftrightarrow> counter_total (dl_action_counts dl) = dl_total dl \<and>
     counter_total (dl_risk_buckets dl) = dl_total dl \<and>
     distinct (map fst (dl_action_counts dl)) \<and> distinct (map fst (dl_risk_buckets dl))"

lemma decision_loop_ok_new [guard_intros]: "decision_loop_ok new_decision_loop"
  by (simp add: decision_loop_ok_def new_decision_loop_def counter_total_def)

lemma decision_loop_ok_handle [guard_intros]: "decision_loop_ok dl \<Longrightarrow> decision_loop_ok (decision_loop_handle d dl)"
  by (simp add: decision_loop_ok_def decision_loop_handle_def counter_total_incr distinct_counter_incr)

subsection \<open>A gate with a cooldown\<close>

text \<open>
  Two parts fire at most once per period and bucket: the dynamic rule loop and the rule updater.
  \<open>attempt now x s\<close> answers whether \<open>x\<close> fires at that time.
\<close>

locale cooldown_gate =
  fixes attempt :: "rat \<Rightarrow> 'x \<Rightarrow> 's \<Rightarrow> bool \<times> 's"
    and bucket :: "'x \<Rightarrow> string"
    and last_fire :: "'s \<Rightarrow> string \<Rightarrow> rat"
    and period :: "'s \<Rightarrow> rat"
  assumes fires_late: "fst (attempt now x s) \<Longrightarrow> period s \<le> now - last_fire s (bucket x)"
    and last_attempt: "last_fire (snd (attempt now x s)) k =
      (if fst (attempt now x s) \<and> k = bucket x then now else last_fire s k)"
    and period_attempt: "period (snd (attempt now x s)) = period s"
begin

text \<open>The firings of a run, each with its time and bucket.\<close>

fun firings :: "(rat \<times> 'x) list \<Rightarrow> 's \<Rightarrow> (rat \<times> string) list" where
  "firings [] s = []"
| "firings ((now, x) # xs) s =
     (if fst (attempt now x s) then [(now, bucket x)] else []) @ firings xs (snd (attempt now x s))"

lemma firings_late:
  "0 \<le> period s \<Longrightarrow> (t, k) \<in> set (firings xs s) \<Longrightarrow> last_fire s k + period s \<le> t"
proof (induction xs s rule: firings.induct)
  case (2 now x xs s)
  have late: "period s \<le> now - last_fire s (bucket x)" if "fst (attempt now x s)"
    using that by (rule fires_late)
  from 2(3) consider (now) "fst (attempt now x s)" "t = now" "k = bucket x"
    | (later) "(t, k) \<in> set (firings xs (snd (attempt now x s)))"
    by (auto split: if_splits)
  then show ?case
  proof cases
    case now
    then show ?thesis using late by simp
  next
    case later
    then have "last_fire (snd (attempt now x s)) k + period s \<le> t"
      using 2(1,2) by (simp add: period_attempt)
    then show ?thesis using late 2(2) by (cases "k = bucket x") (auto simp: last_attempt split: if_splits)
  qed
qed simp

lemma firings_apart:
  "0 \<le> period s \<Longrightarrow> sorted_wrt (\<lambda>a b. snd a = snd b \<longrightarrow> fst a + period s \<le> fst b) (firings xs s)"
proof (induction xs s rule: firings.induct)
  case (2 now x xs s)
  have "now + period s \<le> t" if "fst (attempt now x s)" "(t, bucket x) \<in> set (firings xs (snd (attempt now x s)))" for t
    using firings_late [of "snd (attempt now x s)" t "bucket x" xs] that 2(2)
    by (simp add: last_attempt period_attempt)
  moreover have "sorted_wrt (\<lambda>a b. snd a = snd b \<longrightarrow> fst a + period s \<le> fst b) (firings xs (snd (attempt now x s)))"
    using 2 by (simp add: period_attempt)
  ultimately show ?case by auto
qed simp

end

subsection \<open>The dynamic rule loop\<close>

record dynamic_loop =
  dr_risk_threshold :: rat
  dr_cooldown :: rat
  dr_last_fire :: "(string, rat) dict"
  dr_fired :: nat
  dr_suppressed_cooldown :: nat
  dr_suppressed_threshold :: nat
  dr_fire_reasons :: counter

definition new_dynamic_loop :: "rat \<Rightarrow> rat \<Rightarrow> dynamic_loop" where
  "new_dynamic_loop threshold cooldown = \<lparr>dr_risk_threshold = threshold, dr_cooldown = cooldown,
     dr_last_fire = [], dr_fired = 0, dr_suppressed_cooldown = 0, dr_suppressed_threshold = 0,
     dr_fire_reasons = []\<rparr>"

definition dynamic_should_fire :: "decision \<Rightarrow> dynamic_loop \<Rightarrow> bool" where
  "dynamic_should_fire d dr \<longleftrightarrow>
     dr_risk_threshold dr \<le> d_risk_score d \<or> action_value (d_action d) \<in> {''deny'', ''human_check''}"

definition bucket_key :: "runtime_event \<Rightarrow> string" where
  "bucket_key ev = p_agent_id (ev_principal ev) @ '':'' @
     (case ev_tool_call ev of Some tc \<Rightarrow> tc_tool_name tc | None \<Rightarrow> ''?'')"

text \<open>The handler answers whether the event is passed on.\<close>

definition dynamic_loop_handle :: "rat \<Rightarrow> runtime_event \<times> decision \<Rightarrow> dynamic_loop \<Rightarrow> bool \<times> dynamic_loop" where
  "dynamic_loop_handle now x dr =
     (let (ev, d) = x; bucket = bucket_key ev; last_at = dict_getd (dr_last_fire dr) bucket 0
      in if \<not> dynamic_should_fire d dr
         then (False, dr\<lparr>dr_suppressed_threshold := dr_suppressed_threshold dr + 1\<rparr>)
         else if now - last_at < dr_cooldown dr
         then (False, dr\<lparr>dr_last_fire := dict_set bucket last_at (dr_last_fire dr),
                dr_suppressed_cooldown := dr_suppressed_cooldown dr + 1\<rparr>)
         else (True, dr\<lparr>dr_last_fire := dict_set bucket now (dr_last_fire dr), dr_fired := dr_fired dr + 1,
                dr_fire_reasons := counter_incr (action_value (d_action d)) (dr_fire_reasons dr)\<rparr>))"

interpretation drl: cooldown_gate dynamic_loop_handle "\<lambda>x. bucket_key (fst x)"
  "\<lambda>dr k. dict_getd (dr_last_fire dr) k 0" dr_cooldown
  by unfold_locales
    (auto simp: dynamic_loop_handle_def dict_getd_def Let_def split: prod.splits if_splits)

text \<open>Every message is counted once.\<close>

lemma dynamic_loop_counts:
  "dr_fired (snd (dynamic_loop_handle now x dr)) + dr_suppressed_cooldown (snd (dynamic_loop_handle now x dr)) +
     dr_suppressed_threshold (snd (dynamic_loop_handle now x dr)) =
   dr_fired dr + dr_suppressed_cooldown dr + dr_suppressed_threshold dr + 1"
  by (simp add: dynamic_loop_handle_def Let_def split: prod.split)

subsection \<open>The watchdog over approval tickets\<close>

text \<open>\<open>int(x * 1000)\<close> rounds toward zero.\<close>

definition to_ms :: "rat \<Rightarrow> int" where
  "to_ms x = (if 0 \<le> x then floor (x * 1000) else - floor (- x * 1000))"

record review_loop =
  rl_timeout :: rat
  rl_on_timeout :: string
  rl_note :: string
  rl_auto_resolved :: nat

definition review_expire :: "int \<Rightarrow> review_loop \<times> approval_bridge \<Rightarrow> approval_ticket \<Rightarrow> review_loop \<times> approval_bridge" where
  "review_expire cutoff st t =
     (let (rl, b) = st in
      if tk_created_ms t \<le> cutoff then
        (let (ok, b') = resolve (tk_ticket_id t) (rl_on_timeout rl) (rl_note rl) b
         in (if ok then rl\<lparr>rl_auto_resolved := rl_auto_resolved rl + 1\<rparr> else rl, b'))
      else (rl, b))"

definition review_tick :: "rat \<Rightarrow> review_loop \<times> approval_bridge \<Rightarrow> review_loop \<times> approval_bridge" where
  "review_tick now st =
     (let cutoff = to_ms now - to_ms (rl_timeout (fst st))
      in foldl (review_expire cutoff) st (pending (snd st)))"

text \<open>Tickets are stored under their own id.\<close>

definition bridge_ok :: "approval_bridge \<Rightarrow> bool" where
  "bridge_ok b \<longleftrightarrow> distinct (map fst b) \<and> (\<forall>(k, t) \<in> set b. tk_ticket_id t = k)"

lemma bridge_ok_Nil [guard_intros]: "bridge_ok []"
  by (simp add: bridge_ok_def)

lemma bridge_ok_set: "bridge_ok b \<Longrightarrow> tk_ticket_id t = tid \<Longrightarrow> bridge_ok (dict_set tid t b)"
  using set_dict_set_subset [of tid t b] by (auto simp: bridge_ok_def distinct_update)

lemma bridge_ok_enqueue [guard_intros]: "bridge_ok b \<Longrightarrow> bridge_ok (enqueue tid now ev d b)"
  by (simp add: enqueue_def bridge_ok_set)

lemma bridge_ok_id: "bridge_ok b \<Longrightarrow> map_of b tid = Some t \<Longrightarrow> tk_ticket_id t = tid"
  by (auto simp: bridge_ok_def dest!: map_of_SomeD)

lemma bridge_ok_resolve [guard_intros]: "bridge_ok b \<Longrightarrow> bridge_ok (snd (resolve tid a n b))"
  by (auto simp: resolve_def intro!: bridge_ok_set dest: bridge_ok_id split: option.split)

lemma bridge_ok_finish_wait [guard_intros]: "bridge_ok b \<Longrightarrow> bridge_ok (snd (finish_wait tid b))"
  by (auto simp: finish_wait_def Let_def intro!: bridge_ok_set dest: bridge_ok_id split: option.split)

lemma bridge_ok_review_tick: "bridge_ok b \<Longrightarrow> bridge_ok (snd (review_tick now (rl, b)))"
proof -
  assume b: "bridge_ok b"
  have step: "bridge_ok (snd (review_expire c st t))" if "bridge_ok (snd st)" for c st t
    using that bridge_ok_resolve [OF that, of "tk_ticket_id t" "rl_on_timeout (fst st)" "rl_note (fst st)"]
    by (auto simp: review_expire_def split: prod.splits)
  have "bridge_ok (snd (foldl (review_expire c) st ts))" if "bridge_ok (snd st)" for c st ts
    using that by (induction ts arbitrary: st) (simp_all add: step)
  with b show ?thesis by (simp add: review_tick_def)
qed

definition created_of :: "approval_bridge \<Rightarrow> string \<Rightarrow> int option" where
  "created_of b tid = map_option tk_created_ms (map_of b tid)"

definition overdue :: "int \<Rightarrow> approval_ticket list \<Rightarrow> string \<Rightarrow> bool" where
  "overdue cutoff ts u \<longleftrightarrow> (\<exists>t \<in> set ts. tk_ticket_id t = u \<and> tk_created_ms t \<le> cutoff)"

lemma review_expire_all:
  "status_of (snd (foldl (review_expire cutoff) (rl, b) ts)) u =
      (if overdue cutoff ts u \<and> status_of b u = Some Pending
       then Some (resolved_status (rl_on_timeout rl)) else status_of b u) \<and>
   rl_on_timeout (fst (foldl (review_expire cutoff) (rl, b) ts)) = rl_on_timeout rl"
proof (induction ts rule: rev_induct)
  case (snoc t ts)
  obtain rl1 b1 where s1: "foldl (review_expire cutoff) (rl, b) ts = (rl1, b1)" by fastforce
  obtain ok b2 where r: "resolve (tk_ticket_id t) (rl_on_timeout rl1) (rl_note rl1) b1 = (ok, b2)" by fastforce
  have "status_of b2 u = (if u = tk_ticket_id t \<and> status_of b1 (tk_ticket_id t) = Some Pending
      then Some (resolved_status (rl_on_timeout rl1)) else status_of b1 u)"
    using status_resolve [of "tk_ticket_id t" "rl_on_timeout rl1" "rl_note rl1" b1 u] by (simp add: r)
  moreover have "resolved_status act \<noteq> Pending" for act by (simp add: resolved_status_def)
  moreover have "review_expire cutoff (rl1, b1) t = (if tk_created_ms t \<le> cutoff
      then (if ok then rl1\<lparr>rl_auto_resolved := rl_auto_resolved rl1 + 1\<rparr> else rl1, b2) else (rl1, b1))"
    by (simp add: review_expire_def r)
  moreover have "overdue cutoff (ts @ [t]) u \<longleftrightarrow>
      overdue cutoff ts u \<or> u = tk_ticket_id t \<and> tk_created_ms t \<le> cutoff"
    by (auto simp: overdue_def)
  ultimately show ?case using snoc unfolding foldl_append s1 by (auto split: if_splits)
qed (simp add: overdue_def)

lemma pending_overdue:
  assumes "bridge_ok b"
  shows "overdue cutoff (pending b) u \<longleftrightarrow>
    status_of b u = Some Pending \<and> (\<exists>c. created_of b u = Some c \<and> c \<le> cutoff)"
proof
  assume "overdue cutoff (pending b) u"
  then obtain t where t: "t \<in> set (pending b)" "tk_ticket_id t = u" "tk_created_ms t \<le> cutoff"
    by (auto simp: overdue_def)
  then obtain k where "(k, t) \<in> set b" by (auto simp: pending_def dict_values_def)
  moreover from this have "k = u" using assms t(2) by (auto simp: bridge_ok_def)
  ultimately have "map_of b u = Some t" using assms by (simp add: bridge_ok_def map_of_is_SomeI)
  with t show "status_of b u = Some Pending \<and> (\<exists>c. created_of b u = Some c \<and> c \<le> cutoff)"
    by (simp add: status_of_def created_of_def pending_def)
next
  assume "status_of b u = Some Pending \<and> (\<exists>c. created_of b u = Some c \<and> c \<le> cutoff)"
  then obtain t where t: "map_of b u = Some t" "tk_status t = Pending" "tk_created_ms t \<le> cutoff"
    by (auto simp: status_of_def created_of_def)
  then have "t \<in> set (pending b)" "tk_ticket_id t = u"
    using bridge_ok_id [OF assms t(1)] by (force simp: pending_def dict_values_def dest!: map_of_SomeD)+
  with t(3) show "overdue cutoff (pending b) u" by (auto simp: overdue_def)
qed

lemma review_tick_status:
  assumes "bridge_ok b"
  shows "status_of (snd (review_tick now (rl, b))) u =
    (if status_of b u = Some Pending \<and> (\<exists>c. created_of b u = Some c \<and> c \<le> to_ms now - to_ms (rl_timeout rl))
     then Some (resolved_status (rl_on_timeout rl)) else status_of b u)"
  using review_expire_all [of "to_ms now - to_ms (rl_timeout rl)" rl b "pending b" u]
    pending_overdue [OF assms, of "to_ms now - to_ms (rl_timeout rl)" u]
  by (auto simp: review_tick_def)

subsection \<open>The audit loop\<close>

text \<open>The sink is the list of batches handed to it.  The cursor is kept but never moved.\<close>

record audit_loop =
  au_batch_size :: nat
  au_has_sink :: bool
  au_batches :: "audit_record list list"
  au_cursor :: nat
  au_dropped_warned_at :: nat

definition audit_loop_tick :: "audit_log \<Rightarrow> audit_loop \<Rightarrow> audit_loop" where
  "audit_loop_tick lg al =
     (let al1 = (if au_dropped_warned_at al < al_dropped_count lg
                 then al\<lparr>au_dropped_warned_at := al_dropped_count lg\<rparr> else al);
          records = audit_recent (au_batch_size al1) lg
      in if \<not> au_has_sink al1 \<or> records = [] then al1 else al1\<lparr>au_batches := au_batches al1 @ [records]\<rparr>)"

text \<open>A tick forwards the newest records, whatever earlier ticks forwarded.\<close>

lemma last_n_last_n: "m \<le> n \<Longrightarrow> last_n m (last_n n xs) = last_n m xs"
  by (cases "n \<le> length xs") (simp_all add: last_n_def)

lemma audit_tick_batch:
  assumes "audit_ok lg" and "au_has_sink al" and "0 < au_batch_size al"
    and "au_batch_size al \<le> al_buffer_size lg" and "al_sink lg \<noteq> []"
  shows "au_batches (audit_loop_tick lg al) = au_batches al @ [last_n (au_batch_size al) (al_sink lg)]"
proof -
  have "al_buf lg = last_n (al_buffer_size lg) (al_sink lg)" using assms(1) by (simp add: audit_ok_def)
  then have "audit_recent (au_batch_size al) lg = last_n (au_batch_size al) (al_sink lg)"
    using assms(3,4) by (simp add: audit_recent_def last_n_last_n)
  moreover have "last_n (au_batch_size al) (al_sink lg) \<noteq> []"
    using assms(3,5) by (simp flip: length_greater_0_conv)
  ultimately show ?thesis using assms(2) by (simp add: audit_loop_tick_def Let_def)
qed

end
