(* ===== verification/Actor_System.thy ===== *)
theory Actor_System
  imports Pipeline Runtime_Loops
begin

text \<open>
  The asynchronous runtime (\<open>runtime/event_bus.py\<close>, \<open>runtime/actors\<close>, \<open>runtime/loops\<close>,
  \<open>AgentGuardRuntime\<close> in \<open>runtime/server.py\<close>).  It extends the state of the pipeline, which it shares
  with the guard, by the table of subscriptions, one mailbox per actor, the queue and the futures of
  the ingress loop, and the counters of the loops.  A handler of the source suspends only to take
  the next message, so handling one message is one step; which actor moves next is open.  The
  evaluator of this state is the policy actor's own.
\<close>

subsection \<open>Messages and subscriptions\<close>

datatype actor =
    SessionActor | PolicyActor | DecisionActor | GraphActor | DynamicRuleActor | HumanReviewActor
  | DegradeActor | AuditActor

text \<open>What can be subscribed to a topic: an actor's mailbox, or the handler of a loop.\<close>

datatype subscriber = Mailbox actor | DecisionMetrics | DynamicFilter

record message =
  ms_topic :: string
  ms_event :: runtime_event
  ms_features :: pydict
  ms_decision :: "decision option"
  ms_reply_to :: "nat option"

type_synonym subscriptions = "(string, subscriber list) dict"

definition subscribe :: "string \<Rightarrow> subscriber \<Rightarrow> subscriptions \<Rightarrow> subscriptions" where
  "subscribe topic h table = dict_set topic (dict_getd table topic [] @ [h]) table"

definition unsubscribe :: "string \<Rightarrow> subscriber \<Rightarrow> subscriptions \<Rightarrow> subscriptions" where
  "unsubscribe topic h table =
     (if h \<in> set (dict_getd table topic []) then dict_set topic (remove1 h (dict_getd table topic [])) table
      else table)"

text \<open>A future of the ingress loop: open, answered, failed, or given up by its caller.\<close>

datatype future = Open | Answered decision | Failed py_exc | GivenUp

record actor_system = pipeline +
  as_started :: bool
  as_table :: subscriptions
  as_mail :: "actor \<Rightarrow> message list"
  as_ingress :: "(runtime_event \<times> nat) list"
  as_futures :: "future list"
  as_metrics :: decision_loop
  as_dynamic :: dynamic_loop
  as_degrade_total :: nat
  as_degrade_profiles :: counter
  as_decided :: "(runtime_event \<times> decision) list"

text \<open>\<open>as_decided\<close> only records the order in which the decision actor handled its messages.\<close>

definition post :: "actor \<Rightarrow> message \<Rightarrow> actor_system \<Rightarrow> actor_system" where
  "post a m s = s\<lparr>as_mail := (as_mail s)(a := as_mail s a @ [m])\<rparr>"

text \<open>
  Publishing runs the handlers of the topic in order.  The filter publishes what it lets pass; its
  own topic is another one, where only mailboxes are subscribed.
\<close>

definition forward_filtered :: "message \<Rightarrow> actor_system \<Rightarrow> actor_system" where
  "forward_filtered m s =
     foldl (\<lambda>s h. case h of Mailbox a \<Rightarrow> post a m s | _ \<Rightarrow> s) s (dict_getd (as_table s) (ms_topic m) [])"

definition filter_handle :: "rat \<Rightarrow> message \<Rightarrow> actor_system \<Rightarrow> actor_system" where
  "filter_handle now m s =
     (case ms_decision m of
        None \<Rightarrow> s
      | Some d \<Rightarrow>
          (let (fire, dr) = dynamic_loop_handle now (ms_event m, d) (as_dynamic s);
               s1 = s\<lparr>as_dynamic := dr\<rparr>
           in if fire then forward_filtered (m\<lparr>ms_topic := ''slow_path_filtered'', ms_reply_to := None\<rparr>) s1
              else s1))"

definition metrics_handle :: "message \<Rightarrow> actor_system \<Rightarrow> actor_system" where
  "metrics_handle m s =
     (case ms_decision m of
        None \<Rightarrow> s | Some d \<Rightarrow> s\<lparr>as_metrics := decision_loop_handle d (as_metrics s)\<rparr>)"

definition deliver :: "rat \<Rightarrow> message \<Rightarrow> actor_system \<Rightarrow> subscriber \<Rightarrow> actor_system" where
  "deliver now m s h =
     (case h of
        Mailbox a \<Rightarrow> post a m s | DecisionMetrics \<Rightarrow> metrics_handle m s | DynamicFilter \<Rightarrow> filter_handle now m s)"

definition bus_publish :: "rat \<Rightarrow> message \<Rightarrow> actor_system \<Rightarrow> actor_system" where
  "bus_publish now m s = foldl (deliver now m) s (dict_getd (as_table s) (ms_topic m) [])"

definition reply :: "nat option \<Rightarrow> future \<Rightarrow> actor_system \<Rightarrow> actor_system" where
  "reply to fut s =
     (case to of
        None \<Rightarrow> s
      | Some i \<Rightarrow>
          if i < length (as_futures s) \<and> as_futures s ! i = Open
          then s\<lparr>as_futures := (as_futures s)[i := fut]\<rparr> else s)"

subsection \<open>The ingress loop\<close>

definition submit_request :: "runtime_event \<Rightarrow> actor_system \<Rightarrow> actor_system" where
  "submit_request ev s =
     s\<lparr>as_futures := as_futures s @ [Open], as_ingress := as_ingress s @ [(ev, length (as_futures s))]\<rparr>"

definition give_up :: "nat \<Rightarrow> actor_system \<Rightarrow> actor_system" where
  "give_up i s = reply (Some i) GivenUp s"

definition run_ingress :: "rat \<Rightarrow> actor_system \<Rightarrow> actor_system" where
  "run_ingress now s =
     (case as_ingress s of
        [] \<Rightarrow> s
      | (ev, i) # rest \<Rightarrow>
          (let s1 = s\<lparr>as_ingress := rest\<rparr>
           in if as_futures s ! i \<noteq> Open then s1
              else bus_publish now \<lparr>ms_topic = ''tool_call_requested'', ms_event = ev, ms_features = [],
                     ms_decision = None, ms_reply_to = Some i\<rparr> s1))"

definition inflight :: "actor_system \<Rightarrow> nat" where
  "inflight s = length (filter (\<lambda>f. f = Open) (as_futures s))"

subsection \<open>Actors\<close>

definition session_features :: "runtime_event \<Rightarrow> actor_system \<Rightarrow> pydict result \<times> actor_system" where
  "session_features ev s =
     (let (rules, rt) = rules_for_agent (p_agent_id (ev_principal ev)) (pl_router s);
          s1 = s\<lparr>pl_router := rt\<rparr>
      in (compute_fast_features ev (pl_cache s1) (pl_graph s1) rules (pl_allowlists s1), s1))"

definition session_handle :: "rat \<Rightarrow> message \<Rightarrow> actor_system \<Rightarrow> actor_system" where
  "session_handle now m s =
     (if ms_topic m \<noteq> ''tool_call_requested'' then s
      else
        (let (enriched, c1) = enrich_event (ms_event m) (pl_cache s);
             (features, s1) = session_features enriched (update_cache (\<lambda>_. c1) s)
         in case features of
              Inl e \<Rightarrow> reply (ms_reply_to m) (Failed e) s1
            | Inr f \<Rightarrow>
                bus_publish now \<lparr>ms_topic = ''evaluate_policy'', ms_event = enriched, ms_features = f,
                  ms_decision = None, ms_reply_to = ms_reply_to m\<rparr> s1))"

definition policy_handle :: "externals \<Rightarrow> rat \<Rightarrow> message \<Rightarrow> actor_system \<Rightarrow> actor_system" where
  "policy_handle E now m s =
     (if ms_topic m \<noteq> ''evaluate_policy'' then s
      else
        (let (d, fe, rt) = evaluate E (ms_event m) (ms_features m) (pl_eval s, pl_router s)
         in bus_publish now \<lparr>ms_topic = ''make_decision'', ms_event = ms_event m, ms_features = [],
              ms_decision = Some d, ms_reply_to = ms_reply_to m\<rparr> (s\<lparr>pl_eval := fe, pl_router := rt\<rparr>)))"

definition follow_up :: "string \<Rightarrow> runtime_event \<Rightarrow> decision \<Rightarrow> message" where
  "follow_up topic ev d = \<lparr>ms_topic = topic, ms_event = ev, ms_features = [], ms_decision = Some d,
     ms_reply_to = None\<rparr>"

text \<open>The topics the decision actor publishes to, in order.\<close>

definition follow_ups :: "runtime_event \<Rightarrow> decision \<Rightarrow> message list" where
  "follow_ups ev d =
     (if d_action d = DEGRADE then [follow_up ''degrade_request'' ev d] else []) @
     (if d_action d = HUMAN_CHECK then [follow_up ''human_review_request'' ev d] else []) @
     [follow_up ''audit_event'' ev d, follow_up ''graph_update'' ev d, follow_up ''slow_path_event'' ev d]"

definition decision_handle :: "rat \<Rightarrow> message \<Rightarrow> actor_system \<Rightarrow> actor_system" where
  "decision_handle now m s =
     (if ms_topic m \<noteq> ''make_decision'' then s
      else
        (case ms_decision m of
           None \<Rightarrow> s
         | Some d \<Rightarrow>
             (let ev = ms_event m;
                  s1 = (if is_attempt ev then update_cache (append_trace ev) s else s);
                  s2 = reply (ms_reply_to m) (Answered d) s1;
                  s3 = s2\<lparr>as_decided := as_decided s2 @ [(ev, d)]\<rparr>
              in foldl (\<lambda>s m. bus_publish now m s) s3 (follow_ups ev d))))"

definition graph_handle :: "message \<Rightarrow> actor_system \<Rightarrow> actor_system" where
  "graph_handle m s =
     (if ms_topic m \<noteq> ''graph_update'' then s else submit_graph (ms_event m) (ms_decision m) s)"

definition audit_handle :: "message \<Rightarrow> actor_system \<Rightarrow> actor_system" where
  "audit_handle m s =
     (if ms_topic m \<noteq> ''audit_event'' then s else log_audit (ms_event m) (ms_decision m) s)"

definition degrade_handle :: "message \<Rightarrow> actor_system \<Rightarrow> actor_system" where
  "degrade_handle m s =
     (if ms_topic m \<noteq> ''degrade_request'' then s
      else
        (case ms_decision m of
           None \<Rightarrow> s
         | Some d \<Rightarrow> s\<lparr>as_degrade_total := as_degrade_total s + 1,
             as_degrade_profiles := (case d_degrade_profile d of
                None \<Rightarrow> as_degrade_profiles s
              | Some prof \<Rightarrow> if prof = [] then as_degrade_profiles s
                             else counter_incr prof (as_degrade_profiles s))\<rparr>))"

definition human_review_handle ::
  "(approval_bridge \<Rightarrow> string) \<Rightarrow> rat \<Rightarrow> message \<Rightarrow> actor_system \<Rightarrow> actor_system" where
  "human_review_handle fresh now m s =
     (if ms_topic m \<noteq> ''human_review_request'' then s
      else
        (case ms_decision m of
           None \<Rightarrow> s
         | Some d \<Rightarrow> s\<lparr>es_bridge :=
             enqueue (fresh (es_bridge s)) (floor (now * 1000)) (ms_event m) d (es_bridge s)\<rparr>))"

definition dynamic_rule_handle :: "message \<Rightarrow> actor_system \<Rightarrow> actor_system" where
  "dynamic_rule_handle m s =
     (if ms_topic m \<noteq> ''slow_path_filtered'' then s
      else s\<lparr>pl_slow := slow_submit (ms_event m) (pl_slow s)\<rparr>)"

text \<open>One turn of an actor's loop: take the oldest message and handle it.\<close>

definition run_actor ::
  "externals \<Rightarrow> (approval_bridge \<Rightarrow> string) \<Rightarrow> rat \<Rightarrow> actor \<Rightarrow> actor_system \<Rightarrow> actor_system" where
  "run_actor E fresh now a s =
     (case as_mail s a of
        [] \<Rightarrow> s
      | m # rest \<Rightarrow>
          (let s1 = s\<lparr>as_mail := (as_mail s)(a := rest)\<rparr>
           in case a of
                SessionActor \<Rightarrow> session_handle now m s1
              | PolicyActor \<Rightarrow> policy_handle E now m s1
              | DecisionActor \<Rightarrow> decision_handle now m s1
              | GraphActor \<Rightarrow> graph_handle m s1
              | DynamicRuleActor \<Rightarrow> dynamic_rule_handle m s1
              | HumanReviewActor \<Rightarrow> human_review_handle fresh now m s1
              | DegradeActor \<Rightarrow> degrade_handle m s1
              | AuditActor \<Rightarrow> audit_handle m s1))"

subsection \<open>Start and stop\<close>

definition actor_topics :: "(string \<times> subscriber) list" where
  "actor_topics =
     [(''tool_call_requested'', Mailbox SessionActor), (''evaluate_policy'', Mailbox PolicyActor),
      (''make_decision'', Mailbox DecisionActor), (''graph_update'', Mailbox GraphActor),
      (''slow_path_filtered'', Mailbox DynamicRuleActor), (''human_review_request'', Mailbox HumanReviewActor),
      (''degrade_request'', Mailbox DegradeActor), (''audit_event'', Mailbox AuditActor)]"

definition loop_topics :: "(string \<times> subscriber) list" where
  "loop_topics = [(''make_decision'', DecisionMetrics), (''slow_path_event'', DynamicFilter)]"

definition start_runtime :: "actor_system \<Rightarrow> actor_system" where
  "start_runtime s =
     (if as_started s then s
      else s\<lparr>as_table := foldl (\<lambda>t (topic, h). subscribe topic h t) (as_table s) (actor_topics @ loop_topics),
             as_started := True\<rparr>)"

text \<open>
  Stopping fails the open futures and removes the subscriptions in reverse order; the policy actor
  has no \<open>on_stop\<close> and stays subscribed.
\<close>

definition stop_runtime :: "actor_system \<Rightarrow> actor_system" where
  "stop_runtime s =
     (if \<not> as_started s then s
      else s\<lparr>as_futures := map (\<lambda>f. if f = Open then Failed (RuntimeError ''ingress shutting down'') else f) (as_futures s),
             as_table := foldl (\<lambda>t (topic, h). unsubscribe topic h t) (as_table s)
               (rev loop_topics @ filter (\<lambda>x. snd x \<noteq> Mailbox PolicyActor) (rev actor_topics)),
             as_started := False\<rparr>)"

definition load_runtime_rules :: "compiled_rule list \<Rightarrow> actor_system \<Rightarrow> actor_system" where
  "load_runtime_rules rules s = s\<lparr>pl_eval := evaluator_load rules (pl_eval s)\<rparr>"

definition new_runtime :: "rat \<Rightarrow> rat \<Rightarrow> pipeline \<Rightarrow> actor_system" where
  "new_runtime threshold cooldown p = pipeline.extend p
     \<lparr>as_started = False, as_table = [], as_mail = (\<lambda>_. []), as_ingress = [], as_futures = [],
      as_metrics = new_decision_loop, as_dynamic = new_dynamic_loop threshold cooldown,
      as_degrade_total = 0, as_degrade_profiles = [], as_decided = []\<rparr>"

text \<open>The table of subscriptions after the first start.\<close>

definition first_table :: subscriptions where
  "first_table =
     [(''tool_call_requested'', [Mailbox SessionActor]), (''evaluate_policy'', [Mailbox PolicyActor]),
      (''make_decision'', [Mailbox DecisionActor, DecisionMetrics]), (''graph_update'', [Mailbox GraphActor]),
      (''slow_path_filtered'', [Mailbox DynamicRuleActor]),
      (''human_review_request'', [Mailbox HumanReviewActor]), (''degrade_request'', [Mailbox DegradeActor]),
      (''audit_event'', [Mailbox AuditActor]), (''slow_path_event'', [DynamicFilter])]"

lemma first_start: "as_table s = [] \<Longrightarrow> \<not> as_started s \<Longrightarrow> as_table (start_runtime s) = first_table"
  by (simp add: start_runtime_def) (simp add: actor_topics_def loop_topics_def subscribe_def dict_getd_def first_table_def)

end
