(* ===== verification/Actor_Machine.thy ===== *)
theory Actor_Machine
  imports Actor_System
begin

text \<open>
  What the started runtime does: one step of the ingress loop or of an actor at a time, among new
  requests, callers that give up, the graph writer's thread and reviewers.  The invariant accounts
  for every request and every decision; a weight bounds how long messages can travel.
\<close>

subsection \<open>Publishing in the started runtime\<close>

definition bump_metrics :: "decision option \<Rightarrow> actor_system \<Rightarrow> actor_system" where
  "bump_metrics x s = (case x of None \<Rightarrow> s | Some d \<Rightarrow> s\<lparr>as_metrics := decision_loop_handle d (as_metrics s)\<rparr>)"

lemma post_simps [simp]:
  "as_mail (post a m s) b = (if b = a then as_mail s a @ [m] else as_mail s b)"
  "as_table (post a m s) = as_table s" "as_started (post a m s) = as_started s"
  "as_ingress (post a m s) = as_ingress s" "as_futures (post a m s) = as_futures s"
  "as_metrics (post a m s) = as_metrics s" "as_dynamic (post a m s) = as_dynamic s"
  "as_decided (post a m s) = as_decided s" "pl_audit (post a m s) = pl_audit s"
  "es_bridge (post a m s) = es_bridge s" "pl_writer (post a m s) = pl_writer s"
  "pl_eval (post a m s) = pl_eval s" "pl_router (post a m s) = pl_router s"
  by (simp_all add: post_def)

lemma publish_topics:
  assumes "as_table s = first_table"
  shows
    "ms_topic m = ''tool_call_requested'' \<Longrightarrow> bus_publish now m s = post SessionActor m s"
    "ms_topic m = ''evaluate_policy'' \<Longrightarrow> bus_publish now m s = post PolicyActor m s"
    "ms_topic m = ''make_decision'' \<Longrightarrow> bus_publish now m s = metrics_handle m (post DecisionActor m s)"
    "ms_topic m = ''graph_update'' \<Longrightarrow> bus_publish now m s = post GraphActor m s"
    "ms_topic m = ''audit_event'' \<Longrightarrow> bus_publish now m s = post AuditActor m s"
    "ms_topic m = ''degrade_request'' \<Longrightarrow> bus_publish now m s = post DegradeActor m s"
    "ms_topic m = ''human_review_request'' \<Longrightarrow> bus_publish now m s = post HumanReviewActor m s"
    "ms_topic m = ''slow_path_event'' \<Longrightarrow> bus_publish now m s = filter_handle now m s"
    "ms_topic m = ''slow_path_filtered'' \<Longrightarrow> forward_filtered m s = post DynamicRuleActor m s"
  using assms by (simp_all add: bus_publish_def forward_filtered_def first_table_def dict_getd_def deliver_def)

lemma follow_up_fields [simp]:
  "ms_topic (follow_up t ev d) = t" "ms_event (follow_up t ev d) = ev"
  "ms_decision (follow_up t ev d) = Some d" "ms_reply_to (follow_up t ev d) = None"
  by (simp_all add: follow_up_def)

lemma reply_simps [simp]:
  "as_mail (reply to f s) = as_mail s" "as_table (reply to f s) = as_table s"
  "as_ingress (reply to f s) = as_ingress s" "as_started (reply to f s) = as_started s"
  "as_decided (reply to f s) = as_decided s" "as_metrics (reply to f s) = as_metrics s"
  "as_dynamic (reply to f s) = as_dynamic s" "pl_audit (reply to f s) = pl_audit s"
  "es_bridge (reply to f s) = es_bridge s" "pl_writer (reply to f s) = pl_writer s"
  "length (as_futures (reply to f s)) = length (as_futures s)"
  by (auto simp: reply_def split: option.splits)

lemma futures_reply:
  "i < length (as_futures s) \<Longrightarrow> as_futures (reply (Some j) f s) ! i =
     (if i = j \<and> as_futures s ! i = Open then f else as_futures s ! i)"
  by (auto simp: reply_def nth_list_update)

lemma metrics_simps [simp]:
  "as_mail (metrics_handle m s) = as_mail s" "as_table (metrics_handle m s) = as_table s"
  "as_ingress (metrics_handle m s) = as_ingress s" "as_started (metrics_handle m s) = as_started s"
  "as_decided (metrics_handle m s) = as_decided s" "as_futures (metrics_handle m s) = as_futures s"
  "as_dynamic (metrics_handle m s) = as_dynamic s" "pl_audit (metrics_handle m s) = pl_audit s"
  "es_bridge (metrics_handle m s) = es_bridge s" "pl_writer (metrics_handle m s) = pl_writer s"
  "pl_eval (metrics_handle m s) = pl_eval s" "pl_router (metrics_handle m s) = pl_router s"
  "as_metrics (metrics_handle m s) =
     (case ms_decision m of None \<Rightarrow> as_metrics s | Some d \<Rightarrow> decision_loop_handle d (as_metrics s))"
  by (simp_all add: metrics_handle_def split: option.split)

subsection \<open>What one step changes\<close>

text \<open>The part of the state the accounting is about.\<close>

lemma cache_simps [simp]:
  "as_mail (update_cache f s) = as_mail s" "as_table (update_cache f s) = as_table s"
  "as_ingress (update_cache f s) = as_ingress s" "as_started (update_cache f s) = as_started s"
  "as_decided (update_cache f s) = as_decided s" "as_futures (update_cache f s) = as_futures s"
  "as_dynamic (update_cache f s) = as_dynamic s" "as_metrics (update_cache f s) = as_metrics s"
  by (simp_all add: update_cache_def)

text \<open>The mailboxes after the decision actor has published.\<close>

lemma filter_mail:
  assumes "as_table s = first_table"
  shows "\<exists>xs. as_mail (filter_handle now (follow_up ''slow_path_event'' ev d) s) =
      (as_mail s)(DynamicRuleActor := as_mail s DynamicRuleActor @ xs) \<and>
     length xs \<le> 1 \<and> list_all (\<lambda>m. ms_topic m = ''slow_path_filtered'' \<and> ms_reply_to m = None \<and> ms_decision m \<noteq> None) xs"
proof -
  obtain fire dr where f: "dynamic_loop_handle now (ev, d) (as_dynamic s) = (fire, dr)" by fastforce
  show ?thesis
  proof (cases fire)
    case True
    let ?m = "(follow_up ''slow_path_event'' ev d)\<lparr>ms_topic := ''slow_path_filtered'', ms_reply_to := None\<rparr>"
    have "filter_handle now (follow_up ''slow_path_event'' ev d) s = post DynamicRuleActor ?m (s\<lparr>as_dynamic := dr\<rparr>)"
      using assms True f by (simp add: filter_handle_def publish_topics(9))
    then show ?thesis by (intro exI [of _ "[?m]"]) (simp add: fun_eq_iff)
  next
    case False
    then show ?thesis using f by (intro exI [of _ "[]"]) (simp add: filter_handle_def)
  qed
qed

lemma filter_simps [simp]:
  assumes "as_table s = first_table"
  shows "as_table (filter_handle now m s) = as_table s" "as_started (filter_handle now m s) = as_started s"
    "as_ingress (filter_handle now m s) = as_ingress s" "as_futures (filter_handle now m s) = as_futures s"
    "as_metrics (filter_handle now m s) = as_metrics s" "as_decided (filter_handle now m s) = as_decided s"
    "pl_audit (filter_handle now m s) = pl_audit s" "es_bridge (filter_handle now m s) = es_bridge s"
    "pl_writer (filter_handle now m s) = pl_writer s"
  using assms
  by (simp_all add: filter_handle_def publish_topics(9) Let_def split: option.split prod.split)

subsection \<open>Effects of the steps\<close>

text \<open>What is kept by a step that neither decides nor logs nor reviews.\<close>

definition keeps_accounts :: "actor_system \<Rightarrow> actor_system \<Rightarrow> bool" where
  "keeps_accounts s t \<longleftrightarrow> as_table t = as_table s \<and> as_started t = as_started s \<and>
     as_decided t = as_decided s \<and> pl_audit t = pl_audit s \<and> es_bridge t = es_bridge s"

lemma ingress_step:
  assumes "as_table s = first_table" and "as_ingress s = (ev, i) # rest"
  obtains
    (skipped) "run_ingress now s = s\<lparr>as_ingress := rest\<rparr>" "as_futures s ! i \<noteq> Open"
  | (passed) m where "run_ingress now s = post SessionActor m (s\<lparr>as_ingress := rest\<rparr>)"
      "ms_topic m = ''tool_call_requested''" "ms_reply_to m = Some i" "ms_event m = ev" "as_futures s ! i = Open"
proof (cases "as_futures s ! i = Open")
  case True
  have "bus_publish now m (s\<lparr>as_ingress := rest\<rparr>) = post SessionActor m (s\<lparr>as_ingress := rest\<rparr>)"
    if "ms_topic m = ''tool_call_requested''" for m
    using assms(1) that by (simp add: publish_topics)
  then show thesis
    using assms(2) True
    by (intro passed [of "\<lparr>ms_topic = ''tool_call_requested'', ms_event = ev, ms_features = [],
        ms_decision = None, ms_reply_to = Some i\<rparr>"]) (simp_all add: run_ingress_def)
next
  case False
  with assms(2) show thesis by (intro skipped) (simp_all add: run_ingress_def)
qed

lemma session_features_same:
  "as_table (snd (session_features ev s)) = as_table s" "as_started (snd (session_features ev s)) = as_started s"
  "as_mail (snd (session_features ev s)) = as_mail s" "as_ingress (snd (session_features ev s)) = as_ingress s"
  "as_futures (snd (session_features ev s)) = as_futures s" "as_decided (snd (session_features ev s)) = as_decided s"
  "as_metrics (snd (session_features ev s)) = as_metrics s" "pl_audit (snd (session_features ev s)) = pl_audit s"
  "es_bridge (snd (session_features ev s)) = es_bridge s" "pl_writer (snd (session_features ev s)) = pl_writer s"
  "pl_eval (snd (session_features ev s)) = pl_eval s"
  by (simp_all add: session_features_def Let_def split: prod.split)

lemma session_step:
  assumes "as_table s = first_table" and "as_mail s SessionActor = m # rest"
    and "ms_topic m = ''tool_call_requested''"
    and t_def: "t = run_actor E fresh now SessionActor s"
  shows "keeps_accounts s t \<and> as_ingress t = as_ingress s \<and> as_metrics t = as_metrics s \<and>
    ((\<exists>e. as_mail t = (as_mail s)(SessionActor := rest) \<and>
        as_futures t = as_futures (reply (ms_reply_to m) (Failed e) s)) \<or>
     (\<exists>m'. as_mail t = (as_mail s)(SessionActor := rest, PolicyActor := as_mail s PolicyActor @ [m']) \<and>
        ms_topic m' = ''evaluate_policy'' \<and> ms_reply_to m' = ms_reply_to m \<and> as_futures t = as_futures s))"
proof -
  obtain enriched c1 where en: "enrich_event (ms_event m) (pl_cache (s\<lparr>as_mail := (as_mail s)(SessionActor := rest)\<rparr>)) =
      (enriched, c1)" by fastforce
  define s0 where "s0 = update_cache (\<lambda>_. c1) (s\<lparr>as_mail := (as_mail s)(SessionActor := rest)\<rparr>)"
  obtain features s1 where sf: "session_features enriched s0 = (features, s1)" by fastforce
  note [simp] = session_features_same [of enriched s0, unfolded sf snd_conv]
  have s0: "as_table s0 = first_table" "as_started s0 = as_started s" "as_ingress s0 = as_ingress s"
      "as_mail s0 = (as_mail s)(SessionActor := rest)" "as_futures s0 = as_futures s"
      "as_decided s0 = as_decided s" "as_metrics s0 = as_metrics s" "pl_audit s0 = pl_audit s"
      "es_bridge s0 = es_bridge s"
    by (simp_all add: s0_def assms(1))
  have t: "t = (case features of
      Inl e \<Rightarrow> reply (ms_reply_to m) (Failed e) s1
    | Inr f \<Rightarrow> bus_publish now \<lparr>ms_topic = ''evaluate_policy'', ms_event = enriched, ms_features = f,
        ms_decision = None, ms_reply_to = ms_reply_to m\<rparr> s1)"
    using assms(2,3) en sf by (simp add: t_def run_actor_def session_handle_def s0_def)
  show ?thesis
  proof (cases features)
    case (Inl e)
    have "as_futures (reply to x s1) = as_futures (reply to x s)" for to x
      using s0(5) by (simp add: reply_def split: option.split)
    then show ?thesis using Inl t s0 assms(1) by (auto simp: keeps_accounts_def)
  next
    case (Inr f)
    then show ?thesis
      using t s0 assms(1) by (auto simp: keeps_accounts_def publish_topics fun_eq_iff)
  qed
qed

lemma policy_step:
  assumes "as_table s = first_table" and "as_mail s PolicyActor = m # rest"
    and "ms_topic m = ''evaluate_policy''"
    and t_def: "t = run_actor E fresh now PolicyActor s"
  shows "keeps_accounts s t \<and> as_ingress t = as_ingress s \<and> as_futures t = as_futures s \<and>
    (\<exists>m' d. as_mail t = (as_mail s)(PolicyActor := rest, DecisionActor := as_mail s DecisionActor @ [m']) \<and>
       ms_topic m' = ''make_decision'' \<and> ms_reply_to m' = ms_reply_to m \<and> ms_decision m' = Some d \<and>
       ms_event m' = ms_event m \<and> as_metrics t = decision_loop_handle d (as_metrics s))"
proof -
  obtain d fe rt where "evaluate E (ms_event m) (ms_features m) (pl_eval s, pl_router s) = (d, fe, rt)"
    by (metis prod_cases3)
  then show ?thesis
    using assms(1-3) by (auto simp: t_def run_actor_def policy_handle_def publish_topics keeps_accounts_def fun_eq_iff)
qed

text \<open>The mailboxes a decision is followed up in.\<close>

definition follow_mail :: "runtime_event \<Rightarrow> decision \<Rightarrow> message list \<Rightarrow> actor \<Rightarrow> message list" where
  "follow_mail ev d xs a =
     (case a of
        DegradeActor \<Rightarrow> if d_action d = DEGRADE then [follow_up ''degrade_request'' ev d] else []
      | HumanReviewActor \<Rightarrow> if d_action d = HUMAN_CHECK then [follow_up ''human_review_request'' ev d] else []
      | AuditActor \<Rightarrow> [follow_up ''audit_event'' ev d]
      | GraphActor \<Rightarrow> [follow_up ''graph_update'' ev d]
      | DynamicRuleActor \<Rightarrow> xs
      | _ \<Rightarrow> [])"

lemma follow_ups_step:
  assumes "as_table s = first_table"
    and t_def: "t = foldl (\<lambda>s m. bus_publish now m s) s (follow_ups ev d)"
  shows "keeps_accounts s t \<and> as_ingress t = as_ingress s \<and> as_futures t = as_futures s \<and>
     as_metrics t = as_metrics s \<and> pl_writer t = pl_writer s \<and>
     (\<exists>xs. (\<forall>a. as_mail t a = as_mail s a @ follow_mail ev d xs a) \<and> length xs \<le> 1 \<and>
        list_all (\<lambda>m. ms_topic m = ''slow_path_filtered'' \<and> ms_reply_to m = None \<and> ms_decision m \<noteq> None) xs)"
proof -
  define s1 where "s1 = (if d_action d = DEGRADE then post DegradeActor (follow_up ''degrade_request'' ev d) s else s)"
  define s2 where "s2 = (if d_action d = HUMAN_CHECK
    then post HumanReviewActor (follow_up ''human_review_request'' ev d) s1 else s1)"
  define s3 where "s3 = post GraphActor (follow_up ''graph_update'' ev d) (post AuditActor (follow_up ''audit_event'' ev d) s2)"
  have tab: "as_table s1 = first_table" "as_table s2 = first_table" "as_table s3 = first_table"
    using assms(1) by (simp_all add: s1_def s2_def s3_def)
  have t: "t = filter_handle now (follow_up ''slow_path_event'' ev d) s3"
    using assms(1) tab by (simp add: t_def follow_ups_def publish_topics s1_def s2_def s3_def)
  obtain xs where "as_mail t = (as_mail s3)(DynamicRuleActor := as_mail s3 DynamicRuleActor @ xs)" "length xs \<le> 1"
      "list_all (\<lambda>m. ms_topic m = ''slow_path_filtered'' \<and> ms_reply_to m = None \<and> ms_decision m \<noteq> None) xs"
    using filter_mail [OF tab(3), of now ev d] unfolding t by blast
  moreover have "as_mail s3 a = as_mail s a @ follow_mail ev d [] a" for a
    by (cases a) (simp_all add: s1_def s2_def s3_def follow_mail_def)
  ultimately have "\<forall>a. as_mail t a = as_mail s a @ follow_mail ev d xs a"
    by (simp add: follow_mail_def split: actor.split)
  moreover have "keeps_accounts s t" "as_ingress t = as_ingress s" "as_futures t = as_futures s"
      "as_metrics t = as_metrics s" "pl_writer t = pl_writer s"
    using tab assms(1) unfolding t by (simp_all add: keeps_accounts_def) (simp_all add: s1_def s2_def s3_def)
  ultimately show ?thesis using \<open>length xs \<le> 1\<close>
      \<open>list_all (\<lambda>m. ms_topic m = ''slow_path_filtered'' \<and> ms_reply_to m = None \<and> ms_decision m \<noteq> None) xs\<close>
    by blast
qed

lemma decision_step:
  assumes "as_table s = first_table" and "as_mail s DecisionActor = m # rest"
    and "ms_topic m = ''make_decision''" and "ms_decision m = Some d"
    and t_def: "t = run_actor E fresh now DecisionActor s"
  shows "as_table t = as_table s \<and> as_started t = as_started s \<and> as_ingress t = as_ingress s \<and>
    as_metrics t = as_metrics s \<and> pl_audit t = pl_audit s \<and> es_bridge t = es_bridge s \<and>
    as_futures t = as_futures (reply (ms_reply_to m) (Answered d) s) \<and>
    as_decided t = as_decided s @ [(ms_event m, d)] \<and>
    pl_writer t = pl_writer (if is_attempt (ms_event m) then update_cache (append_trace (ms_event m)) s else s) \<and>
    (\<exists>xs. (\<forall>a. as_mail t a = (if a = DecisionActor then rest else as_mail s a) @ follow_mail (ms_event m) d xs a) \<and>
       length xs \<le> 1 \<and>
       list_all (\<lambda>m. ms_topic m = ''slow_path_filtered'' \<and> ms_reply_to m = None \<and> ms_decision m \<noteq> None) xs)"
proof -
  define s0 where "s0 = s\<lparr>as_mail := (as_mail s)(DecisionActor := rest)\<rparr>"
  define s1 where "s1 = (if is_attempt (ms_event m) then update_cache (append_trace (ms_event m)) s0 else s0)"
  define s3 where "s3 = (reply (ms_reply_to m) (Answered d) s1)
    \<lparr>as_decided := as_decided (reply (ms_reply_to m) (Answered d) s1) @ [(ms_event m, d)]\<rparr>"
  have s0: "as_table s0 = as_table s" "as_started s0 = as_started s" "as_ingress s0 = as_ingress s"
      "as_metrics s0 = as_metrics s" "pl_audit s0 = pl_audit s" "es_bridge s0 = es_bridge s"
      "as_futures s0 = as_futures s" "as_decided s0 = as_decided s" "pl_writer s0 = pl_writer s"
      "as_mail s0 a = (if a = DecisionActor then rest else as_mail s a)" for a
    by (simp_all add: s0_def)
  have s1: "as_table s1 = as_table s" "as_started s1 = as_started s" "as_ingress s1 = as_ingress s"
      "as_metrics s1 = as_metrics s" "pl_audit s1 = pl_audit s" "es_bridge s1 = es_bridge s"
      "as_futures s1 = as_futures s" "as_decided s1 = as_decided s"
      "pl_writer s1 = pl_writer (if is_attempt (ms_event m) then update_cache (append_trace (ms_event m)) s else s)"
      "as_mail s1 a = (if a = DecisionActor then rest else as_mail s a)" for a
    using s0 by (simp_all add: s1_def) (simp add: update_cache_def pl_cache_def pl_graph_def)
  have futures: "as_futures (reply to f s1) = as_futures (reply to f s)" for to f
    using s1(7) by (simp add: reply_def split: option.split)
  have s3: "as_table s3 = as_table s" "as_started s3 = as_started s" "as_ingress s3 = as_ingress s"
      "as_metrics s3 = as_metrics s" "pl_audit s3 = pl_audit s" "es_bridge s3 = es_bridge s"
      "as_futures s3 = as_futures (reply (ms_reply_to m) (Answered d) s)"
      "as_decided s3 = as_decided s @ [(ms_event m, d)]" "pl_writer s3 = pl_writer s1"
      "as_mail s3 a = (if a = DecisionActor then rest else as_mail s a)" for a
    by (simp_all add: s3_def s1 futures)
  have "t = foldl (\<lambda>s m. bus_publish now m s) s3 (follow_ups (ms_event m) d)"
    using assms(2-4) by (simp add: t_def run_actor_def decision_handle_def s3_def s1_def s0_def Let_def)
  then show ?thesis
    using follow_ups_step [of s3 t now "ms_event m" d] assms(1) s3 s1(9)
    unfolding keeps_accounts_def by simp
qed

text \<open>The last stations: each takes its message and writes to its own part of the state.\<close>

definition leaf :: "actor \<Rightarrow> bool" where
  "leaf a \<longleftrightarrow> a \<notin> {SessionActor, PolicyActor, DecisionActor}"

fun topic_of :: "actor \<Rightarrow> string" where
  "topic_of SessionActor = ''tool_call_requested''"
| "topic_of PolicyActor = ''evaluate_policy''"
| "topic_of DecisionActor = ''make_decision''"
| "topic_of GraphActor = ''graph_update''"
| "topic_of DynamicRuleActor = ''slow_path_filtered''"
| "topic_of HumanReviewActor = ''human_review_request''"
| "topic_of DegradeActor = ''degrade_request''"
| "topic_of AuditActor = ''audit_event''"

lemma leaf_step:
  assumes "leaf a" and "as_mail s a = m # rest" and "ms_topic m = topic_of a" and "ms_decision m = Some d"
    and t_def: "t = run_actor E fresh now a s"
  shows "as_table t = as_table s \<and> as_started t = as_started s \<and> as_ingress t = as_ingress s \<and>
    as_metrics t = as_metrics s \<and> as_futures t = as_futures s \<and> as_decided t = as_decided s \<and>
    as_mail t = (as_mail s)(a := rest) \<and>
    pl_audit t = (if a = AuditActor then audit_log_record (ms_event m) (Some d) (pl_audit s) else pl_audit s) \<and>
    es_bridge t = (if a = HumanReviewActor
      then enqueue (fresh (es_bridge s)) (floor (now * 1000)) (ms_event m) d (es_bridge s) else es_bridge s) \<and>
    pl_writer t = (if a = GraphActor then gw_submit (ms_event m) (Some d) (pl_writer s) else pl_writer s)"
proof (cases a)
  case GraphActor
  then show ?thesis using assms by (simp add: run_actor_def graph_handle_def submit_graph_def)
next
  case AuditActor
  then show ?thesis using assms by (simp add: run_actor_def audit_handle_def log_audit_def)
next
  case HumanReviewActor
  then show ?thesis using assms by (simp add: run_actor_def human_review_handle_def)
next
  case DegradeActor
  then show ?thesis using assms by (simp add: run_actor_def degrade_handle_def Let_def)
next
  case DynamicRuleActor
  then show ?thesis using assms by (simp add: run_actor_def dynamic_rule_handle_def)
qed (use assms(1) in \<open>simp_all add: leaf_def\<close>)

end
