(* ===== verification/Actor_Invariants.thy ===== *)
theory Actor_Invariants
  imports Actor_Machine
begin

text \<open>
  Runs of the started runtime: requests come in, callers give up, reviewers and the graph writer
  act, and the ingress loop and the actors take their next message in any order.  Every request is
  in exactly one place until it is settled, every decision is logged, counted and reviewed once, and
  the messages in the runtime can travel only so far.
\<close>

subsection \<open>Steps\<close>

inductive internal_step :: "actor_system \<Rightarrow> actor_system \<Rightarrow> bool" where
  take_request: "as_started s \<Longrightarrow> as_ingress s \<noteq> [] \<Longrightarrow> internal_step s (run_ingress now s)"
| take_message: "as_started s \<Longrightarrow> as_mail s a \<noteq> [] \<Longrightarrow> fresh (es_bridge s) \<notin> fst ` set (es_bridge s) \<Longrightarrow>
     internal_step s (run_actor E fresh now a s)"

inductive runtime_step :: "actor_system \<Rightarrow> actor_system \<Rightarrow> bool" where
  rt_internal: "internal_step s t \<Longrightarrow> runtime_step s t"
| rt_submit: "runtime_step s (submit_request ev s)"
| rt_give_up: "runtime_step s (give_up i s)"
| rt_write: "runtime_step s (s\<lparr>pl_writer := gw_step (pl_writer s)\<rparr>)"
| rt_resolve: "runtime_step s (s\<lparr>es_bridge := snd (resolve tid act note (es_bridge s))\<rparr>)"

inductive_cases runtime_step_cases: "runtime_step s t"
inductive_cases internal_step_cases: "internal_step s t"

inductive runtime_reach :: "actor_system \<Rightarrow> actor_system \<Rightarrow> bool" where
  rt_start: "runtime_reach s s"
| rt_next: "runtime_reach s t \<Longrightarrow> runtime_step t u \<Longrightarrow> runtime_reach s u"

subsection \<open>Where requests are\<close>

definition routed :: "actor \<Rightarrow> message \<Rightarrow> bool" where
  "routed a m \<longleftrightarrow> ms_topic m = topic_of a \<and> (\<not> leaf a \<longrightarrow> ms_reply_to m \<noteq> None) \<and>
     (a \<notin> {SessionActor, PolicyActor} \<longrightarrow> ms_decision m \<noteq> None)"

definition reply_ids :: "message list \<Rightarrow> nat list" where
  "reply_ids ms = map (the \<circ> ms_reply_to) ms"

lemma reply_ids_simps [simp]:
  "reply_ids [] = []" "reply_ids (m # ms) = the (ms_reply_to m) # reply_ids ms"
  "reply_ids (xs @ ys) = reply_ids xs @ reply_ids ys"
  by (simp_all add: reply_ids_def)

definition flying :: "actor_system \<Rightarrow> nat list" where
  "flying s = map snd (as_ingress s) @ reply_ids (as_mail s SessionActor) @
     reply_ids (as_mail s PolicyActor) @ reply_ids (as_mail s DecisionActor)"

definition requests_ok :: "actor_system \<Rightarrow> bool" where
  "requests_ok s \<longleftrightarrow> as_table s = first_table \<and> (\<forall>a. list_all (routed a) (as_mail s a)) \<and> distinct (flying s) \<and>
     (\<forall>i \<in> set (flying s). i < length (as_futures s) \<and> as_futures s ! i \<in> {Open, GivenUp}) \<and>
     (\<forall>i < length (as_futures s). as_futures s ! i = Open \<longrightarrow> i \<in> set (flying s))"

lemma requests_ok_move:
  assumes "requests_ok s" and "as_table t = first_table" and "\<forall>a. list_all (routed a) (as_mail t a)"
    and "mset (flying t) = mset (flying s)" and "as_futures t = as_futures s"
  shows "requests_ok t"
  using assms mset_eq_setD [OF assms(4)] mset_eq_imp_distinct_iff [OF assms(4)]
  unfolding requests_ok_def by simp

lemma requests_ok_settle:
  assumes "requests_ok s" and "as_table t = first_table" and "\<forall>a. list_all (routed a) (as_mail t a)"
    and "mset (flying s) = mset (flying t) + {#i#}" and "as_futures t = as_futures (reply (Some i) f s)" and "f \<noteq> Open"
  shows "requests_ok t"
proof -
  have "mset (flying s) = mset (i # flying t)" using assms(4) by simp
  from mset_eq_setD [OF this] mset_eq_imp_distinct_iff [OF this]
  have ids: "set (flying s) = insert i (set (flying t))" "i \<notin> set (flying t)" "distinct (flying t)"
    using assms(1) by (simp_all add: requests_ok_def)
  then have i: "i < length (as_futures s)" "as_futures s ! i \<in> {Open, GivenUp}"
    using assms(1) by (simp_all add: requests_ok_def)
  have "as_futures t ! j = (if j = i \<and> as_futures s ! i = Open then f else as_futures s ! j)"
    if "j < length (as_futures s)" for j
    using futures_reply [of j s i f] that assms(5) by auto
  then show ?thesis
    using assms(1-3,5,6) ids i unfolding requests_ok_def by auto
qed

lemma requests_ok_mail: "requests_ok s \<Longrightarrow> as_mail s a = m # rest \<Longrightarrow> routed a m \<and> list_all (routed a) rest"
  unfolding requests_ok_def by (metis list.pred_inject(2))

lemma requests_ok_update:
  assumes "requests_ok s" and "as_mail s a = m # rest" and "as_mail t = (as_mail s)(a := rest, b := as_mail s b @ xs)"
    and "a \<noteq> b" and "list_all (routed b) xs"
  shows "\<forall>c. list_all (routed c) (as_mail t c)"
  using assms requests_ok_mail [OF assms(1,2)] by (simp add: requests_ok_def)

lemma requests_ok_drop:
  assumes "requests_ok s" and "as_mail s a = m # rest" and "as_mail t = (as_mail s)(a := rest)"
  shows "\<forall>c. list_all (routed c) (as_mail t c)"
  using assms requests_ok_mail [OF assms(1,2)] by (simp add: requests_ok_def)

lemma requests_ok_ingress:
  assumes "requests_ok s" and "as_ingress s = x # rest"
  shows "requests_ok (run_ingress now s)"
proof -
  obtain ev i where x: "x = (ev, i)" by (cases x)
  have tab: "as_table s = first_table" using assms(1) by (simp add: requests_ok_def)
  from tab assms(2) [unfolded x] show ?thesis
  proof (cases rule: ingress_step [where now = now])
    case skipped
    show ?thesis
    proof (rule requests_ok_settle [OF assms(1), where i = i and f = GivenUp])
      show "mset (flying s) = mset (flying (run_ingress now s)) + {#i#}"
        using assms(2) x by (simp add: skipped(1) flying_def)
    qed (use assms(1) skipped in \<open>simp_all add: requests_ok_def reply_def\<close>)
  next
    case (passed m)
    show ?thesis
    proof (rule requests_ok_move [OF assms(1)])
      show "mset (flying (run_ingress now s)) = mset (flying s)"
        using assms(2) x by (simp add: passed(1,3) flying_def)
      show "\<forall>a. list_all (routed a) (as_mail (run_ingress now s) a)"
        using assms(1) by (simp add: passed requests_ok_def routed_def)
    qed (use tab passed(1) in simp_all)
  qed
qed

lemma requests_ok_session:
  assumes "requests_ok s" and "as_mail s SessionActor = m # rest"
  shows "requests_ok (run_actor E fresh now SessionActor s)"
proof -
  have m: "ms_topic m = ''tool_call_requested''" "ms_reply_to m = Some (the (ms_reply_to m))"
    using requests_ok_mail [OF assms] by (auto simp: routed_def leaf_def)
  have tab: "as_table s = first_table" using assms(1) by (simp add: requests_ok_def)
  note step = session_step [OF tab assms(2) m(1) refl, of E fresh now]
  let ?t = "run_actor E fresh now SessionActor s"
  have t: "as_table ?t = first_table" "as_ingress ?t = as_ingress s"
    using step tab by (simp_all add: keeps_accounts_def)
  from step consider
      (failed) e where "as_mail ?t = (as_mail s)(SessionActor := rest)"
        "as_futures ?t = as_futures (reply (ms_reply_to m) (Failed e) s)"
    | (passed) m' where "as_mail ?t = (as_mail s)(SessionActor := rest, PolicyActor := as_mail s PolicyActor @ [m'])"
        "ms_topic m' = ''evaluate_policy''" "ms_reply_to m' = ms_reply_to m" "as_futures ?t = as_futures s"
    by blast
  then show ?thesis
  proof cases
    case failed
    show ?thesis
    proof (rule requests_ok_settle [OF assms(1) t(1)])
      show "mset (flying s) = mset (flying ?t) + {#the (ms_reply_to m)#}"
        using assms(2) t(2) by (simp add: failed(1) flying_def)
      show "as_futures ?t = as_futures (reply (Some (the (ms_reply_to m))) (Failed e) s)"
        using failed(2) m(2) by simp
    qed (use requests_ok_drop [OF assms failed(1)] in simp_all)
  next
    case passed
    have "list_all (routed PolicyActor) [m']" using passed m(2) by (auto simp: routed_def)
    then show ?thesis
      using requests_ok_move [OF assms(1) t(1) requests_ok_update [OF assms passed(1)] _ passed(4)]
        assms(2) t(2) passed(1,3) by (simp add: flying_def)
  qed
qed

lemma requests_ok_policy:
  assumes "requests_ok s" and "as_mail s PolicyActor = m # rest"
  shows "requests_ok (run_actor E fresh now PolicyActor s)"
proof -
  have m: "ms_topic m = ''evaluate_policy''" "ms_reply_to m \<noteq> None"
    using requests_ok_mail [OF assms] by (auto simp: routed_def leaf_def)
  have tab: "as_table s = first_table" using assms(1) by (simp add: requests_ok_def)
  let ?t = "run_actor E fresh now PolicyActor s"
  note step = policy_step [OF tab assms(2) m(1) refl, of E fresh now]
  then have t: "as_table ?t = first_table" "as_ingress ?t = as_ingress s" "as_futures ?t = as_futures s"
    using tab by (simp_all add: keeps_accounts_def)
  from step obtain m' d where m': "as_mail ?t = (as_mail s)(PolicyActor := rest, DecisionActor := as_mail s DecisionActor @ [m'])"
      "ms_topic m' = ''make_decision''" "ms_reply_to m' = ms_reply_to m" "ms_decision m' = Some d"
    by blast
  have "list_all (routed DecisionActor) [m']" using m' m(2) by (simp add: routed_def)
  then show ?thesis
    using requests_ok_move [OF assms(1) t(1) requests_ok_update [OF assms m'(1)] _ t(3)]
      assms(2) t(2) m'(1,3) by (simp add: flying_def)
qed

lemma routed_follow_mail:
  assumes "list_all (\<lambda>m. ms_topic m = ''slow_path_filtered'' \<and> ms_reply_to m = None \<and> ms_decision m \<noteq> None) xs"
  shows "list_all (routed a) (follow_mail ev d xs a)"
  using assms by (cases a) (auto simp: follow_mail_def routed_def leaf_def list_all_iff)

lemma requests_ok_decision:
  assumes "requests_ok s" and "as_mail s DecisionActor = m # rest"
  shows "requests_ok (run_actor E fresh now DecisionActor s)"
proof -
  have m: "ms_topic m = ''make_decision''" "ms_reply_to m = Some (the (ms_reply_to m))" and "ms_decision m \<noteq> None"
    using requests_ok_mail [OF assms] by (auto simp: routed_def leaf_def)
  then obtain d where d: "ms_decision m = Some d" by blast
  have tab: "as_table s = first_table" using assms(1) by (simp add: requests_ok_def)
  let ?t = "run_actor E fresh now DecisionActor s"
  note step = decision_step [OF tab assms(2) m(1) d refl, of E fresh now]
  then obtain xs where xs: "\<forall>a. as_mail ?t a = (if a = DecisionActor then rest else as_mail s a) @ follow_mail (ms_event m) d xs a"
      "list_all (\<lambda>m. ms_topic m = ''slow_path_filtered'' \<and> ms_reply_to m = None \<and> ms_decision m \<noteq> None) xs"
    by blast
  have "list_all (routed a) (as_mail ?t a)" for a
    using requests_ok_mail [OF assms] assms(1) routed_follow_mail [OF xs(2)] by (simp add: xs(1) requests_ok_def)
  moreover have "mset (flying s) = mset (flying ?t) + {#the (ms_reply_to m)#}"
    using assms(2) step by (simp add: flying_def xs(1)) (simp add: follow_mail_def)
  moreover have "as_futures ?t = as_futures (reply (Some (the (ms_reply_to m))) (Answered d) s)"
    using step m(2) by simp
  ultimately show ?thesis using requests_ok_settle [OF assms(1)] step tab by simp
qed

lemma requests_ok_leaf:
  assumes "requests_ok s" and "leaf a" and "as_mail s a = m # rest"
  shows "requests_ok (run_actor E fresh now a s)"
proof -
  have "ms_topic m = topic_of a" "ms_decision m \<noteq> None"
    using requests_ok_mail [OF assms(1,3)] assms(2) by (auto simp: routed_def leaf_def)
  then obtain d where d: "ms_topic m = topic_of a" "ms_decision m = Some d" by blast
  have tab: "as_table s = first_table" using assms(1) by (simp add: requests_ok_def)
  let ?t = "run_actor E fresh now a s"
  note step = leaf_step [OF assms(2,3) d refl, of E fresh now]
  then have mail: "as_mail ?t = (as_mail s)(a := rest)" by blast
  have "flying ?t = flying s" using step assms(2) by (auto simp: flying_def leaf_def)
  then show ?thesis
    using requests_ok_move [OF assms(1) _ requests_ok_drop [OF assms(1,3) mail]] step tab by simp
qed

lemma requests_ok_actor:
  assumes "requests_ok s" and "as_mail s a \<noteq> []"
  shows "requests_ok (run_actor E fresh now a s)"
proof -
  obtain m rest where "as_mail s a = m # rest" using assms(2) by (metis neq_Nil_conv)
  then show ?thesis
    using assms(1) requests_ok_session requests_ok_policy requests_ok_decision requests_ok_leaf [of s a]
    by (cases "leaf a") (auto simp: leaf_def)
qed

lemma requests_ok_internal: "internal_step s t \<Longrightarrow> requests_ok s \<Longrightarrow> requests_ok t"
proof (induction rule: internal_step.induct)
  case (take_request s now)
  then show ?case by (metis neq_Nil_conv requests_ok_ingress)
next
  case (take_message s a fresh E now)
  then show ?case by (blast intro: requests_ok_actor)
qed

lemma requests_ok_frame:
  assumes "requests_ok s" and "as_table t = as_table s" and "as_mail t = as_mail s"
    and "as_ingress t = as_ingress s" and "as_futures t = as_futures s"
  shows "requests_ok t"
  using assms by (simp add: requests_ok_def flying_def)

lemma requests_ok_submit:
  assumes "requests_ok s"
  shows "requests_ok (submit_request ev s)"
proof -
  let ?n = "length (as_futures s)"
  have perm: "mset (flying (submit_request ev s)) = mset (?n # flying s)"
    by (simp add: flying_def submit_request_def)
  have "?n \<notin> set (flying s)" using assms by (auto simp: requests_ok_def)
  then have "distinct (flying (submit_request ev s))" "set (flying (submit_request ev s)) = insert ?n (set (flying s))"
    using assms mset_eq_setD [OF perm] mset_eq_imp_distinct_iff [OF perm] by (simp_all add: requests_ok_def)
  then show ?thesis
    using assms by (auto simp: requests_ok_def submit_request_def nth_append less_Suc_eq)
qed

lemma requests_ok_give_up:
  assumes "requests_ok s"
  shows "requests_ok (give_up i s)"
proof -
  have "as_futures (give_up i s) ! j = (if j = i \<and> as_futures s ! i = Open then GivenUp else as_futures s ! j)"
    if "j < length (as_futures s)" for j
    using futures_reply [of j s i GivenUp] that by (auto simp: give_up_def)
  then show ?thesis
    using assms unfolding requests_ok_def by (auto simp: give_up_def flying_def)
qed

lemma requests_ok_step: "runtime_step s t \<Longrightarrow> requests_ok s \<Longrightarrow> requests_ok t"
proof (induction rule: runtime_step.induct)
  case (rt_internal s t)
  then show ?case by (rule requests_ok_internal)
next
  case (rt_submit s ev)
  then show ?case by (rule requests_ok_submit)
next
  case (rt_give_up s i)
  then show ?case by (rule requests_ok_give_up)
qed (erule requests_ok_frame; simp)+

lemma requests_ok_reach: "runtime_reach s t \<Longrightarrow> requests_ok s \<Longrightarrow> requests_ok t"
  by (induction rule: runtime_reach.induct) (auto intro: requests_ok_step)

lemma requests_ok_start:
  assumes "as_table s = first_table" and "as_ingress s = []" and "\<forall>a. as_mail s a = []" and "Open \<notin> set (as_futures s)"
  shows "requests_ok s"
  using assms by (auto simp: requests_ok_def flying_def in_set_conv_nth)

subsection \<open>What becomes of decisions\<close>

text \<open>Since \<open>p\<close>: the audit log, the metrics and the review queue follow the decisions in order.\<close>

definition accounts_ok :: "actor_system \<Rightarrow> actor_system \<Rightarrow> bool" where
  "accounts_ok p s \<longleftrightarrow>
     al_sink (pl_audit s) @ map (\<lambda>m. (ms_event m, ms_decision m)) (as_mail s AuditActor) =
       al_sink (pl_audit p) @ map (\<lambda>(ev, d). (ev, Some d)) (as_decided s) \<and>
     dl_total (as_metrics s) = dl_total (as_metrics p) + length (as_decided s) + length (as_mail s DecisionActor) \<and>
     length (es_bridge s) + length (as_mail s HumanReviewActor) =
       length (es_bridge p) + length (filter (\<lambda>x. d_action (snd x) = HUMAN_CHECK) (as_decided s))"

lemma accounts_ok_frame:
  assumes "accounts_ok p s" and "pl_audit t = pl_audit s" and "as_mail t AuditActor = as_mail s AuditActor"
    and "as_decided t = as_decided s" and "as_metrics t = as_metrics s" and "as_mail t DecisionActor = as_mail s DecisionActor"
    and "length (es_bridge t) = length (es_bridge s)" and "as_mail t HumanReviewActor = as_mail s HumanReviewActor"
  shows "accounts_ok p t"
  using assms by (simp add: accounts_ok_def)

lemma length_dict_set: "k \<in> fst ` set d \<Longrightarrow> length (dict_set k v d) = length d"
  by (induction d) auto

lemma length_dict_set_new: "k \<notin> fst ` set d \<Longrightarrow> length (dict_set k v d) = Suc (length d)"
  by (induction d) auto

lemma length_resolve [simp]: "length (snd (resolve tid act note b)) = length b"
  by (auto simp: resolve_def length_dict_set split: option.split dest!: map_of_SomeD intro!: length_dict_set
      intro: rev_image_eqI)

lemma length_enqueue: "tid \<notin> fst ` set b \<Longrightarrow> length (enqueue tid now ev d b) = Suc (length b)"
  by (simp add: enqueue_def length_dict_set_new)

lemma accounts_ok_session:
  assumes "requests_ok s" and "accounts_ok p s" and "as_mail s SessionActor = m # rest"
  shows "accounts_ok p (run_actor E fresh now SessionActor s)"
proof -
  have tab: "as_table s = first_table" and m: "ms_topic m = ''tool_call_requested''"
    using assms(1) requests_ok_mail [OF assms(1,3)] by (auto simp: requests_ok_def routed_def)
  from session_step [OF tab assms(3) m refl, of E fresh now] show ?thesis
    using assms(2) by (auto simp: keeps_accounts_def intro: accounts_ok_frame)
qed

lemma accounts_ok_policy:
  assumes "requests_ok s" and "accounts_ok p s" and "as_mail s PolicyActor = m # rest"
  shows "accounts_ok p (run_actor E fresh now PolicyActor s)"
proof -
  have tab: "as_table s = first_table" and m: "ms_topic m = ''evaluate_policy''"
    using assms(1) requests_ok_mail [OF assms(1,3)] by (auto simp: requests_ok_def routed_def)
  from policy_step [OF tab assms(3) m refl, of E fresh now] show ?thesis
    using assms(2) by (auto simp: accounts_ok_def keeps_accounts_def decision_loop_handle_def)
qed

lemma accounts_ok_decision:
  assumes "requests_ok s" and "accounts_ok p s" and "as_mail s DecisionActor = m # rest"
  shows "accounts_ok p (run_actor E fresh now DecisionActor s)"
proof -
  have tab: "as_table s = first_table" and m: "ms_topic m = ''make_decision''" "ms_decision m \<noteq> None"
    using assms(1) requests_ok_mail [OF assms(1,3)] by (auto simp: requests_ok_def routed_def)
  then obtain d where d: "ms_decision m = Some d" by blast
  let ?t = "run_actor E fresh now DecisionActor s"
  note step = decision_step [OF tab assms(3) m(1) d refl, of E fresh now]
  then obtain xs where mail: "\<forall>a. as_mail ?t a = (if a = DecisionActor then rest else as_mail s a) @ follow_mail (ms_event m) d xs a"
    by blast
  have same: "pl_audit ?t = pl_audit s" "es_bridge ?t = es_bridge s" "as_metrics ?t = as_metrics s"
      "as_decided ?t = as_decided s @ [(ms_event m, d)]"
    using step by simp_all
  have "as_mail ?t AuditActor = as_mail s AuditActor @ [follow_up ''audit_event'' (ms_event m) d]"
      "as_mail ?t DecisionActor = rest"
      "length (as_mail ?t HumanReviewActor) = length (as_mail s HumanReviewActor) + (if d_action d = HUMAN_CHECK then 1 else 0)"
    by (simp_all add: mail follow_mail_def)
  then show ?thesis using assms(2,3) by (auto simp: accounts_ok_def same)
qed

lemma accounts_ok_leaf:
  assumes "requests_ok s" and "accounts_ok p s" and "leaf a" and "as_mail s a = m # rest"
    and "fresh (es_bridge s) \<notin> fst ` set (es_bridge s)"
  shows "accounts_ok p (run_actor E fresh now a s)"
proof -
  have "ms_topic m = topic_of a" "ms_decision m \<noteq> None"
    using requests_ok_mail [OF assms(1,4)] assms(3) by (auto simp: routed_def leaf_def)
  then obtain d where d: "ms_topic m = topic_of a" "ms_decision m = Some d" by blast
  note step = leaf_step [OF assms(3,4) d refl, of E fresh now]
  show ?thesis
    using assms(2-4) step length_enqueue [OF assms(5)] d(2)
    by (cases a) (auto simp: accounts_ok_def leaf_def)
qed

lemma accounts_ok_ingress:
  assumes "requests_ok s" and "accounts_ok p s" and "as_ingress s = x # rest"
  shows "accounts_ok p (run_ingress now s)"
proof -
  obtain ev i where x: "x = (ev, i)" by (cases x)
  have "as_table s = first_table" using assms(1) by (simp add: requests_ok_def)
  from this assms(3) [unfolded x] show ?thesis
    by (cases rule: ingress_step [where now = now]) (use assms(2) in \<open>auto intro: accounts_ok_frame\<close>)
qed

lemma accounts_ok_internal: "internal_step s t \<Longrightarrow> requests_ok s \<Longrightarrow> accounts_ok p s \<Longrightarrow> accounts_ok p t"
proof (induction rule: internal_step.induct)
  case (take_request s now)
  then show ?case by (metis neq_Nil_conv accounts_ok_ingress)
next
  case (take_message s a fresh E now)
  then obtain m rest where "as_mail s a = m # rest" by (metis neq_Nil_conv)
  with take_message show ?case
    using accounts_ok_session accounts_ok_policy accounts_ok_decision accounts_ok_leaf [of s p a]
    by (cases "leaf a") (auto simp: leaf_def)
qed

lemma accounts_ok_step: "runtime_step s t \<Longrightarrow> requests_ok s \<Longrightarrow> accounts_ok p s \<Longrightarrow> accounts_ok p t"
proof (induction rule: runtime_step.induct)
  case (rt_internal s t)
  then show ?case by (blast intro: accounts_ok_internal)
qed (erule accounts_ok_frame; simp add: submit_request_def give_up_def)+

lemma accounts_ok_reach:
  "runtime_reach s t \<Longrightarrow> requests_ok s \<Longrightarrow> accounts_ok p s \<Longrightarrow> accounts_ok p t"
  by (induction rule: runtime_reach.induct) (auto intro: accounts_ok_step requests_ok_reach)

lemma accounts_ok_start: "\<forall>a. as_mail s a = [] \<Longrightarrow> as_decided s = [] \<Longrightarrow> accounts_ok s s"
  by (simp add: accounts_ok_def)

subsection \<open>Messages come to rest\<close>

text \<open>How many steps the messages in the runtime can still cause.\<close>

definition weight :: "actor_system \<Rightarrow> nat" where
  "weight s = 8 * length (as_ingress s) + 7 * length (as_mail s SessionActor) +
     6 * length (as_mail s PolicyActor) + 5 * length (as_mail s DecisionActor) +
     length (as_mail s GraphActor) + length (as_mail s DynamicRuleActor) +
     length (as_mail s HumanReviewActor) + length (as_mail s DegradeActor) + length (as_mail s AuditActor)"

lemma weight_0: "weight s = 0 \<longleftrightarrow> as_ingress s = [] \<and> (\<forall>a. as_mail s a = [])"
proof
  assume w: "weight s = 0"
  have "as_mail s a = []" for a using w by (cases a) (simp_all add: weight_def)
  with w show "as_ingress s = [] \<and> (\<forall>a. as_mail s a = [])" by (simp add: weight_def)
qed (simp add: weight_def)

lemma weight_ingress:
  assumes "requests_ok s" and "as_ingress s = x # rest"
  shows "weight (run_ingress now s) < weight s"
proof -
  obtain ev i where x: "x = (ev, i)" by (cases x)
  have "as_table s = first_table" using assms(1) by (simp add: requests_ok_def)
  from this assms(2) [unfolded x] show ?thesis
    by (cases rule: ingress_step [where now = now]) (use assms(2) in \<open>simp_all add: weight_def\<close>)
qed

lemma weight_actor:
  assumes "requests_ok s" and "as_mail s a = m # rest"
  shows "weight (run_actor E fresh now a s) < weight s"
proof -
  let ?t = "run_actor E fresh now a s"
  have tab: "as_table s = first_table" and m: "ms_topic m = topic_of a"
    using assms(1) requests_ok_mail [OF assms] by (auto simp: requests_ok_def routed_def)
  have d: "ms_decision m \<noteq> None" if "a \<notin> {SessionActor, PolicyActor}"
    using requests_ok_mail [OF assms] that by (simp add: routed_def)
  consider "a = SessionActor" | "a = PolicyActor" | "a = DecisionActor" | "leaf a" by (auto simp: leaf_def)
  then show ?thesis
  proof cases
    case 1
    with session_step [OF tab assms(2) [unfolded 1] _ refl, of E fresh now] m assms(2)
    show ?thesis by (auto simp: weight_def)
  next
    case 2
    with policy_step [OF tab assms(2) [unfolded 2] _ refl, of E fresh now] m assms(2)
    show ?thesis by (auto simp: weight_def)
  next
    case 3
    then obtain x where x: "ms_decision m = Some x" using d by auto
    from decision_step [OF tab assms(2) [unfolded 3] _ x refl, of E fresh now] m 3
    obtain xs where "\<forall>b. as_mail ?t b = (if b = DecisionActor then rest else as_mail s b) @ follow_mail (ms_event m) x xs b"
        "length xs \<le> 1" "as_ingress ?t = as_ingress s"
      by auto
    then show ?thesis using assms(2) 3 by (simp add: weight_def) (auto simp: follow_mail_def)
  next
    case 4
    then obtain x where x: "ms_decision m = Some x" using d by (auto simp: leaf_def)
    from leaf_step [OF 4 assms(2) m x refl, of E fresh now]
    have "as_mail ?t = (as_mail s)(a := rest)" "as_ingress ?t = as_ingress s" by simp_all
    then show ?thesis using assms(2) 4 by (cases a) (simp_all add: weight_def leaf_def)
  qed
qed

lemma weight_internal: "internal_step s t \<Longrightarrow> requests_ok s \<Longrightarrow> weight t < weight s"
proof (induction rule: internal_step.induct)
  case (take_request s now)
  then show ?case by (metis neq_Nil_conv weight_ingress)
next
  case (take_message s a fresh E now)
  then show ?case by (metis neq_Nil_conv weight_actor)
qed

lemma internal_steps_bounded:
  "(internal_step ^^ n) s t \<Longrightarrow> requests_ok s \<Longrightarrow> requests_ok t \<and> n + weight t \<le> weight s"
proof (induction n arbitrary: t)
  case (Suc n)
  then obtain u where u: "(internal_step ^^ n) s u" "internal_step u t" by auto
  with Suc have "requests_ok u" "n + weight u \<le> weight s" by blast+
  with u(2) show ?case using weight_internal [of u t] requests_ok_internal [of u t] by fastforce
qed simp

text \<open>A ticket id not used yet.\<close>

definition longer_id :: "approval_bridge \<Rightarrow> string" where
  "longer_id b = replicate (Suc (sum_list (map (\<lambda>x. length (fst x)) b))) CHR ''t''"

lemma longer_id_fresh: "longer_id b \<notin> fst ` set b"
proof
  assume "longer_id b \<in> fst ` set b"
  then obtain t where "(longer_id b, t) \<in> set b" by auto
  then have "length (longer_id b) \<le> sum_list (map (\<lambda>x. length (fst x)) b)"
    using member_le_sum_list [of "length (longer_id b)" "map (\<lambda>x. length (fst x)) b"] by force
  then show False by (simp add: longer_id_def)
qed

lemma internal_started: "internal_step s t \<Longrightarrow> requests_ok s \<Longrightarrow> as_started t = as_started s"
proof (induction rule: internal_step.induct)
  case (take_request s now)
  then obtain ev i rest where q: "as_ingress s = (ev, i) # rest" by (metis neq_Nil_conv surj_pair)
  have "as_table s = first_table" using take_request(3) by (simp add: requests_ok_def)
  from this q show ?case by (cases rule: ingress_step [where now = now]) simp_all
next
  case (take_message s a fresh E now)
  then obtain m rest where m: "as_mail s a = m # rest" by (metis neq_Nil_conv)
  have tab: "as_table s = first_table" and r: "routed a m"
    using take_message(4) requests_ok_mail [OF _ m] by (auto simp: requests_ok_def)
  show ?case
  proof (cases "leaf a")
    case True
    with r obtain d where "ms_decision m = Some d" by (auto simp: routed_def leaf_def)
    with True r m show ?thesis using leaf_step [OF True m _ _ refl, of d E fresh now] by (simp add: routed_def)
  next
    case False
    then consider "a = SessionActor" | "a = PolicyActor" | "a = DecisionActor" by (auto simp: leaf_def)
    then show ?thesis
    proof cases
      case 1
      with r session_step [OF tab m [unfolded 1] _ refl, of E fresh now] show ?thesis
        by (simp add: routed_def keeps_accounts_def)
    next
      case 2
      with r policy_step [OF tab m [unfolded 2] _ refl, of E fresh now] show ?thesis
        by (simp add: routed_def keeps_accounts_def)
    next
      case 3
      with r obtain d where "ms_decision m = Some d" by (auto simp: routed_def)
      with 3 r decision_step [OF tab m [unfolded 3] _ _ refl, of d E fresh now] show ?thesis
        by (simp add: routed_def)
    qed
  qed
qed

lemma internal_enabled: "as_started s \<Longrightarrow> weight s \<noteq> 0 \<Longrightarrow> \<exists>t. internal_step s t"
  unfolding weight_0 using take_request take_message [where fresh = longer_id, OF _ _ longer_id_fresh] by blast

lemma comes_to_rest:
  "requests_ok s \<Longrightarrow> as_started s \<Longrightarrow> \<exists>n t. (internal_step ^^ n) s t \<and> weight t = 0"
proof (induction "weight s" arbitrary: s rule: less_induct)
  case less
  show ?case
  proof (cases "weight s = 0")
    case True
    then show ?thesis by (intro exI [of _ 0] exI [of _ s]) simp
  next
    case False
    with less.prems obtain u where u: "internal_step s u" using internal_enabled by blast
    then have "requests_ok u" "as_started u" "weight u < weight s"
      using less.prems requests_ok_internal internal_started weight_internal by auto
    with less.hyps obtain n t where "(internal_step ^^ n) u t" "weight t = 0" by blast
    with u have "(internal_step ^^ Suc n) s t" by (meson relpowp_Suc_I2)
    with \<open>weight t = 0\<close> show ?thesis by blast
  qed
qed

lemma at_rest_settled: "requests_ok s \<Longrightarrow> weight s = 0 \<Longrightarrow> i < length (as_futures s) \<Longrightarrow> as_futures s ! i \<noteq> Open"
  by (auto simp: requests_ok_def flying_def weight_0)

lemma runtime_reach_started:
  "runtime_reach s t \<Longrightarrow> requests_ok s \<Longrightarrow> as_started t = as_started s \<and> requests_ok t"
proof (induction rule: runtime_reach.induct)
  case (rt_next s t u)
  then have t: "as_started t = as_started s" "requests_ok t" by simp_all
  have "as_started u = as_started t"
    using rt_next(2) by (cases rule: runtime_step.cases)
      (auto simp: submit_request_def give_up_def internal_started [OF _ t(2)])
  with t show ?case using requests_ok_step [OF rt_next(2)] by simp
qed simp

lemma reach_take:
  "runtime_reach s t \<Longrightarrow> requests_ok s \<Longrightarrow> as_started s \<Longrightarrow> as_mail t a \<noteq> [] \<Longrightarrow>
   runtime_reach s (run_actor E longer_id now a t)"
  using runtime_reach_started [of s t]
  by (intro rt_next [OF _ rt_internal [OF take_message]]) (auto simp: longer_id_fresh)

end
