(* ===== verification/Actor_Equivalence.thy ===== *)
theory Actor_Equivalence
  imports Actor_Invariants
begin

text \<open>
  The two runtimes compared.  A single request that travels through the idle actor runtime is
  answered with the decision of the synchronous pipeline and leaves the same session cache, graph
  queue and audit log, as long as the session has no live signals.  Requests that travel together
  do not see each other; and a runtime that was stopped and started again evaluates twice.
\<close>

subsection \<open>What the session and the policy actor pass on\<close>

definition feature_scope :: "runtime_event \<Rightarrow> actor_system \<Rightarrow> pydict result" where
  "feature_scope ev s = compute_fast_features (fst (enrich_event ev (pl_cache s)))
     (snd (enrich_event ev (pl_cache s))) (pl_graph s)
     (fst (rules_for_agent (p_agent_id (ev_principal ev)) (pl_router s))) (pl_allowlists s)"

lemma session_outcome:
  assumes "as_table s = first_table" and "as_mail s SessionActor = m # rest"
    and "ms_topic m = ''tool_call_requested''"
    and t_def: "t = run_actor E fresh now SessionActor s"
  shows "pl_writer t = pl_writer (update_cache (\<lambda>_. snd (enrich_event (ms_event m) (pl_cache s))) s) \<and>
    pl_eval t = pl_eval s \<and> pl_audit t = pl_audit s \<and> pl_allowlists t = pl_allowlists s \<and>
    pl_router t = snd (rules_for_agent (p_agent_id (ev_principal (ms_event m))) (pl_router s)) \<and>
    as_table t = first_table \<and> as_ingress t = as_ingress s \<and> as_decided t = as_decided s \<and>
    (case feature_scope (ms_event m) s of
       Inl e \<Rightarrow> as_mail t = (as_mail s)(SessionActor := rest) \<and>
         as_futures t = as_futures (reply (ms_reply_to m) (Failed e) s)
     | Inr f \<Rightarrow> as_futures t = as_futures s \<and>
         as_mail t = (as_mail s)(SessionActor := rest, PolicyActor := as_mail s PolicyActor @
           [\<lparr>ms_topic = ''evaluate_policy'', ms_event = fst (enrich_event (ms_event m) (pl_cache s)), ms_features = f,
             ms_decision = None, ms_reply_to = ms_reply_to m\<rparr>]))"
proof -
  define s0 where "s0 = s\<lparr>as_mail := (as_mail s)(SessionActor := rest)\<rparr>"
  define c1 where "c1 = snd (enrich_event (ms_event m) (pl_cache s))"
  define en where "en = fst (enrich_event (ms_event m) (pl_cache s))"
  define rt where "rt = snd (rules_for_agent (p_agent_id (ev_principal (ms_event m))) (pl_router s))"
  define s1 where "s1 = (update_cache (\<lambda>_. c1) s0)\<lparr>pl_router := rt\<rparr>"
  have pr: "ev_principal en = ev_principal (ms_event m)" by (simp add: en_def enrich_event_same)
  have s0: "pl_cache s0 = pl_cache s" "pl_graph s0 = pl_graph s" "pl_router s0 = pl_router s"
      "pl_allowlists s0 = pl_allowlists s" "pl_writer s0 = pl_writer s" "pl_eval s0 = pl_eval s"
      "pl_audit s0 = pl_audit s" "as_table s0 = first_table" "as_futures s0 = as_futures s"
      "as_ingress s0 = as_ingress s" "as_decided s0 = as_decided s" "as_mail s0 = (as_mail s)(SessionActor := rest)"
    using assms(1) by (simp_all add: s0_def pl_cache_def pl_graph_def)
  have sf: "session_features en (update_cache (\<lambda>_. c1) s0) = (feature_scope (ms_event m) s, s1)"
  proof -
    obtain rules where "rules_for_agent (p_agent_id (ev_principal (ms_event m))) (pl_router s) = (rules, rt)"
      by (simp add: rt_def prod_eq_iff)
    moreover have "pl_graph (x\<lparr>pl_router := rt\<rparr>) = pl_graph x" for x :: actor_system by (simp add: pl_graph_def)
    ultimately show ?thesis
      by (simp add: session_features_def feature_scope_def pr s0 s1_def en_def [symmetric] c1_def [symmetric])
  qed
  have w: "pl_writer (update_cache (\<lambda>_. c1) s0) = pl_writer (update_cache (\<lambda>_. c1) s)"
    by (simp add: update_cache_def s0)
  have s1: "pl_writer s1 = pl_writer (update_cache (\<lambda>_. c1) s)" "pl_eval s1 = pl_eval s" "pl_audit s1 = pl_audit s"
      "pl_router s1 = rt" "as_table s1 = first_table" "as_ingress s1 = as_ingress s" "as_decided s1 = as_decided s"
      "as_futures s1 = as_futures s" "as_mail s1 = (as_mail s)(SessionActor := rest)"
      "pl_allowlists s1 = pl_allowlists s"
    by (simp_all add: s1_def s0 w)
  have enr: "enrich_event (ms_event m) (pl_cache s0) = (en, c1)" by (simp add: s0 en_def c1_def)
  have t: "t = (case feature_scope (ms_event m) s of
      Inl e \<Rightarrow> reply (ms_reply_to m) (Failed e) s1
    | Inr f \<Rightarrow> post PolicyActor \<lparr>ms_topic = ''evaluate_policy'', ms_event = en, ms_features = f,
        ms_decision = None, ms_reply_to = ms_reply_to m\<rparr> s1)"
    using assms(2,3) enr sf by (simp add: t_def run_actor_def session_handle_def s0_def [symmetric]
        publish_topics(2) [OF s1(5)] split: sum.split)
  have rep: "as_futures (reply to x s1) = as_futures (reply to x s)" "pl_router (reply to x s1) = rt"
      "pl_eval (reply to x s1) = pl_eval s" "pl_allowlists (reply to x s1) = pl_allowlists s" for to x
    using s1 by (auto simp: reply_def split: option.split)
  have post_allow: "pl_allowlists (post a x s1) = pl_allowlists s" for a x by (simp add: post_def s1)
  show ?thesis
    unfolding t c1_def [symmetric] en_def [symmetric] rt_def [symmetric]
    by (auto simp: s1 rep post_allow fun_eq_iff split: sum.split)
qed

lemma policy_outcome:
  assumes "as_table s = first_table" and "as_mail s PolicyActor = m # rest"
    and "ms_topic m = ''evaluate_policy''"
    and t_def: "t = run_actor E fresh now PolicyActor s"
  shows "pl_writer t = pl_writer s \<and> pl_audit t = pl_audit s \<and> as_futures t = as_futures s \<and>
    as_table t = first_table \<and> as_decided t = as_decided s \<and>
    as_mail t = (as_mail s)(PolicyActor := rest, DecisionActor := as_mail s DecisionActor @
      [\<lparr>ms_topic = ''make_decision'', ms_event = ms_event m, ms_features = [],
        ms_decision = Some (fst (evaluate E (ms_event m) (ms_features m) (pl_eval s, pl_router s))),
        ms_reply_to = ms_reply_to m\<rparr>])"
proof -
  obtain d fe rt where "evaluate E (ms_event m) (ms_features m) (pl_eval s, pl_router s) = (d, fe, rt)"
    by (metis prod_cases3)
  then show ?thesis
    using assms by (auto simp: run_actor_def policy_handle_def publish_topics fun_eq_iff)
qed

subsection \<open>The decision does not depend on what is cached\<close>

lemma evaluate_same_rules:
  assumes "evaluator_wf st" and "evaluator_wf st'"
    and "agent_rules (p_agent_id (ev_principal ev)) st = agent_rules (p_agent_id (ev_principal ev)) st'"
    and "fe_rule_version (fst st) = fe_rule_version (fst st')"
  shows "fst (evaluate E ev f st) = fst (evaluate E ev f st')"
proof -
  let ?a = "p_agent_id (ev_principal ev)"
  obtain v st1 st1' where "view_for ?a st = (v, st1)" "view_for ?a st' = (v, st1')"
    using view_for_value [OF assms(1), of ?a] view_for_value [OF assms(2), of ?a] assms(3) by (metis prod.collapse)
  then show ?thesis using assms(4) by (simp add: evaluate_def split: option.split)
qed

lemma evaluator_wf_rules_for_agent:
  assumes "evaluator_wf (fe, rt)"
  shows "evaluator_wf (fe, snd (rules_for_agent a rt))"
  using assms router_ok_rules_for_agent [of rt a] by (simp add: evaluator_wf_def evaluator_ok_def)

lemma view_for_version: "fe_rule_version (fst (snd (view_for a st))) = fe_rule_version (fst st)"
  by (auto simp: view_for_def Let_def split: prod.split option.split)

definition idle :: "actor_system \<Rightarrow> bool" where
  "idle s \<longleftrightarrow> as_started s \<and> as_table s = first_table \<and> as_ingress s = [] \<and> (\<forall>a. as_mail s a = []) \<and>
     Open \<notin> set (as_futures s)"

lemma idle_requests_ok: "idle s \<Longrightarrow> requests_ok s"
  by (simp add: idle_def requests_ok_start)

lemma attempt_features_actor:
  fixes s :: actor_system
  assumes "pipeline_ok s" and "fe_routed (pl_eval s)"
    and "dict_getd (sg_signals (gc_session_signals now (pl_signals s))) (p_session_id (ev_principal ev)) [] = []"
  shows "attempt_features now ev s = feature_scope ev s"
proof -
  let ?a = "p_agent_id (ev_principal ev)"
  have wf: "evaluator_wf (pl_eval s, pl_router s)" using assms(1) by (simp add: pipeline_ok_def)
  then have "iv_rules (fst (view_for ?a (pl_eval s, pl_router s))) = fst (rules_for_agent ?a (pl_router s))"
    using assms(2) rules_for_agent_value [of "pl_router s" ?a]
    by (simp add: view_for_value build_view_def agent_rules_def evaluator_wf_def evaluator_ok_def)
  moreover have "pl_graph (s\<lparr>pl_eval := fe, pl_router := rt\<rparr>) = pl_graph s" for fe rt and s :: actor_system
    by (simp add: pl_graph_def)
  ultimately show ?thesis
    using assms(3) unfolding attempt_features_def fast_features_def rules_in_scope_value
    by (simp add: attempt_ready_def attempt_event_same feature_scope_def add_signals_def attempt_event_def
        enrich_event_same Let_def) (cases "feature_scope ev s"; simp add: feature_scope_def)
qed

subsection \<open>One request, one actor after the other\<close>

definition run_request ::
  "externals \<Rightarrow> (approval_bridge \<Rightarrow> string) \<Rightarrow> rat \<Rightarrow> runtime_event \<Rightarrow> actor_system \<Rightarrow> actor_system" where
  "run_request E fresh now ev s =
     foldl (\<lambda>s a. run_actor E fresh now a s) (run_ingress now (submit_request ev s))
       [SessionActor, PolicyActor, DecisionActor, AuditActor, GraphActor]"

lemma idle_ingress:
  assumes "as_table s = first_table" and "as_ingress s = []"
    and m_def: "m = \<lparr>ms_topic = ''tool_call_requested'', ms_event = ev, ms_features = [], ms_decision = None,
      ms_reply_to = Some (length (as_futures s))\<rparr>"
  shows "run_ingress now (submit_request ev s) = post SessionActor m (s\<lparr>as_futures := as_futures s @ [Open]\<rparr>)"
proof -
  let ?s = "s\<lparr>as_futures := as_futures s @ [Open], as_ingress := []\<rparr>"
  have same: "?s = s\<lparr>as_futures := as_futures s @ [Open]\<rparr>" using assms(2) by simp
  have "run_ingress now (submit_request ev s) = bus_publish now m ?s"
    using assms(2) by (simp add: run_ingress_def submit_request_def m_def)
  also have "\<dots> = post SessionActor m ?s"
    by (rule publish_topics(1)) (simp_all add: assms(1) m_def)
  finally show ?thesis unfolding same .
qed

lemma post_empty: "as_mail s a = [] \<Longrightarrow> as_mail (post a m s) a = [m]"
  by simp

text \<open>The state in which the request waits for the policy actor.\<close>

lemma at_policy:
  assumes "as_table s = first_table" and "as_ingress s = []" and "\<forall>a. as_mail s a = []"
    and t_def: "t = run_actor E fresh now SessionActor (run_ingress now (submit_request ev s))"
  shows "pl_writer t = pl_writer (update_cache (\<lambda>_. snd (enrich_event ev (pl_cache s))) s) \<and>
    pl_eval t = pl_eval s \<and> pl_audit t = pl_audit s \<and> as_table t = first_table \<and> as_decided t = as_decided s \<and>
    pl_router t = snd (rules_for_agent (p_agent_id (ev_principal ev)) (pl_router s)) \<and>
    (case feature_scope ev s of
       Inl e \<Rightarrow> as_futures t = as_futures s @ [Failed e] \<and> (\<forall>a. as_mail t a = [])
     | Inr f \<Rightarrow> as_futures t = as_futures s @ [Open] \<and>
         (\<forall>a. as_mail t a = (if a = PolicyActor then
           [\<lparr>ms_topic = ''evaluate_policy'', ms_event = fst (enrich_event ev (pl_cache s)), ms_features = f,
             ms_decision = None, ms_reply_to = Some (length (as_futures s))\<rparr>] else [])))"
proof -
  define s1 where "s1 = run_ingress now (submit_request ev s)"
  define m where "m = \<lparr>ms_topic = ''tool_call_requested'', ms_event = ev, ms_features = [], ms_decision = None,
      ms_reply_to = Some (length (as_futures s))\<rparr>"
  have s1_post: "s1 = post SessionActor m (s\<lparr>as_futures := as_futures s @ [Open]\<rparr>)"
    using idle_ingress [OF assms(1,2) m_def] by (simp add: s1_def)
  have w: "pl_writer (s\<lparr>as_futures := x\<rparr>) = pl_writer s" "pl_cache (s\<lparr>as_futures := x\<rparr>) = pl_cache s" for x
    by (simp_all add: pl_cache_def)
  have s1: "pl_writer s1 = pl_writer s" "pl_cache s1 = pl_cache s" "pl_graph s1 = pl_graph s" "pl_eval s1 = pl_eval s"
      "pl_audit s1 = pl_audit s" "pl_router s1 = pl_router s" "pl_allowlists s1 = pl_allowlists s"
      "as_table s1 = first_table" "as_decided s1 = as_decided s" "as_futures s1 = as_futures s @ [Open]"
      "as_mail s1 = (\<lambda>_. [])(SessionActor := [m])"
    using assms(1,3) by (simp_all add: s1_post pl_cache_def pl_graph_def fun_eq_iff) (simp add: post_def)
  have "feature_scope ev s1 = feature_scope ev s"
      "pl_writer (update_cache (\<lambda>_. c) s1) = pl_writer (update_cache (\<lambda>_. c) s)" for c
    by (simp_all add: feature_scope_def s1 update_cache_def)
  moreover have "as_mail s1 SessionActor = m # []" "ms_topic m = ''tool_call_requested''" "ms_event m = ev"
      "ms_reply_to m = Some (length (as_futures s))"
    by (simp_all add: s1 m_def)
  ultimately show ?thesis
    using session_outcome [OF s1(8), of m "[]" t E fresh now] t_def s1
    by (simp add: s1_def [symmetric] split: sum.splits) (auto simp: reply_def nth_append)
qed

lemma run_request_decides:
  assumes "idle s" and "feature_scope ev s = Inr f"
    and en_def: "en = fst (enrich_event ev (pl_cache s))"
    and d_def: "d = fst (evaluate E (fst (enrich_event ev (pl_cache s))) f
      (pl_eval s, snd (rules_for_agent (p_agent_id (ev_principal ev)) (pl_router s))))"
    and w_def: "w = update_cache (\<lambda>_. snd (enrich_event ev (pl_cache s))) s"
    and t_def: "t = run_request E fresh now ev s"
  shows "as_futures t = as_futures s @ [Answered d] \<and>
    pl_audit t = audit_log_record en (Some d) (pl_audit s) \<and>
    pl_writer t = gw_submit en (Some d) (pl_writer (if is_attempt en then update_cache (append_trace en) w else w))"
proof -
  define s2 where "s2 = run_actor E fresh now SessionActor (run_ingress now (submit_request ev s))"
  define s3 where "s3 = run_actor E fresh now PolicyActor s2"
  define s4 where "s4 = run_actor E fresh now DecisionActor s3"
  define s5 where "s5 = run_actor E fresh now AuditActor s4"
  have t: "t = run_actor E fresh now GraphActor s5"
    by (simp add: t_def run_request_def s2_def s3_def s4_def s5_def)
  define m2 where "m2 = \<lparr>ms_topic = ''evaluate_policy'', ms_event = en, ms_features = f,
      ms_decision = None, ms_reply_to = Some (length (as_futures s))\<rparr>"
  define m3 where "m3 = \<lparr>ms_topic = ''make_decision'', ms_event = en, ms_features = [],
      ms_decision = Some d, ms_reply_to = Some (length (as_futures s))\<rparr>"
  have s2: "pl_writer s2 = pl_writer w" "pl_eval s2 = pl_eval s" "pl_audit s2 = pl_audit s" "as_table s2 = first_table"
      "pl_router s2 = snd (rules_for_agent (p_agent_id (ev_principal ev)) (pl_router s))"
      "as_futures s2 = as_futures s @ [Open]" "as_mail s2 = (\<lambda>_. [])(PolicyActor := [m2])"
    using at_policy [of s s2 E fresh now ev] assms(1,2)
    by (simp_all add: idle_def s2_def [symmetric] w_def m2_def en_def fun_eq_iff)
  have s3: "pl_writer s3 = pl_writer w" "pl_audit s3 = pl_audit s" "as_futures s3 = as_futures s @ [Open]"
      "as_table s3 = first_table" "as_mail s3 = (\<lambda>_. [])(DecisionActor := [m3])"
    using policy_outcome [OF s2(4) _ _ s3_def, of m2 "[]"] s2
    by (simp_all add: m2_def m3_def d_def en_def fun_eq_iff)
  have m3: "ms_topic m3 = ''make_decision''" "ms_decision m3 = Some d" "ms_event m3 = en"
      "ms_reply_to m3 = Some (length (as_futures s))" by (simp_all add: m3_def)
  have w3: "pl_writer (update_cache g s3) = pl_writer (update_cache g w)" for g
    by (simp add: update_cache_def pl_cache_def pl_graph_def s3)
  have s4: "pl_audit s4 = pl_audit s" "as_futures s4 = as_futures s @ [Answered d]"
      "pl_writer s4 = pl_writer (if is_attempt en then update_cache (append_trace en) w else w)"
      "as_mail s4 AuditActor = [follow_up ''audit_event'' en d]" "as_mail s4 GraphActor = [follow_up ''graph_update'' en d]"
    using decision_step [OF s3(4) _ m3(1,2) s4_def, of "[]"] s3 m3
    by (auto simp: w3 follow_mail_def reply_def nth_append)
  have s5: "pl_audit s5 = audit_log_record en (Some d) (pl_audit s)" "as_futures s5 = as_futures s4"
      "pl_writer s5 = pl_writer s4" "as_mail s5 GraphActor = [follow_up ''graph_update'' en d]"
    using leaf_step [OF _ s4(4) _ _ s5_def, of d] s4 by (simp_all add: leaf_def)
  show ?thesis
    using leaf_step [OF _ s5(4) _ _ t, of d] s4 s5 by (simp add: leaf_def)
qed


lemma run_empty: "as_mail s a = [] \<Longrightarrow> run_actor E fresh now a s = s"
  by (simp add: run_actor_def)

lemma run_request_fails:
  assumes "idle s" and "feature_scope ev s = Inl e" and t_def: "t = run_request E fresh now ev s"
  shows "as_futures t = as_futures s @ [Failed e] \<and> pl_audit t = pl_audit s \<and>
    pl_writer t = pl_writer (update_cache (\<lambda>_. snd (enrich_event ev (pl_cache s))) s)"
proof -
  define s2 where "s2 = run_actor E fresh now SessionActor (run_ingress now (submit_request ev s))"
  have s2: "as_futures s2 = as_futures s @ [Failed e]" "pl_audit s2 = pl_audit s"
      "pl_writer s2 = pl_writer (update_cache (\<lambda>_. snd (enrich_event ev (pl_cache s))) s)" "\<forall>a. as_mail s2 a = []"
    using at_policy [OF _ _ _ s2_def] assms(1,2) by (simp_all add: idle_def)
  have "t = s2" using s2(4) by (simp add: t_def run_request_def s2_def [symmetric] run_empty)
  then show ?thesis using s2 by simp
qed

lemma actor_matches_pipeline:
  assumes "idle s" and "pipeline_ok s" and "fe_routed (pl_eval s)"
    and "dict_getd (sg_signals (gc_session_signals now (pl_signals s))) (p_session_id (ev_principal ev)) [] = []"
    and "handle_attempt E now elapsed ev s = (answer, p1)" and t_def: "t = run_request E fresh now ev s"
  shows "as_futures t = as_futures s @ [case answer of Inl e \<Rightarrow> Failed e | Inr (d, _) \<Rightarrow> Answered d] \<and>
    pl_writer t = pl_writer p1 \<and> pl_audit t = pl_audit p1"
proof -
  let ?a = "p_agent_id (ev_principal ev)" and ?en = "fst (enrich_event ev (pl_cache s))"
  let ?w = "update_cache (\<lambda>_. snd (enrich_event ev (pl_cache s))) s"
  have scope: "attempt_features now ev s = feature_scope ev s"
    by (rule attempt_features_actor [OF assms(2-4)])
  have en: "attempt_event ev s = ?en" by (simp add: attempt_event_def)
  have pr: "ev_principal ?en = ev_principal ev" by (simp add: enrich_event_same)
  have ready: "pl_writer (attempt_ready now ev s) = pl_writer ?w" "pl_eval (attempt_ready now ev s) = pl_eval s"
      "pl_router (attempt_ready now ev s) = pl_router s" "pl_audit (attempt_ready now ev s) = pl_audit s"
    by (simp_all add: attempt_ready_def) (simp add: update_cache_def pl_cache_def pl_graph_def)
  have wf: "evaluator_wf (pl_eval s, pl_router s)" using assms(2) by (simp add: pipeline_ok_def)
  show ?thesis
  proof (cases rule: handle_attempt_cases [of now ev s E elapsed])
    case (failed e)
    then have "feature_scope ev s = Inl e" using scope by simp
    from run_request_fails [OF assms(1) this t_def] failed(2) assms(5) show ?thesis
      by (auto simp: rules_in_scope_value ready)
  next
    case (decided f p2 st)
    have "feature_scope ev s = Inr f" using decided(1) scope by simp
    from run_request_decides [OF assms(1) this refl refl refl t_def]
    have t: "as_futures t = as_futures s @ [Answered (fst (evaluate E ?en f (pl_eval s, snd (rules_for_agent ?a (pl_router s)))))]"
      "pl_audit t = audit_log_record ?en (Some (fst (evaluate E ?en f (pl_eval s, snd (rules_for_agent ?a (pl_router s)))))) (pl_audit s)"
      "pl_writer t = gw_submit ?en (Some (fst (evaluate E ?en f (pl_eval s, snd (rules_for_agent ?a (pl_router s))))))
         (pl_writer (if is_attempt ?en then update_cache (append_trace ?en) ?w else ?w))"
      by blast+
    have p2: "(pl_eval p2, pl_router p2) = snd (view_for ?a (pl_eval s, pl_router s))" "pl_writer p2 = pl_writer ?w"
        "pl_audit p2 = pl_audit s"
      by (simp_all add: decided(2) rules_in_scope_value ready en pr)
    have "agent_rules ?a (pl_eval s, snd (rules_for_agent ?a (pl_router s))) = agent_rules ?a (pl_eval s, pl_router s)"
      by (simp add: agent_rules_def)
    then have same: "fst st = fst (evaluate E ?en f (pl_eval s, snd (rules_for_agent ?a (pl_router s))))"
      unfolding decided(3) en p2(1)
      by (intro evaluate_same_rules evaluator_wf_view_for evaluator_wf_rules_for_agent wf)
        (simp_all add: pr view_for_version)
    have cong: "pl_writer (update_cache g x) = pl_writer (update_cache g y)"
      if "pl_writer x = pl_writer y" for g and x y :: actor_system
      using that by (simp add: update_cache_def pl_cache_def pl_graph_def)
    define p3 where "p3 = p2\<lparr>pl_eval := fst (snd st), pl_router := snd (snd st)\<rparr>"
    have p3: "pl_writer p3 = pl_writer ?w" "pl_audit p3 = pl_audit s" by (simp_all add: p3_def p2)
    have "pl_writer (publish now elapsed ?en (fst st) p3) = gw_submit ?en (Some (fst st))
        (pl_writer (if is_attempt ?en then update_cache (append_trace ?en) p3 else p3))"
      by (simp add: publish_def record_stats_def log_audit_def submit_graph_def Let_def)
    then show ?thesis
      using t decided(4) assms(5) cong [OF p3(1)] p3 unfolding en p3_def [symmetric] same by auto
  qed
qed

subsection \<open>Requests that travel together\<close>

text \<open>Two calls come in before the first is decided: both are enriched from the same trace.\<close>

definition two_requests :: "externals \<Rightarrow> (approval_bridge \<Rightarrow> string) \<Rightarrow> rat \<Rightarrow> runtime_event \<Rightarrow> runtime_event \<Rightarrow>
    actor_system \<Rightarrow> actor_system" where
  "two_requests E fresh now ev1 ev2 s =
     run_actor E fresh now SessionActor (run_actor E fresh now SessionActor
       (run_ingress now (run_ingress now (submit_request ev2 (submit_request ev1 s)))))"

lemma trace_of_enriched:
  "map_of (ev_extra (fst (enrich_event ev c))) ''trace_sequence'' =
     Some (trace_tools (read_trace (key_trace_log (p_session_id (ev_principal ev))) c))"
  by (simp add: enrich_event_def Let_def)

lemma ingress_passes:
  assumes "as_table s = first_table" and "as_ingress s = (ev, i) # rest" and "as_futures s ! i = Open"
  shows "run_ingress now s = post SessionActor \<lparr>ms_topic = ''tool_call_requested'', ms_event = ev, ms_features = [],
      ms_decision = None, ms_reply_to = Some i\<rparr> (s\<lparr>as_ingress := rest\<rparr>)"
  using assms by (simp add: run_ingress_def publish_topics)

lemma two_ingress:
  assumes "as_table s = first_table" and "as_ingress s = []" and "\<forall>a. as_mail s a = []"
  shows "\<exists>u m1 m2. run_ingress now (run_ingress now (submit_request ev2 (submit_request ev1 s))) = u \<and>
    as_mail u = (\<lambda>_. [])(SessionActor := [m1, m2]) \<and> ms_event m1 = ev1 \<and> ms_event m2 = ev2 \<and>
    ms_topic m1 = ''tool_call_requested'' \<and> ms_topic m2 = ''tool_call_requested'' \<and>
    ms_reply_to m1 \<noteq> ms_reply_to m2 \<and> as_table u = first_table \<and> pl_writer u = pl_writer s \<and>
    pl_router u = pl_router s \<and> pl_allowlists u = pl_allowlists s"
proof -
  let ?n = "length (as_futures s)"
  define msg where "msg ev i = \<lparr>ms_topic = ''tool_call_requested'', ms_event = ev, ms_features = [],
      ms_decision = None, ms_reply_to = Some i\<rparr>" for ev and i :: nat
  define s0 where "s0 = submit_request ev2 (submit_request ev1 s)"
  have s0: "as_table s0 = first_table" "as_ingress s0 = [(ev1, ?n), (ev2, Suc ?n)]"
      "as_futures s0 = as_futures s @ [Open, Open]" "as_mail s0 = as_mail s" "pl_writer s0 = pl_writer s"
      "pl_router s0 = pl_router s" "pl_allowlists s0 = pl_allowlists s"
    using assms by (simp_all add: s0_def submit_request_def)
  define s1 where "s1 = run_ingress now s0"
  have s1: "s1 = post SessionActor (msg ev1 ?n) (s0\<lparr>as_ingress := [(ev2, Suc ?n)]\<rparr>)"
    using ingress_passes [OF s0(1,2)] s0(3) by (simp add: s1_def msg_def)
  have "as_table s1 = first_table" "as_ingress s1 = [(ev2, Suc ?n)]" "as_futures s1 = as_futures s @ [Open, Open]"
    by (simp_all add: s1 s0)
  then have u: "run_ingress now s1 = post SessionActor (msg ev2 (Suc ?n)) (s1\<lparr>as_ingress := []\<rparr>)"
    using ingress_passes [of s1 ev2 "Suc ?n" "[]" now] by (simp add: msg_def nth_append)
  have "pl_allowlists (post a m x) = pl_allowlists x" for a m x by (simp add: post_def)
  then show ?thesis
    unfolding s0_def [symmetric] s1_def [symmetric] u
    by (intro exI [of _ "post SessionActor (msg ev2 (Suc ?n)) (s1\<lparr>as_ingress := []\<rparr>)"] exI [of _ "msg ev1 ?n"]
        exI [of _ "msg ev2 (Suc ?n)"]) (simp add: s1 s0 assms(3) fun_eq_iff msg_def)
qed

lemma two_requests_trace:
  assumes "idle s" and "feature_scope ev1 s = Inr f1"
    and "feature_scope ev2 (update_cache (\<lambda>_. snd (enrich_event ev1 (pl_cache s)))
      (s\<lparr>pl_router := snd (rules_for_agent (p_agent_id (ev_principal ev1)) (pl_router s))\<rparr>)) = Inr f2"
    and t_def: "t = two_requests E fresh now ev1 ev2 s"
  shows "\<exists>m1 m2. as_mail t PolicyActor = [m1, m2] \<and>
     ms_event m1 = fst (enrich_event ev1 (pl_cache s)) \<and>
     ms_event m2 = fst (enrich_event ev2 (snd (enrich_event ev1 (pl_cache s)))) \<and>
     map_of (ev_extra (ms_event m2)) ''trace_sequence'' =
       Some (trace_tools (read_trace (key_trace_log (p_session_id (ev_principal ev2))) (pl_cache s)))"
proof -
  obtain u m1 m2 where u_def: "run_ingress now (run_ingress now (submit_request ev2 (submit_request ev1 s))) = u"
    and u: "as_mail u = (\<lambda>_. [])(SessionActor := [m1, m2])" "ms_event m1 = ev1" "ms_event m2 = ev2"
      "ms_topic m1 = ''tool_call_requested''" "ms_topic m2 = ''tool_call_requested''"
      "as_table u = first_table" "pl_writer u = pl_writer s" "pl_router u = pl_router s" "pl_allowlists u = pl_allowlists s"
    using two_ingress [of s now ev2 ev1] assms(1) unfolding idle_def by blast
  have eqs: "pl_cache u = pl_cache s" "pl_graph u = pl_graph s" using u(7) by (simp_all add: pl_cache_def pl_graph_def)
  then have "feature_scope ev1 u = Inr f1" using assms(2) u(8,9) by (simp add: feature_scope_def)
  define v where "v = run_actor E fresh now SessionActor u"
  define c1 where "c1 = snd (enrich_event ev1 (pl_cache s))"
  have v: "pl_writer v = pl_writer (update_cache (\<lambda>_. c1) u)" "as_table v = first_table"
      "pl_router v = snd (rules_for_agent (p_agent_id (ev_principal ev1)) (pl_router s))"
      "as_mail v SessionActor = [m2]" "pl_allowlists v = pl_allowlists s" "\<exists>x. as_mail v PolicyActor = [x] \<and> ms_event x = fst (enrich_event ev1 (pl_cache s))"
    using session_outcome [OF u(6) _ u(4) v_def, of "[m2]"] \<open>feature_scope ev1 u = Inr f1\<close> u eqs
    by (auto simp: c1_def)
  have cv: "pl_cache v = c1" "pl_graph v = pl_graph s"
    using v(1) eqs(2) by (simp_all add: pl_cache_def pl_graph_def update_cache_def)
  have "pl_graph (s\<lparr>pl_router := rt\<rparr>) = pl_graph s" for rt by (simp add: pl_graph_def)
  then have "feature_scope ev2 v = Inr f2"
    using assms(3) v(3,5) cv by (simp add: feature_scope_def c1_def)
  then obtain y where y: "as_mail t PolicyActor = as_mail v PolicyActor @ [y]" "ms_event y = fst (enrich_event ev2 c1)"
    using session_outcome [OF v(2,4), of t E fresh now] u(3,5) t_def cv(1)
    by (auto simp: two_requests_def u_def v_def [symmetric])
  moreover have "read_trace (key_trace_log sid) c1 = read_trace (key_trace_log sid) (pl_cache s)" for sid
    by (simp add: c1_def enrich_event_def Let_def read_trace_persist)
  ultimately show ?thesis using v(6) by (auto simp: c1_def [symmetric] trace_of_enriched)
qed

lemma two_requests_reachable: "as_started s \<Longrightarrow> as_table s = first_table \<Longrightarrow> as_ingress s = [] \<Longrightarrow>
  \<forall>a. as_mail s a = [] \<Longrightarrow> runtime_reach s (run_ingress now (run_ingress now (submit_request ev2 (submit_request ev1 s))))"
proof -
  assume s: "as_started s" "as_table s = first_table" "as_ingress s = []" "\<forall>a. as_mail s a = []"
  define s0 where "s0 = submit_request ev2 (submit_request ev1 s)"
  have s0: "as_started s0" "as_table s0 = first_table" "as_ingress s0 =
      [(ev1, length (as_futures s)), (ev2, Suc (length (as_futures s)))]"
      "as_futures s0 = as_futures s @ [Open, Open]"
    using s by (simp_all add: s0_def submit_request_def)
  have r0: "runtime_reach s s0" unfolding s0_def by (rule rt_next [OF rt_next [OF rt_start rt_submit] rt_submit])
  have "runtime_step s0 (run_ingress now s0)" using s0 by (intro rt_internal take_request) simp_all
  moreover have "run_ingress now s0 = post SessionActor \<lparr>ms_topic = ''tool_call_requested'', ms_event = ev1,
      ms_features = [], ms_decision = None, ms_reply_to = Some (length (as_futures s))\<rparr>
      (s0\<lparr>as_ingress := [(ev2, Suc (length (as_futures s)))]\<rparr>)"
    using ingress_passes [OF s0(2,3)] s0(4) by simp
  then have "runtime_step (run_ingress now s0) (run_ingress now (run_ingress now s0))"
    using s0(1) by (intro rt_internal take_request) simp_all
  ultimately show ?thesis using r0 unfolding s0_def [symmetric] by (blast intro: rt_next)
qed

lemma two_requests_reach:
  assumes "idle s"
  shows "runtime_reach s (two_requests E longer_id now ev1 ev2 s)"
proof -
  have ok: "requests_ok s" "as_started s" using assms idle_requests_ok by (simp_all add: idle_def)
  obtain u m1 m2 where u: "run_ingress now (run_ingress now (submit_request ev2 (submit_request ev1 s))) = u"
      "as_mail u = (\<lambda>_. [])(SessionActor := [m1, m2])" "ms_topic m1 = ''tool_call_requested''" "as_table u = first_table"
    using two_ingress [of s now ev2 ev1] assms unfolding idle_def by blast
  have "runtime_reach s u"
    using two_requests_reachable [of s now ev2 ev1] assms u(1) by (simp add: idle_def)
  then have v: "runtime_reach s (run_actor E longer_id now SessionActor u)"
    using u(2) ok by (intro reach_take) simp_all
  have "as_mail (run_actor E longer_id now SessionActor u) SessionActor = [m2]"
    using session_step [OF u(4) _ u(3) refl, of "[m2]" E longer_id now] u(2) by auto
  then show ?thesis
    using reach_take [OF v ok, of SessionActor E now] by (simp add: two_requests_def u(1))
qed

subsection \<open>After a restart\<close>

text \<open>The policy actor is never unsubscribed, so a second start subscribes it again.\<close>

definition second_table :: subscriptions where
  "second_table = dict_set ''evaluate_policy'' [Mailbox PolicyActor, Mailbox PolicyActor] first_table"

lemma restart_table:
  assumes "as_started s" and "as_table s = first_table"
  shows "as_table (start_runtime (stop_runtime s)) = second_table"
proof -
  have "foldl (\<lambda>t (topic, h). subscribe topic h t)
      (foldl (\<lambda>t (topic, h). unsubscribe topic h t) first_table
         (rev loop_topics @ filter (\<lambda>x. snd x \<noteq> Mailbox PolicyActor) (rev actor_topics)))
      (actor_topics @ loop_topics) = second_table"
    by code_simp
  then show ?thesis using assms by (simp add: start_runtime_def stop_runtime_def)
qed

lemma restart_fields:
  assumes "as_started s"
  shows "as_started (start_runtime (stop_runtime s))"
    "as_mail (start_runtime (stop_runtime s)) = as_mail s" "as_ingress (start_runtime (stop_runtime s)) = as_ingress s"
    "Open \<notin> set (as_futures (start_runtime (stop_runtime s)))"
    "feature_scope ev (start_runtime (stop_runtime s)) = feature_scope ev s"
    "pl_cache (start_runtime (stop_runtime s)) = pl_cache s"
  using assms by (auto simp: start_runtime_def stop_runtime_def feature_scope_def pl_cache_def pl_graph_def)

lemma second_publish:
  assumes "as_table s = second_table"
  shows "ms_topic m = ''tool_call_requested'' \<Longrightarrow> bus_publish now m s = post SessionActor m s"
    and "ms_topic m = ''evaluate_policy'' \<Longrightarrow> bus_publish now m s = post PolicyActor m (post PolicyActor m s)"
  using assms by (simp_all add: bus_publish_def second_table_def first_table_def dict_getd_def deliver_def)

lemma restarted_evaluates_twice:
  assumes "idle s" and "feature_scope ev s = Inr f"
  defines "r \<equiv> start_runtime (stop_runtime s)"
  shows "\<exists>m. as_mail (run_actor E fresh now SessionActor (run_ingress now (submit_request ev r))) PolicyActor = [m, m] \<and>
     ms_event m = fst (enrich_event ev (pl_cache s)) \<and> ms_reply_to m = Some (length (as_futures r))"
proof -
  have r: "as_table r = second_table" "as_ingress r = []" "\<forall>a. as_mail r a = []" "feature_scope ev r = Inr f"
      "pl_cache r = pl_cache s"
    using assms(1,2) restart_table restart_fields by (simp_all add: r_def idle_def)
  define r1 where "r1 = r\<lparr>as_futures := as_futures r @ [Open], as_ingress := []\<rparr>"
  define m where "m = \<lparr>ms_topic = ''tool_call_requested'', ms_event = ev, ms_features = [], ms_decision = None,
      ms_reply_to = Some (length (as_futures r))\<rparr>"
  have r1: "as_table r1 = second_table" "as_mail r1 = as_mail r" "pl_cache r1 = pl_cache r" "pl_router r1 = pl_router r"
      "pl_graph r1 = pl_graph r" "pl_allowlists r1 = pl_allowlists r"
    using r(1) by (simp_all add: r1_def pl_cache_def pl_graph_def)
  have in1: "run_ingress now (submit_request ev r) = post SessionActor m r1"
    using r(2) second_publish(1) [OF r1(1), of m now]
    by (simp add: run_ingress_def submit_request_def m_def r1_def)
  obtain en c1 where en: "enrich_event ev (pl_cache r) = (en, c1)" by fastforce
  have "ev_principal en = ev_principal ev" using enrich_event_same(2) [of ev "pl_cache r"] by (simp add: en)
  define r2 where "r2 = update_cache (\<lambda>_. c1) ((post SessionActor m r1)
    \<lparr>as_mail := (as_mail (post SessionActor m r1))(SessionActor := [])\<rparr>)"
  have r2: "pl_cache r2 = c1" "pl_graph r2 = pl_graph r" "pl_router r2 = pl_router r"
      "as_table r2 = second_table" "as_mail r2 PolicyActor = []" "pl_allowlists r2 = pl_allowlists r"
    using r(3) by (simp_all add: r2_def r1) (simp_all add: pl_graph_def post_def r1 [unfolded pl_graph_def])
  obtain rules rt where rules: "rules_for_agent (p_agent_id (ev_principal ev)) (pl_router r) = (rules, rt)" by fastforce
  have "pl_graph (x\<lparr>pl_router := y\<rparr>) = pl_graph x" for x :: actor_system and y by (simp add: pl_graph_def)
  then have sf: "session_features en r2 = (Inr f, r2\<lparr>pl_router := rt\<rparr>)"
    using r(4) by (simp add: session_features_def feature_scope_def en rules r2 \<open>ev_principal en = ev_principal ev\<close>)
  have "pl_cache (post SessionActor m r1) = pl_cache r" by (simp add: pl_cache_def r1 [unfolded pl_cache_def])
  then have "pl_cache ((post SessionActor m r1)\<lparr>as_mail := x\<rparr>) = pl_cache r" for x by (simp add: pl_cache_def)
  then have "run_actor E fresh now SessionActor (post SessionActor m r1) =
      bus_publish now \<lparr>ms_topic = ''evaluate_policy'', ms_event = en, ms_features = f, ms_decision = None,
        ms_reply_to = ms_reply_to m\<rparr> (r2\<lparr>pl_router := rt\<rparr>)"
    using r(3) r1(2) en sf by (simp add: run_actor_def session_handle_def m_def r2_def)
  then show ?thesis
    using r2(4,5) en r(5) by (simp add: in1 second_publish(2) m_def)
qed

end
