(* ===== verification/Actor_Properties.thy ===== *)
theory Actor_Properties
  imports Sample Actor_Equivalence
begin

text \<open>
  What the asynchronous runtime guarantees and where it differs from the synchronous pipeline, and
  what its loops promise.  Each property with hypotheses is followed by an example.
\<close>

subsection \<open>A runtime that has just been started\<close>

definition sample_runtime :: "compiled_rule list \<Rightarrow> actor_system" where
  "sample_runtime rules = start_runtime (new_runtime (6/10) 10 (sample_pipeline rules))"

lemma sample_runtime_fields:
  "as_started (sample_runtime rules)" "as_table (sample_runtime rules) = first_table"
  "as_ingress (sample_runtime rules) = []" "as_mail (sample_runtime rules) a = []"
  "as_futures (sample_runtime rules) = []" "as_decided (sample_runtime rules) = []"
  "pl_writer (sample_runtime rules) = pl_writer (sample_pipeline rules)"
  "pl_eval (sample_runtime rules) = pl_eval (sample_pipeline rules)"
  "pl_router (sample_runtime rules) = pl_router (sample_pipeline rules)"
  "pl_audit (sample_runtime rules) = pl_audit (sample_pipeline rules)"
  "pl_stats (sample_runtime rules) = pl_stats (sample_pipeline rules)"
  "pl_signals (sample_runtime rules) = pl_signals (sample_pipeline rules)"
  "pl_allowlists (sample_runtime rules) = pl_allowlists (sample_pipeline rules)"
  "es_bridge (sample_runtime rules) = []"
proof -
  let ?s = "new_runtime (6/10) 10 (sample_pipeline rules)"
  have "as_table ?s = []" "\<not> as_started ?s" by (simp_all add: new_runtime_def pipeline.defs)
  from first_start [OF this] show "as_table (sample_runtime rules) = first_table" by (simp add: sample_runtime_def)
qed (simp_all add: sample_runtime_def start_runtime_def new_runtime_def pipeline.defs sample_pipeline_def)

lemma sample_runtime_idle: "idle (sample_runtime rules)"
  by (simp add: idle_def sample_runtime_fields)

lemma sample_features: "pl_allowlists x = [] \<Longrightarrow> \<exists>f. feature_scope sample_event x = Inr f"
  using features_without_target [of "fst (enrich_event sample_event (pl_cache x))" sample_call]
  by (simp add: feature_scope_def enrich_event_same sample_event_call)

lemma sample_runtime_allowlists: "pl_allowlists (sample_runtime rules) = []"
  by (simp add: sample_runtime_fields) (simp add: sample_pipeline_def)

lemma sample_runtime_ok: "pipeline_ok (sample_runtime rules)"
  using sample_pipeline_ok [of rules] by (simp add: pipeline_ok_def pl_cache_def sample_runtime_fields)

lemma sample_runtime_routed: "fe_routed (pl_eval (sample_runtime rules))"
    "sg_signals (gc_session_signals now (pl_signals (sample_runtime rules))) = []"
  by (simp_all add: sample_runtime_fields) (simp_all add: sample_pipeline_def new_evaluator_def
      gc_session_signals_def)

subsection \<open>Requests\<close>

text \<open>C5: A request that travels alone through the idle actor runtime is answered like by the synchronous
  pipeline: the same decision or the same error, the same session cache and graph queue, the same
  audit record, provided the session has no live signals (the actors do not read them).\<close>

theorem actors_answer_like_pipeline:
  assumes "idle s" and "pipeline_ok s" and "fe_routed (pl_eval s)"
    and "dict_getd (sg_signals (gc_session_signals now (pl_signals s))) (p_session_id (ev_principal ev)) [] = []"
    and "handle_attempt E now elapsed ev s = (answer, p1)"
  shows "as_futures (run_request E fresh now ev s) =
      as_futures s @ [case answer of Inl e \<Rightarrow> Failed e | Inr (d, _) \<Rightarrow> Answered d] \<and>
    pl_writer (run_request E fresh now ev s) = pl_writer p1 \<and>
    pl_audit (run_request E fresh now ev s) = pl_audit p1"
  by (rule actor_matches_pipeline [OF assms refl])

lemma actors_answer_like_pipeline_example:
  "pl_audit (run_request sample_ext longer_id 0 sample_event (sample_runtime [])) =
   pl_audit (snd (handle_attempt sample_ext 0 0 sample_event (sample_runtime [])))"
proof -
  obtain answer p1 where a: "handle_attempt sample_ext 0 0 sample_event (sample_runtime []) = (answer, p1)" by fastforce
  have "dict_getd (sg_signals (gc_session_signals 0 (pl_signals (sample_runtime [])))) k [] = []" for k
    by (simp add: sample_runtime_routed(2) dict_getd_def)
  from actors_answer_like_pipeline [OF sample_runtime_idle sample_runtime_ok sample_runtime_routed(1) this a]
  show ?thesis by (simp add: a)
qed

text \<open>C18: However requests, timeouts, reviews and actor turns interleave after an idle start, the messages in
  the runtime come to rest: no run of internal steps is longer than their weight, some run ends
  with nothing left to do, and then every request has been answered, failed or given up.\<close>

theorem requests_are_settled:
  assumes "idle s" and "runtime_reach s t"
  shows "(\<forall>n u. (internal_step ^^ n) t u \<longrightarrow> n \<le> weight t) \<and>
    (\<exists>n u. (internal_step ^^ n) t u \<and> as_ingress u = [] \<and> (\<forall>a. as_mail u a = []) \<and>
       (\<forall>i < length (as_futures u). as_futures u ! i \<noteq> Open))"
proof -
  have ok: "requests_ok s" "as_started s" using assms(1) idle_requests_ok by (simp_all add: idle_def)
  then have t: "requests_ok t" "as_started t" using runtime_reach_started [OF assms(2)] by simp_all
  then obtain n u where u: "(internal_step ^^ n) t u" "weight u = 0" using comes_to_rest by blast
  have "requests_ok u" using internal_steps_bounded [OF u(1) t(1)] by simp
  then have "\<forall>i < length (as_futures u). as_futures u ! i \<noteq> Open" using u(2) at_rest_settled by blast
  moreover have "as_ingress u = [] \<and> (\<forall>a. as_mail u a = [])" using u(2) weight_0 [of u] by blast
  moreover have "n' \<le> weight t" if "(internal_step ^^ n') t u'" for n' u'
    using internal_steps_bounded [OF that t(1)] by simp
  ultimately show ?thesis using u(1) by blast
qed

lemma requests_are_settled_example:
  "\<exists>n u. (internal_step ^^ n) (submit_request sample_event (sample_runtime [])) u \<and>
     (\<forall>i < length (as_futures u). as_futures u ! i \<noteq> Open)"
  using requests_are_settled [OF sample_runtime_idle [of "[]"] rt_next [OF rt_start rt_submit], of sample_event] by blast

text \<open>In every reachable state a request that is still open is in exactly one of the four queues on
  its way, with its own reply address, and no settled request is answered again by a message that
  is still travelling: only requests given up by their callers may travel on.\<close>

theorem open_requests_in_one_place:
  assumes "idle s" and "runtime_reach s t"
  shows "distinct (flying t) \<and>
    (\<forall>i < length (as_futures t). as_futures t ! i = Open \<longrightarrow> i \<in> set (flying t)) \<and>
    (\<forall>i \<in> set (flying t). as_futures t ! i = Open \<or> as_futures t ! i = GivenUp)"
  using requests_ok_reach [OF assms(2) idle_requests_ok [OF assms(1)]] by (simp add: requests_ok_def)

lemma open_requests_in_one_place_example:
  "distinct (flying (submit_request sample_event (sample_runtime [])))"
  using open_requests_in_one_place [OF sample_runtime_idle [of "[]"] rt_next [OF rt_start rt_submit], of sample_event] by blast

text \<open>The audit log together with the audit actor's mailbox holds the decisions in the order they were
  made; the metrics have counted each decided request once; and for every HUMAN_CHECK decision there
  is one ticket, or a message that will create it.\<close>

theorem decisions_are_accounted_for:
  assumes "idle s" and "as_decided s = []" and "runtime_reach s t"
  shows "al_sink (pl_audit t) @ map (\<lambda>m. (ms_event m, ms_decision m)) (as_mail t AuditActor) =
      al_sink (pl_audit s) @ map (\<lambda>(ev, d). (ev, Some d)) (as_decided t) \<and>
    dl_total (as_metrics t) = dl_total (as_metrics s) + length (as_decided t) + length (as_mail t DecisionActor) \<and>
    length (es_bridge t) + length (as_mail t HumanReviewActor) =
      length (es_bridge s) + length (filter (\<lambda>x. d_action (snd x) = HUMAN_CHECK) (as_decided t))"
  using accounts_ok_reach [OF assms(3) idle_requests_ok [OF assms(1)] accounts_ok_start [OF _ assms(2)]] assms(1)
  by (simp add: accounts_ok_def idle_def)

lemma decisions_are_accounted_for_example:
  "length (es_bridge (submit_request sample_event (sample_runtime []))) = 0"
  using decisions_are_accounted_for [OF sample_runtime_idle [of "[]"] sample_runtime_fields(6)
      rt_next [OF rt_start rt_submit], of sample_event]
  by (simp add: sample_runtime_fields submit_request_def)

text \<open>Two calls of one session that are both submitted before the first is decided are evaluated on
  the same trace: the second is judged as if the first had not happened, whereas the synchronous
  pipeline judges it with the first at the end of its trace.\<close>

theorem concurrent_calls_miss_each_other:
  assumes "idle s" and "feature_scope ev1 s = Inr f1"
    and "feature_scope ev2 (update_cache (\<lambda>_. snd (enrich_event ev1 (pl_cache s)))
      (s\<lparr>pl_router := snd (rules_for_agent (p_agent_id (ev_principal ev1)) (pl_router s))\<rparr>)) = Inr f2"
    and "p_session_id (ev_principal ev2) = p_session_id (ev_principal ev1)"
    and "pipeline_ok s" and "is_attempt ev1" and "ev_tool_call ev1 = Some tc"
    and "handle_attempt E now elapsed ev1 s = (Inr (d, ev'), p1)"
  shows "(\<exists>t m1 m2. runtime_reach s t \<and> as_mail t PolicyActor = [m1, m2] \<and>
       map_of (ev_extra (ms_event m2)) ''trace_sequence'' =
         Some (trace_tools (read_trace (key_trace_log (p_session_id (ev_principal ev1))) (pl_cache s)))) \<and>
     map_of (ev_extra (attempt_event ev2 p1)) ''trace_sequence'' =
       Some (trace_tools (push_right trace_log_cap
         (read_trace (key_trace_log (p_session_id (ev_principal ev1))) (pl_cache s)) (tc_tool_name tc, ev_ts_ms ev1)))"
proof -
  have "\<exists>m1 m2. as_mail (two_requests E longer_id now ev1 ev2 s) PolicyActor = [m1, m2] \<and>
     map_of (ev_extra (ms_event m2)) ''trace_sequence'' =
       Some (trace_tools (read_trace (key_trace_log (p_session_id (ev_principal ev1))) (pl_cache s)))"
    using two_requests_trace [OF assms(1-3) refl, of E longer_id now] assms(4) by auto
  moreover have "map_of (ev_extra (attempt_event ev2 p1)) ''trace_sequence'' =
     Some (trace_tools (push_right trace_log_cap
       (read_trace (key_trace_log (p_session_id (ev_principal ev1))) (pl_cache s)) (tc_tool_name tc, ev_ts_ms ev1)))"
    unfolding attempt_event_def trace_of_enriched
    using handle_attempt_trace [OF assms(5,7,6,8)] assms(4) by simp
  ultimately show ?thesis using two_requests_reach [OF assms(1)] by blast
qed

lemma concurrent_calls_miss_each_other_example:
  "\<exists>t m1 m2. runtime_reach (sample_runtime []) t \<and> as_mail t PolicyActor = [m1, m2] \<and>
     map_of (ev_extra (ms_event m2)) ''trace_sequence'' =
       Some (trace_tools (read_trace (key_trace_log ''s1'') (pl_cache (sample_runtime []))))"
proof -
  let ?s = "sample_runtime []"
  obtain f1 where f1: "feature_scope sample_event ?s = Inr f1"
    using sample_features [OF sample_runtime_allowlists] by blast
  let ?s2 = "update_cache (\<lambda>_. snd (enrich_event sample_event (pl_cache ?s)))
    (?s\<lparr>pl_router := snd (rules_for_agent (p_agent_id (ev_principal sample_event)) (pl_router ?s))\<rparr>)"
  obtain f2 where f2: "feature_scope sample_event ?s2 = Inr f2"
    using sample_features [of ?s2] sample_runtime_allowlists by auto
  have "attempt_features 0 sample_event ?s = Inr f1"
    using attempt_features_actor [OF sample_runtime_ok [of "[]"] sample_runtime_routed(1), of 0 sample_event] f1
    by (simp add: sample_runtime_routed(2) dict_getd_def)
  then obtain d ev' p1 where a: "handle_attempt sample_ext 0 0 sample_event ?s = (Inr (d, ev'), p1)"
    by (cases rule: handle_attempt_cases [of 0 sample_event ?s sample_ext 0]) auto
  have "is_attempt sample_event" "p_session_id (ev_principal sample_event) = ''s1''"
    by (simp_all add: sample_event_def is_attempt_def mk_event_def mk_principal_def)
  then show ?thesis
    using concurrent_calls_miss_each_other [OF sample_runtime_idle f1 f2 refl sample_runtime_ok _ sample_event_call(1) a]
    by simp
qed

text \<open>After a stop and a restart the policy actor is subscribed twice: a request is put into its mailbox
  twice with the same reply address, so that the rules are evaluated twice for one call.\<close>

theorem restart_evaluates_twice:
  assumes "idle s" and "feature_scope ev s = Inr f"
  shows "let r = start_runtime (stop_runtime s);
      t = run_actor E fresh now SessionActor (run_ingress now (submit_request ev r))
    in \<exists>m. as_mail t PolicyActor = [m, m] \<and> ms_event m = fst (enrich_event ev (pl_cache s)) \<and>
       ms_reply_to m = Some (length (as_futures r))"
  using restarted_evaluates_twice [OF assms, of E fresh now] by (simp only: Let_def)

lemma restart_evaluates_twice_example:
  "\<exists>m. as_mail (run_actor sample_ext longer_id 0 SessionActor (run_ingress 0 (submit_request sample_event
     (start_runtime (stop_runtime (sample_runtime [])))))) PolicyActor = [m, m]"
proof -
  obtain f where "feature_scope sample_event (sample_runtime []) = Inr f"
    using sample_features [OF sample_runtime_allowlists] by blast
  from restart_evaluates_twice [OF sample_runtime_idle this, of sample_ext longer_id 0] show ?thesis
    by (auto simp only: Let_def)
qed

subsection \<open>Loops\<close>

text \<open>The filter in front of rule synthesis lets two events of one agent and tool through only if at least
  the cooldown lies between them, and lets nothing through whose risk is below the threshold and
  whose action is neither deny nor human check.\<close>

theorem synthesis_is_rate_limited:
  assumes "0 \<le> dr_cooldown dr"
  shows "sorted_wrt (\<lambda>a b. snd a = snd b \<longrightarrow> fst a + dr_cooldown dr \<le> fst b) (drl.firings xs dr) \<and>
    (fst (dynamic_loop_handle now (ev, d) dr) \<longrightarrow>
       dr_risk_threshold dr \<le> d_risk_score d \<or> d_action d \<in> {DENY, HUMAN_CHECK})"
proof
  show "sorted_wrt (\<lambda>a b. snd a = snd b \<longrightarrow> fst a + dr_cooldown dr \<le> fst b) (drl.firings xs dr)"
    by (rule drl.firings_apart [OF assms])
  show "fst (dynamic_loop_handle now (ev, d) dr) \<longrightarrow>
      dr_risk_threshold dr \<le> d_risk_score d \<or> d_action d \<in> {DENY, HUMAN_CHECK}"
    by (cases "d_action d") (auto simp: dynamic_loop_handle_def dynamic_should_fire_def Let_def split: if_splits)
qed

lemma synthesis_is_rate_limited_example:
  "sorted_wrt (\<lambda>a b. snd a = snd b \<longrightarrow> fst a + 10 \<le> fst b) (drl.firings xs (new_dynamic_loop (6/10) 10))"
  using synthesis_is_rate_limited [of "new_dynamic_loop (6/10) 10"] by (simp add: new_dynamic_loop_def)

text \<open>One tick of the review watchdog resolves exactly the pending tickets that are at least the timeout
  old, with the configured action, and leaves every other ticket as it is, so that afterwards no
  overdue ticket is pending.\<close>

theorem watchdog_resolves_overdue:
  assumes "bridge_ok b"
  shows "status_of (snd (review_tick now (rl, b))) u =
    (if status_of b u = Some Pending \<and> (\<exists>c. created_of b u = Some c \<and> c \<le> to_ms now - to_ms (rl_timeout rl))
     then Some (resolved_status (rl_on_timeout rl)) else status_of b u) \<and>
    bridge_ok (snd (review_tick now (rl, b)))"
  using review_tick_status [OF assms] bridge_ok_review_tick [OF assms] by blast

lemma watchdog_resolves_overdue_example:
  "\<exists>d. status_of (snd (review_tick 1000 (\<lparr>rl_timeout = 300, rl_on_timeout = ''deny'', rl_note = [], rl_auto_resolved = 0\<rparr>,
     enqueue ''t1'' 100 sample_event d []))) ''t1'' = Some Denied"
proof -
  have "bridge_ok (enqueue ''t1'' 100 sample_event d [])" for d by (simp add: bridge_ok_enqueue bridge_ok_Nil)
  from watchdog_resolves_overdue [OF this, where now = 1000 and rl = "\<lparr>rl_timeout = 300, rl_on_timeout = ''deny'', rl_note = [], rl_auto_resolved = 0\<rparr>" and u = "''t1''"]
  show ?thesis by (simp add: status_of_def created_of_def enqueue_def to_ms_def resolved_status_def)
qed

text \<open>Two ticks of the audit loop with no decision in between hand the same batch to the sink twice: the
  cursor it keeps is never moved.\<close>

theorem audit_loop_repeats_batches:
  assumes "audit_ok lg" and "au_has_sink al" and "0 < au_batch_size al"
    and "au_batch_size al \<le> al_buffer_size lg" and "al_sink lg \<noteq> []"
  shows "au_batches (audit_loop_tick lg (audit_loop_tick lg al)) =
    au_batches al @ [last_n (au_batch_size al) (al_sink lg), last_n (au_batch_size al) (al_sink lg)]"
proof -
  let ?al = "audit_loop_tick lg al"
  have "au_has_sink ?al" "au_batch_size ?al = au_batch_size al"
    using assms(2) by (simp_all add: audit_loop_tick_def Let_def)
  then show ?thesis
    using audit_tick_batch [OF assms] audit_tick_batch [of lg ?al] assms by simp
qed

lemma audit_loop_repeats_batches_example:
  "let lg = audit_log_record sample_event None (new_audit_log 5);
       al = \<lparr>au_batch_size = 3, au_has_sink = True, au_batches = [], au_cursor = 0, au_dropped_warned_at = 0\<rparr>
   in au_batches (audit_loop_tick lg (audit_loop_tick lg al)) = [[(sample_event, None)], [(sample_event, None)]]"
proof -
  let ?lg = "audit_log_record sample_event None (new_audit_log 5)"
  have "audit_ok ?lg" by (intro audit_ok_record audit_ok_new)
  moreover have "al_sink ?lg = [(sample_event, None)]" "al_buffer_size ?lg = 5"
    by (simp_all add: audit_log_record_def new_audit_log_def Let_def)
  ultimately show ?thesis
    using audit_loop_repeats_batches [of ?lg
        "\<lparr>au_batch_size = 3, au_has_sink = True, au_batches = [], au_cursor = 0, au_dropped_warned_at = 0\<rparr>"]
    by (simp add: last_n_def)
qed

end
