(* ===== verification/Tool_Catalog.thy ===== *)
theory Tool_Catalog
  imports Events "HOL-Library.List_Lexorder" "HOL-Library.Char_ord"
begin

text \<open>
  The tool catalog of the server (\<open>models/tool_catalog.py\<close>, \<open>storage/tool_catalog_store.py\<close>), the
  table of output labels (\<open>labels/registry.py\<close>) and the LRU cache (\<open>storage/event_store.py\<close>).  The
  catalog keeps its labels as free strings; turning an entry into the label of a tool call validates
  them.  The LRU cache is shown to implement a list of keys by recency.
\<close>

subsection \<open>Catalog entries\<close>

record catalog_labels =
  cl_boundary :: string
  cl_sensitivity :: string
  cl_integrity :: string
  cl_tags :: "string list"

definition default_catalog_labels :: catalog_labels where
  "default_catalog_labels = \<lparr>cl_boundary = ''internal'', cl_sensitivity = ''low'',
     cl_integrity = ''trusted'', cl_tags = []\<rparr>"

record catalog_entry =
  ce_owner_agent_id :: string
  ce_name :: string
  ce_labels :: catalog_labels
  ce_input_params :: "string list"
  ce_updated_at_ms :: "int option"

definition with_updated_timestamp :: "int \<Rightarrow> int option \<Rightarrow> catalog_entry \<Rightarrow> catalog_entry" where
  "with_updated_timestamp now_ms ts_ms e =
     e\<lparr>ce_updated_at_ms := Some (case ts_ms of Some t \<Rightarrow> t | None \<Rightarrow> now_ms)\<rparr>"

type_synonym public_tool = "string \<times> string \<times> catalog_labels \<times> string list"

definition to_public_dict :: "catalog_entry \<Rightarrow> public_tool" where
  "to_public_dict e = (ce_owner_agent_id e, ce_name e, ce_labels e, ce_input_params e)"

subsection \<open>The store\<close>

text \<open>\<open>cs_written\<close> is what the after-write hook, when one is set, has been called with.\<close>

record catalog_store =
  cs_tools :: "(string \<times> string, catalog_entry) dict"
  cs_hooked :: bool
  cs_written :: "catalog_entry list"

definition empty_catalog :: catalog_store where
  "empty_catalog = \<lparr>cs_tools = [], cs_hooked = False, cs_written = []\<rparr>"

definition set_after_write_hook :: "bool \<Rightarrow> catalog_store \<Rightarrow> catalog_store" where
  "set_after_write_hook on cs = cs\<lparr>cs_hooked := on\<rparr>"

definition run_after_write_hook :: "catalog_entry \<Rightarrow> catalog_store \<Rightarrow> catalog_store" where
  "run_after_write_hook e cs = (if cs_hooked cs then cs\<lparr>cs_written := cs_written cs @ [e]\<rparr> else cs)"

text \<open>Sorting by the pair of keys is sorting by the name, then, stably, by the agent.\<close>

definition catalog_list :: "string option \<Rightarrow> catalog_store \<Rightarrow> catalog_entry list" where
  "catalog_list agent_id cs =
     map snd (sort_key (\<lambda>x. fst (fst x)) (sort_key (\<lambda>x. snd (fst x))
       (case agent_id of None \<Rightarrow> cs_tools cs | Some a \<Rightarrow> filter (\<lambda>x. fst (fst x) = a) (cs_tools cs))))"

definition catalog_get :: "string \<Rightarrow> string \<Rightarrow> catalog_store \<Rightarrow> catalog_entry option" where
  "catalog_get name agent_id cs = map_of (cs_tools cs) (agent_id, name)"

definition catalog_upsert :: "int \<Rightarrow> catalog_entry \<Rightarrow> catalog_store \<Rightarrow> catalog_entry \<times> catalog_store" where
  "catalog_upsert now_ms e cs =
     (let stored = with_updated_timestamp now_ms None e
      in (stored, run_after_write_hook stored
            (cs\<lparr>cs_tools := dict_set (ce_owner_agent_id stored, ce_name stored) stored (cs_tools cs)\<rparr>)))"

definition catalog_update_labels ::
  "int \<Rightarrow> string \<Rightarrow> string \<Rightarrow> catalog_labels \<Rightarrow> catalog_store \<Rightarrow> catalog_entry option \<times> catalog_store" where
  "catalog_update_labels now_ms agent_id name labels cs =
     (case map_of (cs_tools cs) (agent_id, name) of
        None \<Rightarrow> (None, cs)
      | Some current \<Rightarrow>
          (let updated = with_updated_timestamp now_ms None (current\<lparr>ce_labels := labels\<rparr>)
           in (Some updated, run_after_write_hook updated
                 (cs\<lparr>cs_tools := dict_set (agent_id, name) updated (cs_tools cs)\<rparr>))))"

definition catalog_clear :: "catalog_store \<Rightarrow> catalog_store" where
  "catalog_clear cs = cs\<lparr>cs_tools := []\<rparr>"

text \<open>Every entry is stored under its own owner and name.\<close>

definition catalog_ok :: "catalog_store \<Rightarrow> bool" where
  "catalog_ok cs \<longleftrightarrow> distinct (map fst (cs_tools cs)) \<and>
     (\<forall>(k, e) \<in> set (cs_tools cs). k = (ce_owner_agent_id e, ce_name e))"

lemma catalog_ok_empty [guard_intros]: "catalog_ok empty_catalog"
  by (simp add: catalog_ok_def empty_catalog_def)

lemma catalog_ok_set:
  "catalog_ok cs \<Longrightarrow> k = (ce_owner_agent_id e, ce_name e) \<Longrightarrow> catalog_ok (cs\<lparr>cs_tools := dict_set k e (cs_tools cs)\<rparr>)"
  using set_dict_set_subset [of k e "cs_tools cs"] by (auto simp: catalog_ok_def distinct_update)

lemma catalog_ok_hook [simp]: "catalog_ok (run_after_write_hook e cs) = catalog_ok cs"
  by (simp add: run_after_write_hook_def catalog_ok_def)

lemma catalog_ok_upsert [guard_intros]: "catalog_ok cs \<Longrightarrow> catalog_ok (snd (catalog_upsert now e cs))"
  by (simp add: catalog_upsert_def Let_def catalog_ok_set)

lemma catalog_ok_key: "catalog_ok cs \<Longrightarrow> map_of (cs_tools cs) k = Some e \<Longrightarrow> k = (ce_owner_agent_id e, ce_name e)"
  by (auto simp: catalog_ok_def dest!: map_of_SomeD)

lemma catalog_ok_update [guard_intros]:
  "catalog_ok cs \<Longrightarrow> catalog_ok (snd (catalog_update_labels now a n lb cs))"
  by (auto simp: catalog_update_labels_def Let_def with_updated_timestamp_def
      intro!: catalog_ok_set dest: catalog_ok_key split: option.split)

lemma catalog_ok_clear [guard_intros]: "catalog_ok (catalog_clear cs)"
  by (simp add: catalog_ok_def catalog_clear_def)

lemma tools_after_hook [simp]: "cs_tools (run_after_write_hook e cs) = cs_tools cs"
  by (simp add: run_after_write_hook_def)

lemma get_upsert:
  "catalog_get n a (snd (catalog_upsert now e cs)) =
     (if (a, n) = (ce_owner_agent_id e, ce_name e) then Some (with_updated_timestamp now None e) else catalog_get n a cs)"
  by (auto simp: catalog_get_def catalog_upsert_def Let_def with_updated_timestamp_def)

lemma get_update_labels:
  "catalog_get n' a' (snd (catalog_update_labels now a n lb cs)) =
     (if (a', n') = (a, n) then map_option (\<lambda>e. with_updated_timestamp now None (e\<lparr>ce_labels := lb\<rparr>)) (catalog_get n a cs)
      else catalog_get n' a' cs)"
  by (auto simp: catalog_get_def catalog_update_labels_def Let_def split: option.split)

subsection \<open>Labels of a tool call\<close>

definition boundary_of :: "string \<Rightarrow> boundary option" where
  "boundary_of s = find (\<lambda>b. boundary_value b = s) [BInternal, BExternal, BPrivileged]"

definition sensitivity_of :: "string \<Rightarrow> sensitivity option" where
  "sensitivity_of s = find (\<lambda>v. sensitivity_value v = s) [SLow, SModerate, SHigh]"

definition integrity_of :: "string \<Rightarrow> integrity option" where
  "integrity_of s = find (\<lambda>v. integrity_value v = s) [ITrusted, IUnfiltered]"

text \<open>Building a \<open>ToolStaticLabel\<close> from the strings of an entry raises when one is no literal of its type.\<close>

definition static_label :: "catalog_labels \<Rightarrow> tool_static_label result" where
  "static_label cl =
     (case (boundary_of (cl_boundary cl), sensitivity_of (cl_sensitivity cl), integrity_of (cl_integrity cl)) of
        (Some b, Some s, Some i) \<Rightarrow>
          Inr \<lparr>lb_boundary = b, lb_sensitivity = s, lb_integrity = i, lb_tags = cl_tags cl\<rparr>
      | _ \<Rightarrow> Inl (ExternalError ''ValidationError''))"

lemma boundary_of_value [simp]: "boundary_of (boundary_value b) = Some b"
  by (cases b) (simp_all add: boundary_of_def)

lemma sensitivity_of_value [simp]: "sensitivity_of (sensitivity_value s) = Some s"
  by (cases s) (simp_all add: sensitivity_of_def)

lemma integrity_of_value [simp]: "integrity_of (integrity_value i) = Some i"
  by (cases i) (simp_all add: integrity_of_def)

lemma static_label_roundtrip:
  "static_label \<lparr>cl_boundary = boundary_value (lb_boundary lb), cl_sensitivity = sensitivity_value (lb_sensitivity lb),
     cl_integrity = integrity_value (lb_integrity lb), cl_tags = lb_tags lb\<rparr> = Inr lb"
  by (simp add: static_label_def)

lemma static_label_fails:
  "static_label cl = Inl (ExternalError ''ValidationError'') \<or> (\<exists>lb. static_label cl = Inr lb \<and>
     cl_boundary cl = boundary_value (lb_boundary lb) \<and> cl_sensitivity cl = sensitivity_value (lb_sensitivity lb) \<and>
     cl_integrity cl = integrity_value (lb_integrity lb) \<and> cl_tags cl = lb_tags lb)"
  by (auto simp: static_label_def boundary_of_def sensitivity_of_def integrity_of_def split: option.split if_splits)

subsection \<open>Output labels by tool name\<close>

definition mail_labels :: "string list" where
  "mail_labels = [''external.email'', ''untrusted.user_content'']"

definition file_labels :: "string list" where
  "file_labels = [''external.file'', ''untrusted.user_content'']"

definition slack_labels :: "string list" where
  "slack_labels = [''external.slack'', ''untrusted.user_content'']"

definition web_labels :: "string list" where
  "web_labels = [''external.web'', ''untrusted.user_content'']"

definition calendar_labels :: "string list" where
  "calendar_labels = [''external.calendar'', ''untrusted.user_content'']"

definition review_labels :: "string list" where
  "review_labels = [''external.review'', ''untrusted.user_content'']"

definition default_labels :: "(string, string list) dict" where
  "default_labels =
     [(''get_received_emails'', mail_labels), (''get_unread_emails'', mail_labels), (''search_emails'', mail_labels),
      (''get_sent_emails'', [''internal.email'']), (''get_draft_emails'', [''internal.email'']),
      (''search_contacts_by_name'', mail_labels), (''search_contacts_by_email'', mail_labels),
      (''read_file'', file_labels), (''search_files'', file_labels), (''search_files_by_filename'', file_labels),
      (''get_file_by_id'', file_labels), (''list_files'', file_labels),
      (''read_channel_messages'', slack_labels), (''read_inbox'', slack_labels),
      (''get_channels'', [''external.slack'']), (''get_users_in_channel'', [''external.slack'']),
      (''get_webpage'', web_labels), (''download_file'', web_labels),
      (''get_day_calendar_events'', calendar_labels), (''search_calendar_events'', calendar_labels),
      (''get_rating_reviews_for_hotels'', review_labels), (''get_rating_reviews_for_restaurants'', review_labels),
      (''get_rating_reviews_for_car_rental'', review_labels),
      (''get_contact_information_for_restaurants'', review_labels)]"

definition labels_for_tool :: "string \<Rightarrow> (string, string list) dict \<Rightarrow> string list" where
  "labels_for_tool tool_name table = dict_getd table tool_name []"

definition register_labels :: "string \<Rightarrow> string list \<Rightarrow> (string, string list) dict \<Rightarrow> (string, string list) dict" where
  "register_labels tool_name labels table = dict_set tool_name labels table"

lemma labels_registered:
  "labels_for_tool t (register_labels t' ls table) = (if t = t' then ls else labels_for_tool t table)"
  by (simp add: labels_for_tool_def register_labels_def dict_getd_def)

subsection \<open>The LRU cache\<close>

text \<open>The ordered dictionary runs from the least to the most recently used key.\<close>

record 'v lru =
  lru_cap :: nat
  lru_data :: "(string, 'v \<times> rat option) dict"

definition new_lru :: "nat \<Rightarrow> 'v lru" where
  "new_lru cap = \<lparr>lru_cap = cap, lru_data = []\<rparr>"

definition move_to_end :: "string \<Rightarrow> (string, 'v) dict \<Rightarrow> (string, 'v) dict" where
  "move_to_end k d = (case map_of d k of None \<Rightarrow> d | Some v \<Rightarrow> dict_pop k d @ [(k, v)])"

definition lru_get :: "rat \<Rightarrow> string \<Rightarrow> 'v lru \<Rightarrow> 'v option \<times> 'v lru" where
  "lru_get now k c =
     (case map_of (lru_data c) k of
        None \<Rightarrow> (None, c)
      | Some (v, expires) \<Rightarrow>
          if (case expires of None \<Rightarrow> False | Some t \<Rightarrow> t < now)
          then (None, c\<lparr>lru_data := dict_pop k (lru_data c)\<rparr>)
          else (Some v, c\<lparr>lru_data := move_to_end k (lru_data c)\<rparr>))"

definition lru_set :: "rat \<Rightarrow> string \<Rightarrow> 'v \<Rightarrow> int option \<Rightarrow> 'v lru \<Rightarrow> 'v lru" where
  "lru_set now k v ttl_ms c =
     (let expires = (case ttl_ms of None \<Rightarrow> None | Some t \<Rightarrow> if t \<noteq> 0 then Some (now + of_int t / 1000) else None)
      in c\<lparr>lru_data := last_n (lru_cap c) (move_to_end k (dict_set k (v, expires) (lru_data c)))\<rparr>)"

definition lru_clear :: "'v lru \<Rightarrow> 'v lru" where
  "lru_clear c = c\<lparr>lru_data := []\<rparr>"

text \<open>What the cache stands for: its keys by recency, and a value for each.\<close>

definition recency :: "string \<Rightarrow> string list \<Rightarrow> string list" where
  "recency k ks = filter (\<lambda>x. x \<noteq> k) ks @ [k]"

definition lru_keys :: "'v lru \<Rightarrow> string list" where
  "lru_keys c = map fst (lru_data c)"

definition lru_ok :: "'v lru \<Rightarrow> bool" where
  "lru_ok c \<longleftrightarrow> distinct (lru_keys c) \<and> length (lru_keys c) \<le> lru_cap c"

lemma keys_dict_pop: "map fst (dict_pop k d) = filter (\<lambda>x. x \<noteq> k) (map fst d)"
  by (induction d) auto

lemma keys_dict_set_filter: "filter (\<lambda>x. x \<noteq> k) (map fst (dict_set k v d)) = filter (\<lambda>x. x \<noteq> k) (map fst d)"
  by (induction d) auto

lemma keys_move_to_end: "map_of d k \<noteq> None \<Longrightarrow> map fst (move_to_end k d) = recency k (map fst d)"
  by (auto simp: move_to_end_def recency_def keys_dict_pop)

lemma map_of_move_to_end: "map_of (move_to_end k d) = map_of d"
proof
  fix x
  show "map_of (move_to_end k d) x = map_of d x"
    by (auto simp: move_to_end_def map_add_def split: option.split)
qed

lemma last_n_map: "map f (last_n n xs) = last_n n (map f xs)"
  by (simp add: last_n_def drop_map)

lemma keys_set: "lru_keys (lru_set now k v ttl c) = last_n (lru_cap c) (recency k (lru_keys c))"
  by (simp add: lru_keys_def lru_set_def Let_def last_n_map keys_move_to_end)
    (simp add: recency_def keys_dict_set_filter)

lemma distinct_recency: "distinct ks \<Longrightarrow> distinct (recency k ks)"
  by (auto simp: recency_def)

lemma distinct_last_n: "distinct xs \<Longrightarrow> distinct (last_n n xs)"
  by (simp add: last_n_def distinct_drop)

lemma lru_ok_set [guard_intros]: "lru_ok c \<Longrightarrow> lru_ok (lru_set now k v ttl c)"
  by (simp add: lru_ok_def keys_set distinct_recency distinct_last_n) (simp add: lru_set_def Let_def)

lemma length_recency: "k \<in> set ks \<Longrightarrow> distinct ks \<Longrightarrow> length (recency k ks) = length ks"
proof -
  assume k: "k \<in> set ks" and d: "distinct ks"
  have "filter (\<lambda>x. x \<noteq> k) ks = remove1 k ks"
    using d by (simp add: distinct_remove1_removeAll removeAll_filter_not_eq) (metis (no_types, lifting))
  moreover have "0 < length ks" using k by (cases ks) simp_all
  ultimately show ?thesis using k by (simp add: recency_def length_remove1)
qed

lemma keys_get:
  "lru_cap (snd (lru_get now k c)) = lru_cap c \<and>
   (lru_keys (snd (lru_get now k c)) = lru_keys c \<or>
    lru_keys (snd (lru_get now k c)) = filter (\<lambda>x. x \<noteq> k) (lru_keys c) \<or>
    k \<in> set (lru_keys c) \<and> lru_keys (snd (lru_get now k c)) = recency k (lru_keys c))"
proof (cases "map_of (lru_data c) k")
  case None
  then show ?thesis by (simp add: lru_get_def)
next
  case (Some w)
  then have "k \<in> set (lru_keys c)" by (force simp: lru_keys_def dest: map_of_SomeD)
  with Some show ?thesis
    by (cases w) (simp add: lru_get_def lru_keys_def keys_dict_pop keys_move_to_end del: set_map)
qed

lemma lru_ok_get [guard_intros]: "lru_ok c \<Longrightarrow> lru_ok (snd (lru_get now k c))"
  using keys_get [of now k c] order_trans [OF length_filter_le [of "\<lambda>x. x \<noteq> k" "lru_keys c"]]
  by (auto simp: lru_ok_def distinct_recency length_recency)

lemma map_of_last_n:
  assumes "distinct (map fst d)"
  shows "map_of (last_n n d) k = (if k \<in> set (last_n n (map fst d)) then map_of d k else None)"
proof -
  have d: "d = take (length d - n) d @ last_n n d" by (simp add: last_n_def)
  then have "map_of d = map_of (take (length d - n) d) ++ map_of (last_n n d)"
    by (metis map_of_append map_add_comm assms distinct_append map_append inf_commute dom_map_of_conv_image_fst
        list.set_map)
  then show ?thesis
    by (auto simp: map_add_def last_n_map [symmetric] dom_map_of_conv_image_fst [symmetric]
        split: option.split dest: map_of_SomeD)
qed

text \<open>Without time-outs, the cache after a run of writes holds the most recently written keys.\<close>

lemma recency_last_n:
  "distinct ks \<Longrightarrow> last_n n (recency k (last_n n ks)) = last_n n (recency k ks)"
proof -
  assume d: "distinct ks"
  show ?thesis
  proof (cases "length ks \<le> n")
    case False
    define a where "a = take (length ks - n) ks"
    define b where "b = last_n n ks"
    have ks: "ks = a @ b" by (simp add: a_def b_def last_n_def)
    have len: "length b = n" using False by (simp add: b_def)
    have disj: "set a \<inter> set b = {}" using d ks by auto
    have "length (filter (\<lambda>x. x \<noteq> k) b) + 1 \<ge> n"
    proof (cases "k \<in> set b")
      case True
      moreover have "distinct b" using d ks by simp
      ultimately have "length (recency k b) = length b" by (rule length_recency)
      then show ?thesis using len by (simp add: recency_def)
    next
      case out: False
      then have "filter (\<lambda>x. x \<noteq> k) b = b" by (metis (mono_tags, lifting) filter_True)
      then show ?thesis using len by simp
    qed
    then show ?thesis
      by (simp add: ks [symmetric] b_def [symmetric]) (simp add: ks recency_def last_n_def)
  qed simp
qed

definition lru_write_all :: "rat \<Rightarrow> (string \<times> 'v) list \<Rightarrow> 'v lru \<Rightarrow> 'v lru" where
  "lru_write_all now ws c = foldl (\<lambda>c w. lru_set now (fst w) (snd w) None c) c ws"

lemma remdups_snoc: "remdups (ks @ [k]) = recency k (remdups ks)"
  by (induction ks) (auto simp: recency_def)

lemma lru_cap_set [simp]: "lru_cap (lru_set now k v ttl c) = lru_cap c"
  by (simp add: lru_set_def Let_def)

lemma write_all_keys:
  "lru_cap (lru_write_all now ws (new_lru cap)) = cap \<and>
   lru_keys (lru_write_all now ws (new_lru cap)) = last_n cap (remdups (map fst ws))"
proof (induction ws rule: rev_induct)
  case Nil
  then show ?case by (simp add: lru_write_all_def new_lru_def lru_keys_def)
next
  case (snoc w ws)
  then show ?case
    by (simp add: lru_write_all_def keys_set remdups_snoc recency_last_n)
qed

lemma write_all_ok: "lru_ok (lru_write_all now ws (new_lru cap))"
  using write_all_keys [of now ws cap] distinct_last_n [of "remdups (map fst ws)" cap] by (simp add: lru_ok_def)

lemma lru_set_value:
  assumes "lru_ok c"
  shows "map_of (lru_data (lru_set now k v None c)) x =
    (if x \<in> set (lru_keys (lru_set now k v None c)) then if x = k then Some (v, None) else map_of (lru_data c) x else None)"
proof -
  let ?d = "move_to_end k (dict_set k (v, None) (lru_data c))"
  have "map fst ?d = recency k (lru_keys c)"
    by (simp add: keys_move_to_end) (simp add: recency_def keys_dict_set_filter lru_keys_def)
  moreover from this have "distinct (map fst ?d)" using assms distinct_recency by (simp add: lru_ok_def)
  ultimately have "map_of (last_n (lru_cap c) ?d) x =
      (if x \<in> set (last_n (lru_cap c) (recency k (lru_keys c))) then map_of ?d x else None)"
    by (simp only: map_of_last_n)
  also have "map_of ?d x = (if x = k then Some (v, None) else map_of (lru_data c) x)"
    unfolding map_of_move_to_end by simp
  finally have held: "map_of (last_n (lru_cap c) ?d) x =
    (if x \<in> set (last_n (lru_cap c) (recency k (lru_keys c))) then if x = k then Some (v, None) else map_of (lru_data c) x
     else None)" .
  have "lru_data (lru_set now k v None c) = last_n (lru_cap c) ?d" by (simp add: lru_set_def)
  then show ?thesis unfolding keys_set using held by (simp only:)
qed

lemma write_all_values:
  "map_of (lru_data (lru_write_all now ws (new_lru cap))) x =
   (if x \<in> set (last_n cap (remdups (map fst ws))) then map_option (\<lambda>v. (v, None)) (map_of (rev ws) x) else None)"
proof (induction ws arbitrary: x rule: rev_induct)
  case Nil
  then show ?case by (simp add: lru_write_all_def new_lru_def)
next
  case (snoc w ws)
  let ?c = "lru_write_all now ws (new_lru cap)"
  have "lru_write_all now (ws @ [w]) (new_lru cap) = lru_set now (fst w) (snd w) None ?c"
    by (simp add: lru_write_all_def)
  moreover have "x \<in> set (last_n cap (remdups (map fst ws)))"
    if "x \<in> set (last_n cap (recency (fst w) (remdups (map fst ws))))" "x \<noteq> fst w"
  proof -
    have "last_n cap (recency (fst w) (remdups (map fst ws))) =
        last_n cap (recency (fst w) (last_n cap (remdups (map fst ws))))"
      by (simp add: recency_last_n)
    with that have "x \<in> set (recency (fst w) (last_n cap (remdups (map fst ws))))"
      by (metis in_set_dropD last_n_def)
    with that(2) show ?thesis by (simp add: recency_def)
  qed
  ultimately show ?case
    using lru_set_value [OF write_all_ok, of now "fst w" "snd w" now ws cap x] snoc [of x] write_all_keys [of now "ws @ [w]" cap]
    by (auto simp: remdups_snoc)
qed

end
