(* ===== verification/Api_Server.thy ===== *)
theory Api_Server
  imports Tool_Catalog Validator Pipeline
begin

text \<open>
  The HTTP API in synchronous mode (\<open>api/routes.py\<close>): its state is the pipeline, which shares router and
  evaluator with the guard's rule management, the tool catalog, the version stamp and the key.  This
  theory has evaluation, tools and rule management; a handler answers with a value, an HTTP status,
  or the exception it lets through (a 500).  Body parsing is the framework's: handlers take the
  parsed body, or nothing where the handler itself parses and may fail.
\<close>

subsection \<open>State\<close>

record rule_version =
  rv_count :: nat
  rv_ts :: rat
  rv_etag :: string

record api_server = pipeline +
  sv_registry_version :: nat
  sv_builtin_on :: bool
  sv_user_source :: "rule_source option"
  sv_catalog :: catalog_store
  sv_version :: rule_version
  sv_api_key :: "string option"

text \<open>What the server runs on: the enforcer's environment, the files, and SHA-1 in hexadecimal.\<close>

record api_env =
  ae_enf :: enf_env
  ae_files :: file_system
  ae_builtin_dir :: rule_source
  ae_elapsed :: rat
  ae_sha1 :: "string \<Rightarrow> string"
  ae_config :: "string \<Rightarrow> pack_config result"

abbreviation ae_ext :: "api_env \<Rightarrow> externals" where
  "ae_ext A \<equiv> en_ext (ae_enf A)"

abbreviation ae_now :: "api_env \<Rightarrow> rat" where
  "ae_now A \<equiv> en_now (ae_enf A)"

definition guard_of :: "api_server \<Rightarrow> guard_rules" where
  "guard_of s = \<lparr>gr_registry = \<lparr>rr_router = pl_router s, rr_version = sv_registry_version s\<rparr>,
     gr_eval = pl_eval s, gr_builtin_on = sv_builtin_on s, gr_user_source = sv_user_source s\<rparr>"

definition set_guard :: "guard_rules \<Rightarrow> api_server \<Rightarrow> api_server" where
  "set_guard g s = s\<lparr>pl_router := gr_router g, pl_eval := gr_eval g,
     sv_registry_version := rr_version (gr_registry g), sv_builtin_on := gr_builtin_on g,
     sv_user_source := gr_user_source g\<rparr>"

lemma guard_of_set [simp]: "guard_of (set_guard g s) = g"
  by (simp add: guard_of_def set_guard_def gr_router_def)

lemma set_guard_of [simp]: "set_guard (guard_of s) s = s"
  by (simp add: guard_of_def set_guard_def gr_router_def)

lemma gr_router_guard_of [simp]: "gr_router (guard_of s) = pl_router s"
  by (simp add: guard_of_def gr_router_def)

subsection \<open>Answers\<close>

datatype detail = DetailText string | DetailExc py_exc | DetailNotice notice

datatype http_error = HttpError nat detail | Uncaught py_exc

type_synonym 'a api = "http_error + 'a"

definition abind :: "'a api \<Rightarrow> ('a \<Rightarrow> 'b api) \<Rightarrow> 'b api" where
  "abind m f = (case m of Inl e \<Rightarrow> Inl e | Inr v \<Rightarrow> f v)"

lemma abind_simps [simp]: "abind (Inl e) f = Inl e" "abind (Inr v) f = f v"
  by (simp_all add: abind_def)

lemma abind_Inr_iff: "abind m f = Inr w \<longleftrightarrow> (\<exists>v. m = Inr v \<and> f v = Inr w)"
  by (cases m) auto

definition uncaught :: "'a result \<Rightarrow> 'a api" where
  "uncaught m = (case m of Inl e \<Rightarrow> Inl (Uncaught e) | Inr v \<Rightarrow> Inr v)"

lemma uncaught_simps [simp]: "uncaught (Inl e) = Inl (Uncaught e)" "uncaught (Inr v) = Inr v"
  by (simp_all add: uncaught_def)

lemma uncaught_Inr_iff: "uncaught m = Inr v \<longleftrightarrow> m = Inr v"
  by (cases m) auto

definition key_rejected :: "string option \<Rightarrow> api_server \<Rightarrow> bool" where
  "key_rejected provided s \<longleftrightarrow>
     (case sv_api_key s of None \<Rightarrow> False | Some required \<Rightarrow> required \<noteq> [] \<and> provided \<noteq> Some required)"

definition check_api_key :: "string option \<Rightarrow> api_server \<Rightarrow> unit api" where
  "check_api_key provided s =
     (if key_rejected provided s then Inl (HttpError 401 (DetailText ''invalid api_key'')) else Inr ())"

definition compute_etag :: "api_env \<Rightarrow> guard_rules \<Rightarrow> string" where
  "compute_etag A g = take 12 (ae_sha1 A (str_join ''|'' (sort (map cr_rule_id (active_rules g)))))"

definition bump_version :: "api_env \<Rightarrow> api_server \<Rightarrow> api_server" where
  "bump_version A s = s\<lparr>sv_version := \<lparr>rv_count = length (active_rules (guard_of s)), rv_ts = ae_now A,
     rv_etag = compute_etag A (guard_of s)\<rparr>\<rparr>"

subsection \<open>Evaluation\<close>

definition apply_catalog_tool_labels :: "runtime_event \<Rightarrow> api_server \<Rightarrow> runtime_event result" where
  "apply_catalog_tool_labels ev s =
     (case ev_tool_call ev of
        None \<Rightarrow> Inr ev
      | Some tc \<Rightarrow>
          (let agent_id = str_strip (p_agent_id (ev_principal ev)); tool_name = str_strip (tc_tool_name tc)
           in if agent_id = [] \<or> tool_name = [] then Inr ev
              else (case catalog_get tool_name agent_id (sv_catalog s) of
                      None \<Rightarrow> Inr ev
                    | Some entry \<Rightarrow>
                        ebind (static_label (ce_labels entry)) (\<lambda>lb.
                          Inr (with_tool_call ev (tc\<lparr>tc_label := lb\<rparr>))))))"

definition prepare_llm_prompt_event :: "runtime_event \<Rightarrow> api_server \<Rightarrow> runtime_event \<times> api_server" where
  "prepare_llm_prompt_event ev s =
     (let (prompt_event, c) = enrich_event ev (pl_cache s) in (prompt_event, update_cache (\<lambda>_. c) s))"

definition finalize_remote_decision :: "api_env \<Rightarrow> runtime_event \<Rightarrow> decision \<Rightarrow> decision" where
  "finalize_remote_decision A ev d =
     (if d_action d \<noteq> LLM_CHECK then d else resolve_remote_decision (ae_enf A) ev d)"

definition with_client_action :: "decision \<Rightarrow> decision" where
  "with_client_action d = d\<lparr>d_client_action := Some (to_client_action d)\<rparr>"

definition evaluate_event :: "api_env \<Rightarrow> runtime_event \<Rightarrow> api_server \<Rightarrow> decision result \<times> api_server" where
  "evaluate_event A ev s =
     (case apply_catalog_tool_labels ev s of
        Inl e \<Rightarrow> (Inl e, s)
      | Inr ev1 \<Rightarrow>
          (let (prompt_event, s1) = prepare_llm_prompt_event ev1 s;
               (answer, s2) = handle_attempt (ae_ext A) (ae_now A) (ae_elapsed A) ev1 s1
           in (ebind answer (\<lambda>(d, _). Inr (with_client_action (finalize_remote_decision A prompt_event d))), s2)))"

definition post_evaluate ::
  "api_env \<Rightarrow> string option \<Rightarrow> runtime_event result \<Rightarrow> api_server \<Rightarrow> decision api \<times> api_server" where
  "post_evaluate A key body s =
     (case abind (check_api_key key s) (\<lambda>_.
        case body of Inl e \<Rightarrow> Inl (HttpError 422 (DetailExc e)) | Inr ev \<Rightarrow> Inr ev) of
        Inl e \<Rightarrow> (Inl e, s)
      | Inr ev \<Rightarrow> (let (answer, s1) = evaluate_event A ev s in (uncaught answer, s1)))"

fun evaluate_all :: "api_env \<Rightarrow> runtime_event result list \<Rightarrow> api_server \<Rightarrow> decision result list \<times> api_server" where
  "evaluate_all A [] s = ([], s)"
| "evaluate_all A (raw # raws) s =
     (let (answer, s1) = (case raw of Inl e \<Rightarrow> (Inl e, s) | Inr ev \<Rightarrow> evaluate_event A ev s);
          (answers, s2) = evaluate_all A raws s1
      in (answer # answers, s2))"

definition post_evaluate_batch ::
  "api_env \<Rightarrow> string option \<Rightarrow> runtime_event result list result \<Rightarrow> api_server \<Rightarrow>
   decision result list api \<times> api_server" where
  "post_evaluate_batch A key body s =
     (case abind (check_api_key key s) (\<lambda>_.
        case body of Inl e \<Rightarrow> Inl (HttpError 422 (DetailExc e)) | Inr raws \<Rightarrow> Inr raws) of
        Inl e \<Rightarrow> (Inl e, s)
      | Inr raws \<Rightarrow> (let (answers, s1) = evaluate_all A raws s in (Inr answers, s1)))"

subsection \<open>Tools\<close>

definition get_tools :: "string option \<Rightarrow> api_server \<Rightarrow> public_tool list" where
  "get_tools agent_id s = map to_public_dict (catalog_list agent_id (sv_catalog s))"

definition now_ms :: "api_env \<Rightarrow> int" where
  "now_ms A = floor (ae_now A * 1000)"

definition post_tool :: "api_env \<Rightarrow> string option \<Rightarrow> catalog_entry \<Rightarrow> api_server \<Rightarrow> public_tool api \<times> api_server" where
  "post_tool A key body s =
     (case check_api_key key s of
        Inl e \<Rightarrow> (Inl e, s)
      | Inr _ \<Rightarrow>
          (let next_entry = (case catalog_get (ce_name body) (ce_owner_agent_id body) (sv_catalog s) of
                  None \<Rightarrow> body
                | Some existing \<Rightarrow> \<lparr>ce_owner_agent_id = ce_owner_agent_id existing, ce_name = ce_name existing,
                    ce_labels = ce_labels existing, ce_input_params = ce_input_params body, ce_updated_at_ms = None\<rparr>);
               (stored, cs) = catalog_upsert (now_ms A) next_entry (sv_catalog s)
           in (Inr (to_public_dict stored), s\<lparr>sv_catalog := cs\<rparr>)))"

definition patch_tool_labels ::
  "api_env \<Rightarrow> string option \<Rightarrow> string \<Rightarrow> string \<Rightarrow> catalog_labels \<Rightarrow> api_server \<Rightarrow> public_tool api \<times> api_server" where
  "patch_tool_labels A key agent_id tool_name body s =
     (case check_api_key key s of
        Inl e \<Rightarrow> (Inl e, s)
      | Inr _ \<Rightarrow>
          (case catalog_update_labels (now_ms A) agent_id tool_name body (sv_catalog s) of
             (None, cs) \<Rightarrow> (Inl (HttpError 404 (DetailText (''tool '' @ repr_str tool_name @
               '' not found for agent '' @ repr_str agent_id))), s\<lparr>sv_catalog := cs\<rparr>)
           | (Some updated, cs) \<Rightarrow> (Inr (to_public_dict updated), s\<lparr>sv_catalog := cs\<rparr>)))"

subsection \<open>Rules as they are listed\<close>

record served_rule =
  sr_rule_id :: string
  sr_tool_pattern :: string
  sr_action :: string
  sr_degrade_profile :: "string option"
  sr_version :: string
  sr_severity :: string
  sr_category :: string
  sr_pack_id :: string
  sr_user_managed :: bool
  sr_source :: string

definition serialize_rule :: "externals \<Rightarrow> compiled_rule \<times> rule_pack \<Rightarrow> served_rule" where
  "serialize_rule E rp =
     (let (r, pack) = rp
      in \<lparr>sr_rule_id = cr_rule_id r, sr_tool_pattern = cr_tool_pattern r, sr_action = action_value (cr_action r),
          sr_degrade_profile = cr_degrade_profile r, sr_version = cr_version r, sr_severity = rule_severity E r,
          sr_category = rule_category E r, sr_pack_id = rp_pack_id pack, sr_user_managed = rp_user_managed pack,
          sr_source = str_or (cr_source_block r) (str_or (cr_source r) (rp_source pack))\<rparr>)"

text \<open>Later packs win per rule id; each rule is listed with the pack it comes from.\<close>

definition merge_packs :: "rule_pack list \<Rightarrow> (compiled_rule \<times> rule_pack) list" where
  "merge_packs packs =
     dict_values (dict_index (cr_rule_id \<circ> fst) [] (concat (map (\<lambda>p. map (\<lambda>r. (r, p)) (rp_rules p)) packs)))"

definition serialize_all_rules :: "api_env \<Rightarrow> api_server \<Rightarrow> served_rule list" where
  "serialize_all_rules A s = map (serialize_rule (ae_ext A)) (merge_packs (list_packs (pl_router s)))"

definition agent_packs :: "string \<Rightarrow> rule_router \<Rightarrow> rule_pack list" where
  "agent_packs agent_id rt = List.map_filter (\<lambda>pid. get_pack pid rt) (packs_for_agent agent_id rt)"

definition serialize_rules_for_agent :: "api_env \<Rightarrow> string \<Rightarrow> api_server \<Rightarrow> served_rule list" where
  "serialize_rules_for_agent A agent_id s =
     map (serialize_rule (ae_ext A)) (merge_packs (agent_packs agent_id (pl_router s)))"

subsection \<open>Splitting rule sources\<close>

text \<open>
  A header is \<open>RULE\<close>, then a colon and white space or white space alone, then an identifier.  The
  result is what follows the identifier.
\<close>

definition id_char :: "char \<Rightarrow> bool" where
  "id_char c \<longleftrightarrow> is_alnum c \<or> c \<in> {CHR ''_'', CHR ''-''}"

definition skip_id :: "string \<Rightarrow> string option" where
  "skip_id s =
     (case s of [] \<Rightarrow> None
      | c # rest \<Rightarrow> if is_alpha c \<or> c = CHR ''_'' then Some (dropWhile id_char rest) else None)"

definition rule_header :: "string \<Rightarrow> string option" where
  "rule_header s =
     (if \<not> starts_with s ''RULE'' then None
      else (case drop 4 s of
              [] \<Rightarrow> None
            | c # rest \<Rightarrow>
                if c = CHR '':'' then skip_id (str_lstrip rest)
                else if is_space c then skip_id (str_lstrip rest) else None))"

fun block_body :: "string \<Rightarrow> string \<times> string" where
  "block_body [] = ([], [])"
| "block_body (c # s) =
     (if c = newline \<and> rule_header s \<noteq> None then ([], c # s)
      else (let (body, rest) = block_body s in (c # body, rest)))"

lemma block_body_append: "block_body s = (body, rest) \<Longrightarrow> s = body @ rest"
  by (induction s arbitrary: body rest) (auto split: if_splits prod.splits)

lemma skip_id_length: "skip_id s = Some t \<Longrightarrow> length t < length s"
  by (auto simp: skip_id_def less_Suc_eq_le length_dropWhile_le split: list.splits if_splits)

lemma rule_header_length: "rule_header s = Some t \<Longrightarrow> length t < length s"
proof -
  assume h: "rule_header s = Some t"
  then obtain c rest where d: "drop 4 s = c # rest" "skip_id (str_lstrip rest) = Some t"
    by (auto simp: rule_header_def split: if_splits list.splits)
  have "length t < length (str_lstrip rest)" using d(2) by (rule skip_id_length)
  also have "\<dots> \<le> length rest" by (simp add: str_lstrip_def length_dropWhile_le)
  also have "\<dots> < length (drop 4 s)" using d(1) by simp
  also have "\<dots> \<le> length s" by simp
  finally show ?thesis .
qed

text \<open>\<open>findall\<close>: a block starts at the beginning of the text or after a newline.\<close>

function find_blocks :: "bool \<Rightarrow> string \<Rightarrow> string list" where
  "find_blocks at_start s =
     (let start = (if at_start then rule_header s else None)
      in case start of
           Some t \<Rightarrow>
             (let (body, rest) = block_body t
              in (take (length s - length t) s @ body) # find_blocks False rest)
         | None \<Rightarrow>
             (case s of
                [] \<Rightarrow> []
              | c # r \<Rightarrow>
                  (if c = newline
                   then (case rule_header r of
                           Some t \<Rightarrow>
                             (let (body, rest) = block_body t
                              in (take (length r - length t) r @ body) # find_blocks False rest)
                         | None \<Rightarrow> find_blocks False r)
                   else find_blocks False r)))"
  by pat_completeness auto
termination
proof (relation "measure (length \<circ> snd)")
  fix at_start s start t x body rest
  assume "start = (if at_start then rule_header s else None)" "start = Some t" "x = block_body t" "(body, rest) = x"
  then have "rule_header s = Some t" "t = body @ rest" by (auto split: if_splits dest: block_body_append [OF sym])
  then show "((False, rest), at_start, s) \<in> measure (length \<circ> snd)" using rule_header_length [of s t] by simp
next
  fix at_start s start c r t x body rest
  assume "s = c # r" "rule_header r = Some t" "x = block_body t" "(body, rest) = x"
  then have "length t < length r" "t = body @ rest" "s = c # r"
    using rule_header_length by (auto dest: block_body_append [OF sym])
  then show "((False, rest), at_start, s) \<in> measure (length \<circ> snd)" by simp
qed simp_all

declare find_blocks.simps [simp del]

definition split_rule_blocks :: "string \<Rightarrow> string list" where
  "split_rule_blocks source =
     (let t = str_strip source
      in if t = [] then [] else filter (\<lambda>b. b \<noteq> []) (map str_strip (find_blocks True t)))"

end
