(* ===== verification/Api_Rules.thy ===== *)
theory Api_Rules
  imports Api_Server
begin

text \<open>
  Rule management over HTTP (\<open>api/routes.py\<close>): versions, checks and reloads, rule packs and bindings,
  and the rules an operator edits one by one for an agent, which live in a pack of their own.
\<close>

subsection \<open>One rule at a time\<close>

definition rule_id_from_source :: "externals \<Rightarrow> string \<Rightarrow> string api" where
  "rule_id_from_source E source =
     abind (uncaught (parse_rule_source E source)) (\<lambda>asts.
       case asts of
         [ast] \<Rightarrow>
           (let rule_id = str_strip (ra_rule_id ast)
            in if rule_id = [] then Inl (HttpError 422 (DetailText ''rule_id is required'')) else Inr rule_id)
       | _ \<Rightarrow> Inl (HttpError 422 (DetailText ''source must contain exactly one rule'')))"

definition compile_single_rule_source :: "externals \<Rightarrow> string \<Rightarrow> (string \<times> compiled_rule) api" where
  "compile_single_rule_source E source =
     (let normalized = str_strip source
      in if normalized = [] then Inl (HttpError 422 (DetailText ''source is required''))
         else abind (uncaught (validate_source E normalized [])) (\<lambda>report.
           if \<not> report_ok report then
             Inl (HttpError 422 (case of_level LevelError report of
                    [] \<Rightarrow> DetailText ''rule validation failed'' | d # _ \<Rightarrow> DetailNotice (dg_notice d)))
           else abind (rule_id_from_source E normalized) (\<lambda>rule_id.
             abind (uncaught (compile_rules E [normalized])) (\<lambda>compiled.
               case compiled of
                 [r] \<Rightarrow> Inr (rule_id, r)
               | _ \<Rightarrow> Inl (HttpError 422 (DetailText ''source must contain exactly one compiled rule''))))))"

fun distinct_sources :: "string set \<Rightarrow> compiled_rule list \<Rightarrow> string list" where
  "distinct_sources seen [] = []"
| "distinct_sources seen (r # rs) =
     (let source = str_strip (cr_source r)
      in if source = [] \<or> source \<in> seen then distinct_sources seen rs
         else source # distinct_sources (insert source seen) rs)"

definition pack_rule_blocks :: "rule_pack \<Rightarrow> string list" where
  "pack_rule_blocks pack =
     (let direct_blocks = split_rule_blocks (rp_source pack)
      in if direct_blocks \<noteq> [] then direct_blocks
         else concat (map split_rule_blocks (distinct_sources {} (rp_rules pack))))"

definition blocks_source :: "string list \<Rightarrow> string" where
  "blocks_source blocks = str_join [newline, newline] (filter (\<lambda>b. b \<noteq> []) (map str_strip blocks))"

definition replace_pack_from_blocks ::
  "externals \<Rightarrow> string \<Rightarrow> string list \<Rightarrow> bool option \<Rightarrow> guard_rules \<Rightarrow> (rule_pack \<times> guard_rules) result" where
  "replace_pack_from_blocks E pack_id blocks user_managed g =
     (let source = blocks_source blocks
      in ebind (if source \<noteq> [] then compile_rules E [source] else Inr []) (\<lambda>compiled.
           replace_rule_pack_rules pack_id compiled source user_managed g))"

definition find_effective_agent_rule :: "api_env \<Rightarrow> string \<Rightarrow> string \<Rightarrow> api_server \<Rightarrow> (served_rule \<times> rule_pack) api" where
  "find_effective_agent_rule A agent_id rule_id s =
     (let wanted = str_strip rule_id
      in if wanted = [] then Inl (HttpError 422 (DetailText ''rule_id is required''))
         else (case find (\<lambda>r. sr_rule_id r = wanted) (serialize_rules_for_agent A agent_id s) of
                 None \<Rightarrow> Inl (HttpError 404 (DetailText (''rule '' @ repr_str wanted @ '' not found for agent '' @ repr_str agent_id)))
               | Some rule \<Rightarrow>
                   (let pack_id = str_strip (sr_pack_id rule)
                    in case (if pack_id = [] then None else get_pack pack_id (pl_router s)) of
                         None \<Rightarrow> Inl (HttpError 404 (DetailText (''pack '' @ repr_str pack_id @ '' not found for rule '' @ repr_str wanted)))
                       | Some pack \<Rightarrow> Inr (rule, pack))))"

definition agent_rule_pack_id :: "string \<Rightarrow> string" where
  "agent_rule_pack_id agent_id = ''agent::'' @ agent_id"

text \<open>
  Creating a rule makes sure the agent's own pack exists and is bound before the pack is replaced by
  one with the new block at its end.
\<close>

definition create_agent_rule ::
  "api_env \<Rightarrow> string option \<Rightarrow> string \<Rightarrow> string \<Rightarrow> api_server \<Rightarrow> (string \<times> string) api \<times> api_server" where
  "create_agent_rule A key agent_id source s =
     (case abind (check_api_key key s) (\<lambda>_. compile_single_rule_source (ae_ext A) source) of
        Inl e \<Rightarrow> (Inl e, s)
      | Inr (rule_id, compiled_rule) \<Rightarrow>
          if rule_id \<in> cr_rule_id ` set (active_rules (guard_of s))
          then (Inl (HttpError 409 (DetailText (''rule_id '' @ repr_str rule_id @ '' already exists''))), s)
          else
            (let pack_id = agent_rule_pack_id agent_id
             in case ensure_rule_pack pack_id [] True (guard_of s) of
                  Inl e \<Rightarrow> (Inl (Uncaught e), s)
                | Inr (pack, g1) \<Rightarrow>
                    (case (if pack_id \<in> set (packs_for_agent agent_id (gr_router g1)) then Inr g1
                           else bind_agent agent_id pack_id g1) of
                       Inl e \<Rightarrow> (Inl (Uncaught e), set_guard g1 s)
                     | Inr g2 \<Rightarrow>
                         (case replace_pack_from_blocks (ae_ext A) pack_id
                                 (pack_rule_blocks pack @ [str_strip source]) (Some True) g2 of
                            Inl e \<Rightarrow> (Inl (Uncaught e), set_guard g2 s)
                          | Inr (pack', g3) \<Rightarrow>
                              (Inr (rp_pack_id pack', cr_rule_id compiled_rule), bump_version A (set_guard g3 s))))))"

fun blocks_without :: "externals \<Rightarrow> string \<Rightarrow> string list \<Rightarrow> string list api" where
  "blocks_without E rule_id [] = Inr []"
| "blocks_without E rule_id (b # bs) =
     abind (rule_id_from_source E b) (\<lambda>i. abind (blocks_without E rule_id bs) (\<lambda>rest.
       Inr (if i \<noteq> rule_id then b # rest else rest)))"

definition delete_agent_rule ::
  "api_env \<Rightarrow> string option \<Rightarrow> string \<Rightarrow> string \<Rightarrow> api_server \<Rightarrow> (string \<times> string) api \<times> api_server" where
  "delete_agent_rule A key agent_id rule_id s =
     (case abind (check_api_key key s) (\<lambda>_.
        abind (find_effective_agent_rule A agent_id rule_id s) (\<lambda>(rule, pack).
          let pack_id = str_strip (rp_pack_id pack); blocks = pack_rule_blocks pack;
              target = str_strip (sr_rule_id rule)
          in if pack_id = builtin_pack_id then Inl (HttpError 422 (DetailText ''cannot remove built-in rules''))
             else if blocks = [] then
               Inl (HttpError 422 (DetailText (''pack '' @ repr_str pack_id @ '' has no editable inline rule source'')))
             else abind (blocks_without (ae_ext A) target blocks) (\<lambda>remaining.
               if length remaining = length blocks then
                 Inl (HttpError 404 (DetailText (''rule '' @ repr_str target @ '' not found in pack '' @ repr_str pack_id)))
               else Inr (pack_id, target, remaining, rp_user_managed pack)))) of
        Inl e \<Rightarrow> (Inl e, s)
      | Inr (pack_id, target, remaining, managed) \<Rightarrow>
          (case replace_pack_from_blocks (ae_ext A) pack_id remaining (Some managed) (guard_of s) of
             Inl e \<Rightarrow> (Inl (Uncaught e), s)
           | Inr (pack', g) \<Rightarrow> (Inr (rp_pack_id pack', target), bump_version A (set_guard g s))))"

subsection \<open>Versions, checks and reloads\<close>

definition get_rules_version :: "api_server \<Rightarrow> rule_version" where
  "get_rules_version s = sv_version s"

definition post_check :: "api_env \<Rightarrow> string option \<Rightarrow> string \<Rightarrow> api_server \<Rightarrow> validation_report api" where
  "post_check A key source s =
     abind (check_api_key key s) (\<lambda>_. uncaught (validate_source (ae_ext A) source []))"

text \<open>An empty source means: read the guard's own source again.  A body that is not JSON counts as empty.\<close>

definition post_reload ::
  "api_env \<Rightarrow> string option \<Rightarrow> string \<Rightarrow> bool option \<Rightarrow> api_server \<Rightarrow> (nat \<times> string) api \<times> api_server" where
  "post_reload A key source keep_builtin s =
     (case check_api_key key s of
        Inl e \<Rightarrow> (Inl e, s)
      | Inr _ \<Rightarrow>
          (let src = (if source = [] then None else Some (OneSource source));
               (answer, g) = reload_rules (ae_ext A) (ae_files A) (ae_builtin_dir A) src keep_builtin
                 (if src \<noteq> None then Some True else None) (guard_of s)
           in case answer of
                Inl e \<Rightarrow> (Inl (Uncaught e), set_guard g s)
              | Inr n \<Rightarrow>
                  (let s1 = bump_version A (set_guard g s) in (Inr (n, rv_etag (sv_version s1)), s1))))"

subsection \<open>Packs and bindings\<close>

type_synonym served_pack = "string \<times> string \<times> nat \<times> string list"

definition serialize_pack :: "rule_pack \<Rightarrow> served_pack" where
  "serialize_pack p = (rp_pack_id p, rp_source p, length (rp_rules p), map cr_rule_id (rp_rules p))"

definition get_rule_packs :: "api_server \<Rightarrow> served_pack list" where
  "get_rule_packs s = map serialize_pack (list_packs (pl_router s))"

definition get_rule_pack :: "string \<Rightarrow> api_server \<Rightarrow> served_pack api" where
  "get_rule_pack pack_id s =
     (case get_pack pack_id (pl_router s) of
        None \<Rightarrow> Inl (HttpError 404 (DetailText (''unknown rule pack: '' @ repr_str pack_id)))
      | Some p \<Rightarrow> Inr (serialize_pack p))"

definition post_rule_pack ::
  "api_env \<Rightarrow> string option \<Rightarrow> string \<Rightarrow> rule_source \<Rightarrow> api_server \<Rightarrow> served_pack api \<times> api_server" where
  "post_rule_pack A key body_pack_id source s =
     (let pack_id = str_strip body_pack_id
      in case abind (check_api_key key s) (\<lambda>_.
           if pack_id = [] then Inl (HttpError 422 (DetailText ''pack_id is required''))
           else if pack_id = builtin_pack_id then Inl (HttpError 422 (DetailText ''pack_id is reserved''))
           else (case add_rule_pack (ae_ext A) (ae_files A) pack_id source (guard_of s) of
                   Inl e \<Rightarrow> Inl (HttpError 400 (DetailExc e)) | Inr pg \<Rightarrow> Inr pg)) of
           Inl e \<Rightarrow> (Inl e, s)
         | Inr (pack, g) \<Rightarrow> (Inr (serialize_pack pack), bump_version A (set_guard g s)))"

definition delete_rule_pack :: "api_env \<Rightarrow> string option \<Rightarrow> string \<Rightarrow> api_server \<Rightarrow> unit api \<times> api_server" where
  "delete_rule_pack A key pack_id s =
     (case abind (check_api_key key s) (\<lambda>_.
        if pack_id = builtin_pack_id then Inl (HttpError 422 (DetailText ''cannot remove built-in pack''))
        else uncaught (remove_rule_pack pack_id (guard_of s))) of
        Inl e \<Rightarrow> (Inl e, s)
      | Inr (ok, g) \<Rightarrow>
          if \<not> ok then (Inl (HttpError 404 (DetailText (''unknown rule pack: '' @ repr_str pack_id))), set_guard g s)
          else (Inr (), bump_version A (set_guard g s)))"

text \<open>The configuration is applied up to the first error, and what was applied stays.\<close>

definition post_reload_packs :: "api_env \<Rightarrow> string option \<Rightarrow> string \<Rightarrow> api_server \<Rightarrow> pack_config api \<times> api_server" where
  "post_reload_packs A key config_path s =
     (let path = str_strip config_path;
          refused = (\<lambda>e. HttpError (if e = ExternalError ''FileNotFoundError'' then 404 else 400) (DetailExc e))
      in case abind (check_api_key key s) (\<lambda>_.
           if path = [] then Inl (HttpError 422 (DetailText ''config_path is required''))
           else (case ae_config A path of Inl e \<Rightarrow> Inl (refused e) | Inr cfg \<Rightarrow> Inr cfg)) of
           Inl e \<Rightarrow> (Inl e, s)
         | Inr cfg \<Rightarrow>
             (case apply_rule_pack_config (ae_ext A) (ae_files A) cfg (guard_of s) of
                (Inl e, g) \<Rightarrow> (Inl (refused e), set_guard g s)
              | (Inr _, g) \<Rightarrow> (Inr cfg, bump_version A (set_guard g s))))"

definition get_packs_for_agent :: "string \<Rightarrow> api_server \<Rightarrow> (string list \<times> string list) \<times> api_server" where
  "get_packs_for_agent agent_id s =
     (let (rules, g) = guard_rules_for_agent agent_id (guard_of s)
      in ((packs_for_agent agent_id (pl_router s), map cr_rule_id rules), set_guard g s))"

definition post_bind :: "api_env \<Rightarrow> string option \<Rightarrow> string \<Rightarrow> string \<Rightarrow> api_server \<Rightarrow> string api \<times> api_server" where
  "post_bind A key agent_id body_pack_id s =
     (let pack_id = str_strip body_pack_id
      in case abind (check_api_key key s) (\<lambda>_.
           if pack_id = [] then Inl (HttpError 422 (DetailText ''pack_id is required''))
           else (case bind_agent agent_id pack_id (guard_of s) of
                   Inl e \<Rightarrow> Inl (case e of KeyError _ \<Rightarrow> HttpError 404 (DetailExc e) | _ \<Rightarrow> Uncaught e)
                 | Inr g \<Rightarrow> Inr g)) of
           Inl e \<Rightarrow> (Inl e, s)
         | Inr g \<Rightarrow> (Inr pack_id, set_guard g s))"

definition delete_binding :: "api_env \<Rightarrow> string option \<Rightarrow> string \<Rightarrow> string \<Rightarrow> api_server \<Rightarrow> unit api \<times> api_server" where
  "delete_binding A key agent_id pack_id s =
     (case check_api_key key s of
        Inl e \<Rightarrow> (Inl e, s)
      | Inr _ \<Rightarrow>
          (let (ok, g) = unbind_agent agent_id pack_id (guard_of s)
           in if ok then (Inr (), set_guard g s)
              else (Inl (HttpError 404 (DetailText ''binding not found'')), set_guard g s)))"

end
