(* ===== verification/Api_Queries.thy ===== *)
theory Api_Queries
  imports Api_Rules
begin

text \<open>
  The read-only endpoints and the approvals (\<open>api/routes.py\<close>), and the requests as one type with the
  handler that serves them.  Counts and limits of queries are natural numbers.
\<close>

subsection \<open>Health\<close>

record health =
  he_rules :: nat
  he_rules_by_action :: counter
  he_rule_version :: string
  he_uptime_s :: rat

definition get_health :: "api_env \<Rightarrow> api_server \<Rightarrow> health" where
  "get_health A s =
     (let active = active_rules (guard_of s)
      in \<lparr>he_rules = length active,
          he_rules_by_action = foldl (\<lambda>c r. counter_incr (action_value (cr_action r)) c) [] active,
          he_rule_version = rv_etag (sv_version s),
          he_uptime_s = py_round (ae_now A - ps_start_ts (pl_stats s)) 1\<rparr>)"

subsection \<open>Traffic\<close>

text \<open>A filter that is absent or empty lets everything pass; the others ignore case.\<close>

definition filter_with :: "string option \<Rightarrow> (string \<Rightarrow> 'a \<Rightarrow> bool) \<Rightarrow> 'a \<Rightarrow> bool" where
  "filter_with f test x = (case f of None \<Rightarrow> True | Some w \<Rightarrow> w = [] \<or> test w x)"

definition same_text :: "string \<Rightarrow> string \<Rightarrow> bool" where
  "same_text w t \<longleftrightarrow> str_lower t = str_lower w"

definition within_text :: "string \<Rightarrow> string \<Rightarrow> bool" where
  "within_text w t \<longleftrightarrow> str_contains (str_lower t) (str_lower w)"

definition get_traffic ::
  "nat \<Rightarrow> string option \<Rightarrow> string option \<Rightarrow> string option \<Rightarrow> api_server \<Rightarrow> traffic_entry list" where
  "get_traffic n act tool agent s =
     take (min n 1000)
       (filter (filter_with agent (\<lambda>w e. within_text w (te_agent e)))
         (filter (filter_with tool (\<lambda>w e. within_text w (te_tool e)))
           (filter (filter_with act (\<lambda>w e. same_text w (te_action e)))
             (recent_traffic 1000 (pl_stats s)))))"

definition get_traffic_for_agent ::
  "string \<Rightarrow> nat \<Rightarrow> string option \<Rightarrow> string option \<Rightarrow> api_server \<Rightarrow> traffic_entry list" where
  "get_traffic_for_agent agent_id n act tool s =
     take (min n 1000)
       (filter (filter_with tool (\<lambda>w e. within_text w (te_tool e)))
         (filter (filter_with act (\<lambda>w e. same_text w (te_action e)))
           (filter (\<lambda>e. te_agent e = agent_id) (recent_traffic 1000 (pl_stats s)))))"

subsection \<open>Statistics, rules and bindings\<close>

definition get_stats :: "api_env \<Rightarrow> api_server \<Rightarrow> stats_summary" where
  "get_stats A s = stats_summary_of (ae_now A) (pl_stats s)"

definition get_stats_for_agent :: "api_env \<Rightarrow> string \<Rightarrow> api_server \<Rightarrow> nat \<times> rat \<times> nat \<times> rat" where
  "get_stats_for_agent A agent_id s = summary_agent agent_id (ae_now A) (pl_stats s)"

definition list_rules :: "api_env \<Rightarrow> api_server \<Rightarrow> served_rule list" where
  "list_rules A s = serialize_all_rules A s"

definition list_rules_for_agent :: "api_env \<Rightarrow> string \<Rightarrow> api_server \<Rightarrow> served_rule list" where
  "list_rules_for_agent A agent_id s = serialize_rules_for_agent A agent_id s"

definition list_agent_bindings :: "api_server \<Rightarrow> string \<Rightarrow> string list option" where
  "list_agent_bindings s agent_id = map_option sorted_list_of_set (list_all_bindings (rt_bindings (pl_router s)) agent_id)"

subsection \<open>Audit records\<close>

text \<open>The loop appends a matching record before it asks whether there are enough.\<close>

fun collect :: "nat \<Rightarrow> ('a \<Rightarrow> bool) \<Rightarrow> 'a list \<Rightarrow> 'a list \<Rightarrow> 'a list" where
  "collect n P found [] = found"
| "collect n P found (r # rs) =
     (if P r then (if n \<le> Suc (length found) then found @ [r] else collect n P (found @ [r]) rs)
      else collect n P found rs)"

definition get_audit_recent :: "nat \<Rightarrow> api_server \<Rightarrow> audit_record list" where
  "get_audit_recent n s = audit_recent n (pl_audit s)"

definition get_audit_recent_for_agent :: "string \<Rightarrow> nat \<Rightarrow> api_server \<Rightarrow> audit_record list" where
  "get_audit_recent_for_agent agent_id n s =
     (let n = min n 2000
      in collect n (\<lambda>(ev, d). p_agent_id (ev_principal ev) = agent_id) [] (audit_recent (n * 4) (pl_audit s)))"

record audit_query =
  aq_tool :: "string option"
  aq_agent :: "string option"
  aq_user :: "string option"
  aq_user_id :: "string option"
  aq_action :: "string option"
  aq_rule :: "string option"
  aq_since_ts :: "rat option"
  aq_until_ts :: "rat option"
  aq_n :: nat

definition query_matches :: "audit_query \<Rightarrow> audit_record \<Rightarrow> bool" where
  "query_matches q rec =
     (let (ev, d) = rec; ts = of_int (ev_ts_ms ev) / 1000;
          user_filter = (if aq_user_id q \<noteq> None \<and> aq_user_id q \<noteq> Some [] then aq_user_id q else aq_user q);
          ev_tool = (case ev_tool_call ev of None \<Rightarrow> [] | Some tc \<Rightarrow> tc_tool_name tc);
          ev_user_id = (case p_user_id (ev_principal ev) of None \<Rightarrow> [] | Some u \<Rightarrow> u);
          ev_action = (case d of None \<Rightarrow> [] | Some d \<Rightarrow> action_value (d_action d));
          ev_rules = (case d of None \<Rightarrow> [] | Some d \<Rightarrow> d_matched_rules d)
      in (case aq_since_ts q of None \<Rightarrow> True | Some t \<Rightarrow> t \<le> ts) \<and>
         (case aq_until_ts q of None \<Rightarrow> True | Some t \<Rightarrow> ts \<le> t) \<and>
         filter_with (aq_tool q) within_text ev_tool \<and>
         filter_with (aq_agent q) within_text (p_agent_id (ev_principal ev)) \<and>
         filter_with user_filter within_text ev_user_id \<and>
         filter_with (aq_action q) same_text ev_action \<and>
         filter_with (aq_rule q) (\<lambda>w rules. w \<in> set rules) ev_rules)"

definition get_audit_search :: "audit_query \<Rightarrow> api_server \<Rightarrow> audit_record list" where
  "get_audit_search q s =
     (let n = min (aq_n q) 2000 in collect n (query_matches q) [] (audit_recent (n * 4) (pl_audit s)))"

lemma collect_value: "collect n P found rs = found @ take (max 1 (n - length found)) (filter P rs)"
proof (induction rs arbitrary: found)
  case (Cons r rs)
  show ?case
  proof (cases "n \<le> Suc (length found)")
    case True
    then have "max 1 (n - length found) = 1" by simp
    then show ?thesis using Cons True by simp
  next
    case False
    then have "max 1 (n - length found) = Suc (max 1 (n - length (found @ [r])))" by simp
    then show ?thesis using Cons False by simp
  qed
qed simp

subsection \<open>Approvals\<close>

type_synonym served_ticket = "string \<times> int \<times> runtime_event \<times> decision"

definition get_approvals :: "api_server \<Rightarrow> served_ticket list" where
  "get_approvals s = console_list_pending (es_bridge s)"

definition get_approvals_for_agent :: "string \<Rightarrow> api_server \<Rightarrow> served_ticket list" where
  "get_approvals_for_agent agent_id s =
     filter (\<lambda>(tid, ms, ev, d). p_agent_id (ev_principal ev) = agent_id) (console_list_pending (es_bridge s))"

definition no_ticket :: http_error where
  "no_ticket = HttpError 404 (DetailText ''ticket not found or already resolved'')"

definition post_approve :: "string \<Rightarrow> string \<Rightarrow> api_server \<Rightarrow> unit api \<times> api_server" where
  "post_approve ticket_id note s =
     (let (ok, b) = console_approve ticket_id note (es_bridge s)
      in (if ok then Inr () else Inl no_ticket, s\<lparr>es_bridge := b\<rparr>))"

definition post_deny :: "string \<Rightarrow> string \<Rightarrow> api_server \<Rightarrow> unit api \<times> api_server" where
  "post_deny ticket_id note s =
     (let (ok, b) = console_deny ticket_id note (es_bridge s)
      in (if ok then Inr () else Inl no_ticket, s\<lparr>es_bridge := b\<rparr>))"

subsection \<open>Requests\<close>

text \<open>The requests that can change the state, as the application declares them.\<close>

datatype request =
    Evaluate "runtime_event result"
  | EvaluateBatch "runtime_event result list result"
  | UpsertTool catalog_entry
  | PatchToolLabels string string catalog_labels
  | ReloadRules string "bool option"
  | UpsertPack string rule_source
  | DeletePack string
  | ReloadPacks string
  | CreateAgentRule string string
  | DeleteAgentRule string string
  | BindAgent string string
  | UnbindAgent string string
  | ListAgentPacks string
  | Approve string string
  | Deny string string

definition discard :: "'a api \<times> api_server \<Rightarrow> http_error option \<times> api_server" where
  "discard x = (case x of (Inl e, s) \<Rightarrow> (Some e, s) | (Inr _, s) \<Rightarrow> (None, s))"

fun serve :: "api_env \<Rightarrow> string option \<Rightarrow> request \<Rightarrow> api_server \<Rightarrow> http_error option \<times> api_server" where
  "serve A key (Evaluate body) s = discard (post_evaluate A key body s)"
| "serve A key (EvaluateBatch body) s = discard (post_evaluate_batch A key body s)"
| "serve A key (UpsertTool body) s = discard (post_tool A key body s)"
| "serve A key (PatchToolLabels agent tool body) s = discard (patch_tool_labels A key agent tool body s)"
| "serve A key (ReloadRules source keep) s = discard (post_reload A key source keep s)"
| "serve A key (UpsertPack pid source) s = discard (post_rule_pack A key pid source s)"
| "serve A key (DeletePack pid) s = discard (delete_rule_pack A key pid s)"
| "serve A key (ReloadPacks path) s = discard (post_reload_packs A key path s)"
| "serve A key (CreateAgentRule agent source) s = discard (create_agent_rule A key agent source s)"
| "serve A key (DeleteAgentRule agent rid) s = discard (delete_agent_rule A key agent rid s)"
| "serve A key (BindAgent agent pid) s = discard (post_bind A key agent pid s)"
| "serve A key (UnbindAgent agent pid) s = discard (delete_binding A key agent pid s)"
| "serve A key (ListAgentPacks agent) s = (None, snd (get_packs_for_agent agent s))"
| "serve A key (Approve tid note) s = discard (post_approve tid note s)"
| "serve A key (Deny tid note) s = discard (post_deny tid note s)"

text \<open>The requests whose handlers look at the key.\<close>

fun asks_for_key :: "request \<Rightarrow> bool" where
  "asks_for_key (ListAgentPacks agent) = False"
| "asks_for_key (Approve tid note) = False"
| "asks_for_key (Deny tid note) = False"
| "asks_for_key _ = True"

lemma discard_simps [simp]: "discard (Inl e, s) = (Some e, s)" "discard (Inr v, s) = (None, s)"
  by (simp_all add: discard_def)

lemma snd_discard [simp]: "snd (discard x) = snd x"
  by (simp add: discard_def split: prod.split sum.split)

lemma fst_discard [simp]: "fst (discard x) = None \<longleftrightarrow> (\<exists>v. fst x = Inr v)"
  by (simp add: discard_def split: prod.split sum.split)

lemma check_rejected: "key_rejected key s \<Longrightarrow> check_api_key key s = Inl (HttpError 401 (DetailText ''invalid api_key''))"
  by (simp add: check_api_key_def)

lemma rejected_unchanged:
  assumes "key_rejected key s" and "asks_for_key r"
  shows "serve A key r s = (Some (HttpError 401 (DetailText ''invalid api_key'')), s)"
  using assms
  by (cases r) (simp_all add: check_rejected post_evaluate_def post_evaluate_batch_def post_tool_def
      patch_tool_labels_def post_reload_def post_rule_pack_def delete_rule_pack_def post_reload_packs_def
      create_agent_rule_def delete_agent_rule_def post_bind_def delete_binding_def Let_def)

end
