(* ===== verification/Remote_Client.thy ===== *)
theory Remote_Client
  imports Sdk_Wrappers Tool_Catalog
begin

text \<open>
  The HTTP client of the SDK (\<open>sdk/client.py\<close>).  The exchange with the server is a parameter that
  threads the server's state: it answers with a body, an HTTP status, or not at all.  Reading a body
  is a parameter as well; whatever it raises is caught.
\<close>

datatype 'b http_answer = Body 'b | HttpFailure nat | Unreachable

type_synonym ('q, 'b, 's) exchange = "string option \<Rightarrow> 'q \<Rightarrow> 's \<Rightarrow> 'b http_answer \<times> 's"

record remote_client =
  rc_api_key :: string
  rc_fail_open :: bool

definition fail_open_decision :: decision where
  "fail_open_decision = (decision_allow ''runtime_unreachable_fail_open'' ''unknown'')"

definition fail_closed_decision :: decision where
  "fail_closed_decision = (decision_allow ''runtime_unreachable_fail_closed'' ''unknown'')
     \<lparr>d_action := DENY, d_risk_score := 1\<rparr>"

definition client_fallback :: "remote_client \<Rightarrow> decision" where
  "client_fallback rc = (if rc_fail_open rc then fail_open_decision else fail_closed_decision)"

definition client_headers :: "remote_client \<Rightarrow> string option" where
  "client_headers rc = (if rc_api_key rc = [] then None else Some (rc_api_key rc))"

text \<open>A decision read from a body, with the text of its \<open>client_action\<close> when there is one.\<close>

type_synonym 'b reader = "'b \<Rightarrow> (decision \<times> string option) result"

definition client_action_of :: "string \<Rightarrow> client_action option" where
  "client_action_of s = find (\<lambda>c. client_action_value c = s) [CLIENT_ALLOW, CLIENT_DENY, CLIENT_HUMAN_CHECK]"

definition prefer_server_action :: "decision \<times> string option \<Rightarrow> decision" where
  "prefer_server_action x =
     (case x of
        (d, Some raw) \<Rightarrow>
          (if d_client_action d = None
           then (case client_action_of raw of None \<Rightarrow> d | Some c \<Rightarrow> d\<lparr>d_client_action := Some c\<rparr>) else d)
      | (d, None) \<Rightarrow> d)"

definition client_evaluate ::
  "remote_client \<Rightarrow> (runtime_event, 'b, 's) exchange \<Rightarrow> 'b reader \<Rightarrow> runtime_event \<Rightarrow> 's \<Rightarrow> decision \<times> 's" where
  "client_evaluate rc post read ev s =
     (case post (client_headers rc) ev s of
        (HttpFailure code, s1) \<Rightarrow> (client_fallback rc, s1)
      | (Unreachable, s1) \<Rightarrow> (client_fallback rc, s1)
      | (Body b, s1) \<Rightarrow>
          ((case read b of Inl e \<Rightarrow> client_fallback rc | Inr x \<Rightarrow> prefer_server_action x), s1))"

text \<open>
  The results of a batch: \<open>None\<close> for an entry that is not ok.  An entry that cannot be read makes
  the whole batch fall back.
\<close>

definition client_evaluate_batch ::
  "remote_client \<Rightarrow> (runtime_event list, 'b, 's) exchange \<Rightarrow> ('b \<Rightarrow> decision result option list result) \<Rightarrow>
   runtime_event list \<Rightarrow> 's \<Rightarrow> decision list \<times> 's" where
  "client_evaluate_batch rc post read evs s =
     (let fallback = replicate (length evs) (client_fallback rc)
      in case post (client_headers rc) evs s of
           (HttpFailure code, s1) \<Rightarrow> (fallback, s1)
         | (Unreachable, s1) \<Rightarrow> (fallback, s1)
         | (Body b, s1) \<Rightarrow>
             ((case ebind (read b) (emap (\<lambda>r. case r of None \<Rightarrow> Inr (client_fallback rc) | Some d \<Rightarrow> d)) of
                 Inl e \<Rightarrow> fallback | Inr ds \<Rightarrow> ds), s1))"

definition client_upsert_tool ::
  "remote_client \<Rightarrow> (catalog_entry, 'b, 's) exchange \<Rightarrow> ('b \<Rightarrow> bool result) \<Rightarrow> catalog_entry \<Rightarrow> 's \<Rightarrow> bool \<times> 's" where
  "client_upsert_tool rc post read e s =
     (case post (client_headers rc) e s of
        (Body b, s1) \<Rightarrow> (etry (read b) False, s1)
      | (_, s1) \<Rightarrow> (False, s1))"

subsection \<open>When the client permits\<close>

lemma fallback_action [simp]: "d_action (client_fallback rc) = (if rc_fail_open rc then ALLOW else DENY)"
  by (simp add: client_fallback_def fail_open_decision_def fail_closed_decision_def decision_allow_def)

lemma prefer_action [simp]: "d_action (prefer_server_action x) = d_action (fst x)"
  by (cases x) (auto simp: prefer_server_action_def split: option.split)

lemma client_evaluate_cases:
  "(\<exists>b x. fst (post (client_headers rc) ev s) = Body b \<and> read b = Inr x \<and>
      fst (client_evaluate rc post read ev s) = prefer_server_action x) \<or>
   fst (client_evaluate rc post read ev s) = client_fallback rc"
  by (auto simp: client_evaluate_def split: prod.split http_answer.split sum.split)

lemma emap_length: "emap f xs = Inr ys \<Longrightarrow> length ys = length xs"
  by (induction xs arbitrary: ys) (auto simp: ebind_Inr_iff)

end
