(* ===== verification/Api_Machine.thy ===== *)
theory Api_Machine
  imports Api_Queries Remote_Client Guard_Machine
begin

text \<open>
  The server as a machine that serves requests, and the SDK's client talking to it.  Every request
  keeps the state in shape except a rule reload that fails; evaluating over HTTP decides like the
  pipeline in the process.
\<close>

subsection \<open>The invariant of the server\<close>

definition server_ok :: "api_server \<Rightarrow> bool" where
  "server_ok s \<longleftrightarrow> pipeline_ok s \<and> catalog_ok (sv_catalog s)"

lemma server_fields [simp]:
  "pl_router (set_guard g s) = gr_router g" "pl_eval (set_guard g s) = gr_eval g"
  "pl_cache (set_guard g s) = pl_cache s" "pl_audit (set_guard g s) = pl_audit s"
  "pl_stats (set_guard g s) = pl_stats s" "sv_catalog (set_guard g s) = sv_catalog s"
  "es_bridge (set_guard g s) = es_bridge s" "sv_api_key (set_guard g s) = sv_api_key s"
  "pl_router (bump_version A s) = pl_router s" "pl_eval (bump_version A s) = pl_eval s"
  "pl_cache (bump_version A s) = pl_cache s" "pl_audit (bump_version A s) = pl_audit s"
  "pl_stats (bump_version A s) = pl_stats s" "sv_catalog (bump_version A s) = sv_catalog s"
  "es_bridge (bump_version A s) = es_bridge s" "sv_api_key (bump_version A s) = sv_api_key s"
  "guard_of (bump_version A s) = guard_of s"
  by (simp_all add: set_guard_def bump_version_def pl_cache_def guard_of_def)

lemma guard_ok_of: "guard_ok (guard_of s) = evaluator_wf (pl_eval s, pl_router s)"
  by (simp add: guard_ok_def) (simp add: guard_of_def)

lemma server_ok_guard: "server_ok s \<Longrightarrow> guard_ok (guard_of s)"
  by (simp add: server_ok_def pipeline_ok_def guard_ok_of)

lemma server_ok_set [guard_intros]: "server_ok s \<Longrightarrow> guard_ok g \<Longrightarrow> server_ok (set_guard g s)"
  by (simp add: server_ok_def pipeline_ok_def guard_ok_def)

lemma server_ok_bump [guard_intros]: "server_ok s \<Longrightarrow> server_ok (bump_version A s)"
  by (simp add: server_ok_def pipeline_ok_def)

lemma server_ok_catalog: "server_ok s \<Longrightarrow> catalog_ok cs \<Longrightarrow> server_ok (s\<lparr>sv_catalog := cs\<rparr>)"
  by (simp add: server_ok_def pipeline_ok_def pl_cache_def)

lemma server_ok_bridge: "server_ok s \<Longrightarrow> server_ok (s\<lparr>es_bridge := b\<rparr>)"
  by (simp add: server_ok_def pipeline_ok_def pl_cache_def)

text \<open>The pipeline's handlers leave what the server adds to its state.\<close>

lemma more_update_cache: "pipeline.more (update_cache f p) = pipeline.more p"
  by (simp add: update_cache_def)

lemma more_publish: "pipeline.more (publish now elapsed ev d p) = pipeline.more p"
  by (simp add: publish_def record_stats_def log_audit_def submit_graph_def more_update_cache Let_def)

lemma more_handle_attempt: "pipeline.more (snd (handle_attempt E now elapsed ev p)) = pipeline.more p"
  by (cases rule: handle_attempt_cases [of now ev p E elapsed])
    (simp_all add: more_publish rules_in_scope_value attempt_ready_def more_update_cache)

lemma server_more:
  assumes "pipeline.more s = pipeline.more t"
  shows "sv_catalog s = sv_catalog t" "sv_api_key s = sv_api_key t" "sv_version s = sv_version t"
  using assms by (cases s; cases t; simp)+

lemma prepare_keeps: "pipeline.more (snd (prepare_llm_prompt_event ev s)) = pipeline.more s"
  by (simp add: prepare_llm_prompt_event_def more_update_cache split: prod.split)

lemma prepare_ok [guard_intros]: "server_ok s \<Longrightarrow> server_ok (snd (prepare_llm_prompt_event ev s))"
  using server_more(1) [OF prepare_keeps, of ev s] cache_wf_enrich [of "pl_cache s" ev]
  by (simp add: server_ok_def pipeline_ok_def) (simp add: prepare_llm_prompt_event_def case_prod_beta)

lemma evaluate_event_more: "pipeline.more (snd (evaluate_event A ev s)) = pipeline.more s"
proof (cases "apply_catalog_tool_labels ev s")
  case (Inr ev1)
  obtain pe s1 where p: "prepare_llm_prompt_event ev1 s = (pe, s1)" by fastforce
  obtain answer s2 where h: "handle_attempt (ae_ext A) (ae_now A) (ae_elapsed A) ev1 s1 = (answer, s2)" by fastforce
  have "pipeline.more s2 = pipeline.more s1" using more_handle_attempt h by (metis snd_conv)
  moreover have "pipeline.more s1 = pipeline.more s" using prepare_keeps p by (metis snd_conv)
  ultimately show ?thesis by (simp add: evaluate_event_def Inr p h)
qed (simp add: evaluate_event_def)

lemma evaluate_event_ok [guard_intros]:
  assumes "server_ok s"
  shows "server_ok (snd (evaluate_event A ev s))"
proof -
  have "pipeline_ok (snd (evaluate_event A ev s))"
  proof (cases "apply_catalog_tool_labels ev s")
    case (Inr ev1)
    obtain pe s1 where p: "prepare_llm_prompt_event ev1 s = (pe, s1)" by fastforce
    have "pipeline_ok s1" using prepare_ok [OF assms, of ev1] by (simp add: p server_ok_def)
    then have "pipeline_ok (snd (handle_attempt (ae_ext A) (ae_now A) (ae_elapsed A) ev1 s1))" by (rule handle_attempt_ok)
    then show ?thesis by (simp add: evaluate_event_def Inr p case_prod_beta)
  qed (use assms in \<open>simp add: evaluate_event_def server_ok_def\<close>)
  then show ?thesis
    using assms server_more(1) [OF evaluate_event_more [of A ev s]] by (simp add: server_ok_def)
qed

lemma evaluate_all_ok [guard_intros]: "server_ok s \<Longrightarrow> server_ok (snd (evaluate_all A raws s))"
proof (induction raws arbitrary: s)
  case (Cons raw raws)
  obtain answer s1 where a: "(case raw of Inl e \<Rightarrow> (Inl e, s) | Inr ev \<Rightarrow> evaluate_event A ev s) = (answer, s1)" by fastforce
  have "server_ok s1" using a Cons.prems evaluate_event_ok [of s A] by (cases raw) (auto, metis snd_conv)
  then show ?case using Cons.IH [of s1] by (simp add: a case_prod_beta)
qed simp

lemma apply_packs_ok: "guard_ok g \<Longrightarrow> guard_ok (snd (apply_packs E fs packs g))"
  by (induction E fs packs g rule: apply_packs.induct) (auto split: sum.split prod.split dest: add_pack_ok)

lemma apply_bindings_ok: "guard_ok g \<Longrightarrow> guard_ok (snd (apply_bindings bs g))"
  by (induction bs g rule: apply_bindings.induct) (auto split: sum.split dest: bind_ok)

lemma apply_config_ok: "guard_ok g \<Longrightarrow> guard_ok (snd (apply_rule_pack_config E fs cfg g))"
  using apply_packs_ok [of g E fs "pc_packs cfg"]
  by (cases "apply_packs E fs (pc_packs cfg) g") (auto simp: apply_rule_pack_config_def apply_bindings_ok split: sum.split)

lemma replace_blocks_ok: "guard_ok g \<Longrightarrow> replace_pack_from_blocks E pid bs m g = Inr (p, g') \<Longrightarrow> guard_ok g'"
  by (auto simp: replace_pack_from_blocks_def Let_def ebind_Inr_iff dest: replace_pack_ok)

lemma create_agent_rule_cases:
  obtains
    (refused) e where "create_agent_rule A key agent source s = (Inl e, s)"
  | (unbound) e pack g1 where "create_agent_rule A key agent source s = (Inl e, set_guard g1 s)"
      "ensure_rule_pack (agent_rule_pack_id agent) [] True (guard_of s) = Inr (pack, g1)"
  | (bound) rule_id r pack g1 g2 where
      "abind (check_api_key key s) (\<lambda>_. compile_single_rule_source (ae_ext A) source) = Inr (rule_id, r)"
      "rule_id \<notin> cr_rule_id ` set (active_rules (guard_of s))"
      "ensure_rule_pack (agent_rule_pack_id agent) [] True (guard_of s) = Inr (pack, g1)"
      "(if agent_rule_pack_id agent \<in> set (packs_for_agent agent (gr_router g1)) then Inr g1
        else bind_agent agent (agent_rule_pack_id agent) g1) = Inr g2"
      "create_agent_rule A key agent source s =
         (case replace_pack_from_blocks (ae_ext A) (agent_rule_pack_id agent)
                (pack_rule_blocks pack @ [str_strip source]) (Some True) g2 of
            Inl e \<Rightarrow> (Inl (Uncaught e), set_guard g2 s)
          | Inr (pack', g3) \<Rightarrow> (Inr (rp_pack_id pack', cr_rule_id r), bump_version A (set_guard g3 s)))"
proof (cases "abind (check_api_key key s) (\<lambda>_. compile_single_rule_source (ae_ext A) source)")
  case (Inl e)
  then show thesis by (intro refused) (simp add: create_agent_rule_def)
next
  case (Inr x)
  then obtain rule_id r where c: "abind (check_api_key key s) (\<lambda>_. compile_single_rule_source (ae_ext A) source) = Inr (rule_id, r)"
    by (cases x) simp
  show thesis
  proof (cases "rule_id \<in> cr_rule_id ` set (active_rules (guard_of s))")
    case True
    with c show thesis by (intro refused) (simp add: create_agent_rule_def)
  next
    case new: False
    show thesis
    proof (cases "ensure_rule_pack (agent_rule_pack_id agent) [] True (guard_of s)")
      case (Inl e)
      with c new show thesis by (intro refused) (simp add: create_agent_rule_def)
    next
      case (Inr y)
      then obtain pack g1 where e: "ensure_rule_pack (agent_rule_pack_id agent) [] True (guard_of s) = Inr (pack, g1)"
        by (cases y) simp
      let ?b = "if agent_rule_pack_id agent \<in> set (packs_for_agent agent (gr_router g1)) then Inr g1
        else bind_agent agent (agent_rule_pack_id agent) g1"
      show thesis
      proof (cases ?b)
        case (Inl err)
        with c new e show thesis by (intro unbound [OF _ e]) (simp add: create_agent_rule_def Let_def)
      next
        case (Inr g2)
        show thesis
          by (rule bound [OF c new e Inr]) (use c new e Inr in \<open>simp add: create_agent_rule_def Let_def\<close>)
      qed
    qed
  qed
qed

lemma create_rule_ok [guard_intros]:
  assumes "server_ok s"
  shows "server_ok (snd (create_agent_rule A key agent source s))"
proof (cases rule: create_agent_rule_cases [of A key agent source s])
  case (refused e)
  with assms show ?thesis by simp
next
  case (unbound e pack g1)
  with assms show ?thesis using ensure_pack_ok [OF server_ok_guard [OF assms]] by (simp add: server_ok_set)
next
  case (bound rule_id r pack g1 g2)
  have "guard_ok g1" using bound(3) ensure_pack_ok [OF server_ok_guard [OF assms]] by blast
  then have "guard_ok g2" using bound(4) bind_ok by (auto split: if_splits)
  then show ?thesis
    using bound(5) assms by (auto simp: server_ok_set server_ok_bump replace_blocks_ok split: sum.split)
qed

lemma delete_rule_ok [guard_intros]:
  assumes "server_ok s"
  shows "server_ok (snd (delete_agent_rule A key agent rid s))"
  using assms server_ok_guard [OF assms]
  by (auto simp: delete_agent_rule_def Let_def server_ok_set server_ok_bump replace_blocks_ok
      split: sum.split prod.split)

lemma serve_ok:
  assumes "server_ok s" and "(\<exists>source keep. r = ReloadRules source keep) \<Longrightarrow> fst (serve A key r s) = None"
  shows "server_ok (snd (serve A key r s))"
proof -
  note ok = assms(1) and g = server_ok_guard [OF assms(1)]
  have cs: "catalog_ok (sv_catalog s)" using ok by (simp add: server_ok_def)
  show ?thesis
  proof (cases r)
    case (Evaluate body)
    then show ?thesis using ok evaluate_event_ok [OF ok, of A]
      by (auto simp: post_evaluate_def case_prod_beta split: sum.split)
  next
    case (EvaluateBatch body)
    then show ?thesis using ok evaluate_all_ok [OF ok, of A]
      by (auto simp: post_evaluate_batch_def case_prod_beta split: sum.split)
  next
    case (UpsertTool body)
    then show ?thesis using ok catalog_ok_upsert [OF cs]
      by (auto simp: post_tool_def Let_def case_prod_beta server_ok_catalog split: sum.split)
  next
    case (PatchToolLabels agent tool body)
    then show ?thesis using ok catalog_ok_update [OF cs, of "now_ms A" agent tool body]
      by (auto simp: patch_tool_labels_def server_ok_catalog split: sum.split prod.split option.split)
  next
    case (ReloadRules src kb)
    have none: "fst (serve A key r s) = None" using assms(2) ReloadRules by blast
    obtain answer g' where re: "reload_rules (ae_ext A) (ae_files A) (ae_builtin_dir A)
        (if src = [] then None else Some (OneSource src)) kb
        (if (if src = [] then None else Some (OneSource src)) \<noteq> None then Some True else None) (guard_of s) = (answer, g')"
      by fastforce
    show ?thesis
    proof (cases "check_api_key key s")
      case Inl
      then show ?thesis using ok ReloadRules by (simp add: post_reload_def)
    next
      case (Inr u)
      then obtain n where n: "answer = Inr n"
        using none ReloadRules re by (cases answer) (simp_all add: post_reload_def Let_def)
      have "guard_ok g'" using reload_ok [OF g] re n by (metis fst_conv snd_conv)
      then show ?thesis
        using ok ReloadRules re n Inr by (simp add: post_reload_def Let_def server_ok_set server_ok_bump)
    qed
  next
    case (UpsertPack pid src)
    then show ?thesis using ok add_pack_ok [OF g]
      by (auto simp: post_rule_pack_def Let_def server_ok_set server_ok_bump abind_Inr_iff
          split: sum.split prod.split if_splits sum.splits)
  next
    case (DeletePack pid)
    then show ?thesis using ok remove_pack_ok [OF g]
      by (auto simp: delete_rule_pack_def server_ok_set server_ok_bump abind_Inr_iff uncaught_Inr_iff
          split: sum.split prod.split if_splits)
  next
    case (ReloadPacks path)
    obtain answer where a: "post_reload_packs A key path s = answer" by blast
    have "guard_ok (snd (apply_rule_pack_config (ae_ext A) (ae_files A) cfg (guard_of s)))" for cfg
      using apply_config_ok [OF g] by blast
    then have "guard_ok g'" if "apply_rule_pack_config (ae_ext A) (ae_files A) cfg (guard_of s) = (x, g')" for cfg x g'
      using that by (metis snd_conv)
    then show ?thesis using ok ReloadPacks
      by (auto simp: post_reload_packs_def Let_def server_ok_set server_ok_bump split: sum.split prod.split)
  next
    case (CreateAgentRule agent src)
    then show ?thesis using create_rule_ok [OF ok] by simp
  next
    case (DeleteAgentRule agent rid)
    then show ?thesis using delete_rule_ok [OF ok] by simp
  next
    case (BindAgent agent pid)
    then show ?thesis using ok bind_ok [OF g]
      by (auto simp: post_bind_def Let_def server_ok_set abind_Inr_iff split: sum.split sum.splits if_splits)
  next
    case (UnbindAgent agent pid)
    then show ?thesis using ok unbind_ok [OF g, of agent pid]
      by (auto simp: delete_binding_def server_ok_set split: sum.split prod.split)
  next
    case (ListAgentPacks agent)
    then show ?thesis using ok guard_list_ok [OF g, of agent]
      by (simp add: get_packs_for_agent_def case_prod_beta server_ok_set)
  next
    case (Approve tid msg)
    then show ?thesis using server_ok_bridge [OF ok] by (simp add: post_approve_def split: prod.split)
  next
    case (Deny tid msg)
    then show ?thesis using server_ok_bridge [OF ok] by (simp add: post_deny_def split: prod.split)
  qed
qed

subsection \<open>Enriching twice\<close>

lemma add_missing_known: "set ms \<subseteq> set xs \<Longrightarrow> add_missing xs ms = xs"
  by (induction ms) (auto simp: add_missing_def)

lemma add_missing_split: "add_missing (add_missing xs [m]) ms = add_missing xs (m # ms)"
  by (simp add: add_missing_def)

lemma smembers_sadd_same: "smembers k (sadd k ms c) = add_missing (smembers k c) ms"
  by (simp add: sadd_def smembers_def dict_getd_def)

lemma sadd_twice: "sadd k ms (sadd k [m] c) = sadd k (m # ms) c"
  unfolding sadd_def [of k ms] smembers_sadd_same add_missing_split
  by (simp add: sadd_def)

lemma sadd_again: "sadd k ms (sadd k ms c) = sadd k ms c"
  unfolding sadd_def [of k ms "sadd k ms c"] smembers_sadd_same
  by (simp add: add_missing_known) (simp add: sadd_def)

lemma persist_sadd:
  "persist_ref_labels ev c =
     (if ev_provenance_refs ev = [] then c
      else sadd (key_labels (p_session_id (ev_principal ev))) (map pr_label (ev_provenance_refs ev)) c)"
proof -
  have "foldl (\<lambda>c ref. sadd k [pr_label ref] c) c refs = (if refs = [] then c else sadd k (map pr_label refs) c)"
    for k and refs :: "provenance_ref list"
  proof (induction refs arbitrary: c)
    case (Cons ref refs)
    then show ?case by (simp add: sadd_twice)
  qed simp
  then show ?thesis by (simp add: persist_ref_labels_def)
qed

lemma enrich_cache: "snd (enrich_event ev c) = persist_ref_labels ev c"
  by (simp add: enrich_event_def Let_def)

lemma enrich_again: "enrich_event ev (snd (enrich_event ev c)) = enrich_event ev c"
proof -
  let ?k = "key_labels (p_session_id (ev_principal ev))"
  let ?c = "persist_ref_labels ev c"
  have same: "persist_ref_labels ev ?c = ?c" by (simp add: persist_sadd sadd_again)
  have labels: "labels_with_refs ev (smembers ?k ?c) = labels_with_refs ev (smembers ?k c)"
    by (simp add: labels_with_refs_def persist_sadd smembers_sadd_same add_missing_known)
  have lists: "lrange key i j ?c = lrange key i j c" for key i j
    by (simp add: persist_sadd sadd_def lrange_def)
  have "fst (enrich_event ev ?c) = fst (enrich_event ev c)"
    unfolding enrich_event_def Let_def labels lists read_trace_persist by simp
  moreover have "snd (enrich_event ev ?c) = snd (enrich_event ev c)" unfolding enrich_cache by (rule same)
  ultimately show ?thesis by (simp add: enrich_cache prod_eq_iff)
qed

lemma update_cache_twice: "update_cache f (update_cache g p) = update_cache (f \<circ> g) p"
  by (simp add: update_cache_def pl_cache_def pl_graph_def)

lemma attempt_after_enrich:
  "handle_attempt E now elapsed ev (update_cache (\<lambda>_. snd (enrich_event ev (pl_cache p))) p) =
   handle_attempt E now elapsed ev p"
proof -
  obtain en c where e: "enrich_event ev (pl_cache p) = (en, c)" by fastforce
  then have again: "enrich_event ev c = (en, c)" using enrich_again [of ev "pl_cache p"] by simp
  have state: "update_cache (\<lambda>_. c) ((update_cache (\<lambda>_. c) p)\<lparr>pl_signals := sg\<rparr>) = update_cache (\<lambda>_. c) (p\<lparr>pl_signals := sg\<rparr>)" for sg
    by (simp add: update_cache_def pl_cache_def pl_graph_def)
  show ?thesis
    by (simp add: handle_attempt_def e again state)
qed

subsection \<open>Evaluation over HTTP\<close>

lemma evaluate_event_value:
  assumes "apply_catalog_tool_labels ev s = Inr ev1"
  shows "evaluate_event A ev s =
    (let (answer, s') = handle_attempt (ae_ext A) (ae_now A) (ae_elapsed A) ev1 s
     in (ebind answer (\<lambda>(d, _). Inr (with_client_action
           (finalize_remote_decision A (fst (enrich_event ev1 (pl_cache s))) d))), s'))"
proof -
  obtain en c where e: "enrich_event ev1 (pl_cache s) = (en, c)" by fastforce
  have "handle_attempt (ae_ext A) (ae_now A) (ae_elapsed A) ev1 (update_cache (\<lambda>_. c) s) =
      handle_attempt (ae_ext A) (ae_now A) (ae_elapsed A) ev1 s"
    using attempt_after_enrich [of "ae_ext A" "ae_now A" "ae_elapsed A" ev1 s] by (simp add: e)
  then show ?thesis
    by (simp add: evaluate_event_def assms prepare_llm_prompt_event_def e)
qed

lemma finalize_action: "d_action (finalize_remote_decision A ev d) \<noteq> LLM_CHECK"
  by (auto simp: finalize_remote_decision_def resolve_remote_decision_def resolve_llm_check_decision_def Let_def
      split: prod.split verdict.split)

lemma with_client_action_fields [simp]:
  "d_action (with_client_action d) = d_action d"
  "d_client_action (with_client_action d) = Some (to_client_action d)"
  by (simp_all add: with_client_action_def)

lemma post_evaluate_accepted:
  "\<not> key_rejected key s \<Longrightarrow>
   post_evaluate A key (Inr ev) s = (uncaught (fst (evaluate_event A ev s)), snd (evaluate_event A ev s))"
  by (simp add: post_evaluate_def check_api_key_def case_prod_beta)

subsection \<open>Listed rules\<close>

lemma dict_index_project:
  "map (\<lambda>(k, x). (k, fst x)) (dict_index (cr_rule_id \<circ> fst) d xs) =
   dict_index cr_rule_id (map (\<lambda>(k, x). (k, fst x)) d) (map fst xs)"
proof (induction xs arbitrary: d)
  case (Cons x xs)
  have "map (\<lambda>(k, x). (k, fst x)) (dict_set k v d) = dict_set k (fst v) (map (\<lambda>(k, x). (k, fst x)) d)" for k v
    by (induction d) auto
  with Cons show ?case by simp
qed simp

lemma merge_packs_rules: "map fst (merge_packs packs) = merge_rules (concat (map rp_rules packs))"
proof -
  have rules: "map fst (concat (map (\<lambda>p. map (\<lambda>r. (r, p)) (rp_rules p)) packs)) = concat (map rp_rules packs)"
    by (induction packs) (simp_all add: comp_def)
  have "map fst (dict_values (dict_index (cr_rule_id \<circ> fst) [] xs)) = merge_rules (map fst xs)" for xs :: "(compiled_rule \<times> rule_pack) list"
    using dict_index_project [of "[]" xs]
    by (simp add: merge_rules_def dict_values_def flip: dict_index_project [of "[]", simplified])
      (simp add: case_prod_beta comp_def)
  then show ?thesis by (simp add: merge_packs_def rules)
qed

lemma agent_packs_rules: "concat (map rp_rules (agent_packs a rt)) = concat (map (pack_rules rt) (packs_for_agent a rt))"
proof -
  have "concat (map rp_rules (List.map_filter (\<lambda>pid. get_pack pid rt) pids)) = concat (map (pack_rules rt) pids)" for pids
    by (induction pids) (auto simp: List.map_filter_simps pack_rules_def split: option.split)
  then show ?thesis by (simp add: agent_packs_def)
qed

lemma listed_rules: "map fst (merge_packs (agent_packs a rt)) = merged_for a rt"
  by (simp add: merge_packs_rules agent_packs_rules merged_for_def)

subsection \<open>Rules of one agent\<close>

lemma agent_pack_id_new [simp]:
  "agent_rule_pack_id a \<noteq> builtin_pack_id" "agent_rule_pack_id a \<noteq> default_pack_id"
  by (simp_all add: agent_rule_pack_id_def builtin_pack_id_def default_pack_id_def)

lemma replaced_router:
  "rt_bindings (snd (replace_pack_rules pid rules src um rt)) = rt_bindings rt"
  "rt_default_when_unbound (snd (replace_pack_rules pid rules src um rt)) = rt_default_when_unbound rt"
  "known_packs (snd (replace_pack_rules pid rules src um rt)) = insert pid (known_packs rt)"
  by (auto simp: replace_pack_rules_def upsert_pack_def known_packs_def get_pack_def Let_def)

lemma ensured_router:
  assumes "ensure_rule_pack pid src um g = Inr (pack, g')"
  shows "rt_bindings (gr_router g') = rt_bindings (gr_router g)"
    "rt_default_when_unbound (gr_router g') = rt_default_when_unbound (gr_router g)"
    "known_packs (gr_router g') = insert pid (known_packs (gr_router g))"
proof -
  have "rt_bindings (gr_router g') = rt_bindings (gr_router g) \<and>
      rt_default_when_unbound (gr_router g') = rt_default_when_unbound (gr_router g) \<and>
      known_packs (gr_router g') = insert pid (known_packs (gr_router g))"
  proof (cases "get_pack pid (gr_router g)")
    case None
    obtain p rt where r: "replace_pack_rules pid [] src um (gr_router g) = (p, rt)" by fastforce
    have "g' = with_router rt g" using assms None by (auto simp: ensure_rule_pack_def r split: if_splits)
    then show ?thesis using replaced_router [of pid "[]" src um "gr_router g"] by (simp add: r)
  next
    case (Some p)
    then have "pid \<in> known_packs (gr_router g)" by (simp add: known_packs_def)
    then show ?thesis using assms Some by (auto simp: ensure_rule_pack_def insert_absorb split: if_splits)
  qed
  then show "rt_bindings (gr_router g') = rt_bindings (gr_router g)"
    "rt_default_when_unbound (gr_router g') = rt_default_when_unbound (gr_router g)"
    "known_packs (gr_router g') = insert pid (known_packs (gr_router g))" by simp_all
qed

lemma bound_router:
  assumes "bind_agent a pid g = Inr g'" and "router_ok (gr_router g)"
  shows "packs_of (rt_bindings (gr_router g')) b = packs_of (rt_bindings (gr_router g)) b \<union> (if b = a then {pid} else {})"
    "rt_default_when_unbound (gr_router g') = rt_default_when_unbound (gr_router g)"
    "known_packs (gr_router g') = known_packs (gr_router g)"
  using assms mb.packs_bind [of a pid "rt_bindings (gr_router g)" b]
  by (auto simp: bind_agent_def router_bind_def ebind_Inr_iff known_packs_def get_pack_def router_ok_def split: option.splits)

lemma replaced_blocks_router:
  assumes "replace_pack_from_blocks E pid blocks um g = Inr (pack, g')"
  shows "rt_bindings (gr_router g') = rt_bindings (gr_router g)"
    "rt_default_when_unbound (gr_router g') = rt_default_when_unbound (gr_router g)"
    "known_packs (gr_router g') = insert pid (known_packs (gr_router g))"
proof -
  obtain rules src where "replace_rule_pack_rules pid rules src um g = Inr (pack, g')"
    using assms by (auto simp: replace_pack_from_blocks_def Let_def ebind_Inr_iff)
  then have "gr_router g' = snd (replace_pack_rules pid rules src
      (managed_flag um (get_pack pid (gr_router g))) (gr_router g))"
    by (auto simp: replace_rule_pack_rules_def split: if_splits prod.splits)
  then show "rt_bindings (gr_router g') = rt_bindings (gr_router g)"
    "rt_default_when_unbound (gr_router g') = rt_default_when_unbound (gr_router g)"
    "known_packs (gr_router g') = insert pid (known_packs (gr_router g))"
    by (simp_all add: replaced_router)
qed

lemma unbound_packs:
  assumes "router_ok rt" and "packs_of (rt_bindings rt) a = {}"
  shows "set (packs_for_agent a rt) = ({builtin_pack_id} \<inter> known_packs rt) \<union>
    (if rt_default_when_unbound rt then {default_pack_id} \<inter> known_packs rt else {})"
  using set_packs_for_agent [OF assms(1), of a] assms(2) by (simp add: bound_packs_def)

lemma created_rule_packs:
  assumes "server_ok s" and "packs_of (rt_bindings (pl_router s)) agent = {}"
    and "create_agent_rule A key agent source s = (Inr (pid, rid), s')"
  shows "set (packs_for_agent agent (pl_router s')) =
      ({builtin_pack_id} \<inter> known_packs (pl_router s)) \<union> {agent_rule_pack_id agent}"
proof (cases rule: create_agent_rule_cases [of A key agent source s])
  case (bound rule_id r pack g1 g2)
  let ?pid = "agent_rule_pack_id agent"
  have g: "guard_ok (guard_of s)" by (rule server_ok_guard [OF assms(1)])
  note e = ensured_router [OF bound(3), unfolded gr_router_guard_of]
  have ok1: "router_ok (gr_router g1)" using ensure_pack_ok [OF g bound(3)] by (rule guard_ok_router)
  have "?pid \<notin> set (packs_for_agent agent (gr_router g1))"
    using unbound_packs [OF ok1, of agent] assms(2) e(1) by (auto split: if_splits)
  then have b: "bind_agent agent ?pid g1 = Inr g2" using bound(4) by simp
  obtain pack' g3 where re: "replace_pack_from_blocks (ae_ext A) ?pid (pack_rule_blocks pack @ [str_strip source]) (Some True) g2 =
      Inr (pack', g3)" and s': "s' = bump_version A (set_guard g3 s)"
    using assms(3) bound(5) by (auto split: sum.splits)
  have ok3: "router_ok (gr_router g3)"
    using replace_blocks_ok [OF bind_ok [OF ensure_pack_ok [OF g bound(3)] b] re] by (rule guard_ok_router)
  have known: "known_packs (gr_router g3) = insert ?pid (known_packs (pl_router s))"
    using replaced_blocks_router(3) [OF re] bound_router(3) [OF b ok1] e(3) by simp
  have "packs_of (rt_bindings (gr_router g3)) agent = {?pid}"
    using replaced_blocks_router(1) [OF re] bound_router(1) [OF b ok1, of agent] e(1) assms(2) by simp
  then have "bound_packs agent (gr_router g3) = {?pid}" using known by (auto simp: bound_packs_def)
  then show ?thesis
    using set_packs_for_agent [OF ok3, of agent] known s' by auto
qed (use assms(3) in simp_all)

subsection \<open>The client and the server\<close>

text \<open>
  The exchange of the client with this server: an error answers with its status.  Reading the body
  back gives the decision that was dumped; the prompt of the language model is left out of a dump.
\<close>

definition status_of_error :: "http_error \<Rightarrow> nat" where
  "status_of_error e = (case e of HttpError code _ \<Rightarrow> code | Uncaught _ \<Rightarrow> 500)"

definition send_event :: "api_env \<Rightarrow> (runtime_event, decision, api_server) exchange" where
  "send_event A key ev s =
     (case post_evaluate A key (Inr ev) s of
        (Inl e, s1) \<Rightarrow> (HttpFailure (status_of_error e), s1) | (Inr d, s1) \<Rightarrow> (Body d, s1))"

definition read_decision :: "decision reader" where
  "read_decision d = Inr (d\<lparr>d_llm_system_prompt := None\<rparr>, map_option client_action_value (d_client_action d))"

definition remote_evaluate :: "remote_client \<Rightarrow> api_env \<Rightarrow> runtime_event \<Rightarrow> api_server \<Rightarrow> decision \<times> api_server" where
  "remote_evaluate rc A ev s = client_evaluate rc (send_event A) read_decision ev s"

lemma remote_evaluate_rejected:
  "key_rejected (client_headers rc) s \<Longrightarrow> remote_evaluate rc A ev s = (client_fallback rc, s)"
  by (simp add: remote_evaluate_def client_evaluate_def send_event_def post_evaluate_def check_rejected)

lemma remote_evaluate_accepted:
  assumes "\<not> key_rejected (client_headers rc) s"
  shows "remote_evaluate rc A ev s =
    ((case fst (evaluate_event A ev s) of
        Inl e \<Rightarrow> client_fallback rc
      | Inr d \<Rightarrow> prefer_server_action (d\<lparr>d_llm_system_prompt := None\<rparr>, map_option client_action_value (d_client_action d))),
     snd (evaluate_event A ev s))"
  using post_evaluate_accepted [OF assms, of A ev]
  by (auto simp: remote_evaluate_def client_evaluate_def send_event_def read_decision_def split: sum.split)

end
