(* ===== verification/Rule_Watcher.thy ===== *)
theory Rule_Watcher
  imports Api_Machine
begin

text \<open>
  Reloading rules when their files change (\<open>runtime/watchers.py\<close>) and the endpoint that starts and
  stops the watcher (\<open>api/routes.py\<close>, \<open>rules_watch\<close>), in synchronous mode: there is no actor runtime to
  hand the rules to.  What the watcher sees of the files is an argument of each check, and so are the
  contents the loader reads; one check is one step of the polling thread or of the observer.
\<close>

subsection \<open>Snapshots\<close>

text \<open>The rule files below a directory in order, what is a file, and modification times.\<close>

record watched_files =
  wf_under :: "string \<Rightarrow> string list option"
  wf_is_file :: "string \<Rightarrow> bool"
  wf_mtime :: "string \<Rightarrow> rat option"

definition glob_rules :: "watched_files \<Rightarrow> string list \<Rightarrow> string list" where
  "glob_rules F paths = concat (map (\<lambda>p.
     case wf_under F p of Some fs \<Rightarrow> fs | None \<Rightarrow> if wf_is_file F p then [p] else []) paths)"

definition snapshot :: "watched_files \<Rightarrow> string list \<Rightarrow> (string, rat) dict" where
  "snapshot F paths = foldl (\<lambda>d f. case wf_mtime F f of None \<Rightarrow> d | Some t \<Rightarrow> dict_set f t d) [] (glob_rules F paths)"

text \<open>Dictionaries are compared without regard to order.\<close>

definition same_snapshot :: "(string, rat) dict \<Rightarrow> (string, rat) dict \<Rightarrow> bool" where
  "same_snapshot a b \<longleftrightarrow> set a = set b"

lemma snapshot_from:
  "map_of (foldl (\<lambda>d f. case wf_mtime F f of None \<Rightarrow> d | Some t \<Rightarrow> dict_set f t d) d fs) f =
     (if f \<in> set fs \<and> wf_mtime F f \<noteq> None then wf_mtime F f else map_of d f)"
  by (induction fs arbitrary: d) (auto split: option.split)

lemma snapshot_value:
  "map_of (snapshot F paths) f = (if f \<in> set (glob_rules F paths) then wf_mtime F f else None)"
  by (simp add: snapshot_def snapshot_from)

lemma snapshot_distinct: "distinct (map fst (snapshot F paths))"
proof -
  have "distinct (map fst d) \<Longrightarrow>
      distinct (map fst (foldl (\<lambda>d f. case wf_mtime F f of None \<Rightarrow> d | Some t \<Rightarrow> dict_set f t d) d fs))"
    for d :: "(string, rat) dict" and fs
    by (induction fs arbitrary: d) (simp_all add: distinct_update split: option.split)
  then show ?thesis by (simp add: snapshot_def)
qed

lemma same_snapshot_iff:
  "same_snapshot (snapshot F paths) (snapshot G paths') \<longleftrightarrow>
     (\<forall>f. (if f \<in> set (glob_rules F paths) then wf_mtime F f else None) =
          (if f \<in> set (glob_rules G paths') then wf_mtime G f else None))"
  using map_of_inject_set [OF snapshot_distinct snapshot_distinct, of F paths G paths']
  by (simp add: same_snapshot_def fun_eq_iff flip: snapshot_value)

subsection \<open>The watcher\<close>

datatype watch_backend = Polling | Watchdog

text \<open>
  \<open>rw_thread\<close> and \<open>rw_observers\<close> say whether the polling thread is alive and how many observers have
  been started and not stopped; \<open>rw_observed\<close>, whether the attribute that holds the observer exists.
\<close>

record rule_watcher =
  rw_paths :: "string list"
  rw_last_snapshot :: "(string, rat) dict"
  rw_stopped :: bool
  rw_thread :: bool
  rw_observed :: bool
  rw_observers :: nat

definition new_watcher :: "string list \<Rightarrow> rule_watcher" where
  "new_watcher paths = \<lparr>rw_paths = paths, rw_last_snapshot = [], rw_stopped = False, rw_thread = False,
     rw_observed = False, rw_observers = 0\<rparr>"

definition watcher_start :: "watch_backend \<Rightarrow> watched_files \<Rightarrow> rule_watcher \<Rightarrow> rule_watcher" where
  "watcher_start backend F w =
     (if rw_thread w then w
      else (let w1 = w\<lparr>rw_last_snapshot := snapshot F (rw_paths w), rw_stopped := False\<rparr>
            in case backend of
                 Watchdog \<Rightarrow> w1\<lparr>rw_observed := True, rw_observers := Suc (rw_observers w)\<rparr>
               | Polling \<Rightarrow> w1\<lparr>rw_thread := True\<rparr>))"

definition watcher_stop :: "rule_watcher \<Rightarrow> rule_watcher" where
  "watcher_stop w = w\<lparr>rw_stopped := True, rw_thread := False,
     rw_observers := (if rw_observed w then rw_observers w - 1 else rw_observers w)\<rparr>"

definition watcher_is_running :: "rule_watcher \<Rightarrow> bool" where
  "watcher_is_running w \<longleftrightarrow> rw_thread w \<or> rw_observed w"

text \<open>A reload that fails is logged; what it has changed by then stays.\<close>

definition watch_reload :: "api_env \<Rightarrow> api_server \<Rightarrow> api_server" where
  "watch_reload A s =
     (let (answer, g) = reload_rules (ae_ext A) (ae_files A) (ae_builtin_dir A) None None None (guard_of s)
      in case answer of Inl e \<Rightarrow> set_guard g s | Inr n \<Rightarrow> bump_version A (set_guard g s))"

definition watch_check ::
  "api_env \<Rightarrow> watched_files \<Rightarrow> rule_watcher \<times> api_server \<Rightarrow> bool \<times> rule_watcher \<times> api_server" where
  "watch_check A F st =
     (let (w, s) = st; snap = snapshot F (rw_paths w)
      in if same_snapshot snap (rw_last_snapshot w) then (False, w, s)
         else (True, w\<lparr>rw_last_snapshot := snap\<rparr>, watch_reload A s))"

text \<open>The polling loop over the checks it makes, each with what the files are then.\<close>

fun watch_poll ::
  "(api_env \<times> watched_files) list \<Rightarrow> rule_watcher \<times> api_server \<Rightarrow> rule_watcher \<times> api_server" where
  "watch_poll [] st = st"
| "watch_poll ((A, F) # checks) st =
     (if rw_stopped (fst st) then st else watch_poll checks (snd (watch_check A F st)))"

subsection \<open>The endpoint\<close>

definition rules_watch ::
  "watch_backend \<Rightarrow> watched_files \<Rightarrow> string option \<Rightarrow> bool \<Rightarrow> string list \<Rightarrow>
   rule_watcher option \<times> api_server \<Rightarrow> string list option api \<times> rule_watcher option \<times> api_server" where
  "rules_watch backend F key enabled paths st =
     (let (w, s) = st
      in case check_api_key key s of
           Inl e \<Rightarrow> (Inl e, w, s)
         | Inr _ \<Rightarrow>
             if \<not> enabled then (Inr None, None, s)
             else (let ps = (if paths = [] then source_list (sv_user_source s) else paths)
                   in if ps = [] then (Inl (HttpError 400 (DetailText ''No paths to watch.'')), w, s)
                      else (Inr (Some ps), Some (watcher_start backend F (new_watcher ps)), s)))"

definition start_watcher :: "watch_backend \<Rightarrow> watched_files \<Rightarrow> string list \<Rightarrow> api_server \<Rightarrow> rule_watcher" where
  "start_watcher backend F paths s =
     watcher_start backend F (new_watcher (if paths \<noteq> [] then paths else source_list (sv_user_source s)))"

subsection \<open>What a check does\<close>

lemma watch_check_quiet:
  "same_snapshot (snapshot F (rw_paths w)) (rw_last_snapshot w) \<Longrightarrow> watch_check A F (w, s) = (False, w, s)"
  by (simp add: watch_check_def)

lemma watch_check_settles: "watch_check A F (w, s) = (b, w', s') \<Longrightarrow>
    same_snapshot (snapshot F (rw_paths w')) (rw_last_snapshot w')"
  by (auto simp: watch_check_def Let_def same_snapshot_def split: if_splits)

lemma replaced_default:
  "pack_rules (snd (replace_pack_rules pid rules src um rt)) q = (if q = pid then rules else pack_rules rt q)"
  by (auto simp: replace_pack_rules_def upsert_pack_def pack_rules_def get_pack_def Let_def split: option.split)

text \<open>Once the built-in rules are read, the default pack is what the guard's own source gives.\<close>

lemma reload_own_source:
  assumes "load_rules E fs False (gr_user_source g) = Inr user"
    and "gr_builtin_on g \<Longrightarrow> load_rules E fs True (Some bdir) = Inr builtin" and "\<not> gr_builtin_on g \<Longrightarrow> builtin = []"
  shows "\<exists>g'. reload_rules E fs bdir None None None g = (Inr (length builtin + length user), g') \<and>
    pack_rules (gr_router g') default_pack_id = user \<and> pack_rules (gr_router g') builtin_pack_id = builtin \<and>
    gr_user_source g' = gr_user_source g"
  using assms
  by (auto simp: reload_rules_def reload_builtin_def reload_user_def Let_def with_router_def gr_router_def
      replaced_default builtin_pack_id_def default_pack_id_def)

lemma reload_own_source_fails:
  assumes "load_rules E fs False (gr_user_source g) = Inl e"
    and "gr_builtin_on g \<Longrightarrow> load_rules E fs True (Some bdir) = Inr builtin" and "\<not> gr_builtin_on g \<Longrightarrow> builtin = []"
  shows "\<exists>g'. reload_rules E fs bdir None None None g = (Inl e, g') \<and>
    pack_rules (gr_router g') default_pack_id = pack_rules (gr_router g) default_pack_id \<and>
    pack_rules (gr_router g') builtin_pack_id = builtin \<and> gr_eval g' = gr_eval g"
proof -
  have "gr_user_source g \<noteq> None" using assms(1) by (cases "gr_user_source g") (simp_all add: load_rules_def)
  then show ?thesis using assms
    by (auto simp: reload_rules_def reload_builtin_def reload_user_def Let_def gr_router_def
        replaced_default builtin_pack_id_def default_pack_id_def)
qed

end
