(* ===== verification/Rule_Updater.thy ===== *)
theory Rule_Updater
  imports Guard_Rules Runtime_Loops
begin

text \<open>
  Synthesis of rules at run time (\<open>policy/rules/dynamic_store.py\<close>): when the updater fires, what it
  keeps, how a rule text is read out of a model's answer and applied to the guard.  The model is a
  parameter that answers with a text or raises.  The hook runs on one event loop, so one event is
  one step.
\<close>

subsection \<open>Reading a model's answer\<close>

text \<open>The text after the first three back quotes, and the text up to the next three.\<close>

fun after_fence :: "string \<Rightarrow> string option" where
  "after_fence [] = None"
| "after_fence (c # s) = (if starts_with (c # s) ''```'' then Some (drop 3 (c # s)) else after_fence s)"

fun before_fence :: "string \<Rightarrow> string option" where
  "before_fence [] = None"
| "before_fence (c # s) =
     (if starts_with (c # s) ''```'' then Some [] else map_option (Cons c) (before_fence s))"

definition drop_language :: "string \<Rightarrow> string" where
  "drop_language s =
     (if starts_with s ''dsl'' then drop 3 s else if starts_with s ''text'' then drop 4 s else s)"

definition extract_dsl_block :: "string \<Rightarrow> string" where
  "extract_dsl_block answer =
     (case after_fence answer of
        None \<Rightarrow> str_strip answer
      | Some s \<Rightarrow>
          (case before_fence (str_lstrip (drop_language s)) of
             None \<Rightarrow> str_strip answer | Some body \<Rightarrow> str_strip body))"

definition word_char :: "char \<Rightarrow> bool" where
  "word_char c \<longleftrightarrow> is_alnum c \<or> c = CHR ''_''"

text \<open>\<open>RULE\<close>, white space, an identifier: the identifier and what follows.\<close>

definition taught_rule :: "string \<Rightarrow> (string \<times> string) option" where
  "taught_rule s =
     (if \<not> starts_with s ''RULE'' then None
      else (case drop 4 s of
              [] \<Rightarrow> None
            | c # rest \<Rightarrow>
                if \<not> is_space c then None
                else (case str_lstrip rest of
                        [] \<Rightarrow> None
                      | d # tail \<Rightarrow>
                          if is_alpha d \<or> d = CHR ''_''
                          then Some (d # takeWhile word_char tail, dropWhile word_char tail) else None)))"

lemma taught_rule_length: "taught_rule s = Some (i, t) \<Longrightarrow> length t < length s"
proof -
  assume h: "taught_rule s = Some (i, t)"
  then obtain c rest d tail where d: "drop 4 s = c # rest" "str_lstrip rest = d # tail" "t = dropWhile word_char tail"
    by (auto simp: taught_rule_def split: if_splits list.splits)
  have "length t \<le> length tail" by (simp add: d(3) length_dropWhile_le)
  also have "\<dots> < length (str_lstrip rest)" by (simp add: d(2))
  also have "\<dots> \<le> length rest" by (simp add: str_lstrip_def length_dropWhile_le)
  also have "\<dots> < length (drop 4 s)" by (simp add: d(1))
  also have "\<dots> \<le> length s" by simp
  finally show ?thesis .
qed

lemma lstrip_length: "length (str_lstrip s) \<le> length s"
  by (simp add: str_lstrip_def length_dropWhile_le)

text \<open>\<open>findall\<close> in multi-line mode: white space at a line start is skipped before the rule.\<close>

function find_rule_ids :: "bool \<Rightarrow> string \<Rightarrow> string list" where
  "find_rule_ids line_start s =
     (case (if line_start then taught_rule (str_lstrip s) else None) of
        Some (i, t) \<Rightarrow> i # find_rule_ids False t
      | None \<Rightarrow> (case s of [] \<Rightarrow> [] | c # r \<Rightarrow> find_rule_ids (c = newline) r))"
  by pat_completeness auto
termination
proof (relation "measure (length \<circ> snd)")
  fix line_start s x i t
  assume "(if line_start then taught_rule (str_lstrip s) else None) = Some x" "(i, t) = x"
  then have "taught_rule (str_lstrip s) = Some (i, t)" by (simp split: if_splits)
  then show "((False, t), line_start, s) \<in> measure (length \<circ> snd)"
    using taught_rule_length lstrip_length [of s] by fastforce
qed simp_all

declare find_rule_ids.simps [simp del]

definition extract_rule_ids :: "string \<Rightarrow> string list" where
  "extract_rule_ids dsl = find_rule_ids True dsl"

subsection \<open>Configuration and state\<close>

datatype trigger_policy = TriggerNever | TriggerRiskThreshold | TriggerEveryNCalls | TriggerManual

record updater_config =
  uc_trigger :: trigger_policy
  uc_min_risk :: rat
  uc_every_n :: int

definition default_updater_config :: updater_config where
  "default_updater_config = \<lparr>uc_trigger = TriggerRiskThreshold, uc_min_risk = 6/10, uc_every_n = 20\<rparr>"

record recent_decision =
  rd_event_id :: string
  rd_tool :: "string option"
  rd_action :: string
  rd_risk :: rat

record synth_context =
  sx_event :: runtime_event
  sx_decision :: decision
  sx_known_rule_ids :: "string list"
  sx_recent_decisions :: "recent_decision list"

record synth_result =
  sy_dsl :: string
  sy_rule_ids :: "string list"

text \<open>An answer that fails is an empty text.\<close>

definition synthesize :: "(synth_context \<Rightarrow> string result) \<Rightarrow> synth_context \<Rightarrow> synth_result" where
  "synthesize model ctx =
     (case model ctx of
        Inl e \<Rightarrow> \<lparr>sy_dsl = [], sy_rule_ids = []\<rparr>
      | Inr answer \<Rightarrow>
          (let dsl = extract_dsl_block answer in \<lparr>sy_dsl = dsl, sy_rule_ids = extract_rule_ids dsl\<rparr>))"

definition max_recent :: nat where
  "max_recent = 16"

definition synth_cooldown :: rat where
  "synth_cooldown = 10"

record rule_updater =
  up_counter :: nat
  up_last_synth_at :: "(string, rat) dict"
  up_recent_decisions :: "recent_decision list"
  up_history :: "synth_result list"
  up_attached :: bool

definition new_updater :: rule_updater where
  "new_updater = \<lparr>up_counter = 0, up_last_synth_at = [], up_recent_decisions = [], up_history = [],
     up_attached = False\<rparr>"

subsection \<open>Firing\<close>

definition updater_bucket :: "runtime_event \<Rightarrow> string" where
  "updater_bucket ev = p_agent_id (ev_principal ev) @ '':'' @
     (case ev_tool_call ev of Some tc \<Rightarrow> tc_tool_name tc | None \<Rightarrow> ''?'')"

definition updater_should_fire :: "updater_config \<Rightarrow> decision \<Rightarrow> rule_updater \<Rightarrow> bool" where
  "updater_should_fire cfg d up =
     (case uc_trigger cfg of
        TriggerNever \<Rightarrow> False
      | TriggerManual \<Rightarrow> False
      | TriggerRiskThreshold \<Rightarrow> uc_min_risk cfg \<le> d_risk_score d \<or> action_value (d_action d) \<in> {''deny'', ''human_check''}
      | TriggerEveryNCalls \<Rightarrow> int (up_counter up) mod max 1 (uc_every_n cfg) = 0)"

text \<open>What the hook does under its lock: count, remember, and decide whether to synthesize.\<close>

definition updater_gate :: "updater_config \<Rightarrow> rat \<Rightarrow> runtime_event \<times> decision \<Rightarrow> rule_updater \<Rightarrow> bool \<times> rule_updater" where
  "updater_gate cfg now x up =
     (let (ev, d) = x;
          up1 = up\<lparr>up_counter := up_counter up + 1,
            up_recent_decisions := push_right max_recent (up_recent_decisions up)
              \<lparr>rd_event_id = ev_event_id ev, rd_tool = map_option tc_tool_name (ev_tool_call ev),
               rd_action = action_value (d_action d), rd_risk = d_risk_score d\<rparr>\<rparr>
      in if \<not> updater_should_fire cfg d up1 then (False, up1)
         else (let bucket = updater_bucket ev; last_at = dict_getd (up_last_synth_at up1) bucket 0
               in if now - last_at < synth_cooldown then (False, up1)
                  else (True, up1\<lparr>up_last_synth_at := dict_set bucket now (up_last_synth_at up1)\<rparr>)))"

interpretation upd: cooldown_gate "updater_gate cfg" "\<lambda>x. updater_bucket (fst x)"
  "\<lambda>up k. dict_getd (up_last_synth_at up) k 0" "\<lambda>_. synth_cooldown" for cfg
  by unfold_locales
    (auto simp: updater_gate_def dict_getd_def Let_def split: prod.splits if_splits)

subsection \<open>Applying\<close>

definition apply_dynamic_rules :: "externals \<Rightarrow> file_system \<Rightarrow> string \<Rightarrow> guard_rules \<Rightarrow> (nat \<times> guard_rules) result" where
  "apply_dynamic_rules E fs dsl_text g = add_rules E fs (OneSource dsl_text) True default_pack_id g"

text \<open>Rules that do not load are logged and dropped; the result is kept in the history all the same.\<close>

definition run_synth ::
  "externals \<Rightarrow> file_system \<Rightarrow> (synth_context \<Rightarrow> string result) \<Rightarrow> runtime_event \<Rightarrow> decision \<Rightarrow>
   rule_updater \<times> guard_rules \<Rightarrow> synth_result \<times> rule_updater \<times> guard_rules" where
  "run_synth E fs model ev d st =
     (let (up, g) = st;
          res = synthesize model \<lparr>sx_event = ev, sx_decision = d,
            sx_known_rule_ids = map cr_rule_id (active_rules g), sx_recent_decisions = up_recent_decisions up\<rparr>;
          g' = (if sy_dsl res = [] then g
                else (case apply_dynamic_rules E fs (sy_dsl res) g of Inl e \<Rightarrow> g | Inr (n, g1) \<Rightarrow> g1))
      in (res, up\<lparr>up_history := up_history up @ [res]\<rparr>, g'))"

text \<open>The decision of an event is looked up among the last 16 audit records.\<close>

definition latest_decision_for :: "runtime_event \<Rightarrow> audit_log \<Rightarrow> decision option" where
  "latest_decision_for ev lg =
     (case find (\<lambda>(e, d). ev_event_id e = ev_event_id ev \<and> d \<noteq> None) (rev (audit_recent 16 lg)) of
        None \<Rightarrow> None | Some (e, d) \<Rightarrow> d)"

definition updater_hook ::
  "externals \<Rightarrow> file_system \<Rightarrow> (synth_context \<Rightarrow> string result) \<Rightarrow> updater_config \<Rightarrow> rat \<Rightarrow> audit_log \<Rightarrow>
   runtime_event \<Rightarrow> rule_updater \<times> guard_rules \<Rightarrow> rule_updater \<times> guard_rules" where
  "updater_hook E fs model cfg now lg ev st =
     (case latest_decision_for ev lg of
        None \<Rightarrow> st
      | Some d \<Rightarrow>
          (let (fire, up) = updater_gate cfg now (ev, d) (fst st)
           in if fire then snd (run_synth E fs model ev d (up, snd st)) else (up, snd st)))"

subsection \<open>What the updater keeps\<close>

lemma apply_dynamic_ok: "guard_ok g \<Longrightarrow> apply_dynamic_rules E fs t g = Inr (n, g') \<Longrightarrow> guard_ok g'"
  by (simp add: apply_dynamic_rules_def add_rules_ok)

lemma run_synth_ok: "guard_ok (snd st) \<Longrightarrow> guard_ok (snd (snd (run_synth E fs model ev d st)))"
  by (cases st) (auto simp: run_synth_def Let_def apply_dynamic_ok split: sum.split)

lemma updater_hook_ok: "guard_ok (snd st) \<Longrightarrow> guard_ok (snd (updater_hook E fs model cfg now lg ev st))"
  using run_synth_ok by (auto simp: updater_hook_def split: option.split prod.split)

lemma recent_bounded: "length (up_recent_decisions (snd (updater_gate cfg now x up))) \<le> max_recent"
  by (simp add: updater_gate_def Let_def length_push_right split: prod.split)

text \<open>Rules in the default pack as the only ones that can change.\<close>

lemma add_rules_other_pack:
  assumes "add_rules E fs src ov pid g = Inr (n, g')" and "q \<noteq> pid"
  shows "get_pack q (gr_router g') = get_pack q (gr_router g)"
  using assms
  by (auto simp: add_rules_def ebind_Inr_iff Let_def replace_pack_rules_def upsert_pack_def get_pack_def
      split: if_splits prod.splits)

lemma hook_other_pack:
  assumes "q \<noteq> default_pack_id"
  shows "get_pack q (gr_router (snd (updater_hook E fs model cfg now lg ev st))) = get_pack q (gr_router (snd st))"
proof -
  have "get_pack q (gr_router (snd (snd (run_synth E fs model ev d (up, g))))) = get_pack q (gr_router g)" for d up g
    using add_rules_other_pack [OF _ assms] by (auto simp: run_synth_def Let_def apply_dynamic_rules_def split: sum.split)
  then show ?thesis by (simp add: updater_hook_def split: option.split prod.split)
qed

subsection \<open>The syntax that is taught\<close>

text \<open>The prompt shows rules without the colon the parser asks for.\<close>

lemma taught_syntax_fails:
  assumes "tokenize src = Inr toks" and "peek toks = KW ''RULE''" and "peek (tl toks) \<noteq> PUNC '':''"
  shows "\<exists>e. parse_rule_source E src = Inl e"
proof -
  have "\<exists>e. parse_rule E n toks = Inl e" for n
    using assms(2,3) by (simp add: parse_rule_def eat_def)
  then obtain e where "parse_rule E (parse_fuel toks) toks = Inl e" by blast
  then have "parse_tokens E toks = Inl e" using assms(2) by (simp add: parse_tokens_def)
  then show ?thesis using assms(1) by (simp add: parse_rule_source_def)
qed

end
