(* ===== verification/Api_Properties.thy ===== *)
theory Api_Properties
  imports Sample Rule_Watcher Rule_Updater
begin

text \<open>
  What the server promises over HTTP, what its clients can rely on, and what the synthesis of rules
  can do to the guard.  Each property with hypotheses is followed by an example.
\<close>

subsection \<open>A server that has just been built\<close>

definition sample_server :: "string option \<Rightarrow> compiled_rule list \<Rightarrow> api_server" where
  "sample_server key rules = pipeline.extend (sample_pipeline rules)
     \<lparr>sv_registry_version = 0, sv_builtin_on = True, sv_user_source = None, sv_catalog = empty_catalog,
      sv_version = \<lparr>rv_count = length rules, rv_ts = 0, rv_etag = []\<rparr>, sv_api_key = key\<rparr>"

definition sample_api :: api_env where
  "sample_api = \<lparr>ae_enf = sample_enf ''enforce'', ae_files = \<lparr>fs_dir = (\<lambda>_. None), fs_file = (\<lambda>_. None)\<rparr>,
     ae_builtin_dir = OneSource ''builtin'', ae_elapsed = 0, ae_sha1 = (\<lambda>s. s),
     ae_config = (\<lambda>_. Inl (ExternalError ''FileNotFoundError''))\<rparr>"

lemma sample_server_fields [simp]:
  "pl_router (sample_server key rules) = sample_router rules"
  "pl_eval (sample_server key rules) = new_evaluator [] ''v1'' True"
  "pl_writer (sample_server key rules) = pl_writer (sample_pipeline rules)"
  "pl_audit (sample_server key rules) = new_audit_log 10"
  "pl_stats (sample_server key rules) = new_stats 0 500 10"
  "pl_allowlists (sample_server key rules) = []"
  "es_bridge (sample_server key rules) = []"
  "sv_catalog (sample_server key rules) = empty_catalog"
  "sv_api_key (sample_server key rules) = key"
  by (simp_all add: sample_server_def pipeline.defs sample_pipeline_def)

lemma sample_server_ok: "server_ok (sample_server key rules)"
  using sample_pipeline_ok [of rules]
  by (simp add: server_ok_def catalog_ok_empty) (simp add: pipeline_ok_def pl_cache_def sample_pipeline_def)

lemma sample_server_open: "key_rejected given (sample_server None rules) = False"
  by (simp add: key_rejected_def)

subsection \<open>Keys\<close>



subsection \<open>Decisions over HTTP\<close>

text \<open>C6: Evaluating an attempt over HTTP is handling it in the pipeline: once the key is accepted and the
  labels of the catalog are on the call, the answer is the pipeline's, finalised for the client, the
  state afterwards is the pipeline's, and no client is ever told to ask a language model.\<close>

theorem http_decides_like_pipeline:
  assumes "\<not> key_rejected key s" and "apply_catalog_tool_labels ev s = Inr ev1"
    and "handle_attempt (ae_ext A) (ae_now A) (ae_elapsed A) ev1 s = (answer, s')"
  shows "post_evaluate A key (Inr ev) s =
      (case answer of
         Inl e \<Rightarrow> Inl (Uncaught e)
       | Inr (d, _) \<Rightarrow> Inr (with_client_action (finalize_remote_decision A (fst (enrich_event ev1 (pl_cache s))) d)), s') \<and>
    (\<forall>d. fst (post_evaluate A key (Inr ev) s) = Inr d \<longrightarrow> d_action d \<noteq> LLM_CHECK)"
proof -
  have "post_evaluate A key (Inr ev) s =
      (case answer of
         Inl e \<Rightarrow> Inl (Uncaught e)
       | Inr (d, _) \<Rightarrow> Inr (with_client_action (finalize_remote_decision A (fst (enrich_event ev1 (pl_cache s))) d)), s')"
    by (cases answer) (simp_all add: post_evaluate_accepted [OF assms(1)] evaluate_event_value [OF assms(2)] assms(3)
        case_prod_beta)
  then show ?thesis using finalize_action by (auto split: sum.splits prod.splits)
qed

lemma sample_labels: "apply_catalog_tool_labels sample_event (sample_server key rules) = Inr sample_event"
  by (simp add: apply_catalog_tool_labels_def Let_def catalog_get_def empty_catalog_def split: option.split)

lemma http_decides_like_pipeline_example:
  "snd (post_evaluate sample_api None (Inr sample_event) (sample_server None [])) =
   snd (handle_attempt sample_ext 0 0 sample_event (sample_server None []))"
proof -
  obtain answer s' where h: "handle_attempt (ae_ext sample_api) (ae_now sample_api) (ae_elapsed sample_api) sample_event
      (sample_server None []) = (answer, s')" by fastforce
  have "\<not> key_rejected None (sample_server None [])" by (simp add: sample_server_open)
  from http_decides_like_pipeline [OF this sample_labels h] h
  show ?thesis by (simp add: sample_api_def)
qed

subsection \<open>Serving\<close>




subsection \<open>What operators and clients may not expect\<close>

definition two_pack_server :: api_server where
  "two_pack_server = (sample_server None [])\<lparr>pl_router :=
     snd (replace_pack_rules default_pack_id [] ''default'' True (sample_router []))\<rparr>"

lemma two_pack_created:
  "\<exists>s'. create_agent_rule sample_api None ''a1'' ''RULE: a POLICY: DENY'' two_pack_server = (Inr (''agent::a1'', ''a''), s')"
proof -
  have "(case fst (create_agent_rule sample_api None ''a1'' ''RULE: a POLICY: DENY'' two_pack_server) of
      Inl _ \<Rightarrow> None | Inr x \<Rightarrow> Some x) = Some (''agent::a1'', ''a'')" by code_simp
  then show ?thesis
    by (cases "create_agent_rule sample_api None ''a1'' ''RULE: a POLICY: DENY'' two_pack_server") (auto split: sum.splits)
qed

lemma two_pack_server_ok: "server_ok two_pack_server"
proof -
  have "router_ok (pl_router two_pack_server)"
    by (simp add: two_pack_server_def router_ok_replace sample_router_ok)
  moreover have "pl_eval two_pack_server = new_evaluator [] ''v1'' True" by (simp add: two_pack_server_def)
  ultimately have "evaluator_wf (pl_eval two_pack_server, pl_router two_pack_server)" by (simp add: evaluator_wf_new)
  then show ?thesis
    using sample_server_ok [of None "[]"] by (simp add: server_ok_def pipeline_ok_def pl_cache_def) (simp add: two_pack_server_def)
qed

text \<open>The first rule an operator adds to an agent that has no packs of its own takes the default policy
  away from it: afterwards only the built-in pack and the agent's own pack apply, where before the
  default pack did as well.\<close>

theorem agent_rule_drops_default_policy:
  assumes "server_ok s" and "packs_of (rt_bindings (pl_router s)) agent = {}"
    and "rt_default_when_unbound (pl_router s)" and "default_pack_id \<in> known_packs (pl_router s)"
    and "create_agent_rule A key agent source s = (Inr (pid, rid), s')"
  shows "default_pack_id \<in> set (packs_for_agent agent (pl_router s)) \<and>
    default_pack_id \<notin> set (packs_for_agent agent (pl_router s')) \<and>
    set (packs_for_agent agent (pl_router s')) = ({builtin_pack_id} \<inter> known_packs (pl_router s)) \<union> {agent_rule_pack_id agent}"
proof -
  have "router_ok (pl_router s)" using guard_ok_router [OF server_ok_guard [OF assms(1)]] by simp
  from unbound_packs [OF this assms(2)] created_rule_packs [OF assms(1,2,5)] assms(3,4)
  show ?thesis by (auto simp: builtin_pack_id_def default_pack_id_def agent_rule_pack_id_def)
qed

lemma agent_rule_drops_default_policy_example:
  "default_pack_id \<notin> set (packs_for_agent ''a1'' (pl_router (snd
     (create_agent_rule sample_api None ''a1'' ''RULE: a POLICY: DENY'' two_pack_server))))"
proof -
  obtain s' where c: "create_agent_rule sample_api None ''a1'' ''RULE: a POLICY: DENY'' two_pack_server =
      (Inr (''agent::a1'', ''a''), s')" using two_pack_created by blast
  have "packs_of (rt_bindings (pl_router two_pack_server)) ''a1'' = {}" "rt_default_when_unbound (pl_router two_pack_server)"
    "default_pack_id \<in> known_packs (pl_router two_pack_server)"
    by (simp_all add: two_pack_server_def replaced_router)
      (simp_all add: sample_router_value no_bindings_def packs_of_def members_def)
  from agent_rule_drops_default_policy [OF two_pack_server_ok this c] show ?thesis unfolding c snd_conv by blast
qed

text \<open>The audit records an agent's page shows are the oldest of the agent's records in the window, not the
  most recent ones, although the endpoint is called recent.\<close>

theorem agent_audit_keeps_oldest:
  assumes "1 \<le> n" and "n \<le> 2000"
  shows "get_audit_recent_for_agent agent n s =
    take n (filter (\<lambda>(ev, d). p_agent_id (ev_principal ev) = agent) (last_n (4 * n) (al_buf (pl_audit s))))"
proof -
  have "max 1 n = n" "min n 2000 = n" using assms by simp_all
  then show ?thesis using assms by (simp add: get_audit_recent_for_agent_def Let_def collect_value audit_recent_def mult.commute)
qed

lemma agent_audit_keeps_oldest_example:
  "get_audit_recent_for_agent ''a1'' 1 ((sample_server None [])\<lparr>pl_audit :=
      audit_log_record sample_event None (audit_log_record (sample_event\<lparr>ev_event_id := ''e0''\<rparr>) None (new_audit_log 10))\<rparr>) =
   [(sample_event\<lparr>ev_event_id := ''e0''\<rparr>, None)]"
proof -
  let ?e0 = "sample_event\<lparr>ev_event_id := ''e0''\<rparr>"
  let ?lg = "audit_log_record sample_event None (audit_log_record ?e0 None (new_audit_log 10))"
  have buf: "al_buf ?lg = [(?e0, None), (sample_event, None)]"
    by (simp add: audit_log_record_def new_audit_log_def push_right_def last_n_def Let_def)
  have agent: "p_agent_id (ev_principal sample_event) = ''a1''" by (simp add: sample_event_def mk_event_def mk_principal_def)
  show ?thesis
    using agent_audit_keeps_oldest [of 1 "''a1''" "(sample_server None [])\<lparr>pl_audit := ?lg\<rparr>"]
    by (simp add: buf agent last_n_def)
qed

text \<open>A client whose key the server refuses treats the refusal like an unreachable server: with the default
  setting it allows the call, the tool runs, and the server does not learn of it.\<close>

theorem wrong_key_fails_open:
  assumes "key_rejected (client_headers rc) s" and "rc_fail_open rc" and "en_exec env ev = Inr v"
  shows "snd (remote_evaluate rc A ev s) = s \<and>
    fst (remote_guarded_call env (\<lambda>e. Inr (fst (remote_evaluate rc A e s))) ev rp) = Inr v \<and>
    rm_executed (snd (remote_guarded_call env (\<lambda>e. Inr (fst (remote_evaluate rc A e s))) ev rp)) = rm_executed rp @ [ev]"
proof -
  have e: "remote_evaluate rc A e s = (fail_open_decision, s)" for e
    using assms(2) by (simp add: remote_evaluate_rejected [OF assms(1)] client_fallback_def)
  have "d_action fail_open_decision = ALLOW" by (simp add: fail_open_decision_def decision_allow_def)
  then show ?thesis using remote_allow [of "\<lambda>e. Inr (fst (remote_evaluate rc A e s))" ev fail_open_decision env v rp] assms(3)
    by (simp add: e)
qed

lemma wrong_key_fails_open_example:
  "fst (remote_guarded_call (sample_enf ''enforce'')
     (\<lambda>e. Inr (fst (remote_evaluate \<lparr>rc_api_key = [], rc_fail_open = True\<rparr> sample_api e
        (sample_server (Some ''k'') [sample_rule ''r'' ''shell.*'' DENY])))) sample_event
     \<lparr>rm_mode = ''enforce'', rm_audit = new_audit_log 5, rm_executed = []\<rparr>) = Inr VNone"
  using wrong_key_fails_open [of "\<lparr>rc_api_key = [], rc_fail_open = True\<rparr>"
      "sample_server (Some ''k'') [sample_rule ''r'' ''shell.*'' DENY]" "sample_enf ''enforce''" sample_event VNone sample_api
      "\<lparr>rm_mode = ''enforce'', rm_audit = new_audit_log 5, rm_executed = []\<rparr>"]
  by (simp add: key_rejected_def client_headers_def sample_enf_def)



text \<open>C34: The labels of a tool can be set to any strings.  If one is not a label the event model knows, the
  request succeeds, every later evaluation of that tool by that agent is an internal error without
  effect, and a client with the default setting allows the call.\<close>

theorem bad_label_disables_policy:
  assumes "\<not> key_rejected (client_headers rc) s" and "rc_fail_open rc"
    and "catalog_get name agent (sv_catalog s) \<noteq> None" and "static_label labels = Inl err"
    and "ev_tool_call ev = Some tc" and "str_strip (tc_tool_name tc) = name" and "name \<noteq> []"
    and "str_strip (p_agent_id (ev_principal ev)) = agent" and "agent \<noteq> []"
    and "patch_tool_labels A (client_headers rc) agent name labels s = (answer, s1)"
  shows "(\<exists>tool. answer = Inr tool) \<and>
    post_evaluate A (client_headers rc) (Inr ev) s1 = (Inl (Uncaught err), s1) \<and>
    d_action (fst (remote_evaluate rc A ev s1)) = ALLOW"
proof -
  obtain e where e: "catalog_get name agent (sv_catalog s) = Some e" using assms(3) by blast
  let ?u = "catalog_update_labels (now_ms A) agent name labels (sv_catalog s)"
  have u: "answer = Inr (to_public_dict (the (fst ?u)))" "s1 = s\<lparr>sv_catalog := snd ?u\<rparr>"
    using assms(1,10) e
    by (auto simp: patch_tool_labels_def check_api_key_def catalog_update_labels_def catalog_get_def Let_def)
  have "catalog_get name agent (sv_catalog s1) = Some (with_updated_timestamp (now_ms A) None (e\<lparr>ce_labels := labels\<rparr>))"
    by (simp add: u(2) get_update_labels e)
  then have "apply_catalog_tool_labels ev s1 = Inl err"
    using assms(4-9) by (simp add: apply_catalog_tool_labels_def Let_def with_updated_timestamp_def)
  then have ee: "evaluate_event A ev s1 = (Inl err, s1)" by (simp add: evaluate_event_def)
  have "\<not> key_rejected (client_headers rc) s1" using assms(1) by (simp add: u(2) key_rejected_def)
  then show ?thesis using u(1) ee assms(2)
    by (simp add: post_evaluate_accepted remote_evaluate_accepted del: split_paired_Ex)
qed

text \<open>One tool in the catalog, and labels with a boundary the event model does not know.\<close>

definition shell_catalog :: catalog_store where
  "shell_catalog = snd (catalog_upsert 0 \<lparr>ce_owner_agent_id = ''a1'', ce_name = ''shell.exec'',
     ce_labels = default_catalog_labels, ce_input_params = [], ce_updated_at_ms = None\<rparr> empty_catalog)"

lemma bad_label_disables_policy_example:
  "d_action (fst (remote_evaluate \<lparr>rc_api_key = [], rc_fail_open = True\<rparr> sample_api sample_event
     (snd (patch_tool_labels sample_api None ''a1'' ''shell.exec'' (default_catalog_labels\<lparr>cl_boundary := ''secret''\<rparr>)
        ((sample_server None [sample_rule ''r'' ''shell.*'' DENY])\<lparr>sv_catalog := shell_catalog\<rparr>))))) = ALLOW"
proof -
  let ?rc = "\<lparr>rc_api_key = [], rc_fail_open = True\<rparr>"
  let ?s = "(sample_server None [sample_rule ''r'' ''shell.*'' DENY])\<lparr>sv_catalog := shell_catalog\<rparr>"
  let ?lb = "default_catalog_labels\<lparr>cl_boundary := ''secret''\<rparr>"
  have names: "str_strip (tc_tool_name sample_call) = ''shell.exec''" "str_strip (p_agent_id (ev_principal sample_event)) = ''a1''"
    by code_simp+
  have "catalog_get ''shell.exec'' ''a1'' (sv_catalog ?s) \<noteq> None"
    by (simp add: shell_catalog_def get_upsert)
  moreover have "static_label ?lb = Inl (ExternalError ''ValidationError'')" by code_simp
  moreover have "\<not> key_rejected (client_headers ?rc) ?s" by (simp add: key_rejected_def)
  moreover obtain answer s1 where "patch_tool_labels sample_api (client_headers ?rc) ''a1'' ''shell.exec'' ?lb ?s = (answer, s1)"
    by fastforce
  ultimately show ?thesis
    using bad_label_disables_policy [of ?rc ?s "''shell.exec''" "''a1''" ?lb _ sample_event sample_call sample_api answer s1]
      sample_event_call(1) names
    by (simp add: client_headers_def)
qed

subsection \<open>Watching rule files\<close>

text \<open>A check of the rule files that sees a change makes the default pack exactly what the guard's own
  source now gives, so rules added at run time are gone; checking again without another change does
  nothing.  A source that does not load leaves the old default pack, and is not tried again until
  another file changes.\<close>

theorem watched_change_reloads_once:
  assumes "watch_check A F (w, s) = (True, w', s')"
    and "load_rules (ae_ext A) (ae_files A) True (Some (ae_builtin_dir A)) = Inr builtin"
  shows "pack_rules (pl_router s') default_pack_id =
      (case load_rules (ae_ext A) (ae_files A) False (sv_user_source s) of
         Inr user \<Rightarrow> user | Inl e \<Rightarrow> pack_rules (pl_router s) default_pack_id) \<and>
    watch_check A' F (w', s') = (False, w', s')"
proof
  let ?b = "if sv_builtin_on s then builtin else []"
  have src: "gr_user_source (guard_of s) = sv_user_source s" "gr_builtin_on (guard_of s) = sv_builtin_on s"
    by (simp_all add: guard_of_def)
  have b: "gr_builtin_on (guard_of s) \<Longrightarrow> load_rules (ae_ext A) (ae_files A) True (Some (ae_builtin_dir A)) = Inr ?b"
    "\<not> gr_builtin_on (guard_of s) \<Longrightarrow> ?b = []" using assms(2) by (simp_all add: src)
  have s': "s' = watch_reload A s" using assms(1) by (simp add: watch_check_def Let_def split: if_splits)
  show "pack_rules (pl_router s') default_pack_id =
      (case load_rules (ae_ext A) (ae_files A) False (sv_user_source s) of
         Inr user \<Rightarrow> user | Inl e \<Rightarrow> pack_rules (pl_router s) default_pack_id)"
  proof (cases "load_rules (ae_ext A) (ae_files A) False (sv_user_source s)")
    case (Inr user)
    then have l: "load_rules (ae_ext A) (ae_files A) False (gr_user_source (guard_of s)) = Inr user" by (simp add: src)
    obtain g' where g: "reload_rules (ae_ext A) (ae_files A) (ae_builtin_dir A) None None None (guard_of s) =
        (Inr (length ?b + length user), g')" "pack_rules (gr_router g') default_pack_id = user"
      using reload_own_source [OF l b] by blast
    then show ?thesis by (simp add: s' watch_reload_def Inr)
  next
    case (Inl e)
    then have l: "load_rules (ae_ext A) (ae_files A) False (gr_user_source (guard_of s)) = Inl e" by (simp add: src)
    obtain g' where g: "reload_rules (ae_ext A) (ae_files A) (ae_builtin_dir A) None None None (guard_of s) = (Inl e, g')"
      "pack_rules (gr_router g') default_pack_id = pack_rules (gr_router (guard_of s)) default_pack_id"
      using reload_own_source_fails [OF l b] by blast
    then show ?thesis by (simp add: s' watch_reload_def Inl)
  qed
  show "watch_check A' F (w', s') = (False, w', s')"
    using watch_check_settles [OF assms(1)] by (rule watch_check_quiet)
qed

text \<open>A file that appears under a watched directory, and built-in rules that are read.\<close>

definition one_file :: watched_files where
  "one_file = \<lparr>wf_under = (\<lambda>p. if p = ''rules'' then Some [''rules/a.rules''] else None), wf_is_file = (\<lambda>_. False),
     wf_mtime = (\<lambda>_. Some 1)\<rparr>"

lemma builtin_text_fails: "\<exists>e. parse_rule_source sample_ext ''builtin'' = Inl e"
proof -
  have "isl (parse_rule_source sample_ext ''builtin'')" by code_simp
  then show ?thesis by (auto simp: isl_def)
qed

lemma sample_builtin: "load_rules sample_ext \<lparr>fs_dir = (\<lambda>_. None), fs_file = (\<lambda>_. None)\<rparr> True (Some (OneSource ''builtin'')) = Inr []"
proof -
  have r: "read_source \<lparr>fs_dir = (\<lambda>_. None), fs_file = (\<lambda>_. None)\<rparr> ''builtin'' = Inr [''builtin'']" by code_simp
  obtain e where "compile_rules sample_ext [''builtin''] = Inl e"
    using builtin_text_fails by (auto simp: compile_rules_def parse_rules_def)
  then show ?thesis by (simp add: load_rules_def source_list_def r)
qed

text \<open>A watcher started for files the guard does not take its rules from never loads them.  On a guard
  without a source of its own, any change in the watched files empties the default pack.\<close>

theorem watching_without_source_empties_default:
  assumes "watch_check A F (w, s) = (True, w', s')" and "sv_user_source s = None"
    and "load_rules (ae_ext A) (ae_files A) True (Some (ae_builtin_dir A)) = Inr builtin"
  shows "pack_rules (pl_router s') default_pack_id = [] \<and> sv_user_source s' = None"
proof -
  let ?b = "if sv_builtin_on s then builtin else []"
  have src: "gr_user_source (guard_of s) = None" "gr_builtin_on (guard_of s) = sv_builtin_on s"
    using assms(2) by (simp_all add: guard_of_def)
  have l: "load_rules (ae_ext A) (ae_files A) False (gr_user_source (guard_of s)) = Inr []" by (simp add: src load_rules_def)
  have b: "gr_builtin_on (guard_of s) \<Longrightarrow> load_rules (ae_ext A) (ae_files A) True (Some (ae_builtin_dir A)) = Inr ?b"
    "\<not> gr_builtin_on (guard_of s) \<Longrightarrow> ?b = []" using assms(3) by (simp_all add: src)
  obtain n g' where g: "reload_rules (ae_ext A) (ae_files A) (ae_builtin_dir A) None None None (guard_of s) = (Inr n, g')"
    "pack_rules (gr_router g') default_pack_id = []" "gr_user_source g' = None"
    using reload_own_source [OF l b] src(1) by auto
  have "s' = watch_reload A s" using assms(1) by (simp add: watch_check_def Let_def split: if_splits)
  then show ?thesis using g by (simp add: watch_reload_def) (simp add: bump_version_def set_guard_def)
qed

lemma sample_watch_changes:
  "\<exists>w' s'. watch_check sample_api one_file (new_watcher [''rules''], s) = (True, w', s')"
  by (simp add: watch_check_def same_snapshot_def snapshot_def glob_rules_def one_file_def new_watcher_def Let_def)

lemma watched_change_reloads_once_example:
  "fst (watch_check sample_api one_file (snd (watch_check sample_api one_file (new_watcher [''rules''], sample_server None [])))) = False"
proof -
  obtain w' s' where c: "watch_check sample_api one_file (new_watcher [''rules''], sample_server None []) = (True, w', s')"
    using sample_watch_changes by blast
  have "load_rules (ae_ext sample_api) (ae_files sample_api) True (Some (ae_builtin_dir sample_api)) = Inr []"
    using sample_builtin by (simp add: sample_api_def)
  from watched_change_reloads_once [OF c this, of sample_api] c show ?thesis by simp
qed

lemma watching_without_source_empties_default_example:
  "pack_rules (pl_router (snd (snd (watch_check sample_api one_file (new_watcher [''rules''], two_pack_server))))) default_pack_id = []"
proof -
  obtain w' s' where c: "watch_check sample_api one_file (new_watcher [''rules''], two_pack_server) = (True, w', s')"
    using sample_watch_changes by blast
  have l: "load_rules (ae_ext sample_api) (ae_files sample_api) True (Some (ae_builtin_dir sample_api)) = Inr []"
    using sample_builtin by (simp add: sample_api_def)
  have "sv_user_source two_pack_server = None" by (simp add: two_pack_server_def sample_server_def pipeline.defs)
  from watching_without_source_empties_default [OF c this l] c show ?thesis by simp
qed

subsection \<open>The LRU cache\<close>

text \<open>After any run of writes without expiry, a cache of some capacity holds exactly the keys written most
  recently, as many as fit, in the order of their last write, each with the last value written to it.\<close>

theorem lru_keeps_most_recent:
  "lru_ok (lru_write_all now ws (new_lru cap)) \<and>
   lru_keys (lru_write_all now ws (new_lru cap)) = last_n cap (remdups (map fst ws)) \<and>
   (\<forall>k. map_of (lru_data (lru_write_all now ws (new_lru cap))) k =
      (if k \<in> set (last_n cap (remdups (map fst ws))) then map_option (\<lambda>v. (v, None)) (map_of (rev ws) k) else None))"
proof -
  have "map_of (lru_data (lru_write_all now ws (new_lru cap))) k =
      (if k \<in> set (last_n cap (remdups (map fst ws))) then map_option (\<lambda>v. (v, None)) (map_of (rev ws) k) else None)" for k
    by (rule write_all_values)
  then show ?thesis using write_all_keys [of now ws cap] write_all_ok [of now ws cap] by simp
qed

end
