(* ===== verification/Updater_Properties.thy ===== *)
theory Updater_Properties
  imports Sample Rule_Updater
begin

text \<open>
  What the synthesis of rules at run time can do to a guard: how often it asks the model, which packs
  it can change, and that the rule syntax its prompt teaches never loads.
\<close>

subsection \<open>The taught syntax does not tokenize to a rule header\<close>

lemma space_chars:
  assumes "is_space c"
  shows "c \<in> {CHR '' '', tab, carriage, newline} \<or> c \<in> {CHR 0x0B, CHR 0x0C, CHR 0x1C, CHR 0x1D, CHR 0x1E, CHR 0x1F}"
proof -
  have "c = char_of (ord c)" by (simp add: ord_def)
  moreover have "ord c \<in> {9, 10, 11, 12, 13, 28, 29, 30, 31, 32}" using assms by (simp add: is_space_def)
  ultimately have "c \<in> char_of ` {9, 10, 11, 12, 13, 28, 29, 30, 31, 32 :: nat}" by blast
  then show ?thesis by (simp add: tab_def carriage_def newline_def char_of_def) (auto simp: bit_iff_odd)
qed

lemma lex_blank: "is_space c \<Longrightarrow> lex_token pos c s = Inr (None, 0) \<or> (\<exists>e. lex_token pos c s = Inl e)"
proof -
  assume "is_space c"
  from space_chars [OF this] show ?thesis
  proof
    assume "c \<in> {CHR '' '', tab, carriage, newline}"
    then show ?thesis by (simp add: lex_token_def)
  next
    assume "c \<in> {CHR 0x0B, CHR 0x0C, CHR 0x1C, CHR 0x1D, CHR 0x1E, CHR 0x1F}"
    then show ?thesis
      by (elim insertE emptyE) (simp_all add: lex_token_def is_digit_def is_alpha_def ord_def tab_def carriage_def newline_def
          dquote_def squote_def)
  qed
qed

lemma blank_not_word: "is_space c \<Longrightarrow> \<not> is_word_char c \<and> c \<noteq> CHR ''-''"
  by (drule space_chars, elim disjE insertE emptyE) (simp_all add: is_word_char_def is_alnum_def is_digit_def is_alpha_def ord_def tab_def carriage_def newline_def)

lemma blank_then_word:
  assumes "str_lstrip s = d # tail" and "is_alpha d \<or> d = CHR ''_''"
    and "tokenize_from pos s = Inr toks"
  shows "\<exists>t ts p. toks = (word_token t, p) # ts"
  using assms(1,3)
proof (induction s arbitrary: pos toks)
  case Nil
  then show ?case by (simp add: str_lstrip_def)
next
  case (Cons c s)
  show ?case
  proof (cases "is_space c")
    case True
    then have "lex_token pos c s = Inr (None, 0)"
      using lex_blank [of c pos s] Cons.prems(2) by auto
    moreover have "str_lstrip s = d # tail" using Cons.prems(1) True by (simp add: str_lstrip_def)
    ultimately show ?thesis using Cons.IH Cons.prems(2) by (auto simp: ebind_Inr_iff)
  next
    case False
    then have "c = d" using Cons.prems(1) by (simp add: str_lstrip_def)
    then have "lex_token pos c s = Inr (Some (word_token (c # word_tail s)), length (word_tail s))"
      using assms(2) word_start [of c] by (auto simp: lex_token_def)
    then show ?thesis using Cons.prems(2) by (auto simp: ebind_Inr_iff)
  qed
qed

lemma taught_rule_fails:
  assumes "taught_rule src = Some (i, rest)"
  shows "\<exists>e. parse_rule_source E src = Inl e"
proof (cases "tokenize src")
  case (Inl e)
  then show ?thesis by (simp add: parse_rule_source_def)
next
  case (Inr toks)
  have sw: "starts_with src ''RULE''" using assms by (simp add: taught_rule_def split: if_splits)
  then have t: "take 4 src = ''RULE''" by (simp add: starts_with_def eval_nat_numeral)
  obtain c s where cs: "drop 4 src = c # s" "is_space c"
    using assms sw by (simp add: taught_rule_def split: list.splits if_splits)
  obtain d tail where "str_lstrip s = d # tail" "is_alpha d \<or> d = CHR ''_''"
    using assms sw cs by (simp add: taught_rule_def split: list.splits if_splits)
  with cs have d: "drop 4 src = c # s" "is_space c" "str_lstrip s = d # tail" "is_alpha d \<or> d = CHR ''_''" by simp_all
  have src: "src = ''RULE'' @ c # s" using append_take_drop_id [of 4 src] by (simp add: d(1) t)
  have "\<not> is_word_char c" "c \<noteq> CHR ''-''"
    using blank_not_word [OF d(2)] by simp_all
  then have tail: "word_tail (''ULE'' @ c # s) = ''ULE''"
    by (simp add: is_word_char_def is_alnum_def is_alpha_def ord_def)
  have "lex_token 0 CHR ''R'' (''ULE'' @ c # s) = Inr (Some (word_token ''RULE''), 3)"
    using tail by (simp add: lex_token_def is_alpha_def is_digit_def ord_def tab_def carriage_def newline_def dquote_def squote_def)
  then obtain toks' where toks: "tokenize_from 4 (c # s) = Inr toks'" "toks = (word_token ''RULE'', 0) # toks'"
    using Inr by (auto simp: tokenize_def src ebind_Inr_iff)
  have "str_lstrip (c # s) = d # tail" using d(2,3) by (simp add: str_lstrip_def)
  from blank_then_word [OF this d(4) toks(1)] obtain w ts p where w: "toks' = (word_token w, p) # ts" by blast
  have "peek toks = KW ''RULE''" by (simp add: toks(2) peek_def word_token_def dsl_keywords_def)
  moreover have "peek (tl toks) \<noteq> PUNC '':''" by (simp add: toks(2) w peek_def word_token_def)
  ultimately show ?thesis by (rule taught_syntax_fails [OF Inr])
qed

subsection \<open>Properties\<close>

text \<open>The prompt of the synthesizer teaches rules without the colon the parser asks for.  When the model
  answers in the syntax it was taught, the rules of the guard stay as they were, yet the history
  reports the ids of the rules as synthesized.\<close>

theorem taught_rules_never_load:
  assumes "\<forall>ctx. model ctx = Inr answer" and "taught_rule (extract_dsl_block answer) = Some (i, rest)"
    and "fs_dir fs (extract_dsl_block answer) = None" and "fs_file fs (extract_dsl_block answer) = None"
  shows "run_synth E fs model ev d (up, g) =
     (let res = \<lparr>sy_dsl = extract_dsl_block answer, sy_rule_ids = i # find_rule_ids False rest\<rparr>
      in (res, up\<lparr>up_history := up_history up @ [res]\<rparr>, g))"
proof -
  let ?dsl = "extract_dsl_block answer"
  obtain e where "parse_rule_source E ?dsl = Inl e" using taught_rule_fails [OF assms(2)] by blast
  moreover have "strip_file_prefix ?dsl = ?dsl"
    using assms(2) by (cases ?dsl) (auto simp: taught_rule_def starts_with_def strip_file_prefix_def split: if_splits)
  ultimately have "\<exists>e. apply_dynamic_rules E fs ?dsl g = Inl e"
    using assms(3,4) by (simp add: Let_def apply_dynamic_rules_def add_rules_def load_rules_def source_list_def read_source_def compile_rules_def
        parse_rules_def)
  moreover have "?dsl \<noteq> []" using assms(2) by (auto simp: taught_rule_def starts_with_def)
  moreover have "extract_rule_ids ?dsl = i # find_rule_ids False rest"
  proof -
    have "str_lstrip ?dsl = ?dsl"
      using assms(2) by (cases ?dsl) (auto simp: taught_rule_def starts_with_def str_lstrip_def is_space_def ord_def split: if_splits)
    then show ?thesis using assms(2) by (simp add: extract_rule_ids_def find_rule_ids.simps [of True])
  qed
  ultimately show ?thesis using assms(1) by (auto simp: run_synth_def synthesize_def Let_def)
qed

definition taught_answer :: string where
  "taught_answer = ''```dsl'' @ [newline] @ ''RULE dyn_a ON tool_call POLICY: DENY'' @ [newline] @ ''```''"

lemma taught_rules_never_load_example:
  "snd (snd (run_synth sample_ext \<lparr>fs_dir = (\<lambda>_. None), fs_file = (\<lambda>_. None)\<rparr> (\<lambda>_. Inr taught_answer) sample_event d
     (new_updater, g))) = g"
proof -
  have "\<exists>rest. taught_rule (extract_dsl_block taught_answer) = Some (''dyn_a'', rest)"
  proof -
    have "map_option fst (taught_rule (extract_dsl_block taught_answer)) = Some ''dyn_a''" by code_simp
    then show ?thesis by (cases "taught_rule (extract_dsl_block taught_answer)") auto
  qed
  then obtain rest where t: "taught_rule (extract_dsl_block taught_answer) = Some (''dyn_a'', rest)" by blast
  have m: "\<forall>ctx. (\<lambda>_ :: synth_context. Inr taught_answer :: string result) ctx = Inr taught_answer" by simp
  show ?thesis
    using taught_rules_never_load [OF m t, of "\<lparr>fs_dir = (\<lambda>_. None), fs_file = (\<lambda>_. None)\<rparr>" sample_ext sample_event d new_updater g]
    by (simp add: Let_def)
qed

text \<open>A run of the hook: the events as they are published, each with its time and the audit log then.\<close>

definition updater_run ::
  "externals \<Rightarrow> file_system \<Rightarrow> (synth_context \<Rightarrow> string result) \<Rightarrow> updater_config \<Rightarrow>
   (rat \<times> audit_log \<times> runtime_event) list \<Rightarrow> rule_updater \<times> guard_rules \<Rightarrow> rule_updater \<times> guard_rules" where
  "updater_run E fs model cfg xs st = foldl (\<lambda>st (now, lg, ev). updater_hook E fs model cfg now lg ev st) st xs"

lemma updater_run_Cons:
  "updater_run E fs model cfg ((now, lg, ev) # xs) st = updater_run E fs model cfg xs (updater_hook E fs model cfg now lg ev st)"
  by (simp add: updater_run_def)

definition guard_of_router :: "rule_router \<Rightarrow> guard_rules" where
  "guard_of_router rt = \<lparr>gr_registry = \<lparr>rr_router = rt, rr_version = 0\<rparr>, gr_eval = new_evaluator [] ''v1'' True,
     gr_builtin_on = False, gr_user_source = None\<rparr>"

text \<open>C32: However many events pass and whatever the model answers, the updater keeps the guard in shape,
  leaves every pack but the default one as it is, and remembers at most sixteen decisions.\<close>

theorem synthesis_stays_in_default_pack:
  assumes "guard_ok (snd st)" and "length (up_recent_decisions (fst st)) \<le> max_recent"
  shows "guard_ok (snd (updater_run E fs model cfg xs st)) \<and>
    length (up_recent_decisions (fst (updater_run E fs model cfg xs st))) \<le> max_recent \<and>
    (q \<noteq> default_pack_id \<longrightarrow>
       get_pack q (gr_router (snd (updater_run E fs model cfg xs st))) = get_pack q (gr_router (snd st)))"
  using assms
proof (induction xs arbitrary: st)
  case Nil
  then show ?case by (simp add: updater_run_def)
next
  case (Cons x xs)
  obtain now lg ev where x: "x = (now, lg, ev)" by (cases x)
  have "length (up_recent_decisions (fst (updater_hook E fs model cfg now lg ev st))) \<le> max_recent"
    using Cons.prems(2) recent_bounded [of cfg now _ "fst st"]
    by (auto simp: updater_hook_def run_synth_def Let_def case_prod_beta split: option.split)
  with Cons.IH [OF updater_hook_ok [OF Cons.prems(1)]] show ?case
    by (simp add: x updater_run_Cons hook_other_pack)
qed

lemma synthesis_stays_in_default_pack_example:
  "guard_ok (snd (updater_run sample_ext \<lparr>fs_dir = (\<lambda>_. None), fs_file = (\<lambda>_. None)\<rparr>
       (\<lambda>_. Inr taught_answer) default_updater_config [(1, new_audit_log 10, sample_event)]
     (new_updater, guard_of_router (sample_router [sample_rule ''r'' ''shell.*'' DENY])))) \<and>
   get_pack builtin_pack_id (gr_router (snd (updater_run sample_ext \<lparr>fs_dir = (\<lambda>_. None), fs_file = (\<lambda>_. None)\<rparr>
       (\<lambda>_. Inr taught_answer) default_updater_config [(1, new_audit_log 10, sample_event)]
     (new_updater, guard_of_router (sample_router [sample_rule ''r'' ''shell.*'' DENY]))))) =
   get_pack builtin_pack_id (sample_router [sample_rule ''r'' ''shell.*'' DENY])"
proof -
  let ?g = "guard_of_router (sample_router [sample_rule ''r'' ''shell.*'' DENY])"
  have "guard_ok (snd (new_updater, ?g))"
    by (simp add: guard_of_router_def guard_ok_def gr_router_def evaluator_wf_new sample_router_ok)
  moreover have "length (up_recent_decisions (fst (new_updater, ?g))) \<le> max_recent" by (simp add: new_updater_def)
  moreover have "builtin_pack_id \<noteq> default_pack_id" by (simp add: builtin_pack_id_def default_pack_id_def)
  moreover have "gr_router (snd (new_updater, ?g)) = sample_router [sample_rule ''r'' ''shell.*'' DENY]"
    by (simp add: guard_of_router_def gr_router_def)
  ultimately show ?thesis
    using synthesis_stays_in_default_pack [of "(new_updater, ?g)" sample_ext "\<lparr>fs_dir = (\<lambda>_. None), fs_file = (\<lambda>_. None)\<rparr>"
        "\<lambda>_. Inr taught_answer" default_updater_config
        "[(1, new_audit_log 10, sample_event)]" builtin_pack_id] by simp
qed

text \<open>The updater asks the model again about the same agent and tool only ten seconds after it last did,
  and never unless its trigger fires: under the risk trigger, only for a decision that refuses, asks
  a human, or carries at least the configured risk.\<close>

theorem synthesis_cools_down:
  "sorted_wrt (\<lambda>a b. snd a = snd b \<longrightarrow> fst a + 10 \<le> fst b) (upd.firings cfg xs up) \<and>
   (fst (updater_gate cfg now (ev, d) up) \<longrightarrow>
      (case uc_trigger cfg of
         TriggerRiskThreshold \<Rightarrow> uc_min_risk cfg \<le> d_risk_score d \<or> d_action d \<in> {DENY, HUMAN_CHECK}
       | TriggerEveryNCalls \<Rightarrow> int (Suc (up_counter up)) mod max 1 (uc_every_n cfg) = 0
       | _ \<Rightarrow> False))"
proof
  have c: "synth_cooldown = 10" by (simp add: synth_cooldown_def)
  show "sorted_wrt (\<lambda>a b. snd a = snd b \<longrightarrow> fst a + 10 \<le> fst b) (upd.firings cfg xs up)"
    using upd.firings_apart [where s = up and xs = xs and cfg = cfg] by (simp add: c)
  have "updater_should_fire cfg d up' \<Longrightarrow> up_counter up' = Suc (up_counter up) \<Longrightarrow>
      (case uc_trigger cfg of
         TriggerRiskThreshold \<Rightarrow> uc_min_risk cfg \<le> d_risk_score d \<or> d_action d \<in> {DENY, HUMAN_CHECK}
       | TriggerEveryNCalls \<Rightarrow> int (Suc (up_counter up)) mod max 1 (uc_every_n cfg) = 0
       | _ \<Rightarrow> False)" for up'
    by (cases "d_action d"; cases "uc_trigger cfg") (simp_all add: updater_should_fire_def)
  then show "fst (updater_gate cfg now (ev, d) up) \<longrightarrow>
      (case uc_trigger cfg of
         TriggerRiskThreshold \<Rightarrow> uc_min_risk cfg \<le> d_risk_score d \<or> d_action d \<in> {DENY, HUMAN_CHECK}
       | TriggerEveryNCalls \<Rightarrow> int (Suc (up_counter up)) mod max 1 (uc_every_n cfg) = 0
       | _ \<Rightarrow> False)"
    by (simp add: updater_gate_def Let_def)
qed

text \<open>A decision the risk trigger fires on.\<close>

definition denial :: decision where
  "denial = (decision_allow [] [])\<lparr>d_action := DENY\<rparr>"

lemma synthesis_cools_down_example:
  "sorted_wrt (\<lambda>a b. snd a = snd b \<longrightarrow> fst a + 10 \<le> fst b) (upd.firings default_updater_config
       [(100, (sample_event, denial)), (105, (sample_event, denial))] new_updater) \<and>
   \<not> fst (updater_gate (default_updater_config\<lparr>uc_trigger := TriggerManual\<rparr>) 100 (sample_event, denial) new_updater)"
  using synthesis_cools_down [of default_updater_config "[(100, (sample_event, denial)), (105, (sample_event, denial))]"
      new_updater 100 sample_event denial]
    synthesis_cools_down [of "default_updater_config\<lparr>uc_trigger := TriggerManual\<rparr>" "[]" new_updater 100 sample_event denial]
  by simp

end
