(* ===== verification/Framework_Adapters.thy ===== *)
theory Framework_Adapters
  imports Sdk_Wrappers
begin

text \<open>
  The adapters to agent frameworks (\<open>sdk/adapters\<close>).  Most hand a framework's callables to the
  wrapper of \<open>Sdk_Wrappers\<close>; what they patch is modelled as tools whose callables are raw or guarded.
  The adapters for the Claude Agent SDK, OpenAI function tools, AutoGen's \<open>run_json\<close> and Dify enforce
  decisions on their own, and are modelled by what one call does.  Tools are functions of their
  arguments that may raise, JSON is read and written by parameters, and the pipeline is the one in the
  process; \<open>es_executed\<close> records the events on which tools run.
\<close>

subsection \<open>The base class\<close>

definition dispatch_attempt ::
  "externals \<Rightarrow> rat \<Rightarrow> rat \<Rightarrow> runtime_event \<Rightarrow> 'a pipeline_scheme \<Rightarrow>
   (decision \<times> runtime_event) result \<times> 'a pipeline_scheme" where
  "dispatch_attempt E now elapsed ev p = handle_attempt E now elapsed ev p"

definition dispatch_result :: "runtime_event \<Rightarrow> 'a pipeline_scheme \<Rightarrow> 'a pipeline_scheme" where
  "dispatch_result ev p = handle_result (ev\<lparr>ev_event_type := TOOL_CALL_RESULT\<rparr>) p"

definition ran_on :: "runtime_event \<Rightarrow> 'a pipeline_scheme \<Rightarrow> 'a pipeline_scheme" where
  "ran_on ev p = p\<lparr>es_executed := es_executed p @ [ev]\<rparr>"

type_synonym tool_fn = "pydict \<Rightarrow> pyval result"

subsection \<open>Claude Agent SDK\<close>

definition claude_event :: "session_var \<Rightarrow> string \<Rightarrow> int \<Rightarrow> string \<Rightarrow> pydict \<Rightarrow> runtime_event" where
  "claude_event cur event_id ts name input =
     (let (p, goal, scope) = (case cur of
            Some s \<Rightarrow> (gs_principal s, gs_goal s, gs_scope s)
          | None \<Rightarrow> (mk_principal ''claude-agent-sdk'' ''claude-agent-session'', None, []))
      in (mk_event event_id ts TOOL_CALL_REQUESTED p
            (Some ((mk_tool_call name input)\<lparr>tc_syntax := map fst input\<rparr>)))\<lparr>ev_goal := goal, ev_scope := scope\<rparr>)"

text \<open>The exception a decision raises, if any.\<close>

definition claude_refusal :: "decision \<Rightarrow> string \<Rightarrow> py_exc option" where
  "claude_refusal d name =
     (if d_action d = DENY then Some (DecisionDenied (str_or (d_reason d) name) [] None)
      else if d_action d = HUMAN_CHECK \<or> d_action d = LLM_CHECK
      then Some (HumanApprovalPending (case d_matched_rules d of [] \<Rightarrow> name | r # _ \<Rightarrow> r) ''human_approval_required'')
      else None)"

text \<open>
  The arguments that replace the caller's.  Masking starts from nothing, or from what earlier
  obligations gave, and sets the masked fields.
\<close>

definition claude_mask :: "externals \<Rightarrow> pyval list \<Rightarrow> pydict option \<Rightarrow> pydict option" where
  "claude_mask E fs rewritten =
     Some (foldl (\<lambda>r f. dict_set (py_str E f) (VStr ''[REDACTED]'') r)
       (case rewritten of None \<Rightarrow> [] | Some r \<Rightarrow> r) fs)"

fun claude_rewrites :: "externals \<Rightarrow> obligation list \<Rightarrow> pydict option \<Rightarrow> pydict option result" where
  "claude_rewrites E [] rewritten = Inr rewritten"
| "claude_rewrites E (ob # obs) rewritten =
     (if ob_kind ob = ''mask_fields'' then
        (let given = py_or (ob_get ob ''fields'') (ob_get ob ''field'');
             chosen = (if py_bool given then given else VList []);
             fields = (case chosen of VStr s \<Rightarrow> VList [VStr s] | _ \<Rightarrow> chosen)
         in if \<not> py_bool fields then claude_rewrites E obs rewritten
            else ebind (py_iter fields) (\<lambda>fs. claude_rewrites E obs (claude_mask E fs rewritten)))
      else if ob_kind ob = ''rewrite_tool'' then
        claude_rewrites E obs (case ob_get ob ''args'' of VDict d \<Rightarrow> Some d | _ \<Rightarrow> rewritten)
      else claude_rewrites E obs rewritten)"

definition collect_rewritten_args :: "externals \<Rightarrow> decision \<Rightarrow> pydict option result" where
  "collect_rewritten_args E d = claude_rewrites E (d_obligations d) None"

definition dispatch_completed :: "externals \<Rightarrow> runtime_event \<Rightarrow> pyval \<Rightarrow> 'a pipeline_scheme \<Rightarrow> 'a pipeline_scheme" where
  "dispatch_completed E ev v p =
     (let s = VStr (take 4096 (py_str E v))
      in handle_result (ev\<lparr>ev_event_type := TOOL_CALL_COMPLETED,
           ev_tool_call := map_option (\<lambda>tc. tc\<lparr>tc_result := s\<rparr>) (ev_tool_call ev), ev_result := s\<rparr>) p)"

definition dispatch_failed :: "(py_exc \<Rightarrow> string) \<Rightarrow> runtime_event \<Rightarrow> py_exc \<Rightarrow> 'a pipeline_scheme \<Rightarrow> 'a pipeline_scheme" where
  "dispatch_failed exc_repr ev e p =
     handle_result (ev\<lparr>ev_event_type := TOOL_CALL_FAILED,
       ev_extra := dict_set ''error'' (VStr (take 512 (exc_repr e))) (ev_extra ev)\<rparr>) p"

definition call_with_args :: "runtime_event \<Rightarrow> pydict \<Rightarrow> runtime_event" where
  "call_with_args ev args = ev\<lparr>ev_tool_call := map_option (\<lambda>tc. tc\<lparr>tc_args := args\<rparr>) (ev_tool_call ev)\<rparr>"

text \<open>A tool of an MCP server: attempt, refusal, rewritten arguments, the call, its result.\<close>

definition claude_call ::
  "enf_env \<Rightarrow> (py_exc \<Rightarrow> string) \<Rightarrow> rat \<Rightarrow> string \<Rightarrow> tool_fn \<Rightarrow> pydict \<Rightarrow> runtime_event \<Rightarrow>
   'a pipeline_scheme \<Rightarrow> pyval result \<times> 'a pipeline_scheme" where
  "claude_call env exc_repr elapsed name fn args event p =
     (let (answer, p1) = handle_attempt (en_ext env) (en_now env) elapsed event p
      in case answer of
           Inl e \<Rightarrow> (Inl e, p1)
         | Inr (d, ev) \<Rightarrow>
             (case claude_refusal d name of
                Some e \<Rightarrow> (Inl e, p1)
              | None \<Rightarrow>
                  (case collect_rewritten_args (en_ext env) d of
                     Inl e \<Rightarrow> (Inl e, p1)
                   | Inr rewritten \<Rightarrow>
                       (let call_args = (case rewritten of Some r \<Rightarrow> r | None \<Rightarrow> args);
                            p2 = ran_on (call_with_args ev call_args) p1
                        in case fn call_args of
                             Inl e \<Rightarrow> (Inl e, dispatch_failed exc_repr ev e p2)
                           | Inr v \<Rightarrow> (Inr v, dispatch_completed (en_ext env) ev v p2)))))"

text \<open>The hook in front of the built-in tools: an empty answer lets the tool run as called.\<close>

datatype hook_answer = HookProceed | HookOutput string string "pydict option"

definition claude_reason :: "decision \<Rightarrow> string" where
  "claude_reason d = str_or (str_or (d_reason d) (str_join '' '' (d_matched_rules d))) ''AgentGuard policy''"

definition claude_hook ::
  "externals \<Rightarrow> rat \<Rightarrow> rat \<Rightarrow> pydict \<Rightarrow> runtime_event \<Rightarrow> 'a pipeline_scheme \<Rightarrow> hook_answer result \<times> 'a pipeline_scheme" where
  "claude_hook E now elapsed input event p =
     (let (answer, p1) = handle_attempt E now elapsed event p
      in case answer of
           Inl e \<Rightarrow> (Inr HookProceed, p1)
         | Inr (d, ev) \<Rightarrow>
             (let reason = claude_reason d
              in if d_action d = DENY then (Inr (HookOutput ''deny'' reason None), p1)
                 else if d_action d = HUMAN_CHECK \<or> d_action d = LLM_CHECK
                 then (Inr (HookOutput ''ask'' (''AgentGuard '' @ action_value (d_action d) @ '': '' @ reason) None), p1)
                 else (ebind (collect_rewritten_args E d) (\<lambda>rewritten.
                   case rewritten of
                     Some r \<Rightarrow> if \<not> py_eq (VDict r) (VDict input) then Inr (HookOutput ''allow'' reason (Some r))
                               else Inr HookProceed
                   | None \<Rightarrow> Inr HookProceed), p1)))"

text \<open>What Claude Code does with an answer: the arguments a built-in tool then runs with, if it runs.\<close>

definition hook_runs_with :: "pydict \<Rightarrow> hook_answer \<Rightarrow> pydict option" where
  "hook_runs_with input a =
     (case a of
        HookProceed \<Rightarrow> Some input
      | HookOutput decision reason modified \<Rightarrow>
          if decision = ''allow'' then Some (case modified of Some m \<Rightarrow> m | None \<Rightarrow> input) else None)"

subsection \<open>OpenAI function tools\<close>

definition sink_by_prefix :: "(string \<times> string) list \<Rightarrow> string \<Rightarrow> string" where
  "sink_by_prefix table name =
     (case find (\<lambda>(pre, sink). starts_with name pre) table of None \<Rightarrow> ''none'' | Some (pre, sink) \<Rightarrow> sink)"

definition openai_sinks :: "(string \<times> string) list" where
  "openai_sinks = [(''email'', ''email''), (''mail'', ''email''), (''http'', ''http''), (''browser'', ''http''),
     (''shell'', ''shell''), (''fs'', ''fs_write''), (''file'', ''fs_write''), (''db'', ''db_write''), (''sql'', ''db_write'')]"

text \<open>A sink that is no literal of the event model raises when the event is built.\<close>

definition sink_of :: "string \<Rightarrow> sink_type result" where
  "sink_of s =
     (case find (\<lambda>k. sink_type_value k = s) [SinkNone, SinkEmail, SinkHttp, SinkShell, SinkFsWrite, SinkDbWrite, SinkLlmOut] of
        None \<Rightarrow> Inl (ExternalError ''ValidationError'') | Some k \<Rightarrow> Inr k)"

definition openai_args :: "(string \<Rightarrow> pyval result) \<Rightarrow> string \<Rightarrow> pydict" where
  "openai_args json input =
     (if input = [] then []
      else case json input of
             Inl e \<Rightarrow> [(''raw_input'', VStr input)]
           | Inr (VDict d) \<Rightarrow> d
           | Inr v \<Rightarrow> [(''value'', v)])"

definition openai_event :: "externals \<Rightarrow> session_var \<Rightarrow> string \<Rightarrow> int \<Rightarrow> string \<Rightarrow> pydict \<Rightarrow> runtime_event result" where
  "openai_event E cur event_id ts name args =
     (let (p, goal, scope) = (case cur of
            Some s \<Rightarrow> (gs_principal s, gs_goal s, gs_scope s)
          | None \<Rightarrow> (mk_principal ''openai-agent'' ''anon'', None, []))
      in ebind (sink_of (sink_by_prefix openai_sinks name)) (\<lambda>sink.
           Inr ((mk_event event_id ts TOOL_CALL_ATTEMPT p
             (Some ((mk_tool_call name args)\<lparr>tc_target := extract_target E name args, tc_sink_type := sink\<rparr>)))
             \<lparr>ev_goal := goal, ev_scope := scope\<rparr>)))"

text \<open>The call itself, with its result back-filled and written as text.\<close>

definition openai_run ::
  "enf_env \<Rightarrow> (pyval \<Rightarrow> string result) \<Rightarrow> tool_fn \<Rightarrow> pydict \<Rightarrow> runtime_event \<Rightarrow> 'a pipeline_scheme \<Rightarrow>
   pyval result \<times> 'a pipeline_scheme" where
  "openai_run env dumps fn args ev p =
     (let p1 = ran_on ev p
      in case fn (case ev_tool_call ev of Some tc \<Rightarrow> tc_args tc | None \<Rightarrow> args) of
           Inl e \<Rightarrow> (Inl e, p1)
         | Inr v \<Rightarrow>
             (case v of VStr s \<Rightarrow> Inr (VStr s) | _ \<Rightarrow> ebind (dumps v) (\<lambda>s. Inr (VStr s)), async_finish env ev v p1))"

definition openai_enforce ::
  "enf_env \<Rightarrow> string \<Rightarrow> string \<Rightarrow> (pyval \<Rightarrow> string result) \<Rightarrow> tool_fn \<Rightarrow> pydict \<Rightarrow> runtime_event \<Rightarrow> decision \<Rightarrow>
   'a pipeline_scheme \<Rightarrow> pyval result \<times> 'a pipeline_scheme" where
  "openai_enforce env mode pending_id dumps fn args ev d p =
     (if mode = ''monitor'' \<or> mode = ''dry_run'' then openai_run env dumps fn args ev p
      else if d_action d = DENY then (Inl (denied ev d (str_or (d_reason d) ''policy_denied'')), p)
      else if d_action d = HUMAN_CHECK
      then (Inl (HumanApprovalPending pending_id (str_or (d_reason d) ''human_check_required'')), p)
      else if d_action d = DEGRADE \<or> d_obligations d \<noteq> [] then
        (case apply_rewrites (en_ext env) (en_profiles env) ev d of
           Inl e \<Rightarrow> (Inl e, p)
         | Inr rewritten \<Rightarrow>
             openai_run env dumps fn args (case rewritten of Some tc \<Rightarrow> with_tool_call ev tc | None \<Rightarrow> ev) p)
      else openai_run env dumps fn args ev p)"

definition openai_call ::
  "enf_env \<Rightarrow> string option \<Rightarrow> bool option \<Rightarrow> (py_exc \<Rightarrow> string) \<Rightarrow> string \<Rightarrow> (pyval \<Rightarrow> string result) \<Rightarrow> rat \<Rightarrow>
   tool_fn \<Rightarrow> pydict \<Rightarrow> runtime_event \<Rightarrow> 'a pipeline_scheme \<Rightarrow> pyval result \<times> 'a pipeline_scheme" where
  "openai_call env mode_attr fail_open_attr exc_text pending_id dumps elapsed fn args event p =
     (let (answer, p1) = handle_attempt (en_ext env) (en_now env) elapsed event p
      in case answer of
           Inl e \<Rightarrow>
             if fail_open_attr = Some False then (Inl (async_refusal exc_text e), p1)
             else openai_run env dumps fn args event p1
         | Inr (d, ev) \<Rightarrow> openai_enforce env (pipeline_mode mode_attr) pending_id dumps fn args ev d p1)"

subsection \<open>AutoGen's run_json\<close>

definition autogen_event :: "session_var \<Rightarrow> string \<Rightarrow> int \<Rightarrow> string \<Rightarrow> pyval \<Rightarrow> runtime_event" where
  "autogen_event cur event_id ts name args =
     (let (p, goal, scope) = resolve_principal cur
      in (mk_event event_id ts TOOL_CALL_ATTEMPT p
            (Some (mk_tool_call name (case args of VDict d \<Rightarrow> d | _ \<Rightarrow> []))))\<lparr>ev_goal := goal, ev_scope := scope\<rparr>)"

definition autogen_call ::
  "enf_env \<Rightarrow> string option \<Rightarrow> rat \<Rightarrow> (pyval \<Rightarrow> pyval result) \<Rightarrow> pyval \<Rightarrow> runtime_event \<Rightarrow>
   'a pipeline_scheme \<Rightarrow> pyval result \<times> 'a pipeline_scheme" where
  "autogen_call env mode_attr elapsed run_json args event p =
     (let (answer, p1) = handle_attempt (en_ext env) (en_now env) elapsed event p;
          mode = pipeline_mode mode_attr
      in case answer of
           Inl e \<Rightarrow> (Inl e, p1)
         | Inr (d, ev) \<Rightarrow>
             if mode \<noteq> ''monitor'' \<and> mode \<noteq> ''dry_run'' \<and> d_action d = DENY
             then (Inl (denied ev d (str_or (d_reason d) ''policy_denied'')), p1)
             else if mode \<noteq> ''monitor'' \<and> mode \<noteq> ''dry_run'' \<and> d_action d = HUMAN_CHECK
             then (Inl (HumanApprovalPending ''pending_review'' (str_or (d_reason d) ''human_check_required'')), p1)
             else (run_json args, ran_on ev p1))"

subsection \<open>Dify\<close>

text \<open>
  The adapter watches the stream of a running app: a thought that names a tool has already been
  acted on.  A refusal asks the app to stop the message.
\<close>

record dify_thought =
  dt_tool :: "string option"
  dt_tool_input :: "string option"
  dt_conversation_id :: "string option"
  dt_task_id :: "string option"
  dt_observation :: pyval
  dt_app_id :: "string option"

record dify_payloads =
  dp_user :: "string option"
  dp_conversation_id :: "string option"
  dp_app_id :: "string option"

definition dify_sinks :: "(string \<times> string) list" where
  "dify_sinks = [(''email'', ''email''), (''mail'', ''email''), (''http'', ''http''), (''browser'', ''http''),
     (''shell'', ''shell''), (''fs'', ''fs''), (''file'', ''fs''), (''db'', ''db''), (''sql'', ''db'')]"

definition safe_parse_tool_input :: "(string \<Rightarrow> pyval result) \<Rightarrow> string option \<Rightarrow> pydict" where
  "safe_parse_tool_input json raw =
     (let text_in = str_strip (case raw of None \<Rightarrow> [] | Some s \<Rightarrow> s)
      in if text_in = [] then []
         else case json text_in of
                Inl e \<Rightarrow> [(''raw'', VStr text_in)]
              | Inr (VDict d) \<Rightarrow> d
              | Inr v \<Rightarrow> [(''value'', v)])"

definition text_or :: "string option \<Rightarrow> string option \<Rightarrow> string option" where
  "text_or a b = (if a = None \<or> a = Some [] then b else a)"

definition dify_principal :: "session_var \<Rightarrow> dify_payloads \<Rightarrow> dify_thought \<Rightarrow> principal" where
  "dify_principal cur pay ev =
     (case cur of
        Some s \<Rightarrow> gs_principal s
      | None \<Rightarrow>
          (let or_else = (\<lambda>x d. case text_or x (Some d) of Some s \<Rightarrow> s | None \<Rightarrow> d)
           in (mk_principal (or_else (text_or (dp_app_id pay) (dt_app_id ev)) ''dify-agent'')
                 (or_else (text_or (dp_conversation_id pay) (dt_conversation_id ev)) ''anon''))
              \<lparr>p_user_id := dp_user pay, p_trust_level := 1\<rparr>))"

definition opt_str :: "string option \<Rightarrow> pyval" where
  "opt_str s = (case s of None \<Rightarrow> VNone | Some t \<Rightarrow> VStr t)"

definition dify_event ::
  "(string \<Rightarrow> pyval result) \<Rightarrow> session_var \<Rightarrow> string \<Rightarrow> int \<Rightarrow> string \<Rightarrow> dify_payloads \<Rightarrow> string \<Rightarrow> dify_thought \<Rightarrow>
   runtime_event result" where
  "dify_event json cur event_id ts meth pay tool ev =
     (let args = safe_parse_tool_input json (dt_tool_input ev);
          target = (case map_of args ''target'' of Some (VDict d) \<Rightarrow> d | _ \<Rightarrow> [])
      in ebind (sink_of (sink_by_prefix dify_sinks tool)) (\<lambda>sink.
           Inr ((mk_event event_id ts TOOL_CALL_ATTEMPT (dify_principal cur pay ev)
             (Some ((mk_tool_call tool args)\<lparr>tc_target := target, tc_sink_type := sink\<rparr>)))
             \<lparr>ev_extra := [(''source'', VStr ''dify_agent_thought''),
                (''conversation_id'', opt_str (dt_conversation_id ev)), (''task_id'', opt_str (dt_task_id ev)),
                (''observation'', dt_observation ev), (''dify_method'', VStr meth)]\<rparr>)))"

text \<open>The messages the app is asked to stop, as task and user.\<close>

definition maybe_stop_message ::
  "string \<Rightarrow> bool \<Rightarrow> dify_payloads \<Rightarrow> string option \<Rightarrow> (string \<times> string) list \<Rightarrow> (string \<times> string) list" where
  "maybe_stop_message guard_mode can_stop pay task stops =
     (if guard_mode \<noteq> ''enforce'' then stops
      else case task of
             None \<Rightarrow> stops
           | Some t \<Rightarrow>
               if t = [] then stops
               else (case dp_user pay of None \<Rightarrow> stops | Some u \<Rightarrow> if can_stop then stops @ [(t, u)] else stops))"

definition dify_observe ::
  "externals \<Rightarrow> rat \<Rightarrow> rat \<Rightarrow> (string \<Rightarrow> pyval result) \<Rightarrow> string \<Rightarrow> bool \<Rightarrow> session_var \<Rightarrow> string \<Rightarrow> int \<Rightarrow> string \<Rightarrow>
   dify_payloads \<Rightarrow> dify_thought \<Rightarrow> (string \<times> string) list \<times> 'a pipeline_scheme \<Rightarrow>
   unit result \<times> (string \<times> string) list \<times> 'a pipeline_scheme" where
  "dify_observe E now elapsed json guard_mode can_stop cur event_id ts meth pay ev st =
     (let (stops, p) = st
      in case dt_tool ev of
           None \<Rightarrow> (Inr (), stops, p)
         | Some tool \<Rightarrow>
             if tool = [] then (Inr (), stops, p)
             else (case dify_event json cur event_id ts meth pay tool ev of
                     Inl e \<Rightarrow> (Inl e, stops, p)
                   | Inr event \<Rightarrow>
                       (case handle_attempt E now elapsed event p of
                          (Inl e, p1) \<Rightarrow> (Inr (), stops, p1)
                        | (Inr (d, _), p1) \<Rightarrow>
                            (Inr (),
                             if d_action d = DENY \<or> d_action d = HUMAN_CHECK
                             then maybe_stop_message guard_mode can_stop pay (dt_task_id ev) stops else stops,
                             p1))))"

text \<open>The wrapped stream: each event is observed and handed on, until an observation raises.\<close>

fun dify_stream :: "('e \<Rightarrow> 's \<Rightarrow> unit result \<times> 's) \<Rightarrow> 'e list \<Rightarrow> 's \<Rightarrow> ('e list \<times> py_exc option) \<times> 's" where
  "dify_stream observe [] st = (([], None), st)"
| "dify_stream observe (e # es) st =
     (case observe e st of
        (Inl x, st1) \<Rightarrow> (([], Some x), st1)
      | (Inr _, st1) \<Rightarrow> (let ((out, err), st2) = dify_stream observe es st1 in ((e # out, err), st2)))"

subsection \<open>Installing\<close>

text \<open>A callable as an adapter finds it: raw, or marked as guarded under a tool name.\<close>

datatype 'f patched = Raw 'f | Guarded string 'f

fun is_raw :: "'f patched \<Rightarrow> bool" where
  "is_raw (Raw f) = True"
| "is_raw (Guarded n f) = False"

fun guard_callable :: "string \<Rightarrow> 'f patched \<Rightarrow> 'f patched" where
  "guard_callable name (Raw f) = Guarded name f"
| "guard_callable name (Guarded n f) = Guarded name f"

type_synonym 'f guard_registry = "(string, 'f patched) dict"

definition record_tool :: "string \<Rightarrow> 'f patched \<Rightarrow> 'f guard_registry \<Rightarrow> 'f guard_registry" where
  "record_tool name c reg = dict_set name c reg"

text \<open>A dictionary of functions: OpenClaw's registry, AutoGen's \<open>function_map\<close>, tools of a plain dictionary.\<close>

fun patch_function_map ::
  "(string \<times> 'f patched) list \<Rightarrow> 'f guard_registry \<Rightarrow> (string \<times> 'f patched) list \<times> 'f guard_registry" where
  "patch_function_map [] reg = ([], reg)"
| "patch_function_map ((name, c) # tools) reg =
     (let c' = (if is_raw c then guard_callable name c else c);
          (tools', reg') = patch_function_map tools (if is_raw c then record_tool name c' reg else reg)
      in ((name, c') # tools', reg'))"

text \<open>An entry of the tool list of an OpenAI agent.\<close>

datatype 'f openai_tool = FunctionTool string "'f patched" | BareCallable string "'f patched" | OtherTool

fun patch_openai_tools :: "'f openai_tool list \<Rightarrow> 'f guard_registry \<Rightarrow> 'f openai_tool list \<times> 'f guard_registry" where
  "patch_openai_tools [] reg = ([], reg)"
| "patch_openai_tools (t # ts) reg =
     (let (t', reg1) = (case t of
            FunctionTool name c \<Rightarrow>
              if is_raw c then (FunctionTool name (guard_callable name c), record_tool name (guard_callable name c) reg)
              else (t, reg)
          | BareCallable name c \<Rightarrow> (t, if is_raw c then record_tool name (guard_callable name c) reg else reg)
          | OtherTool \<Rightarrow> (t, reg));
          (ts', reg2) = patch_openai_tools ts reg1
      in (t' # ts', reg2))"

text \<open>A LangChain tool: its synchronous function, its coroutine, and its \<open>invoke\<close>.\<close>

record 'f langchain_tool =
  lt_name :: string
  lt_func :: "'f patched option"
  lt_coroutine :: "'f patched option"
  lt_invoke :: "'f patched option"

definition raw_of :: "'f patched option \<Rightarrow> bool" where
  "raw_of c = (case c of None \<Rightarrow> False | Some x \<Rightarrow> is_raw x)"

definition patch_langchain_tool :: "'f langchain_tool \<Rightarrow> 'f guard_registry \<Rightarrow> 'f langchain_tool \<times> 'f guard_registry" where
  "patch_langchain_tool t reg =
     (let name = lt_name t; guarded = map_option (guard_callable name);
          reg_with = (\<lambda>k c r. case guarded c of None \<Rightarrow> r | Some x \<Rightarrow> record_tool k x r);
          patched_sync = raw_of (lt_func t); patched_async = raw_of (lt_coroutine t);
          (t1, reg1) = (if patched_sync then (t\<lparr>lt_func := guarded (lt_func t)\<rparr>, reg_with name (lt_func t) reg) else (t, reg));
          (t2, reg2) = (if patched_async
            then (t1\<lparr>lt_coroutine := guarded (lt_coroutine t)\<rparr>, reg_with (name @ ''.__async__'') (lt_coroutine t) reg1)
            else (t1, reg1))
      in if \<not> patched_sync \<and> \<not> patched_async \<and> raw_of (lt_invoke t)
         then (t2\<lparr>lt_invoke := guarded (lt_invoke t)\<rparr>, reg_with name (lt_invoke t) reg2)
         else (t2, reg2))"

text \<open>
  A tool of an AutoGen agent's list: the function under \<open>func\<close> or \<open>_func\<close>, its \<open>run_json\<close>, the tool
  itself when it can be called, and the mark that it has been patched.  \<open>at_name\<close> is the name found on
  the tool or its function.  Setting an attribute succeeds.
\<close>

record 'f autogen_tool =
  at_name :: "string option"
  at_patched :: bool
  at_func :: "'f patched option"
  at_run_json :: "'f patched option"
  at_self :: "'f patched option"

definition tool_label :: "nat \<Rightarrow> string option \<Rightarrow> string" where
  "tool_label i name = (case name of Some n \<Rightarrow> if n \<noteq> [] then n else ''tool_'' @ str_of_nat i | None \<Rightarrow> ''tool_'' @ str_of_nat i)"

definition patch_autogen_tool :: "nat \<Rightarrow> 'f autogen_tool \<Rightarrow> 'f guard_registry \<Rightarrow> 'f autogen_tool \<times> 'f guard_registry" where
  "patch_autogen_tool i t reg =
     (let name = tool_label i (at_name t); guarded = map_option (guard_callable name);
          reg_with = (\<lambda>c. case guarded c of None \<Rightarrow> reg | Some x \<Rightarrow> record_tool name x reg)
      in if at_patched t then (t, reg)
         else if raw_of (at_func t) then (t\<lparr>at_func := guarded (at_func t), at_patched := True\<rparr>, reg_with (at_func t))
         else if at_run_json t \<noteq> None then (t\<lparr>at_run_json := guarded (at_run_json t), at_patched := True\<rparr>, reg_with (at_run_json t))
         else if raw_of (at_self t) then (t\<lparr>at_self := guarded (at_self t)\<rparr>, reg_with (at_self t))
         else (t, reg))"

fun patch_autogen_tools ::
  "nat \<Rightarrow> 'f autogen_tool list \<Rightarrow> 'f guard_registry \<Rightarrow> 'f autogen_tool list \<times> 'f guard_registry" where
  "patch_autogen_tools i [] reg = ([], reg)"
| "patch_autogen_tools i (t # ts) reg =
     (let (t', reg1) = patch_autogen_tool i t reg; (ts', reg2) = patch_autogen_tools (Suc i) ts reg1
      in (t' # ts', reg2))"

text \<open>
  A LangChain agent: nodes of the compiled graph, then of its builder, each with a tool node or none;
  a tool node met before, by identity, is skipped.  The key of the table is the tool's name.
\<close>

record 'f tool_node =
  tn_id :: nat
  tn_tools :: "'f langchain_tool list"

fun iter_tool_nodes :: "nat set \<Rightarrow> 'f tool_node option list \<Rightarrow> 'f tool_node list" where
  "iter_tool_nodes seen [] = []"
| "iter_tool_nodes seen (None # ns) = iter_tool_nodes seen ns"
| "iter_tool_nodes seen (Some n # ns) =
     (if tn_id n \<in> seen then iter_tool_nodes seen ns else n # iter_tool_nodes (insert (tn_id n) seen) ns)"

fun patch_langchain_tools :: "'f langchain_tool list \<Rightarrow> 'f guard_registry \<Rightarrow> 'f langchain_tool list \<times> 'f guard_registry" where
  "patch_langchain_tools [] reg = ([], reg)"
| "patch_langchain_tools (t # ts) reg =
     (let (t', reg1) = patch_langchain_tool t reg; (ts', reg2) = patch_langchain_tools ts reg1 in (t' # ts', reg2))"

fun patch_tool_nodes :: "'f tool_node list \<Rightarrow> 'f guard_registry \<Rightarrow> 'f tool_node list \<times> 'f guard_registry" where
  "patch_tool_nodes [] reg = ([], reg)"
| "patch_tool_nodes (n # ns) reg =
     (let (ts, reg1) = patch_langchain_tools (tn_tools n) reg; (ns', reg2) = patch_tool_nodes ns reg1
      in (n\<lparr>tn_tools := ts\<rparr> # ns', reg2))"

definition langchain_install ::
  "'f tool_node option list \<Rightarrow> 'f tool_node option list \<Rightarrow> 'f guard_registry \<Rightarrow> 'f tool_node list \<times> 'f guard_registry" where
  "langchain_install compiled builder reg = patch_tool_nodes (iter_tool_nodes {} (compiled @ builder)) reg"

text \<open>
  A tool of an MCP server: its name, when one is found, and the callables under the attributes the
  adapter tries, in that order.  The first raw one is guarded under the qualified name.
\<close>

record 'f mcp_tool =
  mt_name :: "string option"
  mt_callables :: "'f patched list"

fun guard_first :: "string \<Rightarrow> 'f patched list \<Rightarrow> 'f patched list \<times> 'f patched option" where
  "guard_first name [] = ([], None)"
| "guard_first name (c # cs) =
     (if is_raw c then (guard_callable name c # cs, Some (guard_callable name c))
      else (let (cs', found) = guard_first name cs in (c # cs', found)))"

definition patch_mcp_tool :: "string \<Rightarrow> 'f mcp_tool \<Rightarrow> 'f guard_registry \<Rightarrow> 'f mcp_tool \<times> 'f guard_registry" where
  "patch_mcp_tool server_key t reg =
     (case mt_name t of
        None \<Rightarrow> (t, reg)
      | Some name \<Rightarrow>
          if name = [] then (t, reg)
          else (let qualified = ''mcp__'' @ server_key @ ''__'' @ name;
                    (cs, found) = guard_first qualified (mt_callables t)
                in case found of
                     None \<Rightarrow> (t, reg)
                   | Some c \<Rightarrow> (t\<lparr>mt_callables := cs\<rparr>, record_tool qualified c reg)))"

fun patch_mcp_tools :: "(string \<times> 'f mcp_tool) list \<Rightarrow> 'f guard_registry \<Rightarrow> (string \<times> 'f mcp_tool) list \<times> 'f guard_registry" where
  "patch_mcp_tools [] reg = ([], reg)"
| "patch_mcp_tools ((key, t) # ts) reg =
     (let (t', reg1) = patch_mcp_tool key t reg; (ts', reg2) = patch_mcp_tools ts reg1 in ((key, t') # ts', reg2))"

text \<open>Running a registered tool by hand, under a principal of its own when one is given.\<close>

definition guard_tool_exec ::
  "(string, session_var \<Rightarrow> pydict \<Rightarrow> pyval result) dict \<Rightarrow> string \<Rightarrow> string \<Rightarrow> pydict \<Rightarrow> principal option \<Rightarrow> session_var \<Rightarrow>
   pyval result \<times> session_var" where
  "guard_tool_exec reg fresh_id tool_name args p cur =
     (case map_of reg tool_name of
        None \<Rightarrow> (Inl (KeyError (''tool not registered in guard: '' @ repr_str tool_name)), cur)
      | Some fn \<Rightarrow>
          (case p of
             None \<Rightarrow> (fn cur args, cur)
           | Some q \<Rightarrow> session_scope fresh_id None (Some q) None None (\<lambda>session c. (fn c args, c)) cur))"

subsection \<open>What an adapter does with a decision\<close>

lemma ran_on_executed [simp]: "es_executed (ran_on ev p) = es_executed p @ [ev]"
  by (simp add: ran_on_def)

lemma result_not_run [simp]: "es_executed (handle_result ev p) = es_executed p"
  by (simp add: handle_result_def log_audit_def submit_graph_def)

lemma dispatched_not_run [simp]:
  "es_executed (dispatch_completed E ev v p) = es_executed p" "es_executed (dispatch_failed r ev e p) = es_executed p"
  by (simp_all add: dispatch_completed_def dispatch_failed_def Let_def)

lemma openai_run_executed [simp]: "es_executed (snd (openai_run env dumps fn args ev p)) = es_executed p @ [ev]"
  by (simp add: openai_run_def Let_def split: sum.split)

lemma claude_call_decided:
  assumes "handle_attempt (en_ext env) (en_now env) elapsed event p = (Inr (d, ev), p1)"
  shows "claude_refusal d name = Some e \<Longrightarrow> claude_call env r elapsed name fn args event p = (Inl e, p1)"
    and "claude_refusal d name = None \<Longrightarrow> collect_rewritten_args (en_ext env) d = Inr rewritten \<Longrightarrow>
      call_args = (case rewritten of Some a \<Rightarrow> a | None \<Rightarrow> args) \<Longrightarrow>
      fst (claude_call env r elapsed name fn args event p) = fn call_args \<and>
      es_executed (snd (claude_call env r elapsed name fn args event p)) = es_executed p1 @ [call_with_args ev call_args]"
  using assms by (auto simp: claude_call_def Let_def split: sum.split)

text \<open>Obligations that neither mask nor carry arguments leave the arguments alone.\<close>

lemma claude_rewrites_other:
  "\<forall>ob \<in> set obs. ob_kind ob \<noteq> ''mask_fields'' \<and> (ob_kind ob = ''rewrite_tool'' \<longrightarrow> map_of (ob_params ob) ''args'' = None) \<Longrightarrow>
   claude_rewrites E obs r = Inr r"
  by (induction obs) (auto simp: ob_get_def dict_getd_def)

lemma masked_keys: "map_of (foldl (\<lambda>r f. dict_set f c r) d ks) k = (if k \<in> set ks then Some c else map_of d k)"
  by (induction ks arbitrary: d) auto

lemma foldl_mask_strings:
  "foldl (\<lambda>r f. dict_set (py_str E f) c r) d (map VStr ks) = foldl (\<lambda>r f. dict_set f c r) d ks"
  by (induction ks arbitrary: d) auto

lemma claude_rewrites_mask:
  assumes "ob_kind ob = ''mask_fields''" and "map_of (ob_params ob) ''fields'' = Some (VList (map VStr ks))" and "ks \<noteq> []"
  shows "claude_rewrites E [ob] None = Inr (Some (foldl (\<lambda>r f. dict_set f (VStr ''[REDACTED]'') r) [] ks))"
  using assms
  by (simp add: ob_get_def dict_getd_def py_or_def claude_mask_def foldl_mask_strings Let_def)

lemma patched_functions:
  "(name, c) \<in> set (fst (patch_function_map tools reg)) \<Longrightarrow> \<not> is_raw c"
proof (induction tools reg rule: patch_function_map.induct)
  case (2 n x tools reg)
  then show ?case by (cases x) (auto simp: case_prod_beta Let_def)
qed simp

end
