(* ===== verification/Adapter_Properties.thy ===== *)
theory Adapter_Properties
  imports Sample Framework_Adapters
begin

text \<open>
  What the framework adapters keep of the guard's decisions: refusals are honoured by all that stand
  in front of a tool, degradations and redactions are not.
\<close>

subsection \<open>Refusals\<close>




text \<open>A call the policy hands to a language model waits in the Claude adapter and runs in the other two;
  when the attempt itself cannot be evaluated, the MCP tool and AutoGen raise while the hook for
  built-in tools and the OpenAI adapter, unless told otherwise, go ahead with the call.\<close>

theorem undecided_calls_by_adapter:
  assumes "handle_attempt (en_ext env) (en_now env) elapsed event p = (answer, p1)"
    and "case answer of Inl e \<Rightarrow> True | Inr (d, ev) \<Rightarrow> d_action d = LLM_CHECK \<and> d_obligations d = []"
  shows "es_executed (snd (claude_call env r elapsed name fn args event p)) = es_executed p1 \<and>
    es_executed (snd (openai_call env None None txt pid dumps elapsed fn args event p)) =
      es_executed p1 @ [case answer of Inl e \<Rightarrow> event | Inr (d, ev) \<Rightarrow> ev] \<and>
    es_executed (snd (autogen_call env None elapsed run_json jargs event p)) =
      es_executed p1 @ (case answer of Inl e \<Rightarrow> [] | Inr (d, ev) \<Rightarrow> [ev]) \<and>
    (\<exists>a. fst (claude_hook (en_ext env) (en_now env) elapsed input event p) = Inr a \<and>
      hook_runs_with input a = (case answer of Inl e \<Rightarrow> Some input | Inr _ \<Rightarrow> None))"
proof (cases answer)
  case (Inl e)
  with assms(1) show ?thesis
    by (simp add: claude_call_def openai_call_def autogen_call_def claude_hook_def hook_runs_with_def Let_def)
next
  case (Inr x)
  obtain d ev where x: "x = (d, ev)" by fastforce
  have "claude_refusal d name \<noteq> None" using assms(2) Inr x by (simp add: claude_refusal_def)
  with assms Inr x show ?thesis
    by (auto simp: claude_call_def openai_call_def openai_enforce_def autogen_call_def claude_hook_def hook_runs_with_def
        pipeline_mode_def Let_def)
qed

lemma llm_attempt:
  "\<exists>d ev p1. handle_attempt sample_ext 0 0 sample_event (sample_pipeline [sample_rule ''r'' ''shell.*'' LLM_CHECK]) = (Inr (d, ev), p1) \<and>
     d_action d = LLM_CHECK \<and> d_obligations d = []"
proof -
  have "(case fst (handle_attempt sample_ext 0 0 sample_event (sample_pipeline [sample_rule ''r'' ''shell.*'' LLM_CHECK])) of
      Inl e \<Rightarrow> None | Inr (d, ev) \<Rightarrow> Some (d_action d, d_obligations d)) = Some (LLM_CHECK, [])" by code_simp
  then show ?thesis
    by (cases "handle_attempt sample_ext 0 0 sample_event (sample_pipeline [sample_rule ''r'' ''shell.*'' LLM_CHECK])")
      (auto split: sum.splits)
qed

lemma undecided_calls_by_adapter_example:
  "\<exists>ev. es_executed (snd (autogen_call (sample_enf ''enforce'') None 0 (\<lambda>v. Inr v) VNone sample_event
     (sample_pipeline [sample_rule ''r'' ''shell.*'' LLM_CHECK]))) = [ev]"
proof -
  let ?p = "sample_pipeline [sample_rule ''r'' ''shell.*'' LLM_CHECK]"
  obtain d ev p1 where h: "handle_attempt sample_ext 0 0 sample_event ?p = (Inr (d, ev), p1)"
    "d_action d = LLM_CHECK" "d_obligations d = []" using llm_attempt by blast
  have "es_executed p1 = []" using handle_attempt_not_run [of sample_ext 0 0 sample_event ?p] by (simp add: h(1))
  moreover have a: "handle_attempt (en_ext (sample_enf ''enforce'')) (en_now (sample_enf ''enforce'')) 0 sample_event ?p = (Inr (d, ev), p1)"
    using h(1) by simp
  moreover have "case (Inr (d, ev) :: (decision \<times> runtime_event) result) of Inl e \<Rightarrow> True
      | Inr (d, ev) \<Rightarrow> d_action d = LLM_CHECK \<and> d_obligations d = []" by (simp add: h)
  ultimately show ?thesis
    using undecided_calls_by_adapter [OF a, of undefined "''shell.exec''" "\<lambda>_. Inr VNone" "[]" undefined undefined undefined
        "\<lambda>v. Inr v" VNone "[]"] by simp
qed

subsection \<open>Degradation\<close>

text \<open>C33: A degraded call runs undegraded through two adapters: the MCP tool runs with the caller's arguments
  unless an obligation masks fields or carries arguments, which the profile of a degrading rule does
  not, and AutoGen's \<open>run_json\<close> always does.\<close>

theorem degraded_calls_run_as_called:
  assumes "handle_attempt (en_ext env) (en_now env) elapsed event p = (Inr (d, ev), p1)" and "d_action d = DEGRADE"
    and "\<forall>ob \<in> set (d_obligations d). ob_kind ob \<noteq> ''mask_fields'' \<and>
      (ob_kind ob = ''rewrite_tool'' \<longrightarrow> map_of (ob_params ob) ''args'' = None)"
  shows "fst (claude_call env r elapsed name fn args event p) = fn args \<and>
    es_executed (snd (claude_call env r elapsed name fn args event p)) = es_executed p1 @ [call_with_args ev args] \<and>
    autogen_call env None elapsed run_json jargs event p = (run_json jargs, ran_on ev p1)"
proof -
  have "claude_refusal d name = None" using assms(2) by (simp add: claude_refusal_def)
  moreover have "collect_rewritten_args (en_ext env) d = Inr None"
    using assms(3) by (simp add: collect_rewritten_args_def claude_rewrites_other)
  ultimately show ?thesis
    using claude_call_decided(2) [OF assms(1), of name None args args r fn] assms(1,2)
    by (simp add: autogen_call_def Let_def)
qed

definition degrading_rule :: compiled_rule where
  "degrading_rule = (sample_rule ''r'' ''shell.*'' DEGRADE)\<lparr>cr_degrade_profile := Some ''shell.readonly''\<rparr>"

lemma degrading_attempt:
  "\<exists>d ev p1. handle_attempt sample_ext 0 0 sample_event (sample_pipeline [degrading_rule]) = (Inr (d, ev), p1) \<and>
     d_action d = DEGRADE \<and> d_obligations d =
       [\<lparr>ob_kind = ''rewrite_tool'', ob_params = [(''profile'', VStr ''shell.readonly''), (''rule_id'', VStr ''r'')]\<rparr>]"
proof -
  have "(case fst (handle_attempt sample_ext 0 0 sample_event (sample_pipeline [degrading_rule])) of
      Inl e \<Rightarrow> None | Inr (d, ev) \<Rightarrow> Some (d_action d, d_obligations d)) = Some (DEGRADE,
        [\<lparr>ob_kind = ''rewrite_tool'', ob_params = [(''profile'', VStr ''shell.readonly''), (''rule_id'', VStr ''r'')]\<rparr>])"
    by code_simp
  then show ?thesis
    by (cases "handle_attempt sample_ext 0 0 sample_event (sample_pipeline [degrading_rule])")
      (auto split: sum.splits)
qed

lemma degraded_calls_run_as_called_example:
  "fst (claude_call (sample_enf ''enforce'') (\<lambda>_. ''refused'') 0 ''shell.exec'' (\<lambda>args. Inr (VDict args)) (tc_args sample_call) sample_event
     (sample_pipeline [degrading_rule])) = Inr (VDict (tc_args sample_call))"
proof -
  obtain d ev p1 where h: "handle_attempt sample_ext 0 0 sample_event (sample_pipeline [degrading_rule]) = (Inr (d, ev), p1)"
    "d_action d = DEGRADE" "d_obligations d =
       [\<lparr>ob_kind = ''rewrite_tool'', ob_params = [(''profile'', VStr ''shell.readonly''), (''rule_id'', VStr ''r'')]\<rparr>]"
    using degrading_attempt by blast
  from degraded_calls_run_as_called [of "sample_enf ''enforce''" 0 sample_event "sample_pipeline [degrading_rule]" d ev p1] h
  show ?thesis by simp
qed

text \<open>Masking the fields of a call takes every other argument away in the Claude adapter: the tool gets
  the masked fields, whether the call had them or not, and nothing else, where the enforcer masks the
  fields that are there and keeps the rest.\<close>

theorem masking_drops_other_arguments:
  assumes "handle_attempt (en_ext env) (en_now env) elapsed event p = (Inr (d, ev), p1)" and "d_action d \<in> {ALLOW, DEGRADE}"
    and "d_obligations d = [ob]" and "ob_kind ob = ''mask_fields''"
    and "map_of (ob_params ob) ''fields'' = Some (VList (map VStr ks))" and "ks \<noteq> []" and "ev_tool_call ev = Some tc"
  shows "(\<exists>masked. fst (claude_call env r elapsed name fn args event p) = fn masked \<and>
      (\<forall>k. map_of masked k = (if k \<in> set ks then Some (VStr ''[REDACTED]'') else None))) \<and>
    (\<exists>tc'. apply_rewrites (en_ext env) (en_profiles env) ev d = Inr (Some tc') \<and>
      (\<forall>k. map_of (tc_args tc') k =
        (if k \<in> set ks \<and> k \<in> set (map fst (tc_args tc)) then Some (VStr redacted) else map_of (tc_args tc) k)))"
proof
  let ?m = "foldl (\<lambda>r f. dict_set f (VStr ''[REDACTED]'') r) [] ks"
  have "claude_refusal d name = None" using assms(2) by (auto simp: claude_refusal_def)
  moreover have "collect_rewritten_args (en_ext env) d = Inr (Some ?m)"
    using assms(3) claude_rewrites_mask [OF assms(4-6)] by (simp add: collect_rewritten_args_def)
  ultimately have "fst (claude_call env r elapsed name fn args event p) = fn ?m"
    using claude_call_decided(2) [OF assms(1), of name "Some ?m" ?m args r fn] by simp
  then show "\<exists>masked. fst (claude_call env r elapsed name fn args event p) = fn masked \<and>
      (\<forall>k. map_of masked k = (if k \<in> set ks then Some (VStr ''[REDACTED]'') else None))"
    using masked_keys [of "VStr ''[REDACTED]''" "[]" ks] by (intro exI [of _ ?m]) auto
  show "\<exists>tc'. apply_rewrites (en_ext env) (en_profiles env) ev d = Inr (Some tc') \<and>
      (\<forall>k. map_of (tc_args tc') k =
        (if k \<in> set ks \<and> k \<in> set (map fst (tc_args tc)) then Some (VStr redacted) else map_of (tc_args tc) k))"
    using assms(3,7) apply_mask_fields [OF assms(4-6), of "en_ext env" "en_profiles env" tc]
    by (simp add: apply_rewrites_def map_of_redact_fields)
qed

definition masking_rule :: compiled_rule where
  "masking_rule = (sample_rule ''r'' ''shell.*'' ALLOW)\<lparr>cr_obligations_ast :=
     [\<lparr>oa_kind = ''REDACT'', oa_args = [(''fields'', ASet [''token''])]\<rparr>]\<rparr>"

lemma masking_attempt:
  "\<exists>d ev p1 ob. handle_attempt sample_ext 0 0 sample_event (sample_pipeline [masking_rule]) = (Inr (d, ev), p1) \<and>
     d_action d = ALLOW \<and> d_obligations d = [ob] \<and> ob_kind ob = ''mask_fields'' \<and>
     map_of (ob_params ob) ''fields'' = Some (VList (map VStr [''token''])) \<and> ev_tool_call ev = Some sample_call"
proof -
  have "(case fst (handle_attempt sample_ext 0 0 sample_event (sample_pipeline [masking_rule])) of
      Inl e \<Rightarrow> None | Inr (d, ev) \<Rightarrow> Some (d_action d, map ob_kind (d_obligations d),
        map (\<lambda>ob. map_of (ob_params ob) ''fields'') (d_obligations d), ev_tool_call ev)) =
      Some (ALLOW, [''mask_fields''], [Some (VList [VStr ''token''])], Some sample_call)"
    by code_simp
  then show ?thesis
    by (cases "handle_attempt sample_ext 0 0 sample_event (sample_pipeline [masking_rule])")
      (auto split: sum.splits)
qed

lemma masking_drops_other_arguments_example:
  "\<exists>masked. fst (claude_call (sample_enf ''enforce'') (\<lambda>_. ''refused'') 0 ''shell.exec'' (\<lambda>args. Inr (VDict args)) (tc_args sample_call) sample_event
     (sample_pipeline [masking_rule])) = Inr (VDict masked) \<and> map_of masked ''cmd'' = None \<and>
     map_of masked ''token'' = Some (VStr ''[REDACTED]'')"
proof -
  obtain d ev p1 ob where h: "handle_attempt sample_ext 0 0 sample_event (sample_pipeline [masking_rule]) = (Inr (d, ev), p1)"
    "d_action d = ALLOW" "d_obligations d = [ob]" "ob_kind ob = ''mask_fields''"
    "map_of (ob_params ob) ''fields'' = Some (VList (map VStr [''token'']))" "ev_tool_call ev = Some sample_call"
    using masking_attempt by blast
  have "handle_attempt (en_ext (sample_enf ''enforce'')) (en_now (sample_enf ''enforce'')) 0 sample_event
      (sample_pipeline [masking_rule]) = (Inr (d, ev), p1)" using h(1) by simp
  from masking_drops_other_arguments [OF this _ h(3-5) _ h(6), of "\<lambda>_. ''refused''" "''shell.exec''" "\<lambda>args. Inr (VDict args)" "tc_args sample_call"] h(2)
  show ?thesis by force
qed

subsection \<open>Installing\<close>

text \<open>Attaching to an OpenAI agent with a list of tools guards every function tool and leaves every plain
  callable as it is: the guarded version is registered, but the agent keeps calling the raw one.\<close>

theorem openai_list_leaves_callables_raw:
  "list_all2 (\<lambda>t t'. case t of
       FunctionTool name c \<Rightarrow> \<exists>c'. t' = FunctionTool name c' \<and> \<not> is_raw c'
     | _ \<Rightarrow> t' = t) tools (fst (patch_openai_tools tools reg)) \<and>
   (\<forall>name f. BareCallable name (Raw f) \<in> set tools \<longrightarrow>
      BareCallable name (Raw f) \<in> set (fst (patch_openai_tools tools reg)) \<and>
      (\<exists>c. map_of (snd (patch_openai_tools tools reg)) name = Some c))"
proof
  show "list_all2 (\<lambda>t t'. case t of
       FunctionTool name c \<Rightarrow> \<exists>c'. t' = FunctionTool name c' \<and> \<not> is_raw c'
     | _ \<Rightarrow> t' = t) tools (fst (patch_openai_tools tools reg))"
  proof (induction tools arbitrary: reg)
    case (Cons t tools)
    have g: "\<not> is_raw (guard_callable n c)" for n and c :: "'a patched" by (cases c) simp_all
    show ?case using Cons g by (cases t) (auto simp: case_prod_beta Let_def)
  qed simp
  have kept: "map_of reg name \<noteq> None \<Longrightarrow> map_of (snd (patch_openai_tools ts reg)) name \<noteq> None" for ts reg and name :: string
  proof (induction ts arbitrary: reg)
    case (Cons t ts)
    then show ?case by (cases t) (auto simp: case_prod_beta Let_def record_tool_def)
  qed simp
  show "\<forall>name f. BareCallable name (Raw f) \<in> set tools \<longrightarrow>
      BareCallable name (Raw f) \<in> set (fst (patch_openai_tools tools reg)) \<and>
      (\<exists>c. map_of (snd (patch_openai_tools tools reg)) name = Some c)"
  proof (induction tools arbitrary: reg)
    case (Cons t tools)
    show ?case
    proof (intro allI impI)
      fix name and f :: 'a
      assume "BareCallable name (Raw f) \<in> set (t # tools)"
      then consider (here) "t = BareCallable name (Raw f)" | (later) "BareCallable name (Raw f) \<in> set tools" by auto
      then show "BareCallable name (Raw f) \<in> set (fst (patch_openai_tools (t # tools) reg)) \<and>
          (\<exists>c. map_of (snd (patch_openai_tools (t # tools) reg)) name = Some c)"
      proof cases
        case here
        then show ?thesis using kept [of "record_tool name (guard_callable name (Raw f)) reg" name tools]
          by (auto simp: case_prod_beta Let_def record_tool_def)
      next
        case later
        then show ?thesis using Cons by (cases t) (auto simp: case_prod_beta Let_def)
      qed
    qed
  qed simp
qed

text \<open>Attaching to a LangChain agent a second time wraps \<open>invoke\<close> around the function that the first time
  has guarded, so every call of such a tool is evaluated twice from then on.\<close>

theorem second_attach_guards_twice:
  assumes "raw_of (lt_func t)" and "lt_coroutine t = None" and "lt_invoke t = Some (Raw g)"
    and "patch_langchain_tool t reg = (t1, reg1)" and "patch_langchain_tool t1 reg1 = (t2, reg2)"
  shows "lt_invoke t1 = Some (Raw g) \<and> \<not> raw_of (lt_func t1) \<and>
    lt_func t2 = lt_func t1 \<and> lt_invoke t2 = Some (Guarded (lt_name t) g)"
proof -
  obtain f where f: "lt_func t = Some (Raw f)" using assms(1) by (auto simp: raw_of_def split: option.splits elim: is_raw.elims)
  then have "t1 = t\<lparr>lt_func := Some (Guarded (lt_name t) f)\<rparr>"
    using assms(2,4) by (simp add: patch_langchain_tool_def raw_of_def Let_def)
  then show ?thesis using assms(2,3,5) by (auto simp: patch_langchain_tool_def raw_of_def Let_def)
qed

lemma second_attach_guards_twice_example:
  "\<exists>t2 reg2. (case patch_langchain_tool \<lparr>lt_name = ''t'', lt_func = Some (Raw ''f''), lt_coroutine = None,
     lt_invoke = Some (Raw ''g'')\<rparr> [] of (t1, reg1) \<Rightarrow> patch_langchain_tool t1 reg1) = (t2, reg2) \<and>
     lt_invoke t2 = Some (Guarded ''t'' ''g'')"
proof -
  let ?t = "\<lparr>lt_name = ''t'', lt_func = Some (Raw ''f''), lt_coroutine = None, lt_invoke = Some (Raw ''g'')\<rparr>"
  obtain t1 reg1 where 1: "patch_langchain_tool ?t [] = (t1, reg1)" by fastforce
  obtain t2 reg2 where 2: "patch_langchain_tool t1 reg1 = (t2, reg2)" by fastforce
  have "raw_of (lt_func ?t)" "lt_coroutine ?t = None" "lt_invoke ?t = Some (Raw ''g'')" by (simp_all add: raw_of_def)
  from second_attach_guards_twice [OF this 1 2] have "lt_invoke t2 = Some (Guarded ''t'' ''g'')" by simp
  then show ?thesis by (simp only: 1 2 prod.case) simp
qed

subsection \<open>Watching Dify\<close>

text \<open>The Dify adapter cannot build an event for a tool whose name says file or database: its sinks are not
  those of the event model.  The error ends the stream it watches, before the event is handed on.\<close>

theorem dify_stream_ends_at_file_tools:
  assumes "dt_tool ev = Some tool" and "sink_by_prefix dify_sinks tool \<in> {''fs'', ''db''}"
    and "observe = (\<lambda>e. dify_observe E now elapsed json mode stop cur eid ts meth pay e)"
  shows "dify_stream observe (ev # evs) st = (([], Some (ExternalError ''ValidationError'')), st)"
proof -
  have "sink_of (sink_by_prefix dify_sinks tool) = Inl (ExternalError ''ValidationError'')"
    using assms(2) by (auto simp: sink_of_def)
  moreover have "tool \<noteq> []" using assms(2) by (auto simp: sink_by_prefix_def dify_sinks_def starts_with_def)
  ultimately have "observe ev st = (Inl (ExternalError ''ValidationError''), st)"
    using assms(1,3) by (simp add: dify_observe_def dify_event_def case_prod_beta Let_def)
  then show ?thesis by simp
qed

lemma dify_stream_ends_at_file_tools_example:
  "fst (dify_stream (\<lambda>e. dify_observe sample_ext 0 0 (\<lambda>_. Inr VNone) ''enforce'' True None ''e'' 0 ''chat''
       \<lparr>dp_user = None, dp_conversation_id = None, dp_app_id = None\<rparr> e)
     [\<lparr>dt_tool = Some ''file.read'', dt_tool_input = None, dt_conversation_id = None, dt_task_id = None,
        dt_observation = VNone, dt_app_id = None\<rparr>] ([], sample_pipeline [])) = ([], Some (ExternalError ''ValidationError''))"
proof -
  let ?ev = "\<lparr>dt_tool = Some ''file.read'', dt_tool_input = None, dt_conversation_id = None, dt_task_id = None,
        dt_observation = VNone, dt_app_id = None\<rparr>"
  have "sink_by_prefix dify_sinks ''file.read'' \<in> {''fs'', ''db''}" by code_simp
  show ?thesis by (subst dify_stream_ends_at_file_tools [where tool = "''file.read''", OF _ \<open>sink_by_prefix dify_sinks ''file.read'' \<in> {''fs'', ''db''}\<close> refl]) simp_all
qed

end
