(* ===== verification/Pack_Config.thy ===== *)
theory Pack_Config
  imports Guard_Rules
begin

text \<open>
  Configurations of rule packs (\<open>policy/rules/pack_loader.py\<close>): from the parsed file to packs and
  bindings, with every shape error.  Reading YAML and JSON and resolving paths are parameters;
  mappings have strings as keys.
\<close>

subsection \<open>Reading\<close>

text \<open>A YAML reader, when the package is installed, and the JSON reader of the standard library.\<close>

record config_readers =
  rd_yaml :: "(string \<Rightarrow> pyval result) option"
  rd_json :: "string \<Rightarrow> pyval result"
  rd_resolve :: "string \<Rightarrow> string \<Rightarrow> string"

definition or_empty :: "pyval \<Rightarrow> pyval" where
  "or_empty v = py_or v (VDict [])"

definition load_json :: "config_readers \<Rightarrow> string \<Rightarrow> pyval result" where
  "load_json R text_in = rd_json R (if text_in = [] then ''{}'' else text_in)"

definition load_raw :: "config_readers \<Rightarrow> string \<Rightarrow> string \<Rightarrow> pydict result" where
  "load_raw R ext text_in =
     ebind (if ext = ''.yaml'' \<or> ext = ''.yml'' then
              (case rd_yaml R of
                 None \<Rightarrow> Inl (ExternalError ''RuntimeError'')
               | Some yaml \<Rightarrow> ebind (yaml text_in) (\<lambda>v. Inr (or_empty v)))
            else if ext = ''.json'' then load_json R text_in
            else (case rd_yaml R of
                    None \<Rightarrow> load_json R text_in
                  | Some yaml \<Rightarrow> (case yaml text_in of Inl e \<Rightarrow> load_json R text_in | Inr v \<Rightarrow> Inr (or_empty v))))
       (\<lambda>data. case data of VDict d \<Rightarrow> Inr d | _ \<Rightarrow> Inl ValueError)"

subsection \<open>Shapes\<close>

definition mapping_of :: "pyval \<Rightarrow> pydict result" where
  "mapping_of v = (case or_empty v of VDict d \<Rightarrow> Inr d | _ \<Rightarrow> Inl ValueError)"

text \<open>One string stands for the list of itself; anything else that can be iterated is taken as strings.\<close>

definition strings_of :: "externals \<Rightarrow> pyval \<Rightarrow> string list result" where
  "strings_of E v =
     (let given = py_or v (VList []); items = (case given of VStr s \<Rightarrow> VList [VStr s] | _ \<Rightarrow> given)
      in case py_iter items of Inl e \<Rightarrow> Inl ValueError | Inr xs \<Rightarrow> Inr (map (py_str E) xs))"

definition entry_strings :: "externals \<Rightarrow> string \<Rightarrow> string \<times> pyval \<Rightarrow> (string \<times> string list) result" where
  "entry_strings E field x =
     (case snd x of
        VDict spec \<Rightarrow> ebind (strings_of E (dict_getd spec field VNone)) (\<lambda>ss. Inr (fst x, ss))
      | _ \<Rightarrow> Inl ValueError)"

definition parse_pack_config :: "externals \<Rightarrow> (string \<Rightarrow> string) \<Rightarrow> pydict \<Rightarrow> pack_config result" where
  "parse_pack_config E abs_path raw =
     ebind (mapping_of (dict_getd raw ''packs'' VNone)) (\<lambda>packs.
     ebind (emap (entry_strings E ''sources'') packs) (\<lambda>specs.
     ebind (mapping_of (dict_getd raw ''bindings'' VNone)) (\<lambda>bindings.
     ebind (emap (entry_strings E ''packs'') bindings) (\<lambda>bound.
       Inr \<lparr>pc_packs = map (\<lambda>(pid, sources). (pid, map abs_path sources)) specs, pc_bindings = bound\<rparr>))))"

text \<open>A file is its suffix, its directory and its text; a missing one raises.\<close>

definition load_rule_pack_config ::
  "externals \<Rightarrow> config_readers \<Rightarrow> (string \<Rightarrow> (string \<times> string \<times> string) option) \<Rightarrow> string \<Rightarrow> pack_config result" where
  "load_rule_pack_config E R file path =
     (case file path of
        None \<Rightarrow> Inl (ExternalError ''FileNotFoundError'')
      | Some (ext, base, text_in) \<Rightarrow>
          ebind (load_raw R (str_lower ext) text_in) (parse_pack_config E (rd_resolve R base)))"

definition apply_config_file ::
  "externals \<Rightarrow> file_system \<Rightarrow> config_readers \<Rightarrow> (string \<Rightarrow> (string \<times> string \<times> string) option) \<Rightarrow> string \<Rightarrow>
   guard_rules \<Rightarrow> pack_config result \<times> guard_rules" where
  "apply_config_file E fs R file path g =
     (case load_rule_pack_config E R file path of
        Inl e \<Rightarrow> (Inl e, g)
      | Inr cfg \<Rightarrow>
          (case apply_rule_pack_config E fs cfg g of (Inl e, g') \<Rightarrow> (Inl e, g') | (Inr _, g') \<Rightarrow> (Inr cfg, g')))"

subsection \<open>The type of a configuration\<close>

text \<open>Absent and false values count as empty.\<close>

definition typed_strings :: "pyval \<Rightarrow> bool" where
  "typed_strings v \<longleftrightarrow> \<not> py_bool v \<or> (case v of
     VStr _ \<Rightarrow> True | VList _ \<Rightarrow> True | VTuple _ \<Rightarrow> True | VSet _ \<Rightarrow> True | VDict _ \<Rightarrow> True | _ \<Rightarrow> False)"

definition typed_entries :: "string \<Rightarrow> pyval \<Rightarrow> bool" where
  "typed_entries field v \<longleftrightarrow> \<not> py_bool v \<or> (case v of
     VDict d \<Rightarrow> \<forall>(k, spec) \<in> set d. (case spec of VDict s \<Rightarrow> typed_strings (dict_getd s field VNone) | _ \<Rightarrow> False)
   | _ \<Rightarrow> False)"

lemma strings_of_typed: "(\<exists>ss. strings_of E v = Inr ss) \<longleftrightarrow> typed_strings v"
  by (cases v) (auto simp: strings_of_def typed_strings_def py_or_def Let_def)

lemma emap_ok_iff: "(\<exists>ys. emap f xs = Inr ys) \<longleftrightarrow> (\<forall>x \<in> set xs. \<exists>y. f x = Inr y)"
proof (induction xs)
  case (Cons x xs)
  then show ?case by (cases "f x") (auto simp: ebind_Inr_iff)
qed simp

lemma entry_typed: "(\<exists>y. entry_strings E field x = Inr y) \<longleftrightarrow>
    (case snd x of VDict s \<Rightarrow> typed_strings (dict_getd s field VNone) | _ \<Rightarrow> False)"
  by (cases "snd x") (auto simp: entry_strings_def strings_of_typed [of E, symmetric] ebind_Inr_iff)

lemma entries_typed:
  "(\<exists>d ys. mapping_of v = Inr d \<and> emap (entry_strings E field) d = Inr ys) \<longleftrightarrow> typed_entries field v"
proof -
  have shape: "(\<exists>ys. emap (entry_strings E field) d = Inr ys) \<longleftrightarrow>
      (\<forall>(k, spec) \<in> set d. (case spec of VDict s \<Rightarrow> typed_strings (dict_getd s field VNone) | _ \<Rightarrow> False))" for d
    unfolding emap_ok_iff entry_typed by (simp add: case_prod_beta)
  show ?thesis
    using shape by (cases v) (simp_all add: mapping_of_def or_empty_def py_or_def typed_entries_def)
qed

lemma parse_typed:
  "(\<exists>cfg. parse_pack_config E abs_path raw = Inr cfg) \<longleftrightarrow>
     typed_entries ''sources'' (dict_getd raw ''packs'' VNone) \<and> typed_entries ''packs'' (dict_getd raw ''bindings'' VNone)"
  unfolding entries_typed [of _ E, symmetric] by (auto simp: parse_pack_config_def ebind_Inr_iff)

end
