(* ===== verification/Llm_Backend.thy ===== *)
theory Llm_Backend
  imports Enforcer
begin

text \<open>
  The backend for language models (\<open>llm/backend.py\<close>): which provider is chosen, what is sent to it and
  how its answer is normalised; and the reports on audit records (\<open>audit/replay.py\<close>,
  \<open>audit/explain.py\<close>).  The providers' packages and servers are parameters, as are JSON and formatting.
\<close>

subsection \<open>Backends\<close>

text \<open>What is installed.\<close>

record installed =
  in_litellm :: bool
  in_openai :: bool
  in_zai :: bool

record llm_backend =
  lm_model :: string
  lm_api_key :: string
  lm_base_url :: "string option"
  lm_prefer_litellm :: bool
  lm_use_litellm :: bool
  lm_temperature :: rat
  lm_max_tokens :: int

definition new_backend :: "installed \<Rightarrow> string \<Rightarrow> string \<Rightarrow> string option \<Rightarrow> bool \<Rightarrow> llm_backend" where
  "new_backend inst model key base prefer = \<lparr>lm_model = model, lm_api_key = key, lm_base_url = base,
     lm_prefer_litellm = prefer, lm_use_litellm = (prefer \<and> in_litellm inst), lm_temperature = 1/10,
     lm_max_tokens = 2048\<rparr>"

definition zhipuai_backend :: "installed \<Rightarrow> string \<Rightarrow> string \<Rightarrow> bool \<Rightarrow> llm_backend" where
  "zhipuai_backend inst key model prefer =
     (if prefer \<and> in_litellm inst \<and> in_zai inst
      then new_backend inst (if starts_with model ''zai/'' then model else ''zai/'' @ model) key None True
      else new_backend inst model key (Some ''https://open.bigmodel.cn/api/paas/v4/'') False)"

definition ollama_backend :: "installed \<Rightarrow> string \<Rightarrow> string \<Rightarrow> llm_backend" where
  "ollama_backend inst model base = new_backend inst model ''ollama'' (Some base) False"

definition env_get :: "(string \<Rightarrow> string option) \<Rightarrow> string \<Rightarrow> string \<Rightarrow> string" where
  "env_get env name d = (case env name of None \<Rightarrow> d | Some v \<Rightarrow> v)"

definition backend_from_env :: "installed \<Rightarrow> (string \<Rightarrow> string option) \<Rightarrow> bool \<Rightarrow> llm_backend result" where
  "backend_from_env inst env prefer =
     (let model = env_get env ''AGENTGUARD_LLM_MODEL'' ''gpt-4o-mini''; key = env_get env ''AGENTGUARD_LLM_API_KEY'' [];
          base = (case env ''AGENTGUARD_LLM_BASE_URL'' of None \<Rightarrow> None | Some u \<Rightarrow> if u = [] then None else Some u);
          backend = str_lower (env_get env ''AGENTGUARD_LLM_BACKEND'' []);
          use_litellm = (if backend = ''openai'' then False
                         else if backend = ''litellm'' then True else prefer \<and> in_litellm inst)
      in if \<not> use_litellm \<and> \<not> in_openai inst
         then (if \<not> in_litellm inst then Inl (ExternalError ''RuntimeError'')
               else Inr (new_backend inst model key base True))
         else Inr (new_backend inst model key base use_litellm))"

subsection \<open>Chat\<close>

datatype provider = Litellm | OpenaiDirect

record chat_request =
  cq_provider :: provider
  cq_model :: string
  cq_messages :: "pydict list"
  cq_tools :: "pydict list"
  cq_api_key :: "string option"
  cq_base_url :: "string option"
  cq_temperature :: rat
  cq_max_tokens :: int

text \<open>Tools, and with them the choice \<open>auto\<close>, are sent only when there are any.\<close>

definition tool_choice :: "chat_request \<Rightarrow> string option" where
  "tool_choice q = (if cq_tools q = [] then None else Some ''auto'')"

definition chat_litellm_request :: "llm_backend \<Rightarrow> pydict list \<Rightarrow> pydict list \<Rightarrow> chat_request" where
  "chat_litellm_request b messages tools = \<lparr>cq_provider = Litellm, cq_model = lm_model b, cq_messages = messages,
     cq_tools = tools, cq_api_key = (if lm_api_key b = [] then None else Some (lm_api_key b)),
     cq_base_url = (if lm_base_url b = Some [] then None else lm_base_url b),
     cq_temperature = lm_temperature b, cq_max_tokens = lm_max_tokens b\<rparr>"

definition chat_openai_request :: "llm_backend \<Rightarrow> pydict list \<Rightarrow> pydict list \<Rightarrow> chat_request" where
  "chat_openai_request b messages tools = \<lparr>cq_provider = OpenaiDirect, cq_model = lm_model b, cq_messages = messages,
     cq_tools = tools, cq_api_key = Some (if lm_api_key b = [] then ''no-key'' else lm_api_key b),
     cq_base_url = lm_base_url b, cq_temperature = lm_temperature b, cq_max_tokens = lm_max_tokens b\<rparr>"

text \<open>A provider's message: its text, its tool calls with arguments as text, why it ended.\<close>

record provider_message =
  pm_content :: "string option"
  pm_tool_calls :: "(string \<times> string \<times> string) list"
  pm_finish_reason :: "string option"

record tool_call_request =
  tr_call_id :: string
  tr_name :: string
  tr_arguments :: pyval

record chat_response =
  ch_content :: "string option"
  ch_tool_calls :: "tool_call_request list"
  ch_finish_reason :: string

definition has_tool_calls :: "chat_response \<Rightarrow> bool" where
  "has_tool_calls r \<longleftrightarrow> ch_tool_calls r \<noteq> []"

definition parse_arguments :: "(string \<Rightarrow> pyval result) \<Rightarrow> string \<Rightarrow> pyval" where
  "parse_arguments json raw = (case json (if raw = [] then ''{}'' else raw) of Inl e \<Rightarrow> VDict [] | Inr v \<Rightarrow> v)"

text \<open>No choice at all is an index error.\<close>

definition parse_openai_response :: "(string \<Rightarrow> pyval result) \<Rightarrow> provider_message list \<Rightarrow> chat_response result" where
  "parse_openai_response json choices =
     (case choices of
        [] \<Rightarrow> Inl (ExternalError ''IndexError'')
      | m # _ \<Rightarrow>
          Inr \<lparr>ch_content = pm_content m,
               ch_tool_calls = map (\<lambda>(i, n, raw). \<lparr>tr_call_id = i, tr_name = n, tr_arguments = parse_arguments json raw\<rparr>)
                 (pm_tool_calls m),
               ch_finish_reason = (case pm_finish_reason m of None \<Rightarrow> ''stop'' | Some r \<Rightarrow> str_or r ''stop'')\<rparr>)"

text \<open>Importing a package that is not installed raises at the call.\<close>

definition chat ::
  "installed \<Rightarrow> (chat_request \<Rightarrow> provider_message list result) \<Rightarrow> (string \<Rightarrow> pyval result) \<Rightarrow> llm_backend \<Rightarrow>
   pydict list \<Rightarrow> pydict list \<Rightarrow> chat_response result" where
  "chat inst send json b messages tools =
     (if lm_use_litellm b
      then (if \<not> in_litellm inst then Inl (ExternalError ''ImportError'')
            else ebind (send (chat_litellm_request b messages tools)) (parse_openai_response json))
      else (if \<not> in_openai inst then Inl (ExternalError ''ImportError'')
            else ebind (send (chat_openai_request b messages tools)) (parse_openai_response json)))"

text \<open>A backend as the reviewer the enforcer asks.\<close>

definition review_chat :: "string \<times> string \<Rightarrow> pydict list" where
  "review_chat m = [[(''role'', VStr ''system''), (''content'', VStr (fst m))], [(''role'', VStr ''user''), (''content'', VStr (snd m))]]"

definition reviewer ::
  "externals \<Rightarrow> string \<Rightarrow> string \<Rightarrow> installed \<Rightarrow> (chat_request \<Rightarrow> provider_message list result) \<Rightarrow>
   (string \<Rightarrow> pyval result) \<Rightarrow> llm_backend \<Rightarrow> runtime_event \<Rightarrow> decision \<Rightarrow> string option result" where
  "reviewer E review_system env_text inst send json b ev d =
     ebind (chat inst send json b (review_chat (build_review_messages E review_system env_text ev d)) [])
       (\<lambda>r. Inr (ch_content r))"

lemma use_litellm_installed: "lm_use_litellm (new_backend inst m k u p) \<Longrightarrow> in_litellm inst"
  by (simp add: new_backend_def)

lemma from_env_cases:
  "backend_from_env inst env prefer = Inr b \<Longrightarrow>
     if lm_use_litellm b then in_litellm inst
     else in_openai inst \<or> (\<not> in_litellm inst \<and> str_lower (env_get env ''AGENTGUARD_LLM_BACKEND'' []) = ''litellm'')"
  by (auto simp: backend_from_env_def new_backend_def Let_def split: if_splits)

subsection \<open>Reports\<close>

text \<open>Replaying records: the event, the old decision and the new one, when there is an evaluator.\<close>

definition replay_events ::
  "(runtime_event \<Rightarrow> decision option) option \<Rightarrow> (runtime_event option \<times> decision option) list \<Rightarrow>
   (runtime_event \<times> decision option \<times> decision option) list" where
  "replay_events evaluator records =
     List.map_filter (\<lambda>(ev, old). map_option (\<lambda>e. (e, old, case evaluator of None \<Rightarrow> None | Some f \<Rightarrow> f e)) ev) records"

definition explain_decision :: "externals \<Rightarrow> runtime_event \<Rightarrow> decision \<Rightarrow> string" where
  "explain_decision E ev d =
     (let tool = (case ev_tool_call ev of Some tc \<Rightarrow> tc_tool_name tc | None \<Rightarrow> ''unknown''); p = ev_principal ev;
          lines = [''Tool: '' @ tool,
              ''Agent: '' @ p_agent_id p @ '' (role='' @ p_role p @ '', trust='' @ str_of_int (p_trust_level p) @ '')'',
              (case p_user_id p of Some u \<Rightarrow> ''User ID: '' @ u | None \<Rightarrow> ''User ID: <none>''),
              ''Decision: '' @ action_value (d_action d),
              ''Risk Score: '' @ float_repr E (d_risk_score d)] @
            (if d_matched_rules d = [] then [] else [''Matched Rules: '' @ str_join '', '' (d_matched_rules d)]) @
            (if d_reason d = [] then [] else [''Reason: '' @ d_reason d]) @
            (case d_degrade_profile d of None \<Rightarrow> [] | Some g \<Rightarrow> if g = [] then [] else [''Degrade Profile: '' @ g]) @
            (if d_obligations d = [] then []
             else [''Obligations: '' @ str_join ''; '' (map (\<lambda>ob. ob_kind ob @ ''('' @ py_repr E (VDict (ob_params ob)) @ '')'') (d_obligations d))])
      in str_join nl lines)"

lemma length_replay:
  "map (\<lambda>(e, old, new). e) (replay_events f records) = List.map_filter fst records"
  by (induction records) (auto simp: replay_events_def List.map_filter_simps split: option.split)

end
