(* ===== verification/Support_Properties.thy ===== *)
theory Support_Properties
  imports Sample Pack_Config Llm_Backend
begin

text \<open>What configurations of rule packs and backends for language models are checked for.\<close>


text \<open>Where the environment asks for a package that is not installed and the other one is missing too, a
  backend is built all the same; every review with it fails at the call and asks a human.\<close>

theorem missing_backend_escalates:
  assumes "\<not> in_litellm inst" and "\<not> in_openai inst"
    and "str_lower (env_get env ''AGENTGUARD_LLM_BACKEND'' []) = ''litellm''"
  shows "\<exists>b. backend_from_env inst env prefer = Inr b \<and>
    (en_llm e = Some (reviewer E sys env_text inst send json b) \<longrightarrow>
       d_action (resolve_llm_check_decision e ev d) = HUMAN_CHECK)"
proof -
  define b where "b = new_backend inst (env_get env ''AGENTGUARD_LLM_MODEL'' ''gpt-4o-mini'') (env_get env ''AGENTGUARD_LLM_API_KEY'' [])
    (case env ''AGENTGUARD_LLM_BASE_URL'' of None \<Rightarrow> None | Some u \<Rightarrow> if u = [] then None else Some u) True"
  have b: "backend_from_env inst env prefer = Inr b"
    using assms by (simp add: backend_from_env_def b_def Let_def)
  obtain x where "reviewer E sys env_text inst send json b ev d = Inl x"
    using assms(2) by (simp add: reviewer_def chat_def b_def new_backend_def assms(1))
  then have "d_action (resolve_llm_check_decision e ev d) = HUMAN_CHECK"
    if "en_llm e = Some (reviewer E sys env_text inst send json b)"
    using that by (simp add: resolve_llm_check_decision_def review_verdict_def Let_def)
  with b show ?thesis by blast
qed

lemma missing_backend_escalates_example:
  "\<exists>b. backend_from_env \<lparr>in_litellm = False, in_openai = False, in_zai = False\<rparr>
     (\<lambda>n. if n = ''AGENTGUARD_LLM_BACKEND'' then Some ''LiteLLM'' else None) True = Inr b"
proof -
  let ?i = "\<lparr>in_litellm = False, in_openai = False, in_zai = False\<rparr>"
  let ?e = "\<lambda>n. if n = ''AGENTGUARD_LLM_BACKEND'' then Some ''LiteLLM'' else None"
  have "str_lower (env_get ?e ''AGENTGUARD_LLM_BACKEND'' []) = ''litellm''" by code_simp
  from missing_backend_escalates [OF _ _ this, of ?i True] show ?thesis by simp blast
qed

end
