(* ===== verification/Redis_Cache.thy ===== *)
theory Redis_Cache
  imports Session_Store Degrade
begin

text \<open>
  The Redis implementation of the state cache (\<open>storage/redis_state_cache.py\<close>).  The client library
  and the server are a parameter: it runs a transaction, a list of commands, on the server's state at
  a time and answers with the replies or raises.  What the documentation of Redis says about the
  commands is written down as the function \<open>redis_run\<close>; a client that behaves like it makes the
  traces, sets and recent tools of this cache the ones of the cache in memory.  JSON, of Python and of
  the Lua script, is a parameter as well.
\<close>

subsection \<open>Commands\<close>

datatype redis_command =
    GET string
  | SETV string string
  | SETPX string string int
  | SADD string "string list"
  | SMEMBERS string
  | LPUSH string string
  | RPUSH string string
  | LTRIM string int int
  | LRANGE string int int
  | LLEN string
  | LINDEX string nat
  | LSET string nat string
  | DEL "string list"

datatype redis_reply = RNil | RStatus | RInt int | RBulk string | RArray "string list" | RMembers "string set"

text \<open>\<open>rv_dumps\<close> is \<open>json.dumps\<close>, \<open>rv_dumps_str\<close> the same with \<open>default=str\<close>, and the last two are \<open>cjson\<close>.\<close>

record 'r redis_env =
  rv_exec :: "rat \<Rightarrow> redis_command list \<Rightarrow> 'r \<Rightarrow> redis_reply list result \<times> 'r"
  rv_scan :: "rat \<Rightarrow> nat \<Rightarrow> string \<Rightarrow> 'r \<Rightarrow> (nat \<times> string list) result \<times> 'r"
  rv_dumps :: "pyval \<Rightarrow> string result"
  rv_dumps_str :: "pyval \<Rightarrow> string result"
  rv_loads :: "string \<Rightarrow> pyval result"
  rv_lua_decode :: "string \<Rightarrow> pyval result"
  rv_lua_encode :: "pyval \<Rightarrow> string result"

definition redis_do :: "'r redis_env \<Rightarrow> rat \<Rightarrow> redis_command list \<Rightarrow> 'r \<Rightarrow> unit result \<times> 'r" where
  "redis_do V now cs r = (let (answer, r1) = rv_exec V now cs r in (ebind answer (\<lambda>_. Inr ()), r1))"

definition redis_ask :: "'r redis_env \<Rightarrow> rat \<Rightarrow> redis_command \<Rightarrow> 'r \<Rightarrow> redis_reply result \<times> 'r" where
  "redis_ask V now c r = (let (answer, r1) = rv_exec V now [c] r in
     (ebind answer (\<lambda>xs. Inr (case xs of [] \<Rightarrow> RNil | x # _ \<Rightarrow> x)), r1))"

subsection \<open>Values, sets and newest-first lists\<close>

definition redis_get :: "'r redis_env \<Rightarrow> rat \<Rightarrow> string \<Rightarrow> 'r \<Rightarrow> string option result \<times> 'r" where
  "redis_get V now key r = (let (a, r1) = redis_ask V now (GET key) r in
     (ebind a (\<lambda>x. Inr (case x of RBulk s \<Rightarrow> Some s | _ \<Rightarrow> None)), r1))"

definition redis_set :: "'r redis_env \<Rightarrow> rat \<Rightarrow> string \<Rightarrow> string \<Rightarrow> int option \<Rightarrow> 'r \<Rightarrow> unit result \<times> 'r" where
  "redis_set V now key v ttl_ms r =
     (case ttl_ms of
        None \<Rightarrow> redis_do V now [SETV key v] r
      | Some t \<Rightarrow> if t \<noteq> 0 then redis_do V now [SETPX key v t] r else redis_do V now [SETV key v] r)"

definition redis_sadd :: "'r redis_env \<Rightarrow> rat \<Rightarrow> string \<Rightarrow> string list \<Rightarrow> 'r \<Rightarrow> unit result \<times> 'r" where
  "redis_sadd V now key ms r = (if ms = [] then (Inr (), r) else redis_do V now [SADD key ms] r)"

definition redis_smembers :: "'r redis_env \<Rightarrow> rat \<Rightarrow> string \<Rightarrow> 'r \<Rightarrow> string set result \<times> 'r" where
  "redis_smembers V now key r = (let (a, r1) = redis_ask V now (SMEMBERS key) r in
     (ebind a (\<lambda>x. Inr (case x of RMembers s \<Rightarrow> s | _ \<Rightarrow> {})), r1))"

definition redis_lpush_capped ::
  "'r redis_env \<Rightarrow> rat \<Rightarrow> string \<Rightarrow> string \<Rightarrow> int \<Rightarrow> 'r \<Rightarrow> unit result \<times> 'r" where
  "redis_lpush_capped V now key v cap r = redis_do V now [LPUSH key v, LTRIM key 0 (max (cap - 1) 0)] r"

definition array_of :: "redis_reply \<Rightarrow> string list" where
  "array_of x = (case x of RArray xs \<Rightarrow> xs | _ \<Rightarrow> [])"

definition redis_lrange :: "'r redis_env \<Rightarrow> rat \<Rightarrow> string \<Rightarrow> int \<Rightarrow> int \<Rightarrow> 'r \<Rightarrow> string list result \<times> 'r" where
  "redis_lrange V now key start stop r = (let (a, r1) = redis_ask V now (LRANGE key start stop) r in
     (ebind a (\<lambda>x. Inr (array_of x)), r1))"

subsection \<open>Traces\<close>

definition redis_append_trace ::
  "'r redis_env \<Rightarrow> rat \<Rightarrow> string \<Rightarrow> string \<times> int \<Rightarrow> int \<Rightarrow> 'r \<Rightarrow> unit result \<times> 'r" where
  "redis_append_trace V now key entry cap r =
     (case rv_dumps V (VList [VStr (fst entry), VInt (snd entry)]) of
        Inl e \<Rightarrow> (Inl e, r)
      | Inr encoded \<Rightarrow> redis_do V now [RPUSH key encoded, LTRIM key (- cap) (-1)] r)"

text \<open>An entry that does not unpack to a tool and a number is left out.\<close>

definition redis_entry :: "'r redis_env \<Rightarrow> string \<Rightarrow> (pyval \<times> int) list" where
  "redis_entry V raw =
     (case ebind (ebind (rv_loads V raw) py_iter) (\<lambda>xs. case xs of
          [tool, ts] \<Rightarrow> ebind (py_int ts) (\<lambda>n. Inr (tool, n)) | _ \<Rightarrow> Inl ValueError) of
        Inl _ \<Rightarrow> [] | Inr p \<Rightarrow> [p])"

definition redis_read_trace :: "'r redis_env \<Rightarrow> rat \<Rightarrow> string \<Rightarrow> 'r \<Rightarrow> (pyval \<times> int) list result \<times> 'r" where
  "redis_read_trace V now key r = (let (a, r1) = redis_ask V now (LRANGE key 0 (-1)) r in
     (ebind a (\<lambda>x. Inr (concat (map (redis_entry V) (array_of x)))), r1))"

definition json_error :: "py_exc \<Rightarrow> bool" where
  "json_error e \<longleftrightarrow> e = TypeError \<or> e = ValueError"

definition redis_append_trace_rich ::
  "'r redis_env \<Rightarrow> rat \<Rightarrow> string \<Rightarrow> pydict \<Rightarrow> int \<Rightarrow> 'r \<Rightarrow> unit result \<times> 'r" where
  "redis_append_trace_rich V now key entry cap r =
     (case (case rv_dumps_str V (VDict entry) of
              Inl e \<Rightarrow>
                if json_error e
                then rv_dumps V (VDict [(''tool'', dict_getd entry ''tool'' VNone), (''args'', VDict []), (''result'', VNone)])
                else Inl e
            | Inr s \<Rightarrow> Inr s) of
        Inl e \<Rightarrow> (Inl e, r)
      | Inr payload \<Rightarrow> redis_do V now [RPUSH key payload, LTRIM key (- cap) (-1)] r)"

definition redis_read_trace_rich :: "'r redis_env \<Rightarrow> rat \<Rightarrow> string \<Rightarrow> 'r \<Rightarrow> pyval list result \<times> 'r" where
  "redis_read_trace_rich V now key r = (let (a, r1) = redis_ask V now (LRANGE key 0 (-1)) r in
     (ebind a (\<lambda>x. Inr (concat (map (\<lambda>raw. case rv_loads V raw of Inl _ \<Rightarrow> [] | Inr v \<Rightarrow> [v]) (array_of x)))), r1))"

text \<open>
  The Lua script: from the tail forward, the first entry of the tool gets the result.  A script runs
  alone, so its commands see one state; \<open>n\<close> is the number of entries not yet looked at.
\<close>

definition lua_with_result :: "'r redis_env \<Rightarrow> string \<Rightarrow> pydict \<Rightarrow> string result" where
  "lua_with_result V result_json d =
     ebind (rv_lua_decode V result_json) (\<lambda>v. rv_lua_encode V (VDict (dict_set ''result'' v d)))"

fun lua_scan :: "'r redis_env \<Rightarrow> rat \<Rightarrow> string \<Rightarrow> string \<Rightarrow> string \<Rightarrow> nat \<Rightarrow> 'r \<Rightarrow> unit result \<times> 'r" where
  "lua_scan V now key tool result_json 0 r = (Inr (), r)"
| "lua_scan V now key tool result_json (Suc i) r =
     (case redis_ask V now (LINDEX key i) r of
        (Inl e, r1) \<Rightarrow> (Inl e, r1)
      | (Inr (RBulk raw), r1) \<Rightarrow>
          (case rv_lua_decode V raw of
             Inl e \<Rightarrow> (Inl e, r1)
           | Inr (VDict d) \<Rightarrow>
               if map_of d ''tool'' = Some (VStr tool)
               then (case lua_with_result V result_json d of
                       Inl e \<Rightarrow> (Inl e, r1) | Inr encoded \<Rightarrow> redis_do V now [LSET key i encoded] r1)
               else lua_scan V now key tool result_json i r1
           | Inr (VList _) \<Rightarrow> lua_scan V now key tool result_json i r1
           | Inr (VStr _) \<Rightarrow> lua_scan V now key tool result_json i r1
           | Inr _ \<Rightarrow> (Inl (ExternalError ''ResponseError''), r1))
      | (Inr _, r1) \<Rightarrow> lua_scan V now key tool result_json i r1)"

definition lua_update_last_result ::
  "'r redis_env \<Rightarrow> rat \<Rightarrow> string \<Rightarrow> string \<Rightarrow> string \<Rightarrow> 'r \<Rightarrow> unit result \<times> 'r" where
  "lua_update_last_result V now key tool result_json r =
     (case redis_ask V now (LLEN key) r of
        (Inl e, r1) \<Rightarrow> (Inl e, r1)
      | (Inr (RInt n), r1) \<Rightarrow> lua_scan V now key tool result_json (nat n) r1
      | (Inr _, r1) \<Rightarrow> (Inr (), r1))"

text \<open>A script that fails is ignored; a result that cannot be printed at all is not.\<close>

definition redis_update_trace_result_last ::
  "externals \<Rightarrow> 'r redis_env \<Rightarrow> rat \<Rightarrow> string \<Rightarrow> string \<Rightarrow> pyval \<Rightarrow> 'r \<Rightarrow> unit result \<times> 'r" where
  "redis_update_trace_result_last E V now key tool_name result r =
     (case (case rv_dumps V result of
              Inl e \<Rightarrow> if json_error e then rv_dumps V (VStr (py_str E result)) else Inl e
            | Inr s \<Rightarrow> Inr s) of
        Inl e \<Rightarrow> (Inl e, r)
      | Inr result_json \<Rightarrow> (Inr (), snd (lua_update_last_result V now key tool_name result_json r)))"

subsection \<open>Clearing\<close>

text \<open>One prefix: scan from cursor to cursor until the server answers with cursor zero.\<close>

partial_function (option) redis_clear_prefix ::
  "'r redis_env \<Rightarrow> rat \<Rightarrow> string \<Rightarrow> nat \<Rightarrow> 'r \<Rightarrow> (unit result \<times> 'r) option" where
  "redis_clear_prefix V now pattern cursor r =
     (case rv_scan V now cursor pattern r of
        (Inl e, r1) \<Rightarrow> Some (Inl e, r1)
      | (Inr (cursor', keys), r1) \<Rightarrow>
          (case (if keys = [] then (Inr (), r1) else redis_do V now [DEL keys] r1) of
             (Inl e, r2) \<Rightarrow> Some (Inl e, r2)
           | (Inr _, r2) \<Rightarrow>
               if cursor' = 0 then Some (Inr (), r2) else redis_clear_prefix V now pattern cursor' r2))"

fun redis_clear_all :: "'r redis_env \<Rightarrow> rat \<Rightarrow> string list \<Rightarrow> 'r \<Rightarrow> (unit result \<times> 'r) option" where
  "redis_clear_all V now [] r = Some (Inr (), r)"
| "redis_clear_all V now (p # ps) r =
     (case redis_clear_prefix V now p 0 r of
        None \<Rightarrow> None
      | Some (Inl e, r1) \<Rightarrow> Some (Inl e, r1)
      | Some (Inr _, r1) \<Rightarrow> redis_clear_all V now ps r1)"

definition owned_patterns :: "string list" where
  "owned_patterns = [''ag:sess:*'', ''ag:feat:*'', ''ag:prov:*'']"

definition redis_clear :: "'r redis_env \<Rightarrow> rat \<Rightarrow> 'r \<Rightarrow> (unit result \<times> 'r) option" where
  "redis_clear V now r = redis_clear_all V now owned_patterns r"

subsection \<open>What the documentation promises\<close>

text \<open>A key holds one kind of value; a list or set that becomes empty is gone, a value past its deadline too.\<close>

datatype redis_value = StringValue string "rat option" | SetValue "string set" | ListValue "string list"

type_synonym redis_db = "string \<Rightarrow> redis_value option"

definition put_list :: "string \<Rightarrow> string list \<Rightarrow> redis_db \<Rightarrow> redis_db" where
  "put_list k xs d = d(k := if xs = [] then None else Some (ListValue xs))"

definition live :: "rat \<Rightarrow> redis_db \<Rightarrow> string \<Rightarrow> redis_value option" where
  "live now d k =
     (case d k of Some (StringValue v (Some t)) \<Rightarrow> if t < now then None else d k | _ \<Rightarrow> d k)"

definition wrong_type :: py_exc where
  "wrong_type = ExternalError ''WRONGTYPE''"

definition on_list ::
  "rat \<Rightarrow> redis_db \<Rightarrow> string \<Rightarrow> (string list \<Rightarrow> redis_reply \<times> redis_db) \<Rightarrow> redis_reply result \<times> redis_db" where
  "on_list now d k f =
     (case live now d k of
        None \<Rightarrow> apfst Inr (f []) | Some (ListValue xs) \<Rightarrow> apfst Inr (f xs) | _ \<Rightarrow> (Inl wrong_type, d))"

definition on_set ::
  "rat \<Rightarrow> redis_db \<Rightarrow> string \<Rightarrow> (string set \<Rightarrow> redis_reply \<times> redis_db) \<Rightarrow> redis_reply result \<times> redis_db" where
  "on_set now d k f =
     (case live now d k of
        None \<Rightarrow> apfst Inr (f {}) | Some (SetValue s) \<Rightarrow> apfst Inr (f s) | _ \<Rightarrow> (Inl wrong_type, d))"

text \<open>A range is inclusive; negative indexes count from the end; what lies outside is cut off.\<close>

definition redis_range :: "'a list \<Rightarrow> int \<Rightarrow> int \<Rightarrow> 'a list" where
  "redis_range xs start stop =
     (let n = int (length xs);
          lo = (if start < 0 then max 0 (n + start) else start);
          hi = (if stop < 0 then n + stop else min stop (n - 1))
      in if hi < lo then [] else take (nat (hi + 1 - lo)) (drop (nat lo) xs))"

fun redis_step :: "rat \<Rightarrow> redis_command \<Rightarrow> redis_db \<Rightarrow> redis_reply result \<times> redis_db" where
  "redis_step now (GET k) d =
     (case live now d k of
        None \<Rightarrow> (Inr RNil, d) | Some (StringValue v deadline) \<Rightarrow> (Inr (RBulk v), d) | _ \<Rightarrow> (Inl wrong_type, d))"
| "redis_step now (SETV k v) d = (Inr RStatus, d(k := Some (StringValue v None)))"
| "redis_step now (SETPX k v t) d =
     (if t \<le> 0 then (Inl (ExternalError ''invalid expire time''), d)
      else (Inr RStatus, d(k := Some (StringValue v (Some (now + of_int t / 1000))))))"
| "redis_step now (SADD k ms) d =
     on_set now d k (\<lambda>s. (RInt (int (card (set ms - s))), d(k := Some (SetValue (s \<union> set ms)))))"
| "redis_step now (SMEMBERS k) d = on_set now d k (\<lambda>s. (RMembers s, d))"
| "redis_step now (LPUSH k v) d = on_list now d k (\<lambda>xs. (RInt (int (length xs) + 1), put_list k (v # xs) d))"
| "redis_step now (RPUSH k v) d = on_list now d k (\<lambda>xs. (RInt (int (length xs) + 1), put_list k (xs @ [v]) d))"
| "redis_step now (LTRIM k a b) d = on_list now d k (\<lambda>xs. (RStatus, put_list k (redis_range xs a b) d))"
| "redis_step now (LRANGE k a b) d = on_list now d k (\<lambda>xs. (RArray (redis_range xs a b), d))"
| "redis_step now (LLEN k) d = on_list now d k (\<lambda>xs. (RInt (int (length xs)), d))"
| "redis_step now (LINDEX k i) d = on_list now d k (\<lambda>xs. (if i < length xs then RBulk (xs ! i) else RNil, d))"
| "redis_step now (LSET k i v) d =
     (case live now d k of
        None \<Rightarrow> (Inl (ExternalError ''no such key''), d)
      | Some (ListValue xs) \<Rightarrow>
          if i < length xs then (Inr RStatus, put_list k (xs[i := v]) d)
          else (Inl (ExternalError ''index out of range''), d)
      | _ \<Rightarrow> (Inl wrong_type, d))"
| "redis_step now (DEL ks) d =
     (Inr (RInt (int (card {k \<in> set ks. live now d k \<noteq> None}))), \<lambda>k. if k \<in> set ks then None else d k)"

text \<open>A transaction runs every command, and the client raises the first error there was.\<close>

fun redis_run :: "rat \<Rightarrow> redis_command list \<Rightarrow> redis_db \<Rightarrow> redis_reply list result \<times> redis_db" where
  "redis_run now [] d = (Inr [], d)"
| "redis_run now (c # cs) d =
     (let (x, d1) = redis_step now c d; (xs, d2) = redis_run now cs d1
      in (ebind x (\<lambda>y. ebind xs (\<lambda>ys. Inr (y # ys))), d2))"

text \<open>\<open>db_of\<close> reads the server's state as a database; every transaction answers and acts as documented.\<close>

definition behaves_like_redis :: "'r redis_env \<Rightarrow> ('r \<Rightarrow> redis_db) \<Rightarrow> bool" where
  "behaves_like_redis V db_of \<longleftrightarrow>
     (\<forall>now cs r. fst (rv_exec V now cs r) = fst (redis_run now cs (db_of r)) \<and>
        db_of (snd (rv_exec V now cs r)) = snd (redis_run now cs (db_of r)))"

text \<open>Scanning changes nothing and lists keys that match: for a pattern that ends in its only star, keys
  that begin with what stands before it.\<close>

definition scans_matching :: "'r redis_env \<Rightarrow> ('r \<Rightarrow> redis_db) \<Rightarrow> bool" where
  "scans_matching V db_of \<longleftrightarrow>
     (\<forall>now cursor pattern r. db_of (snd (rv_scan V now cursor pattern r)) = db_of r \<and>
        (\<forall>c keys k. fst (rv_scan V now cursor pattern r) = Inr (c, keys) \<longrightarrow> k \<in> set keys \<longrightarrow>
           starts_with k (butlast pattern)))"

text \<open>A tool name and a time come back from JSON.\<close>

definition json_keeps :: "'r redis_env \<Rightarrow> bool" where
  "json_keeps V \<longleftrightarrow>
     (\<forall>tool ts. \<exists>s. rv_dumps V (VList [VStr tool, VInt ts]) = Inr s \<and> rv_loads V s = Inr (VList [VStr tool, VInt ts]))"

subsection \<open>Lists\<close>

definition holds_list :: "redis_db \<Rightarrow> string \<Rightarrow> string list \<Rightarrow> bool" where
  "holds_list d k xs \<longleftrightarrow> d k = (if xs = [] then None else Some (ListValue xs))"

lemma holds_put [simp]: "holds_list (put_list k xs d) j ys \<longleftrightarrow> (if j = k then ys = xs else holds_list d j ys)"
  by (auto simp: holds_list_def put_list_def split: if_splits)

lemma on_held: "holds_list d k xs \<Longrightarrow> on_list now d k f = apfst Inr (f xs)"
  by (auto simp: holds_list_def on_list_def live_def)

lemma live_held: "holds_list d k xs \<Longrightarrow> xs \<noteq> [] \<Longrightarrow> live now d k = Some (ListValue xs)"
  by (simp add: holds_list_def live_def)

lemma redis_range_all [simp]: "redis_range xs 0 (-1) = xs"
  by (auto simp: redis_range_def Let_def nat_int_add)

text \<open>Cutting to the last \<open>cap\<close> entries, and to the first ones.  A cap of zero is no cap.\<close>

lemma redis_range_last: "0 < cap \<Longrightarrow> redis_range xs (- int cap) (-1) = last_n cap xs"
  by (auto simp: redis_range_def Let_def last_n_def max_def nat_diff_distrib nat_int_add)

lemma redis_range_first: "redis_range xs 0 (int n) = take (Suc n) xs"
  by (auto simp: redis_range_def Let_def min_def nat_add_distrib nat_int_add)

lemma exec_cases:
  assumes "behaves_like_redis V db_of"
  obtains r' where "rv_exec V now cs r = (fst (redis_run now cs (db_of r)), r')"
    "db_of r' = snd (redis_run now cs (db_of r))"
proof
  have b: "fst (rv_exec V now cs r) = fst (redis_run now cs (db_of r))"
    "db_of (snd (rv_exec V now cs r)) = snd (redis_run now cs (db_of r))"
    using assms unfolding behaves_like_redis_def by blast+
  show "rv_exec V now cs r = (fst (redis_run now cs (db_of r)), snd (rv_exec V now cs r))"
    using b(1) by (simp add: prod_eq_iff)
  show "db_of (snd (rv_exec V now cs r)) = snd (redis_run now cs (db_of r))" by (rule b(2))
qed

lemma redis_range_held:
  assumes "behaves_like_redis V db_of" and "holds_list (db_of r) k xs"
  shows "\<exists>r'. redis_ask V now (LRANGE k a b) r = (Inr (RArray (redis_range xs a b)), r') \<and> db_of r' = db_of r"
  by (rule exec_cases [OF assms(1), of now "[LRANGE k a b]" r]) (simp add: redis_ask_def on_held [OF assms(2)])

text \<open>What pushing onto a held list and cutting it leaves.\<close>

lemma redis_push_trim:
  assumes V: "behaves_like_redis V db_of" and h: "holds_list (db_of r) k xs"
  shows "\<exists>r'. redis_do V now [RPUSH k x, LTRIM k a b] r = (Inr (), r') \<and>
      holds_list (db_of r') k (redis_range (xs @ [x]) a b) \<and> (\<forall>j. j \<noteq> k \<longrightarrow> db_of r' j = db_of r j)"
    and "\<exists>r'. redis_do V now [LPUSH k x, LTRIM k a b] r = (Inr (), r') \<and>
      holds_list (db_of r') k (redis_range (x # xs) a b) \<and> (\<forall>j. j \<noteq> k \<longrightarrow> db_of r' j = db_of r j)"
proof -
  have p: "holds_list (put_list k ys (db_of r)) k ys" for ys by simp
  have R: "redis_run now [RPUSH k x, LTRIM k a b] (db_of r) =
      (Inr [RInt (int (length xs) + 1), RStatus], put_list k (redis_range (xs @ [x]) a b) (put_list k (xs @ [x]) (db_of r)))"
    by (simp add: on_held [OF h] on_held [OF p])
  have L: "redis_run now [LPUSH k x, LTRIM k a b] (db_of r) =
      (Inr [RInt (int (length xs) + 1), RStatus], put_list k (redis_range (x # xs) a b) (put_list k (x # xs) (db_of r)))"
    by (simp add: on_held [OF h] on_held [OF p])
  show "\<exists>r'. redis_do V now [RPUSH k x, LTRIM k a b] r = (Inr (), r') \<and>
      holds_list (db_of r') k (redis_range (xs @ [x]) a b) \<and> (\<forall>j. j \<noteq> k \<longrightarrow> db_of r' j = db_of r j)"
    by (rule exec_cases [OF V, of now "[RPUSH k x, LTRIM k a b]" r])
      (simp add: R redis_do_def put_list_def holds_list_def del: redis_run.simps)
  show "\<exists>r'. redis_do V now [LPUSH k x, LTRIM k a b] r = (Inr (), r') \<and>
      holds_list (db_of r') k (redis_range (x # xs) a b) \<and> (\<forall>j. j \<noteq> k \<longrightarrow> db_of r' j = db_of r j)"
    by (rule exec_cases [OF V, of now "[LPUSH k x, LTRIM k a b]" r])
      (simp add: L redis_do_def put_list_def holds_list_def del: redis_run.simps)
qed

subsection \<open>The trace in Redis and in memory\<close>

text \<open>The key holds exactly the printed form of the entries.\<close>

definition trace_in_redis :: "'r redis_env \<Rightarrow> redis_db \<Rightarrow> string \<Rightarrow> (string \<times> int) list \<Rightarrow> bool" where
  "trace_in_redis V d k entries \<longleftrightarrow>
     (\<exists>raws. holds_list d k raws \<and>
        list_all2 (\<lambda>raw (tool, ts). rv_dumps V (VList [VStr tool, VInt ts]) = Inr raw) raws entries)"

lemma list_all2_last_n: "list_all2 P xs ys \<Longrightarrow> list_all2 P (last_n n xs) (last_n n ys)"
  by (simp add: last_n_def list_all2_lengthD list_all2_dropI)

lemma redis_append_refines:
  assumes V: "behaves_like_redis V db_of" "json_keeps V" and t: "trace_in_redis V (db_of r) k es" and "0 < cap"
  shows "\<exists>r'. redis_append_trace V now k e (int cap) r = (Inr (), r') \<and>
    trace_in_redis V (db_of r') k (last_n cap (es @ [e])) \<and> (\<forall>j. j \<noteq> k \<longrightarrow> db_of r' j = db_of r j)"
proof -
  obtain raws where raws: "holds_list (db_of r) k raws"
    "list_all2 (\<lambda>raw (tool, ts). rv_dumps V (VList [VStr tool, VInt ts]) = Inr raw) raws es"
    using t by (auto simp: trace_in_redis_def)
  obtain s where s: "rv_dumps V (VList [VStr (fst e), VInt (snd e)]) = Inr s"
    using V(2) by (auto simp: json_keeps_def)
  have "list_all2 (\<lambda>raw (tool, ts). rv_dumps V (VList [VStr tool, VInt ts]) = Inr raw) (last_n cap (raws @ [s])) (last_n cap (es @ [e]))"
    using raws(2) s by (intro list_all2_last_n list_all2_appendI) (auto split: prod.split)
  then show ?thesis
    using redis_push_trim(1) [OF V(1) raws(1), of now s "- int cap" "-1"] s \<open>0 < cap\<close>
    by (auto simp: redis_append_trace_def trace_in_redis_def redis_range_last)
qed

lemma redis_read_refines:
  assumes V: "behaves_like_redis V db_of" "json_keeps V" and t: "trace_in_redis V (db_of r) k es"
  shows "\<exists>r'. redis_read_trace V now k r = (Inr (map (apfst VStr) es), r') \<and> db_of r' = db_of r"
proof -
  obtain raws where raws: "holds_list (db_of r) k raws"
    "list_all2 (\<lambda>raw (tool, ts). rv_dumps V (VList [VStr tool, VInt ts]) = Inr raw) raws es"
    using t by (auto simp: trace_in_redis_def)
  have loads: "rv_dumps V (VList [VStr tool, VInt ts]) = Inr raw \<Longrightarrow> redis_entry V raw = [(VStr tool, ts)]" for tool ts raw
  proof -
    assume d: "rv_dumps V (VList [VStr tool, VInt ts]) = Inr raw"
    then have "rv_loads V raw = Inr (VList [VStr tool, VInt ts])" using V(2) unfolding json_keeps_def by (metis sum.inject(2))
    then show ?thesis by (simp add: redis_entry_def py_int_def)
  qed
  have "concat (map (redis_entry V) raws) = map (apfst VStr) es"
    using raws(2) by (induction rule: list_all2_induct) (auto simp: loads split: prod.splits)
  then show ?thesis
    using redis_range_held [OF V(1) raws(1), of now 0 "-1"]
    by (auto simp: redis_read_trace_def Let_def array_of_def)
qed

text \<open>Appending a run of entries, each at its own time.\<close>

definition redis_append_all ::
  "'r redis_env \<Rightarrow> string \<Rightarrow> int \<Rightarrow> (rat \<times> string \<times> int) list \<Rightarrow> 'r \<Rightarrow> 'r" where
  "redis_append_all V k cap xs r = foldl (\<lambda>r (now, e). snd (redis_append_trace V now k e cap r)) r xs"

lemma last_n_append_last_n: "last_n n (last_n n xs @ [x]) = last_n n (xs @ [x])"
  using push_right_last_n [of n xs x] by (simp add: push_right_def last_n_def [of n "_ @ _"])

lemma redis_append_all_refines:
  assumes V: "behaves_like_redis V db_of" "json_keeps V" and "0 < cap" "length es \<le> cap"
    and t: "trace_in_redis V (db_of r) k es"
  shows "trace_in_redis V (db_of (redis_append_all V k (int cap) xs r)) k (last_n cap (es @ map snd xs))"
proof (induction xs rule: rev_induct)
  case Nil
  then show ?case using t assms(4) by (simp add: redis_append_all_def)
next
  case (snoc x xs)
  obtain r' where "redis_append_trace V (fst x) k (snd x) (int cap) (redis_append_all V k (int cap) xs r) = (Inr (), r')"
    "trace_in_redis V (db_of r') k (last_n cap (last_n cap (es @ map snd xs) @ [snd x]))"
    using redis_append_refines [OF V snoc \<open>0 < cap\<close>] by blast
  then show ?case
    by (simp add: redis_append_all_def split_beta last_n_append_last_n)
qed

subsection \<open>Sets and recent tools\<close>

definition holds_set :: "redis_db \<Rightarrow> string \<Rightarrow> string set \<Rightarrow> bool" where
  "holds_set d k s \<longleftrightarrow> d k = (if s = {} then None else Some (SetValue s))"

lemma on_held_set: "holds_set d k s \<Longrightarrow> on_set now d k f = apfst Inr (f s)"
  by (auto simp: holds_set_def on_set_def live_def)

lemma redis_sadd_refines:
  assumes V: "behaves_like_redis V db_of" and h: "holds_set (db_of r) k s"
  shows "\<exists>r'. redis_sadd V now k ms r = (Inr (), r') \<and> holds_set (db_of r') k (s \<union> set ms) \<and>
    (\<forall>j. j \<noteq> k \<longrightarrow> db_of r' j = db_of r j)"
proof (cases "ms = []")
  case True
  with h show ?thesis by (simp add: redis_sadd_def)
next
  case False
  show ?thesis
    by (rule exec_cases [OF V, of now "[SADD k ms]" r])
      (simp add: False redis_sadd_def redis_do_def on_held_set [OF h] holds_set_def)
qed

lemma redis_smembers_refines:
  assumes V: "behaves_like_redis V db_of" and h: "holds_set (db_of r) k s"
  shows "\<exists>r'. redis_smembers V now k r = (Inr s, r') \<and> db_of r' = db_of r"
  by (rule exec_cases [OF V, of now "[SMEMBERS k]" r])
    (simp add: redis_smembers_def redis_ask_def on_held_set [OF h])

lemma redis_lpush_refines:
  assumes V: "behaves_like_redis V db_of" and h: "holds_list (db_of r) k xs"
  shows "\<exists>r'. redis_lpush_capped V now k v (int (Suc n)) r = (Inr (), r') \<and>
    holds_list (db_of r') k (push_left (Suc n) v xs) \<and> (\<forall>j. j \<noteq> k \<longrightarrow> db_of r' j = db_of r j)"
  using redis_push_trim(2) [OF V h, of now v 0 "int n"]
  by (simp add: redis_lpush_capped_def redis_range_first push_left_def)

lemma redis_lrange_refines:
  assumes V: "behaves_like_redis V db_of" and h: "holds_list (db_of r) k (deque_items (sc_lists c) k)"
  shows "\<exists>r'. redis_lrange V now k 0 (int n) r = (Inr (lrange k 0 (int n) c), r') \<and> db_of r' = db_of r"
  using redis_range_held [OF V h, of now 0 "int n"]
  by (auto simp: redis_lrange_def array_of_def redis_range_first lrange_prefix)

text \<open>An end before the first element: Redis answers with nothing, the cache in memory with a prefix.\<close>

lemma negative_end_differs:
  "redis_range [a, b, c] 0 (-5) = []"
  "lrange k 0 (-5) (empty_cache\<lparr>sc_lists := [(k, \<lparr>dq_maxlen = n, dq_items = [a, b, c]\<rparr>)]\<rparr>) = [a, b]"
  by (simp_all add: redis_range_def lrange_def empty_cache_def deque_items_def py_slice_def slice_bound_def)

subsection \<open>The script\<close>

lemma update_first_absent: "\<forall>x \<in> set xs. \<not> P x \<Longrightarrow> update_first P f xs = xs"
  by (induction xs) auto

lemma update_first_prefix: "\<forall>x \<in> set xs. \<not> P x \<Longrightarrow> update_first P f (xs @ ys) = xs @ update_first P f ys"
  by (induction xs) auto

definition lua_is_tool :: "'r redis_env \<Rightarrow> string \<Rightarrow> string \<Rightarrow> bool" where
  "lua_is_tool V tool raw \<longleftrightarrow> (case rv_lua_decode V raw of Inr (VDict d) \<Rightarrow> map_of d ''tool'' = Some (VStr tool) | _ \<Rightarrow> False)"

definition lua_updated :: "'r redis_env \<Rightarrow> string \<Rightarrow> string \<Rightarrow> string" where
  "lua_updated V result_json raw =
     (case rv_lua_decode V raw of Inr (VDict d) \<Rightarrow> etry (lua_with_result V result_json d) raw | _ \<Rightarrow> raw)"

text \<open>On entries that are tables, as \<open>append_trace_rich\<close> writes them, the script changes the last one of the tool
  and no other.\<close>

definition tables_in :: "'r redis_env \<Rightarrow> string list \<Rightarrow> bool" where
  "tables_in V xs \<longleftrightarrow> (\<forall>x \<in> set xs. \<exists>d. rv_lua_decode V x = Inr (VDict d))"

lemma lua_scan_updates:
  assumes V: "behaves_like_redis V db_of" and h: "holds_list (db_of r) k xs" and i: "i \<le> length xs"
    and tab: "tables_in V xs"
  shows "holds_list (db_of (snd (lua_scan V now k tool res i r))) k
     (rev (update_first (lua_is_tool V tool) (lua_updated V res) (rev (take i xs))) @ drop i xs)"
  using h i
proof (induction i arbitrary: r)
  case 0
  then show ?case by simp
next
  case (Suc i)
  have i: "i < length xs" using Suc.prems(2) by simp
  obtain r1 where r1: "redis_ask V now (LINDEX k i) r = (Inr (RBulk (xs ! i)), r1)" "db_of r1 = db_of r"
    by (rule exec_cases [OF V, of now "[LINDEX k i]" r])
      (simp add: redis_ask_def on_held [OF Suc.prems(1)] i)
  obtain d where d: "rv_lua_decode V (xs ! i) = Inr (VDict d)" using tab nth_mem [OF i] by (auto simp: tables_in_def)
  have tk: "rev (take (Suc i) xs) = xs ! i # rev (take i xs)" by (simp add: take_Suc_conv_app_nth i)
  have rest: "drop i xs = xs ! i # drop (Suc i) xs" by (simp add: Cons_nth_drop_Suc i)
  have h1: "holds_list (db_of r1) k xs" using Suc.prems(1) r1(2) by simp
  show ?case
  proof (cases "map_of d ''tool'' = Some (VStr tool)")
    case True
    then have hit: "lua_is_tool V tool (xs ! i)" by (simp add: lua_is_tool_def d)
    show ?thesis
    proof (cases "lua_with_result V res d")
      case (Inl e)
      have "xs = take i xs @ xs ! i # drop (Suc i) xs" by (rule id_take_nth_drop [OF i])
      then show ?thesis using True hit h1 by (simp add: r1(1) d Inl tk lua_updated_def)
    next
      case (Inr v)
      have ne: "xs \<noteq> []" using i by auto
      have st: "redis_run now [LSET k i v] (db_of r1) = (Inr [RStatus], put_list k (xs[i := v]) (db_of r1))"
        using live_held [OF h1 ne, of now] i by simp
      have "db_of (snd (redis_do V now [LSET k i v] r1)) = put_list k (xs[i := v]) (db_of r1)"
        by (rule exec_cases [OF V, of now "[LSET k i v]" r1]) (simp add: redis_do_def st del: redis_run.simps)
      then show ?thesis
        using True hit i by (simp add: r1(1) d Inr tk lua_updated_def upd_conv_take_nth_drop)
    qed
  next
    case False
    then have "\<not> lua_is_tool V tool (xs ! i)" by (simp add: lua_is_tool_def d)
    then show ?thesis
      using Suc.IH [OF h1] i False by (simp add: r1(1) d tk rest)
  qed
qed

lemma redis_update_refines:
  assumes V: "behaves_like_redis V db_of" and h: "holds_list (db_of r) k xs" and res: "rv_dumps V result = Inr s"
    and tab: "tables_in V xs"
  shows "holds_list (db_of (snd (redis_update_trace_result_last E V now k tool result r))) k
     (rev (update_first (lua_is_tool V tool) (lua_updated V s) (rev xs)))"
proof -
  obtain r1 where r1: "redis_ask V now (LLEN k) r = (Inr (RInt (int (length xs))), r1)" "db_of r1 = db_of r"
    by (rule exec_cases [OF V, of now "[LLEN k]" r]) (simp add: redis_ask_def on_held [OF h])
  show ?thesis
    using lua_scan_updates [OF V _ _ tab, of r1 k "length xs" now tool s] h
    by (simp add: redis_update_trace_result_last_def res lua_update_last_result_def r1)
qed

subsection \<open>Clearing spares other keys\<close>

lemma del_spares:
  assumes V: "behaves_like_redis V db_of" and "k \<notin> set keys"
  shows "db_of (snd (redis_do V now [DEL keys] r)) k = db_of r k"
  by (rule exec_cases [OF V, of now "[DEL keys]" r]) (simp add: redis_do_def split_beta assms(2))

lemma clear_prefix_spares:
  assumes fin: "redis_clear_prefix V now pattern cursor r = Some out"
  shows "behaves_like_redis V db_of \<and> scans_matching V db_of \<and> \<not> starts_with k (butlast pattern) \<longrightarrow>
    db_of (snd out) k = db_of r k"
  using fin
proof (induction V now pattern cursor r out rule: redis_clear_prefix.raw_induct [rotated, consumes 1, case_names page])
  case (page again V now pattern cursor r out)
  show ?case
  proof (intro impI, elim conjE)
    assume V: "behaves_like_redis V db_of" and S: "scans_matching V db_of" and k: "\<not> starts_with k (butlast pattern)"
    obtain a r1 where sc: "rv_scan V now cursor pattern r = (a, r1)" by (cases "rv_scan V now cursor pattern r")
    have r1: "db_of r1 = db_of r" and ks: "a = Inr (c, keys) \<Longrightarrow> k \<notin> set keys" for c keys
      using S k sc unfolding scans_matching_def by (metis snd_conv, metis fst_conv)
    show "db_of (snd out) k = db_of r k"
    proof (cases a)
      case (Inl e)
      with page.hyps show ?thesis using r1 by (auto simp: sc)
    next
      case (Inr ck)
      obtain c keys where ck: "ck = (c, keys)" by (cases ck)
      obtain b r2 where d: "(if keys = [] then (Inr (), r1) else redis_do V now [DEL keys] r1) = (b, r2)"
        by (cases "if keys = [] then (Inr (), r1) else redis_do V now [DEL keys] r1")
      have r2: "db_of r2 k = db_of r k"
        using d del_spares [OF V ks [OF Inr [unfolded ck]], of now r1] r1 by (auto split: if_splits)
      show ?thesis
        using page.hyps page.IH [of V now pattern c r2 out] V S k r2
        by (auto simp: sc Inr ck d split: sum.splits if_splits)
    qed
  qed
qed

theorem clearing_spares_other_keys:
  assumes V: "behaves_like_redis V db_of" and S: "scans_matching V db_of"
    and fin: "redis_clear V now r = Some out"
    and k: "\<not> starts_with k ''ag:sess:''" "\<not> starts_with k ''ag:feat:''" "\<not> starts_with k ''ag:prov:''"
  shows "db_of (snd out) k = db_of r k"
proof -
  have "redis_clear_all V now ps r = Some out \<Longrightarrow> \<forall>p \<in> set ps. \<not> starts_with k (butlast p) \<Longrightarrow>
      db_of (snd out) k = db_of r k" for ps
  proof (induction ps arbitrary: r)
    case (Cons p ps)
    show ?case
    proof (cases "redis_clear_prefix V now p 0 r")
      case (Some x)
      obtain a r1 where x: "x = (a, r1)" by (cases x)
      have "db_of r1 k = db_of r k" using clear_prefix_spares [OF Some, of db_of k] V S Cons.prems(2) x by simp
      then show ?thesis using Cons.IH [of r1] Cons.prems Some x by (cases a) auto
    qed (use Cons.prems in simp)
  qed auto
  from this [of owned_patterns] show ?thesis using fin k by (simp add: redis_clear_def owned_patterns_def)
qed

end
