(* ===== verification/Postgres_Stores.thy ===== *)
theory Postgres_Stores
  imports Guard_Rules Tool_Catalog Degrade
begin

text \<open>
  The stores on PostgreSQL (\<open>storage/postgres.py\<close>): rule packs, agent bindings, audit records and the
  tool catalog, and how a server is switched over to them.  The driver and the database are a
  parameter that runs one statement on the database's state and answers with rows and a row count or
  raises.  \<open>sql_step\<close> writes down what the statements mean on tables; a database that behaves like it
  gives the binding store and the catalog in memory.  A statement is the text in the source together with its parameters.
\<close>

subsection \<open>Statements\<close>

datatype sql_statement =
    PacksUpsert string string string
  | PacksDelete string
  | PacksSelect
  | BindingsOfAgent string
  | BindingsOfPack string
  | BindingsInsert string string
  | BindingsDelete string string
  | BindingsSelect
  | BindingsDropAgent string
  | BindingsDropPack string
  | AuditInsert int pyval pyval pyval pyval pyval string string
  | ToolsSelect "string option"
  | ToolsGet string string
  | ToolsUpsert string string string string string string string
  | ToolsRelabel string string string string string string
  | ToolsDelete

type_synonym sql_answer = "pyval list list \<times> nat"

record 'd pg_env =
  pv_exec :: "rat \<Rightarrow> sql_statement \<Rightarrow> 'd \<Rightarrow> sql_answer result \<times> 'd"
  pv_dumps :: "pyval \<Rightarrow> string result"

definition pg_command :: "'d pg_env \<Rightarrow> rat \<Rightarrow> sql_statement \<Rightarrow> 'd \<Rightarrow> unit result \<times> 'd" where
  "pg_command V now st d = (let (a, d1) = pv_exec V now st d in (ebind a (\<lambda>_. Inr ()), d1))"

definition pg_count :: "'d pg_env \<Rightarrow> rat \<Rightarrow> sql_statement \<Rightarrow> 'd \<Rightarrow> bool result \<times> 'd" where
  "pg_count V now st d = (let (a, d1) = pv_exec V now st d in (ebind a (\<lambda>(rows, n). Inr (0 < n)), d1))"

definition pg_rows :: "'d pg_env \<Rightarrow> rat \<Rightarrow> sql_statement \<Rightarrow> 'd \<Rightarrow> pyval list list result \<times> 'd" where
  "pg_rows V now st d = (let (a, d1) = pv_exec V now st d in (ebind a (\<lambda>(rows, n). Inr rows), d1))"

text \<open>A text column.\<close>

definition column :: "nat \<Rightarrow> pyval list \<Rightarrow> string" where
  "column i row = (if i < length row then (case row ! i of VStr s \<Rightarrow> s | _ \<Rightarrow> []) else [])"

subsection \<open>Rule packs\<close>

definition pg_upsert_pack :: "'d pg_env \<Rightarrow> rat \<Rightarrow> string \<Rightarrow> string \<Rightarrow> string \<Rightarrow> 'd \<Rightarrow> unit result \<times> 'd" where
  "pg_upsert_pack V now pack_id dsl_text source_label d = pg_command V now (PacksUpsert pack_id source_label dsl_text) d"

definition pg_delete_pack :: "'d pg_env \<Rightarrow> rat \<Rightarrow> string \<Rightarrow> 'd \<Rightarrow> bool result \<times> 'd" where
  "pg_delete_pack V now pack_id d = pg_count V now (PacksDelete pack_id) d"

definition pg_list_packs :: "'d pg_env \<Rightarrow> rat \<Rightarrow> 'd \<Rightarrow> (string \<times> string \<times> string) list result \<times> 'd" where
  "pg_list_packs V now d = (let (a, d1) = pg_rows V now PacksSelect d in
     (ebind a (\<lambda>rows. Inr (map (\<lambda>row. (column 0 row, column 1 row, column 2 row)) rows)), d1))"

subsection \<open>Bindings\<close>

definition pg_packs_of :: "'d pg_env \<Rightarrow> rat \<Rightarrow> string \<Rightarrow> 'd \<Rightarrow> string set result \<times> 'd" where
  "pg_packs_of V now agent_id d = (let (a, d1) = pg_rows V now (BindingsOfAgent agent_id) d in
     (ebind a (\<lambda>rows. Inr (column 0 ` set rows)), d1))"

definition pg_agents_of :: "'d pg_env \<Rightarrow> rat \<Rightarrow> string \<Rightarrow> 'd \<Rightarrow> string set result \<times> 'd" where
  "pg_agents_of V now pack_id d = (let (a, d1) = pg_rows V now (BindingsOfPack pack_id) d in
     (ebind a (\<lambda>rows. Inr (column 0 ` set rows)), d1))"

definition pg_bind :: "'d pg_env \<Rightarrow> rat \<Rightarrow> string \<Rightarrow> string \<Rightarrow> 'd \<Rightarrow> unit result \<times> 'd" where
  "pg_bind V now agent_id pack_id d = pg_command V now (BindingsInsert agent_id pack_id) d"

definition pg_unbind :: "'d pg_env \<Rightarrow> rat \<Rightarrow> string \<Rightarrow> string \<Rightarrow> 'd \<Rightarrow> bool result \<times> 'd" where
  "pg_unbind V now agent_id pack_id d = pg_count V now (BindingsDelete agent_id pack_id) d"

definition pg_list_all :: "'d pg_env \<Rightarrow> rat \<Rightarrow> 'd \<Rightarrow> (string, string list) dict result \<times> 'd" where
  "pg_list_all V now d = (let (a, d1) = pg_rows V now BindingsSelect d in
     (ebind a (\<lambda>rows. Inr (foldl (\<lambda>out row.
        dict_set (column 0 row) (List.insert (column 1 row) (dict_getd out (column 0 row) [])) out) [] rows)), d1))"

definition pg_clear_agent :: "'d pg_env \<Rightarrow> rat \<Rightarrow> string \<Rightarrow> 'd \<Rightarrow> unit result \<times> 'd" where
  "pg_clear_agent V now agent_id d = pg_command V now (BindingsDropAgent agent_id) d"

definition pg_clear_pack :: "'d pg_env \<Rightarrow> rat \<Rightarrow> string \<Rightarrow> 'd \<Rightarrow> unit result \<times> 'd" where
  "pg_clear_pack V now pack_id d = pg_command V now (BindingsDropPack pack_id) d"

subsection \<open>The audit sink\<close>

text \<open>\<open>(record.get(k) or {})\<close>, and then a field of it.\<close>

definition get_or_empty :: "pyval \<Rightarrow> string \<Rightarrow> pyval result" where
  "get_or_empty v k = ebind (py_get v k) (\<lambda>x. Inr (py_or x (VDict [])))"

definition audit_statement :: "'d pg_env \<Rightarrow> pyval \<Rightarrow> pyval \<Rightarrow> pyval \<Rightarrow> pyval \<Rightarrow> pyval \<Rightarrow> sql_statement result" where
  "audit_statement V rcd event decision tool_call prin =
     ebind (py_get event ''ts_ms'') (\<lambda>t. ebind (py_int (py_or t (VInt 0))) (\<lambda>ts.
     ebind (py_get event ''event_type'') (\<lambda>et.
     ebind (py_get tool_call ''tool_name'') (\<lambda>tn.
     ebind (py_get prin ''agent_id'') (\<lambda>ag.
     ebind (py_get prin ''session_id'') (\<lambda>sid.
     ebind (if py_bool decision then py_get decision ''action'' else Inr VNone) (\<lambda>act.
     ebind (ebind (py_get decision ''matched_rules'') (\<lambda>m. pv_dumps V (py_or m (VList [])))) (\<lambda>rules.
     ebind (pv_dumps V rcd) (\<lambda>payload.
     Inr (AuditInsert ts et tn ag sid act rules payload))))))))))"

text \<open>Whatever goes wrong while inserting is logged; only a record of the wrong shape raises.\<close>

definition pg_audit_sink :: "'d pg_env \<Rightarrow> rat \<Rightarrow> pyval \<Rightarrow> 'd \<Rightarrow> unit result \<times> 'd" where
  "pg_audit_sink V now rcd d =
     (case ebind (get_or_empty rcd ''event'') (\<lambda>event. ebind (get_or_empty rcd ''decision'') (\<lambda>decision.
           ebind (get_or_empty event ''tool_call'') (\<lambda>tool_call. ebind (get_or_empty event ''principal'') (\<lambda>prin.
             Inr (audit_statement V rcd event decision tool_call prin))))) of
        Inl e \<Rightarrow> (Inl e, d)
      | Inr (Inl _) \<Rightarrow> (Inr (), d)
      | Inr (Inr st) \<Rightarrow> (Inr (), snd (pv_exec V now st d)))"

text \<open>The sink that was there before gets the record first and may raise without consequence.\<close>

definition chained_sink ::
  "'d pg_env \<Rightarrow> rat \<Rightarrow> (pyval \<Rightarrow> 's \<Rightarrow> unit result \<times> 's) option \<Rightarrow> pyval \<Rightarrow> 's \<times> 'd \<Rightarrow> unit result \<times> 's \<times> 'd" where
  "chained_sink V now existing rcd sd =
     (let s1 = (case existing of None \<Rightarrow> fst sd | Some f \<Rightarrow> snd (f rcd (fst sd)));
          (a, d1) = pg_audit_sink V now rcd (snd sd) in (a, s1, d1))"

subsection \<open>The tool catalog\<close>

definition json_strings :: "pyval \<Rightarrow> string list result" where
  "json_strings v = ebind (py_iter (py_or v (VList [])))
     (emap (\<lambda>x. case x of VStr s \<Rightarrow> Inr s | _ \<Rightarrow> Inl (ExternalError ''ValidationError'')))"

definition row_to_entry :: "pyval list \<Rightarrow> catalog_entry result" where
  "row_to_entry row =
     (case row of
        [VStr owner, VStr name, VStr b, VStr s, VStr i, tags, params, ts] \<Rightarrow>
          ebind (json_strings tags) (\<lambda>tg. ebind (json_strings params) (\<lambda>pr.
          ebind (if py_bool ts then ebind (py_int ts) (\<lambda>n. Inr (Some n)) else Inr None) (\<lambda>t.
            Inr \<lparr>ce_owner_agent_id = owner, ce_name = name,
                 ce_labels = \<lparr>cl_boundary = b, cl_sensitivity = s, cl_integrity = i, cl_tags = tg\<rparr>,
                 ce_input_params = pr, ce_updated_at_ms = t\<rparr>)))
      | _ \<Rightarrow> Inl ValueError)"

definition pg_list_tools :: "'d pg_env \<Rightarrow> rat \<Rightarrow> string option \<Rightarrow> 'd \<Rightarrow> catalog_entry list result \<times> 'd" where
  "pg_list_tools V now agent_id d = (let (a, d1) = pg_rows V now (ToolsSelect agent_id) d in
     (ebind a (emap row_to_entry), d1))"

definition pg_get_tool :: "'d pg_env \<Rightarrow> rat \<Rightarrow> string \<Rightarrow> string \<Rightarrow> 'd \<Rightarrow> catalog_entry option result \<times> 'd" where
  "pg_get_tool V now name agent_id d = (let (a, d1) = pg_rows V now (ToolsGet agent_id name) d in
     (ebind a (\<lambda>rows. case rows of [] \<Rightarrow> Inr None | row # _ \<Rightarrow> ebind (row_to_entry row) (\<lambda>e. Inr (Some e))), d1))"

definition pg_upsert_tool ::
  "'d pg_env \<Rightarrow> rat \<Rightarrow> int \<Rightarrow> catalog_entry \<Rightarrow> 'd \<Rightarrow> catalog_entry result \<times> 'd" where
  "pg_upsert_tool V now now_ms e d =
     (let lb = ce_labels e in
      case ebind (pv_dumps V (VList (map VStr (cl_tags lb)))) (\<lambda>tags.
           ebind (pv_dumps V (VList (map VStr (ce_input_params e)))) (\<lambda>params. Inr (tags, params))) of
        Inl x \<Rightarrow> (Inl x, d)
      | Inr (tags, params) \<Rightarrow>
          (let (a, d1) = pg_command V now (ToolsUpsert (ce_owner_agent_id e) (ce_name e) (cl_boundary lb)
                 (cl_sensitivity lb) (cl_integrity lb) tags params) d
           in (ebind a (\<lambda>_. Inr (with_updated_timestamp now_ms None e)), d1)))"

definition pg_update_tool_labels ::
  "'d pg_env \<Rightarrow> rat \<Rightarrow> string \<Rightarrow> string \<Rightarrow> catalog_labels \<Rightarrow> 'd \<Rightarrow> catalog_entry option result \<times> 'd" where
  "pg_update_tool_labels V now agent_id name lb d =
     (case pv_dumps V (VList (map VStr (cl_tags lb))) of
        Inl x \<Rightarrow> (Inl x, d)
      | Inr tags \<Rightarrow>
          (case pg_count V now (ToolsRelabel (cl_boundary lb) (cl_sensitivity lb) (cl_integrity lb) tags agent_id name) d of
             (Inl x, d1) \<Rightarrow> (Inl x, d1)
           | (Inr False, d1) \<Rightarrow> (Inr None, d1)
           | (Inr True, d1) \<Rightarrow> pg_get_tool V now name agent_id d1))"

definition pg_clear_tools :: "'d pg_env \<Rightarrow> rat \<Rightarrow> 'd \<Rightarrow> unit result \<times> 'd" where
  "pg_clear_tools V now d = pg_command V now ToolsDelete d"

subsection \<open>Keeping packs in step\<close>

text \<open>\<open>_normalize_to_dsl_text\<close>: the rule text a source stands for.\<close>

definition normalize_to_dsl_text :: "file_system \<Rightarrow> rule_source option \<Rightarrow> string result" where
  "normalize_to_dsl_text fs src =
     (case src of
        None \<Rightarrow> Inr []
      | Some (OneSource s) \<Rightarrow> if s = [] then Inr [] else ebind (read_source fs s) (\<lambda>ts. Inr (str_join [newline, newline] ts))
      | Some (ManySources ss) \<Rightarrow> ebind (emap (read_source fs) ss) (\<lambda>tss. Inr (str_join [newline, newline] (concat tss))))"

text \<open>The guard's \<open>add_rule_pack\<close> and \<open>remove_rule_pack\<close> once a database is attached.\<close>

definition pg_add_rule_pack ::
  "externals \<Rightarrow> file_system \<Rightarrow> 'd pg_env \<Rightarrow> rat \<Rightarrow> string \<Rightarrow> rule_source \<Rightarrow> guard_rules \<times> 'd \<Rightarrow>
   rule_pack result \<times> guard_rules \<times> 'd" where
  "pg_add_rule_pack E fs V now pack_id src gd =
     (case add_rule_pack E fs pack_id src (fst gd) of
        Inl e \<Rightarrow> (Inl e, gd)
      | Inr (pack, g1) \<Rightarrow>
          (case normalize_to_dsl_text fs (Some src) of
             Inl e \<Rightarrow> (Inl e, g1, snd gd)
           | Inr dsl_text \<Rightarrow>
               (Inr pack, g1, snd (pg_upsert_pack V now pack_id dsl_text
                  (case src of OneSource s \<Rightarrow> s | ManySources _ \<Rightarrow> []) (snd gd)))))"

definition pg_remove_rule_pack ::
  "'d pg_env \<Rightarrow> rat \<Rightarrow> string \<Rightarrow> guard_rules \<times> 'd \<Rightarrow> bool result \<times> guard_rules \<times> 'd" where
  "pg_remove_rule_pack V now pack_id gd =
     (case remove_rule_pack pack_id (fst gd) of
        Inl e \<Rightarrow> (Inl e, gd)
      | Inr (ok, g1) \<Rightarrow> (Inr ok, g1, if ok then snd (pg_delete_pack V now pack_id (snd gd)) else snd gd))"

subsection \<open>Attaching a server\<close>

text \<open>Step 1: the bindings of the router go up, in the order their dictionary and sets have.\<close>

fun migrate_bindings :: "'d pg_env \<Rightarrow> rat \<Rightarrow> (string \<times> string) list \<Rightarrow> 'd \<Rightarrow> unit result \<times> 'd" where
  "migrate_bindings V now [] d = (Inr (), d)"
| "migrate_bindings V now ((agent_id, pack_id) # rest) d =
     (case pg_bind V now agent_id pack_id d of
        (Inl e, d1) \<Rightarrow> (Inl e, d1) | (Inr _, d1) \<Rightarrow> migrate_bindings V now rest d1)"

text \<open>Step 2: a loaded pack goes up as the text its label reads as; the others of the database come down.\<close>

definition label_text :: "file_system \<Rightarrow> rule_pack \<Rightarrow> string" where
  "label_text fs pack =
     (if rp_source pack = [] then [] else etry (normalize_to_dsl_text fs (Some (OneSource (rp_source pack)))) [])"

fun push_packs ::
  "file_system \<Rightarrow> 'd pg_env \<Rightarrow> rat \<Rightarrow> rule_pack list \<Rightarrow> (string, string \<times> string) dict \<Rightarrow> 'd \<Rightarrow>
   (string, string \<times> string) dict result \<times> 'd" where
  "push_packs fs V now [] db_packs d = (Inr db_packs, d)"
| "push_packs fs V now (pack # packs) db_packs d =
     (if rp_pack_id pack = builtin_pack_id \<or> rp_rules pack = [] \<or> label_text fs pack = []
      then push_packs fs V now packs db_packs d
      else (case pg_upsert_pack V now (rp_pack_id pack) (label_text fs pack) (rp_source pack) d of
              (Inl e, d1) \<Rightarrow> (Inl e, d1)
            | (Inr _, d1) \<Rightarrow> push_packs fs V now packs (dict_pop (rp_pack_id pack) db_packs) d1))"

definition pull_pack ::
  "externals \<Rightarrow> file_system \<Rightarrow> rule_router \<Rightarrow> string \<times> string \<times> string \<Rightarrow> rule_router" where
  "pull_pack E fs rt row =
     (case row of (pack_id, label, dsl_text) \<Rightarrow>
        (case load_rules E fs False (Some (OneSource dsl_text)) of
           Inl _ \<Rightarrow> rt
         | Inr rules \<Rightarrow> snd (replace_pack_rules pack_id rules (if label = [] then ''postgres'' else label) False rt)))"

definition attach_packs ::
  "externals \<Rightarrow> file_system \<Rightarrow> 'd pg_env \<Rightarrow> rat \<Rightarrow> rule_router \<times> 'd \<Rightarrow> unit result \<times> rule_router \<times> 'd" where
  "attach_packs E fs V now rd =
     (case pg_list_packs V now (snd rd) of
        (Inl e, d1) \<Rightarrow> (Inl e, fst rd, d1)
      | (Inr rows, d1) \<Rightarrow>
          (case push_packs fs V now (list_packs (fst rd))
                  (foldl (\<lambda>m row. dict_set (fst row) (snd row) m) [] rows) d1 of
             (Inl e, d2) \<Rightarrow> (Inl e, fst rd, d2)
           | (Inr db_packs, d2) \<Rightarrow> (Inr (), foldl (pull_pack E fs) (fst rd) db_packs, d2)))"

text \<open>The router reads its bindings from the database afterwards; its own table is no longer used.\<close>

definition attach_postgres_backends ::
  "externals \<Rightarrow> file_system \<Rightarrow> 'd pg_env \<Rightarrow> rat \<Rightarrow> (string \<times> string) list \<Rightarrow> rule_router \<times> 'd \<Rightarrow>
   unit result \<times> rule_router \<times> 'd" where
  "attach_postgres_backends E fs V now pairs rd =
     (case migrate_bindings V now pairs (snd rd) of
        (Inl e, d1) \<Rightarrow> (Inl e, fst rd, d1)
      | (Inr _, d1) \<Rightarrow> attach_packs E fs V now (invalidate_cache (fst rd), d1))"

subsection \<open>What the statements mean\<close>

record tool_row =
  tw_boundary :: string
  tw_sensitivity :: string
  tw_integrity :: string
  tw_tags :: pyval
  tw_input_params :: pyval
  tw_updated_at :: rat

record pg_tables =
  pt_packs :: "(string, string \<times> string) dict"
  pt_bindings :: "(string \<times> string) list"
  pt_audit :: "pyval list list"
  pt_tools :: "(string \<times> string, tool_row) dict"

definition tool_columns :: "(string \<times> string) \<times> tool_row \<Rightarrow> pyval list" where
  "tool_columns x = (case x of ((owner, name), w) \<Rightarrow>
     [VStr owner, VStr name, VStr (tw_boundary w), VStr (tw_sensitivity w), VStr (tw_integrity w),
      tw_tags w, tw_input_params w, VInt (round (tw_updated_at w * 1000))])"

text \<open>\<open>jsonb\<close> reads a JSON text, and \<open>collate\<close> gives the sort key of the database's collation.\<close>

fun sql_step ::
  "(string \<Rightarrow> pyval) \<Rightarrow> (string \<Rightarrow> string) \<Rightarrow> rat \<Rightarrow> sql_statement \<Rightarrow> pg_tables \<Rightarrow> sql_answer \<times> pg_tables" where
  "sql_step jsonb collate now (PacksUpsert p label dsl) T =
     (([], 1), T\<lparr>pt_packs := dict_set p (label, dsl) (pt_packs T)\<rparr>)"
| "sql_step jsonb collate now (PacksDelete p) T =
     (([], length (filter (\<lambda>x. fst x = p) (pt_packs T))), T\<lparr>pt_packs := dict_pop p (pt_packs T)\<rparr>)"
| "sql_step jsonb collate now PacksSelect T =
     (let rows = map (\<lambda>(p, label, dsl). [VStr p, VStr label, VStr dsl]) (sort_key (collate \<circ> fst) (pt_packs T))
      in ((rows, length rows), T))"
| "sql_step jsonb collate now (BindingsOfAgent a) T =
     (let rows = map (\<lambda>x. [VStr (snd x)]) (filter (\<lambda>x. fst x = a) (pt_bindings T)) in ((rows, length rows), T))"
| "sql_step jsonb collate now (BindingsOfPack p) T =
     (let rows = map (\<lambda>x. [VStr (fst x)]) (filter (\<lambda>x. snd x = p) (pt_bindings T)) in ((rows, length rows), T))"
| "sql_step jsonb collate now (BindingsInsert a p) T =
     (([], if (a, p) \<in> set (pt_bindings T) then 0 else 1), T\<lparr>pt_bindings := List.insert (a, p) (pt_bindings T)\<rparr>)"
| "sql_step jsonb collate now (BindingsDelete a p) T =
     (([], length (filter (\<lambda>x. x = (a, p)) (pt_bindings T))), T\<lparr>pt_bindings := filter (\<lambda>x. x \<noteq> (a, p)) (pt_bindings T)\<rparr>)"
| "sql_step jsonb collate now BindingsSelect T =
     (let rows = map (\<lambda>x. [VStr (fst x), VStr (snd x)]) (pt_bindings T) in ((rows, length rows), T))"
| "sql_step jsonb collate now (BindingsDropAgent a) T =
     (([], length (filter (\<lambda>x. fst x = a) (pt_bindings T))), T\<lparr>pt_bindings := filter (\<lambda>x. fst x \<noteq> a) (pt_bindings T)\<rparr>)"
| "sql_step jsonb collate now (BindingsDropPack p) T =
     (([], length (filter (\<lambda>x. snd x = p) (pt_bindings T))), T\<lparr>pt_bindings := filter (\<lambda>x. snd x \<noteq> p) (pt_bindings T)\<rparr>)"
| "sql_step jsonb collate now (AuditInsert ts et tn ag sid act rules payload) T =
     (([], 1), T\<lparr>pt_audit := pt_audit T @ [[VInt ts, et, tn, ag, sid, act, jsonb rules, jsonb payload]]\<rparr>)"
| "sql_step jsonb collate now (ToolsSelect agent) T =
     (let rows = map tool_columns (sort_key (\<lambda>x. collate (fst (fst x))) (sort_key (\<lambda>x. collate (snd (fst x)))
            (filter (\<lambda>x. agent = None \<or> agent = Some (fst (fst x))) (pt_tools T)))) in ((rows, length rows), T))"
| "sql_step jsonb collate now (ToolsGet a n) T =
     (case map_of (pt_tools T) (a, n) of None \<Rightarrow> (([], 0), T) | Some w \<Rightarrow> (([tool_columns ((a, n), w)], 1), T))"
| "sql_step jsonb collate now (ToolsUpsert a n b s i tags params) T =
     (([], 1), T\<lparr>pt_tools := dict_set (a, n) \<lparr>tw_boundary = b, tw_sensitivity = s, tw_integrity = i,
        tw_tags = jsonb tags, tw_input_params = jsonb params, tw_updated_at = now\<rparr> (pt_tools T)\<rparr>)"
| "sql_step jsonb collate now (ToolsRelabel b s i tags a n) T =
     (case map_of (pt_tools T) (a, n) of
        None \<Rightarrow> (([], 0), T)
      | Some w \<Rightarrow> (([], 1), T\<lparr>pt_tools := dict_set (a, n) \<lparr>tw_boundary = b, tw_sensitivity = s, tw_integrity = i,
          tw_tags = jsonb tags, tw_input_params = tw_input_params w, tw_updated_at = now\<rparr> (pt_tools T)\<rparr>))"
| "sql_step jsonb collate now ToolsDelete T = (([], length (pt_tools T)), T\<lparr>pt_tools := []\<rparr>)"

text \<open>Rows that no clause orders come in any order.\<close>

definition ordered :: "sql_statement \<Rightarrow> bool" where
  "ordered st \<longleftrightarrow> (case st of PacksSelect \<Rightarrow> True | ToolsSelect _ \<Rightarrow> True | _ \<Rightarrow> False)"

definition behaves_like_postgres ::
  "'d pg_env \<Rightarrow> ('d \<Rightarrow> pg_tables) \<Rightarrow> (string \<Rightarrow> pyval) \<Rightarrow> (string \<Rightarrow> string) \<Rightarrow> bool" where
  "behaves_like_postgres V tables jsonb collate \<longleftrightarrow>
     (\<forall>now st d. \<exists>rows. fst (pv_exec V now st d) = Inr (rows, snd (fst (sql_step jsonb collate now st (tables d)))) \<and>
        set rows = set (fst (fst (sql_step jsonb collate now st (tables d)))) \<and>
        (ordered st \<longrightarrow> rows = fst (fst (sql_step jsonb collate now st (tables d)))) \<and>
        tables (snd (pv_exec V now st d)) = snd (sql_step jsonb collate now st (tables d))) \<and>
     (\<forall>ss. \<exists>s. pv_dumps V (VList (map VStr ss)) = Inr s \<and> jsonb s = VList (map VStr ss))"

lemma pg_cases:
  assumes "behaves_like_postgres V tables jsonb collate"
  obtains rows d' where "pv_exec V now st d = (Inr (rows, snd (fst (sql_step jsonb collate now st (tables d)))), d')"
    "set rows = set (fst (fst (sql_step jsonb collate now st (tables d))))"
    "ordered st \<longrightarrow> rows = fst (fst (sql_step jsonb collate now st (tables d)))"
    "tables d' = snd (sql_step jsonb collate now st (tables d))"
proof -
  have "\<exists>rows. fst (pv_exec V now st d) = Inr (rows, snd (fst (sql_step jsonb collate now st (tables d)))) \<and>
      set rows = set (fst (fst (sql_step jsonb collate now st (tables d)))) \<and>
      (ordered st \<longrightarrow> rows = fst (fst (sql_step jsonb collate now st (tables d)))) \<and>
      tables (snd (pv_exec V now st d)) = snd (sql_step jsonb collate now st (tables d))"
    using assms unfolding behaves_like_postgres_def by blast
  with that show ?thesis by (metis prod.collapse)
qed

subsection \<open>The bindings are a relation\<close>

text \<open>The operations with their answers taken out: nothing raises on a database that behaves.\<close>

definition answer :: "'a \<Rightarrow> 'a result \<times> 'd \<Rightarrow> 'a" where
  "answer x out = etry (fst out) x"

lemma pg_packs_of_table:
  assumes "behaves_like_postgres V tables jsonb collate"
  shows "fst (pg_packs_of V now a d) = Inr {p. (a, p) \<in> set (pt_bindings (tables d))}"
proof (rule pg_cases [OF assms, of now "BindingsOfAgent a" d])
  fix rows d'
  assume r: "pv_exec V now (BindingsOfAgent a) d =
      (Inr (rows, snd (fst (sql_step jsonb collate now (BindingsOfAgent a) (tables d)))), d')"
    and rows: "set rows = set (fst (fst (sql_step jsonb collate now (BindingsOfAgent a) (tables d))))"
  have "column 0 ` set rows = {p. (a, p) \<in> set (pt_bindings (tables d))}"
    unfolding rows by (force simp: column_def Let_def)
  then show ?thesis by (simp add: pg_packs_of_def pg_rows_def r)
qed

lemma pg_agents_of_table:
  assumes "behaves_like_postgres V tables jsonb collate"
  shows "fst (pg_agents_of V now p d) = Inr {a. (a, p) \<in> set (pt_bindings (tables d))}"
proof (rule pg_cases [OF assms, of now "BindingsOfPack p" d])
  fix rows d'
  assume r: "pv_exec V now (BindingsOfPack p) d =
      (Inr (rows, snd (fst (sql_step jsonb collate now (BindingsOfPack p) (tables d)))), d')"
    and rows: "set rows = set (fst (fst (sql_step jsonb collate now (BindingsOfPack p) (tables d))))"
  have "column 0 ` set rows = {a. (a, p) \<in> set (pt_bindings (tables d))}"
    unfolding rows by (force simp: column_def Let_def)
  then show ?thesis by (simp add: pg_agents_of_def pg_rows_def r)
qed

lemma pg_bind_table:
  assumes "behaves_like_postgres V tables jsonb collate"
  shows "\<exists>d'. pg_bind V now a p d = (Inr (), d') \<and> tables d' = (tables d)\<lparr>pt_bindings := List.insert (a, p) (pt_bindings (tables d))\<rparr>"
  by (rule pg_cases [OF assms, of now "BindingsInsert a p" d]) (simp add: pg_bind_def pg_command_def)

lemma pg_unbind_table:
  assumes "behaves_like_postgres V tables jsonb collate"
  shows "\<exists>d'. pg_unbind V now a p d = (Inr ((a, p) \<in> set (pt_bindings (tables d))), d') \<and>
    tables d' = (tables d)\<lparr>pt_bindings := filter (\<lambda>x. x \<noteq> (a, p)) (pt_bindings (tables d))\<rparr>"
  by (rule pg_cases [OF assms, of now "BindingsDelete a p" d])
    (auto simp: pg_unbind_def pg_count_def filter_empty_conv simp flip: length_greater_0_conv)

lemma pg_clear_tables:
  assumes "behaves_like_postgres V tables jsonb collate"
  shows "\<exists>d'. pg_clear_agent V now a d = (Inr (), d') \<and>
      tables d' = (tables d)\<lparr>pt_bindings := filter (\<lambda>x. fst x \<noteq> a) (pt_bindings (tables d))\<rparr>"
    and "\<exists>d'. pg_clear_pack V now p d = (Inr (), d') \<and>
      tables d' = (tables d)\<lparr>pt_bindings := filter (\<lambda>x. snd x \<noteq> p) (pt_bindings (tables d))\<rparr>"
  by (rule pg_cases [OF assms, of now "BindingsDropAgent a" d], simp add: pg_clear_agent_def pg_command_def)
    (rule pg_cases [OF assms, of now "BindingsDropPack p" d], simp add: pg_clear_pack_def pg_command_def)

text \<open>The contract of \<open>Agent_Bindings\<close>, which the store in memory provides as well.\<close>

lemma pg_binding_store:
  assumes V: "behaves_like_postgres V tables jsonb collate"
  shows "binding_store (\<lambda>_. True) (\<lambda>d a. answer {} (pg_packs_of V now a d)) (\<lambda>d p. answer {} (pg_agents_of V now p d))
    (\<lambda>a p d. snd (pg_bind V now a p d)) (\<lambda>a p d. (answer False (pg_unbind V now a p d), snd (pg_unbind V now a p d)))
    (\<lambda>a d. snd (pg_clear_agent V now a d)) (\<lambda>p d. snd (pg_clear_pack V now p d))"
proof
  fix a p b d
  show "answer {} (pg_packs_of V now b (snd (pg_bind V now a p d))) =
      (if b = a then insert p (answer {} (pg_packs_of V now b d)) else answer {} (pg_packs_of V now b d))"
    using pg_bind_table [OF V, of now a p d] by (auto simp: answer_def pg_packs_of_table [OF V])
  show "answer {} (pg_packs_of V now b (snd (answer False (pg_unbind V now a p d), snd (pg_unbind V now a p d)))) =
      (if b = a then answer {} (pg_packs_of V now b d) - {p} else answer {} (pg_packs_of V now b d))"
    using pg_unbind_table [OF V, of now a p d] by (auto simp: answer_def pg_packs_of_table [OF V])
  show "fst (answer False (pg_unbind V now a p d), snd (pg_unbind V now a p d)) = (p \<in> answer {} (pg_packs_of V now a d))"
    using pg_unbind_table [OF V, of now a p d] by (auto simp: answer_def pg_packs_of_table [OF V])
  show "answer {} (pg_packs_of V now b (snd (pg_clear_agent V now a d))) = (if b = a then {} else answer {} (pg_packs_of V now b d))"
    using pg_clear_tables(1) [OF V, of now a d] by (auto simp: answer_def pg_packs_of_table [OF V])
  show "answer {} (pg_packs_of V now b (snd (pg_clear_pack V now p d))) = answer {} (pg_packs_of V now b d) - {p}"
    using pg_clear_tables(2) [OF V, of now p d] by (auto simp: answer_def pg_packs_of_table [OF V])
qed (simp_all add: answer_def pg_packs_of_table [OF V] pg_agents_of_table [OF V])

text \<open>Migration adds the bindings of the router and loses none.\<close>

lemma migrate_bindings_table:
  assumes V: "behaves_like_postgres V tables jsonb collate"
  shows "\<exists>d'. migrate_bindings V now pairs d = (Inr (), d') \<and>
    set (pt_bindings (tables d')) = set pairs \<union> set (pt_bindings (tables d)) \<and>
    tables d' = (tables d)\<lparr>pt_bindings := pt_bindings (tables d')\<rparr>"
proof (induction pairs arbitrary: d)
  case Nil
  then show ?case by simp
next
  case (Cons x pairs)
  obtain a p where x: "x = (a, p)" by (cases x)
  obtain d1 where d1: "pg_bind V now a p d = (Inr (), d1)"
    "tables d1 = (tables d)\<lparr>pt_bindings := List.insert (a, p) (pt_bindings (tables d))\<rparr>"
    using pg_bind_table [OF V] by blast
  show ?case using Cons.IH [of d1] by (auto simp: x d1)
qed

subsection \<open>The two catalogs\<close>

text \<open>Writes to a catalog, each at its time, to the one in memory and to the one in the database.\<close>

datatype catalog_write = WriteTool catalog_entry | WriteLabels string string catalog_labels | ClearTools

fun memory_write :: "catalog_write \<Rightarrow> int \<Rightarrow> catalog_store \<Rightarrow> catalog_store" where
  "memory_write (WriteTool e) now_ms cs = snd (catalog_upsert now_ms e cs)"
| "memory_write (WriteLabels a n lb) now_ms cs = snd (catalog_update_labels now_ms a n lb cs)"
| "memory_write ClearTools now_ms cs = catalog_clear cs"

fun pg_write :: "'d pg_env \<Rightarrow> rat \<Rightarrow> catalog_write \<Rightarrow> int \<Rightarrow> 'd \<Rightarrow> 'd" where
  "pg_write V now (WriteTool e) now_ms d = snd (pg_upsert_tool V now now_ms e d)"
| "pg_write V now (WriteLabels a n lb) now_ms d = snd (pg_update_tool_labels V now a n lb d)"
| "pg_write V now ClearTools now_ms d = snd (pg_clear_tools V now d)"

text \<open>A row and an entry that differ at most in the time of the last write.\<close>

definition row_matches :: "catalog_entry \<Rightarrow> tool_row \<Rightarrow> bool" where
  "row_matches e w \<longleftrightarrow> tw_boundary w = cl_boundary (ce_labels e) \<and> tw_sensitivity w = cl_sensitivity (ce_labels e) \<and>
     tw_integrity w = cl_integrity (ce_labels e) \<and> tw_tags w = VList (map VStr (cl_tags (ce_labels e))) \<and>
     tw_input_params w = VList (map VStr (ce_input_params e))"

definition tools_match :: "catalog_store \<Rightarrow> pg_tables \<Rightarrow> bool" where
  "tools_match cs T \<longleftrightarrow> (\<forall>k. rel_option row_matches (map_of (cs_tools cs) k) (map_of (pt_tools T) k))"

lemma row_matches_timed [simp]: "row_matches (with_updated_timestamp t x e) w = row_matches e w"
  by (simp add: row_matches_def with_updated_timestamp_def)

lemma dumps_strings:
  assumes "behaves_like_postgres V tables jsonb collate"
  obtains s where "pv_dumps V (VList (map VStr ss)) = Inr s" "jsonb s = VList (map VStr ss)"
  using assms unfolding behaves_like_postgres_def by blast

lemma pg_upsert_tool_table:
  assumes V: "behaves_like_postgres V tables jsonb collate"
  shows "\<exists>w. row_matches e w \<and> tables (snd (pg_upsert_tool V now now_ms e d)) =
    (tables d)\<lparr>pt_tools := dict_set (ce_owner_agent_id e, ce_name e) w (pt_tools (tables d))\<rparr>"
proof -
  obtain s where s: "pv_dumps V (VList (map VStr (cl_tags (ce_labels e)))) = Inr s"
    "jsonb s = VList (map VStr (cl_tags (ce_labels e)))" by (rule dumps_strings [OF V])
  obtain t where t: "pv_dumps V (VList (map VStr (ce_input_params e))) = Inr t"
    "jsonb t = VList (map VStr (ce_input_params e))" by (rule dumps_strings [OF V])
  let ?st = "ToolsUpsert (ce_owner_agent_id e) (ce_name e) (cl_boundary (ce_labels e))
    (cl_sensitivity (ce_labels e)) (cl_integrity (ce_labels e)) s t"
  have "tables (snd (pg_upsert_tool V now now_ms e d)) = snd (sql_step jsonb collate now ?st (tables d))"
    by (rule pg_cases [OF V, of now ?st d]) (simp add: pg_upsert_tool_def Let_def s t pg_command_def)
  then show ?thesis
    by (intro exI [of _ "\<lparr>tw_boundary = cl_boundary (ce_labels e), tw_sensitivity = cl_sensitivity (ce_labels e),
        tw_integrity = cl_integrity (ce_labels e), tw_tags = jsonb s, tw_input_params = jsonb t, tw_updated_at = now\<rparr>"])
      (simp add: row_matches_def s t)
qed

lemma pg_relabel_table:
  assumes V: "behaves_like_postgres V tables jsonb collate"
  shows "case map_of (pt_tools (tables d)) (a, n) of
      None \<Rightarrow> tables (snd (pg_update_tool_labels V now a n lb d)) = tables d
    | Some w \<Rightarrow> \<exists>w'. tables (snd (pg_update_tool_labels V now a n lb d)) =
          (tables d)\<lparr>pt_tools := dict_set (a, n) w' (pt_tools (tables d))\<rparr> \<and>
        (\<forall>e. row_matches e w \<longrightarrow> row_matches (e\<lparr>ce_labels := lb\<rparr>) w')"
proof -
  obtain s where s: "pv_dumps V (VList (map VStr (cl_tags lb))) = Inr s" "jsonb s = VList (map VStr (cl_tags lb))"
    by (rule dumps_strings [OF V])
  let ?st = "ToolsRelabel (cl_boundary lb) (cl_sensitivity lb) (cl_integrity lb) s a n"
  obtain rows d1 where d1: "pv_exec V now ?st d = (Inr (rows, snd (fst (sql_step jsonb collate now ?st (tables d)))), d1)"
    "tables d1 = snd (sql_step jsonb collate now ?st (tables d))" by (rule pg_cases [OF V, of now ?st d])
  have g: "tables (snd (pg_get_tool V now n a d1)) = tables d1"
    by (rule pg_cases [OF V, of now "ToolsGet a n" d1]) (simp add: pg_get_tool_def pg_rows_def split: option.splits)
  show ?thesis
    using d1 g by (auto simp: pg_update_tool_labels_def s pg_count_def row_matches_def split: option.splits)
qed

lemma pg_write_matches:
  assumes V: "behaves_like_postgres V tables jsonb collate" and m: "tools_match cs (tables d)"
  shows "tools_match (memory_write w t cs) (tables (pg_write V now w t d))"
proof (cases w)
  case (WriteTool e)
  then show ?thesis
    using pg_upsert_tool_table [OF V, of e now t d] m
    by (auto simp: tools_match_def catalog_upsert_def Let_def with_updated_timestamp_def row_matches_def)
next
  case (WriteLabels a n lb)
  have rel: "rel_option row_matches (map_of (cs_tools cs) (a, n)) (map_of (pt_tools (tables d)) (a, n))"
    using m by (simp add: tools_match_def)
  note table = pg_relabel_table [OF V, where d = d and a = a and n = n and now = now and lb = lb]
  show ?thesis
  proof (cases "map_of (pt_tools (tables d)) (a, n)")
    case None
    then show ?thesis using rel table m WriteLabels by (simp add: catalog_update_labels_def)
  next
    case (Some w0)
    then obtain e where e: "map_of (cs_tools cs) (a, n) = Some e" "row_matches e w0"
      using rel by (auto simp: option_rel_Some2)
    obtain w' where "tables (snd (pg_update_tool_labels V now a n lb d)) =
        (tables d)\<lparr>pt_tools := dict_set (a, n) w' (pt_tools (tables d))\<rparr>" "row_matches (e\<lparr>ce_labels := lb\<rparr>) w'"
      using table Some e(2) by auto
    then show ?thesis using m e(1) WriteLabels by (simp add: tools_match_def catalog_update_labels_def Let_def)
  qed
next
  case ClearTools
  have "tables (snd (pg_clear_tools V now d)) = (tables d)\<lparr>pt_tools := []\<rparr>"
    by (rule pg_cases [OF V, of now ToolsDelete d]) (simp add: pg_clear_tools_def pg_command_def)
  then show ?thesis by (simp add: ClearTools tools_match_def catalog_clear_def)
qed

definition memory_writes :: "(rat \<times> int \<times> catalog_write) list \<Rightarrow> catalog_store \<Rightarrow> catalog_store" where
  "memory_writes ws cs = foldl (\<lambda>cs (now, t, w). memory_write w t cs) cs ws"

definition pg_writes :: "'d pg_env \<Rightarrow> (rat \<times> int \<times> catalog_write) list \<Rightarrow> 'd \<Rightarrow> 'd" where
  "pg_writes V ws d = foldl (\<lambda>d (now, t, w). pg_write V now w t d) d ws"

lemma pg_writes_match:
  "behaves_like_postgres V tables jsonb collate \<Longrightarrow> tools_match cs (tables d) \<Longrightarrow>
     tools_match (memory_writes ws cs) (tables (pg_writes V ws d))"
  by (induction ws arbitrary: cs d) (auto simp: memory_writes_def pg_writes_def pg_write_matches)

definition untimed :: "catalog_entry \<Rightarrow> catalog_entry" where
  "untimed e = e\<lparr>ce_updated_at_ms := None\<rparr>"

lemma emap_strings: "emap (\<lambda>x. case x of VStr s \<Rightarrow> Inr s | _ \<Rightarrow> Inl e) (map VStr ss) = Inr ss"
  by (induction ss) simp_all

lemma strings_of_strings [simp]: "json_strings (VList (map VStr ss)) = Inr ss"
  by (cases ss) (simp_all add: json_strings_def py_or_def emap_strings del: map_map flip: list.map)

lemma row_to_entry_columns:
  assumes "row_matches e w"
  shows "\<exists>e'. row_to_entry (tool_columns ((ce_owner_agent_id e, ce_name e), w)) = Inr e' \<and> untimed e' = untimed e"
proof -
  have "row_to_entry (tool_columns ((ce_owner_agent_id e, ce_name e), w)) = Inr (e\<lparr>ce_updated_at_ms :=
      (if round (tw_updated_at w * 1000) = 0 then None else Some (round (tw_updated_at w * 1000)))\<rparr>)"
    using assms by (simp add: row_to_entry_def tool_columns_def row_matches_def py_int_def)
  then show ?thesis by (simp add: untimed_def)
qed

text \<open>What the database answers is what memory would, but for the time.\<close>

lemma pg_get_matches:
  assumes V: "behaves_like_postgres V tables jsonb collate" and ok: "catalog_ok cs" and m: "tools_match cs (tables d)"
  shows "\<exists>x d'. pg_get_tool V now n a d = (Inr x, d') \<and> map_option untimed x = map_option untimed (catalog_get n a cs)"
proof -
  obtain rows d' where r: "pv_exec V now (ToolsGet a n) d =
      (Inr (rows, snd (fst (sql_step jsonb collate now (ToolsGet a n) (tables d)))), d')"
    "set rows = set (fst (fst (sql_step jsonb collate now (ToolsGet a n) (tables d))))"
    by (rule pg_cases [OF V, of now "ToolsGet a n" d])
  have rel: "rel_option row_matches (map_of (cs_tools cs) (a, n)) (map_of (pt_tools (tables d)) (a, n))"
    using m by (simp add: tools_match_def)
  show ?thesis
  proof (cases "map_of (pt_tools (tables d)) (a, n)")
    case None
    then show ?thesis using r rel by (auto simp: pg_get_tool_def pg_rows_def catalog_get_def)
  next
    case (Some w)
    then obtain e where e: "map_of (cs_tools cs) (a, n) = Some e" "row_matches e w"
      using rel by (auto simp: option_rel_Some2)
    have k: "ce_owner_agent_id e = a" "ce_name e = n" using catalog_ok_key [OF ok e(1)] by simp_all
    have "set rows = {tool_columns ((a, n), w)}" using r(2) Some by simp
    then obtain more where rows: "rows = tool_columns ((a, n), w) # more" by (cases rows) auto
    obtain e' where "row_to_entry (tool_columns ((a, n), w)) = Inr e'" "untimed e' = untimed e"
      using row_to_entry_columns [OF e(2)] k by auto
    then show ?thesis using r rows e(1) by (simp add: pg_get_tool_def pg_rows_def catalog_get_def)
  qed
qed

subsection \<open>Packs up and down\<close>

definition pushed :: "file_system \<Rightarrow> rule_pack \<Rightarrow> bool" where
  "pushed fs pack \<longleftrightarrow> rp_pack_id pack \<noteq> builtin_pack_id \<and> rp_rules pack \<noteq> [] \<and> label_text fs pack \<noteq> []"

lemma pg_upsert_pack_table:
  assumes "behaves_like_postgres V tables jsonb collate"
  shows "\<exists>d'. pg_upsert_pack V now p dsl label d = (Inr (), d') \<and>
    tables d' = (tables d)\<lparr>pt_packs := dict_set p (label, dsl) (pt_packs (tables d))\<rparr>"
  by (rule pg_cases [OF assms, of now "PacksUpsert p label dsl" d]) (simp add: pg_upsert_pack_def pg_command_def)

text \<open>Every pack of the router is written as what its label reads as; the others stay as they were.\<close>

lemma push_packs_table:
  assumes V: "behaves_like_postgres V tables jsonb collate"
  shows "\<exists>db' d'. push_packs fs V now packs db d = (Inr db', d') \<and>
    pt_packs (tables d') = foldl (\<lambda>m p. dict_set (rp_pack_id p) (rp_source p, label_text fs p) m)
      (pt_packs (tables d)) (filter (pushed fs) packs) \<and>
    db' = foldl (\<lambda>m p. dict_pop (rp_pack_id p) m) db (filter (pushed fs) packs)"
proof (induction packs arbitrary: db d)
  case Nil
  then show ?case by simp
next
  case (Cons p packs)
  show ?case
  proof (cases "pushed fs p")
    case False
    with Cons.IH [of db d] show ?thesis by (auto simp: pushed_def)
  next
    case True
    obtain d1 where d1: "pg_upsert_pack V now (rp_pack_id p) (label_text fs p) (rp_source p) d = (Inr (), d1)"
      "tables d1 = (tables d)\<lparr>pt_packs := dict_set (rp_pack_id p) (rp_source p, label_text fs p) (pt_packs (tables d))\<rparr>"
      using pg_upsert_pack_table [OF V] by blast
    with Cons.IH [of "dict_pop (rp_pack_id p) db" d1] True show ?thesis by (auto simp: pushed_def)
  qed
qed

lemma map_of_pushed:
  assumes "distinct (map rp_pack_id packs)" and "p \<in> set packs"
  shows "map_of (foldl (\<lambda>m p. dict_set (rp_pack_id p) (f p) m) m packs) (rp_pack_id p) = Some (f p)"
  using assms
proof (induction packs rule: rev_induct)
  case (snoc x xs)
  have "p \<in> set xs \<Longrightarrow> rp_pack_id p \<noteq> rp_pack_id x" using snoc.prems(1) by (auto simp: image_iff)
  with snoc show ?case by (cases "p = x") auto
qed simp

lemma map_of_popped:
  "map_of (foldl (\<lambda>m p. dict_pop (rp_pack_id p) m) m packs) k = (if k \<in> rp_pack_id ` set packs then None else map_of m k)"
  by (induction packs arbitrary: m) auto

lemma pg_list_packs_table:
  assumes "behaves_like_postgres V tables jsonb collate"
  shows "\<exists>d'. pg_list_packs V now d = (Inr (sort_key (collate \<circ> fst) (pt_packs (tables d))), d') \<and> tables d' = tables d"
proof (rule pg_cases [OF assms, of now PacksSelect d])
  fix rows d'
  assume r: "pv_exec V now PacksSelect d = (Inr (rows, snd (fst (sql_step jsonb collate now PacksSelect (tables d)))), d')"
    and o: "ordered PacksSelect \<longrightarrow> rows = fst (fst (sql_step jsonb collate now PacksSelect (tables d)))"
    and t: "tables d' = snd (sql_step jsonb collate now PacksSelect (tables d))"
  have "rows = map (\<lambda>(p, label, dsl). [VStr p, VStr label, VStr dsl]) (sort_key (collate \<circ> fst) (pt_packs (tables d)))"
    using o by (simp add: ordered_def Let_def)
  then show ?thesis
    using r t by (simp add: pg_list_packs_def pg_rows_def column_def split_beta comp_def Let_def)
qed

lemma get_replaced [simp]:
  "get_pack k (snd (replace_pack_rules p rules src m rt)) =
     (if k = p then Some \<lparr>rp_pack_id = p, rp_rules = rules, rp_source = src, rp_user_managed = m\<rparr> else get_pack k rt)"
  by (simp add: get_pack_def replace_pack_rules_def upsert_pack_def Let_def)

text \<open>A pack that comes down is compiled from its text, or left out when that fails.\<close>

lemma get_pulled:
  assumes "distinct (map fst rows)"
  shows "get_pack k (foldl (pull_pack E fs) rt rows) =
    (case map_of rows k of
       None \<Rightarrow> get_pack k rt
     | Some (label, dsl) \<Rightarrow>
         (case load_rules E fs False (Some (OneSource dsl)) of
            Inl _ \<Rightarrow> get_pack k rt
          | Inr rules \<Rightarrow> Some \<lparr>rp_pack_id = k, rp_rules = rules,
              rp_source = (if label = [] then ''postgres'' else label), rp_user_managed = False\<rparr>))"
  using assms
proof (induction rows arbitrary: rt)
  case Nil
  then show ?case by simp
next
  case (Cons x rows)
  obtain p label dsl where x: "x = (p, label, dsl)" by (cases x)
  have "map_of rows p = None" using Cons.prems by (simp add: x map_of_eq_None_iff)
  then show ?case using Cons.IH [of "pull_pack E fs rt x"] Cons.prems
    by (auto simp: x pull_pack_def split: sum.split option.split)
qed

lemma dict_of_rows: "distinct (map fst rows) \<Longrightarrow> foldl (\<lambda>m row. dict_set (fst row) (snd row) m) [] rows = rows"
proof (induction rows rule: rev_induct)
  case (snoc x xs)
  then show ?case by (simp add: update_new)
qed simp

text \<open>After a server is attached: packs of the router in the database, packs of the database in the router.\<close>

lemma attach_packs_exchange:
  assumes V: "behaves_like_postgres V tables jsonb collate"
    and db: "distinct (map fst (pt_packs (tables d)))"
    and rt: "distinct (map rp_pack_id (list_packs rt))"
    and run: "attach_packs E fs V now (rt, d) = (out, rt', d')"
  shows "out = Inr ()"
    and "distinct (map fst (pt_packs (tables d')))"
    and "p \<in> set (list_packs rt) \<Longrightarrow> pushed fs p \<Longrightarrow>
      map_of (pt_packs (tables d')) (rp_pack_id p) = Some (rp_source p, label_text fs p)"
    and "get_pack k rt' =
      (case (if k \<in> rp_pack_id ` {p \<in> set (list_packs rt). pushed fs p} then None else map_of (pt_packs (tables d)) k) of
         None \<Rightarrow> get_pack k rt
       | Some (label, dsl) \<Rightarrow>
           (case load_rules E fs False (Some (OneSource dsl)) of
              Inl _ \<Rightarrow> get_pack k rt
            | Inr rules \<Rightarrow> Some \<lparr>rp_pack_id = k, rp_rules = rules,
                rp_source = (if label = [] then ''postgres'' else label), rp_user_managed = False\<rparr>))"
proof -
  let ?rows = "sort_key (collate \<circ> fst) (pt_packs (tables d))"
  let ?ps = "filter (pushed fs) (list_packs rt)"
  obtain d1 where d1: "pg_list_packs V now d = (Inr ?rows, d1)" "tables d1 = tables d"
    using pg_list_packs_table [OF V] by blast
  have dist: "distinct (map fst ?rows)"
  proof -
    have "mset (map fst ?rows) = mset (map fst (pt_packs (tables d)))" by simp
    then show ?thesis using db by (metis mset_eq_imp_distinct_iff)
  qed
  have rows: "foldl (\<lambda>m row. dict_set (fst row) (snd row) m) [] ?rows = ?rows" by (rule dict_of_rows [OF dist])
  obtain db' d2 where d2: "push_packs fs V now (list_packs rt) ?rows d1 = (Inr db', d2)"
    "pt_packs (tables d2) = foldl (\<lambda>m p. dict_set (rp_pack_id p) (rp_source p, label_text fs p) m) (pt_packs (tables d1)) ?ps"
    "db' = foldl (\<lambda>m p. dict_pop (rp_pack_id p) m) ?rows ?ps"
    using push_packs_table [OF V] by blast
  have out: "out = Inr ()" "rt' = foldl (pull_pack E fs) rt db'" "d' = d2"
    using run by (simp_all add: attach_packs_def d1 rows d2)
  have same: "map_of ?rows = map_of (pt_packs (tables d))"
    using dist db by (intro map_of_eqI) (auto simp: map_of_eq_Some_iff)
  have "distinct (map fst (foldl (\<lambda>m p. dict_pop (rp_pack_id p) m) m ps))" if "distinct (map fst m)" for m and ps :: "rule_pack list"
    using that by (induction ps arbitrary: m) (auto simp: distinct_delete)
  then have "distinct (map fst db')" using dist d2(3) by blast
  then show "get_pack k rt' =
      (case (if k \<in> rp_pack_id ` {p \<in> set (list_packs rt). pushed fs p} then None else map_of (pt_packs (tables d)) k) of
         None \<Rightarrow> get_pack k rt
       | Some (label, dsl) \<Rightarrow>
           (case load_rules E fs False (Some (OneSource dsl)) of
              Inl _ \<Rightarrow> get_pack k rt
            | Inr rules \<Rightarrow> Some \<lparr>rp_pack_id = k, rp_rules = rules,
                rp_source = (if label = [] then ''postgres'' else label), rp_user_managed = False\<rparr>))"
    by (simp add: out get_pulled map_of_popped d2 same)
  show "out = Inr ()" by (rule out)
  have "distinct (map fst (foldl (\<lambda>m p. dict_set (rp_pack_id p) (f p) m) m ps))" if "distinct (map fst m)"
    for m and ps :: "rule_pack list" and f :: "rule_pack \<Rightarrow> string \<times> string"
    using that by (induction ps arbitrary: m) (auto simp: distinct_update)
  then show "distinct (map fst (pt_packs (tables d')))" using db by (simp add: out d2 d1)
  assume p: "p \<in> set (list_packs rt)" "pushed fs p"
  show "map_of (pt_packs (tables d')) (rp_pack_id p) = Some (rp_source p, label_text fs p)"
    using map_of_pushed [of ?ps p "\<lambda>p. (rp_source p, label_text fs p)"] p rt
    by (simp add: out d2 distinct_map_filter)
qed

end
