(* ===== verification/Storage_Properties.thy ===== *)
theory Storage_Properties
  imports Sample Redis_Cache Postgres_Stores
begin

text \<open>
  What the external stores guarantee when their servers do what their documentation says: the traces in
  Redis are those of the cache in memory, clearing stays within the keys of the guard, the bindings and
  the catalog in PostgreSQL are those in memory, and the packs of a server return after a restart.
  The examples run on servers that are the documented commands and statements themselves.
\<close>

subsection \<open>Example servers\<close>

text \<open>An encoding of one name and one number, and of lists of strings, that can be read back.\<close>

definition print_entry :: "string \<Rightarrow> int \<Rightarrow> string" where
  "print_entry tool n = (if n < 0 then ''-'' else ''+'') @ replicate (nat \<bar>n\<bar>) (CHR ''1'') @ ''|'' @ tool"

definition scan_entry :: "string \<Rightarrow> pyval" where
  "scan_entry s =
     (let body = tl s; m = int (length (takeWhile (\<lambda>c. c = CHR ''1'') body));
          tool = tl (dropWhile (\<lambda>c. c = CHR ''1'') body)
      in VList [VStr tool, VInt (if hd s = CHR ''-'' then - m else m)])"

lemma dropWhile_ones: "y \<noteq> x \<Longrightarrow> dropWhile (\<lambda>c. c = x) (replicate k x @ y # ys) = y # ys"
  by (induction k) simp_all

lemma scan_print_entry: "scan_entry (print_entry tool n) = VList [VStr tool, VInt n]"
  by (simp add: scan_entry_def print_entry_def Let_def takeWhile_tail takeWhile_append2 dropWhile_ones)

definition print_strings :: "string list \<Rightarrow> string" where
  "print_strings ss = concat (map (\<lambda>s. concat (map (\<lambda>c. [CHR ''c'', c]) s) @ ''.'') ss)"

fun scan_strings :: "string \<Rightarrow> string \<Rightarrow> string list" where
  "scan_strings [] cur = []"
| "scan_strings [a] cur = [cur]"
| "scan_strings (a # c # r) cur =
     (if a = CHR ''.'' then cur # scan_strings (c # r) [] else scan_strings r (cur @ [c]))"

lemma scan_print_strings: "scan_strings (print_strings ss) [] = ss"
proof -
  have one: "scan_strings (concat (map (\<lambda>c. [CHR ''c'', c]) s) @ CHR ''.'' # r) cur = (cur @ s) # scan_strings r []"
    for s r cur
  proof (induction s arbitrary: cur)
    case Nil
    then show ?case by (cases r) simp_all
  qed simp
  show ?thesis by (induction ss) (simp_all add: print_strings_def one)
qed

definition sample_dumps :: "pyval \<Rightarrow> string result" where
  "sample_dumps v =
     (case v of VList [VStr tool, VInt n] \<Rightarrow> Inr (print_entry tool n) | _ \<Rightarrow> Inl TypeError)"

text \<open>A Redis that knows which keys to look for when it scans.\<close>

definition sample_redis :: "redis_db redis_env" where
  "sample_redis = \<lparr>rv_exec = redis_run,
     rv_scan = (\<lambda>now cursor pattern d.
        (Inr (0, filter (\<lambda>k. d k \<noteq> None \<and> starts_with k (butlast pattern)) [''ag:sess:1'', ''ag:other:1'']), d)),
     rv_dumps = sample_dumps, rv_dumps_str = sample_dumps, rv_loads = (\<lambda>s. Inr (scan_entry s)),
     rv_lua_decode = (\<lambda>s. Inr (scan_entry s)), rv_lua_encode = (\<lambda>_. Inl ValueError)\<rparr>"

definition no_keys :: redis_db where
  "no_keys = (\<lambda>_. None)"

lemma sample_redis_behaves:
  "behaves_like_redis sample_redis (\<lambda>d. d)" "scans_matching sample_redis (\<lambda>d. d)" "json_keeps sample_redis"
  by (simp_all add: sample_redis_def behaves_like_redis_def scans_matching_def json_keeps_def sample_dumps_def
      scan_print_entry)

definition string_of :: "pyval \<Rightarrow> string" where
  "string_of v = (case v of VStr s \<Rightarrow> s | _ \<Rightarrow> [])"

definition sample_jsonb :: "string \<Rightarrow> pyval" where
  "sample_jsonb s = VList (map VStr (scan_strings s []))"

definition sample_postgres :: "pg_tables pg_env" where
  "sample_postgres = \<lparr>pv_exec = (\<lambda>now st d. apfst Inr (sql_step sample_jsonb (\<lambda>s. s) now st d)),
     pv_dumps = (\<lambda>v. case v of VList xs \<Rightarrow> Inr (print_strings (map string_of xs)) | _ \<Rightarrow> Inl TypeError)\<rparr>"

definition no_tables :: pg_tables where
  "no_tables = \<lparr>pt_packs = [], pt_bindings = [], pt_audit = [], pt_tools = []\<rparr>"

lemma sample_postgres_behaves: "behaves_like_postgres sample_postgres (\<lambda>d. d) sample_jsonb (\<lambda>s. s)"
  by (simp add: sample_postgres_def behaves_like_postgres_def sample_jsonb_def scan_print_strings string_of_def comp_def
      prod_eq_iff)

subsection \<open>The trace in Redis\<close>

text \<open>C23: Whatever is appended to a trace in Redis, reading it back gives the trace the cache in memory
  has after the same entries: the last ones that fit, in order.\<close>

theorem redis_trace_is_memory_trace:
  assumes "behaves_like_redis V db_of" and "json_keeps V" and "db_of r k = None"
  shows "fst (redis_read_trace V now k (redis_append_all V k (int trace_log_cap) xs r)) =
     Inr (map (apfst VStr) (read_trace k (tl.append_all k (map snd xs) empty_cache)))"
proof -
  have "trace_in_redis V (db_of r) k []" using assms(3) by (simp add: trace_in_redis_def holds_list_def)
  from redis_append_all_refines [OF assms(1,2) _ _ this, of trace_log_cap xs]
  have "trace_in_redis V (db_of (redis_append_all V k (int trace_log_cap) xs r)) k (last_n trace_log_cap (map snd xs))"
    by (simp add: trace_log_cap_def)
  then have "fst (redis_read_trace V now k (redis_append_all V k (int trace_log_cap) xs r)) =
      Inr (map (apfst VStr) (last_n trace_log_cap (map snd xs)))"
    using redis_read_refines [OF assms(1,2)] by (metis fst_conv)
  then show ?thesis
    by (simp add: tl.read_append_all [OF cache_wf_empty]) (simp add: read_trace_def empty_cache_def deque_items_def)
qed

lemma redis_trace_is_memory_trace_example:
  "fst (redis_read_trace sample_redis 2 ''ag:sess:1''
     (redis_append_all sample_redis ''ag:sess:1'' (int trace_log_cap) [(0, ''a'', 1), (1, ''b'', 2)] no_keys)) =
   Inr (map (apfst VStr) (read_trace ''ag:sess:1'' (tl.append_all ''ag:sess:1'' [(''a'', 1), (''b'', 2)] empty_cache)))"
  using redis_trace_is_memory_trace [OF sample_redis_behaves(1,3), of no_keys "''ag:sess:1''" 2
      "[(0, ''a'', 1), (1, ''b'', 2)]"]
  by (simp add: no_keys_def)





subsection \<open>Bindings and tools in PostgreSQL\<close>

fun pg_run_binding :: "'d pg_env \<Rightarrow> 'd \<Rightarrow> rat \<times> binding_op \<Rightarrow> 'd" where
  "pg_run_binding V d (now, Bind a p) = snd (pg_bind V now a p d)"
| "pg_run_binding V d (now, Unbind a p) = snd (pg_unbind V now a p d)"
| "pg_run_binding V d (now, ClearAgent a) = snd (pg_clear_agent V now a d)"
| "pg_run_binding V d (now, ClearPack p) = snd (pg_clear_pack V now p d)"

lemma pg_run_binding_relation:
  assumes V: "behaves_like_postgres V tables jsonb collate"
  shows "set (pt_bindings (tables (pg_run_binding V d (now, x)))) = run_relation (set (pt_bindings (tables d))) x"
proof (cases x)
  case (Bind a p)
  then show ?thesis using pg_bind_table [OF V, of now a p d] by auto
next
  case (Unbind a p)
  then show ?thesis using pg_unbind_table [OF V, of now a p d] by auto
next
  case (ClearAgent a)
  then show ?thesis using pg_clear_tables(1) [OF V, of now a d] by auto
next
  case (ClearPack p)
  then show ?thesis using pg_clear_tables(2) [OF V, of now p d] by auto
qed

text \<open>C37: After any operations, each at its own time, an agent has the same packs and a pack the same agents
  in the database as in the store in memory.\<close>

theorem binding_stores_agree:
  assumes V: "behaves_like_postgres V tables jsonb collate" and "pt_bindings (tables d) = []"
  shows "fst (pg_packs_of V now a (foldl (pg_run_binding V) d xs)) = Inr (packs_of (foldl run_binding no_bindings (map snd xs)) a) \<and>
    fst (pg_agents_of V now p (foldl (pg_run_binding V) d xs)) = Inr (agents_of (foldl run_binding no_bindings (map snd xs)) p)"
proof -
  have "set (pt_bindings (tables (foldl (pg_run_binding V) d xs))) = foldl run_relation (set (pt_bindings (tables d))) (map snd xs)"
  proof (induction xs arbitrary: d)
    case (Cons x xs)
    show ?case using Cons.IH [of "pg_run_binding V d x"] pg_run_binding_relation [OF V, of d "fst x" "snd x"] by simp
  qed simp
  moreover have "mb.rel no_bindings = {}" by (simp add: mb.rel_def no_bindings_def packs_of_def members_def)
  ultimately have s: "bindings_ok (foldl run_binding no_bindings (map snd xs))"
    "mb.rel (foldl run_binding no_bindings (map snd xs)) = set (pt_bindings (tables (foldl (pg_run_binding V) d xs)))"
    using run_bindings_relation [OF bindings_ok_empty, of "map snd xs"] assms(2) by simp_all
  show ?thesis
    unfolding pg_packs_of_table [OF V] pg_agents_of_table [OF V] s(2) [symmetric]
    by (simp add: mb.agents_rel [OF s(1)]) (simp add: mb.rel_def)
qed

lemma binding_stores_agree_example:
  "fst (pg_packs_of sample_postgres 3 ''a'' (foldl (pg_run_binding sample_postgres) no_tables
     [(0, Bind ''a'' ''p''), (1, Bind ''a'' ''q''), (2, ClearPack ''p'')])) =
   Inr (packs_of (foldl run_binding no_bindings [Bind ''a'' ''p'', Bind ''a'' ''q'', ClearPack ''p'']) ''a'')"
  using binding_stores_agree [OF sample_postgres_behaves, of no_tables 3 "''a''"
      "[(0, Bind ''a'' ''p''), (1, Bind ''a'' ''q''), (2, ClearPack ''p'')]"]
  by (simp add: no_tables_def)

text \<open>C36: After any writes, each at its own time, looking a tool up in the database gives what the catalog in
  memory gives, but for the time of the last write.\<close>

theorem catalogs_agree:
  assumes V: "behaves_like_postgres V tables jsonb collate" and "pt_tools (tables d) = []"
  shows "\<exists>x. fst (pg_get_tool V now n a (pg_writes V ws d)) = Inr x \<and>
     map_option untimed x = map_option untimed (catalog_get n a (memory_writes ws empty_catalog))"
proof -
  have "catalog_ok (memory_writes ws cs)" if "catalog_ok cs" for cs
    using that
  proof (induction ws arbitrary: cs)
    case (Cons x ws)
    have "catalog_ok (memory_write w t cs)" for w t
      using Cons.prems by (cases w) (simp_all add: catalog_ok_upsert catalog_ok_update catalog_ok_clear)
    then show ?case using Cons.IH by (cases x) (simp add: memory_writes_def)
  qed (simp add: memory_writes_def)
  then have "catalog_ok (memory_writes ws empty_catalog)" using catalog_ok_empty by blast
  moreover have "tools_match (memory_writes ws empty_catalog) (tables (pg_writes V ws d))"
    by (rule pg_writes_match [OF V]) (simp add: tools_match_def empty_catalog_def assms(2))
  ultimately show ?thesis using pg_get_matches [OF V] by (metis fst_conv)
qed

definition sample_entry :: catalog_entry where
  "sample_entry = \<lparr>ce_owner_agent_id = ''a'', ce_name = ''t'', ce_labels = default_catalog_labels,
     ce_input_params = [''x''], ce_updated_at_ms = None\<rparr>"

lemma catalogs_agree_example:
  "\<exists>x. fst (pg_get_tool sample_postgres 2 ''t'' ''a'' (pg_writes sample_postgres
       [(0, 0, WriteTool sample_entry), (1, 1000, WriteLabels ''a'' ''t'' default_catalog_labels)] no_tables)) = Inr x \<and>
     map_option untimed x = map_option untimed (catalog_get ''t'' ''a'' (memory_writes
       [(0, 0, WriteTool sample_entry), (1, 1000, WriteLabels ''a'' ''t'' default_catalog_labels)] empty_catalog))"
  by (rule catalogs_agree [OF sample_postgres_behaves]) (simp add: no_tables_def)

subsection \<open>Packs and restarts\<close>

lemma distinct_pack_ids: "router_ok rt \<Longrightarrow> distinct (map rp_pack_id (list_packs rt))"
proof -
  assume "router_ok rt"
  then have "distinct (map fst (rt_packs rt))" "\<forall>x \<in> set (rt_packs rt). rp_pack_id (snd x) = fst x"
    by (auto simp: router_ok_def packs_ok_def)
  moreover from this(2) have "map rp_pack_id (map snd (rt_packs rt)) = map fst (rt_packs rt)" by simp
  ultimately show ?thesis by (simp only: list_packs_def dict_values_def)
qed

text \<open>Attaching a database: what it holds and what the router holds afterwards.\<close>

lemma attach_exchanges:
  assumes V: "behaves_like_postgres V tables jsonb collate"
    and "distinct (map fst (pt_packs (tables d)))" and "router_ok rt"
    and run: "attach_postgres_backends E fs V now pairs (rt, d) = (out, rt', d')"
  shows "out = Inr () \<and> distinct (map fst (pt_packs (tables d')))"
    and "p \<in> set (list_packs rt) \<Longrightarrow> pushed fs p \<Longrightarrow>
      map_of (pt_packs (tables d')) (rp_pack_id p) = Some (rp_source p, label_text fs p)"
    and "get_pack k rt' =
      (case (if k \<in> rp_pack_id ` {p \<in> set (list_packs rt). pushed fs p} then None else map_of (pt_packs (tables d)) k) of
         None \<Rightarrow> get_pack k rt
       | Some (label, dsl) \<Rightarrow>
           (case load_rules E fs False (Some (OneSource dsl)) of
              Inl _ \<Rightarrow> get_pack k rt
            | Inr rules \<Rightarrow> Some \<lparr>rp_pack_id = k, rp_rules = rules,
                rp_source = (if label = [] then ''postgres'' else label), rp_user_managed = False\<rparr>))"
proof -
  obtain d1 where d1: "migrate_bindings V now pairs d = (Inr (), d1)"
    "tables d1 = (tables d)\<lparr>pt_bindings := pt_bindings (tables d1)\<rparr>"
    using migrate_bindings_table [OF V, of now pairs d] by blast
  have packs: "pt_packs (tables d1) = pt_packs (tables d)" by (subst d1(2)) simp
  have same: "list_packs (invalidate_cache rt) = list_packs rt" "get_pack j (invalidate_cache rt) = get_pack j rt" for j
    by (simp_all add: invalidate_cache_def list_packs_def get_pack_def)
  have db: "distinct (map fst (pt_packs (tables d1)))" using assms(2) by (simp add: packs)
  have rt: "distinct (map rp_pack_id (list_packs (invalidate_cache rt)))"
    using distinct_pack_ids [OF assms(3)] by (simp add: same)
  have run': "attach_packs E fs V now (invalidate_cache rt, d1) = (out, rt', d')"
    using run by (simp add: attach_postgres_backends_def d1(1))
  note exchange = attach_packs_exchange [OF V db rt run', unfolded same packs]
  show "out = Inr () \<and> distinct (map fst (pt_packs (tables d')))" using exchange(1,2) by simp
  show "p \<in> set (list_packs rt) \<Longrightarrow> pushed fs p \<Longrightarrow>
      map_of (pt_packs (tables d')) (rp_pack_id p) = Some (rp_source p, label_text fs p)" by (rule exchange(3))
  show "get_pack k rt' =
      (case (if k \<in> rp_pack_id ` {p \<in> set (list_packs rt). pushed fs p} then None else map_of (pt_packs (tables d)) k) of
         None \<Rightarrow> get_pack k rt
       | Some (label, dsl) \<Rightarrow>
           (case load_rules E fs False (Some (OneSource dsl)) of
              Inl _ \<Rightarrow> get_pack k rt
            | Inr rules \<Rightarrow> Some \<lparr>rp_pack_id = k, rp_rules = rules,
                rp_source = (if label = [] then ''postgres'' else label), rp_user_managed = False\<rparr>))"
    by (rule exchange(4))
qed

text \<open>C22: A pack given as text is back after a restart: a server that has no packs of its own and is attached to the
  database an earlier server was attached to has the pack with the same rules and label, only no longer
  marked as the user's.\<close>

theorem text_pack_returns:
  assumes V: "behaves_like_postgres V tables jsonb collate"
    and "distinct (map fst (pt_packs (tables d)))" and "router_ok rt"
    and first: "attach_postgres_backends E fs V now pairs (rt, d) = (out, rt', d')"
    and p: "p \<in> set (list_packs rt)" "rp_pack_id p \<noteq> builtin_pack_id" "rp_rules p \<noteq> []" "rp_source p \<noteq> []"
    and text_source: "read_source fs (rp_source p) = Inr [rp_source p]"
    and loaded: "load_rules E fs False (Some (OneSource (rp_source p))) = Inr (rp_rules p)"
    and fresh: "router_ok new" "\<forall>q \<in> set (list_packs new). rp_pack_id q = builtin_pack_id \<or> rp_rules q = []"
    and second: "attach_postgres_backends E fs V now' pairs' (new, d') = (out', new', d'')"
  shows "out = Inr () \<and> out' = Inr () \<and> get_pack (rp_pack_id p) new' = Some (p\<lparr>rp_user_managed := False\<rparr>)"
proof -
  have "label_text fs p = rp_source p"
    using p(4) by (simp add: label_text_def normalize_to_dsl_text_def text_source)
  moreover from this have "pushed fs p" using p by (simp add: pushed_def)
  ultimately have row: "map_of (pt_packs (tables d')) (rp_pack_id p) = Some (rp_source p, rp_source p)"
    using attach_exchanges(2) [OF V assms(2,3) first p(1)] by simp
  have d': "out = Inr ()" "distinct (map fst (pt_packs (tables d')))"
    using attach_exchanges(1) [OF V assms(2,3) first] by simp_all
  have none: "{q \<in> set (list_packs new). pushed fs q} = {}" using fresh(2) by (auto simp: pushed_def)
  have "get_pack (rp_pack_id p) new' = Some (p\<lparr>rp_user_managed := False\<rparr>)"
    using attach_exchanges(3) [OF V d'(2) fresh(1) second, of "rp_pack_id p"] p(4)
    by (simp add: none row loaded)
  then show ?thesis using d'(1) attach_exchanges(1) [OF V d'(2) fresh(1) second] by simp
qed

text \<open>A pack of one rule, given as text, on a machine without files.\<close>

definition pack_text :: string where
  "pack_text = ''RULE: a POLICY: DENY''"

definition no_files :: file_system where
  "no_files = \<lparr>fs_dir = (\<lambda>_. None), fs_file = (\<lambda>_. None)\<rparr>"

lemma pack_text_source: "read_source no_files pack_text = Inr [pack_text]"
  by code_simp

lemma pack_text_loads: "\<exists>rules. load_rules sample_ext no_files False (Some (OneSource pack_text)) = Inr rules \<and> rules \<noteq> []"
proof -
  have "map_sum id (map cr_rule_id) (load_rules sample_ext no_files False (Some (OneSource pack_text))) = Inr [''a'']"
    by code_simp
  then show ?thesis by (cases "load_rules sample_ext no_files False (Some (OneSource pack_text))") auto
qed

definition text_pack :: "compiled_rule list \<Rightarrow> rule_pack" where
  "text_pack rules = \<lparr>rp_pack_id = ''p'', rp_rules = rules, rp_source = pack_text, rp_user_managed = True\<rparr>"

lemma text_pack_returns_example:
  "\<exists>rules out rt' d' out' new' d''. rules \<noteq> [] \<and>
     attach_postgres_backends sample_ext no_files sample_postgres 0 []
       (upsert_pack (text_pack rules) (new_router True), no_tables) = (out, rt', d') \<and>
     attach_postgres_backends sample_ext no_files sample_postgres 1 [] (new_router True, d') = (out', new', d'') \<and>
     get_pack ''p'' new' = Some ((text_pack rules)\<lparr>rp_user_managed := False\<rparr>)"
proof -
  obtain rules where rules: "load_rules sample_ext no_files False (Some (OneSource pack_text)) = Inr rules" "rules \<noteq> []"
    using pack_text_loads by blast
  let ?rt = "upsert_pack (text_pack rules) (new_router True)"
  obtain out rt' d' where first: "attach_postgres_backends sample_ext no_files sample_postgres 0 [] (?rt, no_tables) = (out, rt', d')"
    by (metis prod_cases3)
  obtain out' new' d'' where second:
    "attach_postgres_backends sample_ext no_files sample_postgres 1 [] (new_router True, d') = (out', new', d'')"
    by (metis prod_cases3)
  have "get_pack (rp_pack_id (text_pack rules)) new' = Some ((text_pack rules)\<lparr>rp_user_managed := False\<rparr>)"
    using text_pack_returns [OF sample_postgres_behaves _ router_ok_upsert [OF router_ok_new] first, of "text_pack rules",
        OF _ _ _ _ _ _ _ router_ok_new _ second] rules pack_text_source
    by (simp add: text_pack_def no_tables_def list_packs_def dict_values_def upsert_pack_def new_router_def
        pack_text_def builtin_pack_id_def)
  then show ?thesis using rules(2) first second by (auto simp: text_pack_def)
qed

lemma api_does_not_load:
  assumes "read_source fs ''api'' = Inr [''api'']"
  shows "\<exists>e. load_rules E fs False (Some (OneSource ''api'')) = Inl e"
proof -
  have "isl (parse_rule_source E ''api'')" by code_simp
  then show ?thesis using assms by (cases "parse_rule_source E ''api''") (auto simp: load_rules_def source_list_def compile_rules_def parse_rules_def)
qed

text \<open>A pack from a list of sources, which carries the label api, is stored as that word, over whatever text the
  database had for it; a later server does not get the pack, nor from any text stored before.\<close>

theorem listed_pack_is_lost:
  assumes V: "behaves_like_postgres V tables jsonb collate"
    and "distinct (map fst (pt_packs (tables d)))" and "router_ok rt"
    and first: "attach_postgres_backends E fs V now pairs (rt, d) = (out, rt', d')"
    and p: "p \<in> set (list_packs rt)" "rp_pack_id p \<noteq> builtin_pack_id" "rp_rules p \<noteq> []" "rp_source p = ''api''"
    and no_such_file: "fs_dir fs ''api'' = None" "fs_file fs ''api'' = None"
    and fresh: "router_ok new" "\<forall>q \<in> set (list_packs new). rp_pack_id q = builtin_pack_id \<or> rp_rules q = []"
    and second: "attach_postgres_backends E fs V now' pairs' (new, d') = (out', new', d'')"
  shows "map_of (pt_packs (tables d')) (rp_pack_id p) = Some (''api'', ''api'') \<and>
     get_pack (rp_pack_id p) new' = get_pack (rp_pack_id p) new"
proof -
  have src: "read_source fs ''api'' = Inr [''api'']"
    using no_such_file by (simp add: read_source_def strip_file_prefix_def starts_with_def ends_with_def)
  have "label_text fs p = ''api''" using p(4) by (simp add: label_text_def normalize_to_dsl_text_def src)
  moreover from this have "pushed fs p" using p by (simp add: pushed_def)
  ultimately have row: "map_of (pt_packs (tables d')) (rp_pack_id p) = Some (''api'', ''api'')"
    using attach_exchanges(2) [OF V assms(2,3) first p(1)] p(4) by simp
  have d': "distinct (map fst (pt_packs (tables d')))" using attach_exchanges(1) [OF V assms(2,3) first] by simp
  have none: "{q \<in> set (list_packs new). pushed fs q} = {}" using fresh(2) by (auto simp: pushed_def)
  have "\<exists>e. load_rules E fs False (Some (OneSource ''api'')) = Inl e" by (rule api_does_not_load [OF src])
  then have "get_pack (rp_pack_id p) new' = get_pack (rp_pack_id p) new"
    using attach_exchanges(3) [OF V d' fresh(1) second, of "rp_pack_id p"] by (auto simp: none row)
  then show ?thesis using row by simp
qed

lemma listed_pack_is_lost_example:
  "\<exists>out rt' d' out' new' d''.
     attach_postgres_backends sample_ext no_files sample_postgres 0 []
       (upsert_pack \<lparr>rp_pack_id = ''p'', rp_rules = [sample_rule ''a'' ''*'' DENY], rp_source = ''api'',
          rp_user_managed = True\<rparr> (new_router True), no_tables) = (out, rt', d') \<and>
     attach_postgres_backends sample_ext no_files sample_postgres 1 [] (new_router True, d') = (out', new', d'') \<and>
     map_of (pt_packs d') ''p'' = Some (''api'', ''api'') \<and> get_pack ''p'' new' = None"
proof -
  let ?p = "\<lparr>rp_pack_id = ''p'', rp_rules = [sample_rule ''a'' ''*'' DENY], rp_source = ''api'', rp_user_managed = True\<rparr>"
  let ?rt = "upsert_pack ?p (new_router True)"
  obtain out rt' d' where first: "attach_postgres_backends sample_ext no_files sample_postgres 0 [] (?rt, no_tables) = (out, rt', d')"
    by (metis prod_cases3)
  obtain out' new' d'' where second:
    "attach_postgres_backends sample_ext no_files sample_postgres 1 [] (new_router True, d') = (out', new', d'')"
    by (metis prod_cases3)
  have "map_of (pt_packs d') (rp_pack_id ?p) = Some (''api'', ''api'') \<and>
      get_pack (rp_pack_id ?p) new' = get_pack (rp_pack_id ?p) (new_router True)"
    by (rule listed_pack_is_lost [OF sample_postgres_behaves _ router_ok_upsert [OF router_ok_new] first _ _ _ _ _ _
          router_ok_new _ second])
      (simp_all add: no_tables_def list_packs_def dict_values_def upsert_pack_def new_router_def no_files_def builtin_pack_id_def)
  then show ?thesis using first second by (auto simp: get_pack_def new_router_def)
qed

end
