(* ===== verification/Server_Boot.thy ===== *)
theory Server_Boot
  imports Postgres_Stores Pack_Config Llm_Backend Api_Machine
begin

text \<open>
  Building a server from its options (\<open>AgentGuardServer.from_policy\<close> in \<open>runtime/server.py\<close>, the local
  branch of \<open>Guard.__init__\<close>) and the command that starts it: the state cache, the chat model, the rules,
  the pack configuration, the mode, and the switch to PostgreSQL, in this order.  The first error ends it.
\<close>

subsection \<open>Options and surroundings\<close>

record server_options =
  so_policy :: "rule_source option"
  so_builtin :: bool
  so_mode :: string
  so_api_key :: "string option"
  so_allowlists :: pydict
  so_runtime_mode :: string
  so_pack_config :: "string option"
  so_state_cache :: "string option"
  so_postgres :: "string option"

text \<open>
  Opening Redis and a pool of PostgreSQL connections may raise; \<open>be_pairs\<close> lists the bindings in the order the
  dictionary and the sets of the store iterate.
\<close>

record boot_env =
  be_api :: api_env
  be_installed :: installed
  be_environ :: "string \<Rightarrow> string option"
  be_redis :: "string \<Rightarrow> unit result"
  be_pool :: "string \<Rightarrow> unit result"
  be_pairs :: "memory_bindings \<Rightarrow> (string \<times> string) list"

record booted_server =
  bt_server :: api_server
  bt_mode :: string
  bt_runtime_mode :: string
  bt_cache :: cache_backend
  bt_llm :: llm_backend

subsection \<open>Building\<close>

definition audit_buffer_size :: nat where
  "audit_buffer_size = 10000"

text \<open>A pipeline in which nothing has happened, over the rules of a guard.\<close>

definition fresh_pipeline :: "rat \<Rightarrow> pydict \<Rightarrow> guard_rules \<Rightarrow> pipeline" where
  "fresh_pipeline now allow g = \<lparr>es_bridge = [], es_rates = [], es_executed = [],
     pl_writer = \<lparr>gw_capacity = 4096, gw_queue = [], gw_target = (empty_graph, empty_cache)\<rparr>,
     pl_eval = gr_eval g, pl_router = gr_router g, pl_audit = new_audit_log audit_buffer_size,
     pl_signals = \<lparr>sg_signals = [], sg_ts = []\<rparr>, pl_allowlists = allow,
     pl_slow = \<lparr>sd_hooks = [], sd_submitted = []\<rparr>, pl_stats = new_stats now 500 10\<rparr>"

text \<open>Building the application stamps the version of the rules.\<close>

definition build_server :: "api_env \<Rightarrow> string option \<Rightarrow> pydict \<Rightarrow> guard_rules \<Rightarrow> api_server" where
  "build_server A key allow g = bump_version A (pipeline.extend (fresh_pipeline (ae_now A) allow g)
     \<lparr>sv_registry_version = rr_version (gr_registry g), sv_builtin_on = gr_builtin_on g,
      sv_user_source = gr_user_source g, sv_catalog = empty_catalog,
      sv_version = \<lparr>rv_count = 0, rv_ts = 0, rv_etag = []\<rparr>,
      sv_api_key = (case key of None \<Rightarrow> None | Some k \<Rightarrow> if k = [] then None else Some k)\<rparr>)"

definition open_cache :: "boot_env \<Rightarrow> string option \<Rightarrow> cache_backend result" where
  "open_cache B url = ebind (build_state_cache url) (\<lambda>backend.
     case backend of InMemoryBackend \<Rightarrow> Inr InMemoryBackend | RedisBackend u \<Rightarrow> ebind (be_redis B u) (\<lambda>_. Inr (RedisBackend u)))"

definition configure_packs :: "api_env \<Rightarrow> string option \<Rightarrow> guard_rules \<Rightarrow> guard_rules result" where
  "configure_packs A path g =
     (case path of
        None \<Rightarrow> Inr g
      | Some p \<Rightarrow>
          if p = [] then Inr g
          else ebind (ae_config A p) (\<lambda>cfg.
                 let (r, g1) = apply_rule_pack_config (ae_ext A) (ae_files A) cfg g in ebind r (\<lambda>_. Inr g1)))"

text \<open>Everything up to the server object.\<close>

definition local_server :: "boot_env \<Rightarrow> server_options \<Rightarrow> (booted_server \<times> guard_rules) result" where
  "local_server B opts =
     (let A = be_api B in
      ebind (open_cache B (so_state_cache opts)) (\<lambda>cache.
      ebind (backend_from_env (be_installed B) (be_environ B) True) (\<lambda>llm.
      ebind (new_guard (ae_ext A) (ae_files A) (ae_builtin_dir A) (so_builtin opts) (so_policy opts) [] []) (\<lambda>g.
      ebind (configure_packs A (so_pack_config opts) g) (\<lambda>g1.
        if so_runtime_mode opts \<noteq> ''sync'' \<and> so_runtime_mode opts \<noteq> ''async'' then Inl ValueError
        else Inr (\<lparr>bt_server = build_server A (so_api_key opts) (so_allowlists opts) g1, bt_mode = so_mode opts,
               bt_runtime_mode = so_runtime_mode opts, bt_cache = cache, bt_llm = llm\<rparr>, g1))))))"

text \<open>The switch to PostgreSQL, when a URL is given; the router afterwards reads its bindings there.\<close>

definition from_policy :: "boot_env \<Rightarrow> 'd pg_env \<Rightarrow> server_options \<Rightarrow> 'd \<Rightarrow> booted_server result \<times> 'd" where
  "from_policy B V opts d =
     (case local_server B opts of
        Inl e \<Rightarrow> (Inl e, d)
      | Inr (b, g) \<Rightarrow>
          (case so_postgres opts of
             None \<Rightarrow> (Inr b, d)
           | Some url \<Rightarrow>
               if url = [] then (Inr b, d)
               else (case be_pool B url of
                       Inl e \<Rightarrow> (Inl e, d)
                     | Inr _ \<Rightarrow>
                         (let A = be_api B;
                              (r, rt, d1) = attach_postgres_backends (ae_ext A) (ae_files A) V (ae_now A)
                                (be_pairs B (rt_bindings (gr_router g))) (gr_router g, d);
                              g1 = g\<lparr>gr_registry := (gr_registry g)\<lparr>rr_router := rt\<rparr>\<rparr>
                          in (ebind r (\<lambda>_. Inr (b\<lparr>bt_server := build_server A (so_api_key opts) (so_allowlists opts) g1\<rparr>)), d1)))))"

subsection \<open>The server that comes up\<close>

lemma build_server_fields [simp]:
  "pl_router (build_server A key allow g) = gr_router g" "pl_eval (build_server A key allow g) = gr_eval g"
  by (simp_all add: build_server_def) (simp_all add: fresh_pipeline_def pipeline.extend_def)

lemma build_server_ok: "guard_ok g \<Longrightarrow> server_ok (build_server A key allow g)"
proof -
  assume g: "guard_ok g"
  let ?s = "pipeline.extend (fresh_pipeline (ae_now A) allow g)
     \<lparr>sv_registry_version = rr_version (gr_registry g), sv_builtin_on = gr_builtin_on g,
      sv_user_source = gr_user_source g, sv_catalog = empty_catalog,
      sv_version = \<lparr>rv_count = 0, rv_ts = 0, rv_etag = []\<rparr>,
      sv_api_key = (case key of None \<Rightarrow> None | Some k \<Rightarrow> if k = [] then None else Some k)\<rparr>"
  have "server_ok ?s"
    using g by (simp add: server_ok_def pipeline_ok_def guard_ok_def fresh_pipeline_def pipeline.extend_def pl_cache_def
        cache_wf_empty stats_ok_new audit_ok_new catalog_ok_empty)
  then show ?thesis unfolding build_server_def by (rule server_ok_bump)
qed

lemma configure_packs_cases:
  assumes "configure_packs A path g = Inr g1"
  obtains "g1 = g" | cfg where "g1 = snd (apply_rule_pack_config (ae_ext A) (ae_files A) cfg g)"
  using assms by (auto simp: configure_packs_def ebind_Inr_iff case_prod_beta split: option.splits if_splits)

lemma configure_packs_ok: "configure_packs A path g = Inr g1 \<Longrightarrow> guard_ok g \<Longrightarrow> guard_ok g1"
  by (erule configure_packs_cases) (simp_all add: apply_config_ok)

lemma local_server_ok:
  assumes "local_server B opts = Inr (b, g)"
  shows "guard_ok g \<and> bt_server b = build_server (be_api B) (so_api_key opts) (so_allowlists opts) g"
proof -
  obtain g0 where "new_guard (ae_ext (be_api B)) (ae_files (be_api B)) (ae_builtin_dir (be_api B)) (so_builtin opts)
      (so_policy opts) [] [] = Inr g0" "configure_packs (be_api B) (so_pack_config opts) g0 = Inr g"
    and b: "bt_server b = build_server (be_api B) (so_api_key opts) (so_allowlists opts) g"
    using assms by (auto simp: local_server_def ebind_Inr_iff Let_def split: if_splits)
  then show ?thesis using new_guard_ok configure_packs_ok by blast
qed

text \<open>The evaluator has no views of agents yet, so it stays in step when the router changes under it.\<close>

lemma pull_pack_ok: "router_ok rt \<Longrightarrow> router_ok (foldl (pull_pack E fs) rt rows)"
  by (induction rows arbitrary: rt) (auto simp: pull_pack_def router_ok_replace split: sum.split prod.split)

lemma attach_packs_ok:
  assumes "router_ok rt" and "attach_packs E fs V now (rt, d) = (r, rt', d')"
  shows "router_ok rt'"
  using assms pull_pack_ok by (auto simp: attach_packs_def split: prod.splits sum.splits)

lemma attach_ok:
  assumes "router_ok rt" and "attach_postgres_backends E fs V now pairs (rt, d) = (r, rt', d')"
  shows "router_ok rt'"
  using assms attach_packs_ok router_ok_invalidate
  by (fastforce simp: attach_postgres_backends_def split: prod.splits sum.splits)

lemma fresh_views:
  "new_guard E fs bd ub policy packs bs = Inr g \<Longrightarrow> fe_agent_views (gr_eval g) = []"
  by (auto simp: new_guard_def ebind_Inr_iff Let_def new_evaluator_def)

lemma with_router_views [simp]: "fe_agent_views (gr_eval (with_router rt g)) = []"
  by (simp add: with_router_def evaluator_invalidate_def)

lemma add_rule_pack_views: "add_rule_pack E fs pid src g = Inr (p, g') \<Longrightarrow> fe_agent_views (gr_eval g') = []"
  by (auto simp: add_rule_pack_def ebind_Inr_iff case_prod_beta Let_def split: if_splits)

lemma apply_packs_views:
  "fe_agent_views (gr_eval g) = [] \<Longrightarrow> fe_agent_views (gr_eval (snd (apply_packs E fs packs g))) = []"
  by (induction E fs packs g rule: apply_packs.induct) (auto simp: add_rule_pack_views split: sum.split prod.split)

lemma apply_bindings_views:
  "fe_agent_views (gr_eval g) = [] \<Longrightarrow> fe_agent_views (gr_eval (snd (apply_bindings bs g))) = []"
  by (induction bs g rule: apply_bindings.induct) (auto simp: bind_agent_def ebind_Inr_iff split: sum.split)

lemma configure_packs_views:
  assumes "configure_packs A path g = Inr g1" and "fe_agent_views (gr_eval g) = []"
  shows "fe_agent_views (gr_eval g1) = []"
proof -
  have "fe_agent_views (gr_eval (snd (apply_rule_pack_config E fs cfg g))) = []" for E fs cfg
    using apply_packs_views [OF assms(2), of E fs "pc_packs cfg"]
    by (auto simp: apply_rule_pack_config_def apply_bindings_views split: prod.split sum.split)
  then show ?thesis using assms by (auto elim: configure_packs_cases)
qed

lemma local_server_views: "local_server B opts = Inr (b, g) \<Longrightarrow> fe_agent_views (gr_eval g) = []"
  by (auto simp: local_server_def ebind_Inr_iff Let_def split: if_splits intro: configure_packs_views fresh_views)

text \<open>After the switch the server has the router the database was attached to.\<close>

lemma from_policy_attached:
  assumes "from_policy B V opts d = (Inr b, d')" and "local_server B opts = Inr (b0, g)"
    and "so_postgres opts = Some url" and "url \<noteq> []"
    and "attach_postgres_backends (ae_ext (be_api B)) (ae_files (be_api B)) V (ae_now (be_api B))
      (be_pairs B (rt_bindings (gr_router g))) (gr_router g, d) = (r, rt, d1)"
  shows "bt_server b = build_server (be_api B) (so_api_key opts) (so_allowlists opts)
      (g\<lparr>gr_registry := (gr_registry g)\<lparr>rr_router := rt\<rparr>\<rparr>)"
  using assms by (auto simp: from_policy_def ebind_Inr_iff split: sum.splits)

text \<open>Whatever the options, the configuration and the database: a server that comes up is in shape.\<close>

lemma from_policy_ok:
  assumes "from_policy B V opts d = (Inr b, d')"
  shows "server_ok (bt_server b)"
proof -
  obtain b0 g where l: "local_server B opts = Inr (b0, g)"
    using assms by (auto simp: from_policy_def split: sum.splits)
  note ok = local_server_ok [OF l]
  have swapped: "guard_ok (g\<lparr>gr_registry := (gr_registry g)\<lparr>rr_router := rt\<rparr>\<rparr>)" if "router_ok rt" for rt
    using that ok local_server_views [OF l]
    by (simp add: guard_ok_def evaluator_wf_def evaluator_ok_def gr_router_def)
  show ?thesis
  proof (cases "so_postgres opts = None \<or> so_postgres opts = Some []")
    case True
    then have "b = b0" using assms l by (auto simp: from_policy_def)
    then show ?thesis using ok build_server_ok by simp
  next
    case False
    then obtain r rt d1 where a: "attach_postgres_backends (ae_ext (be_api B)) (ae_files (be_api B)) V (ae_now (be_api B))
        (be_pairs B (rt_bindings (gr_router g))) (gr_router g, d) = (r, rt, d1)" by (metis prod_cases3)
    have "router_ok rt" using attach_ok [OF guard_ok_router a] ok by simp
    moreover have "bt_server b = build_server (be_api B) (so_api_key opts) (so_allowlists opts)
        (g\<lparr>gr_registry := (gr_registry g)\<lparr>rr_router := rt\<rparr>\<rparr>)"
      using False by (cases "so_postgres opts") (auto intro: from_policy_attached [OF assms l _ _ a])
    ultimately show ?thesis using swapped build_server_ok by simp
  qed
qed

end
