(* ===== verification/Command_Line.thy ===== *)
theory Command_Line
  imports Server_Boot Validator Rule_Watcher
begin

text \<open>
  The command line (\<open>__main__.py\<close>): the environment file, the commands that check rules, the probes of a
  running server, evaluating one event, and starting a server.  A command answers with its exit code and
  what it prints, or with the exception that ends the process.  Parsing the arguments, colours and
  indentation are the library's; reading JSON and the HTTP exchange are parameters.
\<close>

subsection \<open>Text\<close>

definition breaks_line :: "char \<Rightarrow> bool" where
  "breaks_line c \<longleftrightarrow> ord c \<in> {10, 11, 12, 13, 28, 29, 30, 133}"

text \<open>\<open>str.splitlines()\<close>: a carriage return and a line feed are one break, and nothing follows the last one.\<close>

fun splitlines_from :: "string \<Rightarrow> string \<Rightarrow> string list" where
  "splitlines_from cur [] = (if cur = [] then [] else [cur])"
| "splitlines_from cur [c] = (if breaks_line c then [cur] else [cur @ [c]])"
| "splitlines_from cur (c # d # s) =
     (if ord c = 13 \<and> ord d = 10 then cur # splitlines_from [] s
      else if breaks_line c then cur # splitlines_from [] (d # s)
      else splitlines_from (cur @ [c]) (d # s))"

definition splitlines :: "string \<Rightarrow> string list" where
  "splitlines s = splitlines_from [] s"

text \<open>\<open>s.partition(c)\<close> without the separator, \<open>s.split(c)\<close>, and \<open>s.strip(c)\<close>, for one character.\<close>

definition split_once :: "char \<Rightarrow> string \<Rightarrow> string \<times> string" where
  "split_once c s = (takeWhile (\<lambda>x. x \<noteq> c) s, tl (dropWhile (\<lambda>x. x \<noteq> c) s))"

fun split_char :: "char \<Rightarrow> string \<Rightarrow> string list" where
  "split_char c [] = [[]]"
| "split_char c (x # s) = (if x = c then [] # split_char c s
     else (case split_char c s of [] \<Rightarrow> [[x]] | p # ps \<Rightarrow> (x # p) # ps))"

definition strip_char :: "char \<Rightarrow> string \<Rightarrow> string" where
  "strip_char c s = rev (dropWhile (\<lambda>x. x = c) (rev (dropWhile (\<lambda>x. x = c) s)))"

subsection \<open>The environment file\<close>

type_synonym environment = "string \<Rightarrow> string option"

text \<open>The assignment of a line, if it has one.\<close>

definition env_assignment :: "string \<Rightarrow> (string \<times> string) option" where
  "env_assignment raw =
     (let line = str_strip raw;
          body = (if starts_with line ''export '' then Some (str_strip (drop 7 line))
                  else if line = [] \<or> starts_with line ''#'' then None else Some line)
      in case body of
           None \<Rightarrow> None
         | Some l \<Rightarrow>
             if CHR ''='' \<notin> set l then None
             else (let (key, v) = split_once (CHR ''='') l
                   in if str_strip key = [] then None
                      else Some (str_strip key, strip_char (CHR 0x22) (strip_char (CHR 0x27) (str_strip v)))))"

text \<open>A variable that is set stays; the system refuses a null character.\<close>

definition set_variable :: "string \<times> string \<Rightarrow> environment \<Rightarrow> environment result" where
  "set_variable kv env =
     (if env (fst kv) \<noteq> None then Inr env
      else if CHR 0x00 \<in> set (fst kv) \<union> set (snd kv) then Inl ValueError
      else Inr (env(fst kv \<mapsto> snd kv)))"

fun load_env_lines :: "string list \<Rightarrow> environment \<Rightarrow> environment result" where
  "load_env_lines [] env = Inr env"
| "load_env_lines (raw # lines) env =
     (case env_assignment raw of
        None \<Rightarrow> load_env_lines lines env
      | Some kv \<Rightarrow> ebind (set_variable kv env) (load_env_lines lines))"

definition load_local_env_file :: "string option \<Rightarrow> environment \<Rightarrow> environment result" where
  "load_local_env_file file env = (case file of None \<Rightarrow> Inr env | Some t \<Rightarrow> load_env_lines (splitlines t) env)"

subsection \<open>Arguments\<close>

definition parse_allowlist :: "string \<Rightarrow> (string \<times> string list) result" where
  "parse_allowlist spec =
     (if CHR ''='' \<notin> set spec then Inl (ExternalError ''ArgumentTypeError'')
      else (let (key, vs) = split_once (CHR ''='') spec
            in Inr (str_strip key, filter (\<lambda>v. v \<noteq> []) (map str_strip (split_char (CHR '','') vs)))))"

definition parse_allowlists :: "string list \<Rightarrow> pydict result" where
  "parse_allowlists specs =
     ebind (emap parse_allowlist specs) (\<lambda>kvs.
       Inr (foldl (\<lambda>d (k, vs). dict_set k (VList (map VStr vs)) d) [] kvs))"

subsection \<open>Checking rules\<close>

text \<open>What the shell's patterns and directories stand for, in sorted order.\<close>

record rule_paths =
  rp_files :: file_system
  rp_under :: "string \<Rightarrow> string list"
  rp_glob :: "string \<Rightarrow> string list"

definition expand_path :: "rule_paths \<Rightarrow> string \<Rightarrow> string list" where
  "expand_path F p =
     (if fs_dir (rp_files F) p \<noteq> None then rp_under F p
      else if CHR ''*'' \<in> set p \<or> CHR ''?'' \<in> set p then rp_glob F p
      else [p])"

datatype check_input = CheckStdin string | CheckPaths "string list"

definition cmd_check :: "externals \<Rightarrow> rule_paths \<Rightarrow> check_input \<Rightarrow> (nat \<times> validation_report list) result" where
  "cmd_check E F inp =
     (case inp of
        CheckPaths [] \<Rightarrow> Inr (2, [])
      | _ \<Rightarrow>
          ebind (case inp of
                   CheckStdin src \<Rightarrow> ebind (validate_source E src ''<stdin>'') (\<lambda>r. Inr [r])
                 | CheckPaths ps \<Rightarrow> emap (validate_file E (rp_files F)) (concat (map (expand_path F) ps)))
            (\<lambda>reports. Inr (if list_all report_ok reports then 0 else 1, reports)))"

text \<open>Each source on its own: how many rules, or why not.\<close>

definition cmd_validate :: "externals \<Rightarrow> file_system \<Rightarrow> string list \<Rightarrow> nat \<times> nat \<times> string list" where
  "cmd_validate E fs paths =
     (let outs = map (\<lambda>p. (p, load_rules E fs False (Some (OneSource p)))) paths;
          total = sum_list (map (\<lambda>(p, r). case r of Inr rules \<Rightarrow> length rules | Inl _ \<Rightarrow> 0) outs);
          failed = map fst (filter (\<lambda>(p, r). isl r) outs)
      in if paths = [] then (2, 0, []) else (if failed = [] then 0 else 1, total, failed))"

subsection \<open>Probing a server\<close>

text \<open>An HTTP error is an error of the connection to the library, so both print the same.\<close>

definition http_body :: "('b \<Rightarrow> pyval result) \<Rightarrow> 'b http_answer \<Rightarrow> pyval option result" where
  "http_body read a = (case a of Body b \<Rightarrow> ebind (read b) (\<lambda>v. Inr (Some v)) | _ \<Rightarrow> Inr None)"

definition cmd_health :: "('b \<Rightarrow> pyval result) \<Rightarrow> 'b http_answer \<Rightarrow> (nat \<times> pyval option) result" where
  "cmd_health read a =
     ebind (http_body read a) (\<lambda>x. case x of
        None \<Rightarrow> Inr (2, None)
      | Some v \<Rightarrow> ebind (py_get v ''ok'') (\<lambda>ok. Inr (if py_bool ok then 0 else 1, Some v)))"

definition cmd_metrics :: "('b \<Rightarrow> pyval result) \<Rightarrow> 'b http_answer \<Rightarrow> (nat \<times> pyval option) result" where
  "cmd_metrics read a =
     ebind (http_body read a) (\<lambda>x. case x of
        None \<Rightarrow> Inr (2, None)
      | Some v \<Rightarrow> ebind (py_get v ''metrics'') (\<lambda>m. Inr (0, if m = VNone then None else Some v)))"

subsection \<open>One event\<close>

datatype eval_output = RemoteAnswer pyval | LocalDecision decision | NoOutput

record eval_args =
  ea_event :: "string option"
  ea_remote :: bool
  ea_policy :: "string list"
  ea_builtin :: bool

text \<open>
  The event file is read before anything else; \<open>post\<close> is the exchange with the server, \<open>as_event\<close> the
  validation of the event.  The exit code does not depend on the decision.
\<close>

definition cmd_eval ::
  "boot_env \<Rightarrow> (string \<Rightarrow> pyval result) \<Rightarrow> (pyval \<Rightarrow> runtime_event result) \<Rightarrow> (pyval \<Rightarrow> 'b http_answer) \<Rightarrow>
   ('b \<Rightarrow> pyval result) \<Rightarrow> eval_args \<Rightarrow> (nat \<times> eval_output) result" where
  "cmd_eval B loads as_event post read args =
     (let A = be_api B in
      case ea_event args of
        None \<Rightarrow> Inr (2, NoOutput)
      | Some raw \<Rightarrow>
          ebind (loads raw) (\<lambda>payload.
            if ea_remote args
            then ebind (http_body read (post payload)) (\<lambda>x. Inr (case x of None \<Rightarrow> (2, NoOutput) | Some v \<Rightarrow> (0, RemoteAnswer v)))
            else if ea_policy args = [] then Inr (2, NoOutput)
            else ebind (backend_from_env (be_installed B) (be_environ B) True) (\<lambda>llm.
                 ebind (new_guard (ae_ext A) (ae_files A) (ae_builtin_dir A) (ea_builtin args)
                          (Some (ManySources (ea_policy args))) [] []) (\<lambda>g.
                 ebind (as_event payload) (\<lambda>ev.
                 ebind (fst (handle_attempt (ae_ext A) (ae_now A) (ae_elapsed A) ev (fresh_pipeline (ae_now A) [] g)))
                   (\<lambda>(d, _). Inr (0, LocalDecision d)))))))"

subsection \<open>Starting a server\<close>

record serve_args =
  sa_policy :: "string list"
  sa_no_builtin :: bool
  sa_mode :: string
  sa_api_key :: string
  sa_allowlist :: "string list"
  sa_runtime_mode :: string
  sa_pack_config :: "string option"
  sa_state_cache :: "string option"
  sa_postgres :: "string option"
  sa_watch :: bool

definition serve_options :: "serve_args \<Rightarrow> pydict \<Rightarrow> server_options" where
  "serve_options args allow = \<lparr>so_policy = (if sa_policy args = [] then None else Some (ManySources (sa_policy args))),
     so_builtin = (\<not> sa_no_builtin args), so_mode = sa_mode args,
     so_api_key = (if sa_api_key args = [] then None else Some (sa_api_key args)), so_allowlists = allow,
     so_runtime_mode = sa_runtime_mode args, so_pack_config = sa_pack_config args,
     so_state_cache = sa_state_cache args, so_postgres = sa_postgres args\<rparr>"

text \<open>Up to the point where the server blocks: the server and, when asked for, its watcher.\<close>

definition cmd_serve ::
  "boot_env \<Rightarrow> 'd pg_env \<Rightarrow> watch_backend \<Rightarrow> watched_files \<Rightarrow> serve_args \<Rightarrow> 'd \<Rightarrow>
   (booted_server \<times> rule_watcher option) result \<times> 'd" where
  "cmd_serve B V backend F args d =
     (case parse_allowlists (sa_allowlist args) of
        Inl e \<Rightarrow> (Inl e, d)
      | Inr allow \<Rightarrow>
          (let (out, d1) = from_policy B V (serve_options args allow) d
           in (ebind out (\<lambda>b. Inr (b, if sa_watch args \<and> sa_policy args \<noteq> []
                 then Some (start_watcher backend F (sa_policy args) (bt_server b)) else None)), d1)))"

subsection \<open>The environment wins over the file\<close>

lemma set_variable_value:
  "set_variable kv env = Inr env' \<Longrightarrow>
     env' k = (case env k of Some v \<Rightarrow> Some v | None \<Rightarrow> if k = fst kv then Some (snd kv) else None)"
  by (auto simp: set_variable_def split: if_splits option.split)

text \<open>A variable the environment lacks gets the first assignment of the file.\<close>

lemma load_env_lines_value:
  "load_env_lines lines env = Inr env' \<Longrightarrow>
     env' k = (case env k of Some v \<Rightarrow> Some v | None \<Rightarrow> map_of (List.map_filter env_assignment lines) k)"
proof (induction lines arbitrary: env)
  case (Cons raw lines)
  show ?case
  proof (cases "env_assignment raw")
    case None
    with Cons show ?thesis by (auto simp: List.map_filter_simps split: option.split)
  next
    case (Some kv)
    with Cons.prems obtain env1 where e: "set_variable kv env = Inr env1" "load_env_lines lines env1 = Inr env'"
      by (auto simp: ebind_Inr_iff)
    show ?thesis
      using Cons.IH [OF e(2)] set_variable_value [OF e(1), of k]
      by (cases kv) (auto simp: Some List.map_filter_simps split: option.splits)
  qed
qed (simp add: List.map_filter_simps split: option.split)

subsection \<open>A clean check and validation\<close>

definition plain_path :: "file_system \<Rightarrow> string \<Rightarrow> bool" where
  "plain_path fs p \<longleftrightarrow> fs_dir fs p = None \<and> CHR ''*'' \<notin> set p \<and> CHR ''?'' \<notin> set p \<and>
     newline \<notin> set p \<and> \<not> starts_with p ''file://''"

lemma clean_file_loads:
  assumes "validate_file E fs p = Inr rep" and "report_ok rep" and "plain_path fs p"
  shows "\<exists>rules. load_rules E fs False (Some (OneSource p)) = Inr rules \<and> length rules = vr_rule_count rep"
proof -
  obtain src where src: "fs_file fs p = Some src" "validate_source E src p = Inr rep"
    using assms by (auto simp: validate_file_def plain_path_def report_ok_def of_level_def split: option.splits)
  then have "read_source fs p = Inr [src]"
    using assms(3) by (simp add: read_source_def plain_path_def strip_file_prefix_def)
  with clean_report_loads [OF src(2) assms(2)] show ?thesis
    by (auto simp: load_rules_def source_list_def)
qed

lemma emap_list_all2: "emap f xs = Inr ys \<Longrightarrow> list_all2 (\<lambda>x y. f x = Inr y) xs ys"
  by (induction xs arbitrary: ys) (auto simp: ebind_Inr_iff)

lemma cmd_validate_zero:
  assumes "list_all2 (\<lambda>p n. \<exists>rules. load_rules E fs False (Some (OneSource p)) = Inr rules \<and> length rules = n) ps ns"
    and "ps \<noteq> []"
  shows "cmd_validate E fs ps = (0, sum_list ns, [])"
proof -
  let ?outs = "map (\<lambda>p. (p, load_rules E fs False (Some (OneSource p)))) ps"
  have "sum_list (map (\<lambda>(p, r). case r of Inr rules \<Rightarrow> length rules | Inl _ \<Rightarrow> 0) ?outs) = sum_list ns \<and>
      filter (\<lambda>(p, r). isl r) ?outs = []"
    using assms(1) by (induction rule: list_all2_induct) auto
  then show ?thesis unfolding cmd_validate_def Let_def using assms(2) by (simp only: list.map if_False if_True refl)
qed

text \<open>A check succeeds exactly when every file it looks at has a clean report, so when there are none as well.\<close>

lemma check_paths_zero:
  "ps \<noteq> [] \<Longrightarrow> (\<exists>reports. cmd_check E F (CheckPaths ps) = Inr (0, reports)) \<longleftrightarrow>
     (\<forall>p \<in> set (concat (map (expand_path F) ps)). \<exists>r. validate_file E (rp_files F) p = Inr r \<and> report_ok r)"
proof -
  have all: "(\<exists>rs. emap f xs = Inr rs \<and> list_all report_ok rs) \<longleftrightarrow> (\<forall>x \<in> set xs. \<exists>r. f x = Inr r \<and> report_ok r)"
    for f :: "string \<Rightarrow> validation_report result" and xs
    by (induction xs) (auto simp: ebind_Inr_iff)
  assume "ps \<noteq> []"
  then have "(\<exists>reports. cmd_check E F (CheckPaths ps) = Inr (0, reports)) \<longleftrightarrow>
      (\<exists>rs. emap (validate_file E (rp_files F)) (concat (map (expand_path F) ps)) = Inr rs \<and> list_all report_ok rs)"
    by (cases ps) (auto simp: cmd_check_def ebind_Inr_iff)
  then show ?thesis using all by simp
qed

end
