(* ===== verification/Async_Api.thy ===== *)
theory Async_Api
  imports Api_Machine Actor_Equivalence
begin

text \<open>
  The HTTP API in asynchronous mode (\<open>api/routes.py\<close> with \<open>runtime_mode="async"\<close>, and the lifecycle in
  \<open>runtime/server.py\<close>): evaluations go to the actors, which share everything with the guard's pipeline
  but have an evaluator of their own, and the endpoints that change rules hand the active rules to them
  when they succeed.  The actors' state carries the shared fields; \<open>share\<close> and \<open>unshare\<close> copy them.
  Requests are taken one at a time here; how messages of several requests interleave is in \<open>Actor_Machine\<close>.
\<close>

subsection \<open>Shared state\<close>

type_synonym async_server = "api_server \<times> actor_system"

definition share :: "api_server \<Rightarrow> actor_system \<Rightarrow> actor_system" where
  "share s t = t\<lparr>es_bridge := es_bridge s, es_rates := es_rates s, es_executed := es_executed s,
     pl_writer := pl_writer s, pl_router := pl_router s, pl_audit := pl_audit s, pl_signals := pl_signals s,
     pl_allowlists := pl_allowlists s, pl_slow := pl_slow s, pl_stats := pl_stats s\<rparr>"

definition unshare :: "actor_system \<Rightarrow> api_server \<Rightarrow> api_server" where
  "unshare t s = s\<lparr>es_bridge := es_bridge t, es_rates := es_rates t, es_executed := es_executed t,
     pl_writer := pl_writer t, pl_router := pl_router t, pl_audit := pl_audit t, pl_signals := pl_signals t,
     pl_allowlists := pl_allowlists t, pl_slow := pl_slow t, pl_stats := pl_stats t\<rparr>"

lemma share_fields [simp]:
  "pl_writer (share s t) = pl_writer s" "pl_router (share s t) = pl_router s" "pl_audit (share s t) = pl_audit s"
  "pl_signals (share s t) = pl_signals s" "pl_allowlists (share s t) = pl_allowlists s" "pl_stats (share s t) = pl_stats s"
  "pl_eval (share s t) = pl_eval t" "pl_cache (share s t) = pl_cache s" "pl_graph (share s t) = pl_graph s"
  "as_started (share s t) = as_started t" "as_futures (share s t) = as_futures t"
  "idle (share s t) = idle t"
  by (simp_all add: share_def pl_cache_def pl_graph_def idle_def)

text \<open>The lifespan of the application starts and stops the actors.\<close>

definition ensure_async_runtime :: "async_server \<Rightarrow> async_server" where
  "ensure_async_runtime st = (fst st, start_runtime (share (fst st) (snd st)))"

definition shutdown_async_runtime :: "async_server \<Rightarrow> async_server" where
  "shutdown_async_runtime st = (fst st, if as_started (snd st) then stop_runtime (snd st) else snd st)"

subsection \<open>Evaluation\<close>

text \<open>What the awaited future holds; an open one would keep the caller waiting.\<close>

definition awaited :: "actor_system \<Rightarrow> decision result" where
  "awaited t = (case last (as_futures t) of
      Answered d \<Rightarrow> Inr d | Failed e \<Rightarrow> Inl e | _ \<Rightarrow> Inl (ExternalError ''CancelledError''))"

definition async_evaluate_event ::
  "api_env \<Rightarrow> (approval_bridge \<Rightarrow> string) \<Rightarrow> runtime_event \<Rightarrow> async_server \<Rightarrow> decision result \<times> async_server" where
  "async_evaluate_event A fresh ev st =
     (case apply_catalog_tool_labels ev (fst st) of
        Inl e \<Rightarrow> (Inl e, st)
      | Inr ev1 \<Rightarrow>
          (let (prompt_event, s1) = prepare_llm_prompt_event ev1 (fst st);
               finish = (\<lambda>answer. ebind answer (\<lambda>d. Inr (with_client_action (finalize_remote_decision A prompt_event d))))
           in if as_started (snd st)
              then (let t1 = run_request (ae_ext A) fresh (ae_now A) ev1 (share s1 (snd st))
                    in (finish (awaited t1), unshare t1 s1, t1))
              else (let (answer, s2) = handle_attempt (ae_ext A) (ae_now A) (ae_elapsed A) ev1 s1
                    in (finish (ebind answer (\<lambda>(d, _). Inr d)), s2, share s2 (snd st)))))"

definition async_post_evaluate ::
  "api_env \<Rightarrow> (approval_bridge \<Rightarrow> string) \<Rightarrow> string option \<Rightarrow> runtime_event result \<Rightarrow> async_server \<Rightarrow>
   decision api \<times> async_server" where
  "async_post_evaluate A fresh key body st =
     (case abind (check_api_key key (fst st)) (\<lambda>_.
        case body of Inl e \<Rightarrow> Inl (HttpError 422 (DetailExc e)) | Inr ev \<Rightarrow> Inr ev) of
        Inl e \<Rightarrow> (Inl e, st)
      | Inr ev \<Rightarrow> (let (answer, st1) = async_evaluate_event A fresh ev st in (uncaught answer, st1)))"

fun async_evaluate_all ::
  "api_env \<Rightarrow> (approval_bridge \<Rightarrow> string) \<Rightarrow> runtime_event result list \<Rightarrow> async_server \<Rightarrow>
   decision result list \<times> async_server" where
  "async_evaluate_all A fresh [] st = ([], st)"
| "async_evaluate_all A fresh (raw # raws) st =
     (let (answer, st1) = (case raw of Inl e \<Rightarrow> (Inl e, st) | Inr ev \<Rightarrow> async_evaluate_event A fresh ev st);
          (answers, st2) = async_evaluate_all A fresh raws st1
      in (answer # answers, st2))"

subsection \<open>Changing rules\<close>

text \<open>\<open>_sync_async_rules\<close>: the actors get the active rules and forget their views of the agents.\<close>

definition sync_async_rules :: "async_server \<Rightarrow> async_server" where
  "sync_async_rules st =
     (let t = share (fst st) (snd st)
      in (fst st, if as_started t then load_runtime_rules (active_rules (guard_of (fst st))) t else t))"

fun changes_rules :: "request \<Rightarrow> bool" where
  "changes_rules (ReloadRules source keep) = True"
| "changes_rules (UpsertPack pid source) = True"
| "changes_rules (DeletePack pid) = True"
| "changes_rules (ReloadPacks path) = True"
| "changes_rules (CreateAgentRule agent source) = True"
| "changes_rules (DeleteAgentRule agent rid) = True"
| "changes_rules (BindAgent agent pid) = True"
| "changes_rules (UnbindAgent agent pid) = True"
| "changes_rules _ = False"

text \<open>The other endpoints do what they do in synchronous mode; only success is passed on to the actors.\<close>

definition async_change ::
  "api_env \<Rightarrow> string option \<Rightarrow> request \<Rightarrow> async_server \<Rightarrow> http_error option \<times> async_server" where
  "async_change A key r st =
     (let (out, s1) = serve A key r (fst st)
      in if out = None \<and> changes_rules r then (out, sync_async_rules (s1, snd st))
         else (out, s1, share s1 (snd st)))"

text \<open>Metrics are there only in this mode; those of the review and audit loops are with \<open>Runtime_Loops\<close>.\<close>

definition get_metrics :: "async_server \<Rightarrow> (bool \<times> nat \<times> nat \<times> decision_loop \<times> dynamic_loop \<times> nat \<times> counter) option" where
  "get_metrics st =
     (let t = snd st
      in Some (as_started t, length (as_futures t), inflight t, as_metrics t, as_dynamic t, as_degrade_total t, as_degrade_profiles t))"

subsection \<open>The actors answer like the pipeline\<close>

text \<open>Two pipelines with the same shared fields and coherent evaluators of the same version.\<close>

definition same_view :: "'a pipeline_scheme \<Rightarrow> 'b pipeline_scheme \<Rightarrow> bool" where
  "same_view p q \<longleftrightarrow> pl_writer p = pl_writer q \<and> pl_router p = pl_router q \<and> pl_allowlists p = pl_allowlists q \<and>
     pl_signals p = pl_signals q \<and> evaluator_wf (pl_eval p, pl_router p) \<and> evaluator_wf (pl_eval q, pl_router q) \<and>
     fe_routed (pl_eval p) \<and> fe_routed (pl_eval q) \<and> fe_rule_version (pl_eval p) = fe_rule_version (pl_eval q)"

lemma same_view_cache: "same_view p q \<Longrightarrow> pl_cache p = pl_cache q \<and> pl_graph p = pl_graph q"
  by (simp add: same_view_def pl_cache_def pl_graph_def)

lemma same_view_rules: "same_view p q \<Longrightarrow> agent_rules a (pl_eval p, pl_router p) = agent_rules a (pl_eval q, pl_router q)"
  by (simp add: same_view_def agent_rules_def)

lemma same_view_features:
  assumes "same_view p q"
  shows "attempt_features now ev p = attempt_features now ev q"
proof -
  note c = same_view_cache [OF assms] and r = same_view_rules [OF assms]
  have wf: "evaluator_wf (pl_eval p, pl_router p)" "evaluator_wf (pl_eval q, pl_router q)"
    and f: "pl_allowlists p = pl_allowlists q" "pl_signals p = pl_signals q" "pl_writer p = pl_writer q"
    using assms by (auto simp: same_view_def)
  have graph: "pl_graph (x\<lparr>pl_eval := fe, pl_router := rt\<rparr>) = pl_graph x" for x :: "'z pipeline_scheme" and fe rt
    by (simp add: pl_graph_def)
  show ?thesis
    unfolding attempt_features_def fast_features_def rules_in_scope_value
    by (simp add: attempt_ready_def attempt_event_def c r f graph Let_def view_for_value wf)
qed

lemma same_view_answer:
  assumes "same_view p q"
  shows "ebind (fst (handle_attempt E now elapsed ev p)) (\<lambda>(d, _). Inr d) =
    ebind (fst (handle_attempt E now elapsed' ev q)) (\<lambda>(d, _). Inr d :: decision result)"
proof -
  let ?a = "p_agent_id (ev_principal ev)"
  have en: "attempt_event ev p = attempt_event ev q" using same_view_cache [OF assms] by (simp add: attempt_event_def)
  have feat: "attempt_features now ev p = attempt_features now ev q" by (rule same_view_features [OF assms])
  have wf: "evaluator_wf (pl_eval p, pl_router p)" "evaluator_wf (pl_eval q, pl_router q)"
    and v: "fe_rule_version (pl_eval p) = fe_rule_version (pl_eval q)"
    using assms by (auto simp: same_view_def)
  show ?thesis
  proof (cases rule: handle_attempt_cases [of now ev p E elapsed])
    case (failed e)
    then show ?thesis
      using feat by (cases rule: handle_attempt_cases [of now ev q E elapsed']) simp_all
  next
    case P: (decided f p2 st)
    show ?thesis
    proof (cases rule: handle_attempt_cases [of now ev q E elapsed'])
      case (failed e)
      then show ?thesis using feat P(1) by simp
    next
      case Q: (decided f' q2 st')
      have ready: "pl_eval (attempt_ready now ev x) = pl_eval x" "pl_router (attempt_ready now ev x) = pl_router x"
        for x :: "'z pipeline_scheme" by (simp_all add: attempt_ready_def)
      have p2: "(pl_eval p2, pl_router p2) = snd (view_for ?a (pl_eval p, pl_router p))"
        and q2: "(pl_eval q2, pl_router q2) = snd (view_for ?a (pl_eval q, pl_router q))"
        by (simp_all add: P(2) Q(2) rules_in_scope_value ready attempt_event_same)
      have "f = f'" using feat P(1) Q(1) by simp
      moreover have "fst (evaluate E (attempt_event ev q) f (pl_eval p2, pl_router p2)) =
          fst (evaluate E (attempt_event ev q) f (pl_eval q2, pl_router q2))"
        unfolding p2 q2
        by (intro evaluate_same_rules evaluator_wf_view_for wf)
          (simp_all add: attempt_event_same same_view_rules [OF assms] view_for_version v)
      ultimately show ?thesis using P(3,4) Q(3,4) by (simp add: en)
    qed
  qed
qed

lemma prepare_value:
  "prepare_llm_prompt_event ev s = (fst (enrich_event ev (pl_cache s)), update_cache (\<lambda>_. snd (enrich_event ev (pl_cache s))) s)"
  by (simp add: prepare_llm_prompt_event_def split_beta)

text \<open>What one evaluation needs of the two states: nothing in flight, evaluators that are up to date.\<close>

definition async_ready :: "async_server \<Rightarrow> bool" where
  "async_ready st \<longleftrightarrow> idle (snd st) \<and> server_ok (fst st) \<and> evaluator_wf (pl_eval (snd st), pl_router (fst st)) \<and>
     fe_routed (pl_eval (fst st)) \<and> fe_routed (pl_eval (snd st)) \<and>
     fe_rule_version (pl_eval (fst st)) = fe_rule_version (pl_eval (snd st))"

definition no_signals :: "rat \<Rightarrow> runtime_event \<Rightarrow> api_server \<Rightarrow> bool" where
  "no_signals now ev s \<longleftrightarrow> dict_getd (sg_signals (gc_session_signals now (pl_signals s))) (p_session_id (ev_principal ev)) [] = []"

lemma labels_principal: "apply_catalog_tool_labels ev s = Inr ev1 \<Longrightarrow> ev_principal ev1 = ev_principal ev"
  by (auto simp: apply_catalog_tool_labels_def Let_def ebind_Inr_iff with_tool_call_def split: option.splits if_splits)

lemma async_evaluate_like_sync:
  assumes r: "async_ready st" and n: "no_signals (ae_now A) ev (fst st)"
  shows "fst (async_evaluate_event A fresh ev st) = fst (evaluate_event A ev (fst st))"
proof (cases "apply_catalog_tool_labels ev (fst st)")
  case (Inl e)
  then show ?thesis by (simp add: async_evaluate_event_def evaluate_event_def)
next
  case (Inr ev1)
  let ?s = "fst st" and ?t = "snd st"
  define pe s1 where "pe = fst (prepare_llm_prompt_event ev1 ?s)" and "s1 = snd (prepare_llm_prompt_event ev1 ?s)"
  then have prep: "prepare_llm_prompt_event ev1 ?s = (pe, s1)" by simp
  have s1: "server_ok s1" using prepare_ok [of ?s ev1] r by (simp add: s1_def async_ready_def)
  have same: "pl_eval s1 = pl_eval ?s" "pl_router s1 = pl_router ?s" "pl_signals s1 = pl_signals ?s"
    "pl_allowlists s1 = pl_allowlists ?s"
    by (simp_all add: s1_def prepare_value)
  let ?u = "share s1 ?t"
  have view: "same_view ?u s1"
    using r s1 by (simp add: same_view_def async_ready_def server_ok_def pipeline_ok_def same)
  obtain answer p1 where h: "handle_attempt (ae_ext A) (ae_now A) (ae_elapsed A) ev1 ?u = (answer, p1)" by fastforce
  obtain answer' s2 where h': "handle_attempt (ae_ext A) (ae_now A) (ae_elapsed A) ev1 s1 = (answer', s2)" by fastforce
  have eq: "ebind answer (\<lambda>(d, _). Inr d) = ebind answer' (\<lambda>(d, _). Inr d :: decision result)"
    using same_view_answer [OF view, of "ae_ext A" "ae_now A" "ae_elapsed A" ev1 "ae_elapsed A"] by (simp add: h h')
  have "as_futures (run_request (ae_ext A) fresh (ae_now A) ev1 ?u) =
      as_futures ?t @ [case answer of Inl e \<Rightarrow> Failed e | Inr (d, _) \<Rightarrow> Answered d]"
  proof -
    have "idle ?u" "fe_routed (pl_eval ?u)" using r by (simp_all add: async_ready_def)
    moreover have "pipeline_ok ?u"
      using view s1 by (simp add: same_view_def pipeline_ok_def server_ok_def)
    moreover have "dict_getd (sg_signals (gc_session_signals (ae_now A) (pl_signals ?u))) (p_session_id (ev_principal ev1)) [] = []"
      using n labels_principal [OF Inr] by (simp add: no_signals_def same)
    ultimately show ?thesis using actor_matches_pipeline [OF _ _ _ _ h refl] by simp
  qed
  then have "awaited (run_request (ae_ext A) fresh (ae_now A) ev1 ?u) = ebind answer (\<lambda>(d, _). Inr d)"
    by (cases answer) (auto simp: awaited_def)
  moreover have "as_started ?t" using r by (simp add: async_ready_def idle_def)
  ultimately show ?thesis
    by (simp add: async_evaluate_event_def evaluate_event_def Inr prep h' eq Let_def) (cases answer'; auto)
qed

text \<open>After a change that succeeds, the evaluator of the actors is up to date, whatever it held before.\<close>

lemma sync_up_to_date:
  assumes "router_ok (pl_router (fst st))" and "as_started (snd st)"
  shows "evaluator_wf (pl_eval (snd (sync_async_rules st)), pl_router (fst (sync_async_rules st)))"
  using assms by (simp add: sync_async_rules_def Let_def load_runtime_rules_def evaluator_wf_load)

lemma change_reaches_actors:
  assumes ok: "server_ok (fst st)" and started: "as_started (snd st)" and r: "changes_rules r"
    and run: "async_change A key r st = (None, st')"
  shows "evaluator_wf (pl_eval (snd st'), pl_router (fst st')) \<and> server_ok (fst st') \<and> as_started (snd st')"
proof -
  obtain s1 where s1: "serve A key r (fst st) = (None, s1)" "st' = sync_async_rules (s1, snd st)"
    using run r by (cases "serve A key r (fst st)") (auto simp: async_change_def split: if_splits)
  have ok1: "server_ok s1" using serve_ok [OF ok, of r A key] s1(1) by simp
  then have "router_ok (pl_router s1)" by (simp add: server_ok_def pipeline_ok_def evaluator_wf_def evaluator_ok_def)
  with ok1 started s1(2) show ?thesis
    using sync_up_to_date [of "(s1, snd st)"] by (simp add: sync_async_rules_def Let_def load_runtime_rules_def)
qed

text \<open>
  A change that fails half-way is not passed on: the guard, whose evaluator forgot its views, judges an
  agent by what was applied so far, the actors by the view they have.
\<close>

lemma failed_change_leaves_actors:
  assumes "server_ok (fst st)" and "\<exists>path. r = ReloadPacks path" and run: "async_change A key r st = (Some e, st')"
    and seen: "fe_routed (pl_eval (snd st))" "map_of (fe_agent_views (pl_eval (snd st))) a = Some view"
  shows "fst (view_for a (pl_eval (snd st'), pl_router (fst st'))) = view"
    and "fe_routed (pl_eval (fst st')) \<Longrightarrow>
      fst (view_for a (pl_eval (fst st'), pl_router (fst st'))) = build_view (merged_for a (pl_router (fst st')))"
proof -
  obtain s1 where s1: "serve A key r (fst st) = (Some e, s1)" "st' = (s1, share s1 (snd st))"
    using run by (cases "serve A key r (fst st)") (auto simp: async_change_def split: if_splits)
  show "fst (view_for a (pl_eval (snd st'), pl_router (fst st'))) = view"
    using seen by (simp add: s1 view_for_def)
  have "server_ok s1" using serve_ok [OF assms(1), of r A key] assms(2) s1(1) by auto
  then show "fe_routed (pl_eval (fst st')) \<Longrightarrow>
      fst (view_for a (pl_eval (fst st'), pl_router (fst st'))) = build_view (merged_for a (pl_router (fst st')))"
    by (simp add: s1 server_ok_def pipeline_ok_def view_for_value agent_rules_def)
qed

end
