(* ===== verification/Guard_Facade.thy ===== *)
theory Guard_Facade
  imports Remote_Client Framework_Adapters
begin

text \<open>
  The rest of the guard's own interface (\<open>sdk/guard.py\<close>, \<open>sdk/middleware.py\<close>): wrapping and registering
  tools, reporting them to a remote runtime, clearing a session, ending everything.  A guard is local or
  has a client for a runtime; the exchange with that runtime is a parameter, as in \<open>Remote_Client\<close>.
\<close>

subsection \<open>Registering tools\<close>

text \<open>The metadata a wrapper carries.\<close>

record tool_metadata =
  tm_tool_name :: string
  tm_sink_type :: string
  tm_labels :: catalog_labels
  tm_syntax :: "string list"

text \<open>
  Wrapping builds the static label, which rejects unknown literals; the sink type is a free string
  until the first call builds its event.
\<close>

definition wrap_tool :: "string \<Rightarrow> string \<Rightarrow> catalog_labels \<Rightarrow> string list \<Rightarrow> 'f \<Rightarrow> (tool_metadata \<times> 'f patched) result" where
  "wrap_tool tool_name sink labels params fn =
     ebind (static_label labels) (\<lambda>_. Inr (\<lparr>tm_tool_name = tool_name, tm_sink_type = sink, tm_labels = labels,
        tm_syntax = params\<rparr>, Guarded tool_name fn))"

definition sink_type_of :: "string \<Rightarrow> sink_type option" where
  "sink_type_of s = find (\<lambda>k. sink_type_value k = s) [SinkNone, SinkEmail, SinkHttp, SinkShell, SinkFsWrite, SinkDbWrite, SinkLlmOut]"

text \<open>The wrapper of \<open>Sdk_Wrappers\<close> for metadata: \<open>None\<close> stands for the validation error every call raises.\<close>

definition wrapped_of :: "tool_metadata \<Rightarrow> (pydict \<Rightarrow> pyval result) \<Rightarrow> wrapped_tool option" where
  "wrapped_of m fn =
     (case (sink_type_of (tm_sink_type m), static_label (tm_labels m)) of
        (Some sink, Inr lb) \<Rightarrow> Some \<lparr>wt_name = tm_tool_name m, wt_sink = sink, wt_label = lb, wt_syntax = tm_syntax m, wt_fn = fn\<rparr>
      | _ \<Rightarrow> None)"

definition build_tool_catalog_entry :: "string \<Rightarrow> tool_metadata option \<Rightarrow> string \<Rightarrow> catalog_entry option" where
  "build_tool_catalog_entry tool_name meta owner =
     (let raw = (case meta of None \<Rightarrow> tool_name | Some m \<Rightarrow> str_or (tm_tool_name m) tool_name);
          name = str_strip raw
      in if name = [] then None
         else Some (case meta of
             None \<Rightarrow> \<lparr>ce_owner_agent_id = owner, ce_name = name, ce_labels = default_catalog_labels,
                ce_input_params = [], ce_updated_at_ms = None\<rparr>
           | Some m \<Rightarrow> \<lparr>ce_owner_agent_id = owner, ce_name = name, ce_labels = tm_labels m,
                ce_input_params = tm_syntax m, ce_updated_at_ms = None\<rparr>))"

record ('b, 's) remote_side =
  rs_client :: remote_client
  rs_post :: "(catalog_entry, 'b, 's) exchange"
  rs_read :: "'b \<Rightarrow> bool result"

text \<open>A report that fails or is not accepted is logged.\<close>

definition report_tool_registration :: "('b, 's) remote_side option \<Rightarrow> catalog_entry \<Rightarrow> 's \<Rightarrow> 's" where
  "report_tool_registration side e srv =
     (case side of
        None \<Rightarrow> srv | Some R \<Rightarrow> snd (client_upsert_tool (rs_client R) (rs_post R) (rs_read R) e srv))"

text \<open>The tool is in the registry before anything is reported, and stays there when there is no session.\<close>

definition record_tool_registration ::
  "('b, 's) remote_side option \<Rightarrow> session_var \<Rightarrow> string \<Rightarrow> tool_metadata option \<Rightarrow> 'f patched \<Rightarrow>
   'f guard_registry \<times> 's \<Rightarrow> 'f patched result \<times> 'f guard_registry \<times> 's" where
  "record_tool_registration side cur tool_name meta wrapped st =
     (let reg = record_tool tool_name wrapped (fst st)
      in if side = None then (Inr wrapped, reg, snd st)
         else (case cur of
                 None \<Rightarrow> (Inl (RuntimeError (''Remote tool registration requires an active Guard session so '' @
                     ''owner_agent_id can be attached to the tool catalog entry.'')), reg, snd st)
               | Some session \<Rightarrow>
                   (Inr wrapped, reg,
                    (case build_tool_catalog_entry tool_name meta (p_agent_id (gs_principal session)) of
                       None \<Rightarrow> snd st | Some e \<Rightarrow> report_tool_registration side e (snd st)))))"

text \<open>\<open>Guard.register\<close>, which the decorator \<open>Guard.tool\<close> applies to its function.\<close>

definition register_tool ::
  "('b, 's) remote_side option \<Rightarrow> session_var \<Rightarrow> string \<Rightarrow> string \<Rightarrow> catalog_labels \<Rightarrow> string list \<Rightarrow> 'f \<Rightarrow>
   'f guard_registry \<times> 's \<Rightarrow> 'f patched result \<times> 'f guard_registry \<times> 's" where
  "register_tool side cur tool_name sink labels params fn st =
     (case wrap_tool tool_name sink labels params fn of
        Inl e \<Rightarrow> (Inl e, st)
      | Inr (meta, wrapped) \<Rightarrow> record_tool_registration side cur tool_name (Some meta) wrapped st)"

text \<open>
  \<open>ToolMiddleware.install\<close> on a registry of raw or guarded callables with their parameter names; it
  stops at the first registration that raises.
\<close>

fun middleware_install ::
  "('b, 's) remote_side option \<Rightarrow> session_var \<Rightarrow> (string \<times> string list \<times> 'f patched) list \<Rightarrow>
   (string, 'f patched) dict \<Rightarrow> 'f guard_registry \<times> 's \<Rightarrow>
   unit result \<times> (string, 'f patched) dict \<times> 'f guard_registry \<times> 's" where
  "middleware_install side cur [] tools st = (Inr (), tools, st)"
| "middleware_install side cur ((name, params, Guarded n f) # rest) tools st = middleware_install side cur rest tools st"
| "middleware_install side cur ((name, params, Raw f) # rest) tools st =
     (case wrap_tool name ''none'' default_catalog_labels params f of
        Inl e \<Rightarrow> (Inl e, tools, st)
      | Inr (meta, wrapped) \<Rightarrow>
          (case record_tool_registration side cur name (Some meta) wrapped st of
             (Inl e, st1) \<Rightarrow> (Inl e, dict_set name wrapped tools, st1)
           | (Inr _, st1) \<Rightarrow> middleware_install side cur rest (dict_set name wrapped tools) st1))"

subsection \<open>Sessions and the end\<close>

text \<open>Clearing a session drops its signals and, in a local guard, the whole state cache.\<close>

definition clear_session :: "bool \<Rightarrow> string \<Rightarrow> 'a pipeline_scheme \<Rightarrow> 'a pipeline_scheme" where
  "clear_session remote session_id p =
     (let p1 = p\<lparr>pl_signals := clear_session_signals session_id (pl_signals p)\<rparr>
      in if remote then p1 else update_cache cache_clear p1)"

definition assert_local :: "bool \<Rightarrow> string \<Rightarrow> unit result" where
  "assert_local remote method =
     (if remote then Inl (RuntimeError (''Guard.'' @ method @ ''() is only available in in-process mode. '' @
        ''Use the /rules/reload endpoint on the runtime server instead.'')) else Inr ())"

text \<open>Closing ends the session that was started, detaches the hook of the updater, and closes the writer.\<close>

definition close_guard ::
  "string option \<Rightarrow> (session_var option \<times> session_var) \<times> 'a pipeline_scheme \<Rightarrow>
   (session_var option \<times> session_var) \<times> 'a pipeline_scheme" where
  "close_guard hook st =
     (end_session (fst st),
      case hook of None \<Rightarrow> snd st | Some h \<Rightarrow> (snd st)\<lparr>pl_slow := snd (remove_hook h (pl_slow (snd st)))\<rparr>)"

definition dedupe_rules :: "compiled_rule list \<Rightarrow> compiled_rule list" where
  "dedupe_rules rules = dict_values (dict_index cr_rule_id [] rules)"

datatype graph_backend = MemoryGraph | GivenGraph

text \<open>Every name stands for the store in memory; only an object is taken as it is.\<close>

definition build_graph_store :: "string option \<Rightarrow> graph_backend" where
  "build_graph_store backend = (case backend of None \<Rightarrow> GivenGraph | Some _ \<Rightarrow> MemoryGraph)"

subsection \<open>What registration does\<close>

lemma sink_type_of_value [simp]: "sink_type_of (sink_type_value k) = Some k"
  by (cases k) (simp_all add: sink_type_of_def)

lemma client_upsert_body:
  "rs_post R (client_headers (rs_client R)) e srv = (Body b, srv') \<Longrightarrow>
   report_tool_registration (Some R) e srv = srv'"
  by (simp add: report_tool_registration_def client_upsert_tool_def)

text \<open>Registered under its name and guarded, whatever happens next.\<close>

lemma registered_is_guarded:
  assumes "static_label labels = Inr lb"
  shows "map_of (fst (snd (register_tool side cur name sink labels params fn st))) name = Some (Guarded name fn)"
  using assms by (auto simp: register_tool_def wrap_tool_def record_tool_registration_def record_tool_def Let_def
      split: option.split)

text \<open>A wrong label is refused at registration; a wrong sink only when the tool is called.\<close>

lemma bad_label_not_registered:
  "static_label labels = Inl e \<Longrightarrow> register_tool side cur name sink labels params fn st = (Inl e, st)"
  by (simp add: register_tool_def wrap_tool_def)

lemma bad_sink_registered:
  assumes "static_label labels = Inr lb" and "sink_type_of sink = None"
  shows "fst (register_tool None cur name sink labels params fn st) = Inr (Guarded name fn)"
    and "wrapped_of \<lparr>tm_tool_name = name, tm_sink_type = sink, tm_labels = labels, tm_syntax = params\<rparr> g = None"
  using assms by (simp_all add: register_tool_def wrap_tool_def record_tool_registration_def wrapped_of_def Let_def)

text \<open>The middleware leaves guarded callables alone and guards every other one.\<close>

lemma middleware_keeps_others:
  "name \<notin> fst ` set ts \<Longrightarrow> map_of (fst (snd (middleware_install side cur ts tools st))) name = map_of tools name"
  by (induction side cur ts tools st rule: middleware_install.induct)
    (auto split: sum.split prod.split)

lemma middleware_guards:
  assumes "fst (middleware_install side cur ts tools st) = Inr ()" and "distinct (map fst ts)"
    and "(name, params, Raw f) \<in> set ts"
  shows "map_of (fst (snd (middleware_install side cur ts tools st))) name = Some (Guarded name f)"
  using assms
proof (induction side cur ts tools st rule: middleware_install.induct)
  case (3 side cur nm ps g rest tools st)
  have w: "wrap_tool nm ''none'' default_catalog_labels ps g =
      Inr (\<lparr>tm_tool_name = nm, tm_sink_type = ''none'', tm_labels = default_catalog_labels, tm_syntax = ps\<rparr>, Guarded nm g)"
    by (simp add: wrap_tool_def static_label_def default_catalog_labels_def boundary_of_def sensitivity_of_def integrity_of_def)
  obtain a st1 where r: "record_tool_registration side cur nm (Some \<lparr>tm_tool_name = nm, tm_sink_type = ''none'',
      tm_labels = default_catalog_labels, tm_syntax = ps\<rparr>) (Guarded nm g) st = (a, st1)" by (meson surj_pair)
  obtain u where a: "a = Inr u" using 3(2) by (cases a) (simp_all add: w r)
  show ?case
  proof (cases "name = nm")
    case True
    then have "f = g" using 3(3,4) by (auto simp: rev_image_eqI)
    moreover have "name \<notin> fst ` set rest" using 3(3) True by auto
    ultimately show ?thesis using True by (simp add: w r a middleware_keeps_others)
  next
    case False
    then show ?thesis using 3(1) [OF w refl r [symmetric] a] 3(2-4) by (simp add: w r a)
  qed
qed auto

subsection \<open>Clearing a session\<close>

text \<open>Clearing one session of a local guard empties the traces and labels of all of them.\<close>

lemma clear_session_forgets_all:
  "read_trace k (pl_cache (clear_session False sid p)) = []"
  "read_trace_rich k (pl_cache (clear_session False sid p)) = []"
  "smembers k (pl_cache (clear_session False sid p)) = []"
  by (simp_all add: clear_session_def cache_clear_def empty_cache_def read_trace_def read_trace_rich_def
      smembers_def deque_items_def dict_getd_def)

lemma clear_session_ok: "pipeline_ok p \<Longrightarrow> pipeline_ok (clear_session remote sid p)"
  by (simp add: clear_session_def pipeline_ok_def update_cache_def cache_wf_clear pl_cache_def Let_def)

end
