(* ===== verification/Deployment_Properties.thy ===== *)
theory Deployment_Properties
  imports Storage_Properties Command_Line Async_Api Guard_Facade Actor_Properties Api_Properties
begin

text \<open>
  What holds of a server as it is deployed: built from the command line, with actors behind its endpoints,
  with a database under its packs; and what the guard's own interface promises.
\<close>

subsection \<open>A server that comes up\<close>


definition policy_files :: file_system where
  "policy_files = \<lparr>fs_dir = (\<lambda>_. None), fs_file = (\<lambda>p. if p = ''r/a.rules'' then Some pack_text else None)\<rparr>"









subsection \<open>The command line\<close>

text \<open>C38: Rule files that the check command passes load: when it exits with zero on plain paths of files, the validate
  command exits with zero on them as well and counts as many rules.\<close>

theorem checked_files_validate:
  assumes "cmd_check E F (CheckPaths ps) = Inr (0, reports)" and "\<forall>p \<in> set ps. plain_path (rp_files F) p"
  shows "cmd_validate E (rp_files F) ps = (0, sum_list (map vr_rule_count reports), [])"
proof -
  let ?fs = "rp_files F"
  have ps: "ps \<noteq> []" using assms(1) by (auto simp: cmd_check_def)
  have "concat (map (expand_path F) ps) = ps"
    using assms(2) by (induction ps) (auto simp: expand_path_def plain_path_def)
  then have r: "emap (validate_file E ?fs) ps = Inr reports" "list_all report_ok reports"
    using assms(1) ps by (cases ps; auto simp: cmd_check_def ebind_Inr_iff split: if_splits)+
  have "list_all2 (\<lambda>p n. \<exists>rules. load_rules E ?fs False (Some (OneSource p)) = Inr rules \<and> length rules = n) ps
      (map vr_rule_count reports)"
    unfolding list_all2_map2
  proof (rule list.rel_mono_strong [OF emap_list_all2 [OF r(1)]])
    fix p rep assume "p \<in> set ps" "rep \<in> set reports" "validate_file E ?fs p = Inr rep"
    then show "\<exists>rules. load_rules E ?fs False (Some (OneSource p)) = Inr rules \<and> length rules = vr_rule_count rep"
      using clean_file_loads assms(2) r(2) by (auto simp: list_all_iff)
  qed
  then show ?thesis using ps by (rule cmd_validate_zero)
qed

definition one_path :: rule_paths where
  "one_path = \<lparr>rp_files = policy_files, rp_under = (\<lambda>_. []), rp_glob = (\<lambda>_. [])\<rparr>"

lemma checked_files_validate_example:
  "\<exists>reports. cmd_check sample_ext one_path (CheckPaths [''r/a.rules'']) = Inr (0, reports) \<and>
     cmd_validate sample_ext policy_files [''r/a.rules''] = (0, sum_list (map vr_rule_count reports), [])"
proof -
  have "map_sum id fst (cmd_check sample_ext one_path (CheckPaths [''r/a.rules''])) = Inr 0" by code_simp
  then obtain reports where r: "cmd_check sample_ext one_path (CheckPaths [''r/a.rules'']) = Inr (0, reports)"
    by (cases "cmd_check sample_ext one_path (CheckPaths [''r/a.rules''])") auto
  have "plain_path (rp_files one_path) ''r/a.rules''" by code_simp
  then show ?thesis using checked_files_validate [OF r] r by (simp add: one_path_def)
qed

subsection \<open>Endpoints before actors\<close>






subsection \<open>The guard's own interface\<close>

text \<open>Installing the middleware on a registry guards every tool that was not guarded before, under its name.\<close>

theorem middleware_guards_registry:
  assumes "fst (middleware_install side cur ts tools st) = Inr ()" and "distinct (map fst ts)"
    and "(name, params, Raw f) \<in> set ts"
  shows "map_of (fst (snd (middleware_install side cur ts tools st))) name = Some (Guarded name f)"
  by (rule middleware_guards [OF assms])

text \<open>Clearing one session of a guard in the process forgets the traces and labels of all sessions.\<close>

theorem clear_session_forgets_every_session:
  "read_trace k (pl_cache (clear_session False sid p)) = [] \<and>
   read_trace_rich k (pl_cache (clear_session False sid p)) = [] \<and>
   smembers k (pl_cache (clear_session False sid p)) = []"
  by (simp add: clear_session_forgets_all)

end
