(* ===== verification/Spec2Isabelle.thy ===== *)
theory Spec2Isabelle
  imports Runtime_Properties Policy_Properties Tooling_Properties Actor_Properties Api_Properties
    Updater_Properties Adapter_Properties Support_Properties Deployment_Properties
begin

text \<open>
  A model of AgentGuard (\<open>src/agentguard\<close>), a runtime that stands between an agent and its tools:
  every tool call becomes an event, rules written in a small language are evaluated on it, and the
  decision is enforced before the tool may run.

  \<^bold>\<open>How the parts interact.\<close>  Rule text is tokenized, parsed and compiled into predicates
  (\<open>policy/dsl\<close>).  Compiled rules live in packs, packs are bound to agents, and a router merges the
  packs of an agent (\<open>policy/routing.py\<close>, \<open>policy/rules\<close>); the guard edits packs and bindings
  (\<open>sdk/guard.py\<close>).  The pipeline (\<open>runtime/dispatcher.py\<close>) enriches an attempt from the
  session cache, computes features, asks the evaluator, records the attempt in the trace, the graph
  writer's queue and the audit log, and hands the decision to the enforcer (\<open>degrade/planner.py\<close>),
  which runs the tool, refuses, rewrites and revalidates, or waits for a reviewer
  (\<open>review/tickets.py\<close>).  The same steps are also taken by actors that exchange messages
  (\<open>runtime/actors\<close>, \<open>runtime/loops\<close>).  Tools reach the pipeline through wrappers and framework
  adapters (\<open>sdk/wrappers.py\<close>, \<open>sdk/adapters\<close>), in the process or over HTTP: the server
  (\<open>api/routes.py\<close>) evaluates events, keeps the tool catalog and its labels, manages rules, packs and
  bindings, and the client (\<open>sdk/client.py\<close>) decides what to do when it cannot be reached.  A watcher
  reloads rule files (\<open>runtime/watchers.py\<close>) and an updater asks a model for new rules
  (\<open>policy/rules/dynamic_store.py\<close>); both act on the guard.  The state cache may live in Redis, and packs,
  bindings, audit records and the catalog in PostgreSQL (\<open>storage\<close>).  The command line
  (\<open>__main__.py\<close>) checks rule files and starts a server (\<open>runtime/server.py\<close>) from its options.

  \<^bold>\<open>Theories.\<close>
  \<^item> \<open>Prelude\<close>: results with exceptions, insertion-ordered dictionaries, bounded deques, ASCII
    strings, the fact collections.  \<open>Values\<close>: Python values with truth, equality, order,
    hashability, \<open>in\<close>, \<open>repr\<close>, attributes; the record of external functions.
  \<^item> \<open>Events\<close>: \<open>models/\<close>.  \<open>Dsl_Ast\<close>, \<open>Dsl_Lexer\<close>, \<open>Dsl_Parser\<close>: rule text to
    syntax trees; \<open>Dsl_Printer\<close>, \<open>Rule_Printer\<close> print them and read them back;
    \<open>Parser_Bounds\<close> shows that the fuel suffices; \<open>Parsed_Rules\<close> that what parses compiles.
  \<^item> \<open>Trace_Pattern\<close> (patterns as regular expressions), \<open>Trace_Binding\<close> (TRACE clauses),
    \<open>Dsl_Paths\<close>, \<open>Dsl_Operators\<close>, \<open>Dsl_Functions\<close>, \<open>Rule_Compiler\<close>: \<open>policy/dsl/compiler.py\<close> and
    \<open>policy/dsl/trace_pattern.py\<close>.
  \<^item> \<open>Agent_Bindings\<close> (the interface \<open>binding_store\<close> and the in-memory store), \<open>Routing\<close>,
    \<open>Registry\<close>, \<open>Evaluator\<close>, \<open>Obligations\<close>, \<open>Guard_Rules\<close>, \<open>Guard_Machine\<close>: which
    rules an agent is judged by, and how.
  \<^item> \<open>Session_Store\<close> (the interface \<open>capped_log\<close>), \<open>Graph_Store\<close>, \<open>Graph_Builder\<close>,
    \<open>Enrichment\<close>: the state an attempt reads and leaves.
  \<^item> \<open>Degrade\<close>, \<open>Llm_Review\<close>, \<open>Approval\<close> (the interface \<open>approval_service\<close>), \<open>Enforcer\<close>,
    \<open>Audit_Log\<close>, \<open>Stats\<close>, \<open>Pipeline\<close>, \<open>Runtime_System\<close>: from decision to execution.
  \<^item> \<open>Runtime_Loops\<close> (the interface \<open>cooldown_gate\<close>), \<open>Actor_System\<close>, \<open>Actor_Machine\<close>,
    \<open>Actor_Invariants\<close>, \<open>Actor_Equivalence\<close>: the actor runtime, its invariants, and its agreement
    with the synchronous pipeline.
  \<^item> \<open>Sdk_Wrappers\<close>, \<open>Framework_Adapters\<close>: guarded functions, sessions, the remote pipeline, and what
    each adapter does with a decision.  \<open>Remote_Client\<close>: the HTTP client.  \<open>Guard_Facade\<close>: registering tools,
    the middleware, clearing a session (\<open>sdk/guard.py\<close>, \<open>sdk/middleware.py\<close>).
  \<^item> \<open>Tool_Catalog\<close>, \<open>Api_Server\<close>, \<open>Api_Rules\<close>, \<open>Api_Queries\<close>, \<open>Api_Machine\<close>: the catalog, the
    endpoints in synchronous mode, and the server as a machine that takes requests.  \<open>Async_Api\<close>: the
    endpoints in asynchronous mode, over the actors.
  \<^item> \<open>Redis_Cache\<close>, \<open>Postgres_Stores\<close>: the external stores.  \<open>Server_Boot\<close>: from options to a server.
    \<open>Command_Line\<close>: the commands and their exit codes.
  \<^item> \<open>Validator\<close>, \<open>Rule_Updater\<close>, \<open>Rule_Watcher\<close>, \<open>Pack_Config\<close>: checking rules, synthesising
    them, reloading them, and reading configurations of packs.
  \<^item> \<open>Llm_Backend\<close>: choosing a provider for a chat model, and the reports on audit records.
  \<^item> \<open>Sample\<close>: a small world for the examples.  \<open>Policy_Properties\<close>, \<open>Runtime_Properties\<close>,
    \<open>Actor_Properties\<close>, \<open>Api_Properties\<close>, \<open>Tooling_Properties\<close>, \<open>Updater_Properties\<close>,
    \<open>Adapter_Properties\<close>, \<open>Support_Properties\<close>, \<open>Storage_Properties\<close>, \<open>Deployment_Properties\<close>: the properties of the program, each with an example
    that applies it.

  \<^bold>\<open>State and errors.\<close>  Classes are records, dictionaries are association lists in insertion
  order, methods return the updated state, and whatever may raise returns a sum whose left side is
  the exception, so that the \<open>except\<close> clauses of the source are case distinctions.  Clock, random
  identifiers, the executor, the chat model, regular expressions, URL parsing, floating-point
  printing and attribute access on foreign classes are arguments.  Floating-point numbers are
  rationals.  A server of Redis or PostgreSQL is a function from a transaction or statement to an answer;
  \<open>redis_run\<close> and \<open>sql_step\<close> write down what their documentation says, and the theorems about the stores
  assume a server that behaves like them.

  \<^bold>\<open>Lemma groups.\<close>  Invariants kept by every operation (\<open>bindings_ok\<close>, \<open>router_ok\<close>,
  \<open>evaluator_wf\<close>, \<open>cache_wf\<close>, \<open>graph_ok\<close>, \<open>audit_ok\<close>, \<open>stats_ok\<close>, \<open>pipeline_ok\<close>, \<open>catalog_ok\<close>,
  \<open>server_ok\<close>, \<open>requests_ok\<close>, many collected in \<open>guard_intros\<close>); functional descriptions of the operations; refinements (the binding store and
  the relation, the evaluator's index and a linear scan, trace regular expressions and embeddings,
  the breadth-first search and reachability, the LRU cache and a list by recency, the endpoints and the
  pipeline, the actors and the pipeline, the stores outside and those in memory); round trips of the rule
  text and of packs through the database; termination.

  \<^bold>\<open>Bounds.\<close>  The parser gets eight rounds for each token and \<open>Parser_Bounds\<close> shows that it never
  runs out.  Path resolution gets 1000 stack frames, and any number from three on gives the same
  answer.  Degradation gets the caller's frames, and any number above the rewrite depth by two gives
  the same answer unless timed-out approvals degrade again.

  \<^bold>\<open>Not modelled.\<close>  The packages and servers of model providers, the Redis and PostgreSQL servers and
  their client libraries, HTTP, JSON and YAML, all behind parameters; how adapters probe a framework's
  objects for what to patch; parsing of arguments and printing; the front end and the examples.  Redis
  scans are only assumed to list matching keys, so that clearing ends is not claimed.  Thread scheduling is
  modelled where the source relies on it (the graph writer's queue, reviewers that race, calls that
  interleave, messages of actors), not inside an operation that holds a lock.
\<close>

end
